(* ===== verification/RustPrelude.thy ===== *)
theory RustPrelude
  imports Main "HOL-Library.Word"
begin

text \<open>
  What the components share: the part of Rust's \<open>str\<close> interface that the sources use, unsigned
  integer parsing and printing, and the collections of facts the component proofs rest on.

  A Rust string is modelled as the list of its UTF-8 bytes, so that \<open>len()\<close> is
  \<^term>\<open>length\<close>, a byte offset is a list position and a slice is \<^term>\<open>take\<close> and
  \<^term>\<open>drop\<close>. Operations that look at characters (trimming, whitespace splitting, character
  boundaries) are written on the UTF-8 encodings of the characters involved.
\<close>

named_theorems str_simps \<open>unfolding facts about the string operations\<close>
named_theorems str_len \<open>length bounds of the string operations\<close>

type_synonym str = "char list"
type_synonym u32 = "32 word"

section \<open>Literals that Isabelle strings have no escape for\<close>

abbreviation NL :: char where "NL \<equiv> CHR 0x0A"
abbreviation CR :: char where "CR \<equiv> CHR 0x0D"
abbreviation TAB :: char where "TAB \<equiv> CHR 0x09"
abbreviation SP :: char where "SP \<equiv> CHR 0x20"
abbreviation SLASH :: char where "SLASH \<equiv> CHR 0x2F"
abbreviation BACKSLASH :: char where "BACKSLASH \<equiv> CHR 0x5C"
abbreviation QUOTE :: char where "QUOTE \<equiv> CHR 0x27"
abbreviation DQUOTE :: char where "DQUOTE \<equiv> CHR 0x22"

section \<open>Prefixes, suffixes and substring search\<close>

definition starts_with :: "str \<Rightarrow> str \<Rightarrow> bool" where
  "starts_with s p \<longleftrightarrow> take (length p) s = p"

definition ends_with :: "str \<Rightarrow> str \<Rightarrow> bool" where
  "ends_with s p \<longleftrightarrow> length p \<le> length s \<and> drop (length s - length p) s = p"

definition strip_prefix :: "str \<Rightarrow> str \<Rightarrow> str option" where
  "strip_prefix s p = (if starts_with s p then Some (drop (length p) s) else None)"

definition strip_suffix :: "str \<Rightarrow> str \<Rightarrow> str option" where
  "strip_suffix s p = (if ends_with s p then Some (take (length s - length p) s) else None)"

text \<open>\<open>str::find\<close>: the byte offset of the first occurrence.\<close>

fun find_sub :: "str \<Rightarrow> str \<Rightarrow> nat option" where
  "find_sub [] p = (if p = [] then Some 0 else None)"
| "find_sub (c # s) p =
     (if starts_with (c # s) p then Some 0 else map_option Suc (find_sub s p))"

definition contains :: "str \<Rightarrow> str \<Rightarrow> bool" where
  "contains s p \<longleftrightarrow> find_sub s p \<noteq> None"

lemma starts_with_iff [str_simps]: "starts_with s p \<longleftrightarrow> (\<exists>r. s = p @ r)"
  unfolding starts_with_def by (metis append_eq_conv_conj append_take_drop_id)

lemma ends_with_iff [str_simps]: "ends_with s p \<longleftrightarrow> (\<exists>r. s = r @ p)"
proof
  assume "ends_with s p"
  then show "\<exists>r. s = r @ p"
    unfolding ends_with_def by (metis append_take_drop_id)
qed (auto simp: ends_with_def)

lemma starts_with_append [simp]: "starts_with (p @ r) p"
  by (simp add: starts_with_def)

lemma starts_with_Nil [simp]: "starts_with s []"
  by (simp add: starts_with_def)

lemma starts_with_Nil_left [simp]: "starts_with [] p \<longleftrightarrow> p = []"
  by (auto simp: starts_with_def)

lemma starts_with_Cons [simp]: "starts_with (c # s) (d # p) \<longleftrightarrow> c = d \<and> starts_with s p"
  by (auto simp: starts_with_def)

lemma ends_with_append [simp]: "ends_with (r @ p) p"
  by (auto simp: ends_with_def)

lemma strip_prefix_append [simp]: "strip_prefix (p @ r) p = Some r"
  by (simp add: strip_prefix_def)

lemma strip_prefix_Some_iff: "strip_prefix s p = Some r \<longleftrightarrow> s = p @ r"
  by (auto simp: strip_prefix_def str_simps)

lemma strip_suffix_append [simp]: "strip_suffix (r @ p) p = Some r"
  by (simp add: strip_suffix_def)

lemma strip_suffix_Some_iff: "strip_suffix s p = Some r \<longleftrightarrow> s = r @ p"
  by (auto simp: strip_suffix_def str_simps)

lemma find_sub_Some:
  "find_sub s p = Some i \<Longrightarrow> s = take i s @ p @ drop (i + length p) s \<and> i + length p \<le> length s"
proof (induction s p arbitrary: i rule: find_sub.induct)
  case (2 c s p)
  show ?case
  proof (cases "starts_with (c # s) p")
    case True
    then obtain r where r: "c # s = p @ r" by (auto simp: str_simps)
    from True 2(2) have "i = 0" by simp
    moreover have "length p \<le> length (c # s)" by (simp add: r)
    ultimately show ?thesis using r by simp
  next
    case False
    with 2(2) obtain j where "find_sub s p = Some j" and "i = Suc j" by auto
    with 2(1) [OF False this(1)] show ?thesis by simp
  qed
qed (auto split: if_splits)

lemma find_sub_None: "find_sub s p = None \<longleftrightarrow> (\<nexists>a b. s = a @ p @ b)"
proof (induction s p rule: find_sub.induct)
  case (1 p)
  then show ?case by auto
next
  case (2 c s p)
  show ?case
  proof (cases "starts_with (c # s) p")
    case True
    then obtain r where "c # s = [] @ p @ r" by (auto simp: str_simps)
    then have "\<exists>a b. c # s = a @ p @ b" by blast
    with True show ?thesis by simp
  next
    case False
    have "(\<exists>a b. c # s = a @ p @ b) \<longleftrightarrow> (\<exists>a b. s = a @ p @ b)"
    proof
      assume "\<exists>a b. c # s = a @ p @ b"
      then obtain a b where ab: "c # s = a @ p @ b" by blast
      with False have "a \<noteq> []" by (auto simp: str_simps)
      with ab show "\<exists>a b. s = a @ p @ b" by (cases a) auto
    qed (metis append_Cons)
    with False 2 show ?thesis by simp
  qed
qed

lemma contains_iff [str_simps]: "contains s p \<longleftrightarrow> (\<exists>a b. s = a @ p @ b)"
  using find_sub_None [of s p] by (simp add: contains_def)

text \<open>The search stops at the first occurrence: no occurrence starts earlier.\<close>

lemma find_sub_first:
  "find_sub s p = Some i \<Longrightarrow> s = a @ p @ b \<Longrightarrow> i \<le> length a"
proof (induction s p arbitrary: i a rule: find_sub.induct)
  case (2 c s p)
  show ?case
  proof (cases a)
    case Nil
    with 2(3) have "starts_with (c # s) p" by (auto simp: str_simps)
    with 2(2) show ?thesis by simp
  next
    case (Cons d a')
    with 2 show ?thesis by (auto split: if_splits)
  qed
qed simp

section \<open>Joining, splitting and replacing\<close>

fun join :: "str \<Rightarrow> str list \<Rightarrow> str" where
  "join sep [] = []"
| "join sep [x] = x"
| "join sep (x # y # zs) = x @ sep @ join sep (y # zs)"

lemma join_Cons: "xs \<noteq> [] \<Longrightarrow> join sep (x # xs) = x @ sep @ join sep xs"
  by (cases xs) auto

lemma join_append:
  "xs \<noteq> [] \<Longrightarrow> ys \<noteq> [] \<Longrightarrow> join sep (xs @ ys) = join sep xs @ sep @ join sep ys"
proof (induction xs)
  case (Cons x xs)
  then show ?case by (cases "xs = []") (simp_all add: join_Cons)
qed simp

text \<open>
  \<open>str::split\<close> by a non-empty pattern: each search starts where the last match ended. The
  matches, their number and the replacements are all taken from this split.
\<close>

function split_sub :: "str \<Rightarrow> str \<Rightarrow> str list" where
  "split_sub s p =
     (if p = [] then [s]
      else case find_sub s p of
        None \<Rightarrow> [s]
      | Some i \<Rightarrow> take i s # split_sub (drop (i + length p) s) p)"
  by pat_completeness auto
termination
proof (relation "measure (\<lambda>(s, p). length s)")
  fix s p i
  assume "p \<noteq> []" and "find_sub s p = Some i"
  with find_sub_Some [of s p i] have "p \<noteq> []" and "i + length p \<le> length s" by auto
  then show "((drop (i + length p) s, p), s, p) \<in> measure (\<lambda>(s, p). length s)"
    by (cases p) auto
qed simp

declare split_sub.simps [simp del]

definition count_sub :: "str \<Rightarrow> str \<Rightarrow> nat" where
  "count_sub s p = length (split_sub s p) - 1"

text \<open>
  \<open>str::replace\<close>. With an empty pattern Rust puts the replacement at every character boundary;
  a byte continues a character exactly when it lies between \<open>0x80\<close> and \<open>0xBF\<close>.
\<close>

definition is_cont_byte :: "char \<Rightarrow> bool" where
  "is_cont_byte c \<longleftrightarrow> 128 \<le> (of_char c :: nat) \<and> (of_char c :: nat) < 192"

fun interleave :: "str \<Rightarrow> str \<Rightarrow> str" where
  "interleave t [] = t"
| "interleave t (c # s) = (if is_cont_byte c then [c] else t @ [c]) @ interleave t s"

definition replace_sub :: "str \<Rightarrow> str \<Rightarrow> str \<Rightarrow> str" where
  "replace_sub s p t = (if p = [] then interleave t s else join t (split_sub s p))"

text \<open>\<open>chars().take(n)\<close>: a byte belongs to the character that the last byte before it that is no
  continuation starts.\<close>

fun take_chars :: "nat \<Rightarrow> str \<Rightarrow> str" where
  "take_chars n [] = []"
| "take_chars n (c # s) =
     (if is_cont_byte c then c # take_chars n s
      else case n of 0 \<Rightarrow> [] | Suc m \<Rightarrow> c # take_chars m s)"

text \<open>\<open>chars().count()\<close>.\<close>

definition char_count :: "str \<Rightarrow> nat" where
  "char_count s = length (filter (\<lambda>c. \<not> is_cont_byte c) s)"

lemma take_chars_len: "char_count (take_chars n s) \<le> n"
  by (induction n s rule: take_chars.induct) (auto simp: char_count_def split: nat.splits)

lemma take_chars_prefix: "\<exists>r. s = take_chars n s @ r"
  by (induction n s rule: take_chars.induct) (auto split: nat.splits)

text \<open>\<open>str::replacen(p, t, 1)\<close>.\<close>

definition replace_first :: "str \<Rightarrow> str \<Rightarrow> str \<Rightarrow> str" where
  "replace_first s p t =
     (case find_sub s p of
        None \<Rightarrow> s
      | Some i \<Rightarrow> take i s @ t @ drop (i + length p) s)"

lemma split_sub_nonempty [simp]: "split_sub s p \<noteq> []"
  by (subst split_sub.simps) (auto split: option.splits)

lemma join_split_sub: "p \<noteq> [] \<Longrightarrow> join p (split_sub s p) = s"
proof (induction s p rule: split_sub.induct)
  case (1 s p)
  show ?case
  proof (cases "find_sub s p")
    case None
    with 1 show ?thesis by (simp add: split_sub.simps)
  next
    case (Some i)
    with 1 have IH: "join p (split_sub (drop (i + length p) s) p) = drop (i + length p) s"
      by simp
    from Some 1(2) have "split_sub s p = take i s # split_sub (drop (i + length p) s) p"
      by (simp add: split_sub.simps [of s])
    with IH Some show ?thesis
      using find_sub_Some [OF Some] by (simp add: join_Cons)
  qed
qed

lemma count_sub_0_iff: "p \<noteq> [] \<Longrightarrow> count_sub s p = 0 \<longleftrightarrow> \<not> contains s p"
  unfolding count_sub_def contains_def
  by (subst split_sub.simps) (auto split: option.splits simp: neq_Nil_conv)

lemma count_sub_1:
  assumes "p \<noteq> []" and "count_sub s p = 1"
  shows "\<exists>a b. s = a @ p @ b \<and> \<not> contains b p
           \<and> replace_first s p t = a @ t @ b \<and> replace_sub s p t = a @ t @ b"
proof -
  from assms(2) have "length (split_sub s p) = 2" by (simp add: count_sub_def)
  with assms(1) obtain i where i: "find_sub s p = Some i"
    and len: "length (split_sub (drop (i + length p) s) p) = 1"
    by (subst (asm) split_sub.simps) (auto split: option.splits)
  let ?b = "drop (i + length p) s"
  from len assms(1) have nc: "\<not> contains ?b p"
    using count_sub_0_iff [of p ?b] by (simp add: count_sub_def)
  then have sb: "split_sub ?b p = [?b]"
    using assms(1) by (subst split_sub.simps) (auto simp: contains_def)
  from i assms(1) sb have ss: "split_sub s p = [take i s, ?b]"
    by (subst split_sub.simps) simp
  have "s = take i s @ p @ ?b" using find_sub_Some [OF i] by simp
  moreover have "replace_first s p t = take i s @ t @ ?b"
    using i by (simp add: replace_first_def)
  moreover have "replace_sub s p t = take i s @ t @ ?b"
    using ss assms(1) by (simp add: replace_sub_def)
  ultimately show ?thesis using nc by blast
qed

text \<open>Splitting at a single character, as \<open>split('\t')\<close> and \<open>splitn(n, c)\<close> do.\<close>

fun split_char :: "char \<Rightarrow> str \<Rightarrow> str list" where
  "split_char c [] = [[]]"
| "split_char c (x # s) =
     (if x = c then [] # split_char c s
      else (case split_char c s of [] \<Rightarrow> [[x]] | y # ys \<Rightarrow> (x # y) # ys))"

text \<open>\<open>splitn\<close> yields at most \<open>n\<close> pieces; the last one is the unsplit rest.\<close>

fun splitn_char :: "nat \<Rightarrow> char \<Rightarrow> str \<Rightarrow> str list" where
  "splitn_char 0 c s = []"
| "splitn_char (Suc 0) c s = [s]"
| "splitn_char (Suc (Suc n)) c s =
     (case dropWhile (\<lambda>x. x \<noteq> c) s of
        [] \<Rightarrow> [s]
      | _ # r \<Rightarrow> takeWhile (\<lambda>x. x \<noteq> c) s # splitn_char (Suc n) c r)"

lemma split_char_nonempty [simp]: "split_char c s \<noteq> []"
  by (induction s) (auto split: list.splits)

lemma join_split_char: "join [c] (split_char c s) = s"
proof (induction s)
  case (Cons x s)
  obtain y ys where y: "split_char c s = y # ys" by (cases "split_char c s") auto
  with Cons show ?case by (cases ys) auto
qed simp

lemma split_char_no_sep: "x \<in> set (split_char c s) \<Longrightarrow> c \<notin> set x"
  by (induction s arbitrary: x) (auto split: if_splits list.splits)

lemma split_char_join:
  "xs \<noteq> [] \<Longrightarrow> (\<And>x. x \<in> set xs \<Longrightarrow> c \<notin> set x) \<Longrightarrow> split_char c (join [c] xs) = xs"
proof (induction xs)
  case (Cons x xs)
  have app: "c \<notin> set y \<Longrightarrow> split_char c (y @ c # r) = y # split_char c r" for y r
    by (induction y) auto
  have single: "c \<notin> set y \<Longrightarrow> split_char c y = [y]" for y
    by (induction y) auto
  show ?case
    using Cons app single by (cases xs) auto
qed simp

section \<open>Lines\<close>

text \<open>
  \<open>str::lines\<close>: a line ends at a line feed, and a carriage return before the line feed goes with
  it. The rest after the last line feed is a line if it is not empty, and keeps a final carriage
  return.
\<close>

definition strip_cr :: "str \<Rightarrow> str" where
  "strip_cr l = (if l \<noteq> [] \<and> last l = CR then butlast l else l)"

function str_lines :: "str \<Rightarrow> str list" where
  "str_lines s =
     (if s = [] then []
      else case dropWhile (\<lambda>c. c \<noteq> NL) s of
        [] \<Rightarrow> [s]
      | _ # r \<Rightarrow> strip_cr (takeWhile (\<lambda>c. c \<noteq> NL) s) # str_lines r)"
  by pat_completeness auto
termination
proof (relation "measure length")
  fix s :: str and c r
  assume "dropWhile (\<lambda>c. c \<noteq> NL) s = c # r"
  then have "length (c # r) \<le> length s" by (metis length_dropWhile_le)
  then show "(r, s) \<in> measure length" by simp
qed simp

declare str_lines.simps [simp del]

lemma str_lines_Nil [simp]: "str_lines [] = []"
  by (simp add: str_lines.simps)

lemma str_lines_step:
  "NL \<notin> set l \<Longrightarrow> str_lines (l @ NL # r) = strip_cr l # str_lines r"
  by (subst str_lines.simps) (auto simp: dropWhile_append takeWhile_append dropWhile_eq_Nil_conv
      intro!: arg_cong [where f = strip_cr] takeWhile_eq_all_conv [THEN iffD2])

lemma str_lines_last: "NL \<notin> set l \<Longrightarrow> l \<noteq> [] \<Longrightarrow> str_lines l = [l]"
proof -
  assume a: "NL \<notin> set l" "l \<noteq> []"
  then have d: "dropWhile (\<lambda>c. c \<noteq> NL) l = []" by (auto simp: dropWhile_eq_Nil_conv)
  from a(2) show ?thesis by (subst str_lines.simps) (simp add: d)
qed

lemma str_lines_induct [case_names Nil last step]:
  assumes "P []"
    and "\<And>l. l \<noteq> [] \<Longrightarrow> NL \<notin> set l \<Longrightarrow> P l"
    and "\<And>l r. NL \<notin> set l \<Longrightarrow> P r \<Longrightarrow> P (l @ NL # r)"
  shows "P s"
proof (induction s rule: length_induct)
  case (1 s)
  show ?case
  proof (cases "NL \<in> set s")
    case True
    then obtain l r where "s = l @ NL # r" and "NL \<notin> set l" by (metis split_list_first)
    with 1 assms(3) show ?thesis by simp
  next
    case False
    then show ?thesis using assms(1,2) by (cases "s = []") auto
  qed
qed

definition line_ok :: "str \<Rightarrow> bool" where
  "line_ok l \<longleftrightarrow> NL \<notin> set l \<and> (l = [] \<or> last l \<noteq> CR)"

lemma strip_cr_id: "line_ok l \<Longrightarrow> strip_cr l = l"
  by (auto simp: line_ok_def strip_cr_def)

lemma NL_notin_strip_cr: "NL \<notin> set l \<Longrightarrow> NL \<notin> set (strip_cr l)"
  by (auto simp: strip_cr_def dest: in_set_butlastD)

lemma str_lines_no_NL: "l \<in> set (str_lines s) \<Longrightarrow> NL \<notin> set l"
proof (induction s rule: str_lines_induct)
  case (step k r)
  then show ?case by (auto simp: str_lines_step NL_notin_strip_cr)
qed (simp_all add: str_lines_last)

text \<open>Lines that hold no line break are read back from their join, with or without a final
  line feed.\<close>

lemma str_lines_join_NL:
  "list_all line_ok ls \<Longrightarrow> ls \<noteq> [] \<Longrightarrow> str_lines (join [NL] ls @ [NL]) = ls"
proof (induction ls)
  case (Cons l ls)
  then show ?case
    using str_lines_step [of l "[]"] str_lines_step [of l "join [NL] ls @ [NL]"]
    by (cases "ls = []") (auto simp: join_Cons strip_cr_id line_ok_def)
qed simp

lemma str_lines_join:
  "list_all line_ok ls \<Longrightarrow> ls \<noteq> [] \<Longrightarrow> last ls \<noteq> [] \<Longrightarrow> str_lines (join [NL] ls) = ls"
proof (induction ls)
  case (Cons l ls)
  then show ?case
    using str_lines_last [of l] str_lines_step [of l "join [NL] ls"]
    by (cases "ls = []") (auto simp: join_Cons strip_cr_id line_ok_def)
qed simp

section \<open>Whitespace\<close>

text \<open>The UTF-8 encodings of the characters with the Unicode property \<open>White_Space\<close>, which
  \<open>char::is_whitespace\<close> tests.\<close>

definition ws_seqs :: "str list" where
  "ws_seqs =
    [[SP], [NL], [TAB], [CR], [CHR 0x0B], [CHR 0x0C],
     [CHR 0xC2, CHR 0x85], [CHR 0xC2, CHR 0xA0], [CHR 0xE1, CHR 0x9A, CHR 0x80],
     [CHR 0xE2, CHR 0x80, CHR 0x80], [CHR 0xE2, CHR 0x80, CHR 0x81],
     [CHR 0xE2, CHR 0x80, CHR 0x82], [CHR 0xE2, CHR 0x80, CHR 0x83],
     [CHR 0xE2, CHR 0x80, CHR 0x84], [CHR 0xE2, CHR 0x80, CHR 0x85],
     [CHR 0xE2, CHR 0x80, CHR 0x86], [CHR 0xE2, CHR 0x80, CHR 0x87],
     [CHR 0xE2, CHR 0x80, CHR 0x88], [CHR 0xE2, CHR 0x80, CHR 0x89],
     [CHR 0xE2, CHR 0x80, CHR 0x8A], [CHR 0xE2, CHR 0x80, CHR 0xA8],
     [CHR 0xE2, CHR 0x80, CHR 0xA9], [CHR 0xE2, CHR 0x80, CHR 0xAF],
     [CHR 0xE2, CHR 0x81, CHR 0x9F], [CHR 0xE3, CHR 0x80, CHR 0x80]]"

definition ws_len :: "str \<Rightarrow> nat" where
  "ws_len s = (case find (starts_with s) ws_seqs of None \<Rightarrow> 0 | Some w \<Rightarrow> length w)"

definition ws_len_end :: "str \<Rightarrow> nat" where
  "ws_len_end s = (case find (ends_with s) ws_seqs of None \<Rightarrow> 0 | Some w \<Rightarrow> length w)"

lemma ws_seqs_nonempty: "w \<in> set ws_seqs \<Longrightarrow> w \<noteq> []"
  by (auto simp: ws_seqs_def)

lemma ws_len_SP [simp]: "ws_len (SP # s) = 1"
  by (simp add: ws_len_def ws_seqs_def)

lemma ws_len_le: "ws_len s \<le> length s"
  by (auto simp: ws_len_def find_Some_iff starts_with_def split: option.splits)
    (metis length_take min.cobounded1)

lemma ws_len_end_le: "ws_len_end s \<le> length s"
  by (auto simp: ws_len_end_def find_Some_iff ends_with_def split: option.splits)

lemma diff_shrinks: "0 < k \<Longrightarrow> k \<le> n \<Longrightarrow> n - k < (n :: nat)"
  by arith

function trim_start :: "str \<Rightarrow> str" where
  "trim_start s = (if ws_len s = 0 then s else trim_start (drop (ws_len s) s))"
  by pat_completeness auto
termination
  by (relation "measure length") (simp_all add: diff_shrinks ws_len_le)

function trim_end :: "str \<Rightarrow> str" where
  "trim_end s =
     (if ws_len_end s = 0 then s else trim_end (take (length s - ws_len_end s) s))"
  by pat_completeness auto
termination
  by (relation "measure length") (simp_all add: diff_shrinks ws_len_end_le)

declare trim_start.simps [simp del] trim_end.simps [simp del]

definition trim :: "str \<Rightarrow> str" where
  "trim s = trim_end (trim_start s)"

text \<open>\<open>str::split_whitespace\<close>: the maximal runs of other characters.\<close>

function split_ws_go :: "str \<Rightarrow> str \<Rightarrow> str list" where
  "split_ws_go acc s =
     (if s = [] then (if acc = [] then [] else [acc])
      else if ws_len s = 0 then split_ws_go (acc @ [hd s]) (tl s)
      else (if acc = [] then [] else [acc]) @ split_ws_go [] (drop (ws_len s) s))"
  by pat_completeness auto
termination
  by (relation "measure (\<lambda>(acc, s). length s)") (simp_all add: diff_shrinks ws_len_le)

declare split_ws_go.simps [simp del]

definition split_whitespace :: "str \<Rightarrow> str list" where
  "split_whitespace s = split_ws_go [] s"

lemma trim_start_len [str_len]: "length (trim_start s) \<le> length s"
proof (induction s rule: trim_start.induct)
  case (1 s)
  then show ?case
    by (cases "ws_len s = 0") (auto simp: trim_start.simps [of s])
qed

lemma trim_end_len [str_len]: "length (trim_end s) \<le> length s"
proof (induction s rule: trim_end.induct)
  case (1 s)
  then show ?case
    by (cases "ws_len_end s = 0") (auto simp: trim_end.simps [of s])
qed

lemma trim_len [str_len]: "length (trim s) \<le> length s"
  using trim_start_len trim_end_len order_trans unfolding trim_def by blast

text \<open>\<open>trim_matches(c)\<close>, \<open>trim_start_matches(c)\<close> and \<open>trim_end_matches(c)\<close> for a one-byte
  character.\<close>

definition trim_start_char :: "char \<Rightarrow> str \<Rightarrow> str" where
  "trim_start_char c s = dropWhile (\<lambda>x. x = c) s"

definition trim_end_char :: "char \<Rightarrow> str \<Rightarrow> str" where
  "trim_end_char c s = rev (dropWhile (\<lambda>x. x = c) (rev s))"

definition trim_char :: "char \<Rightarrow> str \<Rightarrow> str" where
  "trim_char c s = trim_end_char c (trim_start_char c s)"

section \<open>Character boundaries and slices\<close>

text \<open>\<open>str::is_char_boundary\<close>. A slice at an offset that is not a boundary panics; the model
  returns \<open>None\<close> there.\<close>

definition is_char_boundary :: "str \<Rightarrow> nat \<Rightarrow> bool" where
  "is_char_boundary s i \<longleftrightarrow>
     i = 0 \<or> i = length s \<or> (i < length s \<and> \<not> is_cont_byte (s ! i))"

definition slice :: "str \<Rightarrow> nat \<Rightarrow> nat \<Rightarrow> str option" where
  "slice s i j =
     (if i \<le> j \<and> is_char_boundary s i \<and> is_char_boundary s j
      then Some (take (j - i) (drop i s)) else None)"

lemma is_char_boundary_0 [simp]: "is_char_boundary s 0"
  by (simp add: is_char_boundary_def)

lemma is_char_boundary_le: "is_char_boundary s i \<Longrightarrow> i \<le> length s"
  by (auto simp: is_char_boundary_def)

section \<open>Decimal numbers\<close>

definition is_digit :: "char \<Rightarrow> bool" where
  "is_digit c \<longleftrightarrow> 48 \<le> (of_char c :: nat) \<and> (of_char c :: nat) \<le> 57"

definition digit_val :: "char \<Rightarrow> nat" where
  "digit_val c = of_char c - 48"

definition digit_char :: "nat \<Rightarrow> char" where
  "digit_char d = char_of (48 + d)"

fun to_decimal :: "nat \<Rightarrow> str" where
  "to_decimal n = (if n < 10 then [digit_char n] else to_decimal (n div 10) @ [digit_char (n mod 10)])"

declare to_decimal.simps [simp del]

text \<open>\<open>format!("{:0w$}")\<close> of an unsigned number.\<close>

definition to_decimal_padded :: "nat \<Rightarrow> nat \<Rightarrow> str" where
  "to_decimal_padded w n = (let d = to_decimal n in replicate (w - length d) (CHR ''0'') @ d)"

fun digits_val :: "nat \<Rightarrow> str \<Rightarrow> nat option" where
  "digits_val acc [] = Some acc"
| "digits_val acc (c # s) =
     (if is_digit c then digits_val (10 * acc + digit_val c) s else None)"

text \<open>
  \<open>str::parse\<close> of an unsigned integer below \<open>bound\<close>: an optional plus sign, at least one digit,
  nothing else, and no overflow.
\<close>

definition parse_unsigned :: "nat \<Rightarrow> str \<Rightarrow> nat option" where
  "parse_unsigned bound s =
     (let d = (case s of c # r \<Rightarrow> (if c = CHR ''+'' then r else s) | [] \<Rightarrow> s) in
      if d = [] then None
      else case digits_val 0 d of
        None \<Rightarrow> None
      | Some n \<Rightarrow> if n < bound then Some n else None)"

definition parse_u32 :: "str \<Rightarrow> u32 option" where
  "parse_u32 s = map_option of_nat (parse_unsigned (2 ^ 32) s)"

lemma digit_char_props [simp]:
  assumes "d < 10"
  shows "is_digit (digit_char d)" and "digit_val (digit_char d) = d"
  using assms by (simp_all add: is_digit_def digit_val_def digit_char_def of_char_of)

lemma digits_val_append:
  "digits_val acc (a @ b) =
     (case digits_val acc a of None \<Rightarrow> None | Some m \<Rightarrow> digits_val m b)"
  by (induction a arbitrary: acc) auto

lemma digits_val_zeros: "digits_val 0 (replicate k (CHR ''0'') @ s) = digits_val 0 s"
  by (induction k) (auto simp: is_digit_def digit_val_def)

lemma digits_val_to_decimal: "digits_val 0 (to_decimal n) = Some n"
proof (induction n rule: to_decimal.induct)
  case (1 n)
  then show ?case
    by (cases "n < 10") (simp_all add: to_decimal.simps [of n] digits_val_append)
qed

lemma to_decimal_digits: "c \<in> set (to_decimal n) \<Longrightarrow> is_digit c"
proof (induction n rule: to_decimal.induct)
  case (1 n)
  then show ?case
    by (cases "n < 10") (auto simp: to_decimal.simps [of n])
qed

lemma to_decimal_nonempty [simp]: "to_decimal n \<noteq> []"
  by (simp add: to_decimal.simps)

lemma parse_unsigned_digits:
  assumes "s \<noteq> []" and "digits_val 0 s = Some n" and "n < b"
  shows "parse_unsigned b s = Some n"
proof -
  from assms(1,2) have "hd s \<noteq> CHR ''+''"
    by (cases s) (auto simp: is_digit_def split: if_splits)
  with assms show ?thesis
    by (cases s) (auto simp: parse_unsigned_def)
qed

lemma parse_u32_padded: "parse_u32 (to_decimal_padded w (unat n)) = Some n"
proof -
  have "unat n < 2 ^ 32" using unsigned_less [of n] by simp
  then have "parse_unsigned (2 ^ 32) (to_decimal_padded w (unat n)) = Some (unat n)"
    by (intro parse_unsigned_digits)
      (simp_all add: to_decimal_padded_def Let_def digits_val_zeros digits_val_to_decimal)
  then show ?thesis by (simp add: parse_u32_def)
qed

section \<open>UTF-8 validity\<close>

text \<open>The length of the well-formed UTF-8 character a byte string starts with, 0 if there is none;
  \<open>str::from_utf8\<close> accepts the strings made of such characters.\<close>

definition utf8_second_ok :: "nat \<Rightarrow> char \<Rightarrow> bool" where
  "utf8_second_ok lead c =
     (let m = of_char c :: nat in
      if lead = 224 then 160 \<le> m \<and> m < 192
      else if lead = 237 then 128 \<le> m \<and> m < 160
      else if lead = 240 then 144 \<le> m \<and> m < 192
      else if lead = 244 then 128 \<le> m \<and> m < 144
      else is_cont_byte c)"

fun utf8_len :: "str \<Rightarrow> nat" where
  "utf8_len [] = 0"
| "utf8_len (a # s) =
     (let n = of_char a :: nat in
      if n < 128 then 1
      else if 194 \<le> n \<and> n < 224 then
        (case s of b # _ \<Rightarrow> if is_cont_byte b then 2 else 0 | _ \<Rightarrow> 0)
      else if 224 \<le> n \<and> n < 240 then
        (case s of b # c # _ \<Rightarrow> if utf8_second_ok n b \<and> is_cont_byte c then 3 else 0 | _ \<Rightarrow> 0)
      else if 240 \<le> n \<and> n < 245 then
        (case s of b # c # e # _ \<Rightarrow>
             if utf8_second_ok n b \<and> is_cont_byte c \<and> is_cont_byte e then 4 else 0
         | _ \<Rightarrow> 0)
      else 0)"

function valid_utf8 :: "str \<Rightarrow> bool" where
  "valid_utf8 s =
     (if s = [] then True
      else if utf8_len s = 0 then False
      else valid_utf8 (drop (utf8_len s) s))"
  by pat_completeness auto
termination
  by (relation "measure length") auto

declare valid_utf8.simps [simp del]

text \<open>\<open>String::from_utf8_lossy\<close>: every longest part of a character that does not go on becomes U+FFFD.\<close>

definition bad_len :: "str \<Rightarrow> nat" where
  "bad_len s =
     (case s of
        a # b # r \<Rightarrow>
          (let n = of_char a :: nat in
           if 224 \<le> n \<and> n < 245 \<and> utf8_second_ok n b
           then (if 240 \<le> n \<and> r \<noteq> [] \<and> is_cont_byte (hd r) then 3 else 2)
           else 1)
      | _ \<Rightarrow> 1)"

definition replacement_character :: str where
  "replacement_character = [CHR 0xEF, CHR 0xBF, CHR 0xBD]"

function from_utf8_lossy :: "str \<Rightarrow> str" where
  "from_utf8_lossy s =
     (if s = [] then []
      else if utf8_len s = 0 then replacement_character @ from_utf8_lossy (drop (bad_len s) s)
      else take (utf8_len s) s @ from_utf8_lossy (drop (utf8_len s) s))"
  by pat_completeness auto
termination
  by (relation "measure length") (auto simp: bad_len_def Let_def split: list.splits)

declare from_utf8_lossy.simps [simp del]

lemma from_utf8_lossy_valid: "valid_utf8 s \<Longrightarrow> from_utf8_lossy s = s"
proof (induction s rule: valid_utf8.induct)
  case (1 s)
  then show ?case by (cases "s = []") (simp_all add: from_utf8_lossy.simps [of s] from_utf8_lossy.simps [of "[]"] valid_utf8.simps [of s] split: if_splits)
qed

section \<open>Sorting by a key\<close>

lemma map_insort_key: "map f (insort_key f x xs) = insort (f x) (map f xs)"
  by (induction xs) auto

lemma map_sort_key: "map f (sort_key f xs) = sort (map f xs)"
  by (induction xs) (simp_all add: map_insort_key)

section \<open>File names\<close>

text \<open>\<open>Path::extension\<close> of a file name: what follows its last dot, unless that is its first byte.\<close>

definition file_extension :: "str \<Rightarrow> str option" where
  "file_extension f =
     (let ext = rev (takeWhile (\<lambda>c. c \<noteq> CHR ''.'') (rev f)) in
      if length ext + 1 < length f then Some ext else None)"

lemma extension_of_file:
  assumes "name \<noteq> []" and "CHR ''.'' \<notin> set ext"
  shows "file_extension (name @ ''.'' @ ext) = Some ext"
proof -
  have "takeWhile (\<lambda>c. c \<noteq> CHR ''.'') (rev ext @ CHR ''.'' # rev name) = rev ext"
    using assms(2) by (subst takeWhile_append2) auto
  then show ?thesis using assms(1) by (simp add: file_extension_def Let_def)
qed

definition lower_char :: "char \<Rightarrow> char" where
  "lower_char c = (let n = of_char c :: nat in if 65 \<le> n \<and> n \<le> 90 then char_of (n + 32) else c)"

text \<open>\<open>to_ascii_lowercase\<close>.\<close>

definition ascii_lowercase :: "str \<Rightarrow> str" where
  "ascii_lowercase s = map lower_char s"

end
