(* ===== verification/JsonArgs.thy ===== *)
theory JsonArgs
  imports RustPrelude
begin

text \<open>
  The JSON values that tool arguments and tool schemas are made of (\<open>serde_json::Value\<close>) and the
  argument check of \<open>crates/agent/src/tool/schema.rs\<close>. An object is the list of its entries in
  the map's iteration order.
\<close>

datatype jnum = PosInt "64 word" | NegInt "64 word" | Float "64 word"

datatype json =
    JNull
  | JBool bool
  | JNum jnum
  | JStr str
  | JArr "json list"
  | JObj "(str \<times> json) list"

fun as_object :: "json \<Rightarrow> (str \<times> json) list option" where
  "as_object (JObj o') = Some o'"
| "as_object _ = None"

fun as_array :: "json \<Rightarrow> json list option" where
  "as_array (JArr a) = Some a"
| "as_array _ = None"

fun as_str :: "json \<Rightarrow> str option" where
  "as_str (JStr s) = Some s"
| "as_str _ = None"

fun as_bool :: "json \<Rightarrow> bool option" where
  "as_bool (JBool b) = Some b"
| "as_bool _ = None"

text \<open>\<open>Value::get(key)\<close> on an object; any other value has no keys.\<close>

fun json_get :: "json \<Rightarrow> str \<Rightarrow> json option" where
  "json_get (JObj o') k = map_of o' k"
| "json_get _ k = None"

definition json_get_str :: "json \<Rightarrow> str \<Rightarrow> str option" where
  "json_get_str v k = Option.bind (json_get v k) as_str"

text \<open>A \<open>PosInt\<close> holds a \<open>u64\<close>; it is an \<open>i64\<close> when it is below \<open>2^63\<close>.\<close>

fun is_i64 :: "json \<Rightarrow> bool" where
  "is_i64 (JNum (PosInt n)) = (unat n < 2 ^ 63)"
| "is_i64 (JNum (NegInt n)) = True"
| "is_i64 _ = False"

fun is_u64 :: "json \<Rightarrow> bool" where
  "is_u64 (JNum (PosInt n)) = True"
| "is_u64 _ = False"

fun json_type_name :: "json \<Rightarrow> str" where
  "json_type_name JNull = ''null''"
| "json_type_name (JBool _) = ''boolean''"
| "json_type_name (JNum _) = ''number''"
| "json_type_name (JStr _) = ''string''"
| "json_type_name (JArr _) = ''array''"
| "json_type_name (JObj _) = ''object''"

text \<open>The \<open>match expected_type\<close> of \<open>validate_args\<close>; an unknown type name accepts any value.\<close>

definition type_ok :: "str \<Rightarrow> json \<Rightarrow> bool" where
  "type_ok t v =
     (if t = ''string'' then json_type_name v = ''string''
      else if t = ''integer'' then is_i64 v \<or> is_u64 v
      else if t = ''number'' then json_type_name v = ''number''
      else if t = ''boolean'' then json_type_name v = ''boolean''
      else if t = ''object'' then json_type_name v = ''object''
      else if t = ''array'' then json_type_name v = ''array''
      else True)"

definition missing_parameter_msg :: "str \<Rightarrow> str" where
  "missing_parameter_msg f = ''Missing required parameter: '' @ [QUOTE] @ f @ [QUOTE]"

definition wrong_type_msg :: "str \<Rightarrow> str \<Rightarrow> json \<Rightarrow> str" where
  "wrong_type_msg k t v =
     ''Parameter '' @ [QUOTE] @ k @ [QUOTE] @ '' must be of type '' @ [QUOTE] @ t @ [QUOTE]
     @ '', got '' @ json_type_name v"

definition not_an_object_msg :: str where
  "not_an_object_msg = ''Arguments must be a JSON object''"

fun check_required :: "(str \<times> json) list \<Rightarrow> json list \<Rightarrow> str + unit" where
  "check_required args [] = Inr ()"
| "check_required args (req # rs) =
     (case as_str req of
        None \<Rightarrow> check_required args rs
      | Some f \<Rightarrow>
          if map_of args f = None
          then Inl (missing_parameter_msg f)
          else check_required args rs)"

text \<open>The declared type of a parameter: \<open>properties.get(key)\<close>, its \<open>type\<close>, as a string.\<close>

definition expected_type :: "(str \<times> json) list \<Rightarrow> str \<Rightarrow> str option" where
  "expected_type props k = Option.bind (map_of props k) (\<lambda>ps. json_get_str ps ''type'')"

fun check_types :: "(str \<times> json) list \<Rightarrow> (str \<times> json) list \<Rightarrow> str + unit" where
  "check_types props [] = Inr ()"
| "check_types props ((k, v) # args) =
     (case expected_type props k of
        None \<Rightarrow> check_types props args
      | Some t \<Rightarrow>
          if type_ok t v then check_types props args
          else Inl (wrong_type_msg k t v))"

definition validate_args :: "json \<Rightarrow> json \<Rightarrow> str + unit" where
  "validate_args args schema =
     (case as_object args of
        None \<Rightarrow> Inl not_an_object_msg
      | Some a \<Rightarrow>
          (case as_object schema of
             None \<Rightarrow> Inr ()
           | Some s \<Rightarrow>
               (case (case map_of s ''required'' of
                        Some (JArr rs) \<Rightarrow> check_required a rs
                      | _ \<Rightarrow> Inr ()) of
                  Inl e \<Rightarrow> Inl e
                | Inr _ \<Rightarrow>
                    (case map_of s ''properties'' of
                       Some (JObj ps) \<Rightarrow> check_types ps a
                     | _ \<Rightarrow> Inr ()))))"

section \<open>What the check accepts\<close>

lemma as_str_Some [simp]: "as_str v = Some s \<longleftrightarrow> v = JStr s"
  by (cases v) auto

lemma as_object_Some [simp]: "as_object v = Some s \<longleftrightarrow> v = JObj s"
  by (cases v) auto

lemma check_required_iff:
  "check_required a rs = Inr () \<longleftrightarrow> (\<forall>f. JStr f \<in> set rs \<longrightarrow> map_of a f \<noteq> None)"
proof (induction rs)
  case (Cons r rs)
  then show ?case by (cases r) (auto split: option.splits)
qed simp

lemma check_types_iff:
  "check_types ps a = Inr () \<longleftrightarrow>
     (\<forall>(k, v) \<in> set a. \<forall>t. expected_type ps k = Some t \<longrightarrow> type_ok t v)"
  by (induction a) (auto split: option.splits if_splits)

text \<open>
  A call's arguments pass the check exactly when they are a JSON object that has every
  required parameter of the schema and no parameter whose value contradicts its declared type.
\<close>

theorem validate_args_accepts_iff:
  "validate_args args (JObj [(''properties'', JObj ps), (''required'', JArr rs),
                             (''type'', JStr ''object'')]) = Inr () \<longleftrightarrow>
   (\<exists>a. args = JObj a
      \<and> (\<forall>f. JStr f \<in> set rs \<longrightarrow> f \<in> fst ` set a)
      \<and> (\<forall>k v t. (k, v) \<in> set a \<and> expected_type ps k = Some t \<longrightarrow> type_ok t v))"
proof (cases args)
  case (JObj a)
  have "(\<forall>f. JStr f \<in> set rs \<longrightarrow> map_of a f \<noteq> None) \<longleftrightarrow>
        (\<forall>f. JStr f \<in> set rs \<longrightarrow> f \<in> fst ` set a)"
    by (simp add: map_of_eq_None_iff)
  moreover have "validate_args args (JObj [(''properties'', JObj ps), (''required'', JArr rs),
                             (''type'', JStr ''object'')]) = Inr () \<longleftrightarrow>
       check_required a rs = Inr () \<and> check_types ps a = Inr ()"
    using JObj by (simp add: validate_args_def split: sum.splits)
  ultimately show ?thesis
    using JObj check_required_iff [of a rs] check_types_iff [of ps a] by auto
qed (simp_all add: validate_args_def)

theorem validate_args_accepts_iff_witness:
  "validate_args (JObj [(''filePath'', JStr ''a'')])
     (JObj [(''properties'', JObj [(''filePath'', JObj [(''type'', JStr ''string'')])]),
            (''required'', JArr [JStr ''filePath'']), (''type'', JStr ''object'')]) = Inr () \<and>
   validate_args (JObj [(''filePath'', JBool True)])
     (JObj [(''properties'', JObj [(''filePath'', JObj [(''type'', JStr ''string'')])]),
            (''required'', JArr [JStr ''filePath'']), (''type'', JStr ''object'')]) \<noteq> Inr ()"
  unfolding validate_args_accepts_iff
  by (simp add: expected_type_def json_get_str_def type_ok_def)

end
