(* ===== verification/FileSystem.thy ===== *)
theory FileSystem
  imports RustPrelude
begin

text \<open>
  \<open>std::path\<close> and the \<open>std::fs\<close>/\<open>tokio::fs\<close> operations that the sources call, on Unix. A disk
  maps locations (names from the root) to nodes; a symbolic link holds the location it stands for.
  A path string is resolved component by component, as the operating system does: a step needs a
  directory under it, so \<open>missing/../x\<close> does not resolve while \<open>missing\<close> does not exist. Errors
  are \<^term>\<open>NotFound\<close> or another kind, the only distinction the sources make.

  The second half collects, for disks without links and paths without \<open>..\<close>, what each operation
  does to the regular files; the locale \<open>undo_store\<close> states the part that undoing relies on.
\<close>

named_theorems fs_simps \<open>unfolding facts about the file operations\<close>

section \<open>Paths\<close>

datatype component = RootDir | CurDir | ParentDir | Normal str

type_synonym path = "component list"

definition component_of :: "str \<Rightarrow> component" where
  "component_of n = (if n = ''..'' then ParentDir else Normal n)"

text \<open>\<open>Path::components\<close>: repeated separators and inner \<open>.\<close> vanish, a leading \<open>.\<close> stays.\<close>

definition components :: "str \<Rightarrow> path" where
  "components s =
     (let parts = split_char SLASH s in
      (if starts_with s [SLASH] then [RootDir]
       else if hd parts = ''.'' then [CurDir] else [])
      @ map component_of (filter (\<lambda>n. n \<noteq> [] \<and> n \<noteq> ''.'') parts))"

definition is_absolute :: "str \<Rightarrow> bool" where
  "is_absolute s \<longleftrightarrow> starts_with s [SLASH]"

definition path_join :: "str \<Rightarrow> str \<Rightarrow> str" where
  "path_join base p =
     (if is_absolute p then p
      else if base = [] \<or> last base = SLASH then base @ p
      else base @ [SLASH] @ p)"

text \<open>\<open>Path::parent\<close>, which is also what \<open>PathBuf::pop\<close> leaves.\<close>

definition path_parent :: "path \<Rightarrow> path option" where
  "path_parent p = (if p = [] \<or> last p = RootDir then None else Some (butlast p))"

text \<open>\<open>Path::starts_with\<close> compares whole components.\<close>

definition path_starts_with :: "path \<Rightarrow> path \<Rightarrow> bool" where
  "path_starts_with p q \<longleftrightarrow> take (length q) p = q"

section \<open>Disks\<close>

datatype ioerr = NotFound | OtherIo

datatype node = NDir | NFile str | NLink "str list"

type_synonym location = "str list"
type_synonym disk = "location \<Rightarrow> node option"

definition follow :: "disk \<Rightarrow> location \<Rightarrow> location" where
  "follow d l = (case d l of Some (NLink t) \<Rightarrow> t | _ \<Rightarrow> l)"

definition need_dir :: "disk \<Rightarrow> location \<Rightarrow> ioerr option" where
  "need_dir d l =
     (case d l of None \<Rightarrow> Some NotFound | Some NDir \<Rightarrow> None | Some _ \<Rightarrow> Some OtherIo)"

fun resolve :: "disk \<Rightarrow> location \<Rightarrow> path \<Rightarrow> ioerr + location" where
  "resolve d cur [] = Inr cur"
| "resolve d cur (RootDir # cs) = resolve d [] cs"
| "resolve d cur (CurDir # cs) = resolve d cur cs"
| "resolve d cur (ParentDir # cs) =
     (case need_dir d cur of Some e \<Rightarrow> Inl e | None \<Rightarrow> resolve d (butlast cur) cs)"
| "resolve d cur (Normal n # cs) =
     (case need_dir d cur of Some e \<Rightarrow> Inl e | None \<Rightarrow> resolve d (follow d (cur @ [n])) cs)"

text \<open>\<open>fs::metadata\<close>: the location and the node a path leads to.\<close>

definition stat :: "disk \<Rightarrow> path \<Rightarrow> ioerr + (location \<times> node)" where
  "stat d p =
     (case resolve d [] p of
        Inl e \<Rightarrow> Inl e
      | Inr l \<Rightarrow> (case d l of None \<Rightarrow> Inl NotFound | Some n \<Rightarrow> Inr (l, n)))"

definition path_exists :: "disk \<Rightarrow> path \<Rightarrow> bool" where
  "path_exists d p = (case stat d p of Inl _ \<Rightarrow> False | Inr _ \<Rightarrow> True)"

definition is_dir :: "disk \<Rightarrow> path \<Rightarrow> bool" where
  "is_dir d p = (case stat d p of Inr (_, NDir) \<Rightarrow> True | _ \<Rightarrow> False)"

definition is_file :: "disk \<Rightarrow> path \<Rightarrow> bool" where
  "is_file d p = (case stat d p of Inr (_, NFile _) \<Rightarrow> True | _ \<Rightarrow> False)"

definition canonicalize :: "disk \<Rightarrow> path \<Rightarrow> path option" where
  "canonicalize d p =
     (case stat d p of Inl _ \<Rightarrow> None | Inr (l, _) \<Rightarrow> Some (RootDir # map Normal l))"

definition read_file :: "disk \<Rightarrow> path \<Rightarrow> ioerr + str" where
  "read_file d p =
     (case stat d p of
        Inl e \<Rightarrow> Inl e
      | Inr (_, NFile b) \<Rightarrow> Inr b
      | Inr _ \<Rightarrow> Inl OtherIo)"

definition write_file :: "disk \<Rightarrow> path \<Rightarrow> str \<Rightarrow> ioerr + disk" where
  "write_file d p b =
     (case resolve d [] p of
        Inl e \<Rightarrow> Inl e
      | Inr l \<Rightarrow>
          (case d l of
             Some (NFile _) \<Rightarrow> Inr (d(l \<mapsto> NFile b))
           | Some _ \<Rightarrow> Inl OtherIo
           | None \<Rightarrow>
               (case need_dir d (butlast l) of
                  Some e \<Rightarrow> Inl e
                | None \<Rightarrow> Inr (d(l \<mapsto> NFile b)))))"

text \<open>
  Removing and making act on the directory entry itself: the path before the last name is
  resolved, a link at the name is not followed.
\<close>

definition entry_of :: "disk \<Rightarrow> path \<Rightarrow> ioerr + location" where
  "entry_of d p =
     (if p = [] then Inl NotFound
      else case last p of
        Normal n \<Rightarrow>
          (case resolve d [] (butlast p) of
             Inl e \<Rightarrow> Inl e
           | Inr l \<Rightarrow> (case need_dir d l of Some e \<Rightarrow> Inl e | None \<Rightarrow> Inr (l @ [n])))
      | _ \<Rightarrow> (case resolve d [] p of Inl e \<Rightarrow> Inl e | Inr _ \<Rightarrow> Inl OtherIo))"

text \<open>\<open>symlink_metadata\<close> does not follow a link at the last name.\<close>

definition lstat :: "disk \<Rightarrow> path \<Rightarrow> ioerr + node" where
  "lstat d p =
     (case entry_of d p of
        Inl e \<Rightarrow> Inl e
      | Inr l \<Rightarrow> (case d l of None \<Rightarrow> Inl NotFound | Some n \<Rightarrow> Inr n))"

definition remove_file :: "disk \<Rightarrow> path \<Rightarrow> ioerr + disk" where
  "remove_file d p =
     (case entry_of d p of
        Inl e \<Rightarrow> Inl e
      | Inr l \<Rightarrow>
          (case d l of
             None \<Rightarrow> Inl NotFound
           | Some NDir \<Rightarrow> Inl OtherIo
           | Some _ \<Rightarrow> Inr (d(l := None))))"

definition mkdir :: "disk \<Rightarrow> path \<Rightarrow> ioerr + disk" where
  "mkdir d p =
     (case entry_of d p of
        Inl e \<Rightarrow> Inl e
      | Inr l \<Rightarrow> (if d l = None then Inr (d(l \<mapsto> NDir)) else Inl OtherIo))"

text \<open>\<open>fs::create_dir_all\<close>, as \<open>DirBuilder\<close> does it: try, make the parent if that was missing, try
  again; an error is ignored where the path is a directory by then.\<close>

function create_dir_all :: "disk \<Rightarrow> path \<Rightarrow> ioerr + disk" where
  "create_dir_all d p =
     (if p = [] then Inr d
      else case mkdir d p of
        Inr d' \<Rightarrow> Inr d'
      | Inl NotFound \<Rightarrow>
          (if last p = RootDir then Inl OtherIo
           else case create_dir_all d (butlast p) of
             Inl e \<Rightarrow> Inl e
           | Inr d1 \<Rightarrow>
               (case mkdir d1 p of
                  Inr d2 \<Rightarrow> Inr d2
                | Inl e \<Rightarrow> if is_dir d1 p then Inr d1 else Inl e))
      | Inl OtherIo \<Rightarrow> if is_dir d p then Inr d else Inl OtherIo)"
  by pat_completeness auto
termination
  by (relation "measure (\<lambda>(d, p). length p)") auto

declare create_dir_all.simps [simp del]

section \<open>Plain disks and paths\<close>

text \<open>A plain disk has no links and is a tree; a plain path is absolute and has names only.\<close>

definition plain_disk :: "disk \<Rightarrow> bool" where
  "plain_disk d \<longleftrightarrow>
     d [] = Some NDir \<and> (\<forall>l t. d l \<noteq> Some (NLink t))
     \<and> (\<forall>l n. d (l @ [n]) \<noteq> None \<longrightarrow> d l = Some NDir)"

definition abs_path :: "location \<Rightarrow> path" where
  "abs_path ns = RootDir # map Normal ns"

definition file_at :: "disk \<Rightarrow> location \<Rightarrow> str option" where
  "file_at d l = (case d l of Some (NFile b) \<Rightarrow> Some b | _ \<Rightarrow> None)"

lemma file_at_Some_iff: "file_at d l = Some b \<longleftrightarrow> d l = Some (NFile b)"
  by (auto simp: file_at_def split: option.splits node.splits)

lemma file_at_upd [simp]: "file_at (d(l \<mapsto> NFile b)) = (file_at d)(l := Some b)"
  and file_at_del [simp]: "file_at (d(l := None)) = (file_at d)(l := None)"
  and file_at_dir [simp]: "file_at (d(l \<mapsto> NDir)) = (file_at d)(l := None)"
  by (auto simp: file_at_def fun_eq_iff)

lemma plain_root [simp]: "plain_disk d \<Longrightarrow> d [] = Some NDir"
  and plain_no_link [simp]: "plain_disk d \<Longrightarrow> d l \<noteq> Some (NLink t)"
  and plain_parent: "plain_disk d \<Longrightarrow> d (l @ [n]) \<noteq> None \<Longrightarrow> d l = Some NDir"
  unfolding plain_disk_def by simp_all (blast+)

lemma plain_diskI:
  assumes "d [] = Some NDir" and "\<And>l t. d l \<noteq> Some (NLink t)"
    and "\<And>l n. d (l @ [n]) \<noteq> None \<Longrightarrow> d l = Some NDir"
  shows "plain_disk d"
  using assms unfolding plain_disk_def by blast

lemma plain_butlast: "plain_disk d \<Longrightarrow> d l \<noteq> None \<Longrightarrow> d (butlast l) = Some NDir"
  by (cases l rule: rev_cases) (auto intro: plain_parent)

lemma plain_take: "plain_disk d \<Longrightarrow> d l \<noteq> None \<Longrightarrow> k < length l \<Longrightarrow> d (take k l) = Some NDir"
proof (induction l rule: rev_induct)
  case (snoc n l)
  then have dir: "d l = Some NDir" by (auto intro: plain_parent)
  show ?case
    using snoc dir by (cases "k = length l") auto
qed simp

lemma follow_plain [simp]: "plain_disk d \<Longrightarrow> follow d l = l"
  by (auto simp: follow_def split: option.splits node.splits)

lemma need_dir_NDir [simp]: "d l = Some NDir \<Longrightarrow> need_dir d l = None"
  by (simp add: need_dir_def)

lemma need_dir_None: "need_dir d l = None \<longleftrightarrow> d l = Some NDir"
  by (auto simp: need_dir_def split: option.splits node.splits)

lemma plain_prefix: "plain_disk d \<Longrightarrow> d (a @ b) \<noteq> None \<Longrightarrow> b \<noteq> [] \<Longrightarrow> d a = Some NDir"
  using plain_take [of d "a @ b" "length a"] by (cases b) auto

lemma resolve_Normal_plain:
  "plain_disk d \<Longrightarrow>
   resolve d cur (Normal n # cs) =
     (if d cur = Some NDir then resolve d (cur @ [n]) cs
      else Inl (if d cur = None then NotFound else OtherIo))"
  by (auto simp: need_dir_def split: option.splits node.splits)

lemma resolve_RootDir: "resolve d cur (abs_path ns) = resolve d [] (map Normal ns)"
  by (simp add: abs_path_def)

text \<open>On a plain disk a plain path resolves exactly when the directory it lies in exists.\<close>

definition in_dir :: "disk \<Rightarrow> location \<Rightarrow> bool" where
  "in_dir d ns \<longleftrightarrow> ns = [] \<or> d (butlast ns) = Some NDir"

lemma in_dir_existing: "plain_disk d \<Longrightarrow> d ns \<noteq> None \<Longrightarrow> in_dir d ns"
  by (auto simp: in_dir_def intro: plain_butlast)

lemma resolve_names_Inr:
  assumes "plain_disk d"
  shows "resolve d cur (map Normal ns) = Inr l \<longleftrightarrow>
     l = cur @ ns \<and> (ns = [] \<or> d (butlast (cur @ ns)) = Some NDir)"
proof (induction ns arbitrary: cur)
  case (Cons n ns)
  have up: "d (butlast (cur @ n # ns)) = Some NDir \<Longrightarrow> d cur = Some NDir"
    using plain_prefix [OF assms, of cur "butlast (n # ns)"]
    by (cases "ns = []") (auto simp: butlast_append)
  show ?case
    using up Cons [of "cur @ [n]"] assms
    by (cases "d cur = Some NDir") (auto simp add: resolve_Normal_plain simp del: resolve.simps)
qed auto

lemma resolve_abs_Inr:
  "plain_disk d \<Longrightarrow> resolve d [] (abs_path ns) = Inr l \<longleftrightarrow> l = ns \<and> in_dir d ns"
  using resolve_names_Inr [of d "[]"] by (simp add: in_dir_def resolve_RootDir)

lemma resolve_abs:
  assumes "plain_disk d"
  obtains "in_dir d ns" and "resolve d [] (abs_path ns) = Inr ns"
  | e where "\<not> in_dir d ns" and "resolve d [] (abs_path ns) = Inl e"
proof (cases "resolve d [] (abs_path ns)")
  case (Inl e)
  then have "\<not> in_dir d ns" using resolve_abs_Inr [OF assms, of ns ns] by simp
  then show ?thesis using Inl by (rule that(2))
next
  case (Inr l)
  then have "in_dir d ns" and "l = ns" using resolve_abs_Inr [OF assms, of ns l] by simp_all
  then show ?thesis using Inr by (auto intro: that(1))
qed

lemma stat_plain:
  assumes "plain_disk d"
  shows "stat d (abs_path ns) = Inr x \<longleftrightarrow> (\<exists>n. d ns = Some n \<and> x = (ns, n))"
  using in_dir_existing [OF assms, of ns]
  by (cases rule: resolve_abs [OF assms, of ns]) (auto simp: stat_def split: option.splits)

lemma read_file_plain:
  assumes "plain_disk d"
  shows "read_file d (abs_path ns) = Inr b \<longleftrightarrow> file_at d ns = Some b"
  using in_dir_existing [OF assms, of ns]
  by (cases rule: resolve_abs [OF assms, of ns])
    (auto simp: read_file_def stat_def file_at_def split: option.splits node.splits)

text \<open>Where no name on the way is a file, a node that is not there is reported as missing.\<close>

definition clear_way :: "disk \<Rightarrow> location \<Rightarrow> bool" where
  "clear_way d ns \<longleftrightarrow> (\<forall>a b. ns = a @ b \<and> b \<noteq> [] \<longrightarrow> file_at d a = None)"

lemma clear_wayD: "clear_way d (a @ b) \<Longrightarrow> b \<noteq> [] \<Longrightarrow> file_at d a = None"
  by (auto simp: clear_way_def)

lemma clear_way_node:
  assumes "plain_disk d" and "clear_way d (a @ b)" and "b \<noteq> []" and "d a \<noteq> None"
  shows "d a = Some NDir"
  using clear_wayD [OF assms(2,3)] assms(1,4)
  by (cases "d a"; cases "the (d a)") (auto simp: file_at_def)

lemma resolve_names_clear:
  assumes "plain_disk d" and "clear_way d (cur @ ns)" and "resolve d cur (map Normal ns) = Inl e"
  shows "e = NotFound"
  using assms(2,3)
proof (induction ns arbitrary: cur)
  case (Cons n ns)
  from Cons.prems(1) have "d cur \<noteq> None \<Longrightarrow> d cur = Some NDir"
    using clear_way_node [OF assms(1)] by blast
  with Cons.prems Cons.IH [of "cur @ [n]"] show ?case
    using assms(1) by (auto simp add: resolve_Normal_plain simp del: resolve.simps split: if_splits)
qed simp

lemma stat_clear:
  "plain_disk d \<Longrightarrow> clear_way d ns \<Longrightarrow> stat d (abs_path ns) = Inl e \<Longrightarrow> e = NotFound"
  using resolve_names_clear [of d "[]" ns e]
  by (auto simp: stat_def resolve_RootDir split: sum.splits option.splits)

lemma write_file_plain:
  assumes "plain_disk d"
  shows "write_file d (abs_path ns) b = Inr d' \<longleftrightarrow>
     d' = d(ns \<mapsto> NFile b) \<and> d ns \<noteq> Some NDir \<and> in_dir d ns"
proof (cases rule: resolve_abs [OF assms, of ns])
  case 1
  show ?thesis
  proof (cases "d ns")
    case None
    with assms have "ns \<noteq> []" by auto
    with 1(1) have "d (butlast ns) = Some NDir" by (simp add: in_dir_def)
    with 1 None show ?thesis by (auto simp: write_file_def)
  next
    case (Some x)
    with 1 assms show ?thesis by (cases x) (auto simp: write_file_def)
  qed
next
  case 2
  then show ?thesis by (auto simp: write_file_def)
qed

lemma entry_of_plain:
  assumes "plain_disk d"
  shows "entry_of d (abs_path ns) = Inr l \<longleftrightarrow> l = ns \<and> ns \<noteq> [] \<and> in_dir d ns"
proof (cases ns rule: rev_cases)
  case Nil
  then show ?thesis by (auto simp: entry_of_def abs_path_def)
next
  case (snoc ms n)
  then have e: "entry_of d (abs_path ns) =
      (case resolve d [] (abs_path ms) of
         Inl e \<Rightarrow> Inl e
       | Inr l \<Rightarrow> (case need_dir d l of Some e \<Rightarrow> Inl e | None \<Rightarrow> Inr (l @ [n])))"
    by (simp add: entry_of_def abs_path_def butlast_append)
  have "d ms = Some NDir \<Longrightarrow> in_dir d ms" using in_dir_existing [OF assms, of ms] by simp
  then have dir: "in_dir d ns \<longleftrightarrow> d ms = Some NDir" using snoc by (simp add: in_dir_def)
  show ?thesis
  proof (cases rule: resolve_abs [OF assms, of ms])
    case 1
    show ?thesis
      using e 1(2) dir snoc need_dir_None [of d ms] by (cases "need_dir d ms") auto
  next
    case 2
    then show ?thesis using e dir in_dir_existing [OF assms, of ms] by auto
  qed
qed

lemma remove_file_plain:
  assumes "plain_disk d"
  shows "remove_file d (abs_path ns) = Inr d' \<longleftrightarrow> file_at d ns \<noteq> None \<and> d' = d(ns := None)"
proof (cases "entry_of d (abs_path ns)")
  case (Inl e)
  then have "ns = [] \<or> d ns = None"
    using entry_of_plain [OF assms, of ns ns] in_dir_existing [OF assms, of ns] by auto
  with Inl assms show ?thesis by (auto simp: remove_file_def file_at_def)
next
  case (Inr l)
  then have "l = ns" using entry_of_plain [OF assms, of ns l] by auto
  with Inr assms show ?thesis
    by (auto simp: remove_file_def file_at_def split: option.splits node.splits)
qed

lemma mkdir_plain:
  assumes "plain_disk d"
  shows "mkdir d (abs_path ns) = Inr d' \<longleftrightarrow> d' = d(ns \<mapsto> NDir) \<and> d ns = None \<and> in_dir d ns"
proof (cases "entry_of d (abs_path ns)")
  case (Inl e)
  then have "ns = [] \<or> \<not> in_dir d ns"
    using entry_of_plain [OF assms, of ns ns] by auto
  with Inl assms show ?thesis by (auto simp: mkdir_def)
next
  case (Inr l)
  then have "l = ns" and "in_dir d ns" using entry_of_plain [OF assms, of ns l] by simp_all
  with Inr show ?thesis by (auto simp: mkdir_def)
qed

text \<open>Every successful operation keeps a plain disk plain.\<close>

lemma plain_put:
  assumes "plain_disk d" and "in_dir d ns" and "ns \<noteq> []" and "d ns \<noteq> Some NDir \<or> n = NDir"
    and "\<And>t. n \<noteq> NLink t"
  shows "plain_disk (d(ns \<mapsto> n))"
proof (rule plain_diskI)
  from assms(2,3) have up: "d (butlast ns) = Some NDir" by (simp add: in_dir_def)
  show "(d(ns \<mapsto> n)) [] = Some NDir" using assms(1,3) by simp
  show "(d(ns \<mapsto> n)) l \<noteq> Some (NLink t)" for l t
    using plain_no_link [OF assms(1), of l t] assms(5) [of t] by simp
  fix l m
  assume has: "(d(ns \<mapsto> n)) (l @ [m]) \<noteq> None"
  show "(d(ns \<mapsto> n)) l = Some NDir"
  proof (cases "l @ [m] = ns")
    case True
    then have "l = butlast ns" and "l \<noteq> ns" by auto
    with up show ?thesis by simp
  next
    case False
    with has plain_parent [OF assms(1)] have "d l = Some NDir" by simp
    with assms(4) show ?thesis by auto
  qed
qed

lemma plain_del:
  assumes "plain_disk d" and "file_at d ns \<noteq> None"
  shows "plain_disk (d(ns := None))"
proof (rule plain_diskI)
  from assms have ns: "ns \<noteq> []" "d ns \<noteq> Some NDir" by (auto simp: file_at_def)
  show "(d(ns := None)) [] = Some NDir" using assms(1) ns(1) by simp
  show "(d(ns := None)) l \<noteq> Some (NLink t)" for l t
    using plain_no_link [OF assms(1), of l t] by simp
  show "(d(ns := None)) (l @ [m]) \<noteq> None \<Longrightarrow> (d(ns := None)) l = Some NDir" for l m
    using plain_parent [OF assms(1), of l m] ns(2) by (auto split: if_splits)
qed

lemma plain_write:
  "plain_disk d \<Longrightarrow> write_file d (abs_path ns) b = Inr d' \<Longrightarrow> plain_disk d'"
  using plain_put [of d ns "NFile b"] by (cases "ns = []") (auto simp: write_file_plain)

lemma plain_remove:
  "plain_disk d \<Longrightarrow> remove_file d (abs_path ns) = Inr d' \<Longrightarrow> plain_disk d'"
  by (auto simp: remove_file_plain intro: plain_del)

lemma plain_mkdir: "plain_disk d \<Longrightarrow> mkdir d (abs_path ns) = Inr d' \<Longrightarrow> plain_disk d'"
  using plain_put [of d ns NDir] by (cases "ns = []") (auto simp: mkdir_plain)

text \<open>What \<open>create_dir_all\<close> does to a plain disk: it only adds directories.\<close>

definition only_dirs_added :: "disk \<Rightarrow> disk \<Rightarrow> bool" where
  "only_dirs_added d d' \<longleftrightarrow> (\<forall>l. d' l = d l \<or> (d l = None \<and> d' l = Some NDir))"

lemma only_dirs_added_file_at: "only_dirs_added d d' \<Longrightarrow> file_at d' = file_at d"
proof
  fix l
  assume "only_dirs_added d d'"
  then have "d' l = d l \<or> (d l = None \<and> d' l = Some NDir)" by (simp add: only_dirs_added_def)
  then show "file_at d' l = file_at d l" by (auto simp: file_at_def)
qed

lemma only_dirs_added_refl [simp]: "only_dirs_added d d"
  by (simp add: only_dirs_added_def)

lemma only_dirs_added_trans: "only_dirs_added a b \<Longrightarrow> only_dirs_added b c \<Longrightarrow> only_dirs_added a c"
  unfolding only_dirs_added_def by metis

lemma abs_path_snoc: "abs_path (ns @ [n]) = abs_path ns @ [Normal n]"
  by (simp add: abs_path_def)

lemma is_dir_plain: "plain_disk d \<Longrightarrow> is_dir d (abs_path ns) \<longleftrightarrow> d ns = Some NDir"
  using stat_plain [of d ns "(ns, NDir)"] stat_plain [of d ns "projr (stat d (abs_path ns))"]
  by (cases "stat d (abs_path ns)") (auto simp: is_dir_def split: node.splits)

lemma mkdir_root: "mkdir d [RootDir] = Inl OtherIo"
  by (simp add: mkdir_def entry_of_def)

text \<open>
  Paths with \<open>..\<close>: on a plain disk the resolved location is the lexically normalised path. At the
  root the operating system stays where it is, where the normalisation gives up.
\<close>

fun normalize :: "path \<Rightarrow> path \<Rightarrow> path option" where
  "normalize acc [] = Some acc"
| "normalize acc (RootDir # cs) = normalize [RootDir] cs"
| "normalize acc (CurDir # cs) = normalize acc cs"
| "normalize acc (ParentDir # cs) =
     (case path_parent acc of None \<Rightarrow> None | Some q \<Rightarrow> normalize q cs)"
| "normalize acc (Normal n # cs) = normalize (acc @ [Normal n]) cs"

lemma path_parent_abs: "path_parent (abs_path l) = (if l = [] then None else Some (abs_path (butlast l)))"
  by (cases l rule: rev_cases) (auto simp: path_parent_def abs_path_def butlast_append)

lemma resolve_normalize:
  "plain_disk d \<Longrightarrow> resolve d cur p = Inr l \<Longrightarrow> normalize (abs_path cur) p = Some q \<Longrightarrow> q = abs_path l"
proof (induction d cur p rule: resolve.induct)
  case (4 d cur cs)
  then show ?case
    by (auto simp: path_parent_abs split: option.splits if_splits)
next
  case (5 d cur n cs)
  then have "follow d (cur @ [n]) = cur @ [n]" by simp
  with 5 show ?case by (auto simp: abs_path_snoc split: option.splits)
qed (auto simp: abs_path_def)

lemma normalize_append: "normalize acc (p @ q) = Option.bind (normalize acc p) (\<lambda>a. normalize a q)"
  by (induction acc p rule: normalize.induct) (auto split: option.splits)

lemma entry_of_normalize:
  assumes "plain_disk d" and "entry_of d p = Inr l" and "normalize (abs_path []) p = Some q"
  shows "q = abs_path l \<and> in_dir d l \<and> l \<noteq> []"
proof -
  from assms(2) obtain n where p: "p \<noteq> []" "last p = Normal n"
    by (auto simp: entry_of_def split: component.splits sum.splits if_splits)
  then have p_eq: "p = butlast p @ [Normal n]" by (metis append_butlast_last_id)
  from p assms(2) obtain k where k: "resolve d [] (butlast p) = Inr k" "l = k @ [n]" "d k = Some NDir"
    by (auto simp: entry_of_def need_dir_None split: sum.splits option.splits)
  have "normalize (abs_path []) (butlast p @ [Normal n]) = Some q" using assms(3) p_eq by simp
  then obtain q' where q': "normalize (abs_path []) (butlast p) = Some q'"
    and q: "q = q' @ [Normal n]"
    by (auto simp: normalize_append bind_eq_Some_conv)
  from resolve_normalize [OF assms(1) k(1) q'] k q show ?thesis
    by (simp add: abs_path_snoc in_dir_def)
qed

lemma entry_of_in_dir: "plain_disk d \<Longrightarrow> entry_of d p = Inr l \<Longrightarrow> in_dir d l \<and> l \<noteq> []"
  by (auto simp: entry_of_def in_dir_def need_dir_None
      split: component.splits sum.splits if_splits option.splits)

lemma mkdir_any:
  assumes "plain_disk d" and "mkdir d p = Inr d'"
  shows "plain_disk d' \<and> only_dirs_added d d'"
proof -
  from assms(2) obtain l where l: "entry_of d p = Inr l" "d l = None" "d' = d(l \<mapsto> NDir)"
    by (auto simp: mkdir_def split: sum.splits if_splits)
  from entry_of_in_dir [OF assms(1) l(1)] have "in_dir d l" and "l \<noteq> []" by simp_all
  with plain_put [OF assms(1), of l NDir] l show ?thesis by (auto simp: only_dirs_added_def)
qed

text \<open>The ways \<open>create_dir_all\<close> can succeed.\<close>

lemma create_dir_all_cases:
  assumes "create_dir_all d p = Inr d'"
  obtains "p = []" and "d' = d"
  | "p \<noteq> []" and "mkdir d p = Inr d'"
  | "p \<noteq> []" and "d' = d" and "is_dir d p"
  | d1 where "p \<noteq> []" and "create_dir_all d (butlast p) = Inr d1" and "mkdir d1 p = Inr d'"
  | "p \<noteq> []" and "create_dir_all d (butlast p) = Inr d'" and "is_dir d' p"
  using assms
  by (subst (asm) create_dir_all.simps)
    (fastforce split: if_splits sum.splits ioerr.splits)

lemma create_dir_all_any:
  "plain_disk d \<Longrightarrow> create_dir_all d p = Inr d' \<Longrightarrow> plain_disk d' \<and> only_dirs_added d d'"
proof (induction "length p" arbitrary: p d' rule: less_induct)
  case less
  have shorter: "p \<noteq> [] \<Longrightarrow> length (butlast p) < length p" by simp
  from less.prems(2) show ?case
  proof (cases rule: create_dir_all_cases)
    case (4 d1)
    with less.hyps [OF shorter less.prems(1)] mkdir_any [of d1 p d'] show ?thesis
      using only_dirs_added_trans by blast
  next
    case 5
    then show ?thesis using less.hyps [OF shorter less.prems(1)] by blast
  qed (use less.prems(1) mkdir_any in auto)
qed

lemma create_dir_all_plain:
  assumes "plain_disk d" and "create_dir_all d (abs_path ns) = Inr d'"
  shows "plain_disk d' \<and> d' ns = Some NDir \<and> only_dirs_added d d'"
proof -
  from create_dir_all_any [OF assms] have ok: "plain_disk d'" "only_dirs_added d d'" by simp_all
  have mk: "plain_disk e \<Longrightarrow> mkdir e (abs_path ns) = Inr d' \<Longrightarrow> d' ns = Some NDir" for e
    using mkdir_plain by simp
  from assms(2) have "d' ns = Some NDir"
  proof (cases rule: create_dir_all_cases)
    case (4 d1)
    with create_dir_all_any [OF assms(1)] mk show ?thesis by blast
  qed (use assms(1) ok(1) mk is_dir_plain in \<open>auto simp: abs_path_def\<close>)
  with ok show ?thesis by simp
qed

text \<open>It succeeds where no name on the way, the last included, is a file.\<close>

lemma mkdir_clear:
  assumes "plain_disk d" and "clear_way d (ns @ [n])"
    and "mkdir d (abs_path (ns @ [n])) = Inl OtherIo"
  shows "d (ns @ [n]) \<noteq> None"
proof
  assume none: "d (ns @ [n]) = None"
  have "clear_way d ns"
    using assms(2) unfolding clear_way_def by (metis append_assoc append_is_Nil_conv)
  show False
  proof (cases rule: resolve_abs [OF assms(1), of ns])
    case 1
    have "need_dir d ns \<noteq> Some OtherIo"
      using clear_way_node [OF assms(1,2)] by (cases "d ns") (auto simp: need_dir_def)
    with 1(2) none assms(3) show False
      by (auto simp: mkdir_def entry_of_def abs_path_snoc split: option.splits)
  next
    case (2 e)
    with \<open>clear_way d ns\<close> have "e = NotFound"
      using resolve_names_clear [OF assms(1), of "[]" ns e] by (simp add: resolve_RootDir)
    with 2 assms(3) show False by (simp add: mkdir_def entry_of_def abs_path_snoc)
  qed
qed

lemma create_dir_all_ok:
  "plain_disk d \<Longrightarrow> clear_way d (ns @ [m]) \<Longrightarrow> \<exists>d'. create_dir_all d (abs_path ns) = Inr d'"
proof (induction ns arbitrary: m rule: rev_induct)
  case Nil
  then have "is_dir d (abs_path [])" using is_dir_plain by auto
  then show ?case by (subst create_dir_all.simps) (simp add: abs_path_def mkdir_root)
next
  case (snoc n ns)
  let ?p = "abs_path (ns @ [n])"
  have p: "?p \<noteq> []" "last ?p = Normal n" "butlast ?p = abs_path ns"
    by (simp_all add: abs_path_snoc)
  have cw: "clear_way d (ns @ [n])"
    using snoc.prems(2) unfolding clear_way_def by (metis append_assoc append_is_Nil_conv)
  have not_file: "file_at d (ns @ [n]) = None"
    using snoc.prems(2) by (rule clear_wayD) simp
  have dir: "is_dir e ?p" if "plain_disk e" "only_dirs_added d e" "e (ns @ [n]) \<noteq> None" for e
  proof -
    have "file_at e (ns @ [n]) = None"
      using not_file only_dirs_added_file_at [OF that(2)] by simp
    then have "e (ns @ [n]) \<noteq> None \<Longrightarrow> e (ns @ [n]) = Some NDir"
      using plain_no_link [OF that(1)]
      by (cases "e (ns @ [n])"; cases "the (e (ns @ [n]))") (auto simp: file_at_def)
    then show ?thesis using is_dir_plain [OF that(1)] that(3) by simp
  qed
  obtain d1 where d1: "create_dir_all d (abs_path ns) = Inr d1" using snoc cw by blast
  note d1_props = create_dir_all_plain [OF snoc.prems(1) d1]
  have again: "mkdir d1 ?p = Inl e \<Longrightarrow> is_dir d1 ?p" for e
    using d1_props mkdir_plain [of d1 "ns @ [n]" "d1(ns @ [n] \<mapsto> NDir)"] dir
    by (cases "d1 (ns @ [n])") (auto simp: in_dir_def)
  show ?case
  proof (cases "mkdir d ?p")
    case (Inr x)
    with p show ?thesis by (subst create_dir_all.simps) simp
  next
    case (Inl e)
    show ?thesis
    proof (cases e)
      case NotFound
      with Inl p d1 again show ?thesis
        by (subst create_dir_all.simps) (auto split: sum.splits)
    next
      case OtherIo
      with Inl mkdir_clear [OF snoc.prems(1) cw] dir [OF snoc.prems(1)] have "is_dir d ?p" by simp
      with Inl OtherIo p show ?thesis by (subst create_dir_all.simps) simp
    qed
  qed
qed

section \<open>Undoing\<close>

text \<open>A list of undo entries is applied in order and stops at the first failure.\<close>

fun undo_list :: "('e \<Rightarrow> 's \<Rightarrow> 's option) \<Rightarrow> 'e list \<Rightarrow> 's \<Rightarrow> 's option" where
  "undo_list undo [] s = Some s"
| "undo_list undo (e # es) s =
     (case undo e s of None \<Rightarrow> None | Some s' \<Rightarrow> undo_list undo es s')"

definition override_with :: "('k \<Rightarrow> 'v option) \<Rightarrow> ('k \<times> 'v option) list \<Rightarrow> 'k \<Rightarrow> 'v option" where
  "override_with f log k = (case map_of (rev log) k of None \<Rightarrow> f k | Some v \<Rightarrow> v)"

text \<open>
  The contract a store gives to whoever undoes a log on it: on the keys the log may touch, an
  entry is applied without failure and sets the entry's key to the entry's value, nothing else.
\<close>

locale undo_store =
  fixes view :: "'s \<Rightarrow> 'k \<Rightarrow> 'v option"
    and fits :: "'k set \<Rightarrow> 's \<Rightarrow> bool"
    and undo :: "'e \<Rightarrow> 's \<Rightarrow> 's option"
    and key :: "'e \<Rightarrow> 'k"
    and val :: "'e \<Rightarrow> 'v option"
    and good :: "'e \<Rightarrow> bool"
  assumes undo_step: "fits K s \<Longrightarrow> good e \<Longrightarrow> key e \<in> K \<Longrightarrow>
    \<exists>s'. undo e s = Some s' \<and> fits K s' \<and> view s' = (view s)(key e := val e)"
begin

lemma undo_list_view:
  "fits K s \<Longrightarrow> list_all good es \<Longrightarrow> key ` set es \<subseteq> K \<Longrightarrow>
   \<exists>s'. undo_list undo es s = Some s' \<and> fits K s' \<and>
     view s' = override_with (view s) (map (\<lambda>e. (key e, val e)) es)"
proof (induction es arbitrary: s)
  case (Cons e es)
  from Cons.prems undo_step [of K s e] obtain s1
    where s1: "undo e s = Some s1" "fits K s1" "view s1 = (view s)(key e := val e)" by auto
  from Cons.IH [OF s1(2)] Cons.prems obtain s'
    where s': "undo_list undo es s1 = Some s'" "fits K s'"
      "view s' = override_with (view s1) (map (\<lambda>e. (key e, val e)) es)" by auto
  have "view s' = override_with (view s) (map (\<lambda>e. (key e, val e)) (e # es))"
    unfolding s'(3) s1(3) by (auto simp: override_with_def fun_eq_iff map_add_def split: option.splits)
  with s1(1) s' show ?case by simp
qed (simp add: override_with_def fun_eq_iff)

end

lemma override_with_append:
  "override_with f (a @ b) = override_with (override_with f a) b"
  by (auto simp: override_with_def fun_eq_iff map_add_def split: option.splits)

end
