(* ===== verification/Checkpoint.thy ===== *)
theory Checkpoint
  imports FileSystem "HOL-Library.AList"
begin

text \<open>
  The file-snapshot checkpoints of \<open>crates/git-ops/src/checkpoint.rs\<close>: before a tool changes a
  file, \<open>backup_file\<close> records its prior contents under \<open>(session, turn)\<close>; \<open>restore_to\<close> applies the
  records of all later turns in reverse. The checkpoint directory is out of the project tree and is
  modelled by what is stored in it: a directory per session, in it one entry per turn directory (in
  listing order) with its manifest and its blobs. The project lives on a \<open>disk\<close>.
\<close>

section \<open>Data\<close>

record backup_entry =
  be_path :: str
  be_existed_before :: bool
  be_blob :: "str option"

record turn_manifest =
  tm_version :: u32
  tm_session_id :: str
  tm_turn :: u32
  tm_entries :: "backup_entry list"

record turn_info =
  ti_turn :: u32
  ti_file_count :: nat
  ti_paths :: "str list"

record diff_output =
  do_diff :: str
  do_files_changed :: nat
  do_insertions :: nat
  do_deletions :: nat
  do_stat :: str

text \<open>A manifest file is absent, unreadable as JSON (with the parser's reason), or a manifest.\<close>

datatype manifest_file = NoManifest | CorruptFile str | Manifest turn_manifest

record turn_dir =
  td_manifest :: manifest_file
  td_blobs :: "str \<Rightarrow> str option"

type_synonym session_dir = "(str \<times> turn_dir) list"
type_synonym ck_store = "str \<Rightarrow> session_dir option"

datatype git_error =
    Io ioerr
  | NonAbsolutePath str
  | CheckpointNotFound str u32
  | CorruptManifest str str

section \<open>Names\<close>

definition is_ascii_alphanumeric :: "char \<Rightarrow> bool" where
  "is_ascii_alphanumeric c \<longleftrightarrow>
     (let n = of_char c :: nat in
      (48 \<le> n \<and> n \<le> 57) \<or> (65 \<le> n \<and> n \<le> 90) \<or> (97 \<le> n \<and> n \<le> 122))"

definition hex_digit :: "nat \<Rightarrow> char" where
  "hex_digit n = ''0123456789ABCDEF'' ! n"

definition sanitize_byte :: "char \<Rightarrow> str" where
  "sanitize_byte b =
     (if is_ascii_alphanumeric b \<or> b = CHR ''.'' \<or> b = CHR ''_'' \<or> b = CHR ''-'' then [b]
      else [CHR ''%'', hex_digit (of_char b div 16), hex_digit (of_char b mod 16)])"

definition sanitize_session_id :: "str \<Rightarrow> str" where
  "sanitize_session_id sid = concat (map sanitize_byte sid)"

definition turn_dirname :: "u32 \<Rightarrow> str" where
  "turn_dirname t = ''turn-'' @ to_decimal_padded 4 (unat t)"

definition parse_turn_from_dirname :: "str \<Rightarrow> u32 option" where
  "parse_turn_from_dirname name = Option.bind (strip_prefix name ''turn-'') parse_u32"

definition blob_filename :: "nat \<Rightarrow> str" where
  "blob_filename n = to_decimal_padded 4 n @ ''.blob''"

definition manifest_path :: "str \<Rightarrow> str \<Rightarrow> str" where
  "manifest_path root tdir = root @ [SLASH] @ tdir @ [SLASH] @ ''manifest.json''"

section \<open>Reading the store\<close>

definition empty_turn_dir :: turn_dir where
  "empty_turn_dir = \<lparr>td_manifest = NoManifest, td_blobs = (\<lambda>_. None)\<rparr>"

definition session_turns :: "ck_store \<Rightarrow> str \<Rightarrow> session_dir" where
  "session_turns st root = (case st root of None \<Rightarrow> [] | Some sd \<Rightarrow> sd)"

definition get_turn_dir :: "ck_store \<Rightarrow> str \<Rightarrow> str \<Rightarrow> turn_dir" where
  "get_turn_dir st root tdir =
     (case map_of (session_turns st root) tdir of None \<Rightarrow> empty_turn_dir | Some td \<Rightarrow> td)"

definition read_manifest :: "ck_store \<Rightarrow> str \<Rightarrow> str \<Rightarrow> git_error + turn_manifest option" where
  "read_manifest st root tdir =
     (case td_manifest (get_turn_dir st root tdir) of
        NoManifest \<Rightarrow> Inr None
      | CorruptFile reason \<Rightarrow> Inl (CorruptManifest (manifest_path root tdir) reason)
      | Manifest m \<Rightarrow> Inr (Some m))"

definition list_turn_numbers :: "ck_store \<Rightarrow> str \<Rightarrow> u32 list" where
  "list_turn_numbers st root =
     List.map_filter (\<lambda>(name, _). parse_turn_from_dirname name) (session_turns st root)"

section \<open>Backing up\<close>

definition write_turn_dir :: "ck_store \<Rightarrow> str \<Rightarrow> str \<Rightarrow> turn_dir \<Rightarrow> ck_store" where
  "write_turn_dir st root tdir td = st(root \<mapsto> AList.update tdir td (session_turns st root))"

definition initial_manifest :: "str \<Rightarrow> u32 \<Rightarrow> turn_manifest" where
  "initial_manifest sid t =
     \<lparr>tm_version = 1, tm_session_id = sid, tm_turn = t, tm_entries = []\<rparr>"

text \<open>
  The prior state of a file: its contents if it is a regular file, \<open>None\<close> if there is nothing or
  something else at the path.
\<close>

definition capture :: "disk \<Rightarrow> path \<Rightarrow> git_error + str option" where
  "capture d p =
     (case stat d p of
        Inl NotFound \<Rightarrow> Inr None
      | Inl e \<Rightarrow> Inl (Io e)
      | Inr (_, NFile _) \<Rightarrow> (case read_file d p of Inl e \<Rightarrow> Inl (Io e) | Inr b \<Rightarrow> Inr (Some b))
      | Inr _ \<Rightarrow> Inr None)"

definition backup_file :: "ck_store \<Rightarrow> disk \<Rightarrow> str \<Rightarrow> u32 \<Rightarrow> str \<Rightarrow> git_error + ck_store" where
  "backup_file st d sid t file_path =
     (if \<not> is_absolute file_path then Inl (NonAbsolutePath file_path)
      else
        let root = sanitize_session_id sid; tdir = turn_dirname t in
        case read_manifest st root tdir of
          Inl e \<Rightarrow> Inl e
        | Inr mo \<Rightarrow>
            (let m = (case mo of None \<Rightarrow> initial_manifest sid t | Some m \<Rightarrow> m) in
             if \<exists>e \<in> set (tm_entries m). be_path e = file_path then Inr st
             else case capture d (components file_path) of
               Inl e \<Rightarrow> Inl e
             | Inr prior \<Rightarrow>
                 (let td = get_turn_dir st root tdir;
                      blob_name = blob_filename (length (tm_entries m));
                      entry = \<lparr>be_path = file_path, be_existed_before = prior \<noteq> None,
                               be_blob = (case prior of None \<Rightarrow> None | Some _ \<Rightarrow> Some blob_name)\<rparr>;
                      blobs = (case prior of None \<Rightarrow> td_blobs td
                                | Some b \<Rightarrow> (td_blobs td)(blob_name \<mapsto> b))
                  in Inr (write_turn_dir st root tdir
                       \<lparr>td_manifest = Manifest (m\<lparr>tm_entries := tm_entries m @ [entry]\<rparr>),
                        td_blobs = blobs\<rparr>))))"

section \<open>Restoring\<close>

definition is_within_root :: "path \<Rightarrow> path \<Rightarrow> bool" where
  "is_within_root root candidate =
     (case normalize [] candidate of
        None \<Rightarrow> False
      | Some n \<Rightarrow> path_starts_with n root)"

definition missing_blob_msg :: "str \<Rightarrow> str" where
  "missing_blob_msg p = ''entry '' @ p @ '' has existed_before=true but no blob''"

text \<open>One entry: the disk afterwards, and an error or how many files changed.\<close>

definition restore_entry ::
    "path \<Rightarrow> str \<Rightarrow> (str \<Rightarrow> str option) \<Rightarrow> backup_entry \<Rightarrow> disk \<Rightarrow> disk \<times> (git_error + nat)" where
  "restore_entry project_root mpath blobs e d =
     (let p = components (be_path e) in
      if \<not> is_within_root project_root p then (d, Inr 0)
      else if \<not> be_existed_before e then
        (case remove_file d p of
           Inr d' \<Rightarrow> (d', Inr 1)
         | Inl NotFound \<Rightarrow> (d, Inr 1)
         | Inl err \<Rightarrow> (d, Inl (Io err)))
      else
        (case be_blob e of
           None \<Rightarrow> (d, Inl (CorruptManifest mpath (missing_blob_msg (be_path e))))
         | Some name \<Rightarrow>
             (case blobs name of
                None \<Rightarrow> (d, Inl (Io NotFound))
              | Some bytes \<Rightarrow>
                  (case (case path_parent p of None \<Rightarrow> Inr d | Some q \<Rightarrow> create_dir_all d q) of
                     Inl err \<Rightarrow> (d, Inl (Io err))
                   | Inr d1 \<Rightarrow>
                       (case write_file d1 p bytes of
                          Inl err \<Rightarrow> (d1, Inl (Io err))
                        | Inr d2 \<Rightarrow> (d2, Inr 1))))))"

fun restore_entries ::
    "path \<Rightarrow> str \<Rightarrow> (str \<Rightarrow> str option) \<Rightarrow> backup_entry list \<Rightarrow> disk \<Rightarrow> nat
      \<Rightarrow> disk \<times> (git_error + nat)" where
  "restore_entries project_root mpath blobs [] d n = (d, Inr n)"
| "restore_entries project_root mpath blobs (e # es) d n =
     (case restore_entry project_root mpath blobs e d of
        (d', Inl err) \<Rightarrow> (d', Inl err)
      | (d', Inr k) \<Rightarrow> restore_entries project_root mpath blobs es d' (n + k))"

fun restore_turns ::
    "ck_store \<Rightarrow> str \<Rightarrow> path \<Rightarrow> u32 list \<Rightarrow> disk \<Rightarrow> nat \<Rightarrow> disk \<times> (git_error + nat)" where
  "restore_turns st root project_root [] d n = (d, Inr n)"
| "restore_turns st root project_root (t # ts) d n =
     (let tdir = turn_dirname t in
      case read_manifest st root tdir of
        Inl err \<Rightarrow> (d, Inl err)
      | Inr None \<Rightarrow> restore_turns st root project_root ts d n
      | Inr (Some m) \<Rightarrow>
          (case restore_entries project_root (manifest_path root tdir)
                  (td_blobs (get_turn_dir st root tdir)) (tm_entries m) d n of
             (d', Inl err) \<Rightarrow> (d', Inl err)
           | (d', Inr n') \<Rightarrow> restore_turns st root project_root ts d' n'))"

definition turns_to_undo :: "ck_store \<Rightarrow> str \<Rightarrow> u32 \<Rightarrow> u32 list" where
  "turns_to_undo st root target = rev (sort (filter (\<lambda>t. target < t) (list_turn_numbers st root)))"

definition restore_to ::
    "ck_store \<Rightarrow> str \<Rightarrow> u32 \<Rightarrow> str \<Rightarrow> disk \<Rightarrow> disk \<times> (git_error + nat)" where
  "restore_to st sid target project_root d =
     (let root = sanitize_session_id sid in
      if st root = None then (d, Inr 0)
      else restore_turns st root (components project_root) (turns_to_undo st root target) d 0)"

section \<open>Listing and deleting turns\<close>

fun list_turns :: "ck_store \<Rightarrow> str \<Rightarrow> u32 list \<Rightarrow> git_error + turn_info list" where
  "list_turns st root [] = Inr []"
| "list_turns st root (t # ts) =
     (case read_manifest st root (turn_dirname t) of
        Inl e \<Rightarrow> Inl e
      | Inr mo \<Rightarrow>
          (case list_turns st root ts of
             Inl e \<Rightarrow> Inl e
           | Inr rest \<Rightarrow>
               Inr ((case mo of
                       None \<Rightarrow> []
                     | Some m \<Rightarrow> [\<lparr>ti_turn = t, ti_file_count = length (tm_entries m),
                                   ti_paths = map be_path (tm_entries m)\<rparr>]) @ rest)))"

definition list_checkpoints :: "ck_store \<Rightarrow> str \<Rightarrow> git_error + turn_info list" where
  "list_checkpoints st sid =
     (let root = sanitize_session_id sid in
      if st root = None then Inr []
      else list_turns st root (sort (list_turn_numbers st root)))"

fun delete_turns :: "ck_store \<Rightarrow> str \<Rightarrow> u32 \<Rightarrow> u32 list \<Rightarrow> nat \<Rightarrow> ck_store \<times> (git_error + nat)" where
  "delete_turns st root from [] n = (st, Inr n)"
| "delete_turns st root from (t # ts) n =
     (if from \<le> t then
        (if map_of (session_turns st root) (turn_dirname t) = None then (st, Inl (Io NotFound))
         else delete_turns (st(root \<mapsto> AList.delete (turn_dirname t) (session_turns st root)))
                root from ts (n + 1))
      else delete_turns st root from ts n)"

definition delete_from :: "ck_store \<Rightarrow> str \<Rightarrow> u32 \<Rightarrow> ck_store \<times> (git_error + nat)" where
  "delete_from st sid from =
     (let root = sanitize_session_id sid in
      if st root = None then (st, Inr 0)
      else delete_turns st root from (list_turn_numbers st root) 0)"

section \<open>Diffs\<close>

fun common_prefix_len :: "str list \<Rightarrow> str list \<Rightarrow> nat" where
  "common_prefix_len (x # xs) (y # ys) = (if x = y then Suc (common_prefix_len xs ys) else 0)"
| "common_prefix_len _ _ = 0"

function common_suffix_len :: "str list \<Rightarrow> str list \<Rightarrow> nat \<Rightarrow> nat \<Rightarrow> nat" where
  "common_suffix_len p c pre suf =
     (if suf < length p - pre \<and> suf < length c - pre
         \<and> p ! (length p - 1 - suf) = c ! (length c - 1 - suf)
      then common_suffix_len p c pre (Suc suf) else suf)"
  by pat_completeness auto
termination
  by (relation "measure (\<lambda>(p, c, pre, suf). length p - pre - suf)") auto

declare common_suffix_len.simps [simp del]

definition marked_lines :: "char \<Rightarrow> str list \<Rightarrow> str" where
  "marked_lines mark ls = concat (map (\<lambda>l. mark # l @ [NL]) ls)"

text \<open>The middle of a side, between the common lines: \<open>lines[pre..len - suf]\<close>.\<close>

definition middle :: "nat \<Rightarrow> nat \<Rightarrow> str list \<Rightarrow> str list" where
  "middle pre suf ls = drop pre (take (length ls - suf) ls)"

text \<open>The text appended to the diff, the insertions and the deletions of one file.\<close>

definition unified_file_diff :: "str \<Rightarrow> str \<Rightarrow> str \<Rightarrow> str \<times> nat \<times> nat" where
  "unified_file_diff fpath prior current =
     (if valid_utf8 prior \<and> valid_utf8 current then
        let p = str_lines prior; c = str_lines current;
            pre = common_prefix_len p c; suf = common_suffix_len p c pre 0
        in (''--- a/'' @ fpath @ [NL] @ ''+++ b/'' @ fpath @ [NL]
              @ marked_lines (CHR ''-'') (middle pre suf p)
              @ marked_lines (CHR ''+'') (middle pre suf c),
            length (middle pre suf c), length (middle pre suf p))
      else (''Binary files a/'' @ fpath @ '' and b/'' @ fpath @ '' differ'' @ [NL], 1, 0))"

definition blob_or_empty :: "(str \<Rightarrow> str option) \<Rightarrow> str option \<Rightarrow> git_error + str" where
  "blob_or_empty blobs b =
     (case b of None \<Rightarrow> Inr [] | Some n \<Rightarrow>
        (case blobs n of None \<Rightarrow> Inl (Io NotFound) | Some bytes \<Rightarrow> Inr bytes))"

fun diff_entries ::
    "disk \<Rightarrow> (str \<Rightarrow> str option) \<Rightarrow> backup_entry list \<Rightarrow> str \<times> nat \<times> nat \<times> nat
      \<Rightarrow> git_error + (str \<times> nat \<times> nat \<times> nat)" where
  "diff_entries d blobs [] acc = Inr acc"
| "diff_entries d blobs (e # es) acc =
     (case blob_or_empty blobs (be_blob e) of
        Inl err \<Rightarrow> Inl err
      | Inr prior \<Rightarrow>
          (case (case read_file d (components (be_path e)) of
                   Inr b \<Rightarrow> Inr b | Inl NotFound \<Rightarrow> Inr [] | Inl err \<Rightarrow> Inl (Io err)) of
             Inl err \<Rightarrow> Inl err
           | Inr current \<Rightarrow>
               (if prior = current then diff_entries d blobs es acc
                else case (acc, unified_file_diff (be_path e) prior current) of
                  ((txt, files, ins, dels), (out, i, k)) \<Rightarrow>
                    diff_entries d blobs es (txt @ out, files + 1, ins + i, dels + k))))"

definition diff_stat :: "nat \<Rightarrow> nat \<Rightarrow> nat \<Rightarrow> str" where
  "diff_stat files ins dels =
     to_decimal files @ '' files changed, '' @ to_decimal ins @ '' insertions(+), ''
     @ to_decimal dels @ '' deletions(-)''"

definition diff_turn :: "ck_store \<Rightarrow> disk \<Rightarrow> str \<Rightarrow> u32 \<Rightarrow> git_error + diff_output" where
  "diff_turn st d sid t =
     (let root = sanitize_session_id sid; tdir = turn_dirname t in
      case read_manifest st root tdir of
        Inl e \<Rightarrow> Inl e
      | Inr None \<Rightarrow> Inl (CheckpointNotFound sid t)
      | Inr (Some m) \<Rightarrow>
          (case diff_entries d (td_blobs (get_turn_dir st root tdir)) (tm_entries m) ([], 0, 0, 0) of
             Inl e \<Rightarrow> Inl e
           | Inr (txt, files, ins, dels) \<Rightarrow>
               Inr \<lparr>do_diff = txt, do_files_changed = files, do_insertions = ins,
                    do_deletions = dels, do_stat = diff_stat files ins dels\<rparr>))"

end
