(* ===== verification/CheckpointFacts.thy ===== *)
theory CheckpointFacts
  imports Checkpoint
begin

text \<open>
  What the checkpoint store promises: session directories that do not collide, turn names that are
  read back, first backup wins, diffs that determine both sides, deletion and listing by turn
  number. Undoing is in \<open>CheckpointUndo\<close>.
\<close>

section \<open>Names\<close>

lemma hex_digit_inj: "n < 16 \<Longrightarrow> m < 16 \<Longrightarrow> hex_digit n = hex_digit m \<Longrightarrow> n = m"
  by (simp add: hex_digit_def nth_eq_iff_index_eq)

lemma hex_digit_not_SLASH: "n < 16 \<Longrightarrow> hex_digit n \<noteq> SLASH"
  using nth_mem [of n "''0123456789ABCDEF''"] by (auto simp: hex_digit_def)

lemma of_char_div_16: "(of_char (c :: char) :: nat) div 16 < 16"
  by (rule less_mult_imp_div_less) simp

lemma sanitize_byte_prefix_free:
  assumes "sanitize_byte a @ s = sanitize_byte b @ t"
  shows "a = b \<and> s = t"
proof -
  have pct: "\<not> is_ascii_alphanumeric (CHR ''%'')" by (simp add: is_ascii_alphanumeric_def)
  with assms have "a = b \<or>
      (hex_digit (of_char a div 16) = hex_digit (of_char b div 16)
       \<and> hex_digit (of_char a mod 16) = hex_digit (of_char b mod 16))"
    by (auto simp: sanitize_byte_def split: if_splits)
  then have "a = b \<or> ((of_char a :: nat) div 16 = of_char b div 16
      \<and> (of_char a :: nat) mod 16 = of_char b mod 16)"
    using hex_digit_inj [OF of_char_div_16 [of a] of_char_div_16 [of b]]
      hex_digit_inj [of "of_char a mod 16" "of_char b mod 16"] by auto
  then have "a = b"
    by (metis div_mult_mod_eq of_char_eq_iff)
  with assms show ?thesis by simp
qed

lemma sanitize_byte_nonempty [simp]: "sanitize_byte b \<noteq> []"
  by (simp add: sanitize_byte_def)

lemma sanitize_inj: "inj sanitize_session_id"
proof (rule injI)
  show "sanitize_session_id x = sanitize_session_id y \<Longrightarrow> x = y" for x y
  proof (induction x arbitrary: y)
    case Nil
    then show ?case by (cases y) (auto simp: sanitize_session_id_def)
  next
    case (Cons a x)
    then obtain b y' where y: "y = b # y'"
      by (cases y) (auto simp: sanitize_session_id_def)
    with Cons.prems have "a = b \<and> sanitize_session_id x = sanitize_session_id y'"
      using sanitize_byte_prefix_free by (simp add: sanitize_session_id_def)
    with Cons.IH y show ?case by blast
  qed
qed

text \<open>The encoding leaves the two dot names alone, so a session id of two dots names the parent of
  the checkpoint directory.\<close>

lemma sanitize_dots: "sanitize_session_id ''..'' = ''..''"
  by (simp add: sanitize_session_id_def sanitize_byte_def)

lemma SLASH_notin_sanitize: "SLASH \<notin> set (sanitize_session_id sid)"
proof -
  have "SLASH \<notin> set (sanitize_byte b)" for b
    using hex_digit_not_SLASH [OF of_char_div_16 [of b]]
      hex_digit_not_SLASH [of "of_char b mod 16"]
    by (auto simp: sanitize_byte_def is_ascii_alphanumeric_def)
  then show ?thesis by (auto simp: sanitize_session_id_def)
qed

text \<open>Two sessions never share a checkpoint directory, and the directory name of a session holds
  no path separator, whatever bytes its id is made of.\<close>

theorem sanitize_session_id_separates:
  "inj sanitize_session_id \<and> SLASH \<notin> set (sanitize_session_id sid)"
  using sanitize_inj SLASH_notin_sanitize by blast

lemma parse_turn_dirname [simp]: "parse_turn_from_dirname (turn_dirname t) = Some t"
  unfolding parse_turn_from_dirname_def turn_dirname_def
  by (simp only: strip_prefix_append Option.bind.simps parse_u32_padded)

lemma turn_dirname_inj [simp]: "turn_dirname s = turn_dirname t \<longleftrightarrow> s = t"
  by (metis option.inject parse_turn_dirname)

text \<open>Every turn number is read back from the directory name written for it, so distinct turns
  have distinct directories.\<close>

theorem turn_dirname_roundtrip:
  "parse_turn_from_dirname (turn_dirname t) = Some t \<and> inj turn_dirname"
  by (simp add: inj_def)

section \<open>The store\<close>

lemma session_turns_write [simp]:
  "session_turns (write_turn_dir st root tdir td) root' =
     (if root' = root then AList.update tdir td (session_turns st root) else session_turns st root')"
  by (simp add: session_turns_def write_turn_dir_def)

lemma get_turn_dir_write:
  "get_turn_dir (write_turn_dir st root tdir td) root' tdir' =
     (if root' = root \<and> tdir' = tdir then td else get_turn_dir st root' tdir')"
  by (simp add: get_turn_dir_def update_conv')

lemma read_manifest_write:
  "read_manifest (write_turn_dir st root tdir \<lparr>td_manifest = Manifest m, td_blobs = bl\<rparr>) root tdir
     = Inr (Some m)"
  by (simp add: read_manifest_def get_turn_dir_write)

text \<open>The entries a turn has recorded.\<close>

definition turn_entries :: "ck_store \<Rightarrow> str \<Rightarrow> u32 \<Rightarrow> backup_entry list" where
  "turn_entries st sid t =
     (case read_manifest st (sanitize_session_id sid) (turn_dirname t) of
        Inr (Some m) \<Rightarrow> tm_entries m
      | _ \<Rightarrow> [])"

definition turn_blobs :: "ck_store \<Rightarrow> str \<Rightarrow> u32 \<Rightarrow> str \<Rightarrow> str option" where
  "turn_blobs st sid t = td_blobs (get_turn_dir st (sanitize_session_id sid) (turn_dirname t))"

text \<open>What a successful backup did.\<close>

lemma backup_file_cases:
  assumes "backup_file st d sid t p = Inr st'"
  obtains (old) e where "st' = st" and "e \<in> set (turn_entries st sid t)" and "be_path e = p"
  | (new) m prior where "is_absolute p"
      and "read_manifest st (sanitize_session_id sid) (turn_dirname t) \<in> {Inr None, Inr (Some m)}"
      and "tm_entries m = turn_entries st sid t"
      and "\<forall>e \<in> set (turn_entries st sid t). be_path e \<noteq> p"
      and "capture d (components p) = Inr prior"
      and "st' = write_turn_dir st (sanitize_session_id sid) (turn_dirname t)
             \<lparr>td_manifest = Manifest (m\<lparr>tm_entries := turn_entries st sid t @
                 [\<lparr>be_path = p, be_existed_before = prior \<noteq> None,
                   be_blob = map_option (\<lambda>_. blob_filename (length (turn_entries st sid t))) prior\<rparr>]\<rparr>),
              td_blobs = (case prior of None \<Rightarrow> turn_blobs st sid t
                | Some b \<Rightarrow> (turn_blobs st sid t)(blob_filename (length (turn_entries st sid t)) \<mapsto> b))\<rparr>"
proof -
  from assms have abs: "is_absolute p" by (simp add: backup_file_def split: if_splits)
  obtain mo where mo: "read_manifest st (sanitize_session_id sid) (turn_dirname t) = Inr mo"
    using assms abs by (auto simp: backup_file_def Let_def split: sum.splits)
  define m where "m = (case mo of None \<Rightarrow> initial_manifest sid t | Some m \<Rightarrow> m)"
  have ents: "tm_entries m = turn_entries st sid t"
    using mo by (auto simp: m_def turn_entries_def initial_manifest_def split: option.splits)
  have rd: "read_manifest st (sanitize_session_id sid) (turn_dirname t) \<in> {Inr None, Inr (Some m)}"
    using mo by (auto simp: m_def split: option.splits)
  have eq: "backup_file st d sid t p =
     (if \<exists>e \<in> set (tm_entries m). be_path e = p then Inr st
      else case capture d (components p) of Inl e \<Rightarrow> Inl e
      | Inr prior \<Rightarrow>
          Inr (write_turn_dir st (sanitize_session_id sid) (turn_dirname t)
             \<lparr>td_manifest = Manifest (m\<lparr>tm_entries := tm_entries m @
                 [\<lparr>be_path = p, be_existed_before = prior \<noteq> None,
                   be_blob = (case prior of None \<Rightarrow> None
                      | Some _ \<Rightarrow> Some (blob_filename (length (tm_entries m))))\<rparr>]\<rparr>),
              td_blobs = (case prior of None \<Rightarrow> td_blobs (get_turn_dir st (sanitize_session_id sid) (turn_dirname t))
                | Some b \<Rightarrow> (td_blobs (get_turn_dir st (sanitize_session_id sid) (turn_dirname t)))
                    (blob_filename (length (tm_entries m)) \<mapsto> b))\<rparr>))"
    using abs mo
    by (cases "capture d (components p)") (simp_all add: backup_file_def m_def [symmetric] Let_def)
  show ?thesis
  proof (cases "\<exists>e \<in> set (tm_entries m). be_path e = p")
    case True
    with assms eq ents old show ?thesis by auto
  next
    case False
    with assms eq obtain prior where pr: "capture d (components p) = Inr prior"
      by (auto split: sum.splits)
    show ?thesis
    proof (rule new [OF abs rd ents _ pr])
      show "\<forall>e \<in> set (turn_entries st sid t). be_path e \<noteq> p" using False ents by simp
      show "st' = write_turn_dir st (sanitize_session_id sid) (turn_dirname t)
             \<lparr>td_manifest = Manifest (m\<lparr>tm_entries := turn_entries st sid t @
                 [\<lparr>be_path = p, be_existed_before = prior \<noteq> None,
                   be_blob = map_option (\<lambda>_. blob_filename (length (turn_entries st sid t))) prior\<rparr>]\<rparr>),
              td_blobs = (case prior of None \<Rightarrow> turn_blobs st sid t
                | Some b \<Rightarrow> (turn_blobs st sid t)(blob_filename (length (turn_entries st sid t)) \<mapsto> b))\<rparr>"
        using assms eq False pr ents by (cases prior) (simp_all add: turn_blobs_def)
    qed
  qed
qed

section \<open>First backup wins\<close>

lemma turn_entries_write:
  "turn_entries (write_turn_dir st (sanitize_session_id sid) (turn_dirname t)
       \<lparr>td_manifest = Manifest m, td_blobs = bl\<rparr>) sid' t' =
     (if sid' = sid \<and> t' = t then tm_entries m else turn_entries st sid' t')"
  using injD [OF sanitize_inj, of sid' sid]
  by (auto simp: turn_entries_def read_manifest_def get_turn_dir_write)

lemma turn_blobs_write:
  "turn_blobs (write_turn_dir st (sanitize_session_id sid) (turn_dirname t)
       \<lparr>td_manifest = mf, td_blobs = bl\<rparr>) sid' t' =
     (if sid' = sid \<and> t' = t then bl else turn_blobs st sid' t')"
  using injD [OF sanitize_inj, of sid' sid]
  by (auto simp: turn_blobs_def get_turn_dir_write)

text \<open>The first backup of a path in a turn wins: once a path has been backed up in a turn, backing
  it up again, whatever is on the disk by then, changes nothing in the store.\<close>

theorem backup_file_first_wins:
  assumes "backup_file st d sid t p = Inr st'"
  shows "backup_file st' d' sid t p = Inr st'"
proof -
  from assms have abs: "is_absolute p" by (simp add: backup_file_def split: if_splits)
  have again: "backup_file st1 d' sid t p = Inr st1"
    if rd: "read_manifest st1 (sanitize_session_id sid) (turn_dirname t) = Inr (Some m1)"
      and has: "\<exists>e \<in> set (tm_entries m1). be_path e = p" for st1 m1
    using abs rd has by (simp add: backup_file_def Let_def)
  from assms show ?thesis
  proof (cases rule: backup_file_cases)
    case (old e)
    obtain m1 where "read_manifest st (sanitize_session_id sid) (turn_dirname t) = Inr (Some m1)"
      and "tm_entries m1 = turn_entries st sid t"
    proof (cases "read_manifest st (sanitize_session_id sid) (turn_dirname t)")
      case (Inr mo)
      with old(2) that show ?thesis by (cases mo) (simp_all add: turn_entries_def)
    qed (use old(2) in \<open>simp add: turn_entries_def\<close>)
    with again old show ?thesis by metis
  next
    case (new m prior)
    show ?thesis
      unfolding new(6) by (rule again [OF read_manifest_write]) simp
  qed
qed

theorem backup_file_first_wins_witness:
  "\<exists>st'. backup_file (\<lambda>_. None) [[] \<mapsto> NDir, [''a''] \<mapsto> NFile ''v0''] ''s'' 1 ''/a'' = Inr st' \<and>
     backup_file st' [[] \<mapsto> NDir, [''a''] \<mapsto> NFile ''v1''] ''s'' 1 ''/a'' = Inr st'"
proof -
  have "\<exists>st'. backup_file (\<lambda>_. None) [[] \<mapsto> NDir, [''a''] \<mapsto> NFile ''v0''] ''s'' 1 ''/a'' = Inr st'"
    by (simp add: backup_file_def is_absolute_def starts_with_def Let_def read_manifest_def
        get_turn_dir_def session_turns_def empty_turn_dir_def initial_manifest_def capture_def
        components_def component_of_def stat_def need_dir_def follow_def read_file_def)
  then show ?thesis using backup_file_first_wins by blast
qed

section \<open>Well-formed turns\<close>

definition entry_value :: "(str \<Rightarrow> str option) \<Rightarrow> backup_entry \<Rightarrow> str option" where
  "entry_value blobs e = (if be_existed_before e then Option.bind (be_blob e) blobs else None)"

definition turn_ok :: "ck_store \<Rightarrow> str \<Rightarrow> u32 \<Rightarrow> bool" where
  "turn_ok st sid t \<longleftrightarrow>
     (let es = turn_entries st sid t in
      distinct (map be_path es) \<and>
      (\<forall>i < length es.
         if be_existed_before (es ! i)
         then be_blob (es ! i) = Some (blob_filename i) \<and> turn_blobs st sid t (blob_filename i) \<noteq> None
         else be_blob (es ! i) = None))"

lemma blob_filename_inj: "blob_filename i = blob_filename j \<Longrightarrow> i = j"
proof -
  assume "blob_filename i = blob_filename j"
  then have "to_decimal_padded 4 i = to_decimal_padded 4 j" by (simp add: blob_filename_def)
  moreover have "digits_val 0 (to_decimal_padded 4 k) = Some k" for k
    by (simp add: to_decimal_padded_def Let_def digits_val_zeros digits_val_to_decimal)
  ultimately show "i = j" by (metis option.inject)
qed

lemma turn_ok_blob:
  assumes "turn_ok st sid t" and "e \<in> set (turn_entries st sid t)"
  shows "be_existed_before e \<Longrightarrow> \<exists>i < length (turn_entries st sid t).
      be_blob e = Some (blob_filename i) \<and> turn_blobs st sid t (blob_filename i) \<noteq> None"
    and "\<not> be_existed_before e \<Longrightarrow> be_blob e = None"
proof -
  from assms(2) obtain i where i: "i < length (turn_entries st sid t)" "e = turn_entries st sid t ! i"
    by (auto simp: in_set_conv_nth)
  note facts = assms(1) [unfolded turn_ok_def Let_def, THEN conjunct2, rule_format, OF i(1)]
  show "be_existed_before e \<Longrightarrow> \<exists>i < length (turn_entries st sid t).
      be_blob e = Some (blob_filename i) \<and> turn_blobs st sid t (blob_filename i) \<noteq> None"
    using facts i by (intro exI [of _ i]) simp
  show "\<not> be_existed_before e \<Longrightarrow> be_blob e = None" using facts i by simp
qed

text \<open>What a new backup adds: one entry at the end of its turn, holding the prior contents. The
  values of the other entries stay.\<close>

lemma backup_new_entry:
  assumes "backup_file st d sid t p = Inr st'" and "turn_ok st sid t"
    and "\<forall>e \<in> set (turn_entries st sid t). be_path e \<noteq> p"
  obtains e prior where "capture d (components p) = Inr prior" and "is_absolute p"
    and "turn_entries st' sid t = turn_entries st sid t @ [e]" and "be_path e = p"
    and "entry_value (turn_blobs st' sid t) e = prior"
    and "\<forall>x \<in> set (turn_entries st sid t).
           entry_value (turn_blobs st' sid t) x = entry_value (turn_blobs st sid t) x"
    and "\<forall>sid' t'. (sid', t') \<noteq> (sid, t) \<longrightarrow>
           turn_entries st' sid' t' = turn_entries st sid' t' \<and> turn_blobs st' sid' t' = turn_blobs st sid' t'"
    and "turn_ok st' sid t"
    and "session_turns st' (sanitize_session_id sid) =
           AList.update (turn_dirname t) (get_turn_dir st' (sanitize_session_id sid) (turn_dirname t))
             (session_turns st (sanitize_session_id sid))"
  using assms(1)
proof (cases rule: backup_file_cases)
  case (old e)
  with assms(3) show ?thesis by blast
next
  case (new m prior)
  let ?es = "turn_entries st sid t"
  let ?n = "blob_filename (length ?es)"
  let ?e = "\<lparr>be_path = p, be_existed_before = prior \<noteq> None, be_blob = map_option (\<lambda>_. ?n) prior\<rparr>"
  let ?bl = "case prior of None \<Rightarrow> turn_blobs st sid t | Some b \<Rightarrow> (turn_blobs st sid t)(?n \<mapsto> b)"
  have es': "turn_entries st' sid t = ?es @ [?e]"
    unfolding new(6) by (simp add: turn_entries_write)
  have bl': "turn_blobs st' sid t = ?bl"
    unfolding new(6) by (simp add: turn_blobs_write)
  have fresh: "i < length ?es \<Longrightarrow> blob_filename i \<noteq> ?n" for i
    using blob_filename_inj by blast
  have keep: "i < length ?es \<Longrightarrow> ?bl (blob_filename i) = turn_blobs st sid t (blob_filename i)" for i
    using fresh by (auto split: option.splits)
  have ok': "turn_ok st' sid t"
    using assms(2) new(4) keep
    by (auto simp: turn_ok_def Let_def es' bl' nth_append less_Suc_eq split: option.splits)
  show ?thesis
  proof (rule that [OF new(5,1) es'])
    show "entry_value (turn_blobs st' sid t) ?e = prior"
      by (cases prior) (simp_all add: entry_value_def bl')
    show "\<forall>x \<in> set ?es. entry_value (turn_blobs st' sid t) x = entry_value (turn_blobs st sid t) x"
    proof
      fix x
      assume "x \<in> set ?es"
      with turn_ok_blob(1) [OF assms(2)] keep
      show "entry_value (turn_blobs st' sid t) x = entry_value (turn_blobs st sid t) x"
        unfolding entry_value_def bl' by fastforce
    qed
    show "\<forall>sid' t'. (sid', t') \<noteq> (sid, t) \<longrightarrow>
           turn_entries st' sid' t' = turn_entries st sid' t' \<and> turn_blobs st' sid' t' = turn_blobs st sid' t'"
      unfolding new(6) by (auto simp: turn_entries_write turn_blobs_write)
    show "session_turns st' (sanitize_session_id sid) =
           AList.update (turn_dirname t) (get_turn_dir st' (sanitize_session_id sid) (turn_dirname t))
             (session_turns st (sanitize_session_id sid))"
      unfolding new(6) by (simp add: get_turn_dir_write)
  qed (simp_all add: ok')
qed

lemma turn_ok_other:
  assumes "turn_entries st' sid' t' = turn_entries st sid' t'" "turn_blobs st' sid' t' = turn_blobs st sid' t'"
  shows "turn_ok st' sid' t' = turn_ok st sid' t'"
  using assms by (simp add: turn_ok_def)

text \<open>A backup keeps every turn of every session well-formed: no path twice, and every entry of a
  file that existed has its contents stored under a blob name of its own.\<close>

theorem backup_file_keeps_turns_ok:
  assumes "backup_file st d sid t p = Inr st'" and "\<forall>s u. turn_ok st s u"
  shows "turn_ok st' sid' t'"
  using assms(1)
proof (cases rule: backup_file_cases)
  case (old e)
  with assms(2) show ?thesis by simp
next
  case (new m prior)
  from assms(1) assms(2) [rule_format, of sid t] new(4) show ?thesis
  proof (rule backup_new_entry)
    assume other: "\<forall>sid' t'. (sid', t') \<noteq> (sid, t) \<longrightarrow>
           turn_entries st' sid' t' = turn_entries st sid' t' \<and> turn_blobs st' sid' t' = turn_blobs st sid' t'"
      and ok: "turn_ok st' sid t"
    show ?thesis
      using other ok assms(2) turn_ok_other [of st' sid' t' st]
      by (cases "(sid', t') = (sid, t)") simp_all
  qed
qed

lemma turn_ok_empty: "turn_ok (\<lambda>_. None) sid t"
  by (simp add: turn_ok_def turn_entries_def read_manifest_def get_turn_dir_def session_turns_def
      empty_turn_dir_def)

theorem backup_file_keeps_turns_ok_witness:
  "\<exists>st'. backup_file (\<lambda>_. None) [[] \<mapsto> NDir, [''a''] \<mapsto> NFile ''v0''] ''s'' 1 ''/a'' = Inr st' \<and>
     turn_ok st' ''s'' 1"
proof -
  have "\<exists>st'. backup_file (\<lambda>_. None) [[] \<mapsto> NDir, [''a''] \<mapsto> NFile ''v0''] ''s'' 1 ''/a'' = Inr st'"
    by (simp add: backup_file_def is_absolute_def starts_with_def Let_def read_manifest_def
        get_turn_dir_def session_turns_def empty_turn_dir_def initial_manifest_def capture_def
        components_def component_of_def stat_def need_dir_def follow_def read_file_def)
  then show ?thesis using backup_file_keeps_turns_ok turn_ok_empty by blast
qed

end
