(* ===== verification/CheckpointUndo.thy ===== *)
theory CheckpointUndo
  imports CheckpointFacts "HOL-Library.Multiset"
begin

text \<open>
  Undoing: restoring to a turn gives back every file as it was at the end of that turn, whatever the
  tools did to the backed-up files since; and a restore never touches a file outside the project,
  whatever the manifests say. The disk satisfies the contract \<open>undo_store\<close> for the entries of a
  manifest, which is the interpretation the first theorem rests on.
\<close>

section \<open>Undoing one entry\<close>

type_synonym undo_entry = "str \<times> (str \<Rightarrow> str option) \<times> backup_entry"

definition loc_of :: "path \<Rightarrow> location" where
  "loc_of p = List.map_filter (\<lambda>c. case c of Normal n \<Rightarrow> Some n | _ \<Rightarrow> None) p"

definition entry_loc :: "backup_entry \<Rightarrow> location" where
  "entry_loc e = loc_of (components (be_path e))"

definition undo_entry :: "path \<Rightarrow> undo_entry \<Rightarrow> disk \<Rightarrow> disk option" where
  "undo_entry project_root x d =
     (case x of (mpath, blobs, e) \<Rightarrow>
        (case restore_entry project_root mpath blobs e d of
           (d', Inr _) \<Rightarrow> Some d'
         | (_, Inl _) \<Rightarrow> None))"

definition undo_key :: "undo_entry \<Rightarrow> location" where
  "undo_key x = entry_loc (snd (snd x))"

definition undo_val :: "undo_entry \<Rightarrow> str option" where
  "undo_val x = entry_value (fst (snd x)) (snd (snd x))"

text \<open>An entry is sound: its path is plain and in the project, and it has its blob.\<close>

definition undo_good :: "path \<Rightarrow> undo_entry \<Rightarrow> bool" where
  "undo_good project_root x =
     (case x of (mpath, blobs, e) \<Rightarrow>
        components (be_path e) = abs_path (entry_loc e) \<and> entry_loc e \<noteq> []
        \<and> path_starts_with (abs_path (entry_loc e)) project_root
        \<and> (be_existed_before e \<longrightarrow> Option.bind (be_blob e) blobs \<noteq> None))"

definition prefix_free :: "location set \<Rightarrow> bool" where
  "prefix_free K \<longleftrightarrow> (\<forall>l \<in> K. \<forall>b. l @ b \<in> K \<longrightarrow> b = [])"

text \<open>The disk has room for files at all of \<open>K\<close>: no directory is there, no file is on the way.\<close>

definition room_for :: "location set \<Rightarrow> disk \<Rightarrow> bool" where
  "room_for K d \<longleftrightarrow>
     plain_disk d \<and> prefix_free K \<and> (\<forall>l \<in> K. d l \<noteq> Some NDir \<and> clear_way d l)"

lemma loc_of_abs [simp]: "loc_of (abs_path l) = l"
  by (induction l) (auto simp: loc_of_def abs_path_def map_filter_simps)

lemma normalize_names: "normalize acc (map Normal l) = Some (acc @ map Normal l)"
  by (induction l arbitrary: acc) auto

lemma is_within_root_abs: "is_within_root root (abs_path l) = path_starts_with (abs_path l) root"
  by (simp add: is_within_root_def abs_path_def normalize_names)

lemma remove_file_missing:
  assumes "plain_disk d" and "clear_way d l" and "d l = None"
  shows "remove_file d (abs_path l) = Inl NotFound"
proof (cases l rule: rev_cases)
  case Nil
  with assms show ?thesis by simp
next
  case (snoc k n)
  have cw: "clear_way d k"
    using assms(2) snoc unfolding clear_way_def by (metis append_assoc append_is_Nil_conv)
  have eo: "entry_of d (abs_path l) =
      (case resolve d [] (abs_path k) of
         Inl e \<Rightarrow> Inl e
       | Inr l \<Rightarrow> (case need_dir d l of Some e \<Rightarrow> Inl e | None \<Rightarrow> Inr (l @ [n])))"
    using snoc by (simp add: entry_of_def abs_path_def butlast_append)
  show ?thesis
  proof (cases rule: resolve_abs [OF assms(1), of k])
    case 1
    have "need_dir d k \<noteq> Some OtherIo"
      using clear_way_node [OF assms(1), of k "[n]"] assms(2) snoc
      by (cases "d k") (auto simp: need_dir_def)
    then have "need_dir d k = None \<or> need_dir d k = Some NotFound"
      by (metis ioerr.exhaust option.exhaust)
    with 1 eo assms(3) snoc show ?thesis by (auto simp: remove_file_def)
  next
    case (2 e)
    with cw have "e = NotFound"
      using resolve_names_clear [OF assms(1), of "[]" k e] by (simp add: resolve_RootDir)
    with 2 eo show ?thesis by (simp add: remove_file_def)
  qed
qed

text \<open>Making the directories of \<open>l\<close> adds directories on the way to \<open>l\<close> only.\<close>

lemma create_dir_all_on_way:
  "plain_disk d \<Longrightarrow> create_dir_all d (abs_path ns) = Inr d' \<Longrightarrow> d' m \<noteq> d m \<Longrightarrow> \<exists>b. ns = m @ b"
proof (induction ns arbitrary: d' m rule: rev_induct)
  case Nil
  from Nil(2) have "d' = d"
    by (subst (asm) create_dir_all.simps) (simp add: abs_path_def mkdir_root split: if_splits)
  with Nil show ?case by simp
next
  case (snoc n ns)
  have mk: "plain_disk e \<Longrightarrow> mkdir e (abs_path (ns @ [n])) = Inr e' \<Longrightarrow> m \<noteq> ns @ [n] \<Longrightarrow> e' m = e m"
    for e e' using mkdir_plain by simp
  have up: "butlast (abs_path (ns @ [n])) = abs_path ns" by (simp add: abs_path_snoc)
  have plain1: "create_dir_all d (abs_path ns) = Inr d1 \<Longrightarrow> plain_disk d1" for d1
    using create_dir_all_any [OF snoc.prems(1)] by blast
  show ?case
  proof (cases "m = ns @ [n]")
    case False
    from snoc.prems(2) show ?thesis
    proof (cases rule: create_dir_all_cases)
      case (4 d1)
      with up plain1 mk False snoc.prems(3) have "d1 m \<noteq> d m" by metis
      with 4 up snoc.IH [OF snoc.prems(1), of d1 m] show ?thesis by auto
    next
      case 5
      with up snoc.IH [OF snoc.prems(1), of d' m] snoc.prems(3) show ?thesis by auto
    qed (use snoc.prems mk False in auto)
  qed auto
qed

lemma room_for_keep:
  assumes "room_for K d" and "l \<in> K" and "plain_disk d'"
    and "\<And>m. d' m = Some NDir \<Longrightarrow> d m = Some NDir \<or> (\<exists>b. b \<noteq> [] \<and> l = m @ b)"
    and "\<And>m. m \<noteq> l \<Longrightarrow> file_at d' m = None \<or> file_at d' m = file_at d m"
  shows "room_for K d'"
  unfolding room_for_def
proof (intro conjI ballI)
  from assms(1) have K: "prefix_free K" "\<And>m. m \<in> K \<Longrightarrow> d m \<noteq> Some NDir" "\<And>m. m \<in> K \<Longrightarrow> clear_way d m"
    by (simp_all add: room_for_def)
  show "plain_disk d'" "prefix_free K" using assms(3) K(1) by simp_all
  fix m
  assume m: "m \<in> K"
  have no_ext: "l = m @ b \<Longrightarrow> b = []" for b
    using K(1) m assms(2) unfolding prefix_free_def by blast
  show "d' m \<noteq> Some NDir" using assms(4) [of m] K(2) [OF m] no_ext by blast
  show "clear_way d' m"
    unfolding clear_way_def
  proof (intro allI impI)
    fix a b
    assume ab: "m = a @ b \<and> b \<noteq> []"
    with K(1) m assms(2) have "a \<noteq> l" unfolding prefix_free_def by blast
    with assms(5) [of a] clear_wayD [of d a b] K(3) [OF m] ab show "file_at d' a = None" by auto
  qed
qed

lemma undo_entry_step:
  assumes "room_for K d" and "undo_good root x" and "undo_key x \<in> K"
  shows "\<exists>d'. undo_entry root x d = Some d' \<and> room_for K d'
           \<and> file_at d' = (file_at d)(undo_key x := undo_val x)"
proof -
  obtain mpath blobs e where x: "x = (mpath, blobs, e)" by (cases x) auto
  define l where "l = entry_loc e"
  have p: "components (be_path e) = abs_path l" and ne: "l \<noteq> []"
    and within: "is_within_root root (abs_path l)"
    and blob: "be_existed_before e \<Longrightarrow> Option.bind (be_blob e) blobs \<noteq> None"
    using assms(2) by (auto simp: undo_good_def x l_def is_within_root_abs)
  have lK: "l \<in> K" using assms(3) by (simp add: undo_key_def x l_def)
  from assms(1) lK have pl: "plain_disk d" and nd: "d l \<noteq> Some NDir" and cw: "clear_way d l"
    by (auto simp: room_for_def)
  have key: "undo_key x = l" by (simp add: undo_key_def x l_def)
  show ?thesis
  proof (cases "be_existed_before e")
    case False
    then have val: "undo_val x = None" by (simp add: undo_val_def x entry_value_def)
    show ?thesis
    proof (cases "d l")
      case None
      then have "undo_entry root x d = Some d"
        using False within remove_file_missing [OF pl cw None]
        by (simp add: undo_entry_def x restore_entry_def p)
      moreover have "file_at d = (file_at d)(l := None)"
        using None by (auto simp: file_at_def)
      ultimately show ?thesis using assms(1) key val by simp
    next
      case (Some n)
      with nd pl have fl: "file_at d l \<noteq> None" by (cases n) (auto simp: file_at_def)
      then have rm: "remove_file d (abs_path l) = Inr (d(l := None))"
        using remove_file_plain [OF pl] by simp
      then have "undo_entry root x d = Some (d(l := None))"
        using False within by (simp add: undo_entry_def x restore_entry_def p)
      moreover have "room_for K (d(l := None))"
        by (rule room_for_keep [OF assms(1) lK plain_del [OF pl fl]]) (auto split: if_splits)
      ultimately show ?thesis using key val by simp
    qed
  next
    case True
    with blob obtain name bytes where nb: "be_blob e = Some name" "blobs name = Some bytes"
      by (auto simp: bind_eq_Some_conv)
    then have val: "undo_val x = Some bytes" using True by (simp add: undo_val_def x entry_value_def)
    have split: "l = butlast l @ [last l]" using ne by simp
    with cw pl obtain d1 where d1: "create_dir_all d (abs_path (butlast l)) = Inr d1"
      using create_dir_all_ok by metis
    note d1_props = create_dir_all_plain [OF pl d1]
    have on_way: "d1 m \<noteq> d m \<Longrightarrow> \<exists>b. b \<noteq> [] \<and> l = m @ b" for m
      using create_dir_all_on_way [OF pl d1, of m] split by (metis append_assoc snoc_eq_iff_butlast)
    have nd1: "d1 l \<noteq> Some NDir" using on_way [of l] nd by auto
    have wr: "write_file d1 (abs_path l) bytes = Inr (d1(l \<mapsto> NFile bytes))"
      using write_file_plain [of d1 l bytes] d1_props nd1 ne by (simp add: in_dir_def)
    have "path_parent (abs_path l) = Some (abs_path (butlast l))" using ne by (simp add: path_parent_abs)
    then have "undo_entry root x d = Some (d1(l \<mapsto> NFile bytes))"
      using True within nb d1 wr by (simp add: undo_entry_def x restore_entry_def p)
    moreover have "file_at d1 = file_at d" using d1_props only_dirs_added_file_at by blast
    moreover have "room_for K (d1(l \<mapsto> NFile bytes))"
    proof (rule room_for_keep [OF assms(1) lK])
      show "plain_disk (d1(l \<mapsto> NFile bytes))" using plain_write [OF _ wr] d1_props by blast
      show "(d1(l \<mapsto> NFile bytes)) m = Some NDir \<Longrightarrow> d m = Some NDir \<or> (\<exists>b. b \<noteq> [] \<and> l = m @ b)" for m
        using on_way [of m] by (cases "d1 m = d m") (auto split: if_splits)
      show "m \<noteq> l \<Longrightarrow> file_at (d1(l \<mapsto> NFile bytes)) m = None \<or>
          file_at (d1(l \<mapsto> NFile bytes)) m = file_at d m" for m
        using \<open>file_at d1 = file_at d\<close> by simp
    qed
    ultimately show ?thesis using key val by simp
  qed
qed

interpretation project_undo: undo_store file_at room_for "undo_entry root" undo_key undo_val "undo_good root"
  for root
  by unfold_locales (rule undo_entry_step)

section \<open>Restoring is undoing the log\<close>

lemma undo_entry_eq:
  "undo_entry root (mpath, blobs, e) d =
     (case restore_entry root mpath blobs e d of (d', Inr _) \<Rightarrow> Some d' | (_, Inl _) \<Rightarrow> None)"
  by (simp add: undo_entry_def)

lemma restore_entries_undo:
  "undo_list (undo_entry root) (map (\<lambda>e. (mpath, blobs, e)) es) d = Some d' \<Longrightarrow>
   \<exists>k. restore_entries root mpath blobs es d n = (d', Inr k)"
proof (induction es arbitrary: d n)
  case (Cons e es)
  obtain d1 r where r: "restore_entry root mpath blobs e d = (d1, r)" by fastforce
  with Cons.prems obtain k where "r = Inr k"
    by (cases r) (simp_all add: undo_entry_eq)
  with r Cons.prems have "undo_list (undo_entry root) (map (\<lambda>e. (mpath, blobs, e)) es) d1 = Some d'"
    by (simp add: undo_entry_eq)
  from Cons.IH [OF this] r \<open>r = Inr k\<close> show ?case by simp
qed simp

definition turn_log :: "ck_store \<Rightarrow> str \<Rightarrow> u32 \<Rightarrow> undo_entry list" where
  "turn_log st sid t =
     map (\<lambda>e. (manifest_path (sanitize_session_id sid) (turn_dirname t), turn_blobs st sid t, e))
       (turn_entries st sid t)"

definition not_corrupt :: "ck_store \<Rightarrow> str \<Rightarrow> u32 \<Rightarrow> bool" where
  "not_corrupt st sid t \<longleftrightarrow>
     (\<exists>mo. read_manifest st (sanitize_session_id sid) (turn_dirname t) = Inr mo)"

lemma undo_list_append:
  "undo_list undo (xs @ ys) s = Option.bind (undo_list undo xs s) (undo_list undo ys)"
  by (induction xs arbitrary: s) (auto split: option.splits)

lemma restore_turns_undo:
  "undo_list (undo_entry root) (concat (map (turn_log st sid) ts)) d = Some d' \<Longrightarrow>
   \<forall>t \<in> set ts. not_corrupt st sid t \<Longrightarrow>
   \<exists>k. restore_turns st (sanitize_session_id sid) root ts d n = (d', Inr k)"
proof (induction ts arbitrary: d n)
  case (Cons t ts)
  from Cons.prems(1) obtain d1
    where d1: "undo_list (undo_entry root) (turn_log st sid t) d = Some d1"
      and rest: "undo_list (undo_entry root) (concat (map (turn_log st sid) ts)) d1 = Some d'"
    by (auto simp: undo_list_append bind_eq_Some_conv)
  from Cons.prems(2) obtain mo
    where mo: "read_manifest st (sanitize_session_id sid) (turn_dirname t) = Inr mo"
    by (auto simp: not_corrupt_def)
  show ?case
  proof (cases mo)
    case None
    with mo have "turn_entries st sid t = []" by (simp add: turn_entries_def)
    with d1 have "d1 = d" by (simp add: turn_log_def)
    with Cons.IH [OF rest, of n] Cons.prems(2) mo None show ?thesis by (simp add: Let_def)
  next
    case (Some m)
    with mo have "turn_entries st sid t = tm_entries m" by (simp add: turn_entries_def)
    with d1 obtain k where "restore_entries root (manifest_path (sanitize_session_id sid) (turn_dirname t))
        (td_blobs (get_turn_dir st (sanitize_session_id sid) (turn_dirname t))) (tm_entries m) d n = (d1, Inr k)"
      using restore_entries_undo unfolding turn_log_def turn_blobs_def by fastforce
    with Cons.IH [OF rest, of k] Cons.prems(2) mo Some show ?thesis by (simp add: Let_def)
  qed
qed simp

section \<open>Runs of tools over a session\<close>

text \<open>The spelling of a location without \<open>.\<close>, \<open>..\<close> or repeated separators.\<close>

definition loc_str :: "location \<Rightarrow> str" where
  "loc_str l = concat (map (\<lambda>n. SLASH # n) l)"

text \<open>
  A run of file-changing tools: each backs up its file in the current turn and then changes, creates
  or removes it (and may create directories), leaving all other files alone. Turns do not go back,
  and all are later than \<open>target\<close>.
\<close>

inductive edit_run :: "str \<Rightarrow> u32 \<Rightarrow> ck_store \<Rightarrow> disk \<Rightarrow> u32 \<Rightarrow> ck_store \<Rightarrow> disk \<Rightarrow> location set \<Rightarrow> bool"
  for sid target st0 d0 where
  start: "edit_run sid target st0 d0 target st0 d0 {}"
| dirs: "edit_run sid target st0 d0 t st d K \<Longrightarrow> plain_disk d' \<Longrightarrow> file_at d' = file_at d \<Longrightarrow>
    edit_run sid target st0 d0 t st d' K"
| edit: "edit_run sid target st0 d0 t st d K \<Longrightarrow> t \<le> t' \<Longrightarrow> target < t' \<Longrightarrow>
    l \<noteq> [] \<Longrightarrow> components (loc_str l) = abs_path l \<Longrightarrow>
    backup_file st d sid t' (loc_str l) = Inr st' \<Longrightarrow>
    plain_disk d' \<Longrightarrow> (\<forall>m. m \<noteq> l \<longrightarrow> file_at d' m = file_at d m) \<Longrightarrow>
    edit_run sid target st0 d0 t' st' d' (insert l K)"

lemma loc_str_entry: "components (loc_str l) = abs_path l \<Longrightarrow> be_path e = loc_str l \<Longrightarrow> entry_loc e = l"
  by (simp add: entry_loc_def)

lemma capture_plain:
  assumes "plain_disk d" and "capture d (abs_path l) = Inr prior"
  shows "prior = file_at d l"
proof (cases "d l")
  case None
  then have "\<nexists>x. stat d (abs_path l) = Inr x" using stat_plain [OF assms(1), of l] by auto
  then obtain e where "stat d (abs_path l) = Inl e" by (cases "stat d (abs_path l)") auto
  with assms(2) None show ?thesis
    by (cases e) (auto simp: capture_def file_at_def)
next
  case (Some n)
  then have "stat d (abs_path l) = Inr (l, n)" using stat_plain [OF assms(1), of l] by auto
  with assms Some show ?thesis
    by (cases n) (auto simp: capture_def file_at_def read_file_def)
qed

definition log_pairs :: "undo_entry list \<Rightarrow> (location \<times> str option) list" where
  "log_pairs xs = map (\<lambda>x. (undo_key x, undo_val x)) xs"

lemma log_pairs_turn_log:
  "log_pairs (turn_log st sid t) =
     map (\<lambda>e. (entry_loc e, entry_value (turn_blobs st sid t) e)) (turn_entries st sid t)"
  by (simp add: log_pairs_def turn_log_def undo_key_def undo_val_def)

lemma override_with_other:
  "(\<And>k. k \<notin> fst ` set log \<Longrightarrow> f k = g k) \<Longrightarrow> override_with f log = override_with g log"
  by (auto simp: override_with_def fun_eq_iff split: option.splits)
    (metis (no_types, opaque_lifting) image_set map_of_eq_None_iff set_rev)

lemma override_with_record:
  assumes "l \<notin> fst ` set E" and "\<forall>k. k \<noteq> l \<longrightarrow> f' k = f k"
  shows "override_with f' (E @ [(l, f l)]) = override_with f E"
proof
  fix k
  show "override_with f' (E @ [(l, f l)]) k = override_with f E k"
  proof (cases "k = l")
    case True
    with assms(1) have "map_of (rev E) l = None" by (simp add: map_of_eq_None_iff)
    with True show ?thesis by (simp add: override_with_def)
  next
    case False
    with assms(2) have "f' k = f k" by simp
    with False show ?thesis by (simp add: override_with_def split: option.split)
  qed
qed

lemma sort_snoc_max: "\<forall>x \<in> set xs. x \<le> m \<Longrightarrow> sort (xs @ [m]) = sort xs @ [m :: 'a :: linorder]"
  by (intro properties_for_sort) (auto simp: sorted_append)

lemma list_turn_numbers_names:
  "list_turn_numbers st root = List.map_filter parse_turn_from_dirname (map fst (session_turns st root))"
  by (simp add: list_turn_numbers_def List.map_filter_def filter_map comp_def split_def)

section \<open>The invariant of a run\<close>

definition recorded :: "ck_store \<Rightarrow> str \<Rightarrow> u32 \<Rightarrow> bool" where
  "recorded st sid t \<longleftrightarrow>
     turn_dirname t \<in> fst ` set (session_turns st (sanitize_session_id sid))"

definition canonical_turn :: "ck_store \<Rightarrow> str \<Rightarrow> u32 \<Rightarrow> bool" where
  "canonical_turn st sid t \<longleftrightarrow>
     (\<forall>e \<in> set (turn_entries st sid t).
        be_path e = loc_str (entry_loc e) \<and> components (loc_str (entry_loc e)) = abs_path (entry_loc e)
        \<and> entry_loc e \<noteq> [])"

definition pending_log :: "ck_store \<Rightarrow> str \<Rightarrow> u32 list \<Rightarrow> (location \<times> str option) list" where
  "pending_log st sid ts = concat (map (\<lambda>t. log_pairs (turn_log st sid t)) ts)"

definition run_inv ::
    "str \<Rightarrow> u32 \<Rightarrow> disk \<Rightarrow> u32 \<Rightarrow> ck_store \<Rightarrow> disk \<Rightarrow> location set \<Rightarrow> bool" where
  "run_inv sid target d0 t st d K \<longleftrightarrow>
     (let ts = turns_to_undo st (sanitize_session_id sid) target in
      plain_disk d
      \<and> distinct ts \<and> sorted (rev ts)
      \<and> (\<forall>u \<in> set ts. target < u \<and> u \<le> t \<and> recorded st sid u \<and> not_corrupt st sid u)
      \<and> (\<forall>u. target < u \<and> u \<notin> set ts \<longrightarrow> \<not> recorded st sid u)
      \<and> (\<forall>u. target < u \<longrightarrow> turn_ok st sid u \<and> canonical_turn st sid u)
      \<and> (\<forall>u. target < u \<longrightarrow> entry_loc ` set (turn_entries st sid u) \<subseteq> K)
      \<and> override_with (file_at d) (pending_log st sid ts) = file_at d0)"

lemma not_recorded_empty:
  assumes "\<not> recorded st sid u"
  shows "turn_entries st sid u = []"
proof -
  have "map_of (session_turns st (sanitize_session_id sid)) (turn_dirname u) = None"
    using assms by (simp add: recorded_def map_of_eq_None_iff)
  then show ?thesis
    by (simp add: turn_entries_def read_manifest_def get_turn_dir_def empty_turn_dir_def)
qed

text \<open>Before the run no turn after \<open>target\<close> has been recorded.\<close>

definition fresh_after :: "ck_store \<Rightarrow> str \<Rightarrow> u32 \<Rightarrow> bool" where
  "fresh_after st sid target \<longleftrightarrow>
     (\<forall>u \<in> set (list_turn_numbers st (sanitize_session_id sid)). u \<le> target)"

lemma recorded_listed:
  "recorded st sid u \<Longrightarrow> u \<in> set (list_turn_numbers st (sanitize_session_id sid))"
  by (force simp: recorded_def list_turn_numbers_names List.map_filter_def)

lemma run_inv_start:
  assumes "plain_disk d0" and "fresh_after st0 sid target"
  shows "run_inv sid target d0 target st0 d0 {}"
proof -
  have "filter (\<lambda>t. target < t) (list_turn_numbers st0 (sanitize_session_id sid)) = []"
    using assms(2) by (auto simp: fresh_after_def filter_empty_conv)
  then have ts: "turns_to_undo st0 (sanitize_session_id sid) target = []"
    by (simp add: turns_to_undo_def)
  have nr: "target < u \<Longrightarrow> \<not> recorded st0 sid u" for u
    using recorded_listed assms(2) by (fastforce simp: fresh_after_def)
  show ?thesis
    unfolding run_inv_def ts Let_def
    using assms(1) nr not_recorded_empty [OF nr]
    by (auto simp: turn_ok_def canonical_turn_def pending_log_def override_with_def fun_eq_iff)
qed

text \<open>A backup in a turn not earlier than the others puts that turn first among those to undo.\<close>

lemma turns_to_undo_update:
  assumes "session_turns st' root = AList.update (turn_dirname t) td (session_turns st root)"
    and "target < t" and "\<forall>u \<in> set (turns_to_undo st root target). u \<le> t"
    and "t \<in> set (turns_to_undo st root target) \<longleftrightarrow> turn_dirname t \<in> fst ` set (session_turns st root)"
  shows "turns_to_undo st' root target =
     (if t \<in> set (turns_to_undo st root target) then turns_to_undo st root target
      else t # turns_to_undo st root target)"
proof -
  let ?f = "\<lambda>s. filter (\<lambda>t. target < t) (list_turn_numbers s root)"
  have "map fst (session_turns st' root) =
      (if turn_dirname t \<in> fst ` set (session_turns st root) then map fst (session_turns st root)
       else map fst (session_turns st root) @ [turn_dirname t])"
    by (simp add: assms(1) update_keys)
  then have "?f st' = (if t \<in> set (turns_to_undo st root target) then ?f st else ?f st @ [t])"
    using assms(2,4) by (simp add: list_turn_numbers_names List.map_filter_def)
  moreover have "\<forall>u \<in> set (?f st). u \<le> t" using assms(3) by (simp add: turns_to_undo_def)
  then have "sort (?f st @ [t]) = sort (?f st) @ [t]" by (rule sort_snoc_max)
  ultimately show ?thesis by (simp add: turns_to_undo_def)
qed

lemma desc_max_head:
  fixes t :: "'a :: linorder"
  assumes "sorted (rev ts)" and "t \<in> set ts" and "\<forall>u \<in> set ts. u \<le> t"
  obtains r where "ts = t # r"
proof (cases ts)
  case (Cons a r)
  with assms have "t \<le> a" "a \<le> t" by (auto simp: sorted_append)
  with Cons that show ?thesis by simp
qed (use assms in simp)

lemma run_inv_old:
  assumes inv: "run_inv sid target d0 t st d K" and "t \<le> t'" and "target < t'"
    and "e \<in> set (turn_entries st sid t')" and "be_path e = loc_str l"
    and "components (loc_str l) = abs_path l"
    and "plain_disk d'" and frame: "\<forall>m. m \<noteq> l \<longrightarrow> file_at d' m = file_at d m"
  shows "run_inv sid target d0 t' st d' (insert l K)"
proof -
  define ts where "ts = turns_to_undo st (sanitize_session_id sid) target"
  note I = inv [unfolded run_inv_def Let_def, folded ts_def]
  from assms(4) have "recorded st sid t'" using not_recorded_empty by fastforce
  with I assms(3) have t': "t' \<in> set ts" by blast
  have "entry_loc e = l" by (rule loc_str_entry [OF assms(6,5)])
  with t' assms(4) have key: "l \<in> fst ` set (pending_log st sid ts)"
    by (force simp: pending_log_def log_pairs_turn_log)
  have "override_with (file_at d') (pending_log st sid ts) = override_with (file_at d) (pending_log st sid ts)"
    by (rule override_with_other) (use frame key in metis)
  with I have over: "override_with (file_at d') (pending_log st sid ts) = file_at d0" by simp
  have K: "\<forall>u. target < u \<longrightarrow> entry_loc ` set (turn_entries st sid u) \<subseteq> insert l K" using I by blast
  have members: "\<forall>u \<in> set ts. target < u \<and> u \<le> t' \<and> recorded st sid u \<and> not_corrupt st sid u"
    using I assms(2) by (meson order_trans)
  show ?thesis
    unfolding run_inv_def Let_def ts_def [symmetric] using I assms(7) over K members by blast
qed

lemma run_inv_new:
  assumes inv: "run_inv sid target d0 t st d K" and "t \<le> t'" and "target < t'"
    and fresh: "\<forall>e \<in> set (turn_entries st sid t'). be_path e \<noteq> loc_str l"
    and "components (loc_str l) = abs_path l" and "l \<noteq> []"
    and bk: "backup_file st d sid t' (loc_str l) = Inr st'"
    and "plain_disk d'" and frame: "\<forall>m. m \<noteq> l \<longrightarrow> file_at d' m = file_at d m"
  shows "run_inv sid target d0 t' st' d' (insert l K)"
proof -
  define ts where "ts = turns_to_undo st (sanitize_session_id sid) target"
  note I = inv [unfolded run_inv_def Let_def, folded ts_def]
  from I have I_plain: "plain_disk d" and I_dist: "distinct ts" and I_sorted: "sorted (rev ts)" by blast+
  from I have I_mem: "u \<in> set ts \<Longrightarrow> target < u \<and> u \<le> t \<and> recorded st sid u \<and> not_corrupt st sid u"
    and I_out: "target < u \<Longrightarrow> u \<notin> set ts \<Longrightarrow> \<not> recorded st sid u"
    and I_ok: "target < u \<Longrightarrow> turn_ok st sid u" and I_canon: "target < u \<Longrightarrow> canonical_turn st sid u"
    and I_K: "target < u \<Longrightarrow> entry_loc ` set (turn_entries st sid u) \<subseteq> K" for u by blast+
  from I have I_over: "override_with (file_at d) (pending_log st sid ts) = file_at d0" by blast
  note ok = I_ok [OF assms(3)] and canon = I_canon [OF assms(3)]
  from bk ok fresh obtain e prior where
      pr: "capture d (components (loc_str l)) = Inr prior"
    and es: "turn_entries st' sid t' = turn_entries st sid t' @ [e]" and pe: "be_path e = loc_str l"
    and val: "entry_value (turn_blobs st' sid t') e = prior"
    and vals: "\<forall>x \<in> set (turn_entries st sid t').
           entry_value (turn_blobs st' sid t') x = entry_value (turn_blobs st sid t') x"
    and other: "\<forall>sid' u. (sid', u) \<noteq> (sid, t') \<longrightarrow>
           turn_entries st' sid' u = turn_entries st sid' u \<and> turn_blobs st' sid' u = turn_blobs st sid' u"
    and ok': "turn_ok st' sid t'"
    and upd: "session_turns st' (sanitize_session_id sid) =
           AList.update (turn_dirname t') (get_turn_dir st' (sanitize_session_id sid) (turn_dirname t'))
             (session_turns st (sanitize_session_id sid))"
    by (rule backup_new_entry)
  have loc: "entry_loc e = l" by (rule loc_str_entry [OF assms(5) pe])
  have prior: "prior = file_at d l" using capture_plain [OF I_plain] pr assms(5) by metis
  have le: "\<forall>u \<in> set ts. u \<le> t'" using I_mem assms(2) order_trans by blast
  have mem: "t' \<in> set ts \<longleftrightarrow> turn_dirname t' \<in> fst ` set (session_turns st (sanitize_session_id sid))"
    using I_mem [of t'] I_out [OF assms(3)] unfolding recorded_def by blast
  define E where "E = log_pairs (turn_log st sid t')"
  obtain r where r: "turns_to_undo st' (sanitize_session_id sid) target = t' # r"
    and ts_r: "ts = (if t' \<in> set ts then t' # r else r)" and r_dist: "t' \<notin> set r"
  proof -
    have step: "turns_to_undo st' (sanitize_session_id sid) target = (if t' \<in> set ts then ts else t' # ts)"
      using turns_to_undo_update [OF upd assms(3)] le mem by (simp add: ts_def)
    show ?thesis
    proof (cases "t' \<in> set ts")
      case True
      from desc_max_head [OF I_sorted True le] obtain r where "ts = t' # r" by blast
      with True step I_dist that [of r] show ?thesis by simp
    next
      case False
      with step that [of ts] show ?thesis by simp
    qed
  qed
  have old_log: "pending_log st sid ts = E @ pending_log st sid r"
  proof (cases "t' \<in> set ts")
    case True
    with ts_r show ?thesis by (simp add: pending_log_def E_def)
  next
    case False
    with I_out assms(3) have "turn_entries st sid t' = []" using not_recorded_empty by blast
    then have "E = []" by (simp add: E_def log_pairs_turn_log)
    moreover have "ts = r" using False ts_r by simp
    ultimately show ?thesis by simp
  qed
  have same: "u \<noteq> t' \<Longrightarrow> log_pairs (turn_log st' sid u) = log_pairs (turn_log st sid u)" for u
    using other by (simp add: log_pairs_turn_log)
  have "map (\<lambda>u. log_pairs (turn_log st' sid u)) r = map (\<lambda>u. log_pairs (turn_log st sid u)) r"
    by (rule map_cong [OF refl]) (metis same r_dist)
  then have rest: "pending_log st' sid r = pending_log st sid r"
    unfolding pending_log_def by (rule arg_cong)
  have new_log: "pending_log st' sid (t' # r) = E @ [(l, file_at d l)] @ pending_log st sid r"
    using vals rest by (simp add: pending_log_def log_pairs_turn_log E_def es loc val prior)
  have "l \<notin> fst ` set E"
    using canon fresh by (auto simp: E_def log_pairs_turn_log canonical_turn_def)
  then have rec: "override_with (file_at d') (E @ [(l, file_at d l)]) = override_with (file_at d) E"
    using frame by (rule override_with_record)
  have "override_with (file_at d') (pending_log st' sid (t' # r)) =
        override_with (override_with (file_at d') (E @ [(l, file_at d l)])) (pending_log st sid r)"
    unfolding new_log by (simp only: override_with_append [symmetric] append_assoc)
  also have "\<dots> = override_with (file_at d) (pending_log st sid ts)"
    unfolding rec old_log by (simp only: override_with_append)
  finally have over: "override_with (file_at d') (pending_log st' sid (t' # r)) = file_at d0"
    using I_over by simp
  have rec': "recorded st' sid u \<longleftrightarrow> recorded st sid u \<or> u = t'" for u
    using turn_dirname_inj [of u t'] by (auto simp: recorded_def upd dom_update)
  have nc: "not_corrupt st' sid u" if "u = t' \<or> not_corrupt st sid u" for u
  proof (cases "u = t'")
    case True
    with es show ?thesis
      by (auto simp: not_corrupt_def turn_entries_def split: sum.splits)
  next
    case False
    then have ne: "turn_dirname u \<noteq> turn_dirname t'" by (simp add: turn_dirname_inj)
    have "map_of (session_turns st' (sanitize_session_id sid)) (turn_dirname u) =
        map_of (session_turns st (sanitize_session_id sid)) (turn_dirname u)"
      using False by (subst upd) (simp add: update_conv')
    then have "get_turn_dir st' (sanitize_session_id sid) (turn_dirname u) =
        get_turn_dir st (sanitize_session_id sid) (turn_dirname u)"
      by (simp add: get_turn_dir_def)
    with that False show ?thesis by (simp add: not_corrupt_def read_manifest_def)
  qed
  have set_r: "set (t' # r) = insert t' (set ts)" using ts_r by (auto split: if_splits)
  have sorted: "sorted (rev (t' # r))" using I_sorted le ts_r by (cases "t' \<in> set ts") (auto simp: sorted_append)
  have ents: "turn_entries st' sid u = turn_entries st sid u" if "u \<noteq> t'" for u
    using that other by blast
  have all_ok: "turn_ok st' sid u" if "target < u" for u
  proof (cases "u = t'")
    case False
    with other show ?thesis using turn_ok_other [of st' sid u st] I_ok [OF that] by simp
  qed (simp add: ok')
  have all_canon: "canonical_turn st' sid u" if "target < u" for u
    using I_canon [OF that] canon ents [of u] es assms(5,6) pe loc
    by (cases "u = t'") (auto simp: canonical_turn_def)
  have all_K: "entry_loc ` set (turn_entries st' sid u) \<subseteq> insert l K" if "target < u" for u
    using I_K [OF that] ents [of u] es loc by (cases "u = t'") auto
  have members: "target < u \<and> u \<le> t' \<and> recorded st' sid u \<and> not_corrupt st' sid u"
    if "u \<in> set (t' # r)" for u
  proof (cases "u = t'")
    case False
    with that set_r have u: "u \<in> set ts" by auto
    from I_mem [OF this] le u rec' nc show ?thesis by blast
  qed (simp add: assms(3) rec' nc)
  have others: "\<not> recorded st' sid u" if "target < u" "u \<notin> set (t' # r)" for u
    using that I_out [OF that(1)] rec' set_r by auto
  have dist: "distinct (t' # r)" using I_dist ts_r r_dist by (cases "t' \<in> set ts") auto
  show ?thesis
    unfolding run_inv_def Let_def r
    by (intro conjI allI ballI impI assms(8) dist sorted over)
      (simp_all only: members others all_ok all_canon all_K not_False_eq_True simp_thms)
qed

lemma edit_run_inv:
  assumes "edit_run sid target st0 d0 t st d K" and "plain_disk d0" and "fresh_after st0 sid target"
  shows "run_inv sid target d0 t st d K"
  using assms(1)
proof (induction rule: edit_run.induct)
  case start
  show ?case using assms(2,3) by (rule run_inv_start)
next
  case (dirs t st d K d')
  from dirs.IH dirs(2,3) show ?case by (simp add: run_inv_def Let_def)
next
  case (edit t st d K t' l st' d')
  show ?case
  proof (cases "\<exists>e \<in> set (turn_entries st sid t'). be_path e = loc_str l")
    case True
    with edit(6) have "st' = st" by (cases rule: backup_file_cases) auto
    with True run_inv_old [OF edit.IH edit(2,3) _ _ edit(5,7,8)] show ?thesis by blast
  next
    case False
    then show ?thesis
      using run_inv_new [OF edit.IH edit(2,3) _ edit(5,4,6,7,8)] by blast
  qed
qed

lemma undo_run:
  assumes "edit_run sid target st0 d0 t st d K" and "plain_disk d0" and "fresh_after st0 sid target"
    and "\<forall>l \<in> K. path_starts_with (abs_path l) (components project_root)" and "room_for K d"
  shows "\<exists>d' n. restore_to st sid target project_root d = (d', Inr n) \<and> file_at d' = file_at d0"
proof -
  let ?root = "components project_root"
  define ts where "ts = turns_to_undo st (sanitize_session_id sid) target"
  note I = edit_run_inv [OF assms(1,2,3), unfolded run_inv_def Let_def, folded ts_def]
  define log where "log = concat (map (turn_log st sid) ts)"
  have good: "undo_good ?root x \<and> undo_key x \<in> K" if x_log: "x \<in> set log" for x
  proof -
    from x_log obtain u e where u: "u \<in> set ts" and e: "e \<in> set (turn_entries st sid u)"
      and x: "x = (manifest_path (sanitize_session_id sid) (turn_dirname u), turn_blobs st sid u, e)"
      by (auto simp: log_def turn_log_def)
    from u I have "turn_ok st sid u" and "canonical_turn st sid u"
      and key: "entry_loc ` set (turn_entries st sid u) \<subseteq> K" by blast+
    with e have c: "be_path e = loc_str (entry_loc e)"
        "components (loc_str (entry_loc e)) = abs_path (entry_loc e)" "entry_loc e \<noteq> []"
      by (auto simp: canonical_turn_def)
    from turn_ok_blob(1) [OF \<open>turn_ok st sid u\<close> e]
    have blob: "be_existed_before e \<Longrightarrow> Option.bind (be_blob e) (turn_blobs st sid u) \<noteq> None" by auto
    from key e have k: "entry_loc e \<in> K" by blast
    with assms(4) c blob show ?thesis by (auto simp: x undo_good_def undo_key_def)
  qed
  from good have "list_all (undo_good ?root) log" and "undo_key ` set log \<subseteq> K"
    by (auto simp: list_all_iff)
  from project_undo.undo_list_view [OF assms(5) this] obtain d'
    where d': "undo_list (undo_entry ?root) log d = Some d'"
      and v: "file_at d' = override_with (file_at d) (map (\<lambda>x. (undo_key x, undo_val x)) log)" by blast
  have "map (\<lambda>x. (undo_key x, undo_val x)) log = pending_log st sid ts"
    by (simp add: log_def pending_log_def log_pairs_def map_concat comp_def)
  with v I have same: "file_at d' = file_at d0" by simp
  have "\<forall>u \<in> set ts. not_corrupt st sid u" using I by blast
  from restore_turns_undo [OF d' [unfolded log_def] this, of 0] obtain k
    where k: "restore_turns st (sanitize_session_id sid) ?root ts d 0 = (d', Inr k)" by blast
  show ?thesis
  proof (cases "st (sanitize_session_id sid)")
    case None
    then have "ts = []"
      by (simp add: ts_def turns_to_undo_def list_turn_numbers_def session_turns_def map_filter_simps)
    with k have "d' = d" by simp
    with None same show ?thesis by (simp add: restore_to_def)
  next
    case (Some sd)
    with k same show ?thesis by (simp add: restore_to_def Let_def ts_def)
  qed
qed

text \<open>C1. Undo: after any run of file-changing tools in turns later than \<open>target\<close>, \<open>restore_to\<close>
  succeeds and every file of the disk, changed, created or deleted since, has the contents it had
  when \<open>target\<close> ended. The touched files lie in the project, none lies below another, and where they
  belong nothing but files has come to be.\<close>

theorem restore_to_undoes_run:
  assumes "edit_run sid target st0 d0 t st d K" and "plain_disk d0" and "fresh_after st0 sid target"
    and "\<forall>l \<in> K. path_starts_with (abs_path l) (components project_root)" and "room_for K d"
  shows "\<exists>d' n. restore_to st sid target project_root d = (d', Inr n) \<and> file_at d' = file_at d0"
  using assms by (rule undo_run)

text \<open>A run of one edit, in a project with one file.\<close>

definition demo_disk :: "str \<Rightarrow> disk" where
  "demo_disk b = [[] \<mapsto> NDir, [''p''] \<mapsto> NDir, [''p'', ''a''] \<mapsto> NFile b]"

lemma demo_disk_plain: "plain_disk (demo_disk b)"
  by (rule plain_diskI) (auto simp: demo_disk_def split: if_splits)

lemma demo_disk_file_at: "file_at (demo_disk b) = [[''p'', ''a''] \<mapsto> b]"
  by (auto simp: demo_disk_def file_at_def fun_eq_iff)

lemma demo_components: "components ''/p/a'' = abs_path [''p'', ''a'']"
  by (simp add: components_def component_of_def abs_path_def)

lemma demo_backup:
  "\<exists>st'. backup_file (\<lambda>_. None) (demo_disk b) ''s'' 1 ''/p/a'' = Inr st'"
proof -
  have "stat (demo_disk b) (abs_path [''p'', ''a'']) = Inr ([''p'', ''a''], NFile b)"
    using stat_plain [OF demo_disk_plain, of b "[''p'', ''a'']"] by (simp add: demo_disk_def)
  then have "capture (demo_disk b) (components ''/p/a'') = Inr (Some b)"
    by (simp add: demo_components capture_def read_file_def)
  then show ?thesis
    by (simp add: backup_file_def is_absolute_def starts_with_def Let_def read_manifest_def
        get_turn_dir_def session_turns_def empty_turn_dir_def initial_manifest_def)
qed

lemma demo_undo:
  assumes "backup_file (\<lambda>_. None) (demo_disk ''v0'') ''s'' 1 ''/p/a'' = Inr st"
  shows "edit_run ''s'' 0 (\<lambda>_. None) (demo_disk ''v0'') 1 st (demo_disk ''v1'') {[''p'', ''a'']}"
    and "fresh_after (\<lambda>_. None) ''s'' 0" and "room_for {[''p'', ''a'']} (demo_disk ''v1'')"
    and "\<forall>l \<in> {[''p'', ''a'']}. path_starts_with (abs_path l) (components ''/p'')"
proof -
  have ls: "loc_str [''p'', ''a''] = ''/p/a''" by (simp add: loc_str_def)
  show "edit_run ''s'' 0 (\<lambda>_. None) (demo_disk ''v0'') 1 st (demo_disk ''v1'') {[''p'', ''a'']}"
    by (rule edit_run.edit [OF edit_run.start, where l = "[''p'', ''a'']"])
      (use assms in \<open>auto simp: ls demo_components demo_disk_plain demo_disk_file_at\<close>)
  have cw: "clear_way (demo_disk ''v1'') [''p'', ''a'']"
    by (auto simp: clear_way_def demo_disk_file_at Cons_eq_append_conv)
  then show "room_for {[''p'', ''a'']} (demo_disk ''v1'')"
    by (simp add: room_for_def prefix_free_def demo_disk_plain) (simp add: demo_disk_def)
  show "fresh_after (\<lambda>_. None) ''s'' 0"
    by (simp add: fresh_after_def list_turn_numbers_def session_turns_def map_filter_simps)
  have "components ''/p'' = [RootDir, Normal ''p'']"
    by (simp add: components_def component_of_def)
  then show "\<forall>l \<in> {[''p'', ''a'']}. path_starts_with (abs_path l) (components ''/p'')"
    by (auto simp: path_starts_with_def abs_path_def)
qed

theorem restore_to_undoes_run_witness:
  "\<exists>st d'. backup_file (\<lambda>_. None) (demo_disk ''v0'') ''s'' 1 ''/p/a'' = Inr st \<and>
     file_at (fst (restore_to st ''s'' 0 ''/p'' (demo_disk ''v1''))) = file_at (demo_disk ''v0'')"
proof -
  obtain st where st: "backup_file (\<lambda>_. None) (demo_disk ''v0'') ''s'' 1 ''/p/a'' = Inr st"
    using demo_backup by blast
  note demo = demo_undo [OF st]
  show ?thesis
    using restore_to_undoes_run [OF demo(1) demo_disk_plain demo(2,4,3)] st by auto
qed

section \<open>A restore stays in the project\<close>

lemma normalize_rootless:
  "RootDir \<notin> set acc \<Longrightarrow> RootDir \<notin> set p \<Longrightarrow> normalize acc p = Some q \<Longrightarrow> RootDir \<notin> set q"
  by (induction acc p rule: normalize.induct)
    (auto simp: path_parent_def split: option.splits if_splits dest: in_set_butlastD)

lemma components_rooted: "components s = (if is_absolute s then RootDir # tl (components s) else components s)"
  by (simp add: components_def is_absolute_def Let_def)

lemma components_rootless: "\<not> is_absolute s \<Longrightarrow> RootDir \<notin> set (components s)"
  by (auto simp: components_def is_absolute_def Let_def component_of_def)

lemma within_root_abs:
  assumes "is_within_root (components root) (components s)" and "is_absolute root"
  shows "\<exists>q. normalize (abs_path []) (components s) = Some q \<and> path_starts_with q (components root)"
proof -
  from assms(1) obtain q where q: "normalize [] (components s) = Some q"
    and sw: "path_starts_with q (components root)"
    by (auto simp: is_within_root_def split: option.splits)
  have "RootDir \<in> set (components root)" using components_rooted [of root] assms(2) by (metis list.set_intros(1))
  with sw have "RootDir \<in> set q" unfolding path_starts_with_def by (metis in_set_takeD)
  with normalize_rootless [OF _ components_rootless q] have "is_absolute s" by auto
  then have "components s = RootDir # tl (components s)" using components_rooted by metis
  then have "normalize (abs_path []) (components s) = normalize [] (components s)"
    by (metis normalize.simps(2))
  with q sw show ?thesis by auto
qed

definition confined :: "path \<Rightarrow> disk \<Rightarrow> disk \<Rightarrow> bool" where
  "confined root d d' \<longleftrightarrow>
     plain_disk d' \<and> (\<forall>l. \<not> path_starts_with (abs_path l) root \<longrightarrow> file_at d' l = file_at d l)"

lemma confined_trans: "confined root a b \<Longrightarrow> confined root b c \<Longrightarrow> confined root a c"
  by (simp add: confined_def)

lemma remove_file_confined:
  assumes "plain_disk d" and "remove_file d p = Inr d'"
    and "normalize (abs_path []) p = Some q" and "path_starts_with q root"
  shows "confined root d d'"
proof -
  from assms(2) obtain l where l: "entry_of d p = Inr l" "d l \<noteq> None" "d l \<noteq> Some NDir" "d' = d(l := None)"
    by (auto simp: remove_file_def split: sum.splits option.splits node.splits)
  from entry_of_normalize [OF assms(1) l(1) assms(3)] have "q = abs_path l" by simp
  moreover from l assms(1) have "file_at d l \<noteq> None"
    by (cases "d l"; cases "the (d l)") (auto simp: file_at_def)
  ultimately show ?thesis
    using plain_del [OF assms(1)] assms(4) l(4) by (auto simp: confined_def)
qed

lemma write_file_confined:
  assumes "plain_disk d" and "write_file d p b = Inr d'"
    and "normalize (abs_path []) p = Some q" and "path_starts_with q root"
  shows "confined root d d'"
proof -
  from assms(2) obtain l where l: "resolve d [] p = Inr l" "d' = d(l \<mapsto> NFile b)" "d l \<noteq> Some NDir"
    and up: "d l = None \<Longrightarrow> need_dir d (butlast l) = None"
    by (auto simp: write_file_def split: sum.splits option.splits node.splits)
  from resolve_normalize [OF assms(1), of "[]" p l q] l(1) assms(3) have q: "q = abs_path l" by simp
  have "l \<noteq> []" using l(3) assms(1) by auto
  moreover have "in_dir d l"
    using up in_dir_existing [OF assms(1), of l] need_dir_None by (cases "d l") (auto simp: in_dir_def)
  ultimately have "plain_disk d'" using plain_put [OF assms(1)] l(2,3) by auto
  with l(2) q assms(4) show ?thesis by (auto simp: confined_def)
qed

lemma restore_entry_confined:
  assumes "plain_disk d" and "is_absolute root"
    and "restore_entry (components root) mpath blobs e d = (d', r)"
  shows "confined (components root) d d'"
proof -
  let ?p = "components (be_path e)"
  have refl: "confined (components root) d d" using assms(1) by (simp add: confined_def)
  show ?thesis
  proof (cases "is_within_root (components root) ?p")
    case False
    with assms(3) refl show ?thesis by (simp add: restore_entry_def)
  next
    case within: True
    from within_root_abs [OF within assms(2)] obtain q
      where q: "normalize (abs_path []) ?p = Some q" "path_starts_with q (components root)" by blast
    show ?thesis
    proof (cases "be_existed_before e")
      case False
      with within assms(3) have "d' = d \<or> remove_file d ?p = Inr d'"
        by (auto simp: restore_entry_def Let_def split: sum.splits ioerr.splits)
      with refl remove_file_confined [OF assms(1) _ q] show ?thesis by blast
    next
      case True
      with within assms(3) have "d' = d \<or> (\<exists>d1 b.
          (case path_parent ?p of None \<Rightarrow> Inr d | Some q \<Rightarrow> create_dir_all d q) = Inr d1
          \<and> (d' = d1 \<or> write_file d1 ?p b = Inr d'))"
        by (auto simp: restore_entry_def Let_def split: sum.splits option.splits)
      moreover have "confined (components root) d d1"
        if "(case path_parent ?p of None \<Rightarrow> Inr d | Some q \<Rightarrow> create_dir_all d q) = Inr d1" for d1
        using that create_dir_all_any [OF assms(1)] only_dirs_added_file_at assms(1)
        by (fastforce simp: confined_def split: option.splits)
      ultimately show ?thesis
        using refl write_file_confined [OF _ _ q] confined_trans confined_def by blast
    qed
  qed
qed

lemma restore_entries_confined:
  "plain_disk d \<Longrightarrow> is_absolute root \<Longrightarrow>
   restore_entries (components root) mpath blobs es d n = (d', r) \<Longrightarrow> confined (components root) d d'"
proof (induction es arbitrary: d n)
  case Nil
  then show ?case by (simp add: confined_def)
next
  case (Cons e es)
  obtain d1 r1 where r1: "restore_entry (components root) mpath blobs e d = (d1, r1)" by fastforce
  note c = restore_entry_confined [OF Cons.prems(1,2) r1]
  show ?case
  proof (cases r1)
    case (Inl x)
    with r1 c Cons.prems(3) show ?thesis by simp
  next
    case (Inr k)
    with r1 Cons.prems(3) have "restore_entries (components root) mpath blobs es d1 (n + k) = (d', r)" by simp
    from Cons.IH [OF _ Cons.prems(2) this] c confined_trans show ?thesis
      unfolding confined_def by fastforce
  qed
qed

lemma restore_turns_confined:
  "plain_disk d \<Longrightarrow> is_absolute root \<Longrightarrow>
   restore_turns st sroot (components root) ts d n = (d', r) \<Longrightarrow> confined (components root) d d'"
proof (induction ts arbitrary: d n)
  case Nil
  then show ?case by (simp add: confined_def)
next
  case (Cons t ts)
  show ?case
  proof (cases "read_manifest st sroot (turn_dirname t)")
    case (Inl e)
    with Cons.prems show ?thesis by (simp add: Let_def confined_def)
  next
    case (Inr mo)
    show ?thesis
    proof (cases mo)
      case None
      with Inr Cons.prems Cons.IH show ?thesis by (simp add: Let_def)
    next
      case (Some m)
      obtain d1 r1 where r1: "restore_entries (components root) (manifest_path sroot (turn_dirname t))
          (td_blobs (get_turn_dir st sroot (turn_dirname t))) (tm_entries m) d n = (d1, r1)" by fastforce
      note c = restore_entries_confined [OF Cons.prems(1,2) r1]
      show ?thesis
      proof (cases r1)
        case (Inl x)
        with r1 c Inr Some Cons.prems(3) show ?thesis by (simp add: Let_def)
      next
        case (Inr k)
        with r1 \<open>read_manifest st sroot (turn_dirname t) = Inr mo\<close> Some Cons.prems(3)
        have "restore_turns st sroot (components root) ts d1 k = (d', r)" by (simp add: Let_def)
        from Cons.IH [OF _ Cons.prems(2) this] c confined_trans show ?thesis
          unfolding confined_def by fastforce
      qed
    qed
  qed
qed

text \<open>C2. Confinement: whatever the manifests hold, tampered paths with \<open>..\<close> or absolute ones
  included, a restore on a disk without links changes no file outside the project root, also when it
  fails part of the way.\<close>

theorem restore_to_stays_in_root:
  assumes "plain_disk d" and "is_absolute root" and "restore_to st sid target root d = (d', r)"
    and "\<not> path_starts_with (abs_path l) (components root)"
  shows "file_at d' l = file_at d l"
proof -
  have "confined (components root) d d'"
    using assms(1,3) restore_turns_confined [OF assms(1,2)]
    by (auto simp: restore_to_def Let_def confined_def split: if_splits)
  with assms(4) show ?thesis by (simp add: confined_def)
qed

theorem restore_to_stays_in_root_witness:
  "file_at (fst (restore_to [''s'' \<mapsto>
       [(''turn-0001'', \<lparr>td_manifest = Manifest \<lparr>tm_version = 1, tm_session_id = ''s'', tm_turn = 1,
           tm_entries = [\<lparr>be_path = ''/p/../etc/x'', be_existed_before = False, be_blob = None\<rparr>]\<rparr>,
         td_blobs = (\<lambda>_. None)\<rparr>)]]
       ''s'' 0 ''/q'' (demo_disk ''v''))) [''p'', ''a''] = Some ''v''"
proof -
  have c: "components ''/q'' = [RootDir, Normal ''q'']"
    by (simp add: components_def component_of_def)
  show ?thesis
    by (subst restore_to_stays_in_root [OF demo_disk_plain _ prod.collapse [symmetric]])
      (auto simp: c is_absolute_def starts_with_def path_starts_with_def abs_path_def demo_disk_file_at)
qed

end
