(* ===== verification/CheckpointDiff.thy ===== *)
theory CheckpointDiff
  imports CheckpointFacts
begin

text \<open>
  The per-turn diff of \<open>crates/git-ops/src/checkpoint.rs\<close> and the deletion of turns: the diff shown
  for a file is one replacement of a block of lines that turns the old file into the new one and is
  as short as such a block can be; deletion leaves exactly the earlier turns.
\<close>

section \<open>Common lines\<close>

lemma common_prefix_len_spec:
  "common_prefix_len p c \<le> length p \<and> common_prefix_len p c \<le> length c
   \<and> take (common_prefix_len p c) p = take (common_prefix_len p c) c
   \<and> (common_prefix_len p c < length p \<and> common_prefix_len p c < length c
        \<longrightarrow> p ! common_prefix_len p c \<noteq> c ! common_prefix_len p c)"
  by (induction p c rule: common_prefix_len.induct) auto

lemma common_suffix_len_spec:
  assumes "suf \<le> length p - pre" and "suf \<le> length c - pre"
    and "\<forall>i < suf. p ! (length p - 1 - i) = c ! (length c - 1 - i)"
  shows "common_suffix_len p c pre suf \<le> length p - pre \<and> common_suffix_len p c pre suf \<le> length c - pre
   \<and> (\<forall>i < common_suffix_len p c pre suf. p ! (length p - 1 - i) = c ! (length c - 1 - i))
   \<and> (common_suffix_len p c pre suf < length p - pre \<and> common_suffix_len p c pre suf < length c - pre
        \<longrightarrow> p ! (length p - 1 - common_suffix_len p c pre suf) \<noteq> c ! (length c - 1 - common_suffix_len p c pre suf))"
  using assms
proof (induction p c pre suf rule: common_suffix_len.induct)
  case (1 p c pre suf)
  show ?case
  proof (cases "suf < length p - pre \<and> suf < length c - pre
         \<and> p ! (length p - 1 - suf) = c ! (length c - 1 - suf)")
    case True
    then have "common_suffix_len p c pre suf = common_suffix_len p c pre (Suc suf)"
      by (subst common_suffix_len.simps) simp
    moreover have "\<forall>i < Suc suf. p ! (length p - 1 - i) = c ! (length c - 1 - i)"
      using 1(4) True by (auto simp: less_Suc_eq)
    ultimately show ?thesis using 1(1) [OF True] True by simp
  next
    case False
    then have "common_suffix_len p c pre suf = suf"
      by (subst common_suffix_len.simps) (simp only: if_False)
    with 1(2-4) False show ?thesis by (metis One_nat_def)
  qed
qed

lemma common_tail:
  assumes "k \<le> length p" and "k \<le> length c"
    and "\<forall>i < k. p ! (length p - 1 - i) = c ! (length c - 1 - i)"
  shows "drop (length p - k) p = drop (length c - k) c"
proof (rule nth_equalityI)
  fix i
  assume "i < length (drop (length p - k) p)"
  then have i: "i < k" using assms(1) by simp
  then have "k - 1 - i < k" and "length p - 1 - (k - 1 - i) = length p - k + i"
    and "length c - 1 - (k - 1 - i) = length c - k + i" using assms(1,2) by arith+
  with assms(3) i assms(1,2) show "drop (length p - k) p ! i = drop (length c - k) c ! i" by fastforce
qed (use assms in simp)

lemma middle_split:
  assumes "pre + suf \<le> length ls"
  shows "ls = take pre ls @ middle pre suf ls @ drop (length ls - suf) ls"
    and "length (middle pre suf ls) = length ls - suf - pre"
    and "middle pre suf ls \<noteq> [] \<Longrightarrow> hd (middle pre suf ls) = ls ! pre"
    and "middle pre suf ls \<noteq> [] \<Longrightarrow> last (middle pre suf ls) = ls ! (length ls - 1 - suf)"
proof -
  have "take pre ls = take pre (take (length ls - suf) ls)" using assms by simp
  then have "take pre ls @ middle pre suf ls = take (length ls - suf) ls"
    unfolding middle_def by (metis append_take_drop_id)
  then show "ls = take pre ls @ middle pre suf ls @ drop (length ls - suf) ls"
    by (metis append.assoc append_take_drop_id)
  show len: "length (middle pre suf ls) = length ls - suf - pre" by (simp add: middle_def)
  show "hd (middle pre suf ls) = ls ! pre" if "middle pre suf ls \<noteq> []"
    using that by (simp add: middle_def hd_drop_conv_nth)
  show "last (middle pre suf ls) = ls ! (length ls - 1 - suf)" if "middle pre suf ls \<noteq> []"
  proof -
    from that have "0 < length (middle pre suf ls)" by simp
    with len have "pre < length ls - suf" by simp
    then show ?thesis
      by (simp add: middle_def last_conv_nth)
  qed
qed

text \<open>The diff of a text file is one block: the old lines are a common start, the lines marked as
  removed and a common end; the new lines are the same start, the lines marked as added and the same
  end. The counts are the lengths of the block's sides, and the block is as small as it can be.\<close>

theorem unified_file_diff_explains:
  assumes "valid_utf8 prior" and "valid_utf8 current"
  shows "\<exists>a del ins z. str_lines prior = a @ del @ z \<and> str_lines current = a @ ins @ z
    \<and> unified_file_diff f prior current =
        (''--- a/'' @ f @ [NL] @ ''+++ b/'' @ f @ [NL]
           @ marked_lines (CHR ''-'') del @ marked_lines (CHR ''+'') ins, length ins, length del)
    \<and> (del \<noteq> [] \<and> ins \<noteq> [] \<longrightarrow> hd del \<noteq> hd ins \<and> last del \<noteq> last ins)"
proof -
  define p where "p = str_lines prior"
  define c where "c = str_lines current"
  define pre where "pre = common_prefix_len p c"
  define suf where "suf = common_suffix_len p c pre 0"
  note pr = common_prefix_len_spec [of p c, folded pre_def]
  have su: "suf \<le> length p - pre \<and> suf \<le> length c - pre
      \<and> (\<forall>i < suf. p ! (length p - 1 - i) = c ! (length c - 1 - i))
      \<and> (suf < length p - pre \<and> suf < length c - pre
          \<longrightarrow> p ! (length p - 1 - suf) \<noteq> c ! (length c - 1 - suf))"
    unfolding suf_def by (rule common_suffix_len_spec) simp_all
  from pr su have lp: "pre + suf \<le> length p" and lc: "pre + suf \<le> length c" by auto
  note mp = middle_split [OF lp] and mc = middle_split [OF lc]
  have tail: "drop (length p - suf) p = drop (length c - suf) c"
    by (rule common_tail) (use su lp lc in auto)
  have "middle pre suf p \<noteq> [] \<and> middle pre suf c \<noteq> [] \<longrightarrow>
      hd (middle pre suf p) \<noteq> hd (middle pre suf c) \<and> last (middle pre suf p) \<noteq> last (middle pre suf c)"
  proof
    assume ne: "middle pre suf p \<noteq> [] \<and> middle pre suf c \<noteq> []"
    then have "0 < length (middle pre suf p)" and "0 < length (middle pre suf c)" by simp_all
    with mp(2) mc(2) have "suf < length p - pre" and "suf < length c - pre" by linarith+
    then have "pre < length p" and "pre < length c" by linarith+
    with pr su ne mp(3,4) mc(3,4) \<open>suf < length p - pre\<close> \<open>suf < length c - pre\<close>
    show "hd (middle pre suf p) \<noteq> hd (middle pre suf c) \<and> last (middle pre suf p) \<noteq> last (middle pre suf c)"
      by simp
  qed
  moreover have "unified_file_diff f prior current =
        (''--- a/'' @ f @ [NL] @ ''+++ b/'' @ f @ [NL]
           @ marked_lines (CHR ''-'') (middle pre suf p) @ marked_lines (CHR ''+'') (middle pre suf c),
         length (middle pre suf c), length (middle pre suf p))"
    using assms by (simp only: unified_file_diff_def Let_def p_def c_def pre_def suf_def simp_thms if_True)
  moreover have "p = take pre p @ middle pre suf p @ drop (length c - suf) c"
    using mp(1) tail by simp
  moreover have "c = take pre p @ middle pre suf c @ drop (length c - suf) c"
    using mc(1) pr by simp
  ultimately show ?thesis unfolding p_def [symmetric] c_def [symmetric] by blast
qed

theorem unified_file_diff_explains_witness:
  "\<exists>a del ins z. str_lines ''x'' = a @ del @ z \<and> str_lines [] = a @ ins @ z
    \<and> unified_file_diff ''f'' ''x'' [] =
        (''--- a/'' @ ''f'' @ [NL] @ ''+++ b/'' @ ''f'' @ [NL]
           @ marked_lines (CHR ''-'') del @ marked_lines (CHR ''+'') ins, length ins, length del)
    \<and> (del \<noteq> [] \<and> ins \<noteq> [] \<longrightarrow> hd del \<noteq> hd ins \<and> last del \<noteq> last ins)"
  by (rule unified_file_diff_explains) (simp_all add: valid_utf8.simps [of "''x''"] valid_utf8.simps [of "[]"])

section \<open>Deleting turns\<close>

text \<open>Every turn directory has the name that a backup gives it, once.\<close>

definition names_ok :: "session_dir \<Rightarrow> bool" where
  "names_ok sd \<longleftrightarrow> distinct (map fst sd)
     \<and> (\<forall>x \<in> set sd. \<forall>t. parse_turn_from_dirname (fst x) = Some t \<longrightarrow> fst x = turn_dirname t)"

definition earlier :: "u32 \<Rightarrow> str \<times> turn_dir \<Rightarrow> bool" where
  "earlier from x = (case parse_turn_from_dirname (fst x) of None \<Rightarrow> True | Some t \<Rightarrow> t < from)"

lemma parse_turn_None: "parse_turn_from_dirname n = None \<Longrightarrow> turn_dirname t \<noteq> n"
  by auto

lemma delete_filter: "AList.delete k xs = filter (\<lambda>x. fst x \<noteq> k) xs"
  by (auto simp: AList.delete_eq case_prod_beta intro!: filter_cong)

lemma delete_turns_spec:
  assumes "names_ok sd" and "st root = Some sd" and "distinct ts"
    and "\<forall>t \<in> set ts. from \<le> t \<longrightarrow> turn_dirname t \<in> fst ` set sd"
  shows "delete_turns st root from ts n =
     (st(root \<mapsto> filter (\<lambda>x. \<forall>t \<in> set ts. from \<le> t \<longrightarrow> fst x \<noteq> turn_dirname t) sd),
      Inr (n + length (filter (\<lambda>t. from \<le> t) ts)))"
  using assms
proof (induction ts arbitrary: st sd n)
  case Nil
  then show ?case by (simp add: fun_upd_idem)
next
  case (Cons t ts)
  show ?case
  proof (cases "from \<le> t")
    case False
    have eq: "(\<lambda>x. \<forall>u \<in> set (t # ts). from \<le> u \<longrightarrow> fst x \<noteq> turn_dirname u)
            = (\<lambda>x. \<forall>u \<in> set ts. from \<le> u \<longrightarrow> fst x \<noteq> turn_dirname u)"
      using False by auto
    have "delete_turns st root from ts n =
       (st(root \<mapsto> filter (\<lambda>x. \<forall>u \<in> set ts. from \<le> u \<longrightarrow> fst x \<noteq> turn_dirname u) sd),
        Inr (n + length (filter (\<lambda>t. from \<le> t) ts)))"
      using Cons.prems by (intro Cons.IH) simp_all
    with False show ?thesis by (simp only: eq delete_turns.simps if_False filter.simps)
  next
    case True
    let ?sd = "filter (\<lambda>x. fst x \<noteq> turn_dirname t) sd"
    have sess: "session_turns st root = sd" using Cons.prems(2) by (simp add: session_turns_def)
    from Cons.prems(4) True have "map_of sd (turn_dirname t) \<noteq> None"
      by (simp add: map_of_eq_None_iff)
    then have step: "delete_turns st root from (t # ts) n =
        delete_turns (st(root \<mapsto> ?sd)) root from ts (n + 1)"
      using True by (auto simp: sess delete_filter)
    have "names_ok ?sd"
      using Cons.prems(1) by (auto simp: names_ok_def distinct_map_filter)
    moreover have "\<forall>u \<in> set ts. from \<le> u \<longrightarrow> turn_dirname u \<in> fst ` set ?sd"
    proof (intro ballI impI)
      fix u
      assume u: "u \<in> set ts" "from \<le> u"
      with Cons.prems(3) have "u \<noteq> t" by auto
      moreover from Cons.prems(4) u obtain x where "x \<in> set sd" "fst x = turn_dirname u" by auto
      ultimately show "turn_dirname u \<in> fst ` set ?sd" by (force intro!: image_eqI [of _ _ x])
    qed
    ultimately have "delete_turns (st(root \<mapsto> ?sd)) root from ts (n + 1) =
       (st(root \<mapsto> filter (\<lambda>x. \<forall>u \<in> set ts. from \<le> u \<longrightarrow> fst x \<noteq> turn_dirname u) ?sd),
        Inr (n + 1 + length (filter (\<lambda>t. from \<le> t) ts)))"
      using Cons.prems(3)
      by (subst Cons.IH [of ?sd "st(root \<mapsto> ?sd)" "n + 1"]) (simp_all only: fun_upd_upd fun_upd_same distinct.simps simp_thms)
    moreover have "filter (\<lambda>x. \<forall>u \<in> set ts. from \<le> u \<longrightarrow> fst x \<noteq> turn_dirname u) ?sd
        = filter (\<lambda>x. \<forall>u \<in> set (t # ts). from \<le> u \<longrightarrow> fst x \<noteq> turn_dirname u) sd"
      unfolding filter_filter using True by (intro filter_cong) auto
    moreover have "n + 1 + length (filter (\<lambda>t. from \<le> t) ts) = n + length (filter (\<lambda>t. from \<le> t) (t # ts))"
      using True by simp
    ultimately show ?thesis using step by (simp only: fun_upd_upd)
  qed
qed

lemma listed_names:
  assumes "names_ok sd" and "session_turns st root = sd"
  shows "distinct (list_turn_numbers st root)"
    and "t \<in> set (list_turn_numbers st root) \<longleftrightarrow> turn_dirname t \<in> fst ` set sd"
proof -
  have gen: "distinct (List.map_filter (\<lambda>(name, _). parse_turn_from_dirname name) xs)
      \<and> (\<forall>t. t \<in> set (List.map_filter (\<lambda>(name, _). parse_turn_from_dirname name) xs)
             \<longleftrightarrow> turn_dirname t \<in> fst ` set xs)" if "names_ok xs" for xs
    using that
  proof (induction xs)
    case (Cons x xs)
    then have "names_ok xs" by (simp add: names_ok_def)
    note IH = Cons.IH [OF this]
    show ?case
    proof (cases "parse_turn_from_dirname (fst x)")
      case None
      then have "turn_dirname t \<noteq> fst x" for t by (rule parse_turn_None)
      with None IH show ?thesis by (auto simp: map_filter_simps split: prod.splits)
    next
      case (Some u)
      with Cons.prems have "fst x = turn_dirname u" by (simp add: names_ok_def)
      moreover from Cons.prems have "fst x \<notin> fst ` set xs" by (simp add: names_ok_def)
      moreover have "List.map_filter (\<lambda>(name, _). parse_turn_from_dirname name) (x # xs) =
          u # List.map_filter (\<lambda>(name, _). parse_turn_from_dirname name) xs"
        using Some by (simp add: map_filter_simps case_prod_beta)
      ultimately show ?thesis using IH by auto
    qed
  qed (simp add: map_filter_simps)
  from gen [OF assms(1)] assms(2)
  show "distinct (list_turn_numbers st root)"
    and "t \<in> set (list_turn_numbers st root) \<longleftrightarrow> turn_dirname t \<in> fst ` set sd"
    by (auto simp: list_turn_numbers_def)
qed

text \<open>\<open>delete_from\<close> removes exactly the turn directories numbered \<open>from\<close> or later and reports
  their number; the earlier turns and every other session keep their files.\<close>

theorem delete_from_keeps_earlier:
  assumes "st (sanitize_session_id sid) = Some sd" and "names_ok sd"
  shows "delete_from st sid from =
     (st(sanitize_session_id sid \<mapsto> filter (earlier from) sd),
      Inr (length (filter (\<lambda>t. from \<le> t) (list_turn_numbers st (sanitize_session_id sid)))))"
proof -
  let ?root = "sanitize_session_id sid"
  let ?ts = "list_turn_numbers st ?root"
  have sess: "session_turns st ?root = sd" using assms(1) by (simp add: session_turns_def)
  note listed = listed_names [OF assms(2) sess]
  have "(\<forall>t \<in> set ?ts. from \<le> t \<longrightarrow> fst x \<noteq> turn_dirname t) = earlier from x" if "x \<in> set sd" for x
  proof (cases "parse_turn_from_dirname (fst x)")
    case None
    then have "fst x \<noteq> turn_dirname t" for t using parse_turn_None by metis
    with None show ?thesis by (simp add: earlier_def)
  next
    case (Some t)
    with assms(2) that have "fst x = turn_dirname t" by (simp add: names_ok_def)
    with that have "t \<in> set ?ts" using listed(2) [of t] by force
    with Some \<open>fst x = turn_dirname t\<close> show ?thesis by (auto simp: earlier_def not_le)
  qed
  then have "filter (\<lambda>x. \<forall>t \<in> set ?ts. from \<le> t \<longrightarrow> fst x \<noteq> turn_dirname t) sd = filter (earlier from) sd"
    by (rule filter_cong [OF refl])
  moreover have "\<forall>t \<in> set ?ts. from \<le> t \<longrightarrow> turn_dirname t \<in> fst ` set sd" using listed(2) by blast
  ultimately show ?thesis
    using delete_turns_spec [where st = st and root = ?root and n = 0, OF assms(2,1) listed(1)] assms(1)
    by (simp only: delete_from_def Let_def option.distinct if_False add_0)
qed

theorem delete_from_keeps_earlier_witness:
  "snd (delete_from [''s'' \<mapsto> [(turn_dirname 1, empty_turn_dir), (turn_dirname 2, empty_turn_dir)]] ''s'' 2)
     = Inr 1"
proof -
  have s: "sanitize_session_id ''s'' = ''s''"
    by (simp add: sanitize_session_id_def sanitize_byte_def is_ascii_alphanumeric_def)
  have "names_ok [(turn_dirname 1, empty_turn_dir), (turn_dirname 2, empty_turn_dir)]"
    by (simp add: names_ok_def)
  then show ?thesis
    by (subst delete_from_keeps_earlier)
      (simp_all add: s list_turn_numbers_def session_turns_def map_filter_simps word_le_nat_alt)
qed

end
