(* ===== verification/Tools.thy ===== *)
theory Tools
  imports Checkpoint JsonArgs
begin

text \<open>
  What the tools of \<open>crates/agent/src/tool\<close> share: the result and context records of \<open>mod.rs\<close> with
  the best-effort checkpoint, the helpers of \<open>crates/agent/src/util.rs\<close> (paths, the working
  directory test, truncation of long outputs, the \<open>.agent\<close> directory) and the \<open>write\<close> tool. A tool
  acts on a world: the project's disk and the checkpoint store.
\<close>

section \<open>Results, context, world\<close>

record tool_result =
  tr_output :: str
  tr_is_error :: bool
  tr_yield_data :: "json option"
  tr_modified_files :: "str list"

definition tool_success :: "str \<Rightarrow> tool_result" where
  "tool_success out =
     \<lparr>tr_output = out, tr_is_error = False, tr_yield_data = None, tr_modified_files = []\<rparr>"

definition tool_failure :: "str \<Rightarrow> tool_result" where
  "tool_failure out =
     \<lparr>tr_output = out, tr_is_error = True, tr_yield_data = None, tr_modified_files = []\<rparr>"

record tool_policy =
  tp_bash_timeout_ceiling_ms :: "64 word option"
  tp_search_timeout_ms :: "64 word option"
  tp_search_default_ignores :: bool
  tp_codebase_search_limit :: "u32 option"
  tp_codebase_search_chunk_bytes :: "nat option"
  tp_codebase_graph_section_cap :: "nat option"

definition default_policy :: tool_policy where
  "default_policy = \<lparr>tp_bash_timeout_ceiling_ms = None, tp_search_timeout_ms = None,
     tp_search_default_ignores = False, tp_codebase_search_limit = None,
     tp_codebase_search_chunk_bytes = None, tp_codebase_graph_section_cap = None\<rparr>"

definition bench_policy :: tool_policy where
  "bench_policy = \<lparr>tp_bash_timeout_ceiling_ms = Some 300000, tp_search_timeout_ms = Some 60000,
     tp_search_default_ignores = True, tp_codebase_search_limit = Some 20,
     tp_codebase_search_chunk_bytes = Some 2048, tp_codebase_graph_section_cap = Some 50\<rparr>"

text \<open>The checkpoint directory is the world's store; the context says whether there is one.\<close>

record tool_context =
  cx_working_dir :: str
  cx_session_id :: str
  cx_tool_call_id :: str
  cx_checkpoint_on :: bool
  cx_checkpoint_turn :: u32
  cx_policy :: tool_policy

record world =
  w_disk :: disk
  w_store :: ck_store

definition ctx_checkpoint :: "tool_context \<Rightarrow> str \<Rightarrow> world \<Rightarrow> world" where
  "ctx_checkpoint cx p w =
     (if cx_checkpoint_on cx then
        (case backup_file (w_store w) (w_disk w) (cx_session_id cx) (cx_checkpoint_turn cx) p of
           Inl _ \<Rightarrow> w
         | Inr st \<Rightarrow> w\<lparr>w_store := st\<rparr>)
      else w)"

text \<open>A handler fails with a \<open>ToolError\<close>, whose message is the left value, or returns a result.\<close>

definition missing_param :: "str \<Rightarrow> str" where
  "missing_param k = ''Missing required parameter: '' @ k"

section \<open>Paths\<close>

definition resolve_path :: "str \<Rightarrow> str \<Rightarrow> str" where
  "resolve_path working_dir file_path =
     (if is_absolute file_path then file_path else path_join working_dir file_path)"

text \<open>The loop over the ancestors pops the path until one exists.\<close>

function ancestor_inside :: "disk \<Rightarrow> path \<Rightarrow> path \<Rightarrow> bool" where
  "ancestor_inside d canonical_wd ancestor =
     (if path_exists d ancestor then
        (case canonicalize d ancestor of None \<Rightarrow> False | Some p \<Rightarrow> path_starts_with p canonical_wd)
      else (case path_parent ancestor of
              None \<Rightarrow> False
            | Some up \<Rightarrow> ancestor_inside d canonical_wd up))"
  by pat_completeness auto
termination
  by (relation "measure (\<lambda>(d, w, p). length p)") (auto simp: path_parent_def split: if_splits)

declare ancestor_inside.simps [simp del]

definition is_path_within_working_dir :: "disk \<Rightarrow> str \<Rightarrow> str \<Rightarrow> bool" where
  "is_path_within_working_dir d working_dir resolved =
     (case canonicalize d (components working_dir) of
        None \<Rightarrow> False
      | Some canonical_wd \<Rightarrow>
          if path_exists d (components resolved) then
            (case canonicalize d (components resolved) of
               None \<Rightarrow> False
             | Some p \<Rightarrow> path_starts_with p canonical_wd)
          else ancestor_inside d canonical_wd (components resolved))"

section \<open>Truncation\<close>

fun floor_down :: "str \<Rightarrow> nat \<Rightarrow> nat" where
  "floor_down s 0 = 0"
| "floor_down s (Suc n) = (if is_char_boundary s (Suc n) then Suc n else floor_down s n)"

definition floor_char_boundary :: "str \<Rightarrow> nat \<Rightarrow> nat" where
  "floor_char_boundary s target = (if length s \<le> target then length s else floor_down s target)"

definition truncate_str :: "str \<Rightarrow> nat \<Rightarrow> str" where
  "truncate_str s max_bytes = take (floor_char_boundary s max_bytes) s"

definition truncation_note :: "nat \<Rightarrow> nat \<Rightarrow> nat \<Rightarrow> nat \<Rightarrow> str" where
  "truncation_note k total_lines b total_bytes =
     [NL] @ ''... truncated ('' @ to_decimal k @ '' of '' @ to_decimal total_lines @ '' lines, ''
     @ to_decimal b @ '' of '' @ to_decimal total_bytes @ '' bytes)''"

fun truncate_loop ::
    "nat \<Rightarrow> nat \<Rightarrow> nat \<Rightarrow> nat \<Rightarrow> str list \<Rightarrow> nat \<Rightarrow> nat \<Rightarrow> str \<Rightarrow> str" where
  "truncate_loop max_lines max_bytes total_lines total_bytes [] line_count byte_count result = result"
| "truncate_loop max_lines max_bytes total_lines total_bytes (line # ls) line_count byte_count result =
     (if max_lines \<le> line_count \<or> max_bytes < byte_count + length line + 1
      then result @ truncation_note line_count total_lines byte_count total_bytes
      else if 0 < line_count
      then truncate_loop max_lines max_bytes total_lines total_bytes ls (line_count + 1)
             (byte_count + 1 + length line) (result @ [NL] @ line)
      else truncate_loop max_lines max_bytes total_lines total_bytes ls (line_count + 1)
             (byte_count + length line) (result @ line))"

definition truncate_output :: "str \<Rightarrow> nat \<Rightarrow> nat \<Rightarrow> str" where
  "truncate_output out max_lines max_bytes =
     (let total_lines = length (str_lines out); total_bytes = length out in
      if total_lines \<le> max_lines \<and> total_bytes \<le> max_bytes then out
      else truncate_loop max_lines max_bytes total_lines total_bytes (str_lines out) 0 0 [])"

section \<open>The agent directory\<close>

text \<open>\<open>read_to_string\<close> fails on text that is not UTF-8.\<close>

definition read_to_string :: "disk \<Rightarrow> path \<Rightarrow> ioerr + str" where
  "read_to_string d p =
     (case read_file d p of
        Inl e \<Rightarrow> Inl e
      | Inr b \<Rightarrow> if valid_utf8 b then Inr b else Inl OtherIo)"

text \<open>Opening for append, creating the file if need be, and writing at the end.\<close>

definition append_file :: "disk \<Rightarrow> path \<Rightarrow> str \<Rightarrow> ioerr + disk" where
  "append_file d p b =
     (case read_file d p of
        Inr old \<Rightarrow> write_file d p (old @ b)
      | Inl NotFound \<Rightarrow> write_file d p b
      | Inl e \<Rightarrow> Inl e)"

text \<open>
  The answer of \<open>git rev-parse --absolute-git-dir\<close> in a directory, trimmed, or \<open>None\<close> where git
  fails, is a parameter \<open>git_dir\<close>.
\<close>

definition ensure_git_exclude :: "(str \<Rightarrow> str option) \<Rightarrow> str \<Rightarrow> str \<Rightarrow> disk \<Rightarrow> disk" where
  "ensure_git_exclude git_dir working_dir entry d =
     (case git_dir working_dir of
        None \<Rightarrow> d
      | Some g \<Rightarrow>
          (let exclude_dir = path_join g ''info'';
               exclude_path = components (path_join exclude_dir ''exclude'');
               needs_append =
                 (if path_exists d exclude_path then
                    (case read_to_string d exclude_path of
                       Inl _ \<Rightarrow> True
                     | Inr c \<Rightarrow> \<not> list_ex (\<lambda>line. trim line = entry) (str_lines c))
                  else True)
           in if needs_append then
                (let d1 = (case create_dir_all d (components exclude_dir) of Inl _ \<Rightarrow> d | Inr d1 \<Rightarrow> d1)
                 in case append_file d1 exclude_path ([NL] @ entry @ [NL]) of
                      Inl _ \<Rightarrow> d1
                    | Inr d2 \<Rightarrow> d2)
              else d))"

definition ensure_agent_dir :: "(str \<Rightarrow> str option) \<Rightarrow> str \<Rightarrow> disk \<Rightarrow> disk \<times> str" where
  "ensure_agent_dir git_dir working_dir d =
     (let agent_dir = path_join working_dir ''.agent'';
          d1 = (case create_dir_all d (components agent_dir) of Inl _ \<Rightarrow> d | Inr d1 \<Rightarrow> d1)
      in (ensure_git_exclude git_dir working_dir ''.agent/'' d1, agent_dir))"

definition truncate_and_persist ::
    "(str \<Rightarrow> str option) \<Rightarrow> str \<Rightarrow> nat \<Rightarrow> nat \<Rightarrow> str \<Rightarrow> str \<Rightarrow> disk \<Rightarrow> disk \<times> str" where
  "truncate_and_persist git_dir out max_lines max_bytes working_dir call_id d =
     (if length (str_lines out) \<le> max_lines \<and> length out \<le> max_bytes then (d, out)
      else
        let truncated = truncate_output out max_lines max_bytes in
        case ensure_agent_dir git_dir working_dir d of
          (d1, base) \<Rightarrow>
            (let agent_dir = path_join base ''tool-output'' in
             case create_dir_all d1 (components agent_dir) of
               Inl _ \<Rightarrow> (d1, truncated)
             | Inr d2 \<Rightarrow>
                 (let temp_path = path_join agent_dir (call_id @ ''.txt'') in
                  case write_file d2 (components temp_path) out of
                    Inl _ \<Rightarrow> (d2, truncated)
                  | Inr d3 \<Rightarrow>
                      (d3, truncated @ [NL] @ ''Full output saved to '' @ temp_path
                             @ ''. Use the read tool to view specific sections.''))))"

section \<open>The write tool\<close>

definition io_text :: "ioerr \<Rightarrow> str" where
  "io_text e = (case e of NotFound \<Rightarrow> ''No such file or directory (os error 2)'' | OtherIo \<Rightarrow> ''I/O error'')"

definition write_execute :: "json \<Rightarrow> tool_context \<Rightarrow> world \<Rightarrow> world \<times> (str + tool_result)" where
  "write_execute args cx w =
     (case json_get_str args ''filePath'' of
        None \<Rightarrow> (w, Inl (missing_param ''filePath''))
      | Some file_path \<Rightarrow>
     (case json_get_str args ''content'' of
        None \<Rightarrow> (w, Inl (missing_param ''content''))
      | Some content \<Rightarrow>
          (let p = resolve_path (cx_working_dir cx) file_path in
           case (case path_parent (components p) of
                   None \<Rightarrow> Inr (w_disk w)
                 | Some up \<Rightarrow> create_dir_all (w_disk w) up) of
             Inl e \<Rightarrow> (w, Inl (''Failed to create parent directories: '' @ io_text e))
           | Inr d1 \<Rightarrow>
               (let w1 = ctx_checkpoint cx p (w\<lparr>w_disk := d1\<rparr>) in
                case write_file (w_disk w1) (components p) content of
                  Inl e \<Rightarrow> (w1, Inl (''Failed to write file: '' @ io_text e))
                | Inr d2 \<Rightarrow>
                    (w1\<lparr>w_disk := d2\<rparr>,
                     Inr (tool_success
                       (''Wrote '' @ to_decimal (length content) @ '' bytes to '' @ p)))))))"

end
