(* ===== verification/ToolFacts.thy ===== *)
theory ToolFacts
  imports Tools CheckpointUndo
begin

text \<open>
  Facts about the shared tool helpers: how much of a long output survives truncation, what the
  working directory test decides on disks without links, where it can be fooled, and that the
  \<open>write\<close> tool is one step of the runs that a restore undoes.
\<close>

section \<open>Character boundaries\<close>

lemma floor_down_le: "floor_down s n \<le> n"
  by (induction n) auto

lemma floor_down_boundary: "is_char_boundary s (floor_down s n)"
  by (induction n) auto

lemma floor_down_max: "is_char_boundary s k \<Longrightarrow> k \<le> n \<Longrightarrow> k \<le> floor_down s n"
  by (induction n) (auto simp: le_Suc_eq)

lemma floor_char_boundary_le [str_len]: "floor_char_boundary s n \<le> n"
  by (auto simp: floor_char_boundary_def floor_down_le)

lemma floor_char_boundary_len [str_len]: "floor_char_boundary s n \<le> length s"
  using floor_down_le [of s n] by (auto simp: floor_char_boundary_def)

lemma floor_char_boundary_ok: "is_char_boundary s (floor_char_boundary s n)"
  by (simp add: floor_char_boundary_def floor_down_boundary) (simp add: is_char_boundary_def)

text \<open>\<open>floor_char_boundary\<close> gives the largest character boundary up to the target, so that
  \<open>truncate_str\<close> never cuts a character and keeps as many bytes as that allows.\<close>

theorem floor_char_boundary_greatest:
  "is_char_boundary s (floor_char_boundary s n) \<and> length (truncate_str s n) \<le> n
   \<and> (is_char_boundary s k \<and> k \<le> n \<longrightarrow> k \<le> length (truncate_str s n))"
proof -
  have "k \<le> floor_char_boundary s n" if "is_char_boundary s k" "k \<le> n"
    using floor_down_max [OF that] is_char_boundary_le [OF that(1)]
    by (simp add: floor_char_boundary_def)
  then show ?thesis
    using floor_char_boundary_ok floor_char_boundary_le [of s n] floor_char_boundary_len [of s n]
    by (auto simp: truncate_str_def)
qed

theorem floor_char_boundary_greatest_witness:
  "length (truncate_str [CHR ''a'', CHR 0xC3, CHR 0xA9] 2) = 1"
  using floor_char_boundary_greatest [of "[CHR ''a'', CHR 0xC3, CHR 0xA9]" 2 1]
  by (simp add: truncate_str_def floor_char_boundary_def numeral_2_eq_2 is_char_boundary_def is_cont_byte_def)

section \<open>Truncated outputs\<close>

lemma truncate_loop_spec:
  assumes "byte_count = length (join [NL] pre)" and "length pre \<le> max_lines"
    and "length (join [NL] pre) \<le> max_bytes"
  shows "\<exists>k \<le> length ls. let kept = join [NL] (pre @ take k ls) in
     length pre + k \<le> max_lines \<and> length kept \<le> max_bytes \<and>
     truncate_loop max_lines max_bytes nl nb ls (length pre) byte_count (join [NL] pre) =
       kept @ (if k = length ls then [] else truncation_note (length pre + k) nl (length kept) nb)"
  using assms
proof (induction ls arbitrary: pre byte_count)
  case Nil
  then show ?case by simp
next
  case (Cons l ls)
  show ?case
  proof (cases "max_lines \<le> length pre \<or> max_bytes < byte_count + length l + 1")
    case True
    with Cons.prems show ?thesis by (intro exI [of _ 0]) (simp add: Let_def)
  next
    case False
    have j: "join [NL] (pre @ [l]) = (if pre = [] then l else join [NL] pre @ [NL] @ l)"
      by (cases "pre = []") (simp_all add: join_append)
    have "\<exists>k \<le> length ls. let kept = join [NL] ((pre @ [l]) @ take k ls) in
       length (pre @ [l]) + k \<le> max_lines \<and> length kept \<le> max_bytes \<and>
       truncate_loop max_lines max_bytes nl nb ls (length (pre @ [l])) (length (join [NL] (pre @ [l])))
           (join [NL] (pre @ [l])) =
         kept @ (if k = length ls then [] else truncation_note (length (pre @ [l]) + k) nl (length kept) nb)"
      using False Cons.prems(1) by (intro Cons.IH) (auto simp: j)
    then obtain k where "k \<le> length ls" and k: "let kept = join [NL] ((pre @ [l]) @ take k ls) in
       length (pre @ [l]) + k \<le> max_lines \<and> length kept \<le> max_bytes \<and>
       truncate_loop max_lines max_bytes nl nb ls (length (pre @ [l])) (length (join [NL] (pre @ [l])))
           (join [NL] (pre @ [l])) =
         kept @ (if k = length ls then [] else truncation_note (length (pre @ [l]) + k) nl (length kept) nb)"
      by blast
    moreover have "truncate_loop max_lines max_bytes nl nb (l # ls) (length pre) byte_count (join [NL] pre) =
        truncate_loop max_lines max_bytes nl nb ls (length (pre @ [l])) (length (join [NL] (pre @ [l])))
           (join [NL] (pre @ [l]))"
      using False Cons.prems(1) by (simp add: j)
    ultimately show ?thesis by (intro exI [of _ "Suc k"]) (simp add: Let_def)
  qed
qed

text \<open>An output over a limit is cut to its first \<open>k\<close> whole lines, which respect both limits; when
  lines are left out, a note follows that gives the number of lines and bytes kept and their
  totals.\<close>

theorem truncate_output_keeps_prefix:
  assumes "max_lines < length (str_lines out) \<or> max_bytes < length out"
  shows "\<exists>k. k \<le> length (str_lines out) \<and> k \<le> max_lines
     \<and> length (join [NL] (take k (str_lines out))) \<le> max_bytes
     \<and> truncate_output out max_lines max_bytes =
         join [NL] (take k (str_lines out)) @
         (if k = length (str_lines out) then []
          else truncation_note k (length (str_lines out))
                 (length (join [NL] (take k (str_lines out)))) (length out))"
proof -
  from assms have over: "\<not> (length (str_lines out) \<le> max_lines \<and> length out \<le> max_bytes)" by auto
  have eq: "truncate_output out max_lines max_bytes =
      truncate_loop max_lines max_bytes (length (str_lines out)) (length out) (str_lines out) 0 0 []"
    by (simp only: truncate_output_def Let_def over if_False)
  from truncate_loop_spec [of 0 "[]" max_lines max_bytes "str_lines out" "length (str_lines out)" "length out"]
  obtain k where "k \<le> length (str_lines out)" and "k \<le> max_lines"
    and "length (join [NL] (take k (str_lines out))) \<le> max_bytes"
    and "truncate_loop max_lines max_bytes (length (str_lines out)) (length out) (str_lines out) 0 0 [] =
         join [NL] (take k (str_lines out)) @
         (if k = length (str_lines out) then []
          else truncation_note k (length (str_lines out))
                 (length (join [NL] (take k (str_lines out)))) (length out))"
    by (auto simp: Let_def)
  then show ?thesis unfolding eq by blast
qed

theorem truncate_output_keeps_prefix_witness:
  "truncate_output (''ab'' @ [NL] @ ''cd'') 1 100 \<noteq> ''ab'' @ [NL] @ ''cd''"
proof -
  have ls: "str_lines (''ab'' @ [NL] @ ''cd'') = [''ab'', ''cd'']"
    using str_lines_step [of "''ab''" "''cd''"] str_lines_last [of "''cd''"] by (simp add: strip_cr_def)
  have "(1 :: nat) < length (str_lines (''ab'' @ [NL] @ ''cd'')) \<or> 100 < length (''ab'' @ [NL] @ ''cd'')"
    unfolding ls by simp
  from truncate_output_keeps_prefix [OF this, unfolded ls]
  obtain k where k: "k \<le> 1" and eq: "truncate_output (''ab'' @ [NL] @ ''cd'') 1 100 =
      join [NL] (take k [''ab'', ''cd'']) @ (if k = length [''ab'', ''cd''] then [] else
      truncation_note k (length [''ab'', ''cd'']) (length (join [NL] (take k [''ab'', ''cd''])))
        (length (''ab'' @ [NL] @ ''cd'')))"
    by blast
  show ?thesis
    unfolding eq using k by (cases k) (auto simp: truncation_note_def)
qed

section \<open>The working directory test\<close>

lemma stat_plain_cases:
  assumes "plain_disk d"
  obtains e where "d l = None" and "stat d (abs_path l) = Inl e"
  | n where "d l = Some n" and "stat d (abs_path l) = Inr (l, n)"
proof (cases "d l")
  case None
  then have "stat d (abs_path l) \<noteq> Inr x" for x using stat_plain [OF assms] by simp
  then obtain e where "stat d (abs_path l) = Inl e" by (cases "stat d (abs_path l)") auto
  with None that show ?thesis by blast
next
  case (Some n)
  with stat_plain [OF assms] have "stat d (abs_path l) = Inr (l, n)" by simp
  with Some that show ?thesis by blast
qed

lemma canonicalize_plain:
  "plain_disk d \<Longrightarrow> canonicalize d (abs_path l) = (if d l = None then None else Some (abs_path l))"
  by (rule stat_plain_cases [of d l]) (simp_all add: canonicalize_def abs_path_def)

lemma path_exists_plain: "plain_disk d \<Longrightarrow> path_exists d (abs_path l) \<longleftrightarrow> d l \<noteq> None"
  by (rule stat_plain_cases [of d l]) (simp_all add: path_exists_def)

lemma path_starts_with_abs: "path_starts_with (abs_path l) (abs_path k) \<longleftrightarrow> take (length k) l = k"
proof -
  have "inj Normal" by (simp add: inj_def)
  then show ?thesis by (simp add: path_starts_with_def abs_path_def take_map)
qed

lemma ancestor_inside_plain:
  assumes "plain_disk d" and "d wd \<noteq> None"
  shows "ancestor_inside d (abs_path wd) (abs_path l) \<longleftrightarrow> take (length wd) l = wd"
proof (induction l rule: rev_induct)
  case Nil
  then show ?case
    using assms by (subst ancestor_inside.simps)
      (simp add: path_exists_plain canonicalize_plain path_starts_with_abs)
next
  case (snoc n l)
  show ?case
  proof (cases "d (l @ [n]) = None")
    case True
    with assms(2) have "l @ [n] \<noteq> wd" by auto
    then have "take (length wd) (l @ [n]) = wd \<longleftrightarrow> take (length wd) l = wd"
      by (cases "length wd \<le> length l") (auto simp: take_Cons')
    with True assms(1) snoc show ?thesis
      by (subst ancestor_inside.simps) (simp add: path_exists_plain path_parent_abs)
  next
    case False
    then obtain y where "d (l @ [n]) = Some y" by auto
    with assms(1) show ?thesis
      by (subst ancestor_inside.simps) (simp add: path_exists_plain canonicalize_plain path_starts_with_abs)
  qed
qed

text \<open>On a disk without links, for a path that has no \<open>..\<close> in it, the working directory test accepts
  exactly the paths in the working directory, existing or not.\<close>

theorem working_dir_test_exact:
  assumes "plain_disk d" and "d wd \<noteq> None" and "components working_dir = abs_path wd"
    and "components resolved = abs_path l"
  shows "is_path_within_working_dir d working_dir resolved \<longleftrightarrow> take (length wd) l = wd"
  unfolding is_path_within_working_dir_def assms(3,4)
    canonicalize_plain [OF assms(1)] path_exists_plain [OF assms(1)]
  using assms(2) by (auto simp: ancestor_inside_plain [OF assms(1,2)] path_starts_with_abs)

theorem working_dir_test_exact_witness:
  "is_path_within_working_dir (demo_disk ''v'') ''/p'' ''/p/n/x''
   \<and> \<not> is_path_within_working_dir (demo_disk ''v'') ''/p'' ''/q''"
proof -
  have c: "components ''/p'' = abs_path [''p'']" "components ''/q'' = abs_path [''q'']"
    "components ''/p/n/x'' = abs_path [''p'', ''n'', ''x'']"
    by (simp_all add: components_def component_of_def abs_path_def)
  have "demo_disk ''v'' [''p''] \<noteq> None" by (simp add: demo_disk_def)
  then show ?thesis
    using working_dir_test_exact [OF demo_disk_plain _ c(1,3)]
      working_dir_test_exact [OF demo_disk_plain _ c(1,2)] by simp
qed

section \<open>The write tool\<close>

text \<open>A context for the examples: the project is \<open>/p\<close>, checkpoints are on.\<close>

definition demo_context :: tool_context where
  "demo_context = \<lparr>cx_working_dir = ''/p'', cx_session_id = ''s'', cx_tool_call_id = ''c'',
     cx_checkpoint_on = True, cx_checkpoint_turn = 1, cx_policy = default_policy\<rparr>"

lemma w_disk_ctx_checkpoint [simp]: "w_disk (ctx_checkpoint cx p v) = w_disk v"
  by (simp add: ctx_checkpoint_def split: sum.splits)

lemma write_execute_success:
  assumes "write_execute args cx w = (w', Inr r)"
  obtains fp content d1 d2 where "json_get_str args ''filePath'' = Some fp"
    and "json_get_str args ''content'' = Some content"
    and "(case path_parent (components (resolve_path (cx_working_dir cx) fp)) of
            None \<Rightarrow> Inr (w_disk w) | Some up \<Rightarrow> create_dir_all (w_disk w) up) = Inr d1"
    and "write_file d1 (components (resolve_path (cx_working_dir cx) fp)) content = Inr d2"
    and "w' = (ctx_checkpoint cx (resolve_path (cx_working_dir cx) fp) (w\<lparr>w_disk := d1\<rparr>))\<lparr>w_disk := d2\<rparr>"
    and "\<not> tr_is_error r"
proof -
  have disk: "w_disk (ctx_checkpoint cx p v) = w_disk v" for p v
    by (simp add: ctx_checkpoint_def split: sum.splits)
  from assms that show ?thesis
    by (auto simp: write_execute_def Let_def disk tool_success_def split: option.splits sum.splits)
qed

text \<open>The \<open>write\<close> tool on a path without \<open>..\<close> sets the contents of that file to the argument and
  changes no other file; with checkpoints on and the backup taken, it is a step of the runs that
  \<open>restore_to\<close> undoes.\<close>

theorem write_execute_is_edit_step:
  assumes "write_execute args cx w = (w', Inr r)" and "plain_disk (w_disk w)"
    and "json_get_str args ''filePath'' = Some fp" and "json_get_str args ''content'' = Some content"
    and "resolve_path (cx_working_dir cx) fp = loc_str l" and "components (loc_str l) = abs_path l"
    and "l \<noteq> []" and "cx_checkpoint_on cx"
  shows "file_at (w_disk w') = (file_at (w_disk w))(l \<mapsto> content) \<and> plain_disk (w_disk w')
    \<and> ((\<exists>d1 e. file_at d1 = file_at (w_disk w) \<and> w_store w' = w_store w
          \<and> backup_file (w_store w) d1 (cx_session_id cx) (cx_checkpoint_turn cx) (loc_str l) = Inl e)
       \<or> (\<forall>target st0 d0 t K. edit_run (cx_session_id cx) target st0 d0 t (w_store w) (w_disk w) K
            \<and> t \<le> cx_checkpoint_turn cx \<and> target < cx_checkpoint_turn cx \<longrightarrow>
            edit_run (cx_session_id cx) target st0 d0 (cx_checkpoint_turn cx) (w_store w') (w_disk w') (insert l K)))"
proof -
  from assms(1) obtain d1 d2 where
      d1: "(case path_parent (abs_path l) of None \<Rightarrow> Inr (w_disk w)
              | Some up \<Rightarrow> create_dir_all (w_disk w) up) = Inr d1"
    and d2: "write_file d1 (abs_path l) content = Inr d2"
    and w': "w' = (ctx_checkpoint cx (loc_str l) (w\<lparr>w_disk := d1\<rparr>))\<lparr>w_disk := d2\<rparr>"
    by (rule write_execute_success) (use assms(3-6) in auto)
  from d1 assms(7) have "create_dir_all (w_disk w) (abs_path (butlast l)) = Inr d1"
    by (simp add: path_parent_abs)
  from create_dir_all_any [OF assms(2) this] only_dirs_added_file_at
  have p1: "plain_disk d1" and f1: "file_at d1 = file_at (w_disk w)" by blast+
  have p2: "plain_disk d2" using plain_write [OF p1 d2] .
  have f2: "file_at d2 = (file_at (w_disk w))(l \<mapsto> content)"
    using d2 f1 by (simp add: write_file_plain [OF p1])
  have disk': "w_disk w' = d2" by (simp add: w')
  show ?thesis
  proof (cases "backup_file (w_store w) d1 (cx_session_id cx) (cx_checkpoint_turn cx) (loc_str l)")
    case (Inl e)
    then have "w_store w' = w_store w" by (simp add: w' ctx_checkpoint_def)
    with Inl disk' p2 f1 f2 show ?thesis by blast
  next
    case (Inr st')
    then have st': "w_store w' = st'" using assms(8) by (simp add: w' ctx_checkpoint_def)
    have "edit_run (cx_session_id cx) target st0 d0 (cx_checkpoint_turn cx) st' d2 (insert l K)"
      if "edit_run (cx_session_id cx) target st0 d0 t (w_store w) (w_disk w) K"
        and "t \<le> cx_checkpoint_turn cx" and "target < cx_checkpoint_turn cx" for target st0 d0 t K
      using edit_run.edit [OF edit_run.dirs [OF that(1) p1 f1] that(2,3) assms(7,6) Inr p2] f1 f2 by simp
    with disk' st' p2 f2 show ?thesis by (simp only:) blast
  qed
qed


lemmas eval_fs = path_exists_def stat_def need_dir_def follow_def canonicalize_def is_dir_def
  mkdir_def entry_of_def path_parent_def path_starts_with_def demo_disk_def

theorem write_execute_is_edit_step_witness:
  "file_at (w_disk (fst (write_execute (JObj [(''filePath'', JStr ''a''), (''content'', JStr ''y'')])
      demo_context \<lparr>w_disk = demo_disk ''v'', w_store = (\<lambda>_. None)\<rparr>))) [''p'', ''a''] = Some ''y''"
proof -
  let ?args = "JObj [(''filePath'', JStr ''a''), (''content'', JStr ''y'')]"
  let ?w = "\<lparr>w_disk = demo_disk ''v'', w_store = (\<lambda>_. None)\<rparr>"
  have p: "resolve_path ''/p'' ''a'' = ''/p/a''"
    by (simp add: resolve_path_def path_join_def is_absolute_def)
  have c: "components ''/p/a'' = [RootDir, Normal ''p'', Normal ''a'']"
    by (simp add: demo_components abs_path_def)
  have mk: "create_dir_all (demo_disk ''v'') [RootDir, Normal ''p''] = Inr (demo_disk ''v'')"
    by (subst create_dir_all.simps) (simp add: eval_fs)
  have wr: "\<exists>d. write_file (demo_disk ''v'') [RootDir, Normal ''p'', Normal ''a''] ''y'' = Inr d"
    by (simp add: write_file_def eval_fs)
  have "\<exists>r. snd (write_execute ?args demo_context ?w) = Inr r"
    using mk wr by (auto simp: demo_context_def p write_execute_def json_get_str_def c path_parent_def Let_def)
  then obtain r where "write_execute ?args demo_context ?w =
      (fst (write_execute ?args demo_context ?w), Inr r)"
    by (metis prod.collapse)
  from write_execute_is_edit_step [OF this, of "''a''" "''y''" "[''p'', ''a'']"] show ?thesis
    by (simp add: demo_disk_plain json_get_str_def demo_context_def p loc_str_def demo_components)
qed

section \<open>A way around the working directory test\<close>

lemma demo_dotdot_components:
  "components ''/p/n/../../x'' = [RootDir, Normal ''p'', Normal ''n'', ParentDir, ParentDir, Normal ''x'']"
  by (simp add: components_def component_of_def)

lemma demo_dotdot_accepted:
  "is_path_within_working_dir (demo_disk b) ''/p'' ''/p/n/../../x''"
proof -
  have c: "components ''/p'' = [RootDir, Normal ''p'']"
    by (simp add: components_def component_of_def)
  show ?thesis
    unfolding is_path_within_working_dir_def c demo_dotdot_components
    by (simp add: ancestor_inside.simps eval_fs)
qed

lemma demo_dotdot_made:
  "create_dir_all (demo_disk b) [RootDir, Normal ''p'', Normal ''n'', ParentDir, ParentDir] =
     Inr ((demo_disk b)([''p'', ''n''] \<mapsto> NDir))"
  by (simp add: create_dir_all.simps eval_fs)

text \<open>The test can be passed by a path that leaves the working directory: when \<open>n\<close> does not exist,
  \<open>n/../../x\<close> is judged by its nearest existing ancestor, the working directory itself; the
  \<open>write\<close> tool then makes \<open>n\<close> and writes the file \<open>x\<close> beside the working directory.\<close>

theorem write_tool_leaves_working_dir:
  "is_path_within_working_dir (demo_disk b) (cx_working_dir demo_context)
       (resolve_path (cx_working_dir demo_context) ''n/../../x'')
   \<and> file_at (w_disk (fst (write_execute
         (JObj [(''filePath'', JStr ''n/../../x''), (''content'', JStr content)])
         demo_context \<lparr>w_disk = demo_disk b, w_store = st\<rparr>))) [''x''] = Some content"
proof -
  have p: "resolve_path ''/p'' ''n/../../x'' = ''/p/n/../../x''"
    by (simp add: resolve_path_def path_join_def is_absolute_def)
  have "write_file ((demo_disk b)([''p'', ''n''] \<mapsto> NDir))
      [RootDir, Normal ''p'', Normal ''n'', ParentDir, ParentDir, Normal ''x''] content =
      Inr ((demo_disk b)([''p'', ''n''] \<mapsto> NDir, [''x''] \<mapsto> NFile content))"
    by (simp add: write_file_def eval_fs)
  then show ?thesis
    using demo_dotdot_accepted [of b] demo_dotdot_made [of b]
    by (simp add: demo_context_def p write_execute_def json_get_str_def demo_dotdot_components
        path_parent_def file_at_def Let_def)
qed

end
