(* ===== verification/EditTool.thy ===== *)
theory EditTool
  imports Tools
begin

text \<open>
  The \<open>edit\<close> tool of \<open>crates/agent/src/tool/edit.rs\<close>: the text replacement with its eight
  matching strategies, tried from exact to fuzzy, and the handler. Two third-party functions are
  parameters: \<open>sim\<close>, whether \<open>strsim::normalized_levenshtein\<close> of two strings is at least 0.7, and
  \<open>ws_regex\<close>, the regular expression compiled from words joined by \<open>\s+\<close> (\<open>None\<close> where it does not
  compile) as the function that gives the first match in a line. Slicing inside a character, where
  the code panics, is the value \<open>None\<close>.
\<close>

section \<open>Line endings\<close>

definition CRLF :: str where
  "CRLF = [CR, NL]"

definition detect_crlf :: "str \<Rightarrow> bool" where
  "detect_crlf content = contains (take (floor_char_boundary content 1000) content) CRLF"

definition normalize_lf :: "str \<Rightarrow> str" where
  "normalize_lf s = replace_sub s CRLF [NL]"

definition to_crlf :: "str \<Rightarrow> str" where
  "to_crlf s = replace_sub (normalize_lf s) [NL] CRLF"

section \<open>Strategies\<close>

definition count_occurrences :: "str \<Rightarrow> str \<Rightarrow> nat" where
  "count_occurrences haystack needle = (if needle = [] then 0 else count_sub haystack needle)"

definition exact_replacer :: "str \<Rightarrow> str \<Rightarrow> str list" where
  "exact_replacer content pat = (if contains content pat then [pat] else [])"

definition normalize_whitespace :: "str \<Rightarrow> str" where
  "normalize_whitespace text = join [SP] (split_whitespace text)"

text \<open>The windows of \<open>n\<close> lines, in order.\<close>

definition windows :: "nat \<Rightarrow> str list \<Rightarrow> str list list" where
  "windows n ls =
     (if length ls < n then [] else map (\<lambda>start. take n (drop start ls)) [0..<length ls - n + 1])"

fun single_line_candidates ::
    "(str \<Rightarrow> str option) option \<Rightarrow> str \<Rightarrow> str list \<Rightarrow> str list" where
  "single_line_candidates re find_normalized [] = []"
| "single_line_candidates re find_normalized (line # ls) =
     (let line_normalized = normalize_whitespace line in
      if line_normalized = find_normalized then [line]
      else if contains line_normalized find_normalized then
        (case re of None \<Rightarrow> [] | Some f \<Rightarrow> (case f line of None \<Rightarrow> [] | Some m \<Rightarrow> [m]))
      else [])
     @ single_line_candidates re find_normalized ls"

definition single_line_whitespace_match ::
    "(str list \<Rightarrow> (str \<Rightarrow> str option) option) \<Rightarrow> str \<Rightarrow> str \<Rightarrow> str list" where
  "single_line_whitespace_match ws_regex content find_normalized =
     single_line_candidates (ws_regex (split_char SP find_normalized)) find_normalized (str_lines content)"

definition multi_line_whitespace_match :: "str \<Rightarrow> str \<Rightarrow> nat \<Rightarrow> str list" where
  "multi_line_whitespace_match content find_normalized n =
     filter (\<lambda>w. normalize_whitespace w = find_normalized)
       (map (join [NL]) (windows n (str_lines content)))"

definition whitespace_normalized_replacer ::
    "(str list \<Rightarrow> (str \<Rightarrow> str option) option) \<Rightarrow> str \<Rightarrow> str \<Rightarrow> str list" where
  "whitespace_normalized_replacer ws_regex content pat =
     (let find_normalized = normalize_whitespace pat; n = length (str_lines pat) in
      if find_normalized = [] then []
      else if n \<le> 1 then single_line_whitespace_match ws_regex content find_normalized
      else multi_line_whitespace_match content find_normalized n)"

definition line_trimmed_replacer :: "str \<Rightarrow> str \<Rightarrow> str list" where
  "line_trimmed_replacer content pat =
     (let find_lines = str_lines pat in
      if find_lines = [] then []
      else map (join [NL])
             (filter (\<lambda>w. map trim w = map trim find_lines)
               (windows (length find_lines) (str_lines content))))"

definition block_anchor_replacer :: "(str \<Rightarrow> str \<Rightarrow> bool) \<Rightarrow> str \<Rightarrow> str \<Rightarrow> str list" where
  "block_anchor_replacer sim content pat =
     (let find_lines = str_lines pat; n = length find_lines in
      if n < 3 then []
      else
        let anchor_size = min 2 (n div 2);
            first_anchor = join [NL] (take anchor_size find_lines);
            last_anchor = join [NL] (drop (n - anchor_size) find_lines)
        in map (join [NL])
             (filter (\<lambda>w. sim first_anchor (join [NL] (take anchor_size w))
                        \<and> sim last_anchor (join [NL] (drop (length w - anchor_size) w)))
               (windows n (str_lines content))))"

definition min_indent :: "str list \<Rightarrow> nat" where
  "min_indent ls =
     (case map (\<lambda>l. length l - length (trim_start l)) (filter (\<lambda>l. trim l \<noteq> []) ls) of
        [] \<Rightarrow> 0
      | n # ns \<Rightarrow> foldl min n ns)"

definition de_indent :: "str \<Rightarrow> str" where
  "de_indent text =
     (let ls = str_lines text; m = min_indent ls in
      join [NL] (map (\<lambda>l. if trim l = [] then [] else drop (floor_char_boundary l m) l) ls))"

definition indentation_flexible_replacer :: "str \<Rightarrow> str \<Rightarrow> str list" where
  "indentation_flexible_replacer content pat =
     (let n = length (str_lines pat) in
      if n = 0 then []
      else filter (\<lambda>w. de_indent w = de_indent pat)
             (map (join [NL]) (windows n (str_lines content))))"

definition normalize_escapes :: "str \<Rightarrow> str" where
  "normalize_escapes s =
     (let s1 = replace_sub s [BACKSLASH, CHR ''n''] [NL];
          s2 = replace_sub s1 [BACKSLASH, CHR ''t''] [TAB];
          s3 = replace_sub s2 [BACKSLASH, DQUOTE] [DQUOTE];
          s4 = replace_sub s3 [BACKSLASH, QUOTE] [QUOTE]
      in replace_sub s4 [BACKSLASH, BACKSLASH] [BACKSLASH])"

definition escape_normalized_replacer :: "str \<Rightarrow> str \<Rightarrow> str list" where
  "escape_normalized_replacer content pat =
     (let find_norm = normalize_escapes pat in
      if find_norm = pat then []
      else if contains content find_norm then [find_norm] else [])"

definition trimmed_boundary_replacer :: "str \<Rightarrow> str \<Rightarrow> str list" where
  "trimmed_boundary_replacer content pat =
     (let find_trimmed = trim_char NL pat in
      if find_trimmed = pat \<or> find_trimmed = [] then []
      else exact_replacer content find_trimmed)"

text \<open>The inner loop of \<open>context_aware_replacer\<close> tries \<open>j\<close> downwards, the outer loop \<open>i\<close> upwards.\<close>

fun last_match_down :: "(str \<Rightarrow> bool) \<Rightarrow> str list \<Rightarrow> nat \<Rightarrow> nat \<Rightarrow> nat option" where
  "last_match_down ok ls i 0 = None"
| "last_match_down ok ls i (Suc j) =
     (if j \<le> i then None else if ok (ls ! j) then Some j else last_match_down ok ls i j)"

fun context_scan ::
    "(str \<Rightarrow> str \<Rightarrow> bool) \<Rightarrow> str \<Rightarrow> str \<Rightarrow> nat \<Rightarrow> str list \<Rightarrow> nat list \<Rightarrow> str list" where
  "context_scan sim first_a last_a max_span ls [] = []"
| "context_scan sim first_a last_a max_span ls (i # is) =
     (if sim first_a (trim (ls ! i)) then
        (case last_match_down (\<lambda>l. sim last_a (trim l)) ls i (min (length ls) (i + max_span)) of
           Some j \<Rightarrow> [join [NL] (drop i (take (Suc j) ls))]
         | None \<Rightarrow> context_scan sim first_a last_a max_span ls is)
      else context_scan sim first_a last_a max_span ls is)"

definition context_aware_replacer :: "(str \<Rightarrow> str \<Rightarrow> bool) \<Rightarrow> str \<Rightarrow> str \<Rightarrow> str list" where
  "context_aware_replacer sim content pat =
     (let anchors = filter (\<lambda>l. trim l \<noteq> []) (str_lines pat);
          content_lines = str_lines content;
          max_span = length (str_lines pat) + 5
      in if length anchors < 2 then []
         else context_scan sim (trim (hd anchors)) (trim (last anchors)) max_span content_lines
                [0..<length content_lines])"

section \<open>Replacing\<close>

text \<open>The strategies in the order of the table in \<open>replace\<close>, applied to the text and the search.\<close>

definition strategies ::
    "(str \<Rightarrow> str \<Rightarrow> bool) \<Rightarrow> (str list \<Rightarrow> (str \<Rightarrow> str option) option) \<Rightarrow> str \<Rightarrow> str \<Rightarrow> str list list" where
  "strategies sim ws_regex content pat =
     [exact_replacer content pat,
      line_trimmed_replacer content pat,
      block_anchor_replacer sim content pat,
      whitespace_normalized_replacer ws_regex content pat,
      indentation_flexible_replacer content pat,
      escape_normalized_replacer content pat,
      trimmed_boundary_replacer content pat,
      context_aware_replacer sim content pat]"

fun try_candidates :: "str \<Rightarrow> str \<Rightarrow> bool \<Rightarrow> str list \<Rightarrow> str option" where
  "try_candidates content new_lf replace_all [] = None"
| "try_candidates content new_lf replace_all (c # cs) =
     (let count = count_occurrences content c in
      if count = 0 then try_candidates content new_lf replace_all cs
      else if replace_all then Some (replace_sub content c new_lf)
      else if count = 1 then Some (replace_first content c new_lf)
      else try_candidates content new_lf replace_all cs)"

fun try_strategies :: "str \<Rightarrow> str \<Rightarrow> bool \<Rightarrow> str list list \<Rightarrow> str option" where
  "try_strategies content new_lf replace_all [] = None"
| "try_strategies content new_lf replace_all (cs # css) =
     (case try_candidates content new_lf replace_all cs of
        Some r \<Rightarrow> Some r
      | None \<Rightarrow> try_strategies content new_lf replace_all css)"

definition location_line :: "nat \<Rightarrow> str \<Rightarrow> str" where
  "location_line line_num preview =
     ''  Line '' @ to_decimal line_num @ '': '' @ replace_sub preview [NL] [BACKSLASH, CHR ''n''] @ ''...''"

text \<open>Up to \<open>k\<close> more locations of a candidate, searching from an offset.\<close>

fun candidate_locations :: "nat \<Rightarrow> str \<Rightarrow> str \<Rightarrow> nat \<Rightarrow> str list option" where
  "candidate_locations 0 content c search_from = Some []"
| "candidate_locations (Suc k) content c search_from =
     (case find_sub (drop search_from content) c of
        None \<Rightarrow> Some []
      | Some pos \<Rightarrow>
          (let abs_pos = search_from + pos;
               line_num = length (filter (\<lambda>x. x = NL) (take abs_pos content)) + 1
           in case slice content abs_pos (min (abs_pos + 60) (length content)) of
                None \<Rightarrow> None
              | Some preview \<Rightarrow>
                  map_option (\<lambda>rest. location_line line_num preview # rest)
                    (candidate_locations k content c (abs_pos + length c))))"

fun first_locations :: "str \<Rightarrow> str list \<Rightarrow> str list option" where
  "first_locations content [] = Some []"
| "first_locations content (c # cs) =
     (case candidate_locations 5 content c 0 of
        None \<Rightarrow> None
      | Some [] \<Rightarrow> first_locations content cs
      | Some ls \<Rightarrow> Some ls)"

definition no_match_msg :: str where
  "no_match_msg = ''No match found for the specified oldString in the file. Read the file again and copy the exact text you want to replace, including 2-3 surrounding lines for context.''"

definition multiple_matches_msg :: "str list \<Rightarrow> str" where
  "multiple_matches_msg locations =
     ''Multiple matches found for the specified oldString. Add more surrounding lines to oldString to make it unique, or use replaceAll=true.''
     @ (if locations = [] then [] else [NL] @ ''Match locations:'' @ [NL] @ join [NL] locations)"

definition empty_old_msg :: str where
  "empty_old_msg = ''Error: oldString must not be empty''"

text \<open>The em dash of the message in UTF-8.\<close>

definition identical_msg :: str where
  "identical_msg = ''Error: oldString and newString are identical '' @ [CHR 0xE2, CHR 0x80, CHR 0x94]
     @ '' no change needed''"

definition replace_text ::
    "(str \<Rightarrow> str \<Rightarrow> bool) \<Rightarrow> (str list \<Rightarrow> (str \<Rightarrow> str option) option)
      \<Rightarrow> str \<Rightarrow> str \<Rightarrow> str \<Rightarrow> bool \<Rightarrow> (str + str) option" where
  "replace_text sim ws_regex content old_string new_string replace_all =
     (if old_string = [] then Some (Inl empty_old_msg)
      else if old_string = new_string then Some (Inl identical_msg)
      else
        let is_crlf = detect_crlf content;
            content_lf = normalize_lf content;
            old_lf = normalize_lf old_string;
            new_lf = normalize_lf new_string;
            css = strategies sim ws_regex content_lf old_lf
        in case try_strategies content_lf new_lf replace_all css of
             Some r \<Rightarrow> Some (Inr (if is_crlf then to_crlf r else r))
           | None \<Rightarrow>
               if list_all (\<lambda>cs. cs = []) css then Some (Inl no_match_msg)
               else map_option (\<lambda>ls. Inl (multiple_matches_msg ls))
                      (first_locations content_lf (concat css)))"

section \<open>The handler\<close>

definition bool_arg :: "json \<Rightarrow> str \<Rightarrow> bool" where
  "bool_arg args k = (case Option.bind (json_get args k) as_bool of None \<Rightarrow> False | Some b \<Rightarrow> b)"

definition edit_execute ::
    "(str \<Rightarrow> str \<Rightarrow> bool) \<Rightarrow> (str list \<Rightarrow> (str \<Rightarrow> str option) option)
      \<Rightarrow> json \<Rightarrow> tool_context \<Rightarrow> world \<Rightarrow> (world \<times> (str + tool_result)) option" where
  "edit_execute sim ws_regex args cx w =
     (case json_get_str args ''filePath'' of
        None \<Rightarrow> Some (w, Inl (missing_param ''filePath''))
      | Some file_path \<Rightarrow>
     (case json_get_str args ''oldString'' of
        None \<Rightarrow> Some (w, Inl (missing_param ''oldString''))
      | Some old_string \<Rightarrow>
     (case json_get_str args ''newString'' of
        None \<Rightarrow> Some (w, Inl (missing_param ''newString''))
      | Some new_string \<Rightarrow>
          (let replace_all = bool_arg args ''replaceAll'';
               p = resolve_path (cx_working_dir cx) file_path; cs = components p
           in if \<not> path_exists (w_disk w) cs then
                Some (w, Inr (tool_failure (''Error: File not found: '' @ p)))
              else if \<not> is_file (w_disk w) cs then
                Some (w, Inr (tool_failure (''Error: Path is not a file: '' @ p)))
              else case read_to_string (w_disk w) cs of
                Inl e \<Rightarrow> Some (w, Inl (''Failed to read file: '' @ io_text e))
              | Inr raw_content \<Rightarrow>
                  (case replace_text sim ws_regex raw_content old_string new_string replace_all of
                     None \<Rightarrow> None
                   | Some (Inl e) \<Rightarrow> Some (w, Inr (tool_failure e))
                   | Some (Inr new_content) \<Rightarrow>
                       (let w1 = ctx_checkpoint cx p w in
                        case write_file (w_disk w1) cs new_content of
                          Inl e \<Rightarrow> Some (w1, Inl (''Failed to write file: '' @ io_text e))
                        | Inr d2 \<Rightarrow>
                            Some (w1\<lparr>w_disk := d2\<rparr>,
                              Inr (tool_success (''Successfully edited '' @ p
                                @ (if replace_all then '' (all occurrences)'' else []))))))))))"

section \<open>Editing a plan file\<close>

text \<open>
  \<open>edit_plan\<close> of \<open>crates/agent/src/tool/edit_plan.rs\<close>. The names in the \<open>.agent\<close> directory, in the
  order in which the system lists them, are the parameter \<open>listing\<close>.
\<close>

definition plan_missing_dir_msg :: str where
  "plan_missing_dir_msg = ''No .agent/ directory found. No plan files to edit.''"

definition plan_none_msg :: str where
  "plan_none_msg = ''No plan files found in .agent/. Use save_plan to create one first.''"

definition is_plan_name :: "str \<Rightarrow> bool" where
  "is_plan_name n \<longleftrightarrow> starts_with n ''plan'' \<and> ends_with n ''.md''"

definition discover_plan_file :: "(ioerr + str list) \<Rightarrow> str \<Rightarrow> disk \<Rightarrow> str + str" where
  "discover_plan_file listing working_dir d =
     (let agent_dir = path_join working_dir ''.agent'' in
      if \<not> path_exists d (components agent_dir) then Inl plan_missing_dir_msg
      else case listing of
        Inl e \<Rightarrow> Inl (''Failed to read .agent/ directory: '' @ io_text e)
      | Inr names \<Rightarrow>
          (case filter is_plan_name names of
             [] \<Rightarrow> Inl plan_none_msg
           | [n] \<Rightarrow> Inr (path_join agent_dir n)
           | ns \<Rightarrow> Inl (''Multiple plan files found: '' @ join '', '' ns
                       @ ''. Specify file_path to choose one.'')))"

definition relative_to :: "str \<Rightarrow> str \<Rightarrow> str" where
  "relative_to working_dir p =
     (if path_starts_with (components p) (components working_dir)
      then join [SLASH] (map (\<lambda>c. case c of Normal n \<Rightarrow> n | ParentDir \<Rightarrow> ''..'' | CurDir \<Rightarrow> ''.'' | RootDir \<Rightarrow> [])
             (drop (length (components working_dir)) (components p)))
      else p)"

definition edit_plan_execute ::
    "(str \<Rightarrow> str \<Rightarrow> bool) \<Rightarrow> (str list \<Rightarrow> (str \<Rightarrow> str option) option) \<Rightarrow> (ioerr + str list)
      \<Rightarrow> json \<Rightarrow> tool_context \<Rightarrow> disk \<Rightarrow> (disk \<times> tool_result) option" where
  "edit_plan_execute sim ws_regex listing args cx d =
     (case json_get_str args ''old_text'' of
        None \<Rightarrow> Some (d, tool_failure ([QUOTE] @ ''old_text'' @ [QUOTE] @ '' is required and must be non-empty.''))
      | Some old_text \<Rightarrow>
          if old_text = [] then
            Some (d, tool_failure ([QUOTE] @ ''old_text'' @ [QUOTE] @ '' is required and must be non-empty.''))
          else
     (case json_get_str args ''new_text'' of
        None \<Rightarrow> Some (d, tool_failure ([QUOTE] @ ''new_text'' @ [QUOTE] @ '' is required.''))
      | Some new_text \<Rightarrow>
          if old_text = new_text then Some (d, tool_failure ''old_text and new_text are identical.'')
          else
     (case (case json_get_str args ''file_path'' of
              None \<Rightarrow> discover_plan_file listing (cx_working_dir cx) d
            | Some fp \<Rightarrow>
                if fp = [] then discover_plan_file listing (cx_working_dir cx) d
                else Inr (path_join (cx_working_dir cx) fp)) of
        Inl msg \<Rightarrow> Some (d, tool_failure msg)
      | Inr plan_path \<Rightarrow>
     (case read_to_string d (components plan_path) of
        Inl e \<Rightarrow> Some (d, tool_failure (''Failed to read plan file '' @ plan_path @ '': '' @ io_text e))
      | Inr content \<Rightarrow>
     (case replace_text sim ws_regex content old_text new_text False of
        None \<Rightarrow> None
      | Some (Inl err) \<Rightarrow> Some (d, tool_failure (''Edit failed in '' @ plan_path @ '': '' @ err))
      | Some (Inr updated) \<Rightarrow>
     (case write_file d (components plan_path) updated of
        Inl e \<Rightarrow> Some (d, tool_failure (''Failed to write plan file '' @ plan_path @ '': '' @ io_text e))
      | Inr d' \<Rightarrow>
          Some (d', \<lparr>tr_output = ''Plan updated: '' @ relative_to (cx_working_dir cx) plan_path
                       @ [NL, NL] @ updated,
                     tr_is_error = False, tr_yield_data = None,
                     tr_modified_files = [plan_path]\<rparr>)))))))"

end
