(* ===== verification/EditFacts.thy ===== *)
theory EditFacts
  imports EditTool ToolFacts
begin

text \<open>
  Facts about the \<open>edit\<close> tool: what a successful edit changes, that an exact unique match is what
  gets replaced, which blocks the indentation strategy finds, line endings, failures.
\<close>

section \<open>Successful edits\<close>

lemma try_candidates_Some:
  "try_candidates content new all cs = Some r \<Longrightarrow>
   \<exists>c \<in> set cs. c \<noteq> [] \<and> (if all then 0 < count_sub content c \<and> r = replace_sub content c new
       else count_sub content c = 1 \<and> r = replace_first content c new)"
proof (induction cs)
  case (Cons c cs)
  show ?case
  proof (cases "count_occurrences content c = 0 \<or> (\<not> all \<and> count_occurrences content c \<noteq> 1)")
    case True
    with Cons.prems have "try_candidates content new all cs = Some r"
      by (auto simp: Let_def split: if_splits)
    with Cons.IH show ?thesis by auto
  next
    case False
    then have "c \<noteq> []" by (auto simp: count_occurrences_def)
    with False Cons.prems show ?thesis
      by (auto simp: Let_def count_occurrences_def split: if_splits)
  qed
qed simp

lemma try_strategies_Some:
  "try_strategies content new all css = Some r \<Longrightarrow>
   \<exists>c \<in> set (concat css). c \<noteq> [] \<and> (if all then 0 < count_sub content c \<and> r = replace_sub content c new
       else count_sub content c = 1 \<and> r = replace_first content c new)"
proof (induction css)
  case (Cons cs css)
  show ?case
  proof (cases "try_candidates content new all cs")
    case None
    with Cons show ?thesis by (auto split: if_splits)
  next
    case (Some r')
    with Cons.prems have "try_candidates content new all cs = Some r" by simp
    from try_candidates_Some [OF this] show ?thesis by auto
  qed
qed simp

lemma replace_text_Inr:
  assumes "replace_text sim re content old new all = Some (Inr r)"
  obtains r' where "try_strategies (normalize_lf content) (normalize_lf new) all
      (strategies sim re (normalize_lf content) (normalize_lf old)) = Some r'"
    and "r = (if detect_crlf content then to_crlf r' else r')"
  using assms by (auto simp: replace_text_def Let_def split: if_splits option.splits)

text \<open>C4. A successful edit without \<open>replaceAll\<close> replaces one non-empty piece of the text that occurs
  exactly once (line endings normalised), whichever strategy found it, and leaves what is before and
  after it.\<close>

theorem replace_text_changes_one_place:
  assumes "replace_text sim re content old new False = Some (Inr r)"
  shows "\<exists>a c b. normalize_lf content = a @ c @ b \<and> c \<noteq> [] \<and> count_sub (normalize_lf content) c = 1
     \<and> r = (if detect_crlf content then to_crlf (a @ normalize_lf new @ b) else a @ normalize_lf new @ b)"
proof -
  from assms obtain r' where
      t: "try_strategies (normalize_lf content) (normalize_lf new) False
        (strategies sim re (normalize_lf content) (normalize_lf old)) = Some r'"
    and r: "r = (if detect_crlf content then to_crlf r' else r')"
    by (rule replace_text_Inr)
  from try_strategies_Some [OF t] obtain c where c: "c \<noteq> []" "count_sub (normalize_lf content) c = 1"
    and r': "r' = replace_first (normalize_lf content) c (normalize_lf new)"
    by auto
  from count_sub_1 [OF c, of "normalize_lf new"] r' obtain a b
    where "normalize_lf content = a @ c @ b" "r' = a @ normalize_lf new @ b" by metis
  with c r show ?thesis by blast
qed

theorem replace_text_changes_one_place_witness:
  "replace_text (\<lambda>_ _. False) (\<lambda>_. None) ''ab'' ''b'' ''c'' False = Some (Inr ''ac'') \<and>
   (\<exists>a c b. normalize_lf ''ab'' = a @ c @ b \<and> c \<noteq> [] \<and> count_sub (normalize_lf ''ab'') c = 1
     \<and> ''ac'' = (if detect_crlf ''ab'' then to_crlf (a @ normalize_lf ''c'' @ b) else a @ normalize_lf ''c'' @ b))"
proof -
  have r: "replace_text (\<lambda>_ _. False) (\<lambda>_. None) ''ab'' ''b'' ''c'' False = Some (Inr ''ac'')" by code_simp
  from replace_text_changes_one_place [OF r] r show ?thesis by blast
qed

text \<open>With \<open>replaceAll\<close>, a successful edit cuts the text at the occurrences of one non-empty piece
  and joins the parts with the new text.\<close>

theorem replace_text_changes_every_place:
  assumes "replace_text sim re content old new True = Some (Inr r)"
  shows "\<exists>c parts. c \<noteq> [] \<and> 2 \<le> length parts \<and> normalize_lf content = join c parts
     \<and> r = (if detect_crlf content then to_crlf (join (normalize_lf new) parts)
            else join (normalize_lf new) parts)"
proof -
  from assms obtain r' where
      t: "try_strategies (normalize_lf content) (normalize_lf new) True
        (strategies sim re (normalize_lf content) (normalize_lf old)) = Some r'"
    and r: "r = (if detect_crlf content then to_crlf r' else r')"
    by (rule replace_text_Inr)
  from try_strategies_Some [OF t] obtain c where c: "c \<noteq> []" "0 < count_sub (normalize_lf content) c"
    and r': "r' = replace_sub (normalize_lf content) c (normalize_lf new)"
    by auto
  have "normalize_lf content = join c (split_sub (normalize_lf content) c)"
    using c(1) by (simp add: join_split_sub)
  moreover have "2 \<le> length (split_sub (normalize_lf content) c)"
    using c(2) by (simp add: count_sub_def)
  ultimately show ?thesis using c(1) r r' by (auto simp: replace_sub_def)
qed

theorem replace_text_changes_every_place_witness:
  "replace_text (\<lambda>_ _. False) (\<lambda>_. None) ''xbxbx'' ''b'' ''cc'' True = Some (Inr ''xccxccx'') \<and>
   (\<exists>c parts. c \<noteq> [] \<and> 2 \<le> length parts \<and> normalize_lf ''xbxbx'' = join c parts)"
proof -
  have r: "replace_text (\<lambda>_ _. False) (\<lambda>_. None) ''xbxbx'' ''b'' ''cc'' True = Some (Inr ''xccxccx'')"
    by code_simp
  from replace_text_changes_every_place [OF r] r show ?thesis by blast
qed

text \<open>Exact matching comes first: when the search text occurs exactly once, that occurrence is what
  is replaced, whatever the fuzzy strategies would find.\<close>

theorem replace_text_exact:
  assumes "old \<noteq> new" and "normalize_lf old \<noteq> []"
    and "count_sub (normalize_lf content) (normalize_lf old) = 1"
  shows "\<exists>a b. normalize_lf content = a @ normalize_lf old @ b
     \<and> replace_text sim re content old new False =
         Some (Inr (if detect_crlf content then to_crlf (a @ normalize_lf new @ b)
                    else a @ normalize_lf new @ b))"
proof -
  let ?c = "normalize_lf content" and ?o = "normalize_lf old" and ?n = "normalize_lf new"
  have "old \<noteq> []" using assms(2) by (auto simp: normalize_lf_def replace_sub_def CRLF_def split_sub.simps)
  from count_sub_1 [OF assms(2,3), of ?n] obtain a b where
      ab: "?c = a @ ?o @ b" "replace_first ?c ?o ?n = a @ ?n @ b" by metis
  have "contains ?c ?o" using ab(1) by (auto simp: str_simps)
  then have "try_strategies ?c ?n False (strategies sim re ?c ?o) = Some (a @ ?n @ b)"
    using assms(2,3) ab(2)
    by (simp add: strategies_def exact_replacer_def count_occurrences_def Let_def)
  with \<open>old \<noteq> []\<close> assms(1) have "replace_text sim re content old new False =
         Some (Inr (if detect_crlf content then to_crlf (a @ ?n @ b) else a @ ?n @ b))"
    by (simp add: replace_text_def Let_def)
  with ab(1) show ?thesis by blast
qed

theorem replace_text_exact_witness:
  "\<forall>sim re. replace_text sim re ''xaby'' ''ab'' ''c'' False = Some (Inr ''xcy'')"
proof (intro allI)
  fix sim re
  have n: "normalize_lf ''xaby'' = ''xaby''" "normalize_lf ''ab'' = ''ab''" "normalize_lf ''c'' = ''c''"
    "detect_crlf ''xaby'' = False" "count_sub ''xaby'' ''ab'' = 1" by code_simp+
  from replace_text_exact [of "''ab''" "''c''" "''xaby''" sim re, unfolded n]
  obtain a b where ab: "''xaby'' = a @ ''ab'' @ b"
    and r: "replace_text sim re ''xaby'' ''ab'' ''c'' False = Some (Inr (a @ ''c'' @ b))" by auto
  from ab have "a = ''x'' \<and> b = ''y''"
    by (auto simp: Cons_eq_append_conv)
  with r show "replace_text sim re ''xaby'' ''ab'' ''c'' False = Some (Inr ''xcy'')" by simp
qed

section \<open>Line endings\<close>

fun all_crlf :: "bool \<Rightarrow> str \<Rightarrow> bool" where
  "all_crlf after_cr [] = True"
| "all_crlf after_cr (c # s) = ((c = NL \<longrightarrow> after_cr) \<and> all_crlf (c = CR) s)"

lemma split_sub_char: "split_sub s [c] = split_char c s"
proof (induction "length s" arbitrary: s rule: less_induct)
  case less
  show ?case
  proof (cases "c \<in> set s")
    case True
    then obtain a b where s: "s = a @ c # b" and "c \<notin> set a" by (metis split_list_first)
    have f: "find_sub (a @ c # b) [c] = Some (length a)" using \<open>c \<notin> set a\<close> by (induction a) auto
    have sp: "split_char c (a @ c # b) = a # split_char c b" using \<open>c \<notin> set a\<close> by (induction a) auto
    have "split_sub s [c] = a # split_sub b [c]"
      unfolding s by (subst split_sub.simps) (simp add: f)
    with less s sp show ?thesis by simp
  next
    case False
    have "find_sub s [c] = None" using False by (auto simp: find_sub_None)
    moreover have "split_char c s = [s]" using False by (induction s) auto
    ultimately show ?thesis by (subst split_sub.simps) simp
  qed
qed

lemma all_crlf_append: "NL \<notin> set a \<Longrightarrow> all_crlf x (a @ CR # NL # b) = all_crlf False b"
  by (induction a arbitrary: x) auto

lemma all_crlf_plain: "NL \<notin> set x \<Longrightarrow> all_crlf b x"
  by (induction x arbitrary: b) auto

lemma all_crlf_join: "\<forall>x \<in> set xs. NL \<notin> set x \<Longrightarrow> all_crlf b (join CRLF xs)"
proof (induction xs arbitrary: b)
  case (Cons x xs)
  then show ?case
    by (cases "xs = []") (simp_all add: all_crlf_plain join_Cons CRLF_def all_crlf_append)
qed simp

lemma to_crlf_join: "to_crlf s = join CRLF (split_char NL (normalize_lf s))"
  by (simp add: to_crlf_def replace_sub_def split_sub_char)

text \<open>In a file judged to use CRLF, an edit gives every line a CRLF ending, the lines that it did
  not touch and that ended in a bare LF included.\<close>

theorem replace_text_crlf_everywhere:
  assumes "replace_text sim re content old new all = Some (Inr r)" and "detect_crlf content"
  shows "all_crlf False r"
proof -
  from assms(1) obtain r' where "r = (if detect_crlf content then to_crlf r' else r')"
    by (rule replace_text_Inr)
  then show ?thesis
    using assms(2) split_char_no_sep by (auto simp: to_crlf_join intro!: all_crlf_join)
qed

theorem replace_text_crlf_everywhere_witness:
  "replace_text (\<lambda>_ _. False) (\<lambda>_. None) (''a'' @ CRLF @ ''b'' @ [NL]) ''a'' ''c'' False =
     Some (Inr (''c'' @ CRLF @ ''b'' @ CRLF)) \<and> all_crlf False (''c'' @ CRLF @ ''b'' @ CRLF)"
proof -
  have r: "replace_text (\<lambda>_ _. False) (\<lambda>_. None) (''a'' @ CRLF @ ''b'' @ [NL]) ''a'' ''c'' False =
     Some (Inr (''c'' @ CRLF @ ''b'' @ CRLF))" by code_simp
  have "detect_crlf (''a'' @ CRLF @ ''b'' @ [NL])" by code_simp
  from replace_text_crlf_everywhere [OF r this] r show ?thesis by blast
qed

section \<open>The indentation strategy\<close>

lemma trim_start_spaces: "trim_start (replicate k SP @ s) = trim_start s"
  by (induction k) (simp_all add: trim_start.simps [of "SP # _"])

lemma trim_spaces: "trim (replicate k SP @ s) = trim s"
  by (simp add: trim_def trim_start_spaces)

lemma foldl_min_shift: "foldl min (n + k) (map (\<lambda>i. i + k) ns) = foldl min n ns + (k :: nat)"
  by (induction ns arbitrary: n) (simp_all add: min_def)




lemma min_indent_shift:
  assumes "\<exists>l \<in> set ls. trim l \<noteq> []"
  shows "min_indent (map (\<lambda>l. replicate k SP @ l) ls) = min_indent ls + k"
proof -
  let ?w = "\<lambda>l. length l - length (trim_start l)"
  have "map ?w (filter (\<lambda>l. trim l \<noteq> []) (map (\<lambda>l. replicate k SP @ l) ls))
      = map (\<lambda>i. i + k) (map ?w (filter (\<lambda>l. trim l \<noteq> []) ls))"
    using trim_start_len by (induction ls) (simp_all add: trim_spaces trim_start_spaces add.commute)
  moreover from assms have "map ?w (filter (\<lambda>l. trim l \<noteq> []) ls) \<noteq> []" by (auto simp: filter_empty_conv)
  ultimately show ?thesis
    by (cases "map ?w (filter (\<lambda>l. trim l \<noteq> []) ls)") (simp_all only: min_indent_def list.simps foldl_min_shift, simp)
qed

lemma floor_down_shift:
  assumes "l \<noteq> []" and "\<not> is_cont_byte (hd l)"
  shows "floor_down (replicate k SP @ l) (n + k) = floor_down l n + k"
proof (induction n)
  case 0
  have "is_char_boundary (replicate k SP @ l) k"
    using assms by (simp add: is_char_boundary_def nth_append hd_conv_nth)
  then show ?case by (cases k) auto
next
  case (Suc n)
  have "is_char_boundary (replicate k SP @ l) (Suc n + k) = is_char_boundary l (Suc n)"
    by (auto simp: is_char_boundary_def nth_append)
  with Suc show ?case by simp
qed

lemma floor_char_boundary_shift:
  assumes "l \<noteq> []" and "\<not> is_cont_byte (hd l)"
  shows "floor_char_boundary (replicate k SP @ l) (n + k) = floor_char_boundary l n + k"
  using floor_down_shift [OF assms, of k n] by (simp add: floor_char_boundary_def)

lemma windows_mem: "w \<in> set (windows (length w) (xs @ w @ ys))"
proof -
  have "w = take (length w) (drop (length xs) (xs @ w @ ys))" by simp
  moreover have "length xs \<in> set [0..<length (xs @ w @ ys) - length w + 1]" by simp
  ultimately have "w \<in> (\<lambda>start. take (length w) (drop start (xs @ w @ ys)))
      ` set [0..<length (xs @ w @ ys) - length w + 1]"
    by (rule image_eqI)
  then show ?thesis by (simp only: windows_def set_map) simp
qed

text \<open>A search text whose indentation was stripped by the same number of spaces on every line is
  found by the indentation strategy: the indented block of lines is one of its candidates.\<close>

theorem indentation_strategy_finds_block:
  assumes "str_lines content = xs @ map (\<lambda>l. replicate k SP @ l) (str_lines pat) @ ys"
    and "list_all line_ok (str_lines pat)"
    and "\<forall>l \<in> set (str_lines pat). l \<noteq> [] \<and> \<not> is_cont_byte (hd l)"
    and "\<exists>l \<in> set (str_lines pat). trim l \<noteq> []"
  shows "join [NL] (map (\<lambda>l. replicate k SP @ l) (str_lines pat))
           \<in> set (indentation_flexible_replacer content pat)"
proof -
  let ?ls = "str_lines pat" and ?ind = "\<lambda>l. replicate k SP @ l"
  let ?w = "map ?ind ?ls" and ?n = "length (str_lines pat)"
  from assms(4) have ne: "?ls \<noteq> []" by auto
  have "list_all line_ok ?w" using assms(2,3)
    by (auto simp: list_all_iff line_ok_def)
  moreover have "last ?w \<noteq> []" using ne assms(3) by (simp add: last_map)
  ultimately have lines_w: "str_lines (join [NL] ?w) = ?w" using ne by (intro str_lines_join) simp_all
  have cut: "(if trim (?ind l) = [] then [] else drop (floor_char_boundary (?ind l) (min_indent ?ls + k)) (?ind l))
      = (if trim l = [] then [] else drop (floor_char_boundary l (min_indent ?ls)) l)" if "l \<in> set ?ls" for l
    using assms(3) that by (simp add: trim_spaces floor_char_boundary_shift)
  have "de_indent (join [NL] ?w) = de_indent pat"
    unfolding de_indent_def lines_w min_indent_shift [OF assms(4)] Let_def map_map comp_def
    using cut by (intro arg_cong [where f = "join [NL]"] map_cong refl) blast
  moreover have "?w \<in> set (windows ?n (str_lines content))"
    using windows_mem [of ?w xs ys] assms(1) by simp
  ultimately show ?thesis using ne by (simp add: indentation_flexible_replacer_def Let_def)
qed

theorem indentation_strategy_finds_block_witness:
  "join [NL] [''  if x:'', ''    y''] \<in> set (indentation_flexible_replacer
       (''def f:'' @ [NL] @ ''  if x:'' @ [NL] @ ''    y'') (''if x:'' @ [NL] @ ''  y''))"
proof -
  have ls: "str_lines (''def f:'' @ [NL] @ ''  if x:'' @ [NL] @ ''    y'') = [''def f:'', ''  if x:'', ''    y'']"
    "str_lines (''if x:'' @ [NL] @ ''  y'') = [''if x:'', ''  y'']" by code_simp+
  have t: "trim ''if x:'' \<noteq> []" by code_simp
  have "join [NL] (map (\<lambda>l. replicate 2 SP @ l) (str_lines (''if x:'' @ [NL] @ ''  y''))) \<in> set (indentation_flexible_replacer
       (''def f:'' @ [NL] @ ''  if x:'' @ [NL] @ ''    y'') (''if x:'' @ [NL] @ ''  y''))"
    by (rule indentation_strategy_finds_block [of _ "[''def f:'']" 2 _ "[]"], unfold ls)
      (use t in \<open>simp_all add: line_ok_def is_cont_byte_def numeral_2_eq_2\<close>)
  then show ?thesis unfolding ls by (simp add: numeral_2_eq_2)
qed

section \<open>Failures\<close>

text \<open>When an edit does not report success, no file has changed.\<close>

theorem edit_execute_failure_keeps_files:
  assumes "edit_execute sim re args cx w = Some (w', res)"
    and "\<And>t. res = Inr t \<Longrightarrow> tr_is_error t"
  shows "w_disk w' = w_disk w"
  using assms
  by (auto simp: edit_execute_def Let_def tool_success_def split: option.splits sum.splits if_splits)

theorem edit_execute_failure_keeps_files_witness:
  "\<exists>w'. edit_execute (\<lambda>_ _. False) (\<lambda>_. None) (JObj []) demo_context w = Some (w', Inl (missing_param ''filePath''))
     \<and> w_disk w' = w_disk w"
proof -
  have "edit_execute (\<lambda>_ _. False) (\<lambda>_. None) (JObj []) demo_context w = Some (w, Inl (missing_param ''filePath''))"
    by (simp add: edit_execute_def json_get_str_def)
  from edit_execute_failure_keeps_files [OF this] this show ?thesis by blast
qed

text \<open>Reporting an ambiguous search text panics when the 60-byte preview of a match ends inside a
  character.\<close>

theorem replace_text_preview_panics:
  "replace_text (\<lambda>_ _. False) (\<lambda>_. None)
     (''a'' @ replicate 58 (CHR ''b'') @ [CHR 0xC3, CHR 0xA9] @ ''a'') ''a'' ''c'' False = None"
  by code_simp

text \<open>A search text that occurs several times is not always reported as ambiguous: a fuzzy strategy
  that runs after the exact one may find a candidate that occurs once, here a line that equals the
  search text but for its indentation, and the edit replaces that line with its indentation.\<close>

theorem replace_text_ambiguous_edited:
  "count_sub (''  a'' @ [NL] @ ''b a'') ''a'' = 2 \<and>
   replace_text (\<lambda>_ _. False) (\<lambda>_. None) (''  a'' @ [NL] @ ''b a'') ''a'' ''c'' False =
     Some (Inr (''c'' @ [NL] @ ''b a''))"
  by code_simp

end
