(* ===== verification/PatchTool.thy ===== *)
theory PatchTool
  imports Tools
begin

text \<open>
  The \<open>apply_patch\<close> tool of \<open>crates/agent/src/tool/apply_patch.rs\<close>: the parser for unified diffs, the
  application of hunks to a text, and the handler with its two phases. The parser's index into the
  lines of the patch is the list of the lines that are left. Line numbers and offsets are 64-bit, as
  \<open>usize\<close> and \<open>isize\<close> are, and wrap as a release build does.
\<close>

section \<open>Data\<close>

datatype patch_op = Create | Modify | Delete

datatype hunk_line = Context | Remove | Add str

record hunk =
  hk_old_start :: "64 word"
  hk_lines :: "hunk_line list"

record file_patch =
  fp_path :: str
  fp_operation :: patch_op
  fp_hunks :: "hunk list"

section \<open>Parsing\<close>

definition parse_file_path :: "str \<Rightarrow> str \<Rightarrow> str" where
  "parse_file_path line prefix =
     (let raw = (case strip_prefix line prefix of None \<Rightarrow> line | Some r \<Rightarrow> r) in
      if starts_with raw ''a/'' \<or> starts_with raw ''b/'' then drop 2 raw else raw)"

definition no_newline_marker :: str where
  "no_newline_marker = [BACKSLASH] @ '' No newline at end of file''"

definition ends_hunk :: "str \<Rightarrow> bool" where
  "ends_hunk line \<longleftrightarrow> starts_with line ''@@ '' \<or> starts_with line ''--- '' \<or> starts_with line ''diff ''"

definition hunk_line_of :: "str \<Rightarrow> hunk_line option" where
  "hunk_line_of line =
     (if starts_with line ''-'' then Some Remove
      else case strip_prefix line ''+'' of
        Some content \<Rightarrow> Some (Add content)
      | None \<Rightarrow>
          if starts_with line [SP] then Some Context
          else if line = no_newline_marker then None
          else Some Context)"

fun parse_hunk_body :: "str list \<Rightarrow> hunk_line list \<times> str list" where
  "parse_hunk_body [] = ([], [])"
| "parse_hunk_body (line # ls) =
     (if ends_hunk line then ([], line # ls)
      else case parse_hunk_body ls of
        (hls, rest) \<Rightarrow>
          ((case hunk_line_of line of None \<Rightarrow> hls | Some h \<Rightarrow> h # hls), rest))"

definition parse_usize :: "str \<Rightarrow> 64 word option" where
  "parse_usize s = map_option of_nat (parse_unsigned (2 ^ 64) s)"

definition parse_old_start :: "str \<Rightarrow> 64 word" where
  "parse_old_start range_part =
     (case parse_usize (hd (split_char (CHR '','')
             (trim_start_char (CHR ''-'') (hd (split_char SP range_part))))) of
        None \<Rightarrow> 1 | Some n \<Rightarrow> n)"

text \<open>\<open>parse_hunk\<close>, given the header line and the lines after it.\<close>

definition parse_hunk :: "str \<Rightarrow> str list \<Rightarrow> str + (hunk \<times> str list)" where
  "parse_hunk header ls =
     (let parts = split_sub header ''@@'' in
      if length parts < 3 then Inl (''Invalid hunk header: '' @ header)
      else case parse_hunk_body ls of
        (hls, rest) \<Rightarrow>
          Inr (\<lparr>hk_old_start = parse_old_start (trim (parts ! 1)), hk_lines = hls\<rparr>, rest))"

lemma parse_hunk_body_len: "length (snd (parse_hunk_body ls)) \<le> length ls"
  by (induction ls) (auto split: prod.splits)

lemma parse_hunk_len: "parse_hunk h ls = Inr (hk, rest) \<Longrightarrow> length rest \<le> length ls"
  using parse_hunk_body_len [of ls] by (auto simp: parse_hunk_def Let_def split: prod.splits if_splits)

function parse_hunks :: "str list \<Rightarrow> str + (hunk list \<times> str list)" where
  "parse_hunks [] = Inr ([], [])"
| "parse_hunks (line # ls) =
     (if starts_with line ''--- '' \<or> starts_with line ''diff '' then Inr ([], line # ls)
      else if starts_with line ''@@ '' then
        (case parse_hunk line ls of
           Inl e \<Rightarrow> Inl e
         | Inr (hk, rest) \<Rightarrow>
             (case parse_hunks rest of
                Inl e \<Rightarrow> Inl e
              | Inr (hks, rest') \<Rightarrow> Inr (hk # hks, rest')))
      else parse_hunks ls)"
  by pat_completeness auto
termination
  by (relation "measure length") (auto dest: parse_hunk_len)

lemma parse_hunks_len: "parse_hunks ls = Inr (hks, rest) \<Longrightarrow> length rest \<le> length ls"
proof (induction ls arbitrary: hks rest rule: parse_hunks.induct)
  case (2 line ls)
  then show ?case
    by (fastforce split: if_splits sum.splits prod.splits dest: parse_hunk_len)
qed simp

definition operation_of :: "str \<Rightarrow> str \<Rightarrow> patch_op" where
  "operation_of old_path new_path =
     (if old_path = ''/dev/null'' then Create else if new_path = ''/dev/null'' then Delete else Modify)"

function parse_files :: "str list \<Rightarrow> str + file_patch list" where
  "parse_files [] = Inr []"
| "parse_files (line # ls) =
     (if starts_with line ''--- '' then
        (case ls of
           [] \<Rightarrow> parse_files ls
         | line2 # ls' \<Rightarrow>
             if \<not> starts_with line2 ''+++ '' then parse_files ls
             else
               let old_path = parse_file_path line ''--- '';
                   new_path = parse_file_path line2 ''+++ '';
                   operation = operation_of old_path new_path
               in case parse_hunks ls' of
                    Inl e \<Rightarrow> Inl e
                  | Inr (hks, rest) \<Rightarrow>
                      (case parse_files rest of
                         Inl e \<Rightarrow> Inl e
                       | Inr fps \<Rightarrow>
                           Inr (\<lparr>fp_path = (if operation = Create then new_path else old_path),
                                 fp_operation = operation, fp_hunks = hks\<rparr> # fps)))
      else parse_files ls)"
  by pat_completeness auto
termination
  by (relation "measure length") (auto dest!: parse_hunks_len)

definition parse_unified_diff :: "str \<Rightarrow> str + file_patch list" where
  "parse_unified_diff patch = parse_files (str_lines patch)"

section \<open>Applying hunks\<close>

definition vec_insert :: "nat \<Rightarrow> 'a \<Rightarrow> 'a list \<Rightarrow> 'a list" where
  "vec_insert i x xs = take i xs @ x # drop i xs"

definition vec_remove :: "nat \<Rightarrow> 'a list \<Rightarrow> 'a list" where
  "vec_remove i xs = take i xs @ drop (Suc i) xs"

text \<open>The lines of one hunk: the text, the position, how many lines were removed and added.\<close>

fun apply_hunk_lines ::
    "hunk_line list \<Rightarrow> str list \<Rightarrow> nat \<Rightarrow> nat \<Rightarrow> nat \<Rightarrow> str list \<times> nat \<times> nat" where
  "apply_hunk_lines [] ls pos removals additions = (ls, removals, additions)"
| "apply_hunk_lines (Context # hls) ls pos removals additions =
     apply_hunk_lines hls ls (pos + 1) removals additions"
| "apply_hunk_lines (Remove # hls) ls pos removals additions =
     (if pos < length ls
      then apply_hunk_lines hls (vec_remove pos ls) pos (removals + 1) additions
      else apply_hunk_lines hls ls pos removals additions)"
| "apply_hunk_lines (Add text # hls) ls pos removals additions =
     (if pos \<le> length ls
      then apply_hunk_lines hls (vec_insert pos text ls) (pos + 1) removals (additions + 1)
      else apply_hunk_lines hls ls pos removals additions)"

text \<open>\<open>Display\<close> of an \<open>isize\<close>.\<close>

definition show_isize :: "64 word \<Rightarrow> str" where
  "show_isize w =
     (if sint w < 0 then CHR ''-'' # to_decimal (nat (- sint w)) else to_decimal (nat (sint w)))"

definition negative_offset_msg :: "64 word \<Rightarrow> 64 word \<Rightarrow> str" where
  "negative_offset_msg old_start raw =
     ''Hunk at old_start='' @ to_decimal (unat old_start) @ '' produces negative offset (''
     @ show_isize raw @ '') '' @ [CHR 0xE2, CHR 0x80, CHR 0x94] @ '' patch is invalid''"

fun apply_hunk_list :: "hunk list \<Rightarrow> str list \<Rightarrow> 64 word \<Rightarrow> str + str list" where
  "apply_hunk_list [] ls off = Inr ls"
| "apply_hunk_list (hk # hks) ls off =
     (let raw = hk_old_start hk - 1 + off in
      if sint raw < 0 then Inl (negative_offset_msg (hk_old_start hk) raw)
      else case apply_hunk_lines (hk_lines hk) ls (unat raw) 0 0 of
        (ls', removals, additions) \<Rightarrow>
          apply_hunk_list hks ls' (off + (of_nat additions - of_nat removals)))"

definition apply_hunks :: "str \<Rightarrow> hunk list \<Rightarrow> str + str" where
  "apply_hunks content hunks =
     (case apply_hunk_list hunks (str_lines content) 0 of
        Inl e \<Rightarrow> Inl e
      | Inr ls \<Rightarrow>
          (let result = join [NL] ls in
           Inr (if ends_with content [NL] \<and> \<not> ends_with result [NL] then result @ [NL] else result)))"

definition added_text :: "hunk_line \<Rightarrow> str option" where
  "added_text h = (case h of Add text \<Rightarrow> Some text | _ \<Rightarrow> None)"

definition apply_hunks_to_empty :: "hunk list \<Rightarrow> str" where
  "apply_hunks_to_empty hunks =
     (let result = join [NL] (List.map_filter added_text (concat (map hk_lines hunks)))
      in if result = [] then [] else result @ [NL])"

section \<open>The handler\<close>

datatype staged = StWrite str | StDelete | StCreateDirs str

text \<open>Phase 1: an early exit with the value the handler returns, or the staged changes.\<close>

fun stage_patches ::
    "str \<Rightarrow> disk \<Rightarrow> file_patch list \<Rightarrow> (str + tool_result) + (str \<times> str \<times> staged) list" where
  "stage_patches working_dir d [] = Inr []"
| "stage_patches working_dir d (fp # fps) =
     (let p = resolve_path working_dir (fp_path fp) in
      if \<not> is_path_within_working_dir d working_dir p then
        Inl (Inr (tool_failure (''Path '' @ [QUOTE] @ fp_path fp @ [QUOTE]
          @ '' is outside the working directory. Cannot apply patch.'')))
      else
        case (case fp_operation fp of
                Delete \<Rightarrow> Inr StDelete
              | Create \<Rightarrow> Inr (StCreateDirs (apply_hunks_to_empty (fp_hunks fp)))
              | Modify \<Rightarrow>
                  (case read_to_string d (components p) of
                     Inl e \<Rightarrow> Inl (Inl (''Failed to read '' @ fp_path fp @ '': '' @ io_text e))
                   | Inr content \<Rightarrow>
                       (case apply_hunks content (fp_hunks fp) of
                          Inl e \<Rightarrow> Inl (Inr (tool_failure
                                    (''Failed to apply patch to '' @ fp_path fp @ '': '' @ e)))
                        | Inr new_content \<Rightarrow> Inr (StWrite new_content)))) of
          Inl early \<Rightarrow> Inl early
        | Inr st \<Rightarrow>
            (case stage_patches working_dir d fps of
               Inl early \<Rightarrow> Inl early
             | Inr rest \<Rightarrow> Inr ((p, fp_path fp, st) # rest)))"

record patch_names =
  pn_modified :: "str list"
  pn_created :: "str list"
  pn_deleted :: "str list"

text \<open>One staged change, after its backup.\<close>

definition apply_staged_one :: "str \<Rightarrow> str \<Rightarrow> staged \<Rightarrow> disk \<Rightarrow> disk \<times> (str + unit)" where
  "apply_staged_one p name st d =
     (case st of
        StDelete \<Rightarrow>
          if path_exists d (components p) then
            (case remove_file d (components p) of
               Inl e \<Rightarrow> (d, Inl (''Failed to delete '' @ name @ '': '' @ io_text e))
             | Inr d' \<Rightarrow> (d', Inr ()))
          else (d, Inr ())
      | StCreateDirs content \<Rightarrow>
          (case (case path_parent (components p) of
                   None \<Rightarrow> Inr d
                 | Some up \<Rightarrow> create_dir_all d up) of
             Inl e \<Rightarrow> (d, Inl (''Failed to create dirs: '' @ io_text e))
           | Inr d1 \<Rightarrow>
               (case write_file d1 (components p) content of
                  Inl e \<Rightarrow> (d1, Inl (''Failed to write '' @ name @ '': '' @ io_text e))
                | Inr d2 \<Rightarrow> (d2, Inr ())))
      | StWrite content \<Rightarrow>
          (case write_file d (components p) content of
             Inl e \<Rightarrow> (d, Inl (''Failed to write '' @ name @ '': '' @ io_text e))
           | Inr d1 \<Rightarrow> (d1, Inr ())))"

definition note_name :: "str \<Rightarrow> staged \<Rightarrow> patch_names \<Rightarrow> patch_names" where
  "note_name name st ns =
     (case st of
        StWrite _ \<Rightarrow> ns\<lparr>pn_modified := pn_modified ns @ [name]\<rparr>
      | StCreateDirs _ \<Rightarrow> ns\<lparr>pn_created := pn_created ns @ [name]\<rparr>
      | StDelete \<Rightarrow> ns\<lparr>pn_deleted := pn_deleted ns @ [name]\<rparr>)"

text \<open>Phase 2.\<close>

fun apply_staged ::
    "tool_context \<Rightarrow> (str \<times> str \<times> staged) list \<Rightarrow> world \<Rightarrow> patch_names \<Rightarrow> world \<times> (str + patch_names)" where
  "apply_staged cx [] w ns = (w, Inr ns)"
| "apply_staged cx ((p, name, st) # rest) w ns =
     (let w1 = ctx_checkpoint cx p w in
      case apply_staged_one p name st (w_disk w1) of
        (d, Inl e) \<Rightarrow> (w1\<lparr>w_disk := d\<rparr>, Inl e)
      | (d, Inr _) \<Rightarrow> apply_staged cx rest (w1\<lparr>w_disk := d\<rparr>) (note_name name st ns))"

definition names_part :: "str \<Rightarrow> str list \<Rightarrow> str list" where
  "names_part verb names =
     (if names = [] then []
      else [verb @ '' '' @ to_decimal (length names) @ '' file(s) ('' @ join '', '' names @ '')''])"

definition patch_result :: "patch_names \<Rightarrow> tool_result" where
  "patch_result ns =
     (tool_success (''Applied patch: '' @ join '', ''
        (names_part ''modified'' (pn_modified ns) @ names_part ''created'' (pn_created ns)
         @ names_part ''deleted'' (pn_deleted ns))))
     \<lparr>tr_modified_files := pn_modified ns @ pn_created ns @ pn_deleted ns\<rparr>"

definition no_patches_msg :: str where
  "no_patches_msg = ''No file patches found in the input. Expected unified diff format with --- and +++ headers.''"

definition apply_patch_execute :: "json \<Rightarrow> tool_context \<Rightarrow> world \<Rightarrow> world \<times> (str + tool_result)" where
  "apply_patch_execute args cx w =
     (case json_get_str args ''patch'' of
        None \<Rightarrow> (w, Inl (missing_param ''patch''))
      | Some patch_str \<Rightarrow>
          if trim patch_str = [] then (w, Inr (tool_failure ''Patch content is empty.''))
          else case parse_unified_diff patch_str of
            Inl e \<Rightarrow> (w, Inr (tool_failure (''Failed to parse patch: '' @ e)))
          | Inr fps \<Rightarrow>
              if fps = [] then (w, Inr (tool_failure no_patches_msg))
              else case stage_patches (cx_working_dir cx) (w_disk w) fps of
                Inl early \<Rightarrow> (w, early)
              | Inr staged_list \<Rightarrow>
                  (case apply_staged cx staged_list w
                          \<lparr>pn_modified = [], pn_created = [], pn_deleted = []\<rparr> of
                     (w', Inl e) \<Rightarrow> (w', Inl e)
                   | (w', Inr ns) \<Rightarrow> (w', Inr (patch_result ns))))"

end
