(* ===== verification/PatchFacts.thy ===== *)
theory PatchFacts
  imports PatchTool ToolFacts
begin

text \<open>
  Facts about \<open>apply_patch\<close>. An edit script says how one text becomes another: stretches of lines that
  stay, and between them blocks of lines that stay, go or come. Rendering a script as a unified diff,
  parsing it and applying the hunks gives the new text; the hunks by themselves are applied by line
  number only, so a script for another text is applied without complaint.
\<close>

section \<open>Edit scripts\<close>

datatype item = Ctx str | Rem str | Ins str

fun old_lines :: "item list \<Rightarrow> str list" where
  "old_lines [] = []"
| "old_lines (Ctx l # xs) = l # old_lines xs"
| "old_lines (Rem l # xs) = l # old_lines xs"
| "old_lines (Ins l # xs) = old_lines xs"

fun new_lines :: "item list \<Rightarrow> str list" where
  "new_lines [] = []"
| "new_lines (Ctx l # xs) = l # new_lines xs"
| "new_lines (Rem l # xs) = new_lines xs"
| "new_lines (Ins l # xs) = l # new_lines xs"

fun hunk_line_of_item :: "item \<Rightarrow> hunk_line" where
  "hunk_line_of_item (Ctx l) = Context"
| "hunk_line_of_item (Rem l) = Remove"
| "hunk_line_of_item (Ins l) = Add l"

type_synonym script = "(str list \<times> item list) list"

fun old_text :: "script \<Rightarrow> str list \<Rightarrow> str list" where
  "old_text [] end_lines = end_lines"
| "old_text ((g, xs) # segs) end_lines = g @ old_lines xs @ old_text segs end_lines"

fun new_text :: "script \<Rightarrow> str list \<Rightarrow> str list" where
  "new_text [] end_lines = end_lines"
| "new_text ((g, xs) # segs) end_lines = g @ new_lines xs @ new_text segs end_lines"

text \<open>The line number in a hunk header, as diff tools write it: of the first old line of the block,
  or of the line before it when the block has no old line.\<close>

definition header_start :: "nat \<Rightarrow> item list \<Rightarrow> nat" where
  "header_start before xs = (if old_lines xs = [] then before else before + 1)"

fun script_hunks :: "nat \<Rightarrow> script \<Rightarrow> hunk list" where
  "script_hunks n [] = []"
| "script_hunks n ((g, xs) # segs) =
     \<lparr>hk_old_start = of_nat (header_start (n + length g) xs), hk_lines = map hunk_line_of_item xs\<rparr>
       # script_hunks (n + length g + length (old_lines xs)) segs"

section \<open>Applying the hunks of a script\<close>

fun removed_count :: "item list \<Rightarrow> nat" where
  "removed_count [] = 0"
| "removed_count (Rem l # xs) = Suc (removed_count xs)"
| "removed_count (x # xs) = removed_count xs"

fun added_count :: "item list \<Rightarrow> nat" where
  "added_count [] = 0"
| "added_count (Ins l # xs) = Suc (added_count xs)"
| "added_count (x # xs) = added_count xs"

lemma counts: "length (old_lines xs) + added_count xs = length (new_lines xs) + removed_count xs"
proof (induction xs)
  case (Cons x xs)
  then show ?case by (cases x) auto
qed simp

lemma apply_hunk_lines_script:
  "apply_hunk_lines (map hunk_line_of_item xs) (pre @ old_lines xs @ post) (length pre) r a =
     (pre @ new_lines xs @ post, r + removed_count xs, a + added_count xs)"
proof (induction xs arbitrary: pre r a)
  case (Cons x xs)
  show ?case
  proof (cases x)
    case (Ctx l)
    then show ?thesis using Cons [of "pre @ [l]"] by simp
  next
    case (Rem l)
    then show ?thesis using Cons [of pre] by (simp add: vec_remove_def)
  next
    case (Ins l)
    then show ?thesis using Cons [of "pre @ [l]"] by (simp add: vec_insert_def)
  qed
qed simp

lemma sint_small: "k < 2 ^ 63 \<Longrightarrow> sint (of_nat k :: 64 word) = int k"
  by (simp add: signed_of_nat signed_take_bit_int_eq_self)

lemma unat_small: "k < 2 ^ 63 \<Longrightarrow> unat (of_nat k :: 64 word) = k"
  by (simp add: unsigned_of_nat take_bit_nat_eq_self)

lemma apply_hunk_list_script:
  assumes "\<forall>s \<in> set segs. old_lines (snd s) \<noteq> []"
    and "length before + length (new_text segs end_lines) < 2 ^ 63"
    and "off = of_nat (length before) - of_nat n"
  shows "apply_hunk_list (script_hunks n segs) (before @ old_text segs end_lines) off =
     Inr (before @ new_text segs end_lines)"
  using assms
proof (induction segs arbitrary: before n off)
  case (Cons s segs)
  obtain g xs where s: "s = (g, xs)" by (cases s)
  let ?before = "before @ g @ new_lines xs" and ?n = "n + length g + length (old_lines xs)"
  have raw: "of_nat (header_start (n + length g) xs) - 1 + off = (of_nat (length (before @ g)) :: 64 word)"
    using Cons.prems(1,3) by (simp add: s header_start_def)
  have small: "length (before @ g) < 2 ^ 63" using Cons.prems(2) by (simp add: s)
  have "length (old_lines xs) + added_count xs = length (new_lines xs) + removed_count xs" by (rule counts)
  then have "(of_nat (length (old_lines xs)) + of_nat (added_count xs) :: 64 word) =
      of_nat (length (new_lines xs)) + of_nat (removed_count xs)" by (metis of_nat_add)
  then have off: "off + (of_nat (added_count xs) - of_nat (removed_count xs)) =
      of_nat (length ?before) - of_nat ?n"
    using Cons.prems(3) by (simp add: algebra_simps)
  have "apply_hunk_list (script_hunks ?n segs) (?before @ old_text segs end_lines)
      (off + (of_nat (added_count xs) - of_nat (removed_count xs))) = Inr (?before @ new_text segs end_lines)"
    using Cons.prems(1,2) by (intro Cons.IH off) (simp_all add: s)
  moreover have "apply_hunk_lines (map hunk_line_of_item xs) (before @ g @ old_lines xs @ old_text segs end_lines)
      (length (before @ g)) 0 0 = (?before @ old_text segs end_lines, removed_count xs, added_count xs)"
    using apply_hunk_lines_script [of xs "before @ g" "old_text segs end_lines" 0 0] by simp
  ultimately show ?case
    using raw small sint_small [OF small] unat_small [OF small]
    by (simp add: s Let_def)
qed simp

text \<open>C6. The hunks of a script, applied one after the other with the running line offset, turn the old
  text into the new one: any number of hunks of any sizes, each with at least one old line.\<close>

theorem apply_hunks_script:
  assumes "str_lines content = old_text segs end_lines" and "\<forall>s \<in> set segs. old_lines (snd s) \<noteq> []"
    and "length (new_text segs end_lines) < 2 ^ 63"
  shows "apply_hunks content (script_hunks 0 segs) =
     Inr (let r = join [NL] (new_text segs end_lines) in
          if ends_with content [NL] \<and> \<not> ends_with r [NL] then r @ [NL] else r)"
  using apply_hunk_list_script [OF assms(2), of "[]" end_lines 0 0] assms(1,3)
  by (simp add: apply_hunks_def Let_def)

theorem apply_hunks_script_witness:
  "apply_hunks (join [NL] [''a'', ''b'', ''c''])
     (script_hunks 0 [([], [Ctx ''a'', Ins ''x'']), ([''b''], [Rem ''c''])]) =
   Inr (join [NL] [''a'', ''x'', ''b''])"
proof -
  let ?segs = "[([], [Ctx ''a'', Ins ''x'']), ([''b''], [Rem ''c''])]"
  have 1: "str_lines (join [NL] [''a'', ''b'', ''c'']) = old_text ?segs []" by code_simp
  have 2: "\<not> ends_with (join [NL] [''a'', ''b'', ''c'']) [NL]" by code_simp
  have 3: "new_text ?segs [] = [''a'', ''x'', ''b'']" by simp
  have 4: "length (new_text ?segs []) < 2 ^ 63" unfolding 3 by simp
  have "\<forall>s \<in> set ?segs. old_lines (snd s) \<noteq> []" by simp
  from apply_hunks_script [OF 1 this 4] 2 show ?thesis by (simp only: 3 Let_def simp_thms if_False)
qed

text \<open>A block without old lines, as in a diff made with no context, is applied one line too early:
  its header gives the line after which it goes, but the code takes it for the line to insert
  before.\<close>

theorem apply_hunks_insert_off_by_one:
  "header_start (length [''a'', ''b'']) [Ins ''x''] = 2 \<and>
   apply_hunks (join [NL] [''a'', ''b'', ''c'']) (script_hunks 0 [([''a'', ''b''], [Ins ''x''])]) =
     Inr (join [NL] [''a'', ''x'', ''b'', ''c'']) \<and>
   new_text [([''a'', ''b''], [Ins ''x''])] [''c''] = [''a'', ''b'', ''x'', ''c'']"
  by code_simp

text \<open>A script can be put over any other text of the same length, without a change to its hunks.\<close>

lemma relabel_item:
  assumes "length ls = length (old_lines (x # xs))"
  obtains y ms where "hunk_line_of_item y = hunk_line_of_item x" and "length ms = length (old_lines xs)"
    and "\<And>ys. old_lines ys = ms \<Longrightarrow> old_lines (y # ys) = ls"
    and "\<And>ys. length (new_lines ys) = length (new_lines xs) \<Longrightarrow>
           length (new_lines (y # ys)) = length (new_lines (x # xs))"
proof (cases x)
  case (Ctx l)
  with assms obtain m ms where "ls = m # ms" "length ms = length (old_lines xs)" by (cases ls) auto
  with that [of "Ctx m" ms] Ctx show ?thesis by simp
next
  case (Rem l)
  with assms obtain m ms where "ls = m # ms" "length ms = length (old_lines xs)" by (cases ls) auto
  with that [of "Rem m" ms] Rem show ?thesis by simp
next
  case (Ins l)
  with assms that [of "Ins l" ls] show ?thesis by simp
qed

lemma relabel_items:
  "length ls = length (old_lines xs) \<Longrightarrow>
   \<exists>ys. map hunk_line_of_item ys = map hunk_line_of_item xs \<and> old_lines ys = ls
      \<and> length (new_lines ys) = length (new_lines xs)"
proof (induction xs arbitrary: ls)
  case (Cons x xs)
  from relabel_item [OF Cons.prems] obtain y ms where
      y: "hunk_line_of_item y = hunk_line_of_item x" "length ms = length (old_lines xs)"
      "\<And>ys. old_lines ys = ms \<Longrightarrow> old_lines (y # ys) = ls"
      "\<And>ys. length (new_lines ys) = length (new_lines xs) \<Longrightarrow>
           length (new_lines (y # ys)) = length (new_lines (x # xs))" by blast
  from Cons.IH [OF y(2)] obtain ys where "map hunk_line_of_item ys = map hunk_line_of_item xs"
      "old_lines ys = ms" "length (new_lines ys) = length (new_lines xs)" by blast
  with y show ?case by (intro exI [of _ "y # ys"]) simp
qed simp

lemma relabel_script:
  "length ls = length (old_text segs end_lines) \<Longrightarrow> \<forall>s \<in> set segs. old_lines (snd s) \<noteq> [] \<Longrightarrow>
   \<exists>segs' end'. script_hunks n segs' = script_hunks n segs \<and> old_text segs' end' = ls
      \<and> length (new_text segs' end') = length (new_text segs end_lines)
      \<and> (\<forall>s \<in> set segs'. old_lines (snd s) \<noteq> [])"
proof (induction segs arbitrary: n ls)
  case Nil
  then show ?case by (intro exI [of _ "[]"] exI [of _ ls]) simp
next
  case (Cons s segs)
  obtain g xs where s: "s = (g, xs)" by (cases s)
  define k where "k = length g"
  define m where "m = length (old_lines xs)"
  have len: "length (drop (k + m) ls) = length (old_text segs end_lines)"
    and lm: "length (take m (drop k ls)) = length (old_lines xs)" and lk: "length (take k ls) = length g"
    using Cons.prems(1) by (simp_all add: s k_def m_def)
  from relabel_items [OF lm] obtain ys where ys: "map hunk_line_of_item ys = map hunk_line_of_item xs"
    "old_lines ys = take m (drop k ls)" "length (new_lines ys) = length (new_lines xs)" by blast
  from Cons.IH [OF len, of "n + k + m"] Cons.prems(2) obtain segs' end' where
      IH: "script_hunks (n + k + m) segs' = script_hunks (n + k + m) segs" "old_text segs' end' = drop (k + m) ls"
      "length (new_text segs' end') = length (new_text segs end_lines)"
      "\<forall>s \<in> set segs'. old_lines (snd s) \<noteq> []" by auto
  have m: "length (old_lines ys) = m" using ys(2) lm by (simp add: m_def)
  have "m \<noteq> 0" using Cons.prems(2) by (simp add: s m_def)
  with m have ne: "old_lines ys \<noteq> []" by auto
  have split: "ls = take k ls @ take m (drop k ls) @ drop (k + m) ls"
    by (metis append_take_drop_id add.commute drop_drop)
  have "script_hunks n ((take k ls, ys) # segs') = script_hunks n (s # segs)"
    using ys(1) IH(1) lk m ne Cons.prems(2)
    by (simp add: s header_start_def k_def m_def [symmetric])
  moreover have "old_text ((take k ls, ys) # segs') end' = ls" using ys(2) IH(2) split by simp
  moreover have "length (new_text ((take k ls, ys) # segs') end') = length (new_text (s # segs) end_lines)"
    using ys(3) IH(3) lk by (simp add: s)
  moreover have "\<forall>t \<in> set ((take k ls, ys) # segs'). old_lines (snd t) \<noteq> []" using ne IH(4) by simp
  ultimately show ?case by blast
qed

text \<open>The lines a hunk keeps or removes are not compared with the text: applied to another text with
  the same number of lines the hunks succeed, and change what is at their line numbers.\<close>

theorem apply_hunks_ignores_content:
  assumes "length (str_lines other) = length (old_text segs end_lines)"
    and "\<forall>s \<in> set segs. old_lines (snd s) \<noteq> []"
    and "length (new_text segs end_lines) < 2 ^ 63"
  shows "\<exists>r. apply_hunks other (script_hunks 0 segs) = Inr r"
proof -
  from relabel_script [OF assms(1,2), of 0] obtain segs' end' where
      h: "script_hunks 0 segs' = script_hunks 0 segs" and t: "old_text segs' end' = str_lines other"
      and "length (new_text segs' end') = length (new_text segs end_lines)"
      and ne: "\<forall>s \<in> set segs'. old_lines (snd s) \<noteq> []" by blast
  with assms(3) have "length ([] :: str list) + length (new_text segs' end') < 2 ^ 63" by simp
  from apply_hunk_list_script [OF ne this refl, of 0] h t show ?thesis
    by (simp add: apply_hunks_def Let_def)
qed

theorem apply_hunks_ignores_content_witness:
  "\<exists>r. apply_hunks (join [NL] [''unrelated'', ''text''])
     (script_hunks 0 [([''a''], [Rem ''b''])]) = Inr r"
proof -
  have "length (str_lines (join [NL] [''unrelated'', ''text''])) = length (old_text [([''a''], [Rem ''b''])] [])"
    by code_simp
  then show ?thesis by (rule apply_hunks_ignores_content) simp_all
qed

section \<open>Reading a rendered script\<close>

fun render_item :: "item \<Rightarrow> str" where
  "render_item (Ctx l) = SP # l"
| "render_item (Rem l) = CHR ''-'' # l"
| "render_item (Ins l) = CHR ''+'' # l"

definition render_header :: "nat \<Rightarrow> nat \<Rightarrow> item list \<Rightarrow> str" where
  "render_header n n' xs =
     ''@@ -'' @ to_decimal (header_start n xs) @ '','' @ to_decimal (length (old_lines xs))
     @ '' +'' @ to_decimal n' @ '','' @ to_decimal (length (new_lines xs)) @ '' @@''"

fun render_script :: "nat \<Rightarrow> nat \<Rightarrow> script \<Rightarrow> str list" where
  "render_script n n' [] = []"
| "render_script n n' ((g, xs) # segs) =
     render_header (n + length g) (n' + length g + 1) xs # map render_item xs
     @ render_script (n + length g + length (old_lines xs)) (n' + length g + length (new_lines xs)) segs"

text \<open>A removed line whose text starts with two dashes and a space is written \<open>--- ...\<close>, which the parser takes
  for a file header: such lines are left out here, and \<open>dashes_end_hunk\<close> shows what they do.\<close>

fun item_ok :: "item \<Rightarrow> bool" where
  "item_ok (Ctx l) = line_ok l"
| "item_ok (Rem l) = (line_ok l \<and> \<not> starts_with l ''-- '')"
| "item_ok (Ins l) = line_ok l"

lemma ends_hunk_item: "item_ok x \<Longrightarrow> \<not> ends_hunk (render_item x)"
  by (cases x) (simp_all add: ends_hunk_def)

lemma hunk_line_of_render: "hunk_line_of (render_item x) = Some (hunk_line_of_item x)"
  by (cases x) (simp_all add: hunk_line_of_def strip_prefix_def)

definition stops :: "str list \<Rightarrow> bool" where
  "stops ls \<longleftrightarrow> ls = [] \<or> ends_hunk (hd ls)"

lemma parse_hunk_body_render:
  "list_all item_ok xs \<Longrightarrow> stops rest \<Longrightarrow>
   parse_hunk_body (map render_item xs @ rest) = (map hunk_line_of_item xs, rest)"
proof (induction xs)
  case Nil
  then show ?case by (cases rest) (auto simp: stops_def)
next
  case (Cons x xs)
  then show ?case by (simp add: ends_hunk_item hunk_line_of_render)
qed

lemma split_sub_at: 
  assumes "CHR ''@'' \<notin> set m"
  shows "split_sub (''@@'' @ m @ ''@@'') ''@@'' = [[], m, []]"
proof -
  have f: "find_sub (m @ ''@@'') ''@@'' = Some (length m)"
    using assms by (induction m) auto
  have "split_sub (m @ ''@@'') ''@@'' = [m, []]"
    by (subst split_sub.simps) (simp add: f split_sub.simps [of "[]"])
  then show ?thesis by (subst split_sub.simps) simp
qed

lemma digit_not_special:
  assumes "is_digit c"
  shows "c \<noteq> CHR ''@''" "c \<noteq> SP" "c \<noteq> CHR '',''" "c \<noteq> CHR ''-''" "c \<noteq> NL" "c \<noteq> CR" "c \<noteq> CHR ''+''"
  using assms by (auto simp: is_digit_def)

lemma ws_seqs_last: "list_all (\<lambda>w. w \<noteq> [] \<and> \<not> is_digit (last w) \<and> last w \<noteq> CHR ''-'') ws_seqs"
  by code_simp

lemma ws_len_end_digit:
  assumes "is_digit c"
  shows "ws_len_end (s @ [c]) = 0"
proof -
  have "\<not> ends_with (s @ [c]) w" if "w \<in> set ws_seqs" for w
  proof
    assume "ends_with (s @ [c]) w"
    then obtain r where "s @ [c] = r @ w" by (auto simp: ends_with_iff)
    moreover from that ws_seqs_last have "w \<noteq> []" and "\<not> is_digit (last w)" by (auto simp: list_all_iff)
    ultimately have "last w = c" by (metis last_append last_snoc)
    with assms \<open>\<not> is_digit (last w)\<close> show False by simp
  qed
  then have "find (ends_with (s @ [c])) ws_seqs = None" by (simp add: find_None_iff)
  then show ?thesis by (simp add: ws_len_end_def)
qed

lemma ws_len_dash: "ws_len (CHR ''-'' # s) = 0"
  by (simp add: ws_len_def ws_seqs_def)

lemma trim_range: "is_digit c \<Longrightarrow> trim (SP # CHR ''-'' # s @ [c] @ [SP]) = CHR ''-'' # s @ [c]"
proof -
  assume c: "is_digit c"
  have "ws_len_end (CHR ''-'' # s @ [c] @ [SP]) = 1"
    using ends_with_append [of "CHR ''-'' # s @ [c]" "[SP]"] by (simp add: ws_len_end_def ws_seqs_def)
  moreover have "ws_len_end (CHR ''-'' # s @ [c]) = 0" using ws_len_end_digit [OF c, of "CHR ''-'' # s"] by simp
  ultimately have "trim_end (CHR ''-'' # s @ [c] @ [SP]) = CHR ''-'' # s @ [c]"
    by (subst trim_end.simps) (simp add: trim_end.simps [of "CHR ''-'' # s @ [c]"])
  moreover have "trim_start (SP # CHR ''-'' # s @ [c] @ [SP]) = CHR ''-'' # s @ [c] @ [SP]"
    by (simp add: trim_start.simps [of "SP # _"] trim_start.simps [of "CHR ''-'' # _"] ws_len_dash)
  ultimately show ?thesis by (simp add: trim_def)
qed

lemma to_decimal_no: "\<not> is_digit c \<Longrightarrow> c \<notin> set (to_decimal n)"
  using to_decimal_digits by blast

lemma parse_usize_decimal: "n < 2 ^ 63 \<Longrightarrow> parse_usize (to_decimal n) = Some (of_nat n)"
proof -
  assume "n < 2 ^ 63"
  then have "n < 2 ^ 64" by simp
  then have "parse_unsigned (2 ^ 64) (to_decimal n) = Some n"
    by (intro parse_unsigned_digits) (simp_all add: digits_val_to_decimal)
  then show ?thesis by (simp add: parse_usize_def)
qed

lemma split_char_first: "c \<notin> set a \<Longrightarrow> hd (split_char c (a @ c # b)) = a"
  by (induction a) (auto split: list.splits)

lemma parse_old_start_range:
  assumes "n < 2 ^ 63"
  shows "parse_old_start (CHR ''-'' # to_decimal n @ '','' @ to_decimal k @ SP # rest) = of_nat n"
proof -
  let ?r = "CHR ''-'' # to_decimal n @ '','' @ to_decimal k"
  have "SP \<notin> set ?r" using to_decimal_no [of SP] by (auto simp: is_digit_def)
  from split_char_first [OF this] have 1: "hd (split_char SP (?r @ SP # rest)) = ?r" .
  obtain x xs where dn: "to_decimal n = x # xs" by (cases "to_decimal n") auto
  then have "is_digit x" using to_decimal_digits [of x n] by simp
  then have "x \<noteq> CHR ''-''" using digit_not_special by blast
  then have 2: "trim_start_char (CHR ''-'') ?r = to_decimal n @ '','' @ to_decimal k"
    by (simp add: trim_start_char_def dn)
  have "CHR '','' \<notin> set (to_decimal n)" using to_decimal_no [of "CHR '',''"] by (auto simp: is_digit_def)
  from split_char_first [OF this, of "to_decimal k"]
  have 3: "hd (split_char (CHR '','') (to_decimal n @ '','' @ to_decimal k)) = to_decimal n" by simp
  show ?thesis
    using 1 by (simp add: parse_old_start_def 2 [simplified] 3 [simplified] parse_usize_decimal [OF assms])
qed

lemma parse_hunk_render:
  assumes "list_all item_ok xs" and "stops rest" and "header_start n ys < 2 ^ 63"
  shows "parse_hunk (render_header n n' ys) (map render_item xs @ rest) =
     Inr (\<lparr>hk_old_start = of_nat (header_start n ys), hk_lines = map hunk_line_of_item xs\<rparr>, rest)"
proof -
  let ?mid = "CHR ''-'' # to_decimal (header_start n ys) @ '','' @ to_decimal (length (old_lines ys))
     @ SP # ''+'' @ to_decimal n' @ '','' @ to_decimal (length (new_lines ys))"
  have h: "render_header n n' ys = ''@@'' @ (SP # ?mid @ [SP]) @ ''@@''"
    by (simp add: render_header_def)
  have "CHR ''@'' \<notin> set (SP # ?mid @ [SP])"
    using to_decimal_no [of "CHR ''@''"] by (auto simp: is_digit_def)
  from split_sub_at [OF this] have parts: "split_sub (render_header n n' ys) ''@@'' = [[], SP # ?mid @ [SP], []]"
    unfolding h .
  obtain s c where mid: "?mid = CHR ''-'' # s @ [c]" and "is_digit c"
  proof -
    obtain y zs where "to_decimal (length (new_lines ys)) = zs @ [y]"
      by (cases "to_decimal (length (new_lines ys))" rule: rev_cases) auto
    moreover from this have "is_digit y" using to_decimal_digits [of y "length (new_lines ys)"] by simp
    ultimately show ?thesis
      using that [of "to_decimal (header_start n ys) @ '','' @ to_decimal (length (old_lines ys))
         @ SP # ''+'' @ to_decimal n' @ '','' @ zs" y] by simp
  qed
  have "trim (SP # ?mid @ [SP]) = ?mid" using trim_range [OF \<open>is_digit c\<close>, of s] unfolding mid by simp
  then show ?thesis
    using parse_hunk_body_render [OF assms(1,2)] parse_old_start_range [OF assms(3)]
    by (simp add: parse_hunk_def parts)
qed

lemma parse_hunks_render:
  assumes "\<forall>s \<in> set segs. list_all item_ok (snd s)"
    and "n + length (old_text segs []) < 2 ^ 63"
    and "rest = [] \<or> starts_with (hd rest) ''--- '' \<or> starts_with (hd rest) ''diff ''"
  shows "parse_hunks (render_script n n' segs @ rest) = Inr (script_hunks n segs, rest)"
  using assms(1,2)
proof (induction segs arbitrary: n n')
  case Nil
  show ?case
  proof (cases rest)
    case (Cons l ls)
    with assms(3) show ?thesis by auto
  qed simp
next
  case (Cons s segs)
  obtain g xs where s: "s = (g, xs)" by (cases s)
  let ?m = "n + length g + length (old_lines xs)" and ?m' = "n' + length g + length (new_lines xs)"
  let ?rest = "render_script ?m ?m' segs @ rest"
  have IH: "parse_hunks ?rest = Inr (script_hunks ?m segs, rest)"
    using Cons.prems by (intro Cons.IH) (simp_all add: s)
  have "stops ?rest"
  proof (cases segs)
    case Nil
    then show ?thesis using assms(3) by (auto simp: stops_def ends_hunk_def)
  next
    case (Cons t ts)
    then show ?thesis by (cases t) (simp add: stops_def ends_hunk_def render_header_def)
  qed
  then have "parse_hunk (render_header (n + length g) (n' + length g + 1) xs) (map render_item xs @ ?rest) =
      Inr (\<lparr>hk_old_start = of_nat (header_start (n + length g) xs), hk_lines = map hunk_line_of_item xs\<rparr>, ?rest)"
    using Cons.prems by (intro parse_hunk_render) (auto simp: s header_start_def neq_Nil_conv)
  moreover have "starts_with (render_header (n + length g) (n' + length g + 1) xs) ''@@ ''"
    "\<not> starts_with (render_header (n + length g) (n' + length g + 1) xs) ''--- ''"
    "\<not> starts_with (render_header (n + length g) (n' + length g + 1) xs) ''diff ''"
    by (simp_all add: render_header_def)
  ultimately show ?case using IH by (simp add: s)
qed

definition render_file :: "str \<Rightarrow> script \<Rightarrow> str list" where
  "render_file p segs = (''--- a/'' @ p) # (''+++ b/'' @ p) # render_script 0 0 segs"

lemma parse_file_path_render:
  "parse_file_path (''--- a/'' @ p) ''--- '' = p" "parse_file_path (''+++ b/'' @ p) ''+++ '' = p"
  by (simp_all add: parse_file_path_def strip_prefix_def)

lemma render_line_ok:
  "\<forall>s \<in> set segs. list_all item_ok (snd s) \<Longrightarrow> list_all line_ok (render_script n n' segs)"
proof (induction segs arbitrary: n n')
  case (Cons s segs)
  obtain g xs where s: "s = (g, xs)" by (cases s)
  have "line_ok (render_header k k' xs)" for k k'
    using to_decimal_no [of NL] by (auto simp: render_header_def line_ok_def is_digit_def)
  moreover have "item_ok x \<Longrightarrow> line_ok (render_item x)" for x by (cases x) (auto simp: line_ok_def)
  ultimately show ?case using Cons by (auto simp: s list_all_iff)
qed simp

lemma parse_files_render:
  assumes "\<forall>s \<in> set segs. list_all item_ok (snd s)" and "length (old_text segs []) < 2 ^ 63"
    and "p \<noteq> ''/dev/null''"
    and "rest = [] \<or> starts_with (hd rest) ''--- '' \<or> starts_with (hd rest) ''diff ''"
  shows "parse_files (render_file p segs @ rest) =
     (case parse_files rest of
        Inl e \<Rightarrow> Inl e
      | Inr fps \<Rightarrow> Inr (\<lparr>fp_path = p, fp_operation = Modify, fp_hunks = script_hunks 0 segs\<rparr> # fps))"
proof -
  have "parse_hunks (render_script 0 0 segs @ rest) = Inr (script_hunks 0 segs, rest)"
    using parse_hunks_render [OF assms(1) _ assms(4), of 0 0] assms(2) by simp
  then show ?thesis
    using assms(3) parse_file_path_render
    by (simp add: render_file_def operation_of_def Let_def split: sum.splits)
qed

lemma render_file_lines:
  assumes "\<forall>s \<in> set segs. list_all item_ok (snd s)" and "line_ok p"
  shows "list_all line_ok (render_file p segs)"
  using render_line_ok [OF assms(1)] assms(2) by (auto simp: render_file_def line_ok_def)

lemma parse_unified_diff_render:
  assumes "\<forall>s \<in> set segs. list_all item_ok (snd s)" and "length (old_text segs []) < 2 ^ 63"
    and "line_ok p" and "p \<noteq> ''/dev/null''"
  shows "parse_unified_diff (join [NL] (render_file p segs) @ [NL]) =
     Inr [\<lparr>fp_path = p, fp_operation = Modify, fp_hunks = script_hunks 0 segs\<rparr>]"
proof -
  have ls: "str_lines (join [NL] (render_file p segs) @ [NL]) = render_file p segs"
    using render_file_lines [OF assms(1,3)] by (intro str_lines_join_NL) (simp_all add: render_file_def)
  from parse_files_render [OF assms(1,2,4), of "[]"] show ?thesis
    unfolding parse_unified_diff_def ls by simp
qed

text \<open>A hunk that removes a comment of SQL, Lua or Haskell ends at that line: the removal and the lines after it
  are lost without an error, and what is left of the hunk is applied.\<close>

lemma parse_files_items: "list_all item_ok ys \<Longrightarrow> parse_files (map render_item ys) = Inr []"
proof (induction ys)
  case (Cons y ys)
  then have "\<not> starts_with (render_item y) ''--- ''" by (cases y) simp_all
  with Cons show ?case by simp
qed simp

lemma dashes_end_hunk:
  assumes "list_all item_ok (xs @ ys)" and "line_ok l" and "line_ok p" and "p \<noteq> ''/dev/null''"
    and "starts_with l ''-- ''" and "ys = [] \<or> \<not> starts_with (render_item (hd ys)) ''+++ ''"
    and "length g < 2 ^ 63 - 1"
  shows "parse_unified_diff (join [NL] (render_file p [(g, xs @ Rem l # ys)]) @ [NL]) =
    Inr [\<lparr>fp_path = p, fp_operation = Modify,
          fp_hunks = [\<lparr>hk_old_start = of_nat (length g + 1), hk_lines = map hunk_line_of_item xs\<rparr>]\<rparr>]"
proof -
  let ?xs = "xs @ Rem l # ys" and ?cut = "(CHR ''-'' # l) # map render_item ys"
  have ok: "item_ok x \<Longrightarrow> line_ok (render_item x)" for x by (cases x) (auto simp: line_ok_def)
  have "line_ok (render_header k k' ?xs)" for k k'
    using to_decimal_no [of NL] by (auto simp: render_header_def line_ok_def is_digit_def)
  moreover have "line_ok (''--- a/'' @ p)" "line_ok (''+++ b/'' @ p)" "line_ok (CHR ''-'' # l)"
    using assms(2,3) by (auto simp: line_ok_def)
  ultimately have "list_all line_ok (render_file p [(g, ?xs)])"
    using assms(1) ok by (auto simp: render_file_def list_all_iff)
  then have ls: "str_lines (join [NL] (render_file p [(g, ?xs)]) @ [NL]) = render_file p [(g, ?xs)]"
    by (intro str_lines_join_NL) (simp_all add: render_file_def)
  have "old_lines ?xs \<noteq> []" by (induction xs rule: old_lines.induct) simp_all
  then have start: "header_start (length g) ?xs = length g + 1" by (simp add: header_start_def)
  have dashes: "starts_with (CHR ''-'' # l) ''--- ''" using assms(5) by simp
  have "stops ?cut" using dashes by (simp add: stops_def ends_hunk_def)
  then have "parse_hunk (render_header (length g) (length g + 1) ?xs) (map render_item xs @ ?cut) =
      Inr (\<lparr>hk_old_start = of_nat (length g + 1), hk_lines = map hunk_line_of_item xs\<rparr>, ?cut)"
    using assms(1,7) parse_hunk_render [of xs ?cut "length g" ?xs "length g + 1"] start by simp
  moreover have "starts_with (render_header n n' ?xs) ''@@ ''" "\<not> starts_with (render_header n n' ?xs) ''--- ''"
    "\<not> starts_with (render_header n n' ?xs) ''diff ''" for n n' by (simp_all add: render_header_def)
  moreover have "parse_hunks ?cut = Inr ([], ?cut)" using dashes by simp
  moreover have "parse_files ?cut = Inr []"
    using assms(1,6) dashes parse_files_items [of ys] by (cases ys) (simp_all add: Let_def)
  ultimately show ?thesis
    using assms(4) parse_file_path_render
    by (simp add: parse_unified_diff_def ls, simp add: render_file_def operation_of_def Let_def)
qed

text \<open>C31. A modification written as a unified diff, in which no removed line starts with two dashes and a space,
  is read back: the parser recovers the path and the hunks with their line numbers and lines. (A removed line
  that starts so ends its hunk, \<open>dashes_end_hunk\<close>; no line may hold a line feed or end in a carriage return.)\<close>

theorem parse_unified_diff_roundtrip:
  assumes "\<forall>s \<in> set segs. list_all item_ok (snd s)" and "length (old_text segs []) < 2 ^ 63"
    and "line_ok p" and "p \<noteq> ''/dev/null''"
  shows "parse_unified_diff (join [NL] (render_file p segs) @ [NL]) =
     Inr [\<lparr>fp_path = p, fp_operation = Modify, fp_hunks = script_hunks 0 segs\<rparr>]"
  by (rule parse_unified_diff_render [OF assms])

theorem parse_unified_diff_roundtrip_witness:
  "parse_unified_diff (join [NL] (render_file ''src/x'' [([''a''], [Rem ''b'', Ins ''c''])]) @ [NL]) =
     Inr [\<lparr>fp_path = ''src/x'', fp_operation = Modify,
           fp_hunks = [\<lparr>hk_old_start = 2, hk_lines = [Remove, Add ''c'']\<rparr>]\<rparr>]"
  by (subst parse_unified_diff_roundtrip) (simp_all add: line_ok_def header_start_def)

section \<open>The handler\<close>

text \<open>The first phase checks every file of a patch before anything is changed: when a file is outside
  the working directory, unreadable, or its hunks do not apply, the whole world is left as it was.\<close>

theorem apply_patch_validation_changes_nothing:
  assumes "json_get_str args ''patch'' = Some patch" and "parse_unified_diff patch = Inr fps"
    and "stage_patches (cx_working_dir cx) (w_disk w) fps = Inl early"
  shows "fst (apply_patch_execute args cx w) = w"
  using assms by (simp add: apply_patch_execute_def)

text \<open>The patch of the example: a section for \<open>../x\<close>.\<close>

definition demo_patch :: "str \<Rightarrow> str" where
  "demo_patch p = join [NL] (render_file p [([], [Rem ''a'', Ins ''b''])]) @ [NL]"

lemma demo_patch_parsed:
  "line_ok p \<Longrightarrow> p \<noteq> ''/dev/null'' \<Longrightarrow> parse_unified_diff (demo_patch p) =
     Inr [\<lparr>fp_path = p, fp_operation = Modify,
           fp_hunks = [\<lparr>hk_old_start = 1, hk_lines = [Remove, Add ''b'']\<rparr>]\<rparr>]"
  unfolding demo_patch_def
  by (subst parse_unified_diff_render) (simp_all add: line_ok_def header_start_def)

theorem apply_patch_validation_changes_nothing_witness:
  "fst (apply_patch_execute (JObj [(''patch'', JStr (demo_patch ''../x''))])
     demo_context \<lparr>w_disk = demo_disk ''v'', w_store = st\<rparr>) = \<lparr>w_disk = demo_disk ''v'', w_store = st\<rparr>"
proof -
  have p: "parse_unified_diff (demo_patch ''../x'') = Inr [\<lparr>fp_path = ''../x'', fp_operation = Modify,
           fp_hunks = [\<lparr>hk_old_start = 1, hk_lines = [Remove, Add ''b'']\<rparr>]\<rparr>]"
    by (rule demo_patch_parsed) (simp_all add: line_ok_def)
  have "components ''/p/../x'' = [RootDir, Normal ''p'', ParentDir, Normal ''x'']"
    "components ''/p'' = [RootDir, Normal ''p'']" "resolve_path ''/p'' ''../x'' = ''/p/../x''"
    by (simp_all add: components_def component_of_def resolve_path_def path_join_def is_absolute_def)
  then have "\<not> is_path_within_working_dir (demo_disk ''v'') ''/p'' (resolve_path ''/p'' ''../x'')"
    by (simp add: is_path_within_working_dir_def eval_fs ancestor_inside.simps)
  then have "\<exists>early. stage_patches (cx_working_dir demo_context)
      (w_disk \<lparr>w_disk = demo_disk ''v'', w_store = st\<rparr>) [\<lparr>fp_path = ''../x'', fp_operation = Modify,
           fp_hunks = [\<lparr>hk_old_start = 1, hk_lines = [Remove, Add ''b'']\<rparr>]\<rparr>] = Inl early"
    by (simp add: Let_def demo_context_def)
  then obtain early where "stage_patches (cx_working_dir demo_context)
      (w_disk \<lparr>w_disk = demo_disk ''v'', w_store = st\<rparr>) [\<lparr>fp_path = ''../x'', fp_operation = Modify,
           fp_hunks = [\<lparr>hk_old_start = 1, hk_lines = [Remove, Add ''b'']\<rparr>]\<rparr>] = Inl early"
    by blast
  then show ?thesis
    by (rule apply_patch_validation_changes_nothing [OF _ p, rotated]) (simp add: json_get_str_def)
qed

lemma read_to_string_plain:
  "plain_disk d \<Longrightarrow> file_at d l = Some b \<Longrightarrow> valid_utf8 b \<Longrightarrow> read_to_string d (abs_path l) = Inr b"
  using read_file_plain [of d l b] by (simp add: read_to_string_def)

text \<open>Two sections of a patch for the same file are both computed from the file as it was before the
  patch, so the change of the first is lost when the second is written; the tool reports success
  with both.\<close>

theorem apply_patch_second_section_wins:
  assumes "plain_disk (w_disk w)" and "components (resolve_path (cx_working_dir cx) f) = abs_path l"
    and "is_path_within_working_dir (w_disk w) (cx_working_dir cx) (resolve_path (cx_working_dir cx) f)"
    and "file_at (w_disk w) l = Some content" and "valid_utf8 content"
    and "json_get_str args ''patch'' = Some patch" and "trim patch \<noteq> []"
    and "parse_unified_diff patch = Inr [\<lparr>fp_path = f, fp_operation = Modify, fp_hunks = h1\<rparr>,
            \<lparr>fp_path = f, fp_operation = Modify, fp_hunks = h2\<rparr>]"
    and "apply_hunks content h1 = Inr c1" and "apply_hunks content h2 = Inr c2"
  shows "\<exists>w' r. apply_patch_execute args cx w = (w', Inr r) \<and> \<not> tr_is_error r
     \<and> tr_modified_files r = [f, f] \<and> file_at (w_disk w') = (file_at (w_disk w))(l \<mapsto> c2)"
proof -
  let ?p = "resolve_path (cx_working_dir cx) f"
  have staged: "stage_patches (cx_working_dir cx) (w_disk w)
      [\<lparr>fp_path = f, fp_operation = Modify, fp_hunks = h1\<rparr>,
       \<lparr>fp_path = f, fp_operation = Modify, fp_hunks = h2\<rparr>] =
      Inr [(?p, f, StWrite c1), (?p, f, StWrite c2)]"
    using assms(2,3,9,10) read_to_string_plain [OF assms(1,4,5)] by (simp add: Let_def)
  have dl: "w_disk w l = Some (NFile content)" using assms(4) by (simp add: file_at_Some_iff)
  have "in_dir (w_disk w) l" using in_dir_existing [OF assms(1)] dl by simp
  with dl have w1: "write_file (w_disk w) (abs_path l) c1 = Inr ((w_disk w)(l \<mapsto> NFile c1))"
    by (simp add: write_file_plain [OF assms(1)])
  have p1: "plain_disk ((w_disk w)(l \<mapsto> NFile c1))" using plain_write [OF assms(1) w1] .
  have "in_dir ((w_disk w)(l \<mapsto> NFile c1)) l" using in_dir_existing [OF p1] by simp
  then have w2: "write_file ((w_disk w)(l \<mapsto> NFile c1)) (abs_path l) c2 = Inr ((w_disk w)(l \<mapsto> NFile c2))"
    by (simp add: write_file_plain [OF p1])
  show ?thesis
    using assms(2,6,7,8) staged w1 w2
    by (simp add: apply_patch_execute_def apply_staged_one_def Let_def note_name_def patch_result_def
        tool_success_def)
qed

theorem apply_patch_second_section_wins_witness:
  "\<exists>patch w' r. apply_patch_execute (JObj [(''patch'', JStr patch)]) demo_context
      \<lparr>w_disk = demo_disk (join [NL] [''1'', ''2'']), w_store = (\<lambda>_. None)\<rparr> = (w', Inr r)
     \<and> file_at (w_disk w') [''p'', ''a''] = Some (join [NL] [''1'', ''two''])"
proof -
  let ?s1 = "[([], [Rem ''1'', Ins ''one''])] :: script" and ?s2 = "[([''1''], [Rem ''2'', Ins ''two''])] :: script"
  let ?ls = "render_file ''a'' ?s1 @ render_file ''a'' ?s2"
  let ?patch = "join [NL] ?ls @ [NL]"
  let ?w = "\<lparr>w_disk = demo_disk (join [NL] [''1'', ''2'']), w_store = (\<lambda>_. None)\<rparr>"
  have "str_lines ?patch = ?ls"
    using render_file_lines [of ?s1 "''a''"] render_file_lines [of ?s2 "''a''"]
    by (intro str_lines_join_NL) (simp_all add: line_ok_def render_file_def)
  then have parsed: "parse_unified_diff ?patch =
      Inr [\<lparr>fp_path = ''a'', fp_operation = Modify, fp_hunks = script_hunks 0 ?s1\<rparr>,
           \<lparr>fp_path = ''a'', fp_operation = Modify, fp_hunks = script_hunks 0 ?s2\<rparr>]"
    unfolding parse_unified_diff_def
    by (simp only:, subst parse_files_render)
      (simp_all add: line_ok_def parse_files_render [of ?s2 "''a''" "[]", simplified], simp add: render_file_def)
  have h: "apply_hunks (join [NL] [''1'', ''2'']) (script_hunks 0 ?s1) = Inr (join [NL] [''one'', ''2''])"
    "apply_hunks (join [NL] [''1'', ''2'']) (script_hunks 0 ?s2) = Inr (join [NL] [''1'', ''two''])"
    by code_simp+
  have t: "trim ?patch \<noteq> []" by code_simp
  have u: "valid_utf8 (join [NL] [''1'', ''2''])" by code_simp
  have c: "components ''/p'' = [RootDir, Normal ''p'']" "components ''/p/a'' = [RootDir, Normal ''p'', Normal ''a'']"
    by (simp_all add: components_def component_of_def)
  have p: "resolve_path (cx_working_dir demo_context) ''a'' = ''/p/a''"
    by (simp add: resolve_path_def path_join_def is_absolute_def demo_context_def)
  have g: "is_path_within_working_dir (w_disk ?w) (cx_working_dir demo_context)
      (resolve_path (cx_working_dir demo_context) ''a'')"
    unfolding p by (simp add: is_path_within_working_dir_def eval_fs c demo_context_def)
  have a: "components (resolve_path (cx_working_dir demo_context) ''a'') = abs_path [''p'', ''a'']"
    unfolding p c by (simp add: abs_path_def)
  have f: "file_at (w_disk ?w) [''p'', ''a''] = Some (join [NL] [''1'', ''2''])"
    by (simp add: demo_disk_file_at)
  have "plain_disk (w_disk ?w)" by (simp add: demo_disk_plain)
  from apply_patch_second_section_wins [OF this a g f u _ t parsed h, of "JObj [(''patch'', JStr ?patch)]"]
  show ?thesis by (fastforce simp: json_get_str_def)
qed

end
