(* ===== verification/Messages.thy ===== *)
theory Messages
  imports JsonArgs
begin

text \<open>
  The data that flows between the agent loop, the model provider, the tools and the interface:
  \<open>crates/agent/src/llm/types.rs\<close>, \<open>types.rs\<close>, \<open>error.rs\<close> and the decisions of \<open>approval.rs\<close>. Wrapped
  third-party errors carry their message.
\<close>

section \<open>Messages\<close>

record cache_control =
  cch_type :: str
  cch_ttl :: "str option"

definition ephemeral :: cache_control where
  "ephemeral = \<lparr>cch_type = ''ephemeral'', cch_ttl = Some ''1h''\<rparr>"

record media_url =
  mu_url :: str
  mu_detail :: "str option"

datatype content_block =
    TextBlock str "cache_control option"
  | ImageUrl media_url
  | VideoUrl media_url

datatype message_content = TextContent str | Blocks "content_block list"

fun block_text :: "content_block \<Rightarrow> str option" where
  "block_text (TextBlock t _) = Some t"
| "block_text _ = None"

fun content_text :: "message_content \<Rightarrow> str" where
  "content_text (TextContent s) = s"
| "content_text (Blocks bs) = (case List.map_filter block_text bs of [] \<Rightarrow> [] | t # _ \<Rightarrow> t)"

fun has_images :: "message_content \<Rightarrow> bool" where
  "has_images (TextContent _) = False"
| "has_images (Blocks bs) = list_ex (\<lambda>b. case b of ImageUrl _ \<Rightarrow> True | _ \<Rightarrow> False) bs"

fun has_videos :: "message_content \<Rightarrow> bool" where
  "has_videos (TextContent _) = False"
| "has_videos (Blocks bs) = list_ex (\<lambda>b. case b of VideoUrl _ \<Rightarrow> True | _ \<Rightarrow> False) bs"

record function_call =
  fc_name :: str
  fc_arguments :: str

record tool_call =
  tc_id :: str
  tc_type :: str
  tc_function :: function_call

record chat_message =
  cm_role :: str
  cm_content :: "message_content option"
  cm_tool_calls :: "tool_call list option"
  cm_tool_call_id :: "str option"
  cm_name :: "str option"
  cm_thinking :: "str option"

definition plain_message :: "str \<Rightarrow> message_content option \<Rightarrow> chat_message" where
  "plain_message role content =
     \<lparr>cm_role = role, cm_content = content, cm_tool_calls = None, cm_tool_call_id = None,
      cm_name = None, cm_thinking = None\<rparr>"

definition system_message :: "str \<Rightarrow> chat_message" where
  "system_message content = plain_message ''system'' (Some (TextContent content))"

definition user_message :: "str \<Rightarrow> chat_message" where
  "user_message content = plain_message ''user'' (Some (TextContent content))"

definition user_with_media :: "content_block list \<Rightarrow> chat_message" where
  "user_with_media blocks = plain_message ''user'' (Some (Blocks blocks))"

definition assistant_message :: "str option \<Rightarrow> tool_call list option \<Rightarrow> str option \<Rightarrow> chat_message" where
  "assistant_message content tool_calls thinking =
     (plain_message ''assistant'' (map_option TextContent content))
       \<lparr>cm_tool_calls := tool_calls, cm_thinking := thinking\<rparr>"

definition tool_result_message :: "str \<Rightarrow> str \<Rightarrow> chat_message" where
  "tool_result_message cid content =
     (plain_message ''tool'' (Some (TextContent content)))\<lparr>cm_tool_call_id := Some cid\<rparr>"

lemmas message_simps = plain_message_def system_message_def user_message_def user_with_media_def
  assistant_message_def tool_result_message_def

section \<open>Tool definitions\<close>

record function_definition =
  fd_name :: str
  fd_description :: "str option"
  fd_parameters :: "json option"

record tool_definition =
  td_type :: str
  td_function :: function_definition
  td_cache_control :: "cache_control option"

section \<open>Streamed responses\<close>

record function_call_chunk =
  fcc_name :: "str option"
  fcc_arguments :: "str option"

record tool_call_chunk =
  tcc_index :: u32
  tcc_id :: "str option"
  tcc_type :: "str option"
  tcc_function :: "function_call_chunk option"

record chunk_delta =
  cd_role :: "str option"
  cd_content :: "str option"
  cd_tool_calls :: "tool_call_chunk list option"
  cd_thinking :: "str option"

record chunk_choice =
  ch_index :: u32
  ch_delta :: chunk_delta
  ch_finish_reason :: "str option"

record prompt_tokens_details =
  ptd_cached_tokens :: "u32 option"
  ptd_cache_creation_tokens :: "u32 option"

record usage =
  us_prompt_tokens :: u32
  us_completion_tokens :: u32
  us_total_tokens :: u32
  us_prompt_tokens_details :: "prompt_tokens_details option"

record completion_chunk =
  ck_id :: str
  ck_choices :: "chunk_choice list"
  ck_usage :: "usage option"

record llm_response =
  lr_content :: "str option"
  lr_tool_calls :: "tool_call list"
  lr_usage :: "usage option"
  lr_finish_reason :: "str option"
  lr_thinking :: "str option"

section \<open>Requests\<close>

datatype provider = OpenAI | Anthropic

record chat_request =
  rq_model :: str
  rq_messages :: "chat_message list"
  rq_stream :: bool
  rq_include_usage :: "bool option"
  rq_tools :: "tool_definition list option"
  rq_tool_choice :: "str option"
  rq_parallel_tool_calls :: "bool option"
  rq_max_completion_tokens :: "u32 option"
  rq_temperature :: "u32 option"
  rq_thinking :: "json option"
  rq_prompt_cache_key :: "str option"
  rq_cache_control :: "cache_control option"

section \<open>Events, results and errors\<close>

record todo_item =
  ti_id :: str
  ti_content :: str
  ti_status :: str

datatype agent_event =
    TextDelta str str
  | ThinkingDelta str str
  | ToolStart str str str str
  | ToolStatus str str str
  | ToolEnd str str bool str "str list option"
  | ErrorEvent str str bool
  | DoneEvent str "str option"
  | CompactionEvent str
  | TokenUsage str u32 "u32 option" "u32 option" "u32 option"
  | TurnCompleted str u32 "str list"
  | UserQuestionAsked str str "str list option"
  | TodoUpdated str "todo_item list"
  | PlanReadyEvent str str str str
  | SkillLoaded str str
  | SubagentStart str str str str str
  | SubagentEnd str str str bool str

datatype agent_result =
    Done str
  | AskUser str "str list option"
  | PlanReady str str

datatype agent_error =
    LlmApiError "16 word" str
  | LlmParseError str
  | Cancelled
  | ChunkTimeout "64 word"
  | HeaderTimeout "64 word"
  | HttpError str
  | JsonError str
  | IoError str

definition show_error :: "agent_error \<Rightarrow> str" where
  "show_error e =
     (case e of
        LlmApiError status body \<Rightarrow> ''LLM API error (status '' @ to_decimal (unat status) @ ''): '' @ body
      | LlmParseError m \<Rightarrow> ''LLM parse error: '' @ m
      | Cancelled \<Rightarrow> ''Agent cancelled''
      | ChunkTimeout s \<Rightarrow> ''SSE chunk timeout: no data received for '' @ to_decimal (unat s) @ ''s''
      | HeaderTimeout ms \<Rightarrow> ''LLM header timeout: response headers did not arrive within ''
                            @ to_decimal (unat ms) @ ''ms''
      | HttpError m \<Rightarrow> ''HTTP error: '' @ m
      | JsonError m \<Rightarrow> ''JSON error: '' @ m
      | IoError m \<Rightarrow> ''IO error: '' @ m)"

datatype approval_decision = Approved | Denied "str option"

end
