(* ===== verification/ToolExec.thy ===== *)
theory ToolExec
  imports Tools Messages "HOL-Library.Char_ord" "HOL-Library.List_Lexorder"
begin

text \<open>
  The tool registry of \<open>crates/agent/src/tool/mod.rs\<close> and the execution of one tool call,
  \<open>execute_tool_call_impl\<close> of \<open>crates/agent/src/agent/loop_.rs\<close>: parsing and checking the arguments,
  approval, the guard for writes outside the project, running the tool, truncating its output and the
  events that go to the interface.

  A tool is a value of the record \<open>tool\<close>; its \<open>tl_execute\<close> gives the new world, the events it sends
  and its result or \<open>ToolError\<close>. The environment \<open>tool_env\<close> holds what the function is handed or calls
  outside the sources: the registry, \<open>serde_json\<close>'s parser and printer, the approval handler (which
  answers \<open>None\<close> when the session is cancelled before the user decides), the home directory and
  \<open>git\<close>'s answer.
\<close>

section \<open>Registry\<close>

record tool =
  tl_name :: str
  tl_description :: str
  tl_schema :: json
  tl_execute :: "json \<Rightarrow> tool_context \<Rightarrow> world \<Rightarrow> world \<times> agent_event list \<times> (str + tool_result)"

type_synonym registry = "(str \<times> tool) list"

definition register :: "tool \<Rightarrow> registry \<Rightarrow> registry" where
  "register t reg = AList.update (tl_name t) t reg"

definition get_tool :: "registry \<Rightarrow> str \<Rightarrow> tool option" where
  "get_tool reg name = map_of reg name"

definition retain_tools :: "(str \<Rightarrow> bool) \<Rightarrow> registry \<Rightarrow> registry" where
  "retain_tools p reg = filter (\<lambda>(name, _). p name) reg"

definition tool_names :: "registry \<Rightarrow> str list" where
  "tool_names reg = sort (map fst reg)"

definition definition_of :: "tool \<Rightarrow> tool_definition" where
  "definition_of t =
     \<lparr>td_type = ''function'',
      td_function = \<lparr>fd_name = tl_name t, fd_description = Some (tl_description t),
                     fd_parameters = Some (tl_schema t)\<rparr>,
      td_cache_control = None\<rparr>"

definition tool_definitions :: "registry \<Rightarrow> tool_definition list" where
  "tool_definitions reg =
     sort_key (\<lambda>d. fd_name (td_function d)) (map (\<lambda>(_, t). definition_of t) reg)"

datatype tool_mode = AskMode | CodingMode | PlanMode | FreestyleMode | HarnessMode | CoworkMode

definition mode_tools :: "tool_mode \<Rightarrow> str list" where
  "mode_tools mode =
     (case mode of
        AskMode \<Rightarrow> [''read'', ''glob'', ''grep'', ''ask_user'']
      | PlanMode \<Rightarrow> [''read'', ''glob'', ''grep'', ''ask_user'', ''save_plan'', ''edit_plan'']
      | _ \<Rightarrow> [''read'', ''write'', ''bash'', ''edit'', ''glob'', ''grep'', ''git'', ''create_pr'',
              ''todo_write'', ''apply_patch''])"

text \<open>The built-in tools by name are a parameter, as are the context engine's two tools and the skill
  tool, where there are any.\<close>

definition registry_for_mode :: "(str \<Rightarrow> tool) \<Rightarrow> tool_mode \<Rightarrow> tool list option \<Rightarrow> tool option \<Rightarrow> registry" where
  "registry_for_mode builtin mode engine_tools skill =
     (let r1 = fold register (map builtin (mode_tools mode)) [];
          r2 = (case engine_tools of None \<Rightarrow> r1 | Some ts \<Rightarrow> fold register ts r1)
      in (case skill of None \<Rightarrow> r2 | Some t \<Rightarrow> register t r2))"

text \<open>The \<open>write\<close> tool as the registry holds it.\<close>

definition string_param :: "str \<Rightarrow> json" where
  "string_param desc = JObj [(''description'', JStr desc), (''type'', JStr ''string'')]"

definition write_schema :: json where
  "write_schema = JObj
     [(''properties'', JObj
         [(''content'', string_param ''The content to write to the file''),
          (''filePath'', string_param ''Absolute or relative path to the file to write'')]),
      (''required'', JArr [JStr ''filePath'', JStr ''content'']),
      (''type'', JStr ''object'')]"

definition write_tool :: tool where
  "write_tool =
     \<lparr>tl_name = ''write'',
      tl_description = ''Write content to a file. Creates the file and any parent directories if they ''
        @ ''don'' @ [QUOTE] @ ''t exist. Overwrites the file if it already exists.'',
      tl_schema = write_schema,
      tl_execute = (\<lambda>args cx w. case write_execute args cx w of (w', r) \<Rightarrow> (w', [], r))\<rparr>"

section \<open>Summaries for the interface\<close>

definition shorten_path :: "str \<Rightarrow> str \<Rightarrow> str" where
  "shorten_path p working_dir =
     (case strip_prefix p working_dir of
        None \<Rightarrow> p
      | Some rel \<Rightarrow>
          (let rel' = (case strip_prefix rel [SLASH] of None \<Rightarrow> rel | Some r \<Rightarrow> r)
           in if rel' = [] then ''.'' else rel'))"

definition arg_or :: "json \<Rightarrow> str \<Rightarrow> str \<Rightarrow> str" where
  "arg_or args k dflt = (case json_get_str args k of None \<Rightarrow> dflt | Some s \<Rightarrow> s)"

definition first_todo :: "json \<Rightarrow> str option" where
  "first_todo args =
     (case Option.bind (json_get args ''todos'') as_array of
        Some (t # _) \<Rightarrow> json_get_str t ''content''
      | _ \<Rightarrow> None)"

definition build_args_summary :: "(json \<Rightarrow> str) \<Rightarrow> str \<Rightarrow> json \<Rightarrow> str \<Rightarrow> str" where
  "build_args_summary show_json tool_name args working_dir =
     (if tool_name = ''read'' then ''Reading '' @ shorten_path (arg_or args ''filePath'' ''?'') working_dir
      else if tool_name = ''write'' then ''Writing '' @ shorten_path (arg_or args ''filePath'' ''?'') working_dir
      else if tool_name = ''bash'' then arg_or args ''description'' ''?''
      else if tool_name = ''edit'' then ''Editing '' @ shorten_path (arg_or args ''filePath'' ''?'') working_dir
      else if tool_name = ''glob'' then ''Searching for '' @ arg_or args ''pattern'' ''?''
      else if tool_name = ''grep'' then ''Searching for /'' @ arg_or args ''pattern'' ''?'' @ ''/''
      else if tool_name = ''git'' then arg_or args ''description'' ''?''
      else if tool_name = ''create_pr'' then ''Creating PR: '' @ arg_or args ''title'' ''?''
      else if tool_name = ''save_plan'' then ''Saving plan: '' @ arg_or args ''filename'' ''plan.md''
      else if tool_name = ''edit_plan'' then
        (case json_get_str args ''file_path'' of
           Some p \<Rightarrow> ''Editing plan: '' @ shorten_path p working_dir
         | None \<Rightarrow> ''Editing plan'')
      else if tool_name = ''todo_write'' then
        (case first_todo args of Some c \<Rightarrow> ''Updating todos: '' @ c | None \<Rightarrow> ''Updating todos'')
      else if tool_name = ''todo_read'' then ''Reading todos''
      else if tool_name = ''codebase_search'' then ''Semantic search: '' @ arg_or args ''query'' ''?''
      else if tool_name = ''codebase_graph'' then
        ''Querying graph: '' @ arg_or args ''query'' (arg_or args ''function_name'' ''?'')
      else if tool_name = ''ask_user'' then ''Asking: '' @ truncate_str (arg_or args ''question'' ''?'') 60
      else if tool_name = ''skill'' then ''Loading skill: '' @ arg_or args ''name'' ''?''
      else
        let s = show_json args in
        if 100 < length s then truncate_str s 100 @ ''...'' else s)"

section \<open>One tool call\<close>

record tool_env =
  te_registry :: registry
  te_parse_json :: "str \<Rightarrow> str + json"
  te_show_json :: "json \<Rightarrow> str"
  te_approval :: "(str \<Rightarrow> str \<Rightarrow> json \<Rightarrow> str \<Rightarrow> approval_decision option) option"
  te_home :: "str option"
  te_git_dir :: "str \<Rightarrow> str option"

definition max_tool_output_lines :: nat where "max_tool_output_lines = 2000"
definition max_tool_output_bytes :: nat where "max_tool_output_bytes = 50 * 1024"

definition quoted :: "str \<Rightarrow> str" where
  "quoted s = [QUOTE] @ s @ [QUOTE]"

text \<open>What the two \<open>select!\<close> blocks compute: the reason of a denial, or \<open>None\<close>.\<close>

definition ask_approval ::
    "(str \<Rightarrow> str \<Rightarrow> json \<Rightarrow> str \<Rightarrow> approval_decision option) \<Rightarrow> str \<Rightarrow> str \<Rightarrow> json \<Rightarrow> str \<Rightarrow> str option" where
  "ask_approval handler tool_name call_id args summary =
     (case handler tool_name call_id args summary of
        None \<Rightarrow> Some ''Session cancelled''
      | Some Approved \<Rightarrow> None
      | Some (Denied (Some reason)) \<Rightarrow> Some reason
      | Some (Denied None) \<Rightarrow> Some ''User denied'')"

text \<open>\<open>get("file_path").or_else(get("filePath"))\<close>: the first key that is present decides, even when
  its value is not a string.\<close>

definition modified_file_path :: "str \<Rightarrow> json \<Rightarrow> str option" where
  "modified_file_path tool_name args =
     (if tool_name = ''write'' \<or> tool_name = ''edit''
      then Option.bind (case json_get args ''file_path'' of
             Some v \<Rightarrow> Some v | None \<Rightarrow> json_get args ''filePath'') as_str
      else None)"

definition display_path :: "str option \<Rightarrow> str \<Rightarrow> str" where
  "display_path home p =
     (case home of
        None \<Rightarrow> p
      | Some h \<Rightarrow> if starts_with p h then ''~'' @ drop (length h) p else p)"

definition security_summary :: "str option \<Rightarrow> str \<Rightarrow> str" where
  "security_summary home resolved =
     ''[SECURITY] Write to '' @ display_path home resolved @ '' (outside project)''"

text \<open>The path guard: the message with which the call is refused, or \<open>None\<close> to go on.\<close>

definition path_guard :: "tool_env \<Rightarrow> str \<Rightarrow> str \<Rightarrow> json \<Rightarrow> tool_context \<Rightarrow> world \<Rightarrow> str option" where
  "path_guard env call_id tool_name args cx w =
     (case modified_file_path tool_name args of
        None \<Rightarrow> None
      | Some file_path \<Rightarrow>
          (let resolved = resolve_path (cx_working_dir cx) file_path in
           if is_path_within_working_dir (w_disk w) (cx_working_dir cx) resolved then None
           else case te_approval env of
             Some handler \<Rightarrow>
               (case ask_approval handler tool_name call_id args
                       (security_summary (te_home env) resolved) of
                  None \<Rightarrow> None
                | Some reason \<Rightarrow>
                    Some (''Path '' @ quoted resolved
                      @ '' is outside the project directory. User denied: '' @ reason))
           | None \<Rightarrow>
               Some (''Path '' @ quoted resolved @ '' is outside the project directory ''
                 @ quoted (cx_working_dir cx) @ ''. No approval handler to ask user.'')))"

definition run_tool ::
    "tool_env \<Rightarrow> str \<Rightarrow> tool \<Rightarrow> json \<Rightarrow> tool_context \<Rightarrow> world \<Rightarrow> world \<times> agent_event list \<times> tool_result" where
  "run_tool env call_id t args cx w =
     (case tl_execute t args cx w of
        (w', evs, Inl e) \<Rightarrow> (w', evs, tool_failure (''Tool execution error: '' @ e))
      | (w', evs, Inr r) \<Rightarrow>
          (case truncate_and_persist (te_git_dir env) (tr_output r) max_tool_output_lines
                  max_tool_output_bytes (cx_working_dir cx) call_id (w_disk w') of
             (d, out) \<Rightarrow> (w'\<lparr>w_disk := d\<rparr>, evs, r\<lparr>tr_output := out\<rparr>)))"

definition note_modified :: "str option \<Rightarrow> tool_result \<Rightarrow> tool_result" where
  "note_modified p r =
     (case p of
        Some f \<Rightarrow> if \<not> tr_is_error r \<and> tr_modified_files r = [] then r\<lparr>tr_modified_files := [f]\<rparr> else r
      | None \<Rightarrow> r)"

definition tool_end :: "str \<Rightarrow> str \<Rightarrow> tool_result \<Rightarrow> agent_event" where
  "tool_end session_id call_id r =
     ToolEnd session_id call_id (\<not> tr_is_error r)
       (if 200 < length (tr_output r) then truncate_str (tr_output r) 200 @ ''...'' else tr_output r)
       (if \<not> tr_is_error r \<and> tr_modified_files r \<noteq> [] then Some (tr_modified_files r) else None)"

text \<open>Every refusal sends the same \<open>ToolEnd\<close> and returns the message as an error result.\<close>

definition refuse :: "str \<Rightarrow> str \<Rightarrow> agent_event list \<Rightarrow> str \<Rightarrow> world \<Rightarrow> world \<times> agent_event list \<times> tool_result" where
  "refuse session_id call_id evs msg w =
     (w, evs @ [ToolEnd session_id call_id False msg None], tool_failure msg)"

definition unknown_tool_msg :: "registry \<Rightarrow> str \<Rightarrow> str" where
  "unknown_tool_msg reg tool_name =
     ''Unknown tool: '' @ quoted tool_name @ ''. Available tools: ''
     @ join '', '' (map (\<lambda>d. fd_name (td_function d)) (tool_definitions reg))"

definition execute_tool_call ::
    "tool_env \<Rightarrow> str \<Rightarrow> str \<Rightarrow> str \<Rightarrow> tool_context \<Rightarrow> world \<Rightarrow> world \<times> agent_event list \<times> tool_result" where
  "execute_tool_call env call_id tool_name arguments_json cx w =
     (let sid = cx_session_id cx in
      case te_parse_json env arguments_json of
        Inl e \<Rightarrow>
          refuse sid call_id [ToolStart sid call_id tool_name (''Executing '' @ tool_name)]
            (''Invalid JSON in tool arguments: '' @ e) w
      | Inr args \<Rightarrow>
          (let args_summary = build_args_summary (te_show_json env) tool_name args (cx_working_dir cx);
               evs = [ToolStart sid call_id tool_name args_summary]
           in case get_tool (te_registry env) tool_name of
                None \<Rightarrow> refuse sid call_id evs (unknown_tool_msg (te_registry env) tool_name) w
              | Some t \<Rightarrow>
                  (case validate_args args (tl_schema t) of
                     Inl e \<Rightarrow>
                       refuse sid call_id evs
                         (''Invalid arguments for tool '' @ quoted tool_name @ '': '' @ e) w
                   | Inr _ \<Rightarrow>
                       (case (case te_approval env of
                                None \<Rightarrow> None
                              | Some handler \<Rightarrow> ask_approval handler tool_name call_id args args_summary) of
                          Some reason \<Rightarrow>
                            refuse sid call_id evs
                              (''Permission denied for tool '' @ quoted tool_name @ '': '' @ reason) w
                        | None \<Rightarrow>
                            (case path_guard env call_id tool_name args cx w of
                               Some msg \<Rightarrow> refuse sid call_id evs msg w
                             | None \<Rightarrow>
                                 (case run_tool env call_id t args (cx\<lparr>cx_tool_call_id := call_id\<rparr>) w of
                                    (w', tevs, r) \<Rightarrow>
                                      (let r' = note_modified (modified_file_path tool_name args) r
                                       in (w', evs @ tevs @ [tool_end sid call_id r'], r'))))))))"

end
