(* ===== verification/Permissions.thy ===== *)
theory Permissions
  imports FileSystem Messages
begin

text \<open>
  Who has to approve a tool call: the permission table and the decision of
  \<open>apps/desktop/src-tauri/src/agent_bridge/permissions.rs\<close>, and the approval handlers of
  \<open>agent_bridge/events.rs\<close>. The table \<open>agent_permissions\<close> is a map from its primary key to a row; the
  JSON text of the overrides is printed and parsed by two parameters standing for \<open>serde_json\<close>. What
  the user answers to a request is the function given to the handler that asks.
\<close>

section \<open>Configuration\<close>

datatype permission_level = AutoApproveAll | ApproveDestructive | ApproveEverything

record tool_overrides =
  ov_auto_approve :: "str list"
  ov_always_ask :: "str list"

record permission_config =
  pc_project_path :: "str option"
  pc_level :: permission_level
  pc_tool_overrides :: "tool_overrides option"

definition destructive_tools :: "str list" where
  "destructive_tools = [''write'', ''edit'', ''bash'', ''git'', ''create_pr'', ''apply_patch'']"

definition system_tools :: "str list" where
  "system_tools = [''todo_write'', ''ask_user'', ''save_plan'', ''edit_plan'']"

definition is_destructive :: "str \<Rightarrow> bool" where
  "is_destructive tool_name \<longleftrightarrow> tool_name \<in> set destructive_tools"

definition needs_approval :: "permission_config \<Rightarrow> str \<Rightarrow> bool" where
  "needs_approval config tool_name =
     (case (case pc_tool_overrides config of
              None \<Rightarrow> None
            | Some ov \<Rightarrow>
                if tool_name \<in> set (ov_auto_approve ov) then Some False
                else if tool_name \<in> set (ov_always_ask ov) then Some True
                else None) of
        Some answer \<Rightarrow> answer
      | None \<Rightarrow>
          if tool_name \<in> set system_tools then False
          else case pc_level config of
            AutoApproveAll \<Rightarrow> False
          | ApproveEverything \<Rightarrow> True
          | ApproveDestructive \<Rightarrow> is_destructive tool_name)"

definition level_to_str :: "permission_level \<Rightarrow> str" where
  "level_to_str l =
     (case l of
        AutoApproveAll \<Rightarrow> ''auto_approve_all''
      | ApproveDestructive \<Rightarrow> ''approve_destructive''
      | ApproveEverything \<Rightarrow> ''approve_everything'')"

definition str_to_level :: "str \<Rightarrow> permission_level" where
  "str_to_level s =
     (if s = ''auto_approve_all'' then AutoApproveAll
      else if s = ''approve_everything'' then ApproveEverything
      else ApproveDestructive)"

section \<open>The table\<close>

record permission_row =
  pr_level :: str
  pr_tool_overrides :: "str option"

type_synonym permission_table = "str \<Rightarrow> permission_row option"

definition global_key :: str where
  "global_key = ''__global__''"

definition row_config ::
    "(str \<Rightarrow> tool_overrides option) \<Rightarrow> str option \<Rightarrow> permission_row \<Rightarrow> permission_config" where
  "row_config parse_overrides project row =
     \<lparr>pc_project_path = project, pc_level = str_to_level (pr_level row),
      pc_tool_overrides = Option.bind (pr_tool_overrides row) parse_overrides\<rparr>"

text \<open>\<open>Path::parent\<close> on the text of a path: the shortest beginning of it that names the parent.\<close>

definition parent_str :: "str \<Rightarrow> str option" where
  "parent_str s =
     (case path_parent (components s) of
        None \<Rightarrow> None
      | Some q \<Rightarrow> find (\<lambda>t. components t = q) (map (\<lambda>n. take n s) [0..<length s]))"

lemma parent_str_shorter: "parent_str s = Some t \<Longrightarrow> length t < length s"
  by (auto simp: parent_str_def find_Some_iff split: option.splits)

function find_ancestor :: "permission_table \<Rightarrow> str \<Rightarrow> permission_row option" where
  "find_ancestor tbl search_path =
     (case parent_str search_path of
        None \<Rightarrow> None
      | Some parent \<Rightarrow>
          if parent = [] then None
          else case tbl parent of
            Some row \<Rightarrow> Some row
          | None \<Rightarrow> find_ancestor tbl parent)"
  by pat_completeness auto
termination
  by (relation "measure (\<lambda>(tbl, s). length s)") (auto simp: parent_str_shorter)

declare find_ancestor.simps [simp del]

definition get_global :: "(str \<Rightarrow> tool_overrides option) \<Rightarrow> permission_table \<Rightarrow> permission_config" where
  "get_global parse_overrides tbl =
     (case tbl global_key of
        Some row \<Rightarrow> row_config parse_overrides None row
      | None \<Rightarrow> \<lparr>pc_project_path = None, pc_level = ApproveDestructive, pc_tool_overrides = None\<rparr>)"

definition get_permission ::
    "(str \<Rightarrow> tool_overrides option) \<Rightarrow> permission_table \<Rightarrow> str option \<Rightarrow> permission_config" where
  "get_permission parse_overrides tbl project =
     (case project of
        None \<Rightarrow> get_global parse_overrides tbl
      | Some p \<Rightarrow>
          (case tbl p of
             Some row \<Rightarrow> row_config parse_overrides project row
           | None \<Rightarrow>
               (case find_ancestor tbl p of
                  Some row \<Rightarrow> row_config parse_overrides project row
                | None \<Rightarrow> (get_global parse_overrides tbl)\<lparr>pc_project_path := project\<rparr>)))"

definition config_key :: "permission_config \<Rightarrow> str" where
  "config_key config = (case pc_project_path config of None \<Rightarrow> global_key | Some p \<Rightarrow> p)"

definition set_permission ::
    "(tool_overrides \<Rightarrow> str) \<Rightarrow> permission_table \<Rightarrow> permission_config \<Rightarrow> permission_table" where
  "set_permission print_overrides tbl config =
     tbl(config_key config \<mapsto> \<lparr>pr_level = level_to_str (pc_level config),
           pr_tool_overrides = map_option print_overrides (pc_tool_overrides config)\<rparr>)"

section \<open>Handlers\<close>

text \<open>A handler maps the tool's name, the call's id, the arguments and the summary to a decision.\<close>

type_synonym approval_handler = "str \<Rightarrow> str \<Rightarrow> json \<Rightarrow> str \<Rightarrow> approval_decision"

definition permission_aware_handler :: "permission_config \<Rightarrow> approval_handler \<Rightarrow> approval_handler" where
  "permission_aware_handler config ask_user_handler tool_name call_id args summary =
     (let force_ask = starts_with summary ''[SECURITY]'' in
      if \<not> force_ask \<and> \<not> needs_approval config tool_name then Approved
      else ask_user_handler tool_name call_id args summary)"

definition subagent_handler :: "str \<Rightarrow> approval_handler \<Rightarrow> approval_handler" where
  "subagent_handler subagent_name inner tool_name call_id args summary =
     inner tool_name call_id args (''(subagent:'' @ subagent_name @ '') '' @ summary)"

text \<open>
  \<open>TauriApprovalHandler\<close>: a request waits for its channel; the pending table has one channel per call
  id, so a new request with the same id drops the older channel, whose request ends as cancelled.
  Requests are numbered in the order in which they are made.
\<close>

record pending_state =
  ps_next :: nat
  ps_pending :: "str \<Rightarrow> nat option"
  ps_decided :: "nat \<Rightarrow> approval_decision option"

definition session_cancelled :: approval_decision where
  "session_cancelled = Denied (Some ''Session cancelled'')"

definition request_made :: "str \<Rightarrow> pending_state \<Rightarrow> pending_state" where
  "request_made call_id st =
     \<lparr>ps_next = Suc (ps_next st),
      ps_pending = (ps_pending st)(call_id \<mapsto> ps_next st),
      ps_decided = (case ps_pending st call_id of
                      None \<Rightarrow> ps_decided st
                    | Some n \<Rightarrow> (ps_decided st)(n \<mapsto> session_cancelled))\<rparr>"

definition request_resolved :: "str \<Rightarrow> bool \<Rightarrow> pending_state \<Rightarrow> pending_state" where
  "request_resolved call_id ok st =
     (case ps_pending st call_id of
        None \<Rightarrow> st
      | Some n \<Rightarrow>
          st\<lparr>ps_pending := (ps_pending st)(call_id := None),
             ps_decided := (ps_decided st)
               (n \<mapsto> (if ok then Approved else Denied (Some ''User denied'')))\<rparr>)"

inductive pending_reachable :: "pending_state \<Rightarrow> bool" where
  start: "pending_reachable \<lparr>ps_next = 0, ps_pending = (\<lambda>_. None), ps_decided = (\<lambda>_. None)\<rparr>"
| request: "pending_reachable st \<Longrightarrow> pending_reachable (request_made c st)"
| resolve: "pending_reachable st \<Longrightarrow> pending_reachable (request_resolved c b st)"

section \<open>Decisions\<close>

text \<open>A tool call needs approval exactly when the overrides ask for it, or when the overrides do not
  mention the tool, it is not a system tool and the level asks for it; automatic approval wins over
  asking when a tool is in both override lists.\<close>

theorem needs_approval_iff:
  "needs_approval cfg t \<longleftrightarrow>
     (\<exists>ov. pc_tool_overrides cfg = Some ov \<and> t \<in> set (ov_always_ask ov) \<and> t \<notin> set (ov_auto_approve ov))
     \<or> ((\<forall>ov. pc_tool_overrides cfg = Some ov \<longrightarrow> t \<notin> set (ov_auto_approve ov) \<union> set (ov_always_ask ov))
        \<and> t \<notin> set system_tools
        \<and> (pc_level cfg = ApproveEverything \<or> (pc_level cfg = ApproveDestructive \<and> t \<in> set destructive_tools)))"
  by (auto simp: needs_approval_def is_destructive_def split: option.splits permission_level.splits)

theorem needs_approval_iff_witness:
  "needs_approval \<lparr>pc_project_path = None, pc_level = ApproveDestructive,
      pc_tool_overrides = Some \<lparr>ov_auto_approve = [''bash''], ov_always_ask = [''bash'', ''read'']\<rparr>\<rparr> ''read''
   \<and> \<not> needs_approval \<lparr>pc_project_path = None, pc_level = ApproveDestructive,
      pc_tool_overrides = Some \<lparr>ov_auto_approve = [''bash''], ov_always_ask = [''bash'', ''read'']\<rparr>\<rparr> ''bash''"
  unfolding needs_approval_iff by simp

lemma level_roundtrip [simp]: "str_to_level (level_to_str l) = l"
  by (cases l) (simp_all add: str_to_level_def level_to_str_def)

text \<open>What \<open>set_permission\<close> stores, \<open>get_permission\<close> returns, and the settings of every project that has
  a row of its own are unaffected.\<close>

theorem permission_set_get:
  assumes "\<And>ov. pc_tool_overrides cfg = Some ov \<Longrightarrow> parse_ov (print_ov ov) = Some ov"
  shows "get_permission parse_ov (set_permission print_ov tbl cfg) (pc_project_path cfg) = cfg
     \<and> (tbl p \<noteq> None \<and> p \<noteq> config_key cfg \<longrightarrow>
          get_permission parse_ov (set_permission print_ov tbl cfg) (Some p) = get_permission parse_ov tbl (Some p))"
proof -
  have "Option.bind (map_option print_ov (pc_tool_overrides cfg)) parse_ov = pc_tool_overrides cfg"
    using assms by (cases "pc_tool_overrides cfg") auto
  then show ?thesis
    by (cases cfg) (auto simp: get_permission_def set_permission_def get_global_def row_config_def
        config_key_def split: option.splits)
qed

theorem permission_set_get_witness:
  "get_permission (\<lambda>_. Some \<lparr>ov_auto_approve = [''git''], ov_always_ask = []\<rparr>)
     (set_permission (\<lambda>_. ''o'') (\<lambda>_. None)
        \<lparr>pc_project_path = Some ''/p'', pc_level = ApproveEverything,
         pc_tool_overrides = Some \<lparr>ov_auto_approve = [''git''], ov_always_ask = []\<rparr>\<rparr>) (Some ''/p'')
   = \<lparr>pc_project_path = Some ''/p'', pc_level = ApproveEverything,
      pc_tool_overrides = Some \<lparr>ov_auto_approve = [''git''], ov_always_ask = []\<rparr>\<rparr>"
proof -
  let ?cfg = "\<lparr>pc_project_path = Some ''/p'', pc_level = ApproveEverything,
      pc_tool_overrides = Some \<lparr>ov_auto_approve = [''git''], ov_always_ask = []\<rparr>\<rparr>"
  have "pc_tool_overrides ?cfg = Some ov \<Longrightarrow>
      (\<lambda>_. Some \<lparr>ov_auto_approve = [''git''], ov_always_ask = []\<rparr>) ((\<lambda>_. ''o'') ov) = Some ov" for ov
    by simp
  from permission_set_get [of ?cfg "\<lambda>_. Some \<lparr>ov_auto_approve = [''git''], ov_always_ask = []\<rparr>" "\<lambda>_. ''o''", OF this]
  show ?thesis by simp
qed

text \<open>A worktree below a project takes the settings of the nearest directory above it that has some.\<close>

lemma get_permission_inherits:
  assumes "tbl p = None" and "parent_str p = Some q" and "q \<noteq> []" and "tbl q = Some row"
  shows "get_permission parse_ov tbl (Some p) = row_config parse_ov (Some p) row"
proof -
  have "find_ancestor tbl p = Some row" using assms by (subst find_ancestor.simps) simp
  with assms(1) show ?thesis by (simp add: get_permission_def)
qed

section \<open>Security prompts\<close>

lemma security_prompt_asks_user:
  "permission_aware_handler cfg user t c args (''[SECURITY]'' @ rest) = user t c args (''[SECURITY]'' @ rest)"
  by (simp add: permission_aware_handler_def)

lemma subagent_prompt_not_forced:
  "\<not> needs_approval cfg t \<Longrightarrow>
   subagent_handler name (permission_aware_handler cfg user) t c args summary = Approved"
  by (simp add: subagent_handler_def permission_aware_handler_def Let_def)

section \<open>Pending requests\<close>

definition waits :: "pending_state \<Rightarrow> nat \<Rightarrow> bool" where
  "waits st n \<longleftrightarrow> (\<exists>c. ps_pending st c = Some n)"

definition settled_once :: "pending_state \<Rightarrow> bool" where
  "settled_once st \<longleftrightarrow>
     (\<forall>n. n < ps_next st \<longleftrightarrow> (ps_decided st n \<noteq> None \<or> waits st n))
     \<and> (\<forall>n. waits st n \<longrightarrow> ps_decided st n = None)
     \<and> (\<forall>c c' n. ps_pending st c = Some n \<and> ps_pending st c' = Some n \<longrightarrow> c = c')"

lemma settledD:
  assumes "settled_once st"
  shows "n < ps_next st \<longleftrightarrow> (ps_decided st n \<noteq> None \<or> waits st n)"
    and "waits st n \<Longrightarrow> ps_decided st n = None"
    and "ps_pending st c = Some n \<Longrightarrow> ps_pending st c' = Some n \<Longrightarrow> c = c'"
  using assms unfolding settled_once_def by blast+

lemma settled_made:
  assumes s: "settled_once st"
  shows "settled_once (request_made c st)"
proof -
  let ?st' = "request_made c st" and ?k = "ps_next st"
  have old: "ps_pending st x = Some n \<Longrightarrow> n < ?k" for x n
    using settledD(1) [OF s, of n] by (auto simp: waits_def)
  have fresh: "ps_decided st ?k = None" using settledD(1) [OF s, of ?k] by simp
  have pend: "ps_pending ?st' x = (if x = c then Some ?k else ps_pending st x)" for x
    by (simp add: request_made_def)
  have dec: "ps_decided ?st' n = (if ps_pending st c = Some n then Some session_cancelled else ps_decided st n)" for n
    by (simp add: request_made_def split: option.splits)
  have w: "waits ?st' n \<longleftrightarrow> n = ?k \<or> (waits st n \<and> ps_pending st c \<noteq> Some n)" for n
  proof
    assume "waits ?st' n"
    then obtain x where "ps_pending ?st' x = Some n" by (auto simp: waits_def)
    then show "n = ?k \<or> (waits st n \<and> ps_pending st c \<noteq> Some n)"
      using settledD(3) [OF s] by (auto simp: pend waits_def split: if_splits)
  next
    assume "n = ?k \<or> (waits st n \<and> ps_pending st c \<noteq> Some n)"
    then show "waits ?st' n"
    proof
      assume "n = ?k"
      then have "ps_pending ?st' c = Some n" by (simp add: pend)
      then show ?thesis by (auto simp: waits_def)
    next
      assume "waits st n \<and> ps_pending st c \<noteq> Some n"
      then obtain x where "ps_pending st x = Some n" "x \<noteq> c" by (auto simp: waits_def)
      then have "ps_pending ?st' x = Some n" by (simp add: pend)
      then show ?thesis by (auto simp: waits_def)
    qed
  qed
  have "n < ps_next ?st' \<longleftrightarrow> (ps_decided ?st' n \<noteq> None \<or> waits ?st' n)" for n
    using settledD(1) [OF s, of n] w [of n] dec [of n] by (auto simp: request_made_def waits_def)
  moreover have "ps_decided ?st' n = None" if "waits ?st' n" for n
    using that w [of n] dec [of n] fresh old [of c n] settledD(2) [OF s, of n] by auto
  moreover have "x = y" if "ps_pending ?st' x = Some n" "ps_pending ?st' y = Some n" for x y n
    using that old [of x n] old [of y n] settledD(3) [OF s, of x n y] by (auto simp: pend split: if_splits)
  ultimately show ?thesis unfolding settled_once_def by blast
qed

lemma settled_resolved:
  assumes s: "settled_once st"
  shows "settled_once (request_resolved c b st)"
proof (cases "ps_pending st c")
  case None
  with s show ?thesis by (simp add: request_resolved_def)
next
  case (Some m)
  let ?st' = "request_resolved c b st"
  have pend: "ps_pending ?st' x = (if x = c then None else ps_pending st x)" for x
    using Some by (simp add: request_resolved_def)
  have dec: "ps_decided ?st' n \<noteq> None \<longleftrightarrow> n = m \<or> ps_decided st n \<noteq> None" for n
    using Some by (simp add: request_resolved_def)
  have w: "waits ?st' n \<longleftrightarrow> waits st n \<and> n \<noteq> m" for n
  proof
    assume "waits ?st' n"
    then obtain x where "ps_pending ?st' x = Some n" by (auto simp: waits_def)
    then have x: "ps_pending st x = Some n" "x \<noteq> c" by (simp_all add: pend split: if_splits)
    then have "n \<noteq> m" using settledD(3) [OF s x(1), of c] Some by auto
    with x(1) show "waits st n \<and> n \<noteq> m" by (auto simp: waits_def)
  next
    assume "waits st n \<and> n \<noteq> m"
    then obtain x where "ps_pending st x = Some n" "n \<noteq> m" by (auto simp: waits_def)
    moreover from this have "x \<noteq> c" using Some by auto
    ultimately have "ps_pending ?st' x = Some n" by (simp add: pend)
    then show "waits ?st' n" by (auto simp: waits_def)
  qed
  have "waits st m" using Some by (auto simp: waits_def)
  have "n < ps_next ?st' \<longleftrightarrow> (ps_decided ?st' n \<noteq> None \<or> waits ?st' n)" for n
  proof -
    have nxt: "ps_next ?st' = ps_next st" using Some by (simp add: request_resolved_def)
    show ?thesis
      using settledD(1) [OF s, of n] \<open>waits st m\<close> w [of n] dec [of n] nxt
      by (cases "n = m") simp_all
  qed
  moreover have "ps_decided ?st' n = None" if "waits ?st' n" for n
    using that w [of n] dec [of n] settledD(2) [OF s, of n] by auto
  moreover have "x = y" if "ps_pending ?st' x = Some n" "ps_pending ?st' y = Some n" for x y n
    using that settledD(3) [OF s, of x n y] by (auto simp: pend split: if_splits)
  ultimately show ?thesis unfolding settled_once_def by blast
qed

lemma pending_settled: "pending_reachable st \<Longrightarrow> settled_once st"
proof (induction rule: pending_reachable.induct)
  case start
  show ?case by (simp add: settled_once_def waits_def)
qed (simp_all add: settled_made settled_resolved)

text \<open>C34. Every approval request is either waiting under its call id or decided, never both, and a decision
  is never changed by what comes after it.\<close>

theorem approval_requests_settle_once:
  assumes "pending_reachable st"
  shows "(n < ps_next st \<longleftrightarrow> (ps_decided st n \<noteq> None \<or> waits st n))
    \<and> \<not> (ps_decided st n \<noteq> None \<and> waits st n)
    \<and> (ps_decided st n \<noteq> None \<longrightarrow>
         ps_decided (request_made c st) n = ps_decided st n
         \<and> ps_decided (request_resolved c b st) n = ps_decided st n)"
proof -
  note s = pending_settled [OF assms]
  have "ps_decided (request_made c st) n = ps_decided st n
      \<and> ps_decided (request_resolved c b st) n = ps_decided st n" if "ps_decided st n \<noteq> None"
  proof -
    have "\<not> waits st n" using settledD(2) [OF s, of n] that by auto
    then have "ps_pending st c \<noteq> Some n" by (auto simp: waits_def)
    then show ?thesis
      by (auto simp: request_made_def request_resolved_def split: option.splits)
  qed
  with settledD(1,2) [OF s, of n] show ?thesis by metis
qed

theorem approval_requests_settle_once_witness:
  "ps_decided (request_resolved ''b'' True (request_resolved ''a'' False (request_made ''a''
     \<lparr>ps_next = 0, ps_pending = (\<lambda>_. None), ps_decided = (\<lambda>_. None)\<rparr>))) 0 = Some (Denied (Some ''User denied''))"
proof -
  let ?st = "request_resolved ''a'' False (request_made ''a''
     \<lparr>ps_next = 0, ps_pending = (\<lambda>_. None), ps_decided = (\<lambda>_. None)\<rparr>)"
  have "pending_reachable ?st" by (intro pending_reachable.intros)
  moreover have "ps_decided ?st 0 = Some (Denied (Some ''User denied''))"
    by (simp add: request_made_def request_resolved_def)
  ultimately show ?thesis
    using approval_requests_settle_once [where st = ?st and n = 0 and c = "''b''" and b = True] by simp
qed

end
