(* ===== verification/ToolExecFacts.thy ===== *)
theory ToolExecFacts
  imports ToolExec ToolFacts Permissions
begin

text \<open>
  Facts about one tool call: the events that bracket it, what has to happen before a tool runs, who
  decides about writes outside the project, and the two ways around that decision.
\<close>

section \<open>Events and refusals\<close>

text \<open>The call gets through the checks: the arguments are JSON, the tool exists and accepts them, the
  approval handler does not deny the call and the path guard lets it pass.\<close>

definition call_admitted ::
    "tool_env \<Rightarrow> str \<Rightarrow> str \<Rightarrow> str \<Rightarrow> tool_context \<Rightarrow> world \<Rightarrow> tool \<Rightarrow> json \<Rightarrow> bool" where
  "call_admitted env call_id tool_name arguments_json cx w t args \<longleftrightarrow>
     te_parse_json env arguments_json = Inr args
     \<and> get_tool (te_registry env) tool_name = Some t
     \<and> validate_args args (tl_schema t) = Inr ()
     \<and> (te_approval env = None \<or>
        (\<exists>h. te_approval env = Some h \<and>
           ask_approval h tool_name call_id args
             (build_args_summary (te_show_json env) tool_name args (cx_working_dir cx)) = None))
     \<and> path_guard env call_id tool_name args cx w = None"

lemma refuse_eq [simp]:
  "refuse sid c evs msg w = (w, evs @ [ToolEnd sid c False msg None], tool_failure msg)"
  by (simp add: refuse_def)

lemma tool_failure_error [simp]: "tr_is_error (tool_failure m)" "tr_output (tool_failure m) = m"
  "tr_modified_files (tool_failure m) = []" "tr_yield_data (tool_failure m) = None"
  by (simp_all add: tool_failure_def)

lemma execute_tool_call_admitted:
  assumes "call_admitted env call_id tool_name js cx w t args"
  shows "execute_tool_call env call_id tool_name js cx w =
     (case run_tool env call_id t args (cx\<lparr>cx_tool_call_id := call_id\<rparr>) w of
        (w', tevs, r) \<Rightarrow>
          (w', [ToolStart (cx_session_id cx) call_id tool_name
                  (build_args_summary (te_show_json env) tool_name args (cx_working_dir cx))]
               @ tevs @ [tool_end (cx_session_id cx) call_id
                           (note_modified (modified_file_path tool_name args) r)],
           note_modified (modified_file_path tool_name args) r))"
  using assms
  by (auto simp: call_admitted_def execute_tool_call_def Let_def split: prod.splits)

lemma execute_tool_call_refused:
  assumes "\<nexists>t args. call_admitted env call_id tool_name js cx w t args"
  shows "\<exists>summary msg. execute_tool_call env call_id tool_name js cx w =
     (w, [ToolStart (cx_session_id cx) call_id tool_name summary,
          ToolEnd (cx_session_id cx) call_id False msg None], tool_failure msg)"
proof (cases "te_parse_json env js")
  case (Inl e)
  then show ?thesis by (simp add: execute_tool_call_def Let_def)
next
  case p: (Inr args)
  show ?thesis
  proof (cases "get_tool (te_registry env) tool_name")
    case None
    with p show ?thesis by (simp add: execute_tool_call_def Let_def)
  next
    case t: (Some t)
    show ?thesis
    proof (cases "validate_args args (tl_schema t)")
      case (Inl e)
      with p t show ?thesis by (simp add: execute_tool_call_def Let_def)
    next
      case v: (Inr u)
      let ?s = "build_args_summary (te_show_json env) tool_name args (cx_working_dir cx)"
      let ?d = "case te_approval env of None \<Rightarrow> None | Some h \<Rightarrow> ask_approval h tool_name call_id args ?s"
      show ?thesis
      proof (cases ?d)
        case (Some reason)
        with p t v show ?thesis by (simp add: execute_tool_call_def Let_def)
      next
        case None
        then have "te_approval env = None \<or>
            (\<exists>h. te_approval env = Some h \<and> ask_approval h tool_name call_id args ?s = None)"
          by (cases "te_approval env") auto
        with assms p t v have "path_guard env call_id tool_name args cx w \<noteq> None"
          by (auto simp: call_admitted_def)
        with p t v None show ?thesis by (auto simp: execute_tool_call_def Let_def)
      qed
    qed
  qed
qed

text \<open>C18. Every tool call sends a \<open>ToolStart\<close> first and a \<open>ToolEnd\<close> last, both with the call's id, and the
  \<open>ToolEnd\<close> reports success exactly when the result is not an error; what a tool sends itself comes
  between the two.\<close>

theorem tool_call_events_bracketed:
  "\<exists>summary text files. fst (snd (execute_tool_call env call_id tool_name js cx w)) =
     [ToolStart (cx_session_id cx) call_id tool_name summary]
     @ butlast (tl (fst (snd (execute_tool_call env call_id tool_name js cx w))))
     @ [ToolEnd (cx_session_id cx) call_id
          (\<not> tr_is_error (snd (snd (execute_tool_call env call_id tool_name js cx w)))) text files]"
proof (cases "\<exists>t args. call_admitted env call_id tool_name js cx w t args")
  case True
  then obtain t args where a: "call_admitted env call_id tool_name js cx w t args" by blast
  show ?thesis
    unfolding execute_tool_call_admitted [OF a]
    by (cases "run_tool env call_id t args (cx\<lparr>cx_tool_call_id := call_id\<rparr>) w")
       (simp add: tool_end_def butlast_append)
next
  case False
  then show ?thesis using execute_tool_call_refused [of env call_id tool_name js cx w] by auto
qed

text \<open>C14. A tool runs only when the call got through every check: otherwise the call changes nothing, sends
  only its two events and returns an error.\<close>

theorem refused_call_changes_nothing:
  "(\<exists>t args. call_admitted env call_id tool_name js cx w t args
      \<and> fst (execute_tool_call env call_id tool_name js cx w) =
        fst (run_tool env call_id t args (cx\<lparr>cx_tool_call_id := call_id\<rparr>) w))
   \<or> (fst (execute_tool_call env call_id tool_name js cx w) = w
      \<and> length (fst (snd (execute_tool_call env call_id tool_name js cx w))) = 2
      \<and> tr_is_error (snd (snd (execute_tool_call env call_id tool_name js cx w))))"
proof (cases "\<exists>t args. call_admitted env call_id tool_name js cx w t args")
  case True
  then obtain t args where a: "call_admitted env call_id tool_name js cx w t args" by blast
  have "fst (execute_tool_call env call_id tool_name js cx w) =
        fst (run_tool env call_id t args (cx\<lparr>cx_tool_call_id := call_id\<rparr>) w)"
    unfolding execute_tool_call_admitted [OF a] by (simp split: prod.splits)
  with a show ?thesis by blast
next
  case False
  then show ?thesis using execute_tool_call_refused [of env call_id tool_name js cx w] by auto
qed

section \<open>Writes outside the project\<close>

lemma modified_path_from_filePath:
  assumes "tool_name = ''write'' \<or> tool_name = ''edit''"
    and "json_get args ''file_path'' = None"
  shows "modified_file_path tool_name args = json_get_str args ''filePath''"
  using assms by (auto simp: modified_file_path_def json_get_str_def)

lemma ask_approval_None: "ask_approval h t c a s = None \<longleftrightarrow> h t c a s = Some Approved"
  by (auto simp: ask_approval_def split: option.splits approval_decision.splits)

lemma security_prompt: "starts_with (security_summary home p) ''[SECURITY]''"
  by (simp add: security_summary_def starts_with_def)

text \<open>C16. With the permission-aware handler of a top-level session, whatever its settings, \<open>write\<close> and
  \<open>edit\<close> calls that give their path as \<open>filePath\<close> and not as \<open>file_path\<close>, and whose path the working
  directory test rejects, change nothing unless the user approves the request that names the resolved path.
  The guard goes no further: a call with both keys is tested by the other one, the test accepts some paths that
  lead out of the directory, other tools are not tested, and the handler of a subagent hides the warning
  (\<open>subagent_outside_write_unasked\<close>, \<open>edit_plan_edits_any_file\<close>).\<close>

theorem outside_write_needs_user:
  assumes "te_approval env = Some h"
    and "\<And>args s d. h tool_name call_id args s = Some d \<Longrightarrow>
           d = permission_aware_handler cfg user tool_name call_id args s"
    and "tool_name = ''write'' \<or> tool_name = ''edit''"
    and "te_parse_json env js = Inr args"
    and "json_get args ''file_path'' = None" and "json_get_str args ''filePath'' = Some p"
    and "\<not> is_path_within_working_dir (w_disk w) (cx_working_dir cx) (resolve_path (cx_working_dir cx) p)"
    and "fst (execute_tool_call env call_id tool_name js cx w) \<noteq> w"
  shows "user tool_name call_id args
     (security_summary (te_home env) (resolve_path (cx_working_dir cx) p)) = Approved"
proof -
  let ?s = "security_summary (te_home env) (resolve_path (cx_working_dir cx) p)"
  have "\<exists>t args. call_admitted env call_id tool_name js cx w t args"
    using execute_tool_call_refused [of env call_id tool_name js cx w] assms(8) by fastforce
  then have "path_guard env call_id tool_name args cx w = None"
    using assms(4) by (auto simp: call_admitted_def)
  then have "h tool_name call_id args ?s = Some Approved"
    using assms(1,7) modified_path_from_filePath [OF assms(3,5)] assms(6)
    by (auto simp: path_guard_def Let_def ask_approval_None split: option.splits)
  then have "permission_aware_handler cfg user tool_name call_id args ?s = Approved"
    using assms(2) by fastforce
  then show ?thesis using security_prompt by (simp add: permission_aware_handler_def)
qed

lemma ask_approval_cong: "h t c a s = h' t c a s \<Longrightarrow> ask_approval h t c a s = ask_approval h' t c a s"
  by (simp add: ask_approval_def)

lemma execute_tool_call_handler_cong:
  assumes "te_approval env = Some h"
    and "\<And>args s. h tool_name call_id args s = h' tool_name call_id args s"
  shows "execute_tool_call env call_id tool_name js cx w =
         execute_tool_call (env\<lparr>te_approval := Some h'\<rparr>) call_id tool_name js cx w"
proof -
  have a: "ask_approval h tool_name call_id args s = ask_approval h' tool_name call_id args s" for args s
    by (rule ask_approval_cong) (rule assms(2))
  have "path_guard env call_id tool_name args cx w =
        path_guard (env\<lparr>te_approval := Some h'\<rparr>) call_id tool_name args cx w" for args
    
    by (cases "modified_file_path tool_name args") (simp_all add: path_guard_def Let_def assms(1) a)
  moreover have "run_tool (env\<lparr>te_approval := x\<rparr>) = run_tool env" for x
    by (simp add: run_tool_def fun_eq_iff cong: prod.case_cong sum.case_cong)
  ultimately show ?thesis
    by (simp add: execute_tool_call_def assms(1) a cong: option.case_cong sum.case_cong)
qed

text \<open>The tag that a subagent's handler puts before the summary hides \<open>[SECURITY]\<close> from the
  permission check: for a tool the settings approve automatically, a subagent's call runs as if every
  request were approved, whatever the user would answer, writes outside the project included.\<close>

theorem subagent_outside_write_unasked:
  assumes "te_approval env = Some (\<lambda>t c a s. Some (subagent_handler name (permission_aware_handler cfg user) t c a s))"
    and "\<not> needs_approval cfg tool_name"
  shows "execute_tool_call env call_id tool_name js cx w =
     execute_tool_call (env\<lparr>te_approval := Some (\<lambda>_ _ _ _. Some Approved)\<rparr>) call_id tool_name js cx w"
  by (rule execute_tool_call_handler_cong [OF assms(1)])
     (simp add: subagent_handler_def permission_aware_handler_def assms(2) starts_with_def Let_def)

section \<open>Examples\<close>

text \<open>A session in \<open>/p\<close> with the \<open>write\<close> tool. The arguments are the parsed value itself; the handler is
  the one under test.\<close>

definition demo_env :: "json \<Rightarrow> approval_handler option \<Rightarrow> tool_env" where
  "demo_env args h =
     \<lparr>te_registry = register write_tool [], te_parse_json = (\<lambda>_. Inr args), te_show_json = (\<lambda>_. ''?''),
      te_approval = map_option (\<lambda>f t c a s. Some (f t c a s)) h, te_home = None, te_git_dir = (\<lambda>_. None)\<rparr>"

definition auto_config :: permission_config where
  "auto_config = \<lparr>pc_project_path = None, pc_level = AutoApproveAll, pc_tool_overrides = None\<rparr>"

definition deny_all :: approval_handler where
  "deny_all t c a s = Denied None"

definition outside_args :: json where
  "outside_args = JObj [(''content'', JStr ''new''), (''filePath'', JStr ''/x'')]"

definition two_key_args :: json where
  "two_key_args = JObj [(''content'', JStr ''new''), (''filePath'', JStr ''/x''), (''file_path'', JStr ''a'')]"

definition demo_world :: world where
  "demo_world = \<lparr>w_disk = demo_disk ''v'', w_store = (\<lambda>_. None)\<rparr>"

lemma short_output_kept:
  assumes "length (str_lines s) \<le> 2000" and "length s \<le> 51200"
  shows "truncate_and_persist g s max_tool_output_lines max_tool_output_bytes wd c d = (d, s)"
  using assms by (simp add: truncate_and_persist_def max_tool_output_lines_def max_tool_output_bytes_def)

lemma demo_outside: "\<not> is_path_within_working_dir (demo_disk b) ''/p'' ''/x''"
  by code_simp

lemma demo_inside: "is_path_within_working_dir (demo_disk b) ''/p'' ''/p/a''"
  by code_simp

definition quiet_context :: tool_context where
  "quiet_context = demo_context\<lparr>cx_checkpoint_on := False, cx_tool_call_id := ''c''\<rparr>"

definition outside_message :: str where
  "outside_message = ''Wrote 3 bytes to /x''"

lemma demo_write:
  assumes "json_get_str args ''filePath'' = Some ''/x''" and "json_get_str args ''content'' = Some ''new''"
  shows "write_execute args quiet_context demo_world =
    (demo_world\<lparr>w_disk := (demo_disk ''v'')([''x''] \<mapsto> NFile ''new'')\<rparr>, Inr (tool_success outside_message))"
proof -
  have p: "resolve_path ''/p'' ''/x'' = ''/x''" by (simp add: resolve_path_def is_absolute_def)
  have c: "components ''/x'' = [RootDir, Normal ''x'']" by (simp add: components_def component_of_def)
  have mk: "create_dir_all (demo_disk ''v'') [RootDir] = Inr (demo_disk ''v'')"
    by (subst create_dir_all.simps) (simp add: eval_fs)
  have wr: "write_file (demo_disk ''v'') [RootDir, Normal ''x''] ''new'' =
      Inr ((demo_disk ''v'')([''x''] \<mapsto> NFile ''new''))"
    by (simp add: write_file_def eval_fs)
  have d: "to_decimal (Suc (Suc (Suc 0))) = ''3''" by code_simp
  show ?thesis
    by (simp add: write_execute_def assms quiet_context_def demo_context_def p c mk wr d Let_def
        path_parent_def demo_world_def ctx_checkpoint_def outside_message_def)
qed

lemma demo_run:
  assumes "json_get_str args ''filePath'' = Some ''/x''" and "json_get_str args ''content'' = Some ''new''"
  shows "run_tool (demo_env a h) ''c'' write_tool args quiet_context demo_world =
    (demo_world\<lparr>w_disk := (demo_disk ''v'')([''x''] \<mapsto> NFile ''new'')\<rparr>, [], tool_success outside_message)"
proof -
  have "str_lines outside_message = [outside_message]"
    by (rule str_lines_last) (simp_all add: outside_message_def)
  moreover have "length outside_message = 19" by (simp add: outside_message_def)
  ultimately have "truncate_and_persist g outside_message max_tool_output_lines max_tool_output_bytes wd c d
      = (d, outside_message)" for g wd c d
    by (simp add: short_output_kept)
  then show ?thesis
    by (simp add: run_tool_def write_tool_def demo_write [OF assms] tool_success_def)
qed

lemma demo_valid: "validate_args outside_args (tl_schema write_tool) = Inr ()"
    "validate_args two_key_args (tl_schema write_tool) = Inr ()"
  by code_simp+

lemma demo_admitted:
  assumes "validate_args args (tl_schema write_tool) = Inr ()"
    and "h = None \<or> (\<exists>f. h = Some f \<and> f ''write'' ''c'' args
           (build_args_summary (\<lambda>_. ''?'') ''write'' args ''/p'') = Approved)"
    and "path_guard (demo_env args h) ''c'' ''write'' args quiet_context demo_world = None"
  shows "call_admitted (demo_env args h) ''c'' ''write'' js quiet_context demo_world write_tool args"
proof -
  have "get_tool (te_registry (demo_env args h)) ''write'' = Some write_tool"
    by (simp add: get_tool_def demo_env_def register_def write_tool_def)
  with assms show ?thesis
    by (auto simp: call_admitted_def ask_approval_None demo_env_def quiet_context_def demo_context_def)
qed

text \<open>The call that every check lets through writes the file.\<close>

lemma demo_execute:
  assumes "call_admitted (demo_env a h) ''c'' ''write'' js quiet_context demo_world write_tool args"
    and "json_get_str args ''filePath'' = Some ''/x''" and "json_get_str args ''content'' = Some ''new''"
  shows "fst (execute_tool_call (demo_env a h) ''c'' ''write'' js quiet_context demo_world) =
    demo_world\<lparr>w_disk := (demo_disk ''v'')([''x''] \<mapsto> NFile ''new'')\<rparr>"
proof -
  have q: "quiet_context\<lparr>cx_tool_call_id := ''c''\<rparr> = quiet_context" by (simp add: quiet_context_def)
  show ?thesis
    unfolding execute_tool_call_admitted [OF assms(1)] q demo_run [OF assms(2,3)] by simp
qed

lemma demo_changed:
  "demo_world\<lparr>w_disk := (demo_disk ''v'')([''x''] \<mapsto> NFile ''new'')\<rparr> \<noteq> demo_world"
proof -
  have "demo_disk ''v'' [''x''] = None" by (simp add: demo_disk_def)
  then show ?thesis
    by (simp add: demo_world_def) (metis fun_upd_same option.distinct(1))
qed

lemma demo_args [simp]:
  "json_get_str outside_args ''filePath'' = Some ''/x''"
  "json_get_str outside_args ''content'' = Some ''new''"
  "json_get outside_args ''file_path'' = None"
  "json_get_str two_key_args ''filePath'' = Some ''/x''"
  "json_get_str two_key_args ''content'' = Some ''new''"
  "json_get two_key_args ''file_path'' = Some (JStr ''a'')"
  by (simp_all add: json_get_str_def outside_args_def two_key_args_def)

text \<open>The path guard reads \<open>file_path\<close> before \<open>filePath\<close> while the \<open>write\<close> tool reads \<open>filePath\<close> and the
  argument check accepts extra keys: a call with both keys is judged by the one and writes the other,
  here \<open>/x\<close>, outside the project, with automatic approval and a user who would deny every request.\<close>

theorem extra_key_evades_path_guard:
  "\<not> is_path_within_working_dir (w_disk demo_world) ''/p'' ''/x''
   \<and> file_at (w_disk (fst (execute_tool_call
        (demo_env two_key_args (Some (permission_aware_handler auto_config deny_all)))
        ''c'' ''write'' js quiet_context demo_world))) [''x''] = Some ''new''"
proof -
  let ?h = "permission_aware_handler auto_config deny_all"
  have wd: "cx_working_dir quiet_context = ''/p''" by (simp add: quiet_context_def demo_context_def)
  have "resolve_path ''/p'' ''a'' = ''/p/a''"
    by (simp add: resolve_path_def path_join_def is_absolute_def)
  then have "path_guard (demo_env two_key_args (Some ?h)) ''c'' ''write'' two_key_args quiet_context demo_world = None"
    by (simp add: path_guard_def modified_file_path_def wd demo_inside demo_world_def)
  moreover have "\<not> needs_approval auto_config ''write''"
    by (simp add: needs_approval_def auto_config_def system_tools_def)
  then have "?h ''write'' ''c'' two_key_args (build_args_summary (\<lambda>_. ''?'') ''write'' two_key_args ''/p'') = Approved"
    by (simp add: permission_aware_handler_def build_args_summary_def starts_with_def)
  ultimately have "call_admitted (demo_env two_key_args (Some ?h)) ''c'' ''write'' js quiet_context demo_world write_tool two_key_args"
    by (intro demo_admitted demo_valid) auto
  from demo_execute [OF this] show ?thesis
    using demo_outside by (simp add: file_at_def demo_world_def)
qed

text \<open>A user who approves the write to \<open>/x\<close> and nothing else.\<close>

definition approve_x :: approval_handler where
  "approve_x t c a s =
     (if s = ''[SECURITY] Write to /x (outside project)'' then Approved else Denied None)"

lemma demo_security_summary: "security_summary None ''/x'' = ''[SECURITY] Write to /x (outside project)''"
  by (simp add: security_summary_def display_path_def)

lemma auto_write: "\<not> needs_approval auto_config ''write''"
  by (simp add: needs_approval_def auto_config_def system_tools_def)

lemma resolve_x: "resolve_path (cx_working_dir quiet_context) ''/x'' = ''/x''"
  by (simp add: resolve_path_def is_absolute_def)

lemma quiet_wd: "cx_working_dir quiet_context = ''/p''"
  by (simp add: quiet_context_def demo_context_def)

lemma outside_summary_plain:
  "\<not> starts_with (build_args_summary (\<lambda>_. ''?'') ''write'' outside_args ''/p'') ''[SECURITY]''"
  by (simp add: build_args_summary_def starts_with_def)

lemma demo_approved:
  assumes "h ''write'' ''c'' outside_args (build_args_summary (\<lambda>_. ''?'') ''write'' outside_args ''/p'') = Approved"
    and "h ''write'' ''c'' outside_args (security_summary None ''/x'') = Approved"
  shows "fst (execute_tool_call (demo_env outside_args (Some h)) ''c'' ''write'' js quiet_context demo_world) =
     demo_world\<lparr>w_disk := (demo_disk ''v'')([''x''] \<mapsto> NFile ''new'')\<rparr>"
proof (rule demo_execute)
  have "modified_file_path ''write'' outside_args = Some ''/x''"
    by (simp add: modified_path_from_filePath)
  then have "path_guard (demo_env outside_args (Some h)) ''c'' ''write'' outside_args quiet_context demo_world = None"
    using assms(2) by (simp add: path_guard_def resolve_x demo_env_def ask_approval_def Let_def)
  with assms(1) show "call_admitted (demo_env outside_args (Some h)) ''c'' ''write'' js quiet_context demo_world
      write_tool outside_args"
    by (intro demo_admitted demo_valid) auto
qed simp_all

theorem outside_write_needs_user_witness:
  "approve_x ''write'' ''c'' outside_args (security_summary None ''/x'') = Approved
   \<and> fst (execute_tool_call (demo_env outside_args (Some (permission_aware_handler auto_config approve_x)))
        ''c'' ''write'' ''j'' quiet_context demo_world) \<noteq> demo_world"
proof -
  let ?h = "permission_aware_handler auto_config approve_x"
  let ?env = "demo_env outside_args (Some ?h)"
  have "fst (execute_tool_call ?env ''c'' ''write'' ''j'' quiet_context demo_world) =
     demo_world\<lparr>w_disk := (demo_disk ''v'')([''x''] \<mapsto> NFile ''new'')\<rparr>"
    by (rule demo_approved)
       (simp_all add: permission_aware_handler_def auto_write outside_summary_plain approve_x_def demo_security_summary)
  then have ch: "fst (execute_tool_call ?env ''c'' ''write'' ''j'' quiet_context demo_world) \<noteq> demo_world"
    using demo_changed by simp
  have out: "\<not> is_path_within_working_dir (w_disk demo_world) (cx_working_dir quiet_context)
      (resolve_path (cx_working_dir quiet_context) ''/x'')"
    unfolding resolve_x unfolding quiet_wd using demo_outside by (simp add: demo_world_def)
  have "approve_x ''write'' ''c'' outside_args
      (security_summary (te_home ?env) (resolve_path (cx_working_dir quiet_context) ''/x'')) = Approved"
    by (rule outside_write_needs_user [where h = "\<lambda>t c a s. Some (?h t c a s)" and cfg = auto_config,
            OF _ _ _ _ _ _ out ch])
       (simp_all add: demo_env_def)
  with ch show ?thesis by (simp add: resolve_x demo_env_def)
qed

theorem subagent_outside_write_unasked_witness:
  "fst (execute_tool_call
      (demo_env outside_args (Some (subagent_handler ''r'' (permission_aware_handler auto_config deny_all))))
      ''c'' ''write'' ''j'' quiet_context demo_world) =
   demo_world\<lparr>w_disk := (demo_disk ''v'')([''x''] \<mapsto> NFile ''new'')\<rparr>"
proof -
  let ?env = "demo_env outside_args (Some (subagent_handler ''r'' (permission_aware_handler auto_config deny_all)))"
  have "execute_tool_call ?env ''c'' ''write'' ''j'' quiet_context demo_world =
      execute_tool_call (?env\<lparr>te_approval := Some (\<lambda>_ _ _ _. Some Approved)\<rparr>) ''c'' ''write'' ''j'' quiet_context demo_world"
    by (rule subagent_outside_write_unasked [where name = "''r''" and cfg = auto_config and user = deny_all])
       (simp_all add: demo_env_def auto_write)
  also have "?env\<lparr>te_approval := Some (\<lambda>_ _ _ _. Some Approved)\<rparr> = demo_env outside_args (Some (\<lambda>_ _ _ _. Approved))"
    by (simp add: demo_env_def)
  finally show ?thesis by (simp add: demo_approved)
qed

end
