(* ===== verification/Persistence.thy ===== *)
theory Persistence
  imports Messages
begin

text \<open>
  The envelope in which messages are persisted, \<open>crates/agent/src/persistence.rs\<close>, and the JSON form of a
  chat message that goes into it, which the \<open>serde\<close> attributes of \<open>crates/agent/src/llm/types.rs\<close> fix:
  renamed and skipped fields, the tag of a content block, the untagged content. An object's entries are
  in the order of their keys, as in \<open>serde_json\<close>'s map. A struct is read from an object only.
\<close>

section \<open>Envelope\<close>

datatype message_role = RoleUser | RoleAssistant | RoleTool | RoleSystem

datatype message_type =
    TypeText | TypeSessionInit | TypeCompaction | TypeToolCall | TypeToolResult | TypeCompletionSummary

datatype sender = HumanUser | AgentSender

record agent_message =
  am_content :: str
  am_llm_message :: json
  am_metadata :: json
  am_role :: message_role
  am_type :: message_type
  am_sender :: sender
  am_turn_count :: "u32 option"

definition str_to_role :: "str \<Rightarrow> message_role" where
  "str_to_role s =
     (if s = ''user'' then RoleUser
      else if s = ''assistant'' then RoleAssistant
      else if s = ''tool'' then RoleTool
      else if s = ''system'' then RoleSystem
      else RoleUser)"

definition str_to_type :: "str \<Rightarrow> message_type" where
  "str_to_type s =
     (if s = ''text'' then TypeText
      else if s = ''session_init'' then TypeSessionInit
      else if s = ''compaction'' then TypeCompaction
      else if s = ''tool_call'' then TypeToolCall
      else if s = ''tool_result'' then TypeToolResult
      else if s = ''completion_summary'' then TypeCompletionSummary
      else TypeText)"

section \<open>Writing a message\<close>

definition opt_field :: "str \<Rightarrow> ('a \<Rightarrow> json) \<Rightarrow> 'a option \<Rightarrow> (str \<times> json) list" where
  "opt_field k f v = (case v of None \<Rightarrow> [] | Some x \<Rightarrow> [(k, f x)])"

definition cache_control_json :: "cache_control \<Rightarrow> json" where
  "cache_control_json c = JObj (opt_field ''ttl'' JStr (cch_ttl c) @ [(''type'', JStr (cch_type c))])"

definition media_json :: "media_url \<Rightarrow> json" where
  "media_json u = JObj (opt_field ''detail'' JStr (mu_detail u) @ [(''url'', JStr (mu_url u))])"

fun block_json :: "content_block \<Rightarrow> json" where
  "block_json (TextBlock t c) =
     JObj (opt_field ''cache_control'' cache_control_json c @ [(''text'', JStr t), (''type'', JStr ''text'')])"
| "block_json (ImageUrl u) = JObj [(''image_url'', media_json u), (''type'', JStr ''image_url'')]"
| "block_json (VideoUrl u) = JObj [(''type'', JStr ''video_url''), (''video_url'', media_json u)]"

fun content_json :: "message_content \<Rightarrow> json" where
  "content_json (TextContent s) = JStr s"
| "content_json (Blocks bs) = JArr (map block_json bs)"

definition tool_call_json :: "tool_call \<Rightarrow> json" where
  "tool_call_json tc =
     JObj [(''function'', JObj [(''arguments'', JStr (fc_arguments (tc_function tc))),
                                (''name'', JStr (fc_name (tc_function tc)))]),
           (''id'', JStr (tc_id tc)),
           (''type'', JStr (tc_type tc))]"

definition message_json :: "chat_message \<Rightarrow> json" where
  "message_json m =
     JObj (opt_field ''content'' content_json (cm_content m)
       @ opt_field ''name'' JStr (cm_name m)
       @ [(''role'', JStr (cm_role m))]
       @ opt_field ''thinking'' JStr (cm_thinking m)
       @ opt_field ''tool_call_id'' JStr (cm_tool_call_id m)
       @ opt_field ''tool_calls'' (\<lambda>tcs. JArr (map tool_call_json tcs)) (cm_tool_calls m))"

section \<open>Reading a message\<close>

text \<open>A field of type \<open>Option\<close>: absent and \<open>null\<close> are \<open>None\<close>; the outer \<open>None\<close> is an error.\<close>

definition read_opt :: "(json \<Rightarrow> 'a option) \<Rightarrow> json \<Rightarrow> str \<Rightarrow> 'a option option" where
  "read_opt f v k =
     (case json_get v k of
        None \<Rightarrow> Some None
      | Some JNull \<Rightarrow> Some None
      | Some x \<Rightarrow> map_option Some (f x))"

definition read_array :: "(json \<Rightarrow> 'a option) \<Rightarrow> json \<Rightarrow> 'a list option" where
  "read_array f v = Option.bind (as_array v) (\<lambda>xs. those (map f xs))"

definition json_cache_control :: "json \<Rightarrow> cache_control option" where
  "json_cache_control v =
     Option.bind (json_get_str v ''type'') (\<lambda>t.
     Option.bind (read_opt as_str v ''ttl'') (\<lambda>l.
       Some \<lparr>cch_type = t, cch_ttl = l\<rparr>))"

definition json_media :: "json \<Rightarrow> media_url option" where
  "json_media v =
     Option.bind (json_get_str v ''url'') (\<lambda>u.
     Option.bind (read_opt as_str v ''detail'') (\<lambda>d.
       Some \<lparr>mu_url = u, mu_detail = d\<rparr>))"

definition json_block :: "json \<Rightarrow> content_block option" where
  "json_block v =
     Option.bind (json_get_str v ''type'') (\<lambda>t.
       if t = ''text'' then
         Option.bind (json_get_str v ''text'') (\<lambda>s.
         Option.bind (read_opt json_cache_control v ''cache_control'') (\<lambda>c. Some (TextBlock s c)))
       else if t = ''image_url'' then
         Option.bind (json_get v ''image_url'') (\<lambda>u. map_option ImageUrl (json_media u))
       else if t = ''video_url'' then
         Option.bind (json_get v ''video_url'') (\<lambda>u. map_option VideoUrl (json_media u))
       else None)"

fun json_content :: "json \<Rightarrow> message_content option" where
  "json_content (JStr s) = Some (TextContent s)"
| "json_content v = map_option Blocks (read_array json_block v)"

definition json_tool_call :: "json \<Rightarrow> tool_call option" where
  "json_tool_call v =
     Option.bind (json_get_str v ''id'') (\<lambda>i.
     Option.bind (json_get_str v ''type'') (\<lambda>t.
     Option.bind (json_get v ''function'') (\<lambda>f.
     Option.bind (json_get_str f ''name'') (\<lambda>n.
     Option.bind (json_get_str f ''arguments'') (\<lambda>a.
       Some \<lparr>tc_id = i, tc_type = t, tc_function = \<lparr>fc_name = n, fc_arguments = a\<rparr>\<rparr>)))))"

definition json_message :: "json \<Rightarrow> chat_message option" where
  "json_message v =
     Option.bind (json_get_str v ''role'') (\<lambda>r.
     Option.bind (read_opt json_content v ''content'') (\<lambda>c.
     Option.bind (read_opt (read_array json_tool_call) v ''tool_calls'') (\<lambda>t.
     Option.bind (read_opt as_str v ''tool_call_id'') (\<lambda>i.
     Option.bind (read_opt as_str v ''name'') (\<lambda>n.
     Option.bind (read_opt as_str v ''thinking'') (\<lambda>h.
       Some \<lparr>cm_role = r, cm_content = c, cm_tool_calls = t, cm_tool_call_id = i,
             cm_name = n, cm_thinking = h\<rparr>))))))"

section \<open>Round trip\<close>

lemma those_map_inverse: "(\<And>x. x \<in> set xs \<Longrightarrow> g (f x) = Some x) \<Longrightarrow> those (map (g \<circ> f) xs) = Some xs"
  by (induction xs) auto

lemma map_of_opt_field_last [simp]:
  "map_of (opt_field k f v) k' = (if k' = k then map_option f v else None)"
  by (auto simp: opt_field_def split: option.splits)

lemma read_opt_field:
  assumes "json_get v k = map_option f x" and "\<And>y. x = Some y \<Longrightarrow> g (f y) = Some y \<and> f y \<noteq> JNull"
  shows "read_opt g v k = Some x"
  using assms by (cases x) (auto simp: read_opt_def split: json.splits)

lemma cache_control_back [simp]: "json_cache_control (cache_control_json c) = Some c"
proof -
  have "read_opt as_str (cache_control_json c) ''ttl'' = Some (cch_ttl c)"
    by (rule read_opt_field [where f = JStr]) (auto simp: cache_control_json_def map_add_def split: option.splits)
  moreover have "json_get_str (cache_control_json c) ''type'' = Some (cch_type c)"
    by (simp add: json_get_str_def cache_control_json_def map_add_def)
  ultimately show ?thesis by (simp add: json_cache_control_def)
qed

lemma media_back [simp]: "json_media (media_json u) = Some u"
proof -
  have "read_opt as_str (media_json u) ''detail'' = Some (mu_detail u)"
    by (rule read_opt_field [where f = JStr]) (auto simp: media_json_def map_add_def split: option.splits)
  moreover have "json_get_str (media_json u) ''url'' = Some (mu_url u)"
    by (simp add: json_get_str_def media_json_def map_add_def)
  ultimately show ?thesis by (simp add: json_media_def)
qed

lemma block_back [simp]: "json_block (block_json b) = Some b"
proof (cases b)
  case (TextBlock t c)
  have "read_opt json_cache_control (block_json b) ''cache_control'' = Some c"
    by (rule read_opt_field [where f = cache_control_json]) (auto simp: TextBlock map_add_def split: option.splits, simp add: cache_control_json_def)
  moreover have "json_get_str (block_json b) ''type'' = Some ''text''" "json_get_str (block_json b) ''text'' = Some t"
    by (simp_all add: json_get_str_def TextBlock map_add_def)
  ultimately show ?thesis by (simp add: json_block_def TextBlock)
qed (simp_all add: json_block_def json_get_str_def)

lemma content_back [simp]: "json_content (content_json c) = Some c"
  by (cases c) (simp_all add: read_array_def those_map_inverse)

lemma tool_call_back [simp]: "json_tool_call (tool_call_json tc) = Some tc"
  by (simp add: json_tool_call_def tool_call_json_def json_get_str_def)

lemma content_json_not_null [simp]: "content_json c \<noteq> JNull"
  by (cases c) auto

text \<open>A chat message read back from the JSON form in which it is persisted and sent is the message: no
  field is lost by the fields skipped when empty, the tags of the blocks or the untagged content.\<close>

theorem message_json_roundtrip: "json_message (message_json m) = Some m"
proof -
  let ?v = "message_json m"
  have "read_opt json_content ?v ''content'' = Some (cm_content m)"
    by (rule read_opt_field [where f = content_json]) (auto simp: message_json_def map_add_def split: option.splits)
  moreover have "read_opt (read_array json_tool_call) ?v ''tool_calls'' = Some (cm_tool_calls m)"
    by (rule read_opt_field [where f = "\<lambda>tcs. JArr (map tool_call_json tcs)"])
       (auto simp: message_json_def read_array_def those_map_inverse map_add_def split: option.splits)
  moreover have "read_opt as_str ?v ''tool_call_id'' = Some (cm_tool_call_id m)"
    "read_opt as_str ?v ''name'' = Some (cm_name m)" "read_opt as_str ?v ''thinking'' = Some (cm_thinking m)"
    by (rule read_opt_field [where f = JStr]; auto simp: message_json_def map_add_def split: option.splits)+
  moreover have "json_get_str ?v ''role'' = Some (cm_role m)"
    by (simp add: json_get_str_def message_json_def map_add_def)
  ultimately show ?thesis by (simp add: json_message_def)
qed

end
