(* ===== verification/Attachments.thy ===== *)
theory Attachments
  imports FileSystem Persistence
begin

text \<open>
  Attachments of persisted messages: inline \<open>data:\<close> URLs are moved to files and back,
  \<open>apps/desktop/src-tauri/src/agent_bridge/db.rs\<close>. The \<open>base64\<close> crate, the fresh file names and the
  application's data directory are parameters.
\<close>

record media_env =
  me_data_dir :: str
  me_decode :: "str \<Rightarrow> str option"
  me_encode :: "str \<Rightarrow> str"
  me_uuid :: "nat \<Rightarrow> str"

definition image_ref_prefix :: str where "image_ref_prefix = ''supercoder-image:''"
definition attachment_ref_prefix :: str where "attachment_ref_prefix = ''supercoder-attachment:''"

definition images_dir :: "media_env \<Rightarrow> str \<Rightarrow> str" where
  "images_dir env session_id = path_join (path_join (me_data_dir env) ''images'') session_id"

definition ext_for_media :: "str \<Rightarrow> str" where
  "ext_for_media media =
     (if media = ''image/png'' then ''png''
      else if media = ''image/jpeg'' \<or> media = ''image/jpg'' then ''jpg''
      else if media = ''image/gif'' then ''gif''
      else if media = ''image/webp'' then ''webp''
      else if media = ''image/svg+xml'' then ''svg''
      else if media = ''image/bmp'' then ''bmp''
      else if media = ''video/mp4'' then ''mp4''
      else if media = ''video/avi'' \<or> media = ''video/x-msvideo'' then ''avi''
      else if media = ''video/mov'' \<or> media = ''video/quicktime'' then ''mov''
      else if media = ''video/x-matroska'' then ''mkv''
      else ''img'')"

definition media_for_ext :: "str \<Rightarrow> str" where
  "media_for_ext ext =
     (if ext = ''png'' then ''image/png''
      else if ext = ''jpg'' \<or> ext = ''jpeg'' then ''image/jpeg''
      else if ext = ''gif'' then ''image/gif''
      else if ext = ''webp'' then ''image/webp''
      else if ext = ''svg'' then ''image/svg+xml''
      else if ext = ''bmp'' then ''image/bmp''
      else if ext = ''mp4'' then ''video/mp4''
      else if ext = ''avi'' then ''video/x-msvideo''
      else if ext = ''mov'' then ''video/mov''
      else if ext = ''mkv'' then ''video/x-matroska''
      else ''application/octet-stream'')"

text \<open>\<open>split_once(',')\<close>.\<close>

definition split_comma :: "str \<Rightarrow> (str \<times> str) option" where
  "split_comma s =
     (case dropWhile (\<lambda>c. c \<noteq> CHR '','') s of
        [] \<Rightarrow> None
      | _ # r \<Rightarrow> Some (takeWhile (\<lambda>c. c \<noteq> CHR '','') s, r))"

definition parse_data_uri :: "str \<Rightarrow> (str \<times> str) option" where
  "parse_data_uri url =
     Option.bind (strip_prefix url ''data:'') (\<lambda>rest.
     Option.bind (split_comma rest) (\<lambda>(meta, data).
       let media = (if ends_with meta '';base64'' then take (length meta - 7) meta else meta)
       in if media = [] then None else Some (media, data)))"

text \<open>\<open>value[key] = new\<close> for a key that is present.\<close>

fun json_set :: "json \<Rightarrow> str \<Rightarrow> json \<Rightarrow> json" where
  "json_set (JObj es) k v = JObj (map (\<lambda>(k', v'). (k', if k' = k then v else v')) es)"
| "json_set j k v = j"

definition media_field :: "json \<Rightarrow> str option" where
  "media_field block =
     (case json_get_str block ''type'' of
        None \<Rightarrow> None
      | Some t \<Rightarrow> if t = ''image_url'' \<or> t = ''video_url'' then Some t else None)"

definition media_url_of :: "json \<Rightarrow> str \<Rightarrow> str option" where
  "media_url_of block field = Option.bind (json_get block field) (\<lambda>i. json_get_str i ''url'')"

definition set_media_url :: "json \<Rightarrow> str \<Rightarrow> str \<Rightarrow> json" where
  "set_media_url block field url =
     (case json_get block field of
        None \<Rightarrow> block
      | Some i \<Rightarrow> json_set block field (json_set i ''url'' (JStr url)))"

text \<open>One block; the number is that of the next fresh name.\<close>

definition externalize_block :: "media_env \<Rightarrow> str \<Rightarrow> json \<Rightarrow> nat \<times> disk \<Rightarrow> json \<times> nat \<times> disk" where
  "externalize_block env session_id block s =
     (case s of (n, d) \<Rightarrow>
       (case media_field block of
          None \<Rightarrow> (block, n, d)
        | Some field \<Rightarrow>
       (case media_url_of block field of
          None \<Rightarrow> (block, n, d)
        | Some url \<Rightarrow>
       (if \<not> starts_with url ''data:'' then (block, n, d) else
        case parse_data_uri url of
          None \<Rightarrow> (block, n, d)
        | Some (media, data) \<Rightarrow>
       (case me_decode env data of
          None \<Rightarrow> (block, n, d)
        | Some bytes \<Rightarrow>
            (let dir = images_dir env session_id in
             case create_dir_all d (components dir) of
               Inl _ \<Rightarrow> (block, n, d)
             | Inr d1 \<Rightarrow>
                 (let file = me_uuid env n @ ''.'' @ ext_for_media media in
                  case write_file d1 (components (path_join dir file)) bytes of
                    Inl _ \<Rightarrow> (block, Suc n, d1)
                  | Inr d2 \<Rightarrow>
                      (set_media_url block field (attachment_ref_prefix @ file), Suc n, d2))))))))"

fun externalize_blocks :: "media_env \<Rightarrow> str \<Rightarrow> json list \<Rightarrow> nat \<times> disk \<Rightarrow> json list \<times> nat \<times> disk" where
  "externalize_blocks env session_id [] s = ([], s)"
| "externalize_blocks env session_id (b # bs) s =
     (case externalize_block env session_id b s of
        (b', s1) \<Rightarrow>
          (case externalize_blocks env session_id bs s1 of (bs', s2) \<Rightarrow> (b' # bs', s2)))"

definition externalize_attachments :: "media_env \<Rightarrow> str \<Rightarrow> json \<Rightarrow> nat \<times> disk \<Rightarrow> json \<times> nat \<times> disk" where
  "externalize_attachments env session_id msg s =
     (case Option.bind (json_get msg ''content'') as_array of
        None \<Rightarrow> (msg, s)
      | Some blocks \<Rightarrow>
          (case externalize_blocks env session_id blocks s of
             (blocks', s') \<Rightarrow> (json_set msg ''content'' (JArr blocks'), s')))"

definition reference_file :: "str \<Rightarrow> str" where
  "reference_file url =
     (case strip_prefix url attachment_ref_prefix of
        Some f \<Rightarrow> f
      | None \<Rightarrow> (case strip_prefix url image_ref_prefix of Some f \<Rightarrow> f | None \<Rightarrow> []))"

definition inline_block :: "media_env \<Rightarrow> str \<Rightarrow> disk \<Rightarrow> json \<Rightarrow> json" where
  "inline_block env session_id d block =
     (case media_field block of
        None \<Rightarrow> block
      | Some field \<Rightarrow>
     (case media_url_of block field of
        None \<Rightarrow> block
      | Some url \<Rightarrow>
          (let file = reference_file url in
           if file = [] then block
           else case read_file d (components (path_join (images_dir env session_id) file)) of
             Inl _ \<Rightarrow> block
           | Inr bytes \<Rightarrow>
               (let ext = (case file_extension file of None \<Rightarrow> ''img'' | Some e \<Rightarrow> e) in
                set_media_url block field
                  (''data:'' @ media_for_ext ext @ '';base64,'' @ me_encode env bytes)))))"

definition inline_attachments :: "media_env \<Rightarrow> str \<Rightarrow> disk \<Rightarrow> json \<Rightarrow> json" where
  "inline_attachments env session_id d msg =
     (case Option.bind (json_get msg ''content'') as_array of
        None \<Rightarrow> msg
      | Some blocks \<Rightarrow> json_set msg ''content'' (JArr (map (inline_block env session_id d) blocks)))"

section \<open>Media types\<close>

text \<open>The media type of an attachment survives being stored and loaded exactly for these types; every
  other one comes back as another type, \<open>image/jpg\<close> as \<open>image/jpeg\<close>, \<open>video/quicktime\<close> as \<open>video/mov\<close>, unknown
  ones as \<open>application/octet-stream\<close>.\<close>

theorem media_type_roundtrip:
  "media_for_ext (ext_for_media m) = m \<longleftrightarrow>
     m \<in> {''image/png'', ''image/jpeg'', ''image/gif'', ''image/webp'', ''image/svg+xml'', ''image/bmp'',
          ''video/mp4'', ''video/x-msvideo'', ''video/mov'', ''video/x-matroska'', ''application/octet-stream''}"
  by (auto simp: ext_for_media_def media_for_ext_def)

lemma avif_lost: "media_for_ext (ext_for_media ''image/avif'') = ''application/octet-stream''"
  by (simp add: ext_for_media_def media_for_ext_def)

section \<open>Round trip of one attachment\<close>

lemma resolve_put:
  assumes "d l = None \<or> (\<exists>o'. d l = Some (NFile o'))"
    and d': "d' = d(l \<mapsto> NFile b)"
  shows "resolve d cur p = Inr m \<Longrightarrow> resolve d' cur p = Inr m"
proof (induction p arbitrary: cur)
  case (Cons c cs)
  have n: "need_dir d' x = None" if "need_dir d x = None" for x
    using that assms by (auto simp: need_dir_None)
  have f: "follow d' x = follow d x" for x
    using assms by (auto simp: follow_def)
  show ?case
    using Cons by (cases c) (auto simp: n f split: option.splits)
qed simp

lemma read_after_write:
  assumes "write_file d p b = Inr d'"
  shows "read_file d' p = Inr b"
proof -
  from assms obtain l where l: "resolve d [] p = Inr l" and d': "d' = d(l \<mapsto> NFile b)"
    and n: "d l = None \<or> (\<exists>o'. d l = Some (NFile o'))"
    by (auto simp: write_file_def split: sum.splits option.splits node.splits)
  from resolve_put [OF n d' l] show ?thesis by (simp add: read_file_def stat_def d')
qed

lemma map_of_update_key:
  "map_of (map (\<lambda>(k', v'). (k', if k' = k then x else v')) es) k = (if map_of es k = None then None else Some x)"
  by (induction es) auto

lemma json_get_set [simp]: "json_get v k \<noteq> None \<Longrightarrow> json_get (json_set v k x) k = Some x"
  by (cases v) (simp_all add: map_of_update_key)

lemma json_get_set_other [simp]: "k \<noteq> k' \<Longrightarrow> json_get (json_set v k x) k' = json_get v k'"
proof (cases v)
  case (JObj es)
  assume "k \<noteq> k'"
  then have "map_of (map (\<lambda>(i, v'). (i, if i = k then x else v')) es) k' = map_of es k'"
    by (induction es) auto
  with JObj show ?thesis by simp
qed simp_all

lemma media_url_of_set:
  assumes "media_field b = Some f" and "media_url_of b f = Some u"
  shows "media_url_of (set_media_url b f u') f = Some u'" and "media_field (set_media_url b f u') = Some f"
proof -
  from assms(1) have f: "f = ''image_url'' \<or> f = ''video_url''" and t: "json_get_str b ''type'' = Some f"
    by (auto simp: media_field_def split: option.splits if_splits)
  from assms(2) obtain i where i: "json_get b f = Some i" "json_get i ''url'' \<noteq> None"
    by (auto simp: media_url_of_def json_get_str_def Option.bind_eq_Some_conv)
  then show "media_url_of (set_media_url b f u') f = Some u'"
    by (simp add: media_url_of_def set_media_url_def json_get_str_def)
  have "json_get_str (set_media_url b f u') ''type'' = Some f"
    using f t i by (auto simp: set_media_url_def json_get_str_def)
  with f show "media_field (set_media_url b f u') = Some f" by (auto simp: media_field_def)
qed

lemma data_url_parts:
  assumes "CHR '','' \<notin> set media" and "media \<noteq> []"
  shows "parse_data_uri (''data:'' @ media @ '';base64,'' @ data) = Some (media, data)"
proof -
  have "takeWhile (\<lambda>c. c \<noteq> CHR '','') (media @ '';base64,'' @ data) = media @ '';base64''"
    "dropWhile (\<lambda>c. c \<noteq> CHR '','') (media @ '';base64,'' @ data) = CHR '','' # data"
    using assms(1) by (auto simp: takeWhile_append dropWhile_append)
  moreover have "ends_with (media @ '';base64'') '';base64''" by (simp add: ends_with_def)
  ultimately show ?thesis
    using assms(2) by (simp add: parse_data_uri_def split_comma_def strip_prefix_def starts_with_def Let_def)
qed

lemma ext_no_dot: "CHR ''.'' \<notin> set (ext_for_media m)"
  by (simp add: ext_for_media_def)

text \<open>An attachment that is stored and loaded again has its URL unchanged, whether or not writing its file
  succeeded, provided its type is one of those above; \<open>base64\<close>'s encoder undoes its decoder here and a
  fresh name is not empty.\<close>

theorem attachment_roundtrip:
  assumes "media_field block = Some field"
    and "media_url_of block field = Some (''data:'' @ media @ '';base64,'' @ data)"
    and "media_for_ext (ext_for_media media) = media" and "CHR '','' \<notin> set media" and "media \<noteq> []"
    and "\<And>bytes. me_decode env data = Some bytes \<Longrightarrow> me_encode env bytes = data" and "me_uuid env n \<noteq> []"
    and "externalize_block env sid block (n, d) = (block', n', d')"
  shows "media_url_of (inline_block env sid d' block') field = Some (''data:'' @ media @ '';base64,'' @ data)"
proof -
  let ?url = "''data:'' @ media @ '';base64,'' @ data"
  let ?file = "me_uuid env n @ ''.'' @ ext_for_media media"
  have parse: "parse_data_uri ?url = Some (media, data)" by (rule data_url_parts [OF assms(4,5)])
  have data: "starts_with ?url ''data:''" by (simp add: starts_with_def)
  have keep: "media_url_of (inline_block env sid d' block) field = Some ?url"
    using assms(1,2) by (simp add: inline_block_def reference_file_def strip_prefix_def starts_with_def
        attachment_ref_prefix_def image_ref_prefix_def)
  show ?thesis
  proof (cases "block' = block")
    case True
    with keep show ?thesis by simp
  next
    case False
    with assms(1,2,8) parse data obtain bytes d1 where
      bytes: "me_decode env data = Some bytes"
      and w: "write_file d1 (components (path_join (images_dir env sid) ?file)) bytes = Inr d'"
      and b: "block' = set_media_url block field (attachment_ref_prefix @ ?file)"
      by (auto simp: externalize_block_def Let_def split: option.splits sum.splits if_splits)
    note set = media_url_of_set [OF assms(1,2), of "attachment_ref_prefix @ ?file"]
    have ref: "reference_file (attachment_ref_prefix @ ?file) = ?file"
      by (simp add: reference_file_def strip_prefix_def starts_with_def)
    have ext: "file_extension ?file = Some (ext_for_media media)"
      by (rule extension_of_file [OF assms(7) ext_no_dot])
    have "inline_block env sid d' block' = set_media_url block' field ?url"
      using read_after_write [OF w] ref ext assms(3,6) [unfolded] bytes set
      by (simp add: inline_block_def b Let_def)
    then show ?thesis using media_url_of_set(1) [OF set(2) set(1), of ?url] by (simp add: b)
  qed
qed

definition demo_media_env :: media_env where
  "demo_media_env = \<lparr>me_data_dir = ''/d'', me_decode = (\<lambda>_. Some ''x''), me_encode = (\<lambda>_. ''eA''), me_uuid = (\<lambda>_. ''u'')\<rparr>"

definition demo_image :: json where
  "demo_image = JObj [(''image_url'', JObj [(''url'', JStr (''data:'' @ ''image/png'' @ '';base64,'' @ ''eA''))]),
     (''type'', JStr ''image_url'')]"

definition root_disk :: disk where
  "root_disk l = (if l = [] then Some NDir else None)"

theorem attachment_roundtrip_witness:
  "media_url_of (inline_block demo_media_env ''s''
       (snd (snd (externalize_block demo_media_env ''s'' demo_image (0, root_disk))))
       (fst (externalize_block demo_media_env ''s'' demo_image (0, root_disk)))) ''image_url''
     = Some ''data:image/png;base64,eA''
   \<and> media_url_of (fst (externalize_block demo_media_env ''s'' demo_image (0, root_disk))) ''image_url''
     = Some ''supercoder-attachment:u.png''"
proof -
  obtain b n d where e: "externalize_block demo_media_env ''s'' demo_image (0, root_disk) = (b, n, d)"
    by (rule prod_cases3)
  have f: "media_field demo_image = Some ''image_url''"
    by (simp add: media_field_def demo_image_def json_get_str_def)
  have u: "media_url_of demo_image ''image_url'' = Some (''data:'' @ ''image/png'' @ '';base64,'' @ ''eA'')"
    by (simp add: media_url_of_def demo_image_def json_get_str_def)
  have "media_url_of (inline_block demo_media_env ''s'' d b) ''image_url'' =
      Some (''data:'' @ ''image/png'' @ '';base64,'' @ ''eA'')"
    by (rule attachment_roundtrip [OF f u _ _ _ _ _ e])
       (simp_all add: ext_for_media_def media_for_ext_def demo_media_env_def)
  moreover have "media_url_of (fst (externalize_block demo_media_env ''s'' demo_image (0, root_disk))) ''image_url''
     = Some ''supercoder-attachment:u.png''"
    by code_simp
  ultimately show ?thesis by (simp add: e)
qed

section \<open>Messages without media\<close>

lemma inline_block_text: "json_get_str b ''type'' = Some ''text'' \<Longrightarrow> inline_block env sid d b = b"
  by (simp add: inline_block_def media_field_def)

lemma externalize_block_text: "json_get_str b ''type'' = Some ''text'' \<Longrightarrow> externalize_block env sid b s = (b, s)"
  by (cases s) (simp add: externalize_block_def media_field_def)

end
