(* ===== verification/MessageDb.thy ===== *)
theory MessageDb
  imports Attachments
begin

text \<open>
  The message table of \<open>apps/desktop/src-tauri/src/agent_bridge/db.rs\<close>: what a session's messages become
  when they are stored, rewound and loaded as context. The table is the list of its rows with the next id;
  \<open>rows_ok\<close> says that the list is in id order, in which the queries return it. A query is the function it
  computes; failures of the database are not modelled. The text of JSON columns is printed and parsed by
  parameters that stand for \<open>serde_json\<close>, time stamps are arguments.
\<close>

section \<open>Rows\<close>

record stored_message =
  sm_id :: nat
  sm_session :: str
  sm_project :: str
  sm_role :: str
  sm_type :: str
  sm_llm_message :: str
  sm_metadata :: str
  sm_created_at :: str
  sm_rewound_at :: "str option"
  sm_turn_count :: "u32 option"

record message_table =
  mt_rows :: "stored_message list"
  mt_next :: nat

record json_text =
  jt_print :: "json \<Rightarrow> str"
  jt_parse :: "str \<Rightarrow> json option"

definition rows_ok :: "message_table \<Rightarrow> bool" where
  "rows_ok tbl \<longleftrightarrow> 0 < mt_next tbl \<and> sorted_wrt (<) (map sm_id (mt_rows tbl)) \<and> (\<forall>r \<in> set (mt_rows tbl). 0 < sm_id r \<and> sm_id r < mt_next tbl)"

definition empty_table :: message_table where
  "empty_table = \<lparr>mt_rows = [], mt_next = 1\<rparr>"

definition role_to_str :: "message_role \<Rightarrow> str" where
  "role_to_str r =
     (case r of RoleUser \<Rightarrow> ''user'' | RoleAssistant \<Rightarrow> ''assistant'' | RoleTool \<Rightarrow> ''tool'' | RoleSystem \<Rightarrow> ''system'')"

definition type_to_str :: "message_type \<Rightarrow> str" where
  "type_to_str t =
     (case t of
        TypeText \<Rightarrow> ''text'' | TypeSessionInit \<Rightarrow> ''session_init'' | TypeCompaction \<Rightarrow> ''compaction''
      | TypeToolCall \<Rightarrow> ''tool_call'' | TypeToolResult \<Rightarrow> ''tool_result''
      | TypeCompletionSummary \<Rightarrow> ''completion_summary'')"

section \<open>Operations\<close>

definition insert_message ::
    "str \<Rightarrow> str \<Rightarrow> str \<Rightarrow> str \<Rightarrow> str \<Rightarrow> str \<Rightarrow> str \<Rightarrow> u32 option \<Rightarrow> message_table \<Rightarrow> message_table \<times> nat" where
  "insert_message now session_id project_path role ty llm_message metadata turn_count tbl =
     (\<lparr>mt_rows = mt_rows tbl @ [\<lparr>sm_id = mt_next tbl, sm_session = session_id, sm_project = project_path,
         sm_role = role, sm_type = ty, sm_llm_message = llm_message, sm_metadata = metadata,
         sm_created_at = now, sm_rewound_at = None, sm_turn_count = turn_count\<rparr>],
       mt_next = Suc (mt_next tbl)\<rparr>, mt_next tbl)"

definition active :: "str \<Rightarrow> stored_message \<Rightarrow> bool" where
  "active session_id r \<longleftrightarrow> sm_session r = session_id \<and> sm_rewound_at r = None"

definition load_session_messages :: "str \<Rightarrow> message_table \<Rightarrow> stored_message list" where
  "load_session_messages session_id tbl = filter (active session_id) (mt_rows tbl)"

definition last_id :: "(stored_message \<Rightarrow> bool) \<Rightarrow> message_table \<Rightarrow> nat option" where
  "last_id P tbl = (case filter P (mt_rows tbl) of [] \<Rightarrow> None | rs \<Rightarrow> Some (sm_id (last rs)))"

definition reset_floor :: "str \<Rightarrow> message_table \<Rightarrow> nat" where
  "reset_floor session_id tbl =
     (case last_id (\<lambda>r. active session_id r \<and> sm_type r = ''context_reset'') tbl of None \<Rightarrow> 0 | Some i \<Rightarrow> i)"

text \<open>\<open>json_extract\<close> read as an integer; anything else, and text that is not JSON, counts as 0.\<close>

definition extract_count :: "json_text \<Rightarrow> str \<Rightarrow> nat" where
  "extract_count jt metadata =
     (case Option.bind (jt_parse jt metadata) (\<lambda>v. json_get v ''kept_before_count'') of
        Some (JNum (PosInt n)) \<Rightarrow> if unat n < 2 ^ 63 then unat n else 0
      | Some (JBool True) \<Rightarrow> 1
      | _ \<Rightarrow> 0)"

definition metadata_of :: "nat \<Rightarrow> message_table \<Rightarrow> str" where
  "metadata_of i tbl = (case find (\<lambda>r. sm_id r = i) (mt_rows tbl) of None \<Rightarrow> [] | Some r \<Rightarrow> sm_metadata r)"

definition last_rows :: "nat \<Rightarrow> 'a list \<Rightarrow> 'a list" where
  "last_rows n rs = drop (length rs - n) rs"

definition load_session_for_context :: "json_text \<Rightarrow> str \<Rightarrow> nat \<Rightarrow> message_table \<Rightarrow> stored_message list" where
  "load_session_for_context jt session_id fallback_limit tbl =
     (let floor = reset_floor session_id tbl;
          messages =
            (case last_id (\<lambda>r. active session_id r \<and> sm_type r = ''compaction'' \<and> floor < sm_id r) tbl of
               Some cid \<Rightarrow>
                 (let kept_before = extract_count jt (metadata_of cid tbl);
                      kept = last_rows kept_before (filter (\<lambda>r. active session_id r \<and> sm_id r < cid
                          \<and> floor < sm_id r
                          \<and> sm_type r \<notin> {''compaction'', ''context_usage'', ''context_reset''}) (mt_rows tbl));
                      start_id = (case kept of [] \<Rightarrow> cid | r # _ \<Rightarrow> sm_id r)
                  in filter (\<lambda>r. active session_id r \<and> start_id \<le> sm_id r
                          \<and> sm_type r \<notin> {''context_usage'', ''context_reset''}) (mt_rows tbl))
             | None \<Rightarrow>
                 last_rows fallback_limit (filter (\<lambda>r. active session_id r \<and> floor < sm_id r
                     \<and> sm_type r \<notin> {''context_usage'', ''context_reset''}) (mt_rows tbl)))
      in dropWhile (\<lambda>r. sm_role r = ''tool'' \<or> (sm_role r = ''assistant'' \<and> sm_type r = ''tool_call'')) messages)"

definition get_session_init :: "str \<Rightarrow> message_table \<Rightarrow> stored_message option" where
  "get_session_init session_id tbl =
     (case filter (\<lambda>r. sm_session r = session_id \<and> sm_type r = ''session_init'') (mt_rows tbl) of
        [] \<Rightarrow> None | rs \<Rightarrow> Some (last rs))"

definition get_message_by_id :: "nat \<Rightarrow> message_table \<Rightarrow> stored_message option" where
  "get_message_by_id i tbl = find (\<lambda>r. sm_id r = i) (mt_rows tbl)"

definition update_rows :: "(stored_message \<Rightarrow> bool) \<Rightarrow> (stored_message \<Rightarrow> stored_message) \<Rightarrow> message_table
    \<Rightarrow> message_table \<times> nat" where
  "update_rows P f tbl =
     (tbl\<lparr>mt_rows := map (\<lambda>r. if P r then f r else r) (mt_rows tbl)\<rparr>, length (filter P (mt_rows tbl)))"

definition rewind_messages :: "str \<Rightarrow> str \<Rightarrow> nat \<Rightarrow> message_table \<Rightarrow> message_table \<times> nat" where
  "rewind_messages now session_id from_id tbl =
     update_rows (\<lambda>r. active session_id r \<and> from_id \<le> sm_id r) (\<lambda>r. r\<lparr>sm_rewound_at := Some now\<rparr>) tbl"

text \<open>A comparison with \<open>NULL\<close> is not true.\<close>

definition rewind_from_turn :: "str \<Rightarrow> str \<Rightarrow> u32 \<Rightarrow> message_table \<Rightarrow> message_table \<times> nat" where
  "rewind_from_turn now session_id from_turn tbl =
     update_rows (\<lambda>r. active session_id r \<and> (case sm_turn_count r of None \<Rightarrow> False | Some t \<Rightarrow> from_turn \<le> t))
       (\<lambda>r. r\<lparr>sm_rewound_at := Some now\<rparr>) tbl"

definition delete_context_usage :: "str \<Rightarrow> message_table \<Rightarrow> message_table" where
  "delete_context_usage session_id tbl =
     tbl\<lparr>mt_rows := filter (\<lambda>r. \<not> (sm_session r = session_id \<and> sm_type r = ''context_usage'')) (mt_rows tbl)\<rparr>"

definition u32_json :: "u32 \<Rightarrow> json" where
  "u32_json n = JNum (PosInt (ucast n))"

definition upsert_context_usage :: "json_text \<Rightarrow> str \<Rightarrow> str \<Rightarrow> str \<Rightarrow> u32 \<Rightarrow> u32 \<Rightarrow> u32 \<Rightarrow> message_table \<Rightarrow> message_table" where
  "upsert_context_usage jt now session_id project_path total_tokens context_limit message_count tbl =
     fst (insert_message now session_id project_path ''system'' ''context_usage'' ''{}''
       (jt_print jt (JObj [(''context_limit'', u32_json context_limit), (''message_count'', u32_json message_count),
          (''total_tokens'', u32_json total_tokens)])) None
       (delete_context_usage session_id tbl))"

definition field_u32 :: "json \<Rightarrow> str \<Rightarrow> u32" where
  "field_u32 v k = (case json_get v k of Some (JNum (PosInt n)) \<Rightarrow> ucast n | _ \<Rightarrow> 0)"

definition get_context_usage :: "json_text \<Rightarrow> str \<Rightarrow> message_table \<Rightarrow> (u32 \<times> u32 \<times> u32) option" where
  "get_context_usage jt session_id tbl =
     (case find (\<lambda>r. sm_session r = session_id \<and> sm_type r = ''context_usage'') (mt_rows tbl) of
        None \<Rightarrow> None
      | Some r \<Rightarrow>
          (let meta = (case jt_parse jt (sm_metadata r) of None \<Rightarrow> JNull | Some v \<Rightarrow> v)
           in Some (field_u32 meta ''total_tokens'', field_u32 meta ''context_limit'', field_u32 meta ''message_count'')))"

definition insert_context_reset :: "str \<Rightarrow> str \<Rightarrow> str \<Rightarrow> message_table \<Rightarrow> message_table" where
  "insert_context_reset now session_id project_path tbl =
     delete_context_usage session_id
       (fst (insert_message now session_id project_path ''system'' ''context_reset'' ''{}'' ''{}'' None tbl))"

definition insert_compaction :: "json_text \<Rightarrow> str \<Rightarrow> str \<Rightarrow> str \<Rightarrow> str \<Rightarrow> u32 \<Rightarrow> message_table \<Rightarrow> message_table \<times> nat" where
  "insert_compaction jt now session_id project_path summary kept_before_count tbl =
     insert_message now session_id project_path ''system'' ''compaction''
       (jt_print jt (JObj [(''content'', JStr summary), (''role'', JStr ''system'')]))
       (jt_print jt (JObj [(''kept_before_count'', u32_json kept_before_count), (''version'', u32_json 1)]))
       None tbl"

section \<open>Context\<close>

definition stored_to_agent_message :: "json_text \<Rightarrow> media_env \<Rightarrow> disk \<Rightarrow> stored_message \<Rightarrow> agent_message" where
  "stored_to_agent_message jt me d r =
     (let llm = inline_attachments me (sm_session r) d
                  (case jt_parse jt (sm_llm_message r) of None \<Rightarrow> JObj [] | Some v \<Rightarrow> v)
      in \<lparr>am_content = (case json_get_str llm ''content'' of None \<Rightarrow> [] | Some s \<Rightarrow> s),
          am_llm_message = llm,
          am_metadata = (case jt_parse jt (sm_metadata r) of None \<Rightarrow> JObj [] | Some v \<Rightarrow> v),
          am_role = str_to_role (sm_role r), am_type = str_to_type (sm_type r),
          am_sender = (if sm_role r = ''user'' then HumanUser else AgentSender),
          am_turn_count = sm_turn_count r\<rparr>)"

text \<open>The backward loop: from position \<open>start\<close>, until \<open>n\<close> more rows that are not compactions are passed.\<close>

fun keep_start :: "stored_message list \<Rightarrow> nat \<Rightarrow> nat \<Rightarrow> nat" where
  "keep_start stored 0 n = 0"
| "keep_start stored (Suc start) n =
     (if n = 0 then Suc start
      else keep_start stored start (if sm_type (stored ! start) \<noteq> ''compaction'' then n - 1 else n))"

fun last_compaction_pos :: "stored_message list \<Rightarrow> nat option" where
  "last_compaction_pos [] = None"
| "last_compaction_pos (r # rs) =
     (case last_compaction_pos rs of
        Some i \<Rightarrow> Some (Suc i)
      | None \<Rightarrow> if sm_type r = ''compaction'' then Some 0 else None)"

text \<open>\<open>as_u64\<close> of the field.\<close>

definition kept_count :: "json_text \<Rightarrow> stored_message \<Rightarrow> nat" where
  "kept_count jt r =
     (case Option.bind (jt_parse jt (sm_metadata r)) (\<lambda>v. json_get v ''kept_before_count'') of
        Some (JNum (PosInt n)) \<Rightarrow> unat n
      | _ \<Rightarrow> 0)"

definition reconstruct_context :: "json_text \<Rightarrow> media_env \<Rightarrow> disk \<Rightarrow> stored_message list \<Rightarrow> agent_message list" where
  "reconstruct_context jt me d stored =
     (case last_compaction_pos stored of
        None \<Rightarrow> map (stored_to_agent_message jt me d) stored
      | Some pos \<Rightarrow>
          map (stored_to_agent_message jt me d)
            (drop (keep_start stored pos (kept_count jt (stored ! pos))) stored))"

section \<open>The persister\<close>

text \<open>The store of the application: the table, the disk with the attachments and the number of the next
  fresh file name.\<close>

record app_store =
  as_table :: message_table
  as_disk :: disk
  as_fresh :: nat

definition persist_message :: "json_text \<Rightarrow> media_env \<Rightarrow> str \<Rightarrow> str \<Rightarrow> agent_message \<Rightarrow> str \<Rightarrow> app_store \<Rightarrow> app_store" where
  "persist_message jt me now project_path am session_id st =
     (case externalize_attachments me session_id (am_llm_message am) (as_fresh st, as_disk st) of
        (llm, n, d) \<Rightarrow>
          \<lparr>as_table = fst (insert_message now session_id project_path (role_to_str (am_role am))
              (type_to_str (am_type am)) (jt_print jt llm) (jt_print jt (am_metadata am)) (am_turn_count am)
              (as_table st)),
           as_disk = d, as_fresh = n\<rparr>)"

definition load_context :: "json_text \<Rightarrow> media_env \<Rightarrow> str \<Rightarrow> app_store \<Rightarrow> agent_message list" where
  "load_context jt me session_id st =
     reconstruct_context jt me (as_disk st) (load_session_for_context jt session_id 500 (as_table st))"

end
