(* ===== verification/MessageDbFacts.thy ===== *)
theory MessageDbFacts
  imports MessageDb
begin

text \<open>
  Facts about the message table: ids stay in order, messages come back as they were persisted while there
  is no compaction, rewinding hides exactly the turns it names, and what is left of a session's context
  after a compaction record.
\<close>

section \<open>Ids\<close>

lemma rows_ok_empty: "rows_ok empty_table"
  by (simp add: rows_ok_def empty_table_def)

lemma rows_ok_insert: "rows_ok tbl \<Longrightarrow> rows_ok (fst (insert_message now s p r t l m n tbl))"
  by (auto simp: rows_ok_def insert_message_def sorted_wrt_append intro: less_SucI)

lemma rows_ok_filter: "rows_ok tbl \<Longrightarrow> rows_ok (tbl\<lparr>mt_rows := filter P (mt_rows tbl)\<rparr>)"
  unfolding rows_ok_def by (auto simp: sorted_wrt_map intro: sorted_wrt_filter)

lemma rows_ok_update:
  assumes "rows_ok tbl" and "\<And>r. sm_id (f r) = sm_id r"
  shows "rows_ok (fst (update_rows P f tbl))"
proof -
  let ?g = "\<lambda>r. if P r then f r else r"
  have ids: "map sm_id (map ?g (mt_rows tbl)) = map sm_id (mt_rows tbl)"
    by (simp add: assms(2))
  have "\<forall>r \<in> set (map ?g (mt_rows tbl)). 0 < sm_id r \<and> sm_id r < mt_next tbl"
    using assms by (auto simp: rows_ok_def)
  with ids assms(1) show ?thesis by (simp add: rows_ok_def update_rows_def del: map_map)
qed

inductive table_reachable :: "message_table \<Rightarrow> bool" where
  start: "table_reachable empty_table"
| insert: "table_reachable tbl \<Longrightarrow> table_reachable (fst (insert_message now s p r t l m n tbl))"
| rewind: "table_reachable tbl \<Longrightarrow> table_reachable (fst (rewind_messages now s i tbl))"
| rewind_turn: "table_reachable tbl \<Longrightarrow> table_reachable (fst (rewind_from_turn now s u tbl))"
| usage: "table_reachable tbl \<Longrightarrow> table_reachable (upsert_context_usage jt now s p a b c tbl)"
| delete_usage: "table_reachable tbl \<Longrightarrow> table_reachable (delete_context_usage s tbl)"
| reset: "table_reachable tbl \<Longrightarrow> table_reachable (insert_context_reset now s p tbl)"
| compaction: "table_reachable tbl \<Longrightarrow> table_reachable (fst (insert_compaction jt now s p summary k tbl))"

text \<open>Whatever is done to the message table, its rows have distinct ids in the order of insertion, so that
  ordering by id is the order in which the messages were sent.\<close>

theorem table_rows_ordered:
  assumes "table_reachable tbl"
  shows "rows_ok tbl"
  using assms
proof (induction rule: table_reachable.induct)
  case start
  show ?case by (rule rows_ok_empty)
qed (simp_all add: rows_ok_insert rows_ok_update rows_ok_filter rewind_messages_def rewind_from_turn_def
      upsert_context_usage_def delete_context_usage_def insert_context_reset_def insert_compaction_def)

theorem table_rows_ordered_witness:
  "rows_ok (fst (rewind_from_turn ''t1'' ''s'' 1
     (fst (insert_message ''t0'' ''s'' ''/p'' ''user'' ''text'' ''{}'' ''{}'' (Some 1) empty_table))))"
  by (rule table_rows_ordered) (intro table_reachable.intros)

lemma role_roundtrip [simp]: "str_to_role (role_to_str r) = r"
  by (cases r) (simp_all add: str_to_role_def role_to_str_def)

lemma type_roundtrip [simp]: "str_to_type (type_to_str t) = t"
  by (cases t) (simp_all add: str_to_type_def type_to_str_def)

section \<open>Rewinding\<close>

text \<open>Rewinding a session from a turn hides exactly its messages of that turn and later ones; messages
  without a turn, such as compaction records, stay, and so does everything of other sessions.\<close>

theorem rewind_from_turn_hides:
  "load_session_messages s (fst (rewind_from_turn now s t tbl)) =
     filter (\<lambda>r. case sm_turn_count r of None \<Rightarrow> True | Some u \<Rightarrow> u < t) (load_session_messages s tbl)
   \<and> (s' = s \<or> load_session_messages s' (fst (rewind_from_turn now s t tbl)) = load_session_messages s' tbl)"
proof -
  let ?P = "\<lambda>r. active s r \<and> (case sm_turn_count r of None \<Rightarrow> False | Some u \<Rightarrow> t \<le> u)"
  let ?g = "\<lambda>r. if ?P r then r\<lparr>sm_rewound_at := Some now\<rparr> else r"
  have "filter (active s) (map ?g rs) =
      filter (\<lambda>r. case sm_turn_count r of None \<Rightarrow> True | Some u \<Rightarrow> u < t) (filter (active s) rs)" for rs
    by (induction rs) (auto simp: active_def split: option.splits)
  moreover have "filter (active s') (map ?g rs) = filter (active s') rs" if "s' \<noteq> s" for rs
    using that by (induction rs) (auto simp: active_def)
  ultimately show ?thesis
    by (auto simp: load_session_messages_def rewind_from_turn_def update_rows_def simp del: filter_filter)
qed

section \<open>Loading\<close>

text \<open>A session in which nothing was compacted or reset.\<close>

definition plain_session :: "str \<Rightarrow> message_table \<Rightarrow> bool" where
  "plain_session s tbl \<longleftrightarrow>
     (\<forall>r \<in> set (mt_rows tbl). active s r \<longrightarrow> sm_type r \<notin> {''compaction'', ''context_usage'', ''context_reset''})"

lemma filter_none: "(\<And>r. r \<in> set rs \<Longrightarrow> \<not> P r) \<Longrightarrow> filter P rs = []"
  by (induction rs) auto

lemma plain_session_floor: "plain_session s tbl \<Longrightarrow> reset_floor s tbl = 0"
proof -
  assume "plain_session s tbl"
  then have "filter (\<lambda>r. active s r \<and> sm_type r = ''context_reset'') (mt_rows tbl) = []"
    by (intro filter_none) (auto simp: plain_session_def)
  then show ?thesis by (simp add: reset_floor_def last_id_def)
qed

definition orphan_row :: "stored_message \<Rightarrow> bool" where
  "orphan_row r \<longleftrightarrow> sm_role r = ''tool'' \<or> (sm_role r = ''assistant'' \<and> sm_type r = ''tool_call'')"

lemma load_plain:
  assumes "plain_session s tbl" and "rows_ok tbl"
  shows "load_session_for_context jt s n tbl = dropWhile orphan_row (last_rows n (load_session_messages s tbl))"
proof -
  have "filter (\<lambda>r. active s r \<and> sm_type r = ''compaction'' \<and> 0 < sm_id r) (mt_rows tbl) = []"
    using assms(1) by (intro filter_none) (auto simp: plain_session_def)
  then have "last_id (\<lambda>r. active s r \<and> sm_type r = ''compaction'' \<and> 0 < sm_id r) tbl = None"
    by (simp add: last_id_def)
  moreover have "filter (\<lambda>r. active s r \<and> 0 < sm_id r \<and> sm_type r \<notin> {''context_usage'', ''context_reset''}) (mt_rows tbl)
      = filter (active s) (mt_rows tbl)"
    using assms by (intro filter_cong) (auto simp: plain_session_def rows_ok_def)
  ultimately show ?thesis
    using plain_session_floor [OF assms(1)]
    by (simp add: load_session_for_context_def load_session_messages_def orphan_row_def [abs_def] Let_def)
qed

lemma find_app: "find P xs = None \<Longrightarrow> find P (xs @ ys) = find P ys"
  by (induction xs) (auto split: if_splits)

lemma filter_from_nth:
  assumes "sorted_wrt (<) (map f xs)" and "j < length xs"
  shows "filter (\<lambda>x. (f (xs ! j) :: nat) \<le> f x) xs = drop j xs"
proof -
  have less: "f (xs ! a) < f (xs ! b)" if "a < b" "b < length xs" for a b
    using assms(1) that by (auto simp: sorted_wrt_iff_nth_less)
  have "filter (\<lambda>x. f (xs ! j) \<le> f x) (take j xs) = []"
    using less [OF _ assms(2)] by (intro filter_none) (auto simp: in_set_conv_nth not_le)
  moreover have "filter (\<lambda>x. f (xs ! j) \<le> f x) (drop j xs) = drop j xs"
  proof (rule filter_True, rule ballI)
    fix x assume "x \<in> set (drop j xs)"
    then obtain i where "x = xs ! (j + i)" "j + i < length xs" by (auto simp: in_set_conv_nth)
    then show "f (xs ! j) \<le> f x" using less [of j "j + i"] by (cases i) auto
  qed
  ultimately show ?thesis by (metis append_take_drop_id filter_append append_Nil)
qed

lemma reset_floor_below: "rows_ok tbl \<Longrightarrow> reset_floor s tbl < mt_next tbl"
proof -
  assume ok: "rows_ok tbl"
  show ?thesis
  proof (cases "filter (\<lambda>r. active s r \<and> sm_type r = ''context_reset'') (mt_rows tbl)")
    case Nil
    with ok show ?thesis by (simp add: reset_floor_def last_id_def rows_ok_def)
  next
    case (Cons r rs)
    then have "last (r # rs) \<in> set (filter (\<lambda>r. active s r \<and> sm_type r = ''context_reset'') (mt_rows tbl))"
      by simp
    then have "last (r # rs) \<in> set (mt_rows tbl)" by simp
    with ok Cons show ?thesis by (auto simp: reset_floor_def last_id_def rows_ok_def)
  qed
qed

lemma reset_floor_append:
  "reset_floor s \<lparr>mt_rows = mt_rows tbl @ [r], mt_next = k\<rparr> =
     (if active s r \<and> sm_type r = ''context_reset'' then sm_id r else reset_floor s tbl)"
  by (cases "filter (\<lambda>r. active s r \<and> sm_type r = ''context_reset'') (mt_rows tbl)")
     (auto simp: reset_floor_def last_id_def)

lemma filter_from_suffix:
  assumes "sorted_wrt (<) (map f xs)" and "last_rows k xs = x # ys"
  shows "filter (\<lambda>y. (f x :: nat) \<le> f y) xs = x # ys"
proof -
  have "length xs - k < length xs"
    using assms(2) by (metis drop_all last_rows_def list.distinct(1) not_le)
  moreover from this assms(2) have "x = xs ! (length xs - k)"
    by (metis last_rows_def hd_drop_conv_nth list.sel(1))
  ultimately show ?thesis
    using filter_from_nth [OF assms(1), of "length xs - k"] assms(2) by (simp add: last_rows_def)
qed

lemma dropWhile_filter_length: "length (filter P (dropWhile Q xs)) \<le> length (filter P xs)"
  by (induction xs) auto

text \<open>Inserting a compaction record: whatever the session holds, also usage and earlier compactions, what is
  loaded has besides compaction records at most the number of rows that the new record's count says.\<close>

lemma load_after_compaction:
  assumes "rows_ok tbl"
  shows "length (filter (\<lambda>r. sm_type r \<noteq> ''compaction'')
      (load_session_for_context jt s n (fst (insert_message now s p role ''compaction'' llm meta turn tbl))))
    \<le> extract_count jt meta"
proof -
  let ?c = "\<lparr>sm_id = mt_next tbl, sm_session = s, sm_project = p, sm_role = role, sm_type = ''compaction'',
          sm_llm_message = llm, sm_metadata = meta, sm_created_at = now, sm_rewound_at = None,
          sm_turn_count = turn\<rparr>"
  let ?t = "fst (insert_message now s p role ''compaction'' llm meta turn tbl)"
  have rows: "mt_rows ?t = mt_rows tbl @ [?c]" by (simp add: insert_message_def)
  have below: "sm_id r < mt_next tbl" if "r \<in> set (mt_rows tbl)" for r
    using assms that by (auto simp: rows_ok_def)
  define fl where "fl = reset_floor s ?t"
  have "?t = \<lparr>mt_rows = mt_rows tbl @ [?c], mt_next = Suc (mt_next tbl)\<rparr>" by (simp add: insert_message_def)
  then have fl: "fl < mt_next tbl"
    using reset_floor_below [OF assms, of s] by (simp add: fl_def reset_floor_append)
  have last: "last_id (\<lambda>r. active s r \<and> sm_type r = ''compaction'' \<and> fl < sm_id r) ?t = Some (mt_next tbl)"
    using fl by (cases "filter (\<lambda>r. active s r \<and> sm_type r = ''compaction'' \<and> fl < sm_id r) (mt_rows tbl)")
      (simp_all add: last_id_def rows active_def)
  have "find (\<lambda>r. sm_id r = mt_next tbl) (mt_rows tbl) = None"
    unfolding find_None_iff using below by (metis less_irrefl)
  then have meta: "metadata_of (mt_next tbl) ?t = meta" by (simp add: metadata_of_def rows find_app)
  let ?three = "{''compaction'', ''context_usage'', ''context_reset''} :: str set"
  define E where "E = filter (\<lambda>r. active s r \<and> fl < sm_id r \<and> sm_type r \<notin> ?three) (mt_rows tbl)"
  have elig: "filter (\<lambda>r. active s r \<and> sm_id r < mt_next tbl \<and> fl < sm_id r \<and> sm_type r \<notin> ?three) (mt_rows ?t) = E"
    using below by (auto simp: rows E_def intro!: filter_cong)
  define kept where "kept = last_rows (extract_count jt meta) E"
  define start where "start = (case kept of [] \<Rightarrow> mt_next tbl | r # _ \<Rightarrow> sm_id r)"
  define got where "got = filter (\<lambda>r. active s r \<and> start \<le> sm_id r \<and> sm_type r \<notin> {''context_usage'', ''context_reset''}) (mt_rows ?t)"
  have "filter (\<lambda>r. sm_type r \<noteq> ''compaction'') got = kept"
  proof (cases kept)
    case Nil
    then have "start = mt_next tbl" by (simp add: start_def)
    with Nil below show ?thesis by (auto simp: got_def rows filter_empty_conv not_le)
  next
    case (Cons r rs)
    have sorted: "sorted_wrt (<) (map sm_id E)"
      using assms unfolding rows_ok_def E_def sorted_wrt_map by (blast intro: sorted_wrt_filter)
    have "r \<in> set E" using Cons by (metis kept_def last_rows_def in_set_dropD list.set_intros(1))
    then have r: "start = sm_id r" "fl < sm_id r" using Cons by (auto simp: start_def E_def)
    have "filter (\<lambda>r. sm_type r \<noteq> ''compaction'') got = filter (\<lambda>y. sm_id r \<le> sm_id y) E"
      unfolding got_def E_def rows r(1) filter_filter filter_append using r(2) by (auto intro!: filter_cong)
    with filter_from_suffix [OF sorted, of "extract_count jt meta" r rs] Cons show ?thesis
      by (simp add: kept_def)
  qed
  moreover have "load_session_for_context jt s n ?t = dropWhile orphan_row got"
    unfolding load_session_for_context_def fl_def [symmetric] last Let_def option.case meta elig
      kept_def [symmetric] start_def [symmetric] got_def [symmetric]
    by (simp add: orphan_row_def [abs_def])
  moreover have "length kept \<le> extract_count jt meta" by (simp add: kept_def last_rows_def)
  ultimately show ?thesis
    using dropWhile_filter_length [of "\<lambda>r. sm_type r \<noteq> ''compaction''" orphan_row got] by simp
qed

section \<open>Persisting\<close>

text \<open>The store behind \<open>MessagePersister\<close>: what is persisted for a session is what loading it returns, in
  order, and sessions do not see each other. \<open>writable\<close> says when the law is promised for a message.\<close>

locale message_store =
  fixes fresh_store :: 's
    and store_message :: "agent_message \<Rightarrow> str \<Rightarrow> 's \<Rightarrow> 's"
    and stored_context :: "str \<Rightarrow> 's \<Rightarrow> agent_message list"
    and writable :: "agent_message \<Rightarrow> str \<Rightarrow> 's \<Rightarrow> bool"
  assumes context_fresh: "stored_context s fresh_store = []"
    and context_store: "writable am s st \<Longrightarrow> stored_context s (store_message am s st) = stored_context s st @ [am]"
    and context_other: "writable am s st \<Longrightarrow> s' \<noteq> s \<Longrightarrow> stored_context s' (store_message am s st) = stored_context s' st"
begin

fun store_all :: "(agent_message \<times> str) list \<Rightarrow> 's \<Rightarrow> 's" where
  "store_all [] st = st"
| "store_all ((am, s) # log) st = store_all log (store_message am s st)"

fun all_writable :: "(agent_message \<times> str) list \<Rightarrow> 's \<Rightarrow> bool" where
  "all_writable [] st = True"
| "all_writable ((am, s) # log) st \<longleftrightarrow> writable am s st \<and> all_writable log (store_message am s st)"

lemma context_store_all:
  "all_writable log st \<Longrightarrow>
     stored_context s (store_all log st) = stored_context s st @ map fst (filter (\<lambda>(_, s'). s' = s) log)"
proof (induction log arbitrary: st)
  case (Cons x log)
  obtain am s' where x: "x = (am, s')" by (cases x)
  with Cons context_store [of am s' st] context_other [of am s' st s] show ?case
    by (cases "s' = s") auto
qed simp

lemma context_of_log:
  "all_writable log fresh_store \<Longrightarrow>
     stored_context s (store_all log fresh_store) = map fst (filter (\<lambda>(_, s'). s' = s) log)"
  by (simp add: context_store_all context_fresh)

end

text \<open>\<open>MockPersister\<close>.\<close>

definition mock_persist :: "agent_message \<Rightarrow> str \<Rightarrow> (str \<times> agent_message) list \<Rightarrow> (str \<times> agent_message) list" where
  "mock_persist am s st = st @ [(s, am)]"

definition mock_load :: "str \<Rightarrow> (str \<times> agent_message) list \<Rightarrow> agent_message list" where
  "mock_load s st = map snd (filter (\<lambda>(sid, _). sid = s) st)"

interpretation mock: message_store "[]" mock_persist mock_load "\<lambda>_ _ _. True"
  by unfold_locales (auto simp: mock_persist_def mock_load_def)

text \<open>\<open>SqliteMessagePersister\<close>: the law holds for text messages of a session without compaction and with
  fewer rows than are loaded, whose context does not begin with a tool row.\<close>

definition fresh_app :: "disk \<Rightarrow> app_store" where
  "fresh_app d = \<lparr>as_table = empty_table, as_disk = d, as_fresh = 0\<rparr>"

definition json_ok :: "json_text \<Rightarrow> agent_message \<Rightarrow> bool" where
  "json_ok jt am \<longleftrightarrow>
     jt_parse jt (jt_print jt (am_llm_message am)) = Some (am_llm_message am)
     \<and> jt_parse jt (jt_print jt (am_metadata am)) = Some (am_metadata am)"

definition text_message :: "agent_message \<Rightarrow> bool" where
  "text_message am \<longleftrightarrow>
     Option.bind (json_get (am_llm_message am) ''content'') as_array = None
     \<and> am_content am = (case json_get_str (am_llm_message am) ''content'' of None \<Rightarrow> [] | Some x \<Rightarrow> x)
     \<and> (am_sender am = HumanUser \<longleftrightarrow> am_role am = RoleUser) \<and> am_type am \<noteq> TypeCompaction"

definition orphan_message :: "agent_message \<Rightarrow> bool" where
  "orphan_message am \<longleftrightarrow> am_role am = RoleTool \<or> (am_role am = RoleAssistant \<and> am_type am = TypeToolCall)"

definition sqlite_writable :: "json_text \<Rightarrow> agent_message \<Rightarrow> str \<Rightarrow> app_store \<Rightarrow> bool" where
  "sqlite_writable jt am s st \<longleftrightarrow>
     json_ok jt am \<and> text_message am \<and> rows_ok (as_table st) \<and> plain_session s (as_table st)
     \<and> length (load_session_messages s (as_table st)) < 500
     \<and> (case load_session_messages s (as_table st) of
          [] \<Rightarrow> \<not> orphan_message am
        | r # _ \<Rightarrow> \<not> orphan_row r)"

lemma text_message_media:
  assumes "text_message am"
  shows "externalize_attachments me s (am_llm_message am) x = (am_llm_message am, x)"
    and "inline_attachments me s d (am_llm_message am) = am_llm_message am"
  using assms by (simp_all add: text_message_def externalize_attachments_def inline_attachments_def)

lemma no_compaction_pos: "(\<And>r. r \<in> set rs \<Longrightarrow> sm_type r \<noteq> ''compaction'') \<Longrightarrow> last_compaction_pos rs = None"
  by (induction rs) auto

definition row_of :: "json_text \<Rightarrow> str \<Rightarrow> str \<Rightarrow> agent_message \<Rightarrow> str \<Rightarrow> nat \<Rightarrow> stored_message" where
  "row_of jt now p am s i =
     \<lparr>sm_id = i, sm_session = s, sm_project = p, sm_role = role_to_str (am_role am),
      sm_type = type_to_str (am_type am), sm_llm_message = jt_print jt (am_llm_message am),
      sm_metadata = jt_print jt (am_metadata am), sm_created_at = now, sm_rewound_at = None,
      sm_turn_count = am_turn_count am\<rparr>"

lemma row_of_back:
  assumes "json_ok jt am" and "text_message am"
  shows "stored_to_agent_message jt me d (row_of jt now p am s i) = am"
proof -
  have "role_to_str (am_role am) = ''user'' \<longleftrightarrow> am_role am = RoleUser"
    by (cases "am_role am") (simp_all add: role_to_str_def)
  moreover have "am_sender am = HumanUser \<or> am_sender am = AgentSender" by (cases "am_sender am") auto
  ultimately show ?thesis
    using assms text_message_media(2) [OF assms(2)]
    by (cases am) (auto simp: stored_to_agent_message_def row_of_def json_ok_def text_message_def
        json_get_str_def Let_def)
qed

lemma orphan_row_of: "orphan_row (row_of jt now p am s i) \<longleftrightarrow> orphan_message am"
  by (cases "am_role am"; cases "am_type am")
     (simp_all add: orphan_row_def orphan_message_def row_of_def role_to_str_def type_to_str_def)

lemma persist_text:
  assumes "text_message am"
  shows "persist_message jt me now p am s st =
    st\<lparr>as_table := \<lparr>mt_rows = mt_rows (as_table st) @ [row_of jt now p am s (mt_next (as_table st))],
                   mt_next = Suc (mt_next (as_table st))\<rparr>\<rparr>"
  using text_message_media(1) [OF assms, of me s "(as_fresh st, as_disk st)"]
  by (cases st) (simp add: persist_message_def insert_message_def row_of_def)

lemma sqlite_load_plain:
  assumes "plain_session s (as_table st)" and "rows_ok (as_table st)"
    and "length (load_session_messages s (as_table st)) \<le> 500"
    and "case load_session_messages s (as_table st) of [] \<Rightarrow> True | r # _ \<Rightarrow> \<not> orphan_row r"
  shows "load_context jt me s st =
    map (stored_to_agent_message jt me (as_disk st)) (load_session_messages s (as_table st))"
proof -
  have l: "load_session_for_context jt s 500 (as_table st) = load_session_messages s (as_table st)"
    unfolding load_plain [OF assms(1,2)] using assms(3,4)
    by (cases "load_session_messages s (as_table st)") (auto simp: last_rows_def)
  have "last_compaction_pos (load_session_messages s (as_table st)) = None"
    using assms(1) by (intro no_compaction_pos) (auto simp: plain_session_def load_session_messages_def)
  with l show ?thesis by (simp add: load_context_def reconstruct_context_def)
qed

lemma type_to_str_plain: "type_to_str ty \<noteq> ''context_usage''" "type_to_str ty \<noteq> ''context_reset''"
    "type_to_str ty = ''compaction'' \<longleftrightarrow> ty = TypeCompaction"
  by (cases ty; simp add: type_to_str_def)+

lemma sqlite_store:
  assumes "sqlite_writable jt am s st"
  shows "load_context jt me s (persist_message jt me now p am s st) = load_context jt me s st @ [am]"
proof -
  let ?tbl = "as_table st"
  let ?row = "row_of jt now p am s (mt_next ?tbl)"
  let ?st' = "persist_message jt me now p am s st"
  from assms have jt: "json_ok jt am" and am: "text_message am" and ok: "rows_ok ?tbl" and pl: "plain_session s ?tbl"
    and len: "length (load_session_messages s ?tbl) < 500"
    and first: "case load_session_messages s ?tbl of [] \<Rightarrow> \<not> orphan_message am | r # _ \<Rightarrow> \<not> orphan_row r"
    by (simp_all add: sqlite_writable_def)
  have st': "as_table ?st' = \<lparr>mt_rows = mt_rows ?tbl @ [?row], mt_next = Suc (mt_next ?tbl)\<rparr>"
      "as_disk ?st' = as_disk st"
    by (simp_all add: persist_text [OF am])
  have msgs: "load_session_messages s (as_table ?st') = load_session_messages s ?tbl @ [?row]"
    by (simp add: st' load_session_messages_def active_def row_of_def)
  have "rows_ok (as_table ?st')"
    using rows_ok_insert [OF ok] by (simp add: st' insert_message_def row_of_def)
  moreover have "plain_session s (as_table ?st')"
    using pl am type_to_str_plain by (auto simp: plain_session_def st' text_message_def row_of_def)
  moreover have "case load_session_messages s (as_table ?st') of [] \<Rightarrow> True | r # _ \<Rightarrow> \<not> orphan_row r"
    unfolding msgs using first by (cases "load_session_messages s ?tbl") (auto simp: orphan_row_of)
  ultimately have "load_context jt me s ?st' =
      map (stored_to_agent_message jt me (as_disk st)) (load_session_messages s ?tbl @ [?row])"
    using len sqlite_load_plain [of s ?st' jt me] by (simp add: msgs st'(2))
  moreover have "load_context jt me s st =
      map (stored_to_agent_message jt me (as_disk st)) (load_session_messages s ?tbl)"
    using pl ok len first by (intro sqlite_load_plain) (auto split: list.splits)
  ultimately show ?thesis by (simp add: row_of_back [OF jt am])
qed

lemma last_id_found:
  "last_id P tbl = Some i \<Longrightarrow> find (\<lambda>r. sm_id r = i) (mt_rows tbl) \<noteq> None"
proof -
  assume "last_id P tbl = Some i"
  then have "filter P (mt_rows tbl) \<noteq> []" "i = sm_id (last (filter P (mt_rows tbl)))"
    by (auto simp: last_id_def split: list.splits)
  then have "\<exists>r \<in> set (mt_rows tbl). sm_id r = i"
    using last_in_set [of "filter P (mt_rows tbl)"] by auto
  then show ?thesis by (auto simp: find_None_iff)
qed

lemma find_app_found: "find P xs \<noteq> None \<Longrightarrow> find P (xs @ ys) = find P xs"
  by (induction xs) auto

lemma load_other_session:
  assumes "sm_session r \<noteq> s"
  shows "load_session_for_context jt s n \<lparr>mt_rows = mt_rows tbl @ [r], mt_next = k\<rparr> =
    load_session_for_context jt s n tbl"
proof -
  let ?t = "\<lparr>mt_rows = mt_rows tbl @ [r], mt_next = k\<rparr>"
  have na: "\<not> active s r" using assms by (simp add: active_def)
  have l: "last_id (\<lambda>r. active s r \<and> Q r) ?t = last_id (\<lambda>r. active s r \<and> Q r) tbl" for Q
    using na by (simp add: last_id_def)
  have floor: "reset_floor s ?t = reset_floor s tbl" by (simp add: reset_floor_def l)
  let ?last = "last_id (\<lambda>r. active s r \<and> sm_type r = ''compaction'' \<and> reset_floor s tbl < sm_id r) tbl"
  have meta: "metadata_of i ?t = metadata_of i tbl" if "?last = Some i" for i
    using find_app_found [OF last_id_found [OF that], of "[r]"] by (simp add: metadata_of_def)
  show ?thesis
    by (cases ?last) (simp_all add: load_session_for_context_def floor l meta na Let_def)
qed

lemma sqlite_other:
  assumes "sqlite_writable jt am s st" and "s' \<noteq> s"
  shows "load_context jt me s' (persist_message jt me now p am s st) = load_context jt me s' st"
proof -
  have am: "text_message am" using assms(1) by (simp add: sqlite_writable_def)
  have "sm_session (row_of jt now p am s (mt_next (as_table st))) \<noteq> s'" using assms(2) by (simp add: row_of_def)
  from load_other_session [OF this, of jt 500 "as_table st" "Suc (mt_next (as_table st))"] show ?thesis
    by (simp add: load_context_def persist_text [OF am])
qed

interpretation sqlite: message_store "fresh_app d" "persist_message jt me now p" "load_context jt me" "sqlite_writable jt"
  for d jt me now p
proof
  show "load_context jt me s (fresh_app d) = []" for s
    by (simp add: load_context_def reconstruct_context_def load_session_for_context_def fresh_app_def
        empty_table_def last_id_def reset_floor_def last_rows_def Let_def)
qed (simp_all add: sqlite_store sqlite_other)

section \<open>A log of events\<close>

text \<open>What happens to the table while no compaction runs: messages are persisted, the relay replaces the
  context usage, the user clears the context or rewinds to a turn.\<close>

datatype store_event =
    PersistEvent str agent_message str
  | UsageEvent str str u32 u32 u32
  | ResetEvent str str
  | RewindEvent str str u32

primrec store_step :: "json_text \<Rightarrow> media_env \<Rightarrow> str \<Rightarrow> store_event \<Rightarrow> app_store \<Rightarrow> app_store" where
  "store_step jt me p (PersistEvent now am s) st = persist_message jt me now p am s st"
| "store_step jt me p (UsageEvent now s a b c) st =
     st\<lparr>as_table := upsert_context_usage jt now s p a b c (as_table st)\<rparr>"
| "store_step jt me p (ResetEvent now s) st = st\<lparr>as_table := insert_context_reset now s p (as_table st)\<rparr>"
| "store_step jt me p (RewindEvent now s t) st = st\<lparr>as_table := fst (rewind_from_turn now s t (as_table st))\<rparr>"

text \<open>What the conversation of a session is after an event.\<close>

primrec conversation_step :: "str \<Rightarrow> store_event \<Rightarrow> agent_message list \<Rightarrow> agent_message list" where
  "conversation_step s (PersistEvent now am s') ms = (if s' = s then ms @ [am] else ms)"
| "conversation_step s (UsageEvent now s' a b c) ms = ms"
| "conversation_step s (ResetEvent now s') ms = (if s' = s then [] else ms)"
| "conversation_step s (RewindEvent now s' t) ms =
     (if s' = s then filter (\<lambda>am. case am_turn_count am of None \<Rightarrow> True | Some u \<Rightarrow> u < t) ms else ms)"

primrec event_ok :: "json_text \<Rightarrow> store_event \<Rightarrow> bool" where
  "event_ok jt (PersistEvent now am s) \<longleftrightarrow> json_ok jt am \<and> text_message am"
| "event_ok jt (UsageEvent now s a b c) \<longleftrightarrow> True"
| "event_ok jt (ResetEvent now s) \<longleftrightarrow> True"
| "event_ok jt (RewindEvent now s t) \<longleftrightarrow> True"

abbreviation "hidden_types \<equiv> {''context_usage'', ''context_reset''}"

definition session_rows :: "str \<Rightarrow> message_table \<Rightarrow> stored_message list" where
  "session_rows s tbl =
     filter (\<lambda>r. active s r \<and> reset_floor s tbl < sm_id r \<and> sm_type r \<notin> hidden_types) (mt_rows tbl)"

definition shows_message :: "json_text \<Rightarrow> str \<Rightarrow> stored_message \<Rightarrow> agent_message \<Rightarrow> bool" where
  "shows_message jt s r am \<longleftrightarrow> json_ok jt am \<and> text_message am \<and> (\<exists>now p i. r = row_of jt now p am s i)"

definition store_shows :: "json_text \<Rightarrow> str \<Rightarrow> app_store \<Rightarrow> agent_message list \<Rightarrow> bool" where
  "store_shows jt s st ms \<longleftrightarrow> rows_ok (as_table st)
     \<and> (\<forall>r \<in> set (mt_rows (as_table st)). sm_type r \<noteq> ''compaction''
          \<and> (sm_type r = ''context_reset'' \<longrightarrow> sm_turn_count r = None))
     \<and> list_all2 (shows_message jt s) (session_rows s (as_table st)) ms"

lemma reset_floor_filter:
  "reset_floor s (tbl\<lparr>mt_rows := filter (\<lambda>r. \<not> (sm_session r = s' \<and> sm_type r = ''context_usage'')) (mt_rows tbl)\<rparr>)
     = reset_floor s tbl"
proof -
  have "filter (\<lambda>r. active s r \<and> sm_type r = ''context_reset'')
      (filter (\<lambda>r. \<not> (sm_session r = s' \<and> sm_type r = ''context_usage'')) (mt_rows tbl)) =
    filter (\<lambda>r. active s r \<and> sm_type r = ''context_reset'') (mt_rows tbl)"
    unfolding filter_filter by (intro filter_cong) auto
  then show ?thesis by (simp add: reset_floor_def last_id_def)
qed

lemma session_rows_delete_usage: "session_rows s (delete_context_usage s' tbl) = session_rows s tbl"
proof -
  have "filter (\<lambda>r. active s r \<and> f < sm_id r \<and> sm_type r \<notin> hidden_types)
      (filter (\<lambda>r. \<not> (sm_session r = s' \<and> sm_type r = ''context_usage'')) rs) =
    filter (\<lambda>r. active s r \<and> f < sm_id r \<and> sm_type r \<notin> hidden_types) rs" for f rs
    unfolding filter_filter by (intro filter_cong) auto
  then show ?thesis by (simp only: session_rows_def delete_context_usage_def reset_floor_filter) simp
qed

lemma session_rows_append:
  assumes "rows_ok tbl" and "sm_id r = mt_next tbl"
  shows "session_rows s \<lparr>mt_rows = mt_rows tbl @ [r], mt_next = k\<rparr> =
    (if \<not> active s r \<or> sm_type r = ''context_usage'' then session_rows s tbl
     else if sm_type r = ''context_reset'' then [] else session_rows s tbl @ [r])"
proof -
  have "\<not> mt_next tbl < sm_id x" if "x \<in> set (mt_rows tbl)" for x
    using assms(1) that by (auto simp: rows_ok_def)
  then have "filter (\<lambda>x. active s x \<and> mt_next tbl < sm_id x \<and> sm_type x \<notin> hidden_types) (mt_rows tbl) = []"
    by (intro filter_none) auto
  then show ?thesis
    using reset_floor_below [OF assms(1), of s] assms(2)
    by (auto simp: session_rows_def reset_floor_append)
qed

lemma filter_map_same:
  assumes "\<And>x. x \<in> set xs \<Longrightarrow> P (g x) \<Longrightarrow> g x = x" and "\<And>x. x \<in> set xs \<Longrightarrow> P (g x) = R x"
  shows "filter P (map g xs) = filter R xs"
  using assms by (induction xs) auto

lemma session_rows_rewind:
  assumes "\<forall>r \<in> set (mt_rows tbl). sm_type r = ''context_reset'' \<longrightarrow> sm_turn_count r = None"
  shows "session_rows s (fst (rewind_from_turn now s' t tbl)) =
    (if s' = s then filter (\<lambda>r. case sm_turn_count r of None \<Rightarrow> True | Some u \<Rightarrow> u < t) (session_rows s tbl)
     else session_rows s tbl)"
proof -
  let ?P = "\<lambda>r. active s' r \<and> (case sm_turn_count r of None \<Rightarrow> False | Some u \<Rightarrow> t \<le> u)"
  let ?g = "\<lambda>r. if ?P r then r\<lparr>sm_rewound_at := Some now\<rparr> else r"
  have "filter (\<lambda>r. active s r \<and> sm_type r = ''context_reset'') (map ?g (mt_rows tbl)) =
      filter (\<lambda>r. active s r \<and> sm_type r = ''context_reset'') (mt_rows tbl)"
    by (rule filter_map_same) (use assms in \<open>auto simp: active_def split: option.splits if_splits\<close>)
  then have floor: "reset_floor s (tbl\<lparr>mt_rows := map ?g (mt_rows tbl)\<rparr>) = reset_floor s tbl"
    by (simp add: reset_floor_def last_id_def)
  let ?Q = "\<lambda>r. s' = s \<longrightarrow> (case sm_turn_count r of None \<Rightarrow> True | Some u \<Rightarrow> u < t)"
  have "filter (\<lambda>r. active s r \<and> f < sm_id r \<and> sm_type r \<notin> hidden_types) (map ?g rs) =
      filter (\<lambda>r. (active s r \<and> f < sm_id r \<and> sm_type r \<notin> hidden_types) \<and> ?Q r) rs" for f rs
    by (rule filter_map_same) (auto simp: active_def split: option.splits if_splits)
  with floor show ?thesis
    by (auto simp: session_rows_def rewind_from_turn_def update_rows_def intro!: filter_cong)
qed

lemma usage_as_append:
  "upsert_context_usage jt now s p a b c tbl =
     (let t = delete_context_usage s tbl
      in \<lparr>mt_rows = mt_rows t @ [\<lparr>sm_id = mt_next t, sm_session = s, sm_project = p, sm_role = ''system'',
            sm_type = ''context_usage'', sm_llm_message = ''{}'',
            sm_metadata = jt_print jt (JObj [(''context_limit'', u32_json b), (''message_count'', u32_json c),
               (''total_tokens'', u32_json a)]),
            sm_created_at = now, sm_rewound_at = None, sm_turn_count = None\<rparr>], mt_next = Suc (mt_next t)\<rparr>)"
  by (simp add: upsert_context_usage_def insert_message_def Let_def)

lemma rows_ok_delete_usage: "rows_ok tbl \<Longrightarrow> rows_ok (delete_context_usage s tbl)"
  by (simp add: delete_context_usage_def rows_ok_filter)

lemma list_all2_filter_cong:
  assumes "list_all2 R xs ys" and "\<And>x y. R x y \<Longrightarrow> P x = Q y"
  shows "list_all2 R (filter P xs) (filter Q ys)"
  using assms by (induction rule: list_all2_induct) auto

lemma list_all2_dropWhile_cong:
  assumes "list_all2 R xs ys" and "\<And>x y. R x y \<Longrightarrow> P x = Q y"
  shows "list_all2 R (dropWhile P xs) (dropWhile Q ys)"
  using assms by (induction rule: list_all2_induct) auto

lemma shows_message_simps:
  assumes "shows_message jt s r am"
  shows "sm_turn_count r = am_turn_count am" and "orphan_row r = orphan_message am"
    and "stored_to_agent_message jt me d r = am"
  using assms by (auto simp: shows_message_def row_of_back orphan_row_of) (simp add: row_of_def)

lemma store_shows_step:
  assumes "store_shows jt s st ms" and "event_ok jt e"
  shows "store_shows jt s (store_step jt me p e st) (conversation_step s e ms)"
proof -
  let ?tbl = "as_table st"
  from assms(1) have ok: "rows_ok ?tbl"
    and types: "\<forall>r \<in> set (mt_rows ?tbl). sm_type r \<noteq> ''compaction''
       \<and> (sm_type r = ''context_reset'' \<longrightarrow> sm_turn_count r = None)"
    and rel: "list_all2 (shows_message jt s) (session_rows s ?tbl) ms"
    by (simp_all add: store_shows_def)
  show ?thesis
  proof (cases e)
    case (PersistEvent now am s')
    let ?row = "row_of jt now p am s' (mt_next ?tbl)"
    have am: "json_ok jt am" "text_message am" using assms(2) PersistEvent by simp_all
    have "rows_ok (as_table (store_step jt me p e st))"
      using rows_ok_insert [OF ok] by (simp add: PersistEvent persist_text [OF am(2)] insert_message_def row_of_def)
    moreover have "session_rows s (as_table (store_step jt me p e st)) =
        session_rows s ?tbl @ (if s' = s then [?row] else [])"
      using type_to_str_plain session_rows_append [OF ok, of ?row s]
      by (simp add: PersistEvent persist_text [OF am(2)] active_def row_of_def)
    moreover have "shows_message jt s ?row am" if "s' = s" using am that by (auto simp: shows_message_def)
    moreover have "sm_type ?row \<noteq> ''compaction''" "sm_type ?row \<noteq> ''context_reset''"
      using am(2) type_to_str_plain by (simp_all add: row_of_def text_message_def)
    ultimately show ?thesis
      using rel types by (auto simp: store_shows_def PersistEvent persist_text [OF am(2)] intro!: list_all2_appendI)
  next
    case (UsageEvent now s' a b c)
    have t: "rows_ok (delete_context_usage s' ?tbl)" by (rule rows_ok_delete_usage [OF ok])
    have "rows_ok (upsert_context_usage jt now s' p a b c ?tbl)"
      unfolding upsert_context_usage_def by (rule rows_ok_insert [OF t])
    moreover have "session_rows s (upsert_context_usage jt now s' p a b c ?tbl) = session_rows s ?tbl"
      by (simp add: usage_as_append Let_def session_rows_append [OF t] session_rows_delete_usage)
    moreover have "\<forall>r \<in> set (mt_rows (upsert_context_usage jt now s' p a b c ?tbl)). sm_type r \<noteq> ''compaction''
       \<and> (sm_type r = ''context_reset'' \<longrightarrow> sm_turn_count r = None)"
      using types by (auto simp: usage_as_append Let_def delete_context_usage_def)
    ultimately show ?thesis using rel by (simp add: store_shows_def UsageEvent)
  next
    case (ResetEvent now s')
    let ?ins = "fst (insert_message now s' p ''system'' ''context_reset'' ''{}'' ''{}'' None ?tbl)"
    have "rows_ok (insert_context_reset now s' p ?tbl)"
      unfolding insert_context_reset_def by (intro rows_ok_delete_usage rows_ok_insert ok)
    moreover have "session_rows s (insert_context_reset now s' p ?tbl) = (if s' = s then [] else session_rows s ?tbl)"
      unfolding insert_context_reset_def session_rows_delete_usage
      by (simp add: insert_message_def session_rows_append [OF ok] active_def)
    moreover have "\<forall>r \<in> set (mt_rows (insert_context_reset now s' p ?tbl)). sm_type r \<noteq> ''compaction''
       \<and> (sm_type r = ''context_reset'' \<longrightarrow> sm_turn_count r = None)"
      using types by (auto simp: insert_context_reset_def delete_context_usage_def insert_message_def)
    ultimately show ?thesis using rel by (simp add: store_shows_def ResetEvent)
  next
    case (RewindEvent now s' t)
    have "rows_ok (fst (rewind_from_turn now s' t ?tbl))"
      unfolding rewind_from_turn_def by (rule rows_ok_update [OF ok]) simp
    moreover have "list_all2 (shows_message jt s) (session_rows s (fst (rewind_from_turn now s' t ?tbl)))
        (conversation_step s e ms)"
      using rel types by (auto simp: session_rows_rewind RewindEvent shows_message_simps(1)
          intro!: list_all2_filter_cong)
    moreover have "\<forall>r \<in> set (mt_rows (fst (rewind_from_turn now s' t ?tbl))). sm_type r \<noteq> ''compaction''
       \<and> (sm_type r = ''context_reset'' \<longrightarrow> sm_turn_count r = None)"
      using types by (auto simp: rewind_from_turn_def update_rows_def)
    ultimately show ?thesis by (simp add: store_shows_def RewindEvent)
  qed
qed

lemma store_shows_log:
  "store_shows jt s st ms \<Longrightarrow> list_all (event_ok jt) log \<Longrightarrow>
     store_shows jt s (fold (store_step jt me p) log st) (fold (conversation_step s) log ms)"
  by (induction log arbitrary: st ms) (simp_all add: store_shows_step)

lemma load_shown:
  assumes "store_shows jt s st ms"
  shows "load_context jt me s st = dropWhile orphan_message (last_rows 500 ms)"
proof -
  let ?tbl = "as_table st"
  have nc: "filter (\<lambda>r. active s r \<and> sm_type r = ''compaction'' \<and> reset_floor s ?tbl < sm_id r) (mt_rows ?tbl) = []"
    using assms by (intro filter_none) (auto simp: store_shows_def)
  have rows: "load_session_for_context jt s 500 ?tbl = dropWhile orphan_row (last_rows 500 (session_rows s ?tbl))"
    by (simp add: load_session_for_context_def last_id_def nc session_rows_def orphan_row_def [abs_def] Let_def)
  have "set (load_session_for_context jt s 500 ?tbl) \<subseteq> set (mt_rows ?tbl)"
    by (auto simp: rows last_rows_def session_rows_def dest!: set_dropWhileD in_set_dropD)
  then have "last_compaction_pos (load_session_for_context jt s 500 ?tbl) = None"
    using assms by (intro no_compaction_pos) (auto simp: store_shows_def)
  moreover have "list_all2 (shows_message jt s) (load_session_for_context jt s 500 ?tbl)
      (dropWhile orphan_message (last_rows 500 ms))"
    using assms list_all2_lengthD [of _ "session_rows s ?tbl" ms]
    by (auto simp: rows last_rows_def store_shows_def shows_message_simps(2)
        intro!: list_all2_dropWhile_cong list_all2_dropI)
  then have "map (stored_to_agent_message jt me (as_disk st)) (load_session_for_context jt s 500 ?tbl) =
      dropWhile orphan_message (last_rows 500 ms)"
    by (induction rule: list_all2_induct) (simp_all add: shows_message_simps(3))
  ultimately show ?thesis by (simp add: load_context_def reconstruct_context_def)
qed

text \<open>C25. However messages of a session without attachments are persisted, its context usage is replaced,
  its context cleared and its turns rewound, and whatever happens to other sessions in between: as long as
  no compaction record is stored, the context loaded for it is the last 500 of the messages persisted since
  it was last cleared and not rewound since, in order, without the tool rows that have lost their call at
  the start. The JSON text of a message is taken to parse back to it.\<close>

theorem persisted_context_returns:
  assumes "list_all (event_ok jt) log"
  shows "load_context jt me s (fold (store_step jt me p) log (fresh_app d)) =
    dropWhile orphan_message (last_rows 500 (fold (conversation_step s) log []))"
proof (rule load_shown [OF store_shows_log [OF _ assms]])
  show "store_shows jt s (fresh_app d) []"
    by (simp add: store_shows_def fresh_app_def rows_ok_empty session_rows_def)
       (simp add: empty_table_def)
qed

definition demo_message :: "message_role \<Rightarrow> str \<Rightarrow> agent_message" where
  "demo_message r text =
     \<lparr>am_content = text, am_llm_message = JObj [(''content'', JStr text), (''role'', JStr (role_to_str r))],
      am_metadata = JObj [], am_role = r, am_type = TypeText,
      am_sender = (if r = RoleUser then HumanUser else AgentSender), am_turn_count = Some 1\<rparr>"

definition demo_jt :: json_text where
  "demo_jt = \<lparr>jt_print = (\<lambda>v. if v = am_llm_message (demo_message RoleUser ''q'') then ''1''
       else if v = am_llm_message (demo_message RoleAssistant ''a'') then ''2''
       else if v = am_llm_message (demo_message RoleTool ''q'') then ''3'' else ''{}''),
     jt_parse = (\<lambda>s. if s = ''1'' then Some (am_llm_message (demo_message RoleUser ''q''))
       else if s = ''2'' then Some (am_llm_message (demo_message RoleAssistant ''a''))
       else if s = ''3'' then Some (am_llm_message (demo_message RoleTool ''q'')) else Some (JObj []))\<rparr>"

text \<open>A tool result that lost its call, a question and its answer of turn 1, usage, another session, a rewound
  question of turn 2.\<close>

definition demo_log :: "store_event list" where
  "demo_log = [ResetEvent ''t0'' ''s'',
     PersistEvent ''t1'' (demo_message RoleTool ''q'') ''s'', PersistEvent ''t2'' (demo_message RoleUser ''q'') ''s'',
     UsageEvent ''t3'' ''s'' 10 200 2, PersistEvent ''t4'' (demo_message RoleUser ''q'') ''t'',
     PersistEvent ''t5'' (demo_message RoleAssistant ''a'') ''s'',
     PersistEvent ''t6'' ((demo_message RoleUser ''q'')\<lparr>am_turn_count := Some 2\<rparr>) ''s'', RewindEvent ''t7'' ''s'' 2]"

theorem persisted_context_returns_witness:
  "\<forall>me p d. load_context demo_jt me ''s'' (fold (store_step demo_jt me p) demo_log (fresh_app d)) =
     [demo_message RoleUser ''q'', demo_message RoleAssistant ''a'']"
proof (intro allI)
  fix me p d
  have "list_all (event_ok demo_jt) demo_log"
    by (simp add: demo_log_def json_ok_def demo_jt_def demo_message_def role_to_str_def text_message_def json_get_str_def)
  from persisted_context_returns [OF this, of me "''s''" p d]
  show "load_context demo_jt me ''s'' (fold (store_step demo_jt me p) demo_log (fresh_app d)) =
     [demo_message RoleUser ''q'', demo_message RoleAssistant ''a'']"
    by (simp add: demo_log_def demo_message_def orphan_message_def last_rows_def)
qed

end
