(* ===== verification/Compaction.thy ===== *)
theory Compaction
  imports Messages
begin

text \<open>
  Keeping the conversation within the model's context window: \<open>crates/agent/src/agent/compaction.rs\<close>
  and the sanitising of the message history in \<open>loop_.rs\<close>. The threshold
  \<open>(context_limit as f64 * threshold_pct) as usize\<close>, the one place where the code computes with
  floating-point numbers, is the function \<open>cc_threshold\<close> of the configuration, applied to the limit.
\<close>

section \<open>When to compact\<close>

record compaction_config =
  cc_context_limit :: nat
  cc_auto_compact :: bool
  cc_threshold :: "nat \<Rightarrow> nat"
  cc_keep_recent_messages :: nat
  cc_max_messages :: nat

definition needs_compaction_by_tokens :: "nat \<Rightarrow> nat \<Rightarrow> compaction_config \<Rightarrow> bool" where
  "needs_compaction_by_tokens total_tokens message_count cfg =
     (if cc_max_messages cfg \<le> message_count then True
      else if \<not> cc_auto_compact cfg \<or> total_tokens = 0 then False
      else cc_threshold cfg (cc_context_limit cfg) \<le> total_tokens)"

definition estimate_message :: "chat_message \<Rightarrow> nat" where
  "estimate_message m =
     (let content_len = (case cm_content m of None \<Rightarrow> 0 | Some c \<Rightarrow> length (content_text c));
          tool_calls_len = (case cm_tool_calls m of None \<Rightarrow> 0
             | Some tcs \<Rightarrow> sum_list (map (\<lambda>tc. length (fc_name (tc_function tc))
                             + length (fc_arguments (tc_function tc)) + 20) tcs));
          thinking_len = (case cm_thinking m of None \<Rightarrow> 0 | Some t \<Rightarrow> length t)
      in (content_len + tool_calls_len + thinking_len) div 4 + 4)"

definition estimate_token_count :: "chat_message list \<Rightarrow> nat" where
  "estimate_token_count ms = sum_list (map estimate_message ms)"

section \<open>What to compact\<close>

definition ends_turn_early :: "chat_message \<Rightarrow> bool" where
  "ends_turn_early m \<longleftrightarrow>
     cm_role m = ''tool'' \<or> (cm_role m = ''assistant'' \<and> cm_tool_calls m \<noteq> None)"

fun snap_to_turn_boundary :: "chat_message list \<Rightarrow> nat \<Rightarrow> nat" where
  "snap_to_turn_boundary ms 0 = 0"
| "snap_to_turn_boundary ms (Suc e) =
     (if ends_turn_early (ms ! e) then snap_to_turn_boundary ms e else Suc e)"

definition call_ids :: "chat_message list \<Rightarrow> str set" where
  "call_ids ms = {tc_id tc | m tcs tc. m \<in> set ms \<and> cm_tool_calls m = Some tcs \<and> tc \<in> set tcs}"

definition call_id_list :: "chat_message list \<Rightarrow> str list" where
  "call_id_list ms =
     concat (map (\<lambda>m. case cm_tool_calls m of None \<Rightarrow> [] | Some tcs \<Rightarrow> map tc_id tcs) ms)"

lemma call_ids_code [code]: "call_ids ms = set (call_id_list ms)"
  by (force simp: call_ids_def call_id_list_def split: option.splits)

fun skip_orphans :: "str list \<Rightarrow> chat_message list \<Rightarrow> nat" where
  "skip_orphans valid [] = 0"
| "skip_orphans valid (m # ms) =
     (if cm_role m \<noteq> ''tool'' then 0
      else case cm_tool_call_id m of
        None \<Rightarrow> 0
      | Some cid \<Rightarrow> if cid \<in> set valid then 0 else Suc (skip_orphans valid ms))"

definition advance_past_orphan_tool_results :: "chat_message list \<Rightarrow> nat \<Rightarrow> nat \<Rightarrow> nat" where
  "advance_past_orphan_tool_results ms start e =
     (let valid_ids = call_id_list (take start ms @ drop e ms)
      in e + skip_orphans valid_ids (drop e ms))"

definition compaction_boundaries :: "chat_message list \<Rightarrow> nat \<Rightarrow> (nat \<times> nat) option" where
  "compaction_boundaries ms keep_recent =
     (if ms = [] then None
      else
        let start = (if cm_role (hd ms) = ''system'' then 1 else 0);
            raw_end = length ms - keep_recent
        in if raw_end \<le> start then None
           else
             let e = advance_past_orphan_tool_results ms start (snap_to_turn_boundary ms raw_end)
             in if e \<le> start then None
                else if e - start < 2 then None
                else Some (start, e))"

definition build_compaction_prompt :: "chat_message list \<Rightarrow> str" where
  "build_compaction_prompt ms =
     concat (map (\<lambda>m. cm_role m @ '': ''
        @ (case cm_content m of None \<Rightarrow> ''[no content]'' | Some c \<Rightarrow> content_text c) @ [NL, NL]) ms)"

section \<open>Sanitising the history\<close>

definition known_result :: "str list \<Rightarrow> chat_message \<Rightarrow> bool" where
  "known_result valid m =
     (if cm_role m = ''tool''
      then (case cm_tool_call_id m of None \<Rightarrow> True | Some cid \<Rightarrow> cid \<in> set valid)
      else True)"

definition answered_ids :: "chat_message list \<Rightarrow> str list" where
  "answered_ids ms =
     List.map_filter (\<lambda>m. if cm_role m = ''tool'' then cm_tool_call_id m else None) ms"

definition retain_answered :: "str list \<Rightarrow> chat_message \<Rightarrow> chat_message" where
  "retain_answered answered m =
     (if cm_role m \<noteq> ''assistant'' then m
      else case cm_tool_calls m of
        None \<Rightarrow> m
      | Some tcs \<Rightarrow>
          (let kept = filter (\<lambda>tc. tc_id tc \<in> set answered) tcs in
           m\<lparr>cm_tool_calls := if kept = [] then None else Some kept\<rparr>))"

definition strip_orphaned_tool_results :: "chat_message list \<Rightarrow> chat_message list" where
  "strip_orphaned_tool_results ms =
     (let kept = filter (known_result (call_id_list ms)) ms
      in map (retain_answered (answered_ids kept)) kept)"

text \<open>The splice of \<open>apply_compaction\<close>.\<close>

definition compacted :: "nat \<Rightarrow> nat \<Rightarrow> chat_message \<Rightarrow> chat_message list \<Rightarrow> chat_message list" where
  "compacted start e summary_msg ms =
     strip_orphaned_tool_results (take start ms @ summary_msg # drop e ms)"

section \<open>Boundaries\<close>

lemma snap_le: "snap_to_turn_boundary ms e \<le> e"
  by (induction e) auto

lemma snap_safe:
  "0 < snap_to_turn_boundary ms e \<Longrightarrow> \<not> ends_turn_early (ms ! (snap_to_turn_boundary ms e - 1))"
  by (induction e) auto

lemma skip_orphans_le: "skip_orphans valid ms \<le> length ms"
  by (induction ms) (auto split: option.splits)

lemma advance_le: "e \<le> length ms \<Longrightarrow> advance_past_orphan_tool_results ms start e \<le> length ms"
  using skip_orphans_le [of "call_id_list (take start ms @ drop e ms)" "drop e ms"]
  by (simp add: advance_past_orphan_tool_results_def)

text \<open>A history in which tool results follow, without a gap, the assistant message that called.\<close>

definition grouped :: "chat_message list \<Rightarrow> bool" where
  "grouped ms \<longleftrightarrow> (\<forall>i < length ms. cm_role (ms ! i) = ''tool'' \<longrightarrow> 0 < i \<and> ends_turn_early (ms ! (i - 1)))"

lemma advance_grouped:
  assumes "grouped ms" and "0 < e" and "\<not> ends_turn_early (ms ! (e - 1))"
  shows "advance_past_orphan_tool_results ms start e = e"
proof (cases "e < length ms")
  case True
  with assms have "cm_role (ms ! e) \<noteq> ''tool''" by (auto simp: grouped_def)
  moreover from True have "drop e ms = ms ! e # drop (Suc e) ms" by (rule Cons_nth_drop_Suc [symmetric])
  ultimately show ?thesis by (simp add: advance_past_orphan_tool_results_def)
qed (simp add: advance_past_orphan_tool_results_def)

text \<open>In a history whose tool results follow their calls, the compacted range starts after the
  system prompt, holds at least two messages, leaves the most recent ones and does not end inside a
  turn: neither between a call and its result nor between results of one call.\<close>

theorem compaction_boundaries_keep_turns:
  assumes "compaction_boundaries ms keep_recent = Some (start, e)" and "grouped ms"
  shows "(start = (if cm_role (hd ms) = ''system'' then 1 else 0)) \<and> start + 2 \<le> e
    \<and> e + keep_recent \<le> length ms
    \<and> \<not> ends_turn_early (ms ! (e - 1)) \<and> (e < length ms \<longrightarrow> cm_role (ms ! e) \<noteq> ''tool'')"
proof -
  define s where "s = (if cm_role (hd ms) = ''system'' then 1 else 0 :: nat)"
  define r where "r = snap_to_turn_boundary ms (length ms - keep_recent)"
  from assms(1) have st: "start = s" and e: "e = advance_past_orphan_tool_results ms s r"
    and two: "s + 2 \<le> e" and "s < length ms - keep_recent"
    by (auto simp: compaction_boundaries_def Let_def s_def r_def split: if_splits)
  have r_le: "r \<le> length ms - keep_recent" unfolding r_def by (rule snap_le)
  show ?thesis
  proof (cases "r = 0")
    case True
    have "skip_orphans valid ms = 0" for valid
    proof (cases ms)
      case (Cons m rest)
      then have "cm_role m \<noteq> ''tool''" using assms(2) by (force simp: grouped_def)
      with Cons show ?thesis by simp
    qed simp
    with True e two show ?thesis by (simp add: advance_past_orphan_tool_results_def)
  next
    case False
    then have safe: "\<not> ends_turn_early (ms ! (r - 1))" unfolding r_def by (intro snap_safe) simp
    with False advance_grouped [OF assms(2)] have "e = r" using e by simp
    moreover have "e < length ms \<longrightarrow> cm_role (ms ! e) \<noteq> ''tool''"
      using safe \<open>e = r\<close> assms(2) by (auto simp: grouped_def)
    ultimately show ?thesis
      using st two safe r_le \<open>s < length ms - keep_recent\<close> by (simp add: s_def)
  qed
qed

end
