(* ===== verification/AgentLoop.thy ===== *)
theory AgentLoop
  imports Compaction ToolExec Persistence
begin

text \<open>
  The agent loop, \<open>crates/agent/src/agent/loop_.rs\<close>: a user message is answered by turns in which the
  model is called, its tool calls are executed and their results go back to the model, until the model
  answers without calls, a tool yields to the user, the session is cancelled or the limit is reached.

  The state holds what the code mutates (the history, the token count, the world of the tools), what it
  sends (events, persisted messages) and a log of the requests to the model. The environment holds what
  the loop is configured with and what it cannot know: the model's answers by the number of the call,
  when cancellation is seen, the order in which the concurrent tasks of a turn end and which of them
  panic, with what they did before. A task's calls run as one step in that order. Delays between
  retries and the formatting of log lines are not modelled.
\<close>

section \<open>Configuration, environment, state\<close>

record system_block =
  sb_text :: str
  sb_cache_control :: "cache_control option"

record agent_config =
  ac_working_dir :: str
  ac_max_iterations :: u32
  ac_system_prompt :: "system_block list option"
  ac_max_retries :: u32
  ac_compaction :: compaction_config
  ac_checkpoint_on :: bool
  ac_tool_policy :: tool_policy

datatype cancel_point = AtLoopStart | BeforeTools | AfterTools

type_synonym llm_provider =
  "nat \<Rightarrow> chat_message list \<Rightarrow> tool_definition list \<Rightarrow> agent_event list \<times> (agent_error + llm_response)"

record loop_env =
  le_config :: agent_config
  le_session_id :: str
  le_provider :: llm_provider
  le_summarizer :: "llm_provider option"
  le_tools :: tool_env
  le_cancelled :: "nat \<Rightarrow> cancel_point \<Rightarrow> bool"
  le_join_order :: "nat \<Rightarrow> nat \<Rightarrow> nat list"
  le_panics :: "nat \<Rightarrow> nat \<Rightarrow> (world \<Rightarrow> world \<times> agent_event list) option"
  le_persist_on :: bool
  le_parent_session :: "str option"
  le_turn_offset :: u32

record loop_state =
  ls_messages :: "chat_message list"
  ls_total_tokens :: nat
  ls_world :: world
  ls_events :: "agent_event list"
  ls_persisted :: "agent_message list"
  ls_calls :: nat
  ls_requests :: "chat_message list list"

text \<open>The local variables of \<open>run_inner\<close>.\<close>

record turn_vars =
  tv_iteration :: nat
  tv_modified :: "str list"
  tv_failures :: nat
  tv_cooldown :: nat
  tv_measured_at :: nat

datatype run_outcome = Finished agent_result | Failed agent_error | Panicked

definition doom_loop_threshold :: nat where "doom_loop_threshold = 3"

definition emit :: "agent_event list \<Rightarrow> loop_state \<Rightarrow> loop_state" where
  "emit evs st = st\<lparr>ls_events := ls_events st @ evs\<rparr>"

definition push_message :: "chat_message \<Rightarrow> loop_state \<Rightarrow> loop_state" where
  "push_message m st = st\<lparr>ls_messages := ls_messages st @ [m]\<rparr>"

definition turn_no :: "loop_env \<Rightarrow> nat \<Rightarrow> u32" where
  "turn_no env i = word_of_nat i + le_turn_offset env"

section \<open>Construction\<close>

definition initial_messages :: "system_block list option \<Rightarrow> chat_message list" where
  "initial_messages prompt =
     (case prompt of
        None \<Rightarrow> []
      | Some blocks \<Rightarrow>
          if length blocks = 1 \<and> sb_cache_control (hd blocks) = None
          then [system_message (sb_text (hd blocks))]
          else [plain_message ''system''
                  (Some (Blocks (map (\<lambda>b. TextBlock (sb_text b) (sb_cache_control b)) blocks)))])"

definition initial_state :: "agent_config \<Rightarrow> nat \<Rightarrow> world \<Rightarrow> loop_state" where
  "initial_state cfg tokens w =
     \<lparr>ls_messages = initial_messages (ac_system_prompt cfg), ls_total_tokens = tokens, ls_world = w,
      ls_events = [], ls_persisted = [], ls_calls = 0, ls_requests = []\<rparr>"

definition update_context_limit :: "nat option \<Rightarrow> compaction_config \<Rightarrow> compaction_config" where
  "update_context_limit new_context_window cfg =
     (case new_context_window of
        Some n \<Rightarrow> cfg\<lparr>cc_context_limit := n, cc_auto_compact := True\<rparr>
      | None \<Rightarrow> cfg\<lparr>cc_auto_compact := False\<rparr>)"

definition event_context_limit :: "loop_env \<Rightarrow> u32 option" where
  "event_context_limit env =
     (let c = ac_compaction (le_config env) in
      if cc_auto_compact c then Some (word_of_nat (cc_context_limit c)) else None)"

section \<open>Persistence\<close>

fun obj_insert :: "str \<Rightarrow> json \<Rightarrow> (str \<times> json) list \<Rightarrow> (str \<times> json) list" where
  "obj_insert k v [] = [(k, v)]"
| "obj_insert k v ((k', v') # es) =
     (if k = k' then (k, v) # es
      else if k < k' then (k, v) # (k', v') # es
      else (k', v') # obj_insert k v es)"

lemma map_of_obj_insert: "map_of (obj_insert k v es) = (map_of es)(k \<mapsto> v)"
  by (induction k v es rule: obj_insert.induct) (auto simp: fun_eq_iff)

definition chat_to_agent_message ::
    "chat_message \<Rightarrow> message_type \<Rightarrow> sender \<Rightarrow> u32 option \<Rightarrow> agent_message" where
  "chat_to_agent_message msg ty sdr turn =
     \<lparr>am_content = (case cm_content msg of None \<Rightarrow> [] | Some c \<Rightarrow> content_text c),
      am_llm_message = message_json msg, am_metadata = JObj [], am_role = str_to_role (cm_role msg),
      am_type = ty, am_sender = sdr, am_turn_count = turn\<rparr>"

definition with_parent :: "str option \<Rightarrow> agent_message \<Rightarrow> agent_message" where
  "with_parent parent am =
     (case (parent, as_object (am_metadata am)) of
        (Some p, Some es) \<Rightarrow> am\<lparr>am_metadata := JObj (obj_insert ''parent_session_id'' (JStr p) es)\<rparr>
      | _ \<Rightarrow> am)"

definition persist :: "loop_env \<Rightarrow> agent_message \<Rightarrow> loop_state \<Rightarrow> loop_state" where
  "persist env am st =
     (if le_persist_on env
      then st\<lparr>ls_persisted := ls_persisted st @ [with_parent (le_parent_session env) am]\<rparr>
      else st)"

definition with_initial_context :: "loop_env \<Rightarrow> chat_message list \<Rightarrow> loop_state \<Rightarrow> loop_state" where
  "with_initial_context env ms st =
     (let st' = fold (\<lambda>m. persist env (chat_to_agent_message m TypeCompletionSummary
                   (if cm_role m = ''user'' then HumanUser else AgentSender) None)) ms st
      in st'\<lparr>ls_messages := ls_messages st' @ ms\<rparr>)"

definition with_resumed_context :: "chat_message list \<Rightarrow> loop_state \<Rightarrow> loop_state" where
  "with_resumed_context ms st = st\<lparr>ls_messages := ls_messages st @ ms\<rparr>"

section \<open>Calling the model\<close>

definition chat_completion ::
    "loop_env \<Rightarrow> tool_definition list \<Rightarrow> loop_state \<Rightarrow> loop_state \<times> (agent_error + llm_response)" where
  "chat_completion env defs st =
     (case le_provider env (ls_calls st) (ls_messages st) defs of
        (evs, res) \<Rightarrow>
          ((emit evs st)\<lparr>ls_calls := Suc (ls_calls st), ls_requests := ls_requests st @ [ls_messages st]\<rparr>, res))"

definition retryable_status :: "16 word \<Rightarrow> bool" where
  "retryable_status s \<longleftrightarrow> s = 429 \<or> s = 500 \<or> s = 502 \<or> s = 503 \<or> s = 504"

text \<open>One round of the retry loop: \<open>Inl\<close> with what is returned, or \<open>Inr\<close> with the error to retry on.\<close>

definition llm_attempt ::
    "loop_env \<Rightarrow> tool_definition list \<Rightarrow> nat \<Rightarrow> agent_error option \<Rightarrow> loop_state
     \<Rightarrow> loop_state \<times> ((agent_error + llm_response) + agent_error)" where
  "llm_attempt env defs attempt last_error st =
     (let max_retries = unat (ac_max_retries (le_config env));
          st1 = (if 0 < attempt
                 then emit [ErrorEvent (le_session_id env)
                        (''LLM call failed, retrying (attempt '' @ to_decimal attempt @ ''/''
                         @ to_decimal max_retries @ ''): ''
                         @ (case last_error of None \<Rightarrow> [] | Some e \<Rightarrow> show_error e)) True] st
                 else st)
      in case chat_completion env defs st1 of
           (st2, Inr response) \<Rightarrow> (st2, Inl (Inr response))
         | (st2, Inl e) \<Rightarrow>
             (case e of
                Cancelled \<Rightarrow> (st2, Inl (Inl e))
              | LlmApiError status body \<Rightarrow>
                  if retryable_status status then (st2, Inr e)
                  else (emit [ErrorEvent (le_session_id env)
                          (''LLM API error (status '' @ to_decimal (unat status) @ ''): '' @ body) False] st2,
                        Inl (Inl e))
              | _ \<Rightarrow> (st2, Inr e)))"

fun llm_attempts ::
    "loop_env \<Rightarrow> tool_definition list \<Rightarrow> nat \<Rightarrow> agent_error option \<Rightarrow> loop_state
     \<Rightarrow> loop_state \<times> (agent_error + llm_response)" where
  "llm_attempts env defs 0 last_error st =
     (let max_retries = unat (ac_max_retries (le_config env)) in
      case llm_attempt env defs max_retries last_error st of
        (st', Inl res) \<Rightarrow> (st', res)
      | (st', Inr e) \<Rightarrow>
          (emit [ErrorEvent (le_session_id env)
             (''LLM call failed after '' @ to_decimal max_retries @ '' retries: '' @ show_error e) False] st',
           Inl e))"
| "llm_attempts env defs (Suc left) last_error st =
     (case llm_attempt env defs (unat (ac_max_retries (le_config env)) - Suc left) last_error st of
        (st', Inl res) \<Rightarrow> (st', res)
      | (st', Inr e) \<Rightarrow> llm_attempts env defs left (Some e) st')"

definition call_llm_with_retry ::
    "loop_env \<Rightarrow> tool_definition list \<Rightarrow> loop_state \<Rightarrow> loop_state \<times> (agent_error + llm_response)" where
  "call_llm_with_retry env defs st =
     llm_attempts env defs (unat (ac_max_retries (le_config env))) None st"

section \<open>Compaction\<close>

definition summary_instructions :: str where
  "summary_instructions =
     ''Summarize this conversation. Structure your summary as:'' @ [NL]
     @ ''## Goal'' @ [NL] @ ''What the user is trying to accomplish.'' @ [NL]
     @ ''## Key Decisions'' @ [NL] @ ''Important choices made and why.'' @ [NL]
     @ ''## Work Completed'' @ [NL] @ ''What was done '' @ [CHR 0xE2, CHR 0x80, CHR 0x94]
     @ '' files modified, code written, tests run.'' @ [NL]
     @ ''## Current State'' @ [NL] @ ''Where things stand '' @ [CHR 0xE2, CHR 0x80, CHR 0x94]
     @ '' what works, what'' @ [QUOTE] @ ''s broken, what'' @ [QUOTE] @ ''s next.'' @ [NL]
     @ ''## Relevant Files'' @ [NL] @ ''File paths referenced or modified.'' @ [NL, NL]
     @ ''Preserve exact file paths, function names, error messages, and technical details. Be concise but complete.''"

text \<open>The summary is asked of the compaction model, or of the main one where there is none; its events go to
  a channel whose receiver is dropped. \<open>ls_requests\<close> holds these requests too.\<close>

definition summarize_attempt ::
    "loop_env \<Rightarrow> chat_message list \<Rightarrow> loop_state \<Rightarrow> loop_state \<times> (agent_error + str)" where
  "summarize_attempt env msgs st =
     (let summarizer = (case le_summarizer env of None \<Rightarrow> le_provider env | Some p \<Rightarrow> p);
          st' = st\<lparr>ls_calls := Suc (ls_calls st), ls_requests := ls_requests st @ [msgs]\<rparr>
      in case summarizer (ls_calls st) msgs [] of
           (_, Inl e) \<Rightarrow> (st', Inl e)
         | (_, Inr response) \<Rightarrow> (st', Inr (case lr_content response of None \<Rightarrow> [] | Some t \<Rightarrow> t)))"

fun summarize_attempts ::
    "loop_env \<Rightarrow> chat_message list \<Rightarrow> nat \<Rightarrow> loop_state \<Rightarrow> loop_state \<times> str option" where
  "summarize_attempts env msgs 0 st = (st, None)"
| "summarize_attempts env msgs (Suc left) st =
     (case summarize_attempt env msgs st of
        (st', Inr text) \<Rightarrow>
          if trim text \<noteq> [] then (st', Some text) else summarize_attempts env msgs left st'
      | (st', Inl e) \<Rightarrow>
          if e = Cancelled then (st', None) else summarize_attempts env msgs left st')"

definition try_llm_summarization :: "loop_env \<Rightarrow> nat \<Rightarrow> nat \<Rightarrow> loop_state \<Rightarrow> loop_state \<times> str option" where
  "try_llm_summarization env start e st =
     summarize_attempts env
       [system_message summary_instructions,
        user_message (build_compaction_prompt (drop start (take e (ls_messages st))))] 2 st"

definition apply_compaction :: "loop_env \<Rightarrow> nat \<Rightarrow> nat \<Rightarrow> chat_message \<Rightarrow> loop_state \<Rightarrow> loop_state" where
  "apply_compaction env start e summary_msg st =
     (let ms = compacted start e summary_msg (ls_messages st);
          est = estimate_token_count ms
      in emit [TokenUsage (le_session_id env) (word_of_nat est) (event_context_limit env) None None,
               CompactionEvent (le_session_id env)]
           (st\<lparr>ls_messages := ms, ls_total_tokens := est\<rparr>))"

definition summary_prefix :: str where
  "summary_prefix = ''[Context summary from earlier in this conversation]'' @ [NL]"

definition truncation_text :: str where
  "truncation_text =
     ''[Earlier context was truncated due to length. Some conversation history has been lost.]''"

definition nat_json :: "nat \<Rightarrow> json" where
  "nat_json n = JNum (PosInt (word_of_nat n))"

definition compaction_metadata :: "nat \<Rightarrow> bool \<Rightarrow> json" where
  "compaction_metadata kept_before truncated =
     JObj ([(''kept_before_count'', nat_json kept_before)]
       @ (if truncated then [(''truncated'', JBool True)] else [])
       @ [(''version'', nat_json 1)])"

definition try_compaction :: "loop_env \<Rightarrow> loop_state \<Rightarrow> loop_state \<times> nat" where
  "try_compaction env st =
     (case compaction_boundaries (ls_messages st) (cc_keep_recent_messages (ac_compaction (le_config env))) of
        None \<Rightarrow> (st, 0)
      | Some (start, e) \<Rightarrow>
          (case try_llm_summarization env start e st of
             (st1, summary) \<Rightarrow>
               (let msg = (case summary of
                      Some text \<Rightarrow> user_message (summary_prefix @ text)
                    | None \<Rightarrow> user_message truncation_text);
                    am = (chat_to_agent_message msg TypeCompaction AgentSender None)
                           \<lparr>am_metadata := compaction_metadata start (summary = None)\<rparr>
                in (apply_compaction env start e msg (persist env am st1), 2))))"

section \<open>The tools of a turn\<close>

definition task_context :: "loop_env \<Rightarrow> nat \<Rightarrow> str \<Rightarrow> tool_context" where
  "task_context env i call_id =
     \<lparr>cx_working_dir = ac_working_dir (le_config env), cx_session_id = le_session_id env,
      cx_tool_call_id = call_id, cx_checkpoint_on = ac_checkpoint_on (le_config env),
      cx_checkpoint_turn = turn_no env i, cx_policy = ac_tool_policy (le_config env)\<rparr>"

text \<open>A task's result is collected under its index, unless it panics.\<close>

definition run_task ::
    "loop_env \<Rightarrow> nat \<Rightarrow> nat \<Rightarrow> tool_call \<Rightarrow> loop_state \<Rightarrow> loop_state \<times> (nat \<times> str \<times> tool_result) option" where
  "run_task env i idx tc st =
     (case le_panics env i idx of
        Some partial \<Rightarrow>
          (case partial (ls_world st) of (w', evs) \<Rightarrow> (emit evs (st\<lparr>ls_world := w'\<rparr>), None))
      | None \<Rightarrow>
          (case execute_tool_call (le_tools env) (tc_id tc) (fc_name (tc_function tc))
                  (fc_arguments (tc_function tc)) (task_context env i (tc_id tc)) (ls_world st) of
             (w', evs, r) \<Rightarrow> (emit evs (st\<lparr>ls_world := w'\<rparr>), Some (idx, tc_id tc, r))))"

fun run_tasks ::
    "loop_env \<Rightarrow> nat \<Rightarrow> tool_call list \<Rightarrow> nat list \<Rightarrow> loop_state
     \<Rightarrow> loop_state \<times> (nat \<times> str \<times> tool_result) list" where
  "run_tasks env i calls [] st = (st, [])"
| "run_tasks env i calls (idx # order) st =
     (case run_task env i idx (calls ! idx) st of
        (st1, res) \<Rightarrow>
          (case run_tasks env i calls order st1 of
             (st2, results) \<Rightarrow> (st2, (case res of None \<Rightarrow> results | Some r \<Rightarrow> r # results))))"

definition crashed_result :: tool_result where
  "crashed_result = tool_failure ''Tool execution crashed unexpectedly. Please try again.''"

definition missing_results ::
    "tool_call list \<Rightarrow> (nat \<times> str \<times> tool_result) list \<Rightarrow> (nat \<times> str \<times> tool_result) list" where
  "missing_results calls results =
     (let completed = map (\<lambda>(_, cid, _). cid) results in
      List.map_filter (\<lambda>(idx, tc).
          if tc_id tc \<in> set completed then None else Some (idx, tc_id tc, crashed_result))
        (enumerate 0 calls))"

definition run_batch ::
    "loop_env \<Rightarrow> nat \<Rightarrow> tool_call list \<Rightarrow> loop_state \<Rightarrow> loop_state \<times> (nat \<times> str \<times> tool_result) list" where
  "run_batch env i calls st =
     (case run_tasks env i calls (le_join_order env i (length calls)) st of
        (st', results) \<Rightarrow> (st', sort_key fst (results @ missing_results calls results)))"

definition push_result :: "loop_env \<Rightarrow> nat \<Rightarrow> nat \<times> str \<times> tool_result \<Rightarrow> loop_state \<Rightarrow> loop_state" where
  "push_result env i res st =
     (case res of (_, cid, r) \<Rightarrow>
        (let m = tool_result_message cid (tr_output r) in
         push_message m (persist env (chat_to_agent_message m TypeToolResult AgentSender (Some (turn_no env i))) st)))"

definition first_yield :: "(nat \<times> str \<times> tool_result) list \<Rightarrow> json option" where
  "first_yield results =
     (case List.map_filter (\<lambda>(_, _, r). tr_yield_data r) results of [] \<Rightarrow> None | d # _ \<Rightarrow> Some d)"

definition all_failed :: "(nat \<times> str \<times> tool_result) list \<Rightarrow> bool" where
  "all_failed results \<longleftrightarrow> results \<noteq> [] \<and> list_all (\<lambda>(_, _, r). tr_is_error r) results"

section \<open>One turn\<close>

definition pre_llm_compaction :: "loop_env \<Rightarrow> turn_vars \<times> loop_state \<Rightarrow> turn_vars \<times> loop_state" where
  "pre_llm_compaction env s =
     (case s of (v, st) \<Rightarrow>
        if tv_cooldown v = 0 then
          (let new_msg_tokens = (if tv_measured_at v < length (ls_messages st)
                 then estimate_token_count (drop (tv_measured_at v) (ls_messages st)) else 0);
               estimated = ls_total_tokens st + new_msg_tokens
           in if needs_compaction_by_tokens estimated (length (ls_messages st)) (ac_compaction (le_config env))
              then (case try_compaction env st of
                      (st', c) \<Rightarrow> (v\<lparr>tv_cooldown := c, tv_measured_at := length (ls_messages st')\<rparr>, st'))
              else (v, st))
        else (v, st))"

definition note_usage :: "loop_env \<Rightarrow> llm_response \<Rightarrow> turn_vars \<times> loop_state \<Rightarrow> turn_vars \<times> loop_state" where
  "note_usage env response s =
     (case (s, lr_usage response) of
        ((v, st), Some u) \<Rightarrow>
          (let (cache_read, cache_write) = (case us_prompt_tokens_details u of
                 None \<Rightarrow> (None, None)
               | Some d \<Rightarrow> (ptd_cached_tokens d, ptd_cache_creation_tokens d))
           in (v\<lparr>tv_measured_at := length (ls_messages st)\<rparr>,
               emit [TokenUsage (le_session_id env) (us_total_tokens u) (event_context_limit env)
                       cache_read cache_write]
                 (st\<lparr>ls_total_tokens := unat (us_total_tokens u)\<rparr>)))
      | (s, None) \<Rightarrow> s)"

definition response_message :: "llm_response \<Rightarrow> chat_message" where
  "response_message response =
     assistant_message (lr_content response)
       (if lr_tool_calls response = [] then None else Some (lr_tool_calls response)) (lr_thinking response)"

definition push_response :: "loop_env \<Rightarrow> nat \<Rightarrow> llm_response \<Rightarrow> loop_state \<Rightarrow> loop_state" where
  "push_response env i response st =
     (let m = response_message response in
      push_message m (persist env (chat_to_agent_message m
          (if lr_tool_calls response = [] then TypeText else TypeToolCall) AgentSender
          (Some (turn_no env i))) st))"

definition empty_response_message :: str where
  "empty_response_message =
     ''The model returned an empty response. This sometimes happens after context compaction. Please try again.''"

definition finish_text :: "loop_env \<Rightarrow> llm_response \<Rightarrow> loop_state \<Rightarrow> loop_state \<times> run_outcome" where
  "finish_text env response st =
     (let summary = (case lr_content response of None \<Rightarrow> [] | Some t \<Rightarrow> t) in
      if trim summary = [] then
        (emit [ErrorEvent (le_session_id env) empty_response_message False] st,
         Failed (LlmParseError ''empty response with no tool_calls''))
      else (emit [DoneEvent (le_session_id env) (Some summary)] st, Finished (Done summary)))"

definition doom_hint :: str where
  "doom_hint =
     ''You have failed multiple consecutive tool calls. Stop retrying the same approach. ''
     @ ''Either try a completely different strategy, or explain to the user what is blocking you.''"

definition doom_check :: "loop_env \<Rightarrow> turn_vars \<times> loop_state \<Rightarrow> turn_vars \<times> loop_state" where
  "doom_check env s =
     (case s of (v, st) \<Rightarrow>
        if doom_loop_threshold \<le> tv_failures v then
          (v\<lparr>tv_failures := 0\<rparr>,
           emit [ErrorEvent (le_session_id env)
               (''Doom loop detected: '' @ to_decimal doom_loop_threshold
                @ '' consecutive tool failures '' @ [CHR 0xE2, CHR 0x80, CHR 0x94]
                @ '' injecting course-correction hint'') True]
             (push_message (system_message doom_hint) st))
        else (v, st))"

definition str_or_empty :: "json \<Rightarrow> str \<Rightarrow> str" where
  "str_or_empty data k = (case json_get_str data k of None \<Rightarrow> [] | Some s \<Rightarrow> s)"

definition act_on_yield :: "loop_env \<Rightarrow> json option \<Rightarrow> loop_state \<Rightarrow> (loop_state \<times> run_outcome) option" where
  "act_on_yield env yield_data st =
     (case yield_data of
        None \<Rightarrow> None
      | Some data \<Rightarrow>
          if str_or_empty data ''yield_type'' = ''save_plan'' then
            (let plan = str_or_empty data ''plan''; plan_path = str_or_empty data ''plan_path'' in
             Some (emit [PlanReadyEvent (le_session_id env) plan plan_path
                           (ac_working_dir (le_config env))] st,
                   Finished (PlanReady plan plan_path)))
          else if str_or_empty data ''yield_type'' = ''ask_user'' then
            (let question = str_or_empty data ''question'';
                 options = map_option (List.map_filter as_str)
                             (Option.bind (json_get data ''options'') as_array)
             in Some (emit [UserQuestionAsked (le_session_id env) question options] st,
                      Finished (AskUser question options)))
          else None)"

definition turn_completed :: "loop_env \<Rightarrow> turn_vars \<Rightarrow> loop_state \<Rightarrow> loop_state" where
  "turn_completed env v st =
     emit [TurnCompleted (le_session_id env) (turn_no env (tv_iteration v)) (tv_modified v)] st"

definition post_tool_compaction :: "loop_env \<Rightarrow> turn_vars \<times> loop_state \<Rightarrow> turn_vars \<times> loop_state" where
  "post_tool_compaction env s =
     (case s of (v, st) \<Rightarrow>
        if 0 < tv_cooldown v then (v\<lparr>tv_cooldown := tv_cooldown v - 1\<rparr>, st)
        else if needs_compaction_by_tokens (ls_total_tokens st) (length (ls_messages st))
                  (ac_compaction (le_config env)) then
          (case try_compaction env st of
             (st', c) \<Rightarrow> (v\<lparr>tv_cooldown := c, tv_measured_at := length (ls_messages st')\<rparr>, st'))
        else (v, st))"

text \<open>What follows the model's answer when it calls tools.\<close>

definition tool_round ::
    "loop_env \<Rightarrow> tool_call list \<Rightarrow> turn_vars \<times> loop_state \<Rightarrow> loop_state \<times> (run_outcome + turn_vars)" where
  "tool_round env calls s =
     (case s of (v, st) \<Rightarrow>
        if le_cancelled env (tv_iteration v) BeforeTools then (st, Inl (Failed Cancelled))
        else case run_batch env (tv_iteration v) calls st of
          (st1, results) \<Rightarrow>
            (let v1 = v\<lparr>tv_failures := (if all_failed results then Suc (tv_failures v) else 0),
                        tv_modified := tv_modified v @ concat (map (\<lambda>(_, _, r). tr_modified_files r) results)\<rparr>;
                 st2 = fold (push_result env (tv_iteration v)) results st1
             in case doom_check env (v1, st2) of
                  (v2, st3) \<Rightarrow>
                    (case act_on_yield env (first_yield results) st3 of
                       Some (st4, outcome) \<Rightarrow> (st4, Inl outcome)
                     | None \<Rightarrow>
                         if le_cancelled env (tv_iteration v) AfterTools then
                           ((if tv_modified v2 \<noteq> [] then turn_completed env v2 st3 else st3),
                            Inl (Failed Cancelled))
                         else
                           (case post_tool_compaction env (v2, st3) of
                              (v3, st4) \<Rightarrow> (turn_completed env v3 st4, Inr (v3\<lparr>tv_modified := []\<rparr>))))))"

definition turn :: "loop_env \<Rightarrow> tool_definition list \<Rightarrow> turn_vars \<times> loop_state
    \<Rightarrow> loop_state \<times> (run_outcome + turn_vars)" where
  "turn env defs s =
     (case pre_llm_compaction env s of
        (v, st) \<Rightarrow>
          (let st1 = st\<lparr>ls_messages := strip_orphaned_tool_results (ls_messages st)\<rparr> in
           case call_llm_with_retry env defs st1 of
             (st2, Inl e) \<Rightarrow> (st2, Inl (Failed e))
           | (st2, Inr response) \<Rightarrow>
               (case note_usage env response (v, st2) of
                  (v1, st3) \<Rightarrow>
                    (let st4 = push_response env (tv_iteration v1) response st3 in
                     if lr_tool_calls response = []
                     then (case finish_text env response st4 of (st5, outcome) \<Rightarrow> (st5, Inl outcome))
                     else tool_round env (lr_tool_calls response) (v1, st4)))))"

section \<open>The run\<close>

text \<open>The recursion is on the number of turns still allowed.\<close>

fun run_loop :: "loop_env \<Rightarrow> tool_definition list \<Rightarrow> nat \<Rightarrow> turn_vars \<times> loop_state \<Rightarrow> loop_state \<times> run_outcome" where
  "run_loop env defs 0 (v, st) =
     (if le_cancelled env (Suc (tv_iteration v)) AtLoopStart then (st, Failed Cancelled)
      else
        let summary = ''Reached maximum of '' @ to_decimal (unat (ac_max_iterations (le_config env)))
                        @ '' steps. Progress preserved.''
        in (emit [DoneEvent (le_session_id env) (Some summary)] st, Finished (Done summary)))"
| "run_loop env defs (Suc left) (v, st) =
     (if le_cancelled env (Suc (tv_iteration v)) AtLoopStart then (st, Failed Cancelled)
      else case turn env defs (v\<lparr>tv_iteration := Suc (tv_iteration v)\<rparr>, st) of
             (st', Inl outcome) \<Rightarrow> (st', outcome)
           | (st', Inr v') \<Rightarrow> run_loop env defs left (v', st'))"

text \<open>The slice of the preview panics inside a character.\<close>

definition preview_panics :: "chat_message \<Rightarrow> bool" where
  "preview_panics m =
     (case cm_content m of
        None \<Rightarrow> False
      | Some c \<Rightarrow> \<not> is_char_boundary (content_text c) (min (length (content_text c)) 100))"

definition first_vars :: "loop_state \<Rightarrow> turn_vars" where
  "first_vars st = \<lparr>tv_iteration = 0, tv_modified = [], tv_failures = 0, tv_cooldown = 0,
     tv_measured_at = length (ls_messages st)\<rparr>"

definition reestimate :: "loop_state \<Rightarrow> loop_state" where
  "reestimate st =
     (if 2 < length (ls_messages st) \<and> ls_total_tokens st < estimate_token_count (ls_messages st)
      then st\<lparr>ls_total_tokens := estimate_token_count (ls_messages st)\<rparr> else st)"

definition take_user_message :: "loop_env \<Rightarrow> chat_message \<Rightarrow> loop_state \<Rightarrow> loop_state" where
  "take_user_message env m st =
     push_message m (persist env (chat_to_agent_message m TypeText HumanUser (Some (turn_no env 1))) st)"

definition run :: "loop_env \<Rightarrow> chat_message \<Rightarrow> loop_state \<Rightarrow> loop_state \<times> run_outcome" where
  "run env m st =
     (if preview_panics m then (st, Panicked)
      else
        let st1 = take_user_message env m st in
        run_loop env (tool_definitions (te_registry (le_tools env)))
          (unat (ac_max_iterations (le_config env))) (first_vars st1, reestimate st1))"

end
