(* ===== verification/CompactionFacts.thy ===== *)
theory CompactionFacts
  imports Compaction
begin

text \<open>
  Facts about compaction and sanitising. A history is well paired when it is a sequence of plain
  messages and turns, a turn being an assistant message with calls followed by their results in the
  order of the calls. Sanitising restores the pairing of any history and leaves a well-paired one
  alone; compaction of a well-paired history loses no message outside the compacted range.
\<close>

section \<open>Sanitising\<close>

definition only_assistants_call :: "chat_message list \<Rightarrow> bool" where
  "only_assistants_call ms \<longleftrightarrow> (\<forall>m \<in> set ms. cm_tool_calls m \<noteq> None \<longrightarrow> cm_role m = ''assistant'')"

definition pair_ok :: "chat_message list \<Rightarrow> bool" where
  "pair_ok ms \<longleftrightarrow>
     (\<forall>m \<in> set ms. \<forall>c. cm_role m = ''tool'' \<and> cm_tool_call_id m = Some c \<longrightarrow> c \<in> call_ids ms)
     \<and> (\<forall>m \<in> set ms. \<forall>tcs. cm_role m = ''assistant'' \<and> cm_tool_calls m = Some tcs \<longrightarrow>
          tcs \<noteq> [] \<and> (\<forall>tc \<in> set tcs. tc_id tc \<in> set (answered_ids ms)))"

lemma answered_ids_iff:
  "c \<in> set (answered_ids ms) \<longleftrightarrow> (\<exists>m \<in> set ms. cm_role m = ''tool'' \<and> cm_tool_call_id m = Some c)"
  by (induction ms) (auto simp: answered_ids_def map_filter_simps split: option.splits if_splits)

lemma call_id_list_iff: "c \<in> set (call_id_list ms) \<longleftrightarrow> c \<in> call_ids ms"
  by (simp add: call_ids_code)

lemma retain_answered_fields [simp]:
  "cm_role (retain_answered a m) = cm_role m" "cm_tool_call_id (retain_answered a m) = cm_tool_call_id m"
  "cm_content (retain_answered a m) = cm_content m"
  by (simp_all add: retain_answered_def Let_def split: option.splits)

lemma retain_answered_calls:
  "cm_role m = ''assistant'' \<Longrightarrow> cm_tool_calls (retain_answered a m) = Some tcs \<longleftrightarrow>
     (\<exists>all. cm_tool_calls m = Some all \<and> tcs = filter (\<lambda>tc. tc_id tc \<in> set a) all \<and> tcs \<noteq> [])"
  by (auto simp: retain_answered_def Let_def split: option.splits)

lemma strip_pair_ok:
  assumes "only_assistants_call ms"
  shows "pair_ok (strip_orphaned_tool_results ms)"
proof -
  define kept where "kept = filter (known_result (call_id_list ms)) ms"
  define ans where "ans = answered_ids kept"
  have eq: "strip_orphaned_tool_results ms = map (retain_answered ans) kept"
    by (simp add: strip_orphaned_tool_results_def kept_def ans_def Let_def)
  have ans': "set (answered_ids (map (retain_answered ans) kept)) = set ans"
    by (auto simp: answered_ids_iff ans_def)
  have called: "c \<in> call_ids (map (retain_answered ans) kept)"
    if m: "m \<in> set kept" and t: "cm_role m = ''tool''" "cm_tool_call_id m = Some c" for m c
  proof -
    from m t have "c \<in> call_ids ms" by (simp add: kept_def known_result_def call_id_list_iff)
    then obtain a tcs tc where a: "a \<in> set ms" "cm_tool_calls a = Some tcs" "tc \<in> set tcs" "c = tc_id tc"
      by (auto simp: call_ids_def)
    with assms have role: "cm_role a = ''assistant''" by (auto simp: only_assistants_call_def)
    then have "a \<in> set kept" using a(1) by (simp add: kept_def known_result_def)
    then have mem: "retain_answered ans a \<in> set (map (retain_answered ans) kept)" by simp
    have "c \<in> set ans" using m t by (auto simp: ans_def answered_ids_iff)
    then have tc: "tc \<in> set (filter (\<lambda>tc. tc_id tc \<in> set ans) tcs)" using a(3,4) by simp
    then have "filter (\<lambda>tc. tc_id tc \<in> set ans) tcs \<noteq> []" by (metis empty_iff empty_set)
    with retain_answered_calls [OF role] a(2)
    have "cm_tool_calls (retain_answered ans a) = Some (filter (\<lambda>tc. tc_id tc \<in> set ans) tcs)" by simp
    with mem tc a(4) show ?thesis unfolding call_ids_def by blast
  qed
  have answered: "tcs \<noteq> [] \<and> (\<forall>tc \<in> set tcs. tc_id tc \<in> set ans)"
    if "m \<in> set kept" "cm_role m = ''assistant''" "cm_tool_calls (retain_answered ans m) = Some tcs" for m tcs
    using that(3) retain_answered_calls [OF that(2)] by auto
  show ?thesis
    unfolding eq pair_ok_def ans'
  proof (intro conjI ballI allI impI)
    fix m c
    assume "m \<in> set (map (retain_answered ans) kept)"
      and t: "cm_role m = ''tool'' \<and> cm_tool_call_id m = Some c"
    then obtain k where "k \<in> set kept" "m = retain_answered ans k" by auto
    with t called [of k c] show "c \<in> call_ids (map (retain_answered ans) kept)" by simp
  next
    fix m tcs
    assume "m \<in> set (map (retain_answered ans) kept)"
      and t: "cm_role m = ''assistant'' \<and> cm_tool_calls m = Some tcs"
    then obtain k where "k \<in> set kept" "m = retain_answered ans k" by auto
    with t answered [of k tcs] show "tcs \<noteq> []" and "tc \<in> set tcs \<Longrightarrow> tc_id tc \<in> set ans" for tc by auto
  qed
qed

lemma pair_ok_known: "pair_ok ms \<Longrightarrow> filter (known_result (call_id_list ms)) ms = ms"
  by (auto simp: filter_id_conv known_result_def call_id_list_iff pair_ok_def split: option.splits)

lemma strip_id:
  assumes "pair_ok ms" and "only_assistants_call ms"
  shows "strip_orphaned_tool_results ms = ms"
proof -
  note k = pair_ok_known [OF assms(1)]
  have "retain_answered (answered_ids ms) m = m" if "m \<in> set ms" for m
  proof (cases "cm_role m = ''assistant'' \<and> cm_tool_calls m \<noteq> None")
    case True
    then obtain tcs where tcs: "cm_tool_calls m = Some tcs" by auto
    with True that assms(1) have "tcs \<noteq> []" "filter (\<lambda>tc. tc_id tc \<in> set (answered_ids ms)) tcs = tcs"
      by (auto simp: pair_ok_def filter_id_conv)
    with True tcs show ?thesis by (simp add: retain_answered_def Let_def)
  next
    case False
    then show ?thesis by (auto simp: retain_answered_def split: option.splits)
  qed
  then have "map (retain_answered (answered_ids ms)) ms = ms" by (simp add: map_idI)
  with k show ?thesis by (simp add: strip_orphaned_tool_results_def Let_def)
qed

lemma strip_only_assistants:
  "only_assistants_call ms \<Longrightarrow> only_assistants_call (strip_orphaned_tool_results ms)"
  by (auto simp: only_assistants_call_def strip_orphaned_tool_results_def Let_def retain_answered_def
      split: option.splits if_splits)

text \<open>C10. Sanitising gives a history in which every tool result has its call and every call its result,
  and it changes nothing in a history that already is like that.\<close>

theorem strip_orphaned_pairs:
  assumes "only_assistants_call ms"
  shows "pair_ok (strip_orphaned_tool_results ms) \<and> (strip_orphaned_tool_results ms = ms \<longleftrightarrow> pair_ok ms)"
  using strip_pair_ok [OF assms] strip_id [OF _ assms] by metis

theorem strip_orphaned_pairs_witness:
  "strip_orphaned_tool_results
     [tool_result_message ''lost'' ''x'',
      assistant_message None (Some [\<lparr>tc_id = ''a'', tc_type = ''function'',
         tc_function = \<lparr>fc_name = ''read'', fc_arguments = []\<rparr>\<rparr>]) None]
   = [assistant_message None None None]
   \<and> pair_ok [assistant_message None None None]"
proof -
  let ?ms = "[tool_result_message ''lost'' ''x'',
      assistant_message None (Some [\<lparr>tc_id = ''a'', tc_type = ''function'',
         tc_function = \<lparr>fc_name = ''read'', fc_arguments = []\<rparr>\<rparr>]) None]"
  have eq: "strip_orphaned_tool_results ?ms = [assistant_message None None None]" by code_simp
  have "only_assistants_call ?ms" by (simp add: only_assistants_call_def message_simps)
  from strip_orphaned_pairs [OF this] eq show ?thesis by simp
qed

section \<open>Well-paired histories\<close>

definition plain_msg :: "chat_message \<Rightarrow> bool" where
  "plain_msg m \<longleftrightarrow> cm_role m \<noteq> ''tool'' \<and> cm_tool_calls m = None"

definition answers :: "tool_call list \<Rightarrow> chat_message list \<Rightarrow> bool" where
  "answers tcs rs \<longleftrightarrow> map cm_tool_call_id rs = map (\<lambda>tc. Some (tc_id tc)) tcs
     \<and> (\<forall>r \<in> set rs. cm_role r = ''tool'' \<and> cm_tool_calls r = None)"

inductive well_paired :: "chat_message list \<Rightarrow> bool" where
  nil: "well_paired []"
| plain: "plain_msg m \<Longrightarrow> well_paired ms \<Longrightarrow> well_paired (m # ms)"
| turn: "cm_role a = ''assistant'' \<Longrightarrow> cm_tool_calls a = Some tcs \<Longrightarrow> tcs \<noteq> [] \<Longrightarrow> answers tcs rs \<Longrightarrow>
    well_paired ms \<Longrightarrow> well_paired (a # rs @ ms)"

lemma well_paired_append: "well_paired xs \<Longrightarrow> well_paired ys \<Longrightarrow> well_paired (xs @ ys)"
  by (induction rule: well_paired.induct) (auto intro: well_paired.intros)

lemma well_paired_snoc: "well_paired xs \<Longrightarrow> plain_msg m \<Longrightarrow> well_paired (xs @ [m])"
  by (auto intro: well_paired_append well_paired.intros)

lemma plain_not_early: "plain_msg m \<Longrightarrow> \<not> ends_turn_early m"
  by (simp add: plain_msg_def ends_turn_early_def)

lemma answers_early: "answers tcs rs \<Longrightarrow> r \<in> set rs \<Longrightarrow> ends_turn_early r"
  by (simp add: answers_def ends_turn_early_def)

text \<open>A cut at a turn boundary leaves two well-paired halves.\<close>

lemma well_paired_cut:
  "well_paired ms \<Longrightarrow> 0 < e \<Longrightarrow> e \<le> length ms \<Longrightarrow> \<not> ends_turn_early (ms ! (e - 1)) \<Longrightarrow>
   well_paired (drop e ms)"
proof (induction arbitrary: e rule: well_paired.induct)
  case (plain m ms)
  show ?case
  proof (cases "e = 1")
    case False
    with plain.prems plain.IH [of "e - 1"] show ?thesis by (cases e) auto
  qed (simp add: plain.hyps)
next
  case (turn a tcs rs ms)
  have "length (a # rs) < e"
  proof (rule ccontr)
    assume "\<not> length (a # rs) < e"
    then have "(a # rs @ ms) ! (e - 1) \<in> set (a # rs)"
      using turn.prems(1) by (cases "e - 1") (auto simp: nth_append)
    moreover have "ends_turn_early a" using turn.hyps by (simp add: ends_turn_early_def)
    ultimately show False using turn.prems(3) answers_early [OF turn.hyps(4)] by auto
  qed
  then obtain k where e: "e = length (a # rs) + k" and k: "0 < k" by (metis less_imp_add_positive)
  then have "(a # rs @ ms) ! (e - 1) = ms ! (k - 1)" by (cases k) (simp_all add: nth_append)
  with turn.prems e k turn.IH [of k] show ?case by simp
qed simp

lemma well_paired_grouped: "well_paired ms \<Longrightarrow> grouped ms"
proof (induction rule: well_paired.induct)
  case (plain m ms)
  then show ?case
    by (auto simp: grouped_def plain_msg_def nth_Cons split: nat.splits)
next
  case (turn a tcs rs ms)
  have a: "ends_turn_early a" using turn.hyps by (simp add: ends_turn_early_def)
  have "0 < i \<and> ends_turn_early ((a # rs @ ms) ! (i - 1))"
    if i: "i < length (a # rs @ ms)" and t: "cm_role ((a # rs @ ms) ! i) = ''tool''" for i
  proof (cases "i \<le> Suc (length rs)")
    case True
    have "0 < i" using t turn.hyps(1) by (cases i) auto
    have "(a # rs @ ms) ! (i - 1) \<in> set (a # rs)"
      using True \<open>0 < i\<close> by (cases "i - 1") (auto simp: nth_append)
    with a answers_early [OF turn.hyps(4)] \<open>0 < i\<close> show ?thesis by auto
  next
    case False
    then obtain k where k: "i = Suc (length rs) + k" "0 < k" by (metis less_imp_add_positive not_le)
    with i t have "k < length ms" "cm_role (ms ! k) = ''tool''" by (simp_all add: nth_append)
    with turn.IH have "ends_turn_early (ms ! (k - 1))" by (simp add: grouped_def)
    with k show ?thesis by (cases k) (simp_all add: nth_append)
  qed
  then show ?case unfolding grouped_def by blast
qed (simp add: grouped_def)

lemma call_ids_append [simp]: "call_ids (xs @ ys) = call_ids xs \<union> call_ids ys"
  by (auto simp: call_ids_def)

lemma call_ids_Cons: "call_ids (m # ms) =
   (case cm_tool_calls m of None \<Rightarrow> {} | Some tcs \<Rightarrow> tc_id ` set tcs) \<union> call_ids ms"
  by (auto simp: call_ids_def split: option.splits)

lemma answers_ids: "answers tcs rs \<Longrightarrow> set (answered_ids rs) = tc_id ` set tcs"
proof -
  assume a: "answers tcs rs"
  have "c \<in> set (answered_ids rs) \<longleftrightarrow> Some c \<in> set (map cm_tool_call_id rs)" for c
  proof -
    have "c \<in> set (answered_ids rs) \<longleftrightarrow> (\<exists>m \<in> set rs. cm_tool_call_id m = Some c)"
      using a by (auto simp: answered_ids_iff answers_def)
    then show ?thesis by (simp add: image_iff eq_commute)
  qed
  moreover have "set (map cm_tool_call_id rs) = Some ` tc_id ` set tcs"
    using a by (auto simp: answers_def)
  ultimately show ?thesis by (auto simp del: set_map)
qed

lemma answered_ids_append [simp]: "answered_ids (xs @ ys) = answered_ids xs @ answered_ids ys"
  by (simp add: answered_ids_def map_filter_def)

lemma pair_ok_append: "pair_ok xs \<Longrightarrow> pair_ok ys \<Longrightarrow> pair_ok (xs @ ys)"
  unfolding pair_ok_def by (simp add: ball_Un)

lemma well_paired_pair_ok: "well_paired ms \<Longrightarrow> pair_ok ms \<and> only_assistants_call ms"
proof (induction rule: well_paired.induct)
  case (plain m ms)
  then have "pair_ok [m]" by (auto simp: pair_ok_def plain_msg_def)
  with plain show ?case
    using pair_ok_append [of "[m]" ms] by (auto simp: only_assistants_call_def plain_msg_def)
next
  case (turn a tcs rs ms)
  have "call_ids (a # rs) = tc_id ` set tcs"
    using turn.hyps by (auto simp: call_ids_Cons answers_def call_ids_def)
  moreover have "set (answered_ids (a # rs)) = tc_id ` set tcs"
    using answers_ids [OF turn.hyps(4)] turn.hyps(1)
      answered_ids_append [of "[a]" rs] by (simp add: answered_ids_def map_filter_simps)
  moreover have "cm_tool_call_id r = Some c \<Longrightarrow> c \<in> tc_id ` set tcs" if "r \<in> set rs" for r c
  proof -
    assume "cm_tool_call_id r = Some c"
    with that have "Some c \<in> set (map cm_tool_call_id rs)" by force
    with turn.hyps(4) show ?thesis by (auto simp: answers_def)
  qed
  ultimately have "pair_ok (a # rs)"
    using turn.hyps by (auto simp: pair_ok_def answers_def)
  with turn show ?case
    using pair_ok_append [of "a # rs" ms] by (auto simp: only_assistants_call_def answers_def)
qed (simp add: pair_ok_def only_assistants_call_def)

lemma well_paired_strip: "well_paired ms \<Longrightarrow> strip_orphaned_tool_results ms = ms"
  using well_paired_pair_ok strip_id by blast

lemma system_plain: "well_paired (m # ms) \<Longrightarrow> cm_role m = ''system'' \<Longrightarrow> plain_msg m"
  by (cases rule: well_paired.cases) auto

section \<open>Compaction of a well-paired history\<close>

lemma compacted_well_paired:
  assumes "well_paired ms" and "compaction_boundaries ms keep_recent = Some (start, e)" and "plain_msg summary"
  shows "well_paired (take start ms @ summary # drop e ms)
    \<and> compacted start e summary ms = take start ms @ summary # drop e ms
    \<and> start \<le> 1 \<and> start + 2 \<le> e \<and> e + keep_recent \<le> length ms"
proof -
  have ne: "ms \<noteq> []" using assms(2) by (auto simp: compaction_boundaries_def)
  define s where "s = (if cm_role (hd ms) = ''system'' then 1 else 0 :: nat)"
  define r where "r = snap_to_turn_boundary ms (length ms - keep_recent)"
  from assms(2) have st: "start = s" and e: "e = advance_past_orphan_tool_results ms s r"
    and two: "s + 2 \<le> e"
    by (auto simp: compaction_boundaries_def Let_def s_def r_def split: if_splits)
  have r_keep: "r \<le> length ms - keep_recent" unfolding r_def by (rule snap_le)
  then have r_le: "r \<le> length ms" by simp
  have g: "grouped ms" by (rule well_paired_grouped [OF assms(1)])
  have "0 < r"
  proof (rule ccontr)
    assume "\<not> 0 < r"
    moreover obtain m rest where m: "ms = m # rest" using ne by (cases ms) auto
    moreover have "cm_role m \<noteq> ''tool''" using g m by (force simp: grouped_def)
    ultimately show False using e two by (simp add: advance_past_orphan_tool_results_def)
  qed
  then have safe: "\<not> ends_turn_early (ms ! (r - 1))" unfolding r_def by (intro snap_safe)
  have er: "e = r" using advance_grouped [OF g \<open>0 < r\<close> safe] e by simp
  have "well_paired (drop e ms)" using well_paired_cut [OF assms(1) \<open>0 < r\<close> r_le safe] er by simp
  moreover have "well_paired (take start ms)"
  proof (cases ms)
    case (Cons m rest)
    then show ?thesis
      using assms(1) system_plain [of m rest] st
      by (auto simp: s_def intro: well_paired.intros)
  qed (simp add: well_paired.nil)
  ultimately have wp: "well_paired (take start ms @ summary # drop e ms)"
    using assms(3) by (intro well_paired_append well_paired.plain)
  then show ?thesis
    using well_paired_strip [OF wp] st two er r_keep by (simp add: compacted_def s_def)
qed

text \<open>C12. Compaction of a well-paired history replaces exactly the compacted range by the summary: no
  message before or after it is lost or changed by the sanitising that follows, the result is well
  paired and has fewer messages.\<close>

theorem compaction_preserves_turns:
  assumes "well_paired ms" and "compaction_boundaries ms keep_recent = Some (start, e)"
    and "plain_msg summary"
  shows "compacted start e summary ms = take start ms @ summary # drop e ms
    \<and> well_paired (compacted start e summary ms)
    \<and> length (compacted start e summary ms) < length ms"
  using compacted_well_paired [OF assms] by (auto simp: min_def)

definition demo_call :: tool_call where
  "demo_call = \<lparr>tc_id = ''a'', tc_type = ''function'', tc_function = \<lparr>fc_name = ''read'', fc_arguments = []\<rparr>\<rparr>"

definition demo_history :: "chat_message list" where
  "demo_history = [system_message ''s'', user_message ''u'', assistant_message None (Some [demo_call]) None,
     tool_result_message ''a'' ''r'', assistant_message (Some ''x'') None None, user_message ''v'']"

lemma demo_history_paired: "well_paired demo_history"
proof -
  have "well_paired ([assistant_message None (Some [demo_call]) None] @ [tool_result_message ''a'' ''r'']
      @ [assistant_message (Some ''x'') None None, user_message ''v''])"
    by (simp, rule well_paired.turn [of _ "[demo_call]" "[_]", simplified])
      (auto simp: message_simps answers_def demo_call_def plain_msg_def intro!: well_paired.intros)
  then show ?thesis
    unfolding demo_history_def
    by (auto intro!: well_paired.plain simp: plain_msg_def message_simps)
qed

theorem compaction_preserves_turns_witness:
  "compaction_boundaries demo_history 1 = Some (1, 5) \<and>
   compacted 1 5 (user_message ''sum'') demo_history = [system_message ''s'', user_message ''sum'', user_message ''v'']"
proof -
  have b: "compaction_boundaries demo_history 1 = Some (1, 5)" by code_simp
  have "plain_msg (user_message ''sum'')" by (simp add: plain_msg_def message_simps)
  from compaction_preserves_turns [OF demo_history_paired b this] b show ?thesis
    by (simp add: demo_history_def)
qed

text \<open>The token estimate is additive, and a compaction whose summary is estimated lower than the range
  it replaces lowers the estimate of the whole history by the difference.\<close>

theorem estimate_after_compaction:
  assumes "well_paired ms" and "compaction_boundaries ms keep_recent = Some (start, e)"
    and "plain_msg summary"
  shows "estimate_token_count (compacted start e summary ms) + estimate_token_count (drop start (take e ms))
       = estimate_token_count ms + estimate_message summary"
proof -
  note c = compacted_well_paired [OF assms]
  then have "ms = take start ms @ drop start (take e ms) @ drop e ms"
    by (metis append_take_drop_id append.assoc min.absorb1 take_take le_add1 order_trans)
  then have "estimate_token_count ms = estimate_token_count (take start ms)
      + estimate_token_count (drop start (take e ms)) + estimate_token_count (drop e ms)"
    by (metis (no_types, lifting) estimate_token_count_def map_append sum_list_append add.assoc)
  with c show ?thesis by (simp add: estimate_token_count_def)
qed

lemma compaction_boundaries_keep_turns_witness:
  "compaction_boundaries demo_history 1 = Some (1, 5) \<and> \<not> ends_turn_early (demo_history ! 4)"
proof -
  have b: "compaction_boundaries demo_history 1 = Some (1, 5)" by code_simp
  from compaction_boundaries_keep_turns [OF b well_paired_grouped [OF demo_history_paired]] b
  show ?thesis by simp
qed

end
