(* ===== verification/AgentLoopFacts.thy ===== *)
theory AgentLoopFacts
  imports AgentLoop CompactionFacts "HOL-Library.Multiset"
begin

text \<open>
  Facts about the agent loop: how often and with what the model is called, that every tool call of a
  turn is answered in order whatever the tasks do, and that every request carries a well-paired history.
\<close>

section \<open>What the small steps leave alone\<close>

named_theorems loop_step

lemma emit_fields [simp]:
  "ls_messages (emit evs st) = ls_messages st" "ls_requests (emit evs st) = ls_requests st"
  "ls_calls (emit evs st) = ls_calls st" "ls_total_tokens (emit evs st) = ls_total_tokens st"
  "ls_persisted (emit evs st) = ls_persisted st" "ls_world (emit evs st) = ls_world st"
  "ls_events (emit evs st) = ls_events st @ evs"
  by (simp_all add: emit_def)

lemma push_fields [simp]:
  "ls_messages (push_message m st) = ls_messages st @ [m]" "ls_requests (push_message m st) = ls_requests st"
  "ls_calls (push_message m st) = ls_calls st" "ls_total_tokens (push_message m st) = ls_total_tokens st"
  "ls_persisted (push_message m st) = ls_persisted st" "ls_events (push_message m st) = ls_events st"
  by (simp_all add: push_message_def)

lemma persist_fields [simp]:
  "ls_messages (persist env am st) = ls_messages st" "ls_requests (persist env am st) = ls_requests st"
  "ls_calls (persist env am st) = ls_calls st" "ls_total_tokens (persist env am st) = ls_total_tokens st"
  "ls_events (persist env am st) = ls_events st"
  by (simp_all add: persist_def)

lemma turn_completed_fields [simp]:
  "ls_messages (turn_completed env v st) = ls_messages st"
  "ls_requests (turn_completed env v st) = ls_requests st"
  by (simp_all add: turn_completed_def)

lemma summarize_attempts_fields:
  "ls_messages (fst (summarize_attempts env msgs n st)) = ls_messages st
   \<and> (\<exists>k \<le> n. ls_requests (fst (summarize_attempts env msgs n st)) = ls_requests st @ replicate k msgs)"
proof (induction n arbitrary: st)
  case (Suc n)
  show ?case
  proof (cases "summarize_attempt env msgs st")
    case (Pair st' r)
    then have f: "ls_messages st' = ls_messages st" "ls_requests st' = ls_requests st @ [msgs]"
      by (auto simp: summarize_attempt_def Let_def split: prod.splits sum.splits)
    from Suc [of st'] obtain k where k: "k \<le> n"
      "ls_requests (fst (summarize_attempts env msgs n st')) = ls_requests st' @ replicate k msgs" by blast
    then have "\<exists>k \<le> Suc n. ls_requests (fst (summarize_attempts env msgs n st')) = ls_requests st @ replicate k msgs"
      using f(2) by (intro exI [of _ "Suc k"]) simp
    moreover have "\<exists>k \<le> Suc n. ls_requests st' = ls_requests st @ replicate k msgs"
      using f(2) by (intro exI [of _ 1]) simp
    ultimately show ?thesis using Pair Suc [of st'] f(1) by (auto split: sum.split)
  qed
qed simp

section \<open>Retries\<close>

text \<open>The answers on which the call is tried again.\<close>

definition retry_on :: "agent_error + llm_response \<Rightarrow> bool" where
  "retry_on r =
     (case r of
        Inr _ \<Rightarrow> False
      | Inl Cancelled \<Rightarrow> False
      | Inl (LlmApiError status _) \<Rightarrow> retryable_status status
      | Inl _ \<Rightarrow> True)"

definition answer_at :: "loop_env \<Rightarrow> tool_definition list \<Rightarrow> loop_state \<Rightarrow> nat \<Rightarrow> agent_error + llm_response" where
  "answer_at env defs st k = snd (le_provider env (ls_calls st + k) (ls_messages st) defs)"

lemma llm_attempt_cases:
  assumes "llm_attempt env defs a last_error st = (st', r)"
  shows "ls_messages st' = ls_messages st" and "ls_requests st' = ls_requests st @ [ls_messages st]"
    and "ls_calls st' = Suc (ls_calls st)"
    and "if retry_on (answer_at env defs st 0) then (\<exists>e. answer_at env defs st 0 = Inl e \<and> r = Inr e)
         else r = Inl (answer_at env defs st 0)"
  using assms
  by (auto simp: llm_attempt_def chat_completion_def answer_at_def retry_on_def Let_def
      split: prod.splits sum.splits agent_error.splits if_splits)

lemma answer_at_Suc:
  "ls_messages st' = ls_messages st \<Longrightarrow> ls_calls st' = Suc (ls_calls st) \<Longrightarrow>
   answer_at env defs st' k = answer_at env defs st (Suc k)"
  by (simp add: answer_at_def)

lemma llm_attempts_spec:
  "\<exists>k \<le> n. (\<forall>j < k. retry_on (answer_at env defs st j))
     \<and> (k = n \<or> \<not> retry_on (answer_at env defs st k))
     \<and> snd (llm_attempts env defs n last_error st) = answer_at env defs st k
     \<and> ls_messages (fst (llm_attempts env defs n last_error st)) = ls_messages st
     \<and> ls_calls (fst (llm_attempts env defs n last_error st)) = ls_calls st + Suc k
     \<and> ls_requests (fst (llm_attempts env defs n last_error st)) =
         ls_requests st @ replicate (Suc k) (ls_messages st)"
proof (induction n arbitrary: last_error st)
  case 0
  obtain st' r where a: "llm_attempt env defs (unat (ac_max_retries (le_config env))) last_error st = (st', r)"
    by (cases "llm_attempt env defs (unat (ac_max_retries (le_config env))) last_error st")
  note f = llm_attempt_cases [OF a]
  show ?case
    by (cases r) (use a f in \<open>auto simp: Let_def split: if_splits\<close>)
next
  case (Suc n)
  let ?a = "unat (ac_max_retries (le_config env)) - Suc n"
  obtain st' r where a: "llm_attempt env defs ?a last_error st = (st', r)"
    by (cases "llm_attempt env defs ?a last_error st")
  note f = llm_attempt_cases [OF a]
  show ?case
  proof (cases "retry_on (answer_at env defs st 0)")
    case False
    with f(4) have "r = Inl (answer_at env defs st 0)" by simp
    with a f False show ?thesis by (intro exI [of _ 0]) simp
  next
    case True
    with f(4) obtain e where e: "r = Inr e" by auto
    from Suc.IH [of st' "Some e"] obtain k where k: "k \<le> n"
      "\<forall>j < k. retry_on (answer_at env defs st' j)" "k = n \<or> \<not> retry_on (answer_at env defs st' k)"
      "snd (llm_attempts env defs n (Some e) st') = answer_at env defs st' k"
      "ls_messages (fst (llm_attempts env defs n (Some e) st')) = ls_messages st'"
      "ls_calls (fst (llm_attempts env defs n (Some e) st')) = ls_calls st' + Suc k"
      "ls_requests (fst (llm_attempts env defs n (Some e) st')) =
         ls_requests st' @ replicate (Suc k) (ls_messages st')"
      by blast
    note s = answer_at_Suc [OF f(1,3), of env defs]
    have "\<forall>j < Suc k. retry_on (answer_at env defs st j)"
      using k(2) True by (auto simp: s less_Suc_eq_0_disj)
    with k a e show ?thesis
      by (intro exI [of _ "Suc k"]) (simp add: s f(1,2,3))
  qed
qed

text \<open>C22. The model is called again after every retryable error, with the same history, until an answer is
  final (a response, cancellation or a permanent error) or the retries are used up; that answer is
  returned, so a call makes between one and \<open>max_retries + 1\<close> requests.\<close>

theorem retries_until_final:
  "\<exists>k \<le> unat (ac_max_retries (le_config env)).
     (\<forall>j. j < k \<longrightarrow> retry_on (answer_at env defs st j))
     \<and> (k = unat (ac_max_retries (le_config env)) \<or> \<not> retry_on (answer_at env defs st k))
     \<and> snd (call_llm_with_retry env defs st) = answer_at env defs st k
     \<and> ls_requests (fst (call_llm_with_retry env defs st)) =
         ls_requests st @ replicate (Suc k) (ls_messages st)
     \<and> ls_messages (fst (call_llm_with_retry env defs st)) = ls_messages st"
  using llm_attempts_spec [of "unat (ac_max_retries (le_config env))" env defs st None]
  unfolding call_llm_with_retry_def by blast

lemma call_llm_fields:
  "\<exists>k \<le> unat (ac_max_retries (le_config env)).
     ls_requests (fst (call_llm_with_retry env defs st)) = ls_requests st @ replicate (Suc k) (ls_messages st)
     \<and> ls_messages (fst (call_llm_with_retry env defs st)) = ls_messages st
     \<and> snd (call_llm_with_retry env defs st) = answer_at env defs st k"
  using llm_attempts_spec [of "unat (ac_max_retries (le_config env))" env defs st None]
  unfolding call_llm_with_retry_def by blast

section \<open>The answers of a turn\<close>

lemma run_tasks_results:
  "snd (run_tasks env i calls order st) = rs \<Longrightarrow>
     map (\<lambda>(idx, cid, _). (idx, cid)) rs =
     map (\<lambda>idx. (idx, tc_id (calls ! idx))) (filter (\<lambda>idx. le_panics env i idx = None) order)"
proof (induction order arbitrary: st rs)
  case (Cons idx order)
  obtain st1 res where t: "run_task env i idx (calls ! idx) st = (st1, res)"
    by (cases "run_task env i idx (calls ! idx) st")
  then have res: "if le_panics env i idx = None then \<exists>r. res = Some (idx, tc_id (calls ! idx), r) else res = None"
    by (auto simp: run_task_def split: option.splits prod.splits)
  have "rs = (case res of None \<Rightarrow> snd (run_tasks env i calls order st1)
      | Some r \<Rightarrow> r # snd (run_tasks env i calls order st1))"
    using Cons.prems t by (auto split: prod.splits option.splits)
  with Cons.IH [of st1] res show ?case by (auto split: if_splits)
qed simp

lemma map_key_fst: "\<forall>p \<in> set xs. p = g (fst p) \<Longrightarrow> xs = map g (map fst xs)"
  by (induction xs) auto

lemma mset_filter_split:
  "mset ys = mset zs \<Longrightarrow> mset (filter P ys @ filter (\<lambda>x. \<not> P x) zs) = mset zs"
  by (simp only: mset_append mset_filter) (metis multiset_partition)

text \<open>The runtime joins every task once; the environment's order of a turn is a permutation.\<close>

definition joins_all :: "loop_env \<Rightarrow> bool" where
  "joins_all env \<longleftrightarrow> (\<forall>i n. mset (le_join_order env i n) = mset [0..<n])"

text \<open>No task panics, or the ids in the model's answers are distinct.\<close>

definition answers_identify :: "loop_env \<Rightarrow> bool" where
  "answers_identify env \<longleftrightarrow>
     (\<forall>i idx. le_panics env i idx = None)
     \<or> (\<forall>n ms defs evs r. le_provider env n ms defs = (evs, Inr r) \<longrightarrow> distinct (map tc_id (lr_tool_calls r)))"

definition identified :: "loop_env \<Rightarrow> nat \<Rightarrow> tool_call list \<Rightarrow> bool" where
  "identified env i calls \<longleftrightarrow>
     (\<forall>idx < length calls. le_panics env i idx = None) \<or> distinct (map tc_id calls)"

lemma map_filter_upt:
  "List.map_filter (\<lambda>(idx, x). if P idx x then None else Some (f idx x)) (enumerate 0 xs) =
   map (\<lambda>idx. f idx (xs ! idx)) (filter (\<lambda>idx. \<not> P idx (xs ! idx)) [0..<length xs])"
proof (induction xs rule: rev_induct)
  case (snoc x xs)
  have "filter (\<lambda>idx. \<not> P idx ((xs @ [x]) ! idx)) [0..<length xs] = filter (\<lambda>idx. \<not> P idx (xs ! idx)) [0..<length xs]"
    by (rule filter_cong) (auto simp: nth_append)
  moreover have "map (\<lambda>idx. f idx ((xs @ [x]) ! idx)) (filter (\<lambda>idx. \<not> P idx (xs ! idx)) [0..<length xs])
      = map (\<lambda>idx. f idx (xs ! idx)) (filter (\<lambda>idx. \<not> P idx (xs ! idx)) [0..<length xs])"
    by (rule map_cong) (auto simp: nth_append)
  ultimately show ?case
    using snoc by (simp add: enumerate_append_eq map_filter_def)
qed (simp add: map_filter_simps)

text \<open>Whatever the order and whichever tasks panic, the results of a turn have the index and the id of every
  call once, in the order of the calls.\<close>

lemma run_batch_indices:
  assumes "mset (le_join_order env i (length calls)) = mset [0..<length calls]" and "identified env i calls"
  shows "map (\<lambda>(idx, cid, _). (idx, cid)) (snd (run_batch env i calls st)) =
    map (\<lambda>idx. (idx, tc_id (calls ! idx))) [0..<length calls]"
proof -
  let ?n = "length calls" and ?order = "le_join_order env i (length calls)"
  let ?key = "\<lambda>idx. (idx, tc_id (calls ! idx))" and ?proj = "\<lambda>(idx, cid, _). (idx, cid :: str)"
  let ?ok = "\<lambda>idx. le_panics env i idx = None"
  define rs where "rs = snd (run_tasks env i calls ?order st)"
  have rs: "map ?proj rs = map ?key (filter ?ok ?order)"
    unfolding rs_def by (rule run_tasks_results) (rule refl)
  have set_o: "set ?order = {0..<?n}" using arg_cong [OF assms(1), of set_mset] by simp
  define done_ids where "done_ids = map (\<lambda>(_, cid, _). cid) rs"
  have "done_ids = map snd (map ?proj rs)" by (simp add: done_ids_def case_prod_unfold)
  then have d: "done_ids = map (\<lambda>idx. tc_id (calls ! idx)) (filter ?ok ?order)" by (simp add: rs)
  have iff: "tc_id (calls ! idx) \<in> set done_ids \<longleftrightarrow> ?ok idx" if idx: "idx < ?n" for idx
  proof (cases "distinct (map tc_id calls)")
    case True
    then have inj: "tc_id (calls ! a) = tc_id (calls ! b) \<Longrightarrow> a < ?n \<Longrightarrow> b < ?n \<Longrightarrow> a = b" for a b
      by (metis nth_eq_iff_index_eq length_map nth_map)
    show ?thesis using idx set_o by (auto simp: d dest: inj)
  next
    case False
    with assms(2) have "\<forall>idx < ?n. ?ok idx" by (simp add: identified_def)
    with idx set_o show ?thesis by (auto simp: d)
  qed
  have "missing_results calls rs = map (\<lambda>idx. (idx, tc_id (calls ! idx), crashed_result))
      (filter (\<lambda>idx. tc_id (calls ! idx) \<notin> set done_ids) [0..<?n])"
    unfolding missing_results_def Let_def done_ids_def [symmetric]
    by (rule map_filter_upt [where P = "\<lambda>_ tc. tc_id tc \<in> set done_ids"])
  also have "filter (\<lambda>idx. tc_id (calls ! idx) \<notin> set done_ids) [0..<?n] = filter (\<lambda>idx. \<not> ?ok idx) [0..<?n]"
    by (rule filter_cong) (use iff in auto)
  finally have miss: "map ?proj (missing_results calls rs) = map ?key (filter (\<lambda>idx. \<not> ?ok idx) [0..<?n])"
    by (simp add: comp_def)
  let ?L = "rs @ missing_results calls rs"
  have L: "map ?proj ?L = map ?key (filter ?ok ?order @ filter (\<lambda>idx. \<not> ?ok idx) [0..<?n])"
    using rs miss by simp
  have "mset (filter ?ok ?order @ filter (\<lambda>idx. \<not> ?ok idx) [0..<?n]) = mset [0..<?n]"
    by (rule mset_filter_split [OF assms(1)])
  moreover have fst_proj: "map fst xs = map fst (map ?proj xs)" for xs :: "(nat \<times> str \<times> tool_result) list"
    by (simp add: case_prod_unfold)
  have "map fst ?L = filter ?ok ?order @ filter (\<lambda>idx. \<not> ?ok idx) [0..<?n]"
    unfolding fst_proj L by (simp add: comp_def)
  ultimately have "sort (map fst ?L) = [0..<?n]"
    by (intro properties_for_sort) simp_all
  then have f: "map fst (sort_key fst ?L) = [0..<?n]" by (simp only: map_sort_key)
  have "set (map ?proj (sort_key fst ?L)) = set (map ?proj ?L)" by (simp only: set_map set_sort)
  also have "\<dots> \<subseteq> range ?key" unfolding L by (simp only: set_map) (rule image_mono [OF subset_UNIV])
  finally have "\<forall>p \<in> set (map ?proj (sort_key fst ?L)). p = ?key (fst p)" by fastforce
  then have "map ?proj (sort_key fst ?L) = map ?key (map fst (map ?proj (sort_key fst ?L)))"
    by (rule map_key_fst)
  then have "map ?proj (sort_key fst ?L) = map ?key [0..<?n]"
    using f by (simp only: fst_proj [symmetric])
  then show ?thesis
    by (simp add: run_batch_def rs_def case_prod_unfold)
qed

text \<open>Pushing the results appends one tool message each.\<close>

lemma push_results_fields:
  "ls_messages (fold (push_result env i) rs st) =
     ls_messages st @ map (\<lambda>(_, cid, r). tool_result_message cid (tr_output r)) rs
   \<and> ls_requests (fold (push_result env i) rs st) = ls_requests st"
  by (induction rs arbitrary: st) (auto simp: push_result_def Let_def)

lemma results_answer:
  assumes "map (\<lambda>(idx, cid, _). (idx, cid)) rs = map (\<lambda>idx. (idx, tc_id (calls ! idx))) [0..<length calls]"
  shows "answers calls (map (\<lambda>(_, cid, r). tool_result_message cid (tr_output r)) rs)"
proof -
  have "map (\<lambda>(_, cid, _). cid) rs = map snd (map (\<lambda>(idx, cid, _). (idx, cid)) rs)"
    by (simp add: case_prod_unfold)
  also have "\<dots> = map (\<lambda>idx. tc_id (calls ! idx)) [0..<length calls]"
    unfolding assms by (simp add: comp_def)
  also have "\<dots> = map tc_id calls"
    by (rule nth_equalityI) simp_all
  finally have "map (\<lambda>(_, cid, _). Some cid) rs = map (\<lambda>tc. Some (tc_id tc)) calls"
    by (simp add: map_eq_conv case_prod_unfold) (metis (no_types, lifting) list.map_comp map_eq_conv comp_apply)
  then show ?thesis
    by (auto simp: answers_def message_simps case_prod_unfold comp_def)
qed

lemma run_tasks_fields:
  "ls_messages (fst (run_tasks env i calls order st)) = ls_messages st
   \<and> ls_requests (fst (run_tasks env i calls order st)) = ls_requests st"
proof (induction order arbitrary: st)
  case (Cons idx order)
  obtain st1 res where t: "run_task env i idx (calls ! idx) st = (st1, res)"
    by (cases "run_task env i idx (calls ! idx) st")
  then have "ls_messages st1 = ls_messages st" "ls_requests st1 = ls_requests st"
    by (auto simp: run_task_def split: option.splits prod.splits)
  with t Cons.IH [of st1] show ?case by (simp add: case_prod_unfold)
qed simp

lemma run_batch_fields:
  "ls_messages (fst (run_batch env i calls st)) = ls_messages st
   \<and> ls_requests (fst (run_batch env i calls st)) = ls_requests st"
  using run_tasks_fields [of env i calls "le_join_order env i (length calls)" st]
  by (simp add: run_batch_def case_prod_unfold)

text \<open>C7. Whatever order the concurrent tool tasks of a turn end in and whichever of them panic, the results
  pushed to the history answer every call of the model exactly once, in the order of the calls.\<close>

theorem every_call_answered:
  assumes "mset (le_join_order env i (length calls)) = mset [0..<length calls]" and "identified env i calls"
    and "run_batch env i calls st = (st1, results)"
  shows "\<exists>rs. ls_messages (fold (push_result env i) results st1) = ls_messages st @ rs \<and> answers calls rs"
proof -
  have "answers calls (map (\<lambda>(_, cid, r). tool_result_message cid (tr_output r)) results)"
    using run_batch_indices [OF assms(1,2), of st] assms(3) by (intro results_answer) simp
  moreover have "ls_messages st1 = ls_messages st" using run_batch_fields [of env i calls st] assms(3) by simp
  ultimately show ?thesis using push_results_fields [of env i results st1] by auto
qed

section \<open>Well-paired requests\<close>

text \<open>The history is well paired, and so was every request so far.\<close>

definition requests_ok :: "loop_state \<Rightarrow> bool" where
  "requests_ok st \<longleftrightarrow> (\<forall>ms \<in> set (ls_requests st). well_paired ms)"

definition history_ok :: "loop_state \<Rightarrow> bool" where
  "history_ok st \<longleftrightarrow> well_paired (ls_messages st) \<and> requests_ok st"

lemma requests_ok_cong: "ls_requests st' = ls_requests st \<Longrightarrow> requests_ok st' = requests_ok st"
  by (simp add: requests_ok_def)

lemma history_ok_cong:
  "ls_requests st' = ls_requests st \<Longrightarrow> ls_messages st' = ls_messages st \<Longrightarrow> history_ok st' = history_ok st"
  by (simp add: history_ok_def requests_ok_def)

lemma plain_messages [simp]: "plain_msg (user_message s)" "plain_msg (system_message s)"
  by (simp_all add: plain_msg_def message_simps)

lemma summary_request_paired: "well_paired [system_message x, user_message y]"
  by (intro well_paired.intros) simp_all

lemma try_compaction_ok:
  assumes "history_ok st" and "try_compaction env st = (st', c)"
  shows "history_ok st'"
proof (cases "compaction_boundaries (ls_messages st) (cc_keep_recent_messages (ac_compaction (le_config env)))")
  case None
  with assms show ?thesis by (simp add: try_compaction_def)
next
  case (Some b)
  obtain start e where b: "b = (start, e)" by (cases b)
  obtain st1 summary where s: "try_llm_summarization env start e st = (st1, summary)"
    by (cases "try_llm_summarization env start e st")
  let ?msg = "case summary of Some text \<Rightarrow> user_message (summary_prefix @ text) | None \<Rightarrow> user_message truncation_text"
  have f: "ls_messages st1 = ls_messages st"
    using s summarize_attempts_fields unfolding try_llm_summarization_def by (metis fst_conv)
  have "requests_ok st1"
  proof -
    let ?req = "[system_message summary_instructions, user_message (build_compaction_prompt (drop start (take e (ls_messages st))))]"
    obtain k where "ls_requests st1 = ls_requests st @ replicate k ?req"
      using s summarize_attempts_fields [of env ?req 2 st] unfolding try_llm_summarization_def by auto
    with assms(1) summary_request_paired show ?thesis by (auto simp: requests_ok_def history_ok_def)
  qed
  have "plain_msg ?msg" by (simp split: option.split)
  from compacted_well_paired [OF _ Some [unfolded b] this] assms(1)
  have "well_paired (compacted start e ?msg (ls_messages st))" by (simp add: history_ok_def)
  then have "history_ok (apply_compaction env start e ?msg (persist env am st1))" for am
    using \<open>requests_ok st1\<close> f by (simp add: history_ok_def requests_ok_def apply_compaction_def Let_def)
  then show ?thesis
    using assms(2) Some b s by (auto simp: try_compaction_def Let_def)
qed

lemma pre_llm_compaction_ok:
  assumes "history_ok st" and "pre_llm_compaction env (v, st) = (v', st')"
  shows "history_ok st' \<and> tv_iteration v' = tv_iteration v"
  using assms try_compaction_ok [OF assms(1)]
  by (auto simp: pre_llm_compaction_def Let_def split: if_splits prod.splits)

lemma post_tool_compaction_ok:
  assumes "history_ok st" and "post_tool_compaction env (v, st) = (v', st')"
  shows "history_ok st' \<and> tv_iteration v' = tv_iteration v"
  using assms try_compaction_ok [OF assms(1)]
  by (auto simp: post_tool_compaction_def Let_def split: if_splits prod.splits)

lemma call_llm_ok:
  assumes "history_ok st" and "call_llm_with_retry env defs st = (st', r)"
  shows "history_ok st' \<and> ls_messages st' = ls_messages st"
proof -
  from call_llm_fields [of env defs st] assms(2) obtain k where
    "ls_requests st' = ls_requests st @ replicate (Suc k) (ls_messages st)" "ls_messages st' = ls_messages st"
    by auto
  with assms(1) show ?thesis by (auto simp: history_ok_def requests_ok_def)
qed

lemma note_usage_fields:
  "note_usage env r (v, st) = (v', st') \<Longrightarrow>
     ls_messages st' = ls_messages st \<and> ls_requests st' = ls_requests st \<and> tv_iteration v' = tv_iteration v"
  by (auto simp: note_usage_def Let_def split: option.splits prod.splits)

lemma doom_check_ok:
  assumes "history_ok st" and "doom_check env (v, st) = (v', st')"
  shows "history_ok st' \<and> tv_iteration v' = tv_iteration v"
  using assms well_paired_snoc [of "ls_messages st"]
  by (auto simp: doom_check_def history_ok_def requests_ok_def split: if_splits)

lemma act_on_yield_fields:
  "act_on_yield env d st = Some (st', out) \<Longrightarrow>
     ls_messages st' = ls_messages st \<and> ls_requests st' = ls_requests st"
  by (auto simp: act_on_yield_def Let_def split: option.splits if_splits)

lemma well_paired_turn:
  assumes "well_paired ms" and "cm_role a = ''assistant''" and "cm_tool_calls a = Some tcs" and "tcs \<noteq> []"
    and "answers tcs rs"
  shows "well_paired (ms @ a # rs)"
  using well_paired.turn [OF assms(2-5) well_paired.nil] assms(1) by (auto intro: well_paired_append)

text \<open>The part of a round after the tools.\<close>

lemma tool_round_run:
  assumes "\<not> le_cancelled env (tv_iteration v) BeforeTools"
    and "run_batch env (tv_iteration v) calls st = (st1, results)"
    and "doom_check env
      (v\<lparr>tv_failures := (if all_failed results then Suc (tv_failures v) else 0),
         tv_modified := tv_modified v @ concat (map (\<lambda>(_, _, r). tr_modified_files r) results)\<rparr>,
       fold (push_result env (tv_iteration v)) results st1) = (v2, st3)"
  shows "tool_round env calls (v, st) =
      (case act_on_yield env (first_yield results) st3 of
         Some (st4, outcome) \<Rightarrow> (st4, Inl outcome)
       | None \<Rightarrow>
           if le_cancelled env (tv_iteration v) AfterTools then
             ((if tv_modified v2 \<noteq> [] then turn_completed env v2 st3 else st3), Inl (Failed Cancelled))
           else (case post_tool_compaction env (v2, st3) of
                   (v3, st4) \<Rightarrow> (turn_completed env v3 st4, Inr (v3\<lparr>tv_modified := []\<rparr>))))"
  using assms by (simp add: tool_round_def Let_def)

lemma turn_run:
  assumes "pre_llm_compaction env (v, st) = (v0, st0)"
    and "call_llm_with_retry env defs (st0\<lparr>ls_messages := strip_orphaned_tool_results (ls_messages st0)\<rparr>) = (st2, ans)"
  shows "turn env defs (v, st) =
     (case ans of
        Inl e \<Rightarrow> (st2, Inl (Failed e))
      | Inr response \<Rightarrow>
          (case note_usage env response (v0, st2) of
             (v1, st3) \<Rightarrow>
               (let st4 = push_response env (tv_iteration v1) response st3 in
                if lr_tool_calls response = []
                then (case finish_text env response st4 of (st5, outcome) \<Rightarrow> (st5, Inl outcome))
                else tool_round env (lr_tool_calls response) (v1, st4))))"
  by (cases ans) (simp_all add: turn_def Let_def assms)

lemma tool_round_ok:
  assumes "well_paired ms" and "ls_messages st = ms @ [response_message r]" and "lr_tool_calls r \<noteq> []"
    and "requests_ok st"
    and "mset (le_join_order env (tv_iteration v) (length (lr_tool_calls r))) = mset [0..<length (lr_tool_calls r)]"
    and "identified env (tv_iteration v) (lr_tool_calls r)"
    and "tool_round env (lr_tool_calls r) (v, st) = (st', res)"
  shows "requests_ok st' \<and> (\<forall>v'. res = Inr v' \<longrightarrow> history_ok st' \<and> tv_iteration v' = tv_iteration v)"
proof (cases "le_cancelled env (tv_iteration v) BeforeTools")
  case True
  with assms(4,7) show ?thesis by (auto simp: tool_round_def)
next
  case False
  obtain st1 results where b: "run_batch env (tv_iteration v) (lr_tool_calls r) st = (st1, results)"
    by (cases "run_batch env (tv_iteration v) (lr_tool_calls r) st")
  define st2 where "st2 = fold (push_result env (tv_iteration v)) results st1"
  define v1 where "v1 = v\<lparr>tv_failures := (if all_failed results then Suc (tv_failures v) else 0),
      tv_modified := tv_modified v @ concat (map (\<lambda>(_, _, r). tr_modified_files r) results)\<rparr>"
  obtain v2 st3 where d: "doom_check env (v1, st2) = (v2, st3)" by (cases "doom_check env (v1, st2)")
  have ans: "answers (lr_tool_calls r) (map (\<lambda>(_, cid, r). tool_result_message cid (tr_output r)) results)"
    using run_batch_indices [OF assms(5,6), of st] b by (intro results_answer) simp
  have f1: "ls_messages st1 = ls_messages st" "ls_requests st1 = ls_requests st"
    using run_batch_fields [of env "tv_iteration v" "lr_tool_calls r" st] b by simp_all
  have "well_paired (ms @ response_message r # map (\<lambda>(_, cid, r). tool_result_message cid (tr_output r)) results)"
    by (rule well_paired_turn [OF assms(1) _ _ assms(3) ans])
       (simp_all add: response_message_def message_simps assms(3))
  then have h2: "history_ok st2"
    using push_results_fields [of env "tv_iteration v" results st1] assms(2,4) f1
    by (simp add: history_ok_def requests_ok_def st2_def)
  have h3: "history_ok st3" "tv_iteration v2 = tv_iteration v"
    using doom_check_ok [OF h2 d] by (simp_all add: v1_def)
  note unfold = tool_round_run [OF False b d [unfolded v1_def st2_def]]
  show ?thesis
  proof (cases "act_on_yield env (first_yield results) st3")
    case (Some p)
    obtain st4 outcome where p: "p = (st4, outcome)" by (cases p)
    from act_on_yield_fields [OF Some [unfolded p]] h3(1) Some p unfold assms(7) show ?thesis
      by (auto simp: history_ok_def requests_ok_def)
  next
    case None
    obtain v3 st4 where c: "post_tool_compaction env (v2, st3) = (v3, st4)"
      by (cases "post_tool_compaction env (v2, st3)")
    from post_tool_compaction_ok [OF h3(1) c] None c unfold assms(7) h3 show ?thesis
      by (auto simp: history_ok_def requests_ok_def split: if_splits)
  qed
qed

lemma finish_text_fields:
  "finish_text env r st = (st', out) \<Longrightarrow> ls_requests st' = ls_requests st"
  by (auto simp: finish_text_def Let_def split: if_splits)

lemma turn_ok:
  assumes h: "history_ok st" and env: "joins_all env" "answers_identify env"
    and t: "turn env defs (v, st) = (st', res)"
  shows "requests_ok st' \<and> (\<forall>v'. res = Inr v' \<longrightarrow> history_ok st' \<and> tv_iteration v' = tv_iteration v)"
proof -
  obtain v0 st0 where p: "pre_llm_compaction env (v, st) = (v0, st0)" by (cases "pre_llm_compaction env (v, st)")
  from pre_llm_compaction_ok [OF h p] have h0: "history_ok st0" and i0: "tv_iteration v0 = tv_iteration v" by simp_all
  have strip: "st0\<lparr>ls_messages := strip_orphaned_tool_results (ls_messages st0)\<rparr> = st0"
    using h0 well_paired_strip [of "ls_messages st0"] by (simp add: history_ok_def)
  obtain st2 ans where c: "call_llm_with_retry env defs st0 = (st2, ans)"
    by (cases "call_llm_with_retry env defs st0")
  from call_llm_ok [OF h0 c] have h2: "history_ok st2" by simp
  show ?thesis
  proof (cases ans)
    case (Inl e)
    with t p strip c h2 show ?thesis by (auto simp: turn_def Let_def history_ok_def)
  next
    case (Inr r)
    obtain v1 st3 where u: "note_usage env r (v0, st2) = (v1, st3)" by (cases "note_usage env r (v0, st2)")
    note uf = note_usage_fields [OF u]
    define st4 where "st4 = push_response env (tv_iteration v1) r st3"
    have m4: "ls_messages st4 = ls_messages st2 @ [response_message r]" "requests_ok st4"
      using uf h2 by (simp_all add: st4_def push_response_def Let_def history_ok_def requests_ok_def)
    show ?thesis
    proof (cases "lr_tool_calls r = []")
      case True
      obtain st5 out where f: "finish_text env r st4 = (st5, out)" by (cases "finish_text env r st4")
      with t p strip c Inr u True have "st' = st5" "res = Inl out"
        by (simp_all add: turn_def Let_def st4_def)
      with finish_text_fields [OF f] m4(2) show ?thesis by (simp add: requests_ok_def)
    next
      case False
      have tr: "tool_round env (lr_tool_calls r) (v1, st4) = (st', res)"
        using t p strip c Inr u False by (simp add: turn_def Let_def st4_def)
      obtain k where "ans = answer_at env defs st0 k"
        using call_llm_fields [of env defs st0] c by auto
      then obtain evs where "le_provider env (ls_calls st0 + k) (ls_messages st0) defs = (evs, Inr r)"
        using Inr by (metis answer_at_def prod.collapse)
      with env(2) have ident: "identified env (tv_iteration v1) (lr_tool_calls r)"
        unfolding answers_identify_def identified_def by blast
      have wp: "well_paired (ls_messages st2)" using h2 by (simp add: history_ok_def)
      have js: "mset (le_join_order env (tv_iteration v1) (length (lr_tool_calls r))) = mset [0..<length (lr_tool_calls r)]"
        using env(1) by (simp add: joins_all_def)
      have "tv_iteration v1 = tv_iteration v" using uf i0 by simp
      with tool_round_ok [OF wp m4(1) False m4(2) js ident tr] show ?thesis by metis
    qed
  qed
qed

lemma run_loop_ok:
  assumes "joins_all env" "answers_identify env" and "history_ok st"
  shows "requests_ok (fst (run_loop env defs n (v, st)))"
  using assms(3)
proof (induction n arbitrary: v st)
  case 0
  then show ?case by (simp add: history_ok_def requests_ok_def Let_def)
next
  case (Suc n)
  let ?v = "v\<lparr>tv_iteration := Suc (tv_iteration v)\<rparr>"
  obtain st' res where t: "turn env defs (?v, st) = (st', res)" by (cases "turn env defs (?v, st)")
  from turn_ok [OF Suc.prems assms(1,2) t] Suc.IH [of st'] t Suc.prems show ?case
    by (cases res) (auto simp: history_ok_def)
qed

lemma run_requests_ok:
  assumes "joins_all env" and "answers_identify env"
    and "well_paired (ls_messages st)" and "ls_requests st = []" and "plain_msg m"
  shows "requests_ok (fst (run env m st))"
proof (cases "preview_panics m")
  case True
  with assms(4) show ?thesis by (simp add: run_def requests_ok_def)
next
  case False
  let ?st = "reestimate (take_user_message env m st)"
  have "history_ok ?st"
    using assms(3-5) well_paired_snoc by (auto simp: history_ok_def requests_ok_def reestimate_def take_user_message_def)
  from run_loop_ok [OF assms(1,2) this] False show ?thesis by (simp add: run_def Let_def)
qed

text \<open>C3. Every request that a run sends to the model carries a history in which each assistant message that
  calls tools is followed, without a gap, by one result for each of its calls in the order of the calls,
  and nowhere else is there a tool result: through concurrent and crashing tools, retries and
  compactions alike. The requests for a summary are among them.\<close>

theorem requests_well_paired:
  assumes "joins_all env" and "answers_identify env"
    and "well_paired (ls_messages st)" and "ls_requests st = []" and "plain_msg m"
    and "ms \<in> set (ls_requests (fst (run env m st)))"
  shows "well_paired ms"
  using run_requests_ok [OF assms(1-5)] assms(6) by (simp add: requests_ok_def)

section \<open>How long a run is\<close>

lemma try_compaction_requests:
  assumes "try_compaction env st = (st', c)"
  shows "(c = 0 \<and> ls_requests st' = ls_requests st) \<or> (c = 2 \<and> length (ls_requests st') \<le> length (ls_requests st) + 2)"
proof -
  have "length (ls_requests st1) \<le> length (ls_requests st) + 2"
    if "try_llm_summarization env s e st = (st1, t)" for s e st1 t
  proof -
    have "\<exists>msgs k. k \<le> 2 \<and> ls_requests st1 = ls_requests st @ replicate k msgs"
      using that summarize_attempts_fields unfolding try_llm_summarization_def by (metis fst_conv)
    then show ?thesis by auto
  qed
  with assms show ?thesis
    by (fastforce simp: try_compaction_def apply_compaction_def Let_def split: option.splits prod.splits)
qed

text \<open>The most requests for summaries in \<open>n\<close> turns that begin with a cooldown of \<open>c\<close>.\<close>

definition summary_room :: "nat \<Rightarrow> nat \<Rightarrow> nat" where
  "summary_room n c = 2 * ((n + 1 - c) div 2)"

lemma pre_llm_compaction_requests:
  assumes "pre_llm_compaction env (v, st) = (v', st')"
  shows "(tv_cooldown v' = tv_cooldown v \<and> ls_requests st' = ls_requests st)
    \<or> (tv_cooldown v = 0 \<and> tv_cooldown v' = 2 \<and> length (ls_requests st') \<le> length (ls_requests st) + 2)"
  using assms try_compaction_requests [of env st]
  by (auto simp: pre_llm_compaction_def Let_def split: if_splits prod.splits)

lemma post_tool_compaction_requests:
  assumes "post_tool_compaction env (v, st) = (v', st')"
  shows "(tv_cooldown v' = tv_cooldown v - 1 \<and> ls_requests st' = ls_requests st)
    \<or> (tv_cooldown v = 0 \<and> tv_cooldown v' = 2 \<and> length (ls_requests st') \<le> length (ls_requests st) + 2)"
  using assms try_compaction_requests [of env st]
  by (auto simp: post_tool_compaction_def split: if_splits prod.splits)

lemma tool_round_requests:
  assumes "tool_round env calls (v, st) = (st', res)"
  shows "case res of
      Inl _ \<Rightarrow> ls_requests st' = ls_requests st
    | Inr v' \<Rightarrow> (tv_cooldown v' = tv_cooldown v - 1 \<and> ls_requests st' = ls_requests st)
        \<or> (tv_cooldown v = 0 \<and> tv_cooldown v' = 2 \<and> length (ls_requests st') \<le> length (ls_requests st) + 2)"
proof (cases "le_cancelled env (tv_iteration v) BeforeTools")
  case True
  with assms show ?thesis by (auto simp: tool_round_def)
next
  case False
  obtain st1 results where b: "run_batch env (tv_iteration v) calls st = (st1, results)"
    by (cases "run_batch env (tv_iteration v) calls st")
  obtain v2 st3 where dc: "doom_check env
      (v\<lparr>tv_failures := (if all_failed results then Suc (tv_failures v) else 0),
         tv_modified := tv_modified v @ concat (map (\<lambda>(_, _, r). tr_modified_files r) results)\<rparr>,
       fold (push_result env (tv_iteration v)) results st1) = (v2, st3)"
    by (meson surj_pair)
  then have "tv_cooldown v2 = tv_cooldown v"
    "ls_requests st3 = ls_requests (fold (push_result env (tv_iteration v)) results st1)"
    by (auto simp: doom_check_def split: if_splits)
  then have s3: "tv_cooldown v2 = tv_cooldown v" "ls_requests st3 = ls_requests st"
    using b push_results_fields [of env "tv_iteration v" results st1] run_batch_fields [of env "tv_iteration v" calls st]
    by simp_all
  show ?thesis
  proof (cases "act_on_yield env (first_yield results) st3")
    case (Some p)
    with act_on_yield_fields [of env "first_yield results" st3 "fst p" "snd p"] s3 assms
    show ?thesis unfolding tool_round_run [OF False b dc] by (auto split: prod.splits)
  next
    case None
    obtain v3 st4 where c: "post_tool_compaction env (v2, st3) = (v3, st4)"
      by (cases "post_tool_compaction env (v2, st3)")
    from post_tool_compaction_requests [OF c] None c s3 assms show ?thesis
      unfolding tool_round_run [OF False b dc] by (auto split: if_splits)
  qed
qed

lemma turn_requests:
  assumes t: "turn env defs (v, st) = (st', res)" and c: "tv_cooldown v \<le> 2"
  shows "length (ls_requests st') + (case res of Inl _ \<Rightarrow> 0 | Inr v' \<Rightarrow> summary_room n (tv_cooldown v'))
      \<le> length (ls_requests st) + Suc (unat (ac_max_retries (le_config env))) + summary_room (Suc n) (tv_cooldown v)
    \<and> (\<forall>v'. res = Inr v' \<longrightarrow> tv_cooldown v' \<le> 2)"
proof -
  let ?R = "Suc (unat (ac_max_retries (le_config env)))"
  obtain v0 st0 where p: "pre_llm_compaction env (v, st) = (v0, st0)" by (cases "pre_llm_compaction env (v, st)")
  note p0 = pre_llm_compaction_requests [OF p]
  let ?st1 = "st0\<lparr>ls_messages := strip_orphaned_tool_results (ls_messages st0)\<rparr>"
  obtain st2 ans where l: "call_llm_with_retry env defs ?st1 = (st2, ans)"
    by (cases "call_llm_with_retry env defs ?st1")
  have l2: "length (ls_requests st2) \<le> length (ls_requests st0) + ?R"
  proof -
    from call_llm_fields [of env defs ?st1] obtain k where "k \<le> unat (ac_max_retries (le_config env))"
      "ls_requests (fst (call_llm_with_retry env defs ?st1)) = ls_requests ?st1 @ replicate (Suc k) (ls_messages ?st1)"
      by blast
    with l show ?thesis by simp
  qed
  show ?thesis
  proof (cases "\<exists>v'. res = Inr v'")
    case False
    have "length (ls_requests st') \<le> length (ls_requests st2)"
    proof (cases ans)
      case (Inl e)
      with t show ?thesis unfolding turn_run [OF p l] by simp
    next
      case (Inr r)
      obtain v1 st3 where n: "note_usage env r (v0, st2) = (v1, st3)" by (cases "note_usage env r (v0, st2)")
      have q: "ls_requests (push_response env i r st3) = ls_requests st2" for i
        using note_usage_fields [OF n] by (simp add: push_response_def Let_def)
      have "ls_requests s = ls_requests st2" if "finish_text env r (push_response env i r st3) = (s, out)" for i s out
        using finish_text_fields [OF that] q by simp
      moreover have "ls_requests s = ls_requests st2"
        if "tool_round env calls (v1, push_response env i r st3) = (s, Inl out)" for calls i s out
        using tool_round_requests [OF that] q by simp
      ultimately show ?thesis
        using t False Inr n unfolding turn_run [OF p l]
        by (cases res) (auto simp: Let_def split: if_splits prod.splits)
    qed
    moreover have "length (ls_requests st0) \<le> length (ls_requests st) + summary_room (Suc n) (tv_cooldown v)"
      using p0 by (auto simp: summary_room_def)
    ultimately show ?thesis using l2 False by (auto split: sum.split)
  next
    case True
    then obtain v' where v': "res = Inr v'" by blast
    with t obtain r v1 st3 where r: "ans = Inr r" "note_usage env r (v0, st2) = (v1, st3)"
      "tool_round env (lr_tool_calls r) (v1, push_response env (tv_iteration v1) r st3) = (st', Inr v')"
      unfolding turn_run [OF p l] by (auto simp: Let_def split: sum.splits prod.splits if_splits)
    have "tv_cooldown v1 = tv_cooldown v0"
      using r(2) by (auto simp: note_usage_def Let_def split: option.splits prod.splits)
    moreover have "ls_requests (push_response env (tv_iteration v1) r st3) = ls_requests st2"
      using note_usage_fields [OF r(2)] by (simp add: push_response_def Let_def)
    ultimately have post: "(tv_cooldown v' = tv_cooldown v0 - 1 \<and> ls_requests st' = ls_requests st2)
        \<or> (tv_cooldown v0 = 0 \<and> tv_cooldown v' = 2 \<and> length (ls_requests st') \<le> length (ls_requests st2) + 2)"
      using tool_round_requests [OF r(3)] by simp
    have room: "summary_room n 0 \<le> summary_room (Suc n) 0" "2 + summary_room n 2 \<le> summary_room (Suc n) 0"
      "2 + summary_room n 1 \<le> summary_room (Suc n) 0" "summary_room n 0 \<le> summary_room (Suc n) 1"
      "summary_room n 1 \<le> summary_room (Suc n) 2"
      by (simp_all add: summary_room_def)
    have cases: "tv_cooldown v = 0 \<or> tv_cooldown v = 1 \<or> tv_cooldown v = 2" using c by linarith
    show ?thesis
      using p0 post l2 room cases by (auto simp: v')
  qed
qed

text \<open>C21. A run sends at most \<open>max_iterations * (max_retries + 1)\<close> requests for an answer and, as a compaction rests
  for two turns, two for each second turn, rounded up, to have the history summarised, whatever the model answers
  and the tools do. (A run is a total function: the recursion is on the turns that are left.)\<close>

theorem run_request_bound:
  "length (ls_requests (fst (run env m st))) \<le> length (ls_requests st)
     + unat (ac_max_iterations (le_config env)) * Suc (unat (ac_max_retries (le_config env)))
     + 2 * ((unat (ac_max_iterations (le_config env)) + 1) div 2)"
proof -
  let ?R = "Suc (unat (ac_max_retries (le_config env)))"
  have loop: "length (ls_requests (fst (run_loop env defs n (v, s))))
      \<le> length (ls_requests s) + n * ?R + summary_room n (tv_cooldown v)" if "tv_cooldown v \<le> 2" for defs n v s
    using that
  proof (induction n arbitrary: v s)
    case (Suc n)
    let ?v = "v\<lparr>tv_iteration := Suc (tv_iteration v)\<rparr>"
    obtain s' res where t: "turn env defs (?v, s) = (s', res)" by (cases "turn env defs (?v, s)")
    with turn_requests [OF t, of n] Suc.prems
    have l: "length (ls_requests s') + (case res of Inl _ \<Rightarrow> 0 | Inr v' \<Rightarrow> summary_room n (tv_cooldown v'))
        \<le> length (ls_requests s) + ?R + summary_room (Suc n) (tv_cooldown v)"
      "\<forall>v'. res = Inr v' \<longrightarrow> tv_cooldown v' \<le> 2" by simp_all
    show ?case
    proof (cases res)
      case (Inl e)
      with t l show ?thesis by simp
    next
      case (Inr v')
      with t l Suc.IH [of v' s'] show ?thesis by simp
    qed
  qed (simp add: Let_def)
  define s where "s = reestimate (take_user_message env m st)"
  have s: "ls_requests s = ls_requests st" by (simp add: s_def reestimate_def take_user_message_def)
  show ?thesis
  proof (cases "preview_panics m")
    case False
    then have "run env m st = run_loop env (tool_definitions (te_registry (le_tools env)))
        (unat (ac_max_iterations (le_config env))) (first_vars (take_user_message env m st), s)"
      by (simp add: run_def Let_def s_def)
    with loop [of "first_vars (take_user_message env m st)" "tool_definitions (te_registry (le_tools env))"
        "unat (ac_max_iterations (le_config env))" s] s
    show ?thesis by (simp add: first_vars_def summary_room_def)
  qed (simp add: run_def)
qed

section \<open>How a run ends\<close>

definition result_event :: "loop_env \<Rightarrow> agent_result \<Rightarrow> agent_event" where
  "result_event env r =
     (case r of
        Done s \<Rightarrow> DoneEvent (le_session_id env) (Some s)
      | AskUser q opts \<Rightarrow> UserQuestionAsked (le_session_id env) q opts
      | PlanReady plan p \<Rightarrow> PlanReadyEvent (le_session_id env) plan p (ac_working_dir (le_config env)))"

definition announced :: "loop_env \<Rightarrow> run_outcome \<Rightarrow> loop_state \<Rightarrow> bool" where
  "announced env out st \<longleftrightarrow>
     (case out of
        Finished r \<Rightarrow> ls_events st \<noteq> [] \<and> last (ls_events st) = result_event env r
      | _ \<Rightarrow> True)"

lemma tool_round_announced: "tool_round env calls (v, st) = (st', Inl out) \<Longrightarrow> announced env out st'"
  by (auto simp: tool_round_def act_on_yield_def announced_def result_event_def Let_def
      split: if_splits prod.splits option.splits)

lemma finish_text_announced: "finish_text env r st = (st', out) \<Longrightarrow> announced env out st'"
  by (auto simp: finish_text_def announced_def result_event_def Let_def split: if_splits)

lemma turn_announced: "turn env defs s = (st', Inl out) \<Longrightarrow> announced env out st'"
  using tool_round_announced finish_text_announced
  by (fastforce simp: turn_def announced_def Let_def split: if_splits prod.splits sum.splits)

text \<open>A run that returns a result has sent the event of that result last: \<open>Done\<close> with the final text or
  the notice that the limit was reached, the question for the user, or the plan that was saved.\<close>

theorem run_announces_result:
  "announced env (snd (run env m st)) (fst (run env m st))"
proof -
  have "announced env (snd (run_loop env defs n (v, s))) (fst (run_loop env defs n (v, s)))" for defs n v s
  proof (induction n arbitrary: v s)
    case 0
    show ?case by (simp add: announced_def result_event_def Let_def)
  next
    case (Suc n)
    let ?v = "v\<lparr>tv_iteration := Suc (tv_iteration v)\<rparr>"
    obtain s' res where t: "turn env defs (?v, s) = (s', res)" by (cases "turn env defs (?v, s)")
    show ?case
    proof (cases "le_cancelled env (Suc (tv_iteration v)) AtLoopStart")
      case True
      then show ?thesis by (simp add: announced_def)
    next
      case False
      show ?thesis
      proof (cases res)
        case (Inl out)
        with t False turn_announced [of env defs "(?v, s)" s' out] show ?thesis by simp
      next
        case (Inr v')
        with t False Suc.IH [of v' s'] show ?thesis by simp
      qed
    qed
  qed
  moreover have "announced env Panicked st" by (simp add: announced_def)
  ultimately show ?thesis by (simp add: run_def Let_def)
qed

section \<open>An example\<close>

text \<open>A model that first calls two unknown tools and then answers; the tasks end in reverse order and the
  first one panics.\<close>

definition demo_calls :: "tool_call list" where
  "demo_calls = [demo_call, demo_call\<lparr>tc_id := ''b''\<rparr>]"

definition demo_answer :: "str option \<Rightarrow> tool_call list \<Rightarrow> llm_response" where
  "demo_answer text calls = \<lparr>lr_content = text, lr_tool_calls = calls, lr_usage = None,
     lr_finish_reason = None, lr_thinking = None\<rparr>"

definition demo_model :: llm_provider where
  "demo_model n ms defs =
     (if n = 0 then ([], Inl (LlmApiError 503 ''busy''))
      else if n = 1 then ([], Inr (demo_answer None demo_calls)) else ([], Inr (demo_answer (Some ''ok'') [])))"

definition demo_config :: agent_config where
  "demo_config = \<lparr>ac_working_dir = ''/p'', ac_max_iterations = 2, ac_system_prompt = None, ac_max_retries = 1,
     ac_compaction = \<lparr>cc_context_limit = 1000, cc_auto_compact = False, cc_threshold = (\<lambda>n. n),
       cc_keep_recent_messages = 2, cc_max_messages = 50\<rparr>,
     ac_checkpoint_on = False, ac_tool_policy = default_policy\<rparr>"

definition demo_loop_env :: loop_env where
  "demo_loop_env = \<lparr>le_config = demo_config, le_session_id = ''s'', le_provider = demo_model,
     le_summarizer = None,
     le_tools = \<lparr>te_registry = [], te_parse_json = (\<lambda>_. Inr JNull), te_show_json = (\<lambda>_. ''?''),
        te_approval = None, te_home = None, te_git_dir = (\<lambda>_. None)\<rparr>,
     le_cancelled = (\<lambda>_ _. False), le_join_order = (\<lambda>_ n. rev [0..<n]),
     le_panics = (\<lambda>_ idx. if idx = 0 then Some (\<lambda>w. (w, [])) else None),
     le_persist_on = True, le_parent_session = None, le_turn_offset = 0\<rparr>"

definition demo_start :: loop_state where
  "demo_start = initial_state demo_config 0 \<lparr>w_disk = (\<lambda>_. None), w_store = (\<lambda>_. None)\<rparr>"

lemma demo_requests:
  "map (map cm_role) (ls_requests (fst (run demo_loop_env (user_message ''go'') demo_start))) =
    [[''user''], [''user''], [''user'', ''assistant'', ''tool'', ''tool'']]"
  by code_simp

lemma demo_joins: "joins_all demo_loop_env"
  by (simp add: joins_all_def demo_loop_env_def)

lemma demo_distinct: "distinct (map tc_id demo_calls)"
  by (simp add: demo_calls_def demo_call_def)

lemma demo_identify: "answers_identify demo_loop_env"
  unfolding answers_identify_def
  by (rule disjI2) (auto simp: demo_loop_env_def demo_model_def demo_answer_def demo_distinct split: if_splits)

theorem requests_well_paired_witness:
  "well_paired (last (ls_requests (fst (run demo_loop_env (user_message ''go'') demo_start))))
   \<and> map cm_role (last (ls_requests (fst (run demo_loop_env (user_message ''go'') demo_start)))) =
      [''user'', ''assistant'', ''tool'', ''tool'']"
proof -
  let ?rs = "ls_requests (fst (run demo_loop_env (user_message ''go'') demo_start))"
  have ne: "?rs \<noteq> []" using demo_requests by (metis list.map_disc_iff list.distinct(1))
  have "well_paired (ls_messages demo_start)" "ls_requests demo_start = []"
    by (simp_all add: demo_start_def initial_state_def initial_messages_def demo_config_def well_paired.nil)
  from requests_well_paired [OF demo_joins demo_identify this plain_messages(1) last_in_set [OF ne]]
  have "well_paired (last ?rs)" .
  moreover have "map cm_role (last ?rs) = last (map (map cm_role) ?rs)" by (simp only: last_map [OF ne])
  ultimately show ?thesis unfolding demo_requests by simp
qed

theorem every_call_answered_witness:
  "\<exists>rs. ls_messages (fold (push_result demo_loop_env 1) (snd (run_batch demo_loop_env 1 demo_calls demo_start))
          (fst (run_batch demo_loop_env 1 demo_calls demo_start))) = rs
     \<and> answers demo_calls rs \<and> le_panics demo_loop_env 1 0 \<noteq> None"
proof -
  have "identified demo_loop_env 1 demo_calls" using demo_distinct by (simp add: identified_def)
  moreover have "mset (le_join_order demo_loop_env 1 (length demo_calls)) = mset [0..<length demo_calls]"
    using demo_joins by (simp add: joins_all_def)
  moreover have "ls_messages demo_start = []"
    by (simp add: demo_start_def initial_state_def initial_messages_def demo_config_def)
  ultimately show ?thesis
    using every_call_answered [of demo_loop_env 1 demo_calls demo_start]
    by (simp add: demo_loop_env_def)
qed

theorem retries_until_final_witness:
  "snd (call_llm_with_retry demo_loop_env [] demo_start) = Inr (demo_answer None demo_calls)
   \<and> length (ls_requests (fst (call_llm_with_retry demo_loop_env [] demo_start))) = 2"
proof -
  have r: "unat (ac_max_retries (le_config demo_loop_env)) = 1"
    by (simp add: demo_loop_env_def demo_config_def)
  have a0: "retry_on (answer_at demo_loop_env [] demo_start 0)"
    by (simp add: retry_on_def answer_at_def demo_loop_env_def demo_model_def demo_start_def initial_state_def
        retryable_status_def)
  have a1: "answer_at demo_loop_env [] demo_start 1 = Inr (demo_answer None demo_calls)"
    by (simp add: answer_at_def demo_loop_env_def demo_model_def demo_start_def initial_state_def)
  from retries_until_final [of demo_loop_env "[]" demo_start] obtain k where k: "k \<le> 1"
    "k = 1 \<or> \<not> retry_on (answer_at demo_loop_env [] demo_start k)"
    "snd (call_llm_with_retry demo_loop_env [] demo_start) = answer_at demo_loop_env [] demo_start k"
    "ls_requests (fst (call_llm_with_retry demo_loop_env [] demo_start)) =
       ls_requests demo_start @ replicate (Suc k) (ls_messages demo_start)"
    unfolding r by blast
  then have "k = 1" using a0 by (cases k) auto
  with k a1 show ?thesis by (simp add: demo_start_def initial_state_def)
qed

text \<open>A user message with a multi-byte character across byte 100 makes the run panic before anything is sent
  or stored.\<close>

lemma run_preview_panic:
  "run env (user_message (replicate 99 (CHR ''a'') @ [CHR 0xC3, CHR 0xA9])) st = (st, Panicked)"
proof -
  have "preview_panics (user_message (replicate 99 (CHR ''a'') @ [CHR 0xC3, CHR 0xA9]))"
    by (simp add: preview_panics_def message_simps is_char_boundary_def is_cont_byte_def nth_append)
  then show ?thesis by (simp add: run_def)
qed

end
