(* ===== verification/Resume.thy ===== *)
theory Resume
  imports MessageDbFacts AgentLoopFacts
begin

text \<open>
  Resuming a session: the stored rows become the history of a new run by \<open>deserialize_context\<close> and
  \<open>sanitize_tool_pairs\<close> of \<open>apps/desktop/src-tauri/src/agent_bridge/commands.rs\<close>. The facts relate the
  agent loop's compaction to what the database gives back after it.
\<close>

section \<open>Pairing calls and results\<close>

definition unavailable_text :: str where
  "unavailable_text = ''[Tool result unavailable '' @ [CHR 0xE2, CHR 0x80, CHR 0x94]
     @ '' the call was denied or the session ended before completion.]''"

text \<open>The results found after a message for the ids of its calls, and the ids that have none.\<close>

definition found_ids :: "str list \<Rightarrow> chat_message list \<Rightarrow> str list" where
  "found_ids expected tools =
     List.map_filter (\<lambda>m. case cm_tool_call_id m of
         Some c \<Rightarrow> if c \<in> set expected then Some c else None
       | None \<Rightarrow> None) tools"

definition missing_answers :: "tool_call list \<Rightarrow> chat_message list \<Rightarrow> chat_message list" where
  "missing_answers tcs tools =
     (let expected = map tc_id tcs in
      map (\<lambda>c. tool_result_message c unavailable_text)
        (filter (\<lambda>c. c \<notin> set (found_ids expected tools)) expected))"

definition is_tool :: "chat_message \<Rightarrow> bool" where
  "is_tool m \<longleftrightarrow> cm_role m = ''tool''"

function sanitize_tool_pairs :: "chat_message list \<Rightarrow> chat_message list" where
  "sanitize_tool_pairs [] = []"
| "sanitize_tool_pairs (m # ms) =
     (if cm_role m = ''assistant'' then
        (case cm_tool_calls m of
           Some tcs \<Rightarrow>
             m # takeWhile is_tool ms @ missing_answers tcs (takeWhile is_tool ms)
               @ sanitize_tool_pairs (dropWhile is_tool ms)
         | None \<Rightarrow> m # sanitize_tool_pairs ms)
      else if is_tool m then sanitize_tool_pairs ms
      else m # sanitize_tool_pairs ms)"
  by pat_completeness auto
termination
  by (relation "measure length") (auto simp: le_imp_less_Suc length_dropWhile_le)

definition deserialize_context :: "json_text \<Rightarrow> media_env \<Rightarrow> disk \<Rightarrow> stored_message list \<Rightarrow> chat_message list" where
  "deserialize_context jt me d stored =
     sanitize_tool_pairs (List.map_filter (\<lambda>am. json_message (am_llm_message am)) (reconstruct_context jt me d stored))"

text \<open>Every call is answered right after its message.\<close>

fun calls_answered :: "chat_message list \<Rightarrow> bool" where
  "calls_answered [] = True"
| "calls_answered (m # ms) \<longleftrightarrow>
     (cm_role m = ''assistant'' \<longrightarrow> (case cm_tool_calls m of None \<Rightarrow> True
        | Some tcs \<Rightarrow> tc_id ` set tcs \<subseteq> set (answered_ids (takeWhile is_tool ms))))
     \<and> calls_answered ms"

lemma calls_answered_tools: "list_all is_tool ts \<Longrightarrow> calls_answered ms \<Longrightarrow> calls_answered (ts @ ms)"
  by (induction ts) (auto simp: is_tool_def)

lemma takeWhile_tool: "list_all is_tool (takeWhile is_tool ms)"
  by (induction ms) auto

lemma missing_tool: "list_all is_tool (missing_answers tcs ts)"
  by (auto simp: missing_answers_def Let_def list_all_iff is_tool_def message_simps)

lemma sanitize_head: "takeWhile is_tool (sanitize_tool_pairs ms) = [] \<or> ms = []"
proof (induction ms rule: sanitize_tool_pairs.induct)
  case (2 m ms)
  then show ?case by (cases ms) (auto simp: is_tool_def split: option.splits)
qed simp

lemma sanitize_no_tool_first: "takeWhile is_tool (sanitize_tool_pairs ms) = []"
  using sanitize_head [of ms] by auto

lemma found_answered:
  "list_all is_tool ts \<Longrightarrow> set (found_ids expected ts) \<subseteq> set (answered_ids ts)"
  by (induction ts)
     (auto simp: found_ids_def answered_ids_def map_filter_simps is_tool_def split: option.splits if_splits)

lemma missing_answered:
  "tc_id ` set tcs \<subseteq> set (answered_ids (ts @ missing_answers tcs ts)) \<union> set (found_ids (map tc_id tcs) ts)"
proof -
  have "set (answered_ids (missing_answers tcs ts)) =
      set (filter (\<lambda>c. c \<notin> set (found_ids (map tc_id tcs) ts)) (map tc_id tcs))"
    by (auto simp: missing_answers_def Let_def answered_ids_iff message_simps)
  then show ?thesis by (auto)
qed

text \<open>After the tool pairs of a resumed history are sanitized, every tool call has a result among the tool
  messages that follow it directly, and a history that is already well paired is left as it is.\<close>

theorem sanitize_answers_calls:
  "calls_answered (sanitize_tool_pairs ms)
   \<and> (\<not> well_paired ms \<or> sanitize_tool_pairs ms = ms)"
proof
  show "calls_answered (sanitize_tool_pairs ms)"
  proof (induction ms rule: sanitize_tool_pairs.induct)
    case (2 m ms)
    show ?case
    proof (cases "cm_role m = ''assistant'' \<and> cm_tool_calls m \<noteq> None")
      case True
      then obtain tcs where tcs: "cm_tool_calls m = Some tcs" by auto
      let ?ts = "takeWhile is_tool ms" and ?rest = "sanitize_tool_pairs (dropWhile is_tool ms)"
      let ?all = "?ts @ missing_answers tcs ?ts"
      have tools: "list_all is_tool ?all" using takeWhile_tool missing_tool by (simp add: list_all_append)
      then have "takeWhile is_tool (?all @ ?rest) = ?all @ takeWhile is_tool ?rest"
        by (simp add: list_all_iff takeWhile_append2)
      then have tw: "takeWhile is_tool (?all @ ?rest) = ?all" by (simp add: sanitize_no_tool_first)
      have "tc_id ` set tcs \<subseteq> set (answered_ids ?all)"
        using missing_answered [of tcs ?ts] found_answered [OF takeWhile_tool [of ms], of "map tc_id tcs"]
        by (auto)
      moreover have "calls_answered (?all @ ?rest)"
        by (rule calls_answered_tools [OF tools]) (use 2 True tcs in simp)
      ultimately show ?thesis using True tcs tw by simp
    next
      case False
      with 2 show ?thesis by (auto split: option.splits)
    qed
  qed simp
  have "well_paired ms \<Longrightarrow> sanitize_tool_pairs ms = ms"
  proof (induction rule: well_paired.induct)
    case (plain m ms)
    then show ?case by (auto simp: plain_msg_def is_tool_def split: option.splits)
  next
    case (turn a tcs rs ms)
    have rs: "\<forall>r \<in> set rs. is_tool r" using turn(4) by (simp add: answers_def is_tool_def)
    have nt: "takeWhile is_tool ms = []" using sanitize_no_tool_first [of ms] turn.IH by simp
    then have "dropWhile is_tool ms = ms" by (cases ms) (auto split: if_splits)
    with rs nt have tw: "takeWhile is_tool (rs @ ms) = rs" "dropWhile is_tool (rs @ ms) = ms"
      by (simp_all add: takeWhile_append2 dropWhile_append2)
    have "found_ids (map tc_id tcs) rs' = map the (map cm_tool_call_id rs')"
      if "set (map cm_tool_call_id rs') \<subseteq> set (map (\<lambda>tc. Some (tc_id tc)) tcs)" for rs'
      using that by (induction rs') (auto simp: found_ids_def map_filter_simps)
    moreover have ids: "map cm_tool_call_id rs = map (\<lambda>tc. Some (tc_id tc)) tcs"
      using turn(4) by (simp add: answers_def)
    ultimately have "found_ids (map tc_id tcs) rs = map the (map cm_tool_call_id rs)" by (metis order_refl)
    also have "\<dots> = map tc_id tcs" unfolding ids by (simp add: comp_def)
    finally have "found_ids (map tc_id tcs) rs = map tc_id tcs" .
    then have "missing_answers tcs rs = []" by (simp add: missing_answers_def Let_def)
    with turn tw show ?case by simp
  qed simp
  then show "\<not> well_paired ms \<or> sanitize_tool_pairs ms = ms" by blast
qed

theorem sanitize_answers_calls_witness:
  "sanitize_tool_pairs demo_history = demo_history
   \<and> sanitize_tool_pairs (take 3 demo_history) = take 3 demo_history @ [tool_result_message ''a'' unavailable_text]"
proof -
  have "sanitize_tool_pairs demo_history = demo_history"
    using sanitize_answers_calls [of demo_history] demo_history_paired by blast
  moreover have "sanitize_tool_pairs (take 3 demo_history) = take 3 demo_history @ [tool_result_message ''a'' unavailable_text]"
    by code_simp
  ultimately show ?thesis by blast
qed

section \<open>After a compaction\<close>

lemma persisted_row:
  assumes "json_get (am_llm_message am) ''content'' = Some (JStr x)"
  shows "as_table (persist_message jt me now p am s st) =
    fst (insert_message now s p (role_to_str (am_role am)) (type_to_str (am_type am))
      (jt_print jt (am_llm_message am)) (jt_print jt (am_metadata am)) (am_turn_count am) (as_table st))"
  using assms by (simp add: persist_message_def externalize_attachments_def)

lemma word_small: "n \<le> 1 \<Longrightarrow> unat (word_of_nat n :: 64 word) = n"
  by (cases n) auto

lemma dropWhile_length: "length (dropWhile P xs) \<le> length xs"
  by (induction xs) auto

lemma last_rows_length: "length (last_rows k xs) \<le> k"
  by (simp add: last_rows_def)

text \<open>What a successful compaction persists.\<close>

lemma try_compaction_persists:
  assumes "try_compaction env st = (st', 2)" and "le_persist_on env"
  shows "\<exists>start e msg trunc am. compaction_boundaries (ls_messages st)
            (cc_keep_recent_messages (ac_compaction (le_config env))) = Some (start, e)
      \<and> ls_messages st' = compacted start e (user_message msg) (ls_messages st)
      \<and> ls_persisted st' \<noteq> [] \<and> last (ls_persisted st') = am
      \<and> am = with_parent (le_parent_session env)
          ((chat_to_agent_message (user_message msg) TypeCompaction AgentSender None)
             \<lparr>am_metadata := compaction_metadata start trunc\<rparr>)"
proof (cases "compaction_boundaries (ls_messages st) (cc_keep_recent_messages (ac_compaction (le_config env)))")
  case None
  with assms(1) show ?thesis by (simp add: try_compaction_def)
next
  case (Some b)
  obtain start e where b: "b = (start, e)" by (cases b)
  obtain st1 summary where s: "try_llm_summarization env start e st = (st1, summary)"
    by (cases "try_llm_summarization env start e st")
  define msg where "msg = (case summary of Some t \<Rightarrow> summary_prefix @ t | None \<Rightarrow> truncation_text)"
  have m: "(case summary of Some t \<Rightarrow> user_message (summary_prefix @ t) | None \<Rightarrow> user_message truncation_text)
      = user_message msg" by (simp add: msg_def split: option.split)
  have "ls_messages st1 = ls_messages st"
    using s summarize_attempts_fields unfolding try_llm_summarization_def by (metis fst_conv)
  with assms Some b s show ?thesis
    by (intro exI [of _ start] exI [of _ e] exI [of _ msg] exI [of _ "summary = None"])
       (auto simp: try_compaction_def m Let_def apply_compaction_def persist_def)
qed

lemma load_context_others:
  "length (filter (\<lambda>am. am_type am \<noteq> TypeCompaction) (load_context jt me s a))
     \<le> length (filter (\<lambda>r. sm_type r \<noteq> ''compaction'') (load_session_for_context jt s 500 (as_table a)))"
proof -
  have m: "length (filter (\<lambda>am. am_type am \<noteq> TypeCompaction) (map (stored_to_agent_message jt me d) rs))
      \<le> length (filter (\<lambda>r. sm_type r \<noteq> ''compaction'') rs)" for d rs
    by (induction rs) (auto simp: stored_to_agent_message_def str_to_type_def Let_def)
  have d: "length (filter P (drop k rs)) \<le> length (filter P rs)" for P :: "stored_message \<Rightarrow> bool" and k rs
    by (metis append_take_drop_id filter_append length_append le_add2)
  show ?thesis
  proof (cases "last_compaction_pos (load_session_for_context jt s 500 (as_table a))")
    case (Some pos)
    show ?thesis
      unfolding load_context_def reconstruct_context_def Some option.case by (rule le_trans [OF m d])
  qed (use m in \<open>simp add: load_context_def reconstruct_context_def\<close>)
qed

text \<open>C11. A compaction in the agent loop keeps the recent messages in the history, but its record says with
  \<open>kept_before_count\<close> how many messages come before the compacted range while loading takes that number
  of rows from before the record: whatever the session's table holds, usage rows, resets, rewound turns and
  earlier compactions included, a session resumed after a compaction has besides compaction records at most
  one message left of everything up to then. The JSON text of the record is taken to parse back to it.\<close>

theorem resume_loses_recent_messages:
  assumes "try_compaction env st = (st', 2)" and "le_persist_on env" and "well_paired (ls_messages st)"
    and "rows_ok (as_table app)" and "json_ok jt (last (ls_persisted st'))"
  shows "cc_keep_recent_messages (ac_compaction (le_config env)) < length (ls_messages st')
    \<and> length (filter (\<lambda>am. am_type am \<noteq> TypeCompaction)
        (load_context jt me s (persist_message jt me now p (last (ls_persisted st')) s app))) \<le> 1"
proof -
  from try_compaction_persists [OF assms(1,2)] obtain start e msg trunc am where
    b: "compaction_boundaries (ls_messages st) (cc_keep_recent_messages (ac_compaction (le_config env))) = Some (start, e)"
    and m: "ls_messages st' = compacted start e (user_message msg) (ls_messages st)"
    and am: "last (ls_persisted st') = am" "am = with_parent (le_parent_session env)
          ((chat_to_agent_message (user_message msg) TypeCompaction AgentSender None)
             \<lparr>am_metadata := compaction_metadata start trunc\<rparr>)"
    by blast
  note c = compacted_well_paired [OF assms(3) b plain_messages(1) [of msg]]
  have keep: "e + cc_keep_recent_messages (ac_compaction (le_config env)) \<le> length (ls_messages st)"
    using c by simp
  have len: "cc_keep_recent_messages (ac_compaction (le_config env)) < length (ls_messages st')"
    using c keep by (simp add: m)
  have content: "json_get (am_llm_message am) ''content'' = Some (JStr msg)"
    by (simp add: am with_parent_def chat_to_agent_message_def message_json_def opt_field_def message_simps
        split: option.split)
  have ty: "type_to_str (am_type am) = ''compaction''"
    by (simp add: am with_parent_def chat_to_agent_message_def type_to_str_def split: option.split)
  have "json_get (am_metadata am) ''kept_before_count'' = Some (nat_json start)"
    by (simp add: am with_parent_def compaction_metadata_def map_of_obj_insert split: option.split)
  then have kept: "extract_count jt (jt_print jt (am_metadata am)) = start"
    using assms(5) c by (simp add: extract_count_def json_ok_def am(1) nat_json_def word_small)
  let ?t = "as_table (persist_message jt me now p am s app)"
  have "length (filter (\<lambda>r. sm_type r \<noteq> ''compaction'') (load_session_for_context jt s 500 ?t)) \<le> start"
    unfolding persisted_row [OF content] ty kept [symmetric] by (rule load_after_compaction [OF assms(4)])
  moreover have "start \<le> 1" using c by simp
  ultimately show ?thesis
    using len load_context_others [of jt me s "persist_message jt me now p am s app"] by (simp add: am(1))
qed

definition echo_jt :: "agent_message \<Rightarrow> json_text" where
  "echo_jt am = \<lparr>jt_print = (\<lambda>v. if v = am_llm_message am then ''1'' else ''2''),
     jt_parse = (\<lambda>s. Some (if s = ''1'' then am_llm_message am else am_metadata am))\<rparr>"

definition compaction_env :: loop_env where
  "compaction_env = demo_loop_env\<lparr>le_config := demo_config\<lparr>ac_compaction :=
      (ac_compaction demo_config)\<lparr>cc_keep_recent_messages := 1\<rparr>\<rparr>,
     le_summarizer := Some (\<lambda>_ _ _. ([], Inl (HttpError ''down'')))\<rparr>"

definition compaction_start :: loop_state where
  "compaction_start = demo_start\<lparr>ls_messages := demo_history\<rparr>"

text \<open>A table with an earlier compaction, a rewound row and a row of usage.\<close>

definition busy_table :: message_table where
  "busy_table = (let ins = (\<lambda>ty tbl. fst (insert_message ''t'' ''s'' ''/p'' ''user'' ty ''1'' ''2'' (Some 1) tbl))
     in ins ''text'' (ins ''text'' (ins ''context_usage'' (fst (rewind_messages ''t4'' ''s'' 3
        (ins ''text'' (ins ''compaction'' (ins ''text'' empty_table))))))))"

theorem resume_loses_recent_messages_witness:
  "length (load_session_messages ''s'' busy_table) = 5
   \<and> (\<forall>me now p d. let am = last (ls_persisted (fst (try_compaction compaction_env compaction_start))) in
       length (filter (\<lambda>am. am_type am \<noteq> TypeCompaction) (load_context (echo_jt am) me ''s''
         (persist_message (echo_jt am) me now p am ''s'' \<lparr>as_table = busy_table, as_disk = d, as_fresh = 0\<rparr>))) \<le> 1)"
proof -
  let ?st' = "fst (try_compaction compaction_env compaction_start)"
  let ?am = "last (ls_persisted ?st')" and ?app = "\<lambda>d. \<lparr>as_table = busy_table, as_disk = d, as_fresh = 0\<rparr>"
  have two: "try_compaction compaction_env compaction_start = (?st', 2)"
  proof -
    have "snd (try_compaction compaction_env compaction_start) = 2" by code_simp
    then show ?thesis by (metis prod.collapse)
  qed
  have wp: "well_paired (ls_messages compaction_start)"
    using demo_history_paired by (simp add: compaction_start_def)
  have rows: "rows_ok (as_table (?app d))" for d
    by (simp add: busy_table_def Let_def rewind_messages_def rows_ok_insert rows_ok_update rows_ok_empty)
  have on: "le_persist_on compaction_env" by (simp add: compaction_env_def demo_loop_env_def)
  have "json_ok (echo_jt ?am) ?am" by (simp add: json_ok_def echo_jt_def)
  from resume_loses_recent_messages [OF two on wp rows this]
  have "length (filter (\<lambda>am. am_type am \<noteq> TypeCompaction) (load_context (echo_jt ?am) me ''s''
      (persist_message (echo_jt ?am) me now p ?am ''s'' (?app d)))) \<le> 1"
    for me now p d by blast
  moreover have "length (load_session_messages ''s'' busy_table) = 5" by code_simp
  ultimately show ?thesis by (simp add: Let_def)
qed

end
