(* ===== verification/Sse.thy ===== *)
theory Sse
  imports Persistence "HOL-Library.AList"
begin

text \<open>
  Reading a streamed answer of the model: \<open>crates/agent/src/llm/sse.rs\<close> and the chunk types of
  \<open>llm/types.rs\<close>. The byte stream is the list of what each wait for it yields: a chunk, a transport error,
  no chunk within the idle time, or the cancellation (which is seen only by a reader with a token). The
  parser of JSON text is a parameter; structs are read from objects without repeated keys. A map of accumulators is the list of its entries, keys distinct.
\<close>

section \<open>Lines\<close>

datatype stream_item = Chunk str | Broken str | Silent | CancelledNow

definition max_buffer_size :: nat where "max_buffer_size = 1024 * 1024"

definition chunk_idle_timeout :: "64 word" where "chunk_idle_timeout = 60"

text \<open>The first complete line of the buffer and what is left of the buffer.\<close>

definition take_line :: "str \<Rightarrow> (str \<times> str) option" where
  "take_line buf =
     (case dropWhile (\<lambda>c. c \<noteq> NL) buf of
        [] \<Rightarrow> None
      | _ # rest \<Rightarrow> Some (trim_end_char CR (takeWhile (\<lambda>c. c \<noteq> NL) buf), rest))"

definition buffer_error :: agent_error where
  "buffer_error = LlmParseError (''SSE buffer exceeded '' @ to_decimal max_buffer_size
     @ '' bytes without a newline '' @ [CHR 0xE2, CHR 0x80, CHR 0x94] @ '' aborting'')"

record sse_line_reader =
  rd_stream :: "stream_item list"
  rd_buffer :: str

fun next_line_go :: "bool \<Rightarrow> stream_item list \<Rightarrow> str \<Rightarrow> sse_line_reader \<times> (agent_error + str option)" where
  "next_line_go token [] buf =
     (case take_line buf of
        Some (line, rest) \<Rightarrow> (\<lparr>rd_stream = [], rd_buffer = rest\<rparr>, Inr (Some line))
      | None \<Rightarrow> (\<lparr>rd_stream = [], rd_buffer = buf\<rparr>, Inr None))"
| "next_line_go token (item # items) buf =
     (case take_line buf of
        Some (line, rest) \<Rightarrow> (\<lparr>rd_stream = item # items, rd_buffer = rest\<rparr>, Inr (Some line))
      | None \<Rightarrow>
          (case item of
             CancelledNow \<Rightarrow>
               if token then (\<lparr>rd_stream = items, rd_buffer = buf\<rparr>, Inl Cancelled)
               else next_line_go token items buf
           | Silent \<Rightarrow> (\<lparr>rd_stream = items, rd_buffer = buf\<rparr>, Inl (ChunkTimeout chunk_idle_timeout))
           | Broken e \<Rightarrow> (\<lparr>rd_stream = items, rd_buffer = buf\<rparr>, Inl (HttpError e))
           | Chunk bytes \<Rightarrow>
               (let buf' = buf @ from_utf8_lossy bytes in
                if max_buffer_size < length buf'
                then (\<lparr>rd_stream = items, rd_buffer = buf'\<rparr>, Inl buffer_error)
                else next_line_go token items buf')))"

definition next_line :: "bool \<Rightarrow> sse_line_reader \<Rightarrow> sse_line_reader \<times> (agent_error + str option)" where
  "next_line token rd = next_line_go token (rd_stream rd) (rd_buffer rd)"

definition new_reader :: "stream_item list \<Rightarrow> sse_line_reader" where
  "new_reader stream = \<lparr>rd_stream = stream, rd_buffer = []\<rparr>"

text \<open>What a reader can still deliver: every line takes at least its newline.\<close>

fun item_size :: "stream_item \<Rightarrow> nat" where
  "item_size (Chunk bytes) = Suc (length (from_utf8_lossy bytes))"
| "item_size _ = 1"

definition reader_size :: "sse_line_reader \<Rightarrow> nat" where
  "reader_size rd = length (rd_buffer rd) + sum_list (map item_size (rd_stream rd))"

lemma take_line_shorter: "take_line buf = Some (line, rest) \<Longrightarrow> length rest < length buf"
proof -
  assume "take_line buf = Some (line, rest)"
  then obtain c where "dropWhile (\<lambda>c. c \<noteq> NL) buf = c # rest"
    by (auto simp: take_line_def split: list.splits)
  then have "length (c # rest) \<le> length buf" by (metis length_dropWhile_le)
  then show ?thesis by simp
qed

lemma next_line_go_shorter:
  "next_line_go token items buf = (rd', Inr (Some line)) \<Longrightarrow>
   reader_size rd' < length buf + sum_list (map item_size items)"
proof (induction token items buf rule: next_line_go.induct)
  case (1 token buf)
  then show ?case by (auto simp: reader_size_def take_line_shorter split: option.splits)
next
  case (2 token item items buf)
  show ?case
  proof (cases "take_line buf")
    case None
    with 2 show ?thesis
      by (cases item) (auto simp: Let_def split: if_splits, fastforce+)
  next
    case (Some p)
    with 2(3) show ?thesis by (cases p) (auto simp: reader_size_def take_line_shorter)
  qed
qed

lemma next_line_shorter: "next_line token rd = (rd', Inr (Some line)) \<Longrightarrow> reader_size rd' < reader_size rd"
  unfolding next_line_def using next_line_go_shorter by (simp add: reader_size_def)

section \<open>The loop over the lines\<close>

text \<open>Both parsers run \<open>while let Some(line) = reader.next_line()?\<close>. One line makes the parser go on, break
  out of the loop, or return.\<close>

datatype 's line_step = Continue 's | Break 's | Return "agent_error + llm_response"

function read_loop ::
    "bool \<Rightarrow> (str \<Rightarrow> 's \<Rightarrow> agent_event list \<times> 's line_step) \<Rightarrow> ('s \<Rightarrow> llm_response)
     \<Rightarrow> sse_line_reader \<Rightarrow> 's \<Rightarrow> agent_event list \<times> (agent_error + llm_response)" where
  "read_loop token step fin rd s =
     (case next_line token rd of
        (rd', Inl e) \<Rightarrow> ([], Inl e)
      | (rd', Inr None) \<Rightarrow> ([], Inr (fin s))
      | (rd', Inr (Some line)) \<Rightarrow>
          (case step line s of
             (evs, Continue s') \<Rightarrow> (case read_loop token step fin rd' s' of (evs', r) \<Rightarrow> (evs @ evs', r))
           | (evs, Break s') \<Rightarrow> (evs, Inr (fin s'))
           | (evs, Return r) \<Rightarrow> (evs, r)))"
  by pat_completeness auto
termination
  by (relation "measure (\<lambda>(token, step, fin, rd, s). reader_size rd)") (auto dest: next_line_shorter [OF sym])

declare read_loop.simps [simp del]

text \<open>The data of a line: \<open>None\<close> for an empty line, a comment and other fields.\<close>

definition data_of_line :: "str \<Rightarrow> str option" where
  "data_of_line line =
     (if line = [] \<or> starts_with line '':'' then None
      else case strip_prefix line ''data: '' of
        Some data \<Rightarrow> Some (trim data)
      | None \<Rightarrow> map_option trim (strip_prefix line ''data:''))"

section \<open>Chunks\<close>

fun json_u32 :: "json \<Rightarrow> u32 option" where
  "json_u32 (JNum (PosInt n)) = (if unat n < 2 ^ 32 then Some (ucast n) else None)"
| "json_u32 _ = None"

definition json_call_chunk :: "json \<Rightarrow> function_call_chunk option" where
  "json_call_chunk v =
     (if as_object v = None then None else
      Option.bind (read_opt as_str v ''name'') (\<lambda>n.
      Option.bind (read_opt as_str v ''arguments'') (\<lambda>a.
        Some \<lparr>fcc_name = n, fcc_arguments = a\<rparr>)))"

definition json_tool_chunk :: "json \<Rightarrow> tool_call_chunk option" where
  "json_tool_chunk v =
     (if as_object v = None then None else
      Option.bind (case json_get v ''index'' of None \<Rightarrow> Some 0 | Some i \<Rightarrow> json_u32 i) (\<lambda>i.
      Option.bind (read_opt as_str v ''id'') (\<lambda>d.
      Option.bind (read_opt as_str v ''type'') (\<lambda>t.
      Option.bind (read_opt json_call_chunk v ''function'') (\<lambda>f.
        Some \<lparr>tcc_index = i, tcc_id = d, tcc_type = t, tcc_function = f\<rparr>)))))"

definition json_delta :: "json \<Rightarrow> chunk_delta option" where
  "json_delta v =
     (if as_object v = None then None else
      Option.bind (read_opt as_str v ''role'') (\<lambda>r.
      Option.bind (read_opt as_str v ''content'') (\<lambda>c.
      Option.bind (read_opt (read_array json_tool_chunk) v ''tool_calls'') (\<lambda>t.
      Option.bind (read_opt as_str v ''thinking'') (\<lambda>h.
        Some \<lparr>cd_role = r, cd_content = c, cd_tool_calls = t, cd_thinking = h\<rparr>)))))"

definition json_choice :: "json \<Rightarrow> chunk_choice option" where
  "json_choice v =
     Option.bind (Option.bind (json_get v ''index'') json_u32) (\<lambda>i.
     Option.bind (Option.bind (json_get v ''delta'') json_delta) (\<lambda>d.
     Option.bind (read_opt as_str v ''finish_reason'') (\<lambda>f.
       Some \<lparr>ch_index = i, ch_delta = d, ch_finish_reason = f\<rparr>)))"

definition json_token_details :: "json \<Rightarrow> prompt_tokens_details option" where
  "json_token_details v =
     (if as_object v = None then None else
      Option.bind (read_opt json_u32 v ''cached_tokens'') (\<lambda>c.
      Option.bind (read_opt json_u32 v ''cache_creation_tokens'') (\<lambda>w.
        Some \<lparr>ptd_cached_tokens = c, ptd_cache_creation_tokens = w\<rparr>)))"

definition json_usage :: "json \<Rightarrow> usage option" where
  "json_usage v =
     Option.bind (Option.bind (json_get v ''prompt_tokens'') json_u32) (\<lambda>p.
     Option.bind (Option.bind (json_get v ''completion_tokens'') json_u32) (\<lambda>c.
     Option.bind (Option.bind (json_get v ''total_tokens'') json_u32) (\<lambda>t.
     Option.bind (read_opt json_token_details v ''prompt_tokens_details'') (\<lambda>d.
       Some \<lparr>us_prompt_tokens = p, us_completion_tokens = c, us_total_tokens = t,
             us_prompt_tokens_details = d\<rparr>))))"

definition json_chunk :: "json \<Rightarrow> completion_chunk option" where
  "json_chunk v =
     Option.bind (json_get_str v ''id'') (\<lambda>i.
     Option.bind (Option.bind (json_get v ''choices'') (read_array json_choice)) (\<lambda>cs.
     Option.bind (read_opt json_usage v ''usage'') (\<lambda>u.
       Some \<lparr>ck_id = i, ck_choices = cs, ck_usage = u\<rparr>)))"

section \<open>The parser of the OpenAI stream\<close>

record tool_call_accumulator =
  acc_id :: str
  acc_name :: str
  acc_arguments :: str

definition empty_accumulator :: tool_call_accumulator where
  "empty_accumulator = \<lparr>acc_id = [], acc_name = [], acc_arguments = []\<rparr>"

record sse_state =
  ss_text :: str
  ss_thinking :: str
  ss_tools :: "(u32 \<times> tool_call_accumulator) list"
  ss_usage :: "usage option"
  ss_finish :: "str option"

definition initial_sse_state :: sse_state where
  "initial_sse_state = \<lparr>ss_text = [], ss_thinking = [], ss_tools = [], ss_usage = None, ss_finish = None\<rparr>"

definition lookup_acc :: "(u32 \<times> tool_call_accumulator) list \<Rightarrow> u32 \<Rightarrow> tool_call_accumulator" where
  "lookup_acc tools i = (case map_of tools i of None \<Rightarrow> empty_accumulator | Some a \<Rightarrow> a)"

definition extend_accumulator :: "tool_call_chunk \<Rightarrow> tool_call_accumulator \<Rightarrow> tool_call_accumulator" where
  "extend_accumulator tc acc =
     (let acc1 = (case tcc_id tc of Some i \<Rightarrow> if i \<noteq> [] then acc\<lparr>acc_id := i\<rparr> else acc | None \<Rightarrow> acc)
      in case tcc_function tc of
           None \<Rightarrow> acc1
         | Some func \<Rightarrow>
             (let acc2 = (case fcc_name func of
                            Some n \<Rightarrow> if n \<noteq> [] then acc1\<lparr>acc_name := n\<rparr> else acc1 | None \<Rightarrow> acc1)
              in case fcc_arguments func of
                   Some a \<Rightarrow> acc2\<lparr>acc_arguments := acc_arguments acc2 @ a\<rparr> | None \<Rightarrow> acc2))"

definition add_tool_chunk :: "tool_call_chunk \<Rightarrow> (u32 \<times> tool_call_accumulator) list
    \<Rightarrow> (u32 \<times> tool_call_accumulator) list" where
  "add_tool_chunk tc tools =
     AList.update (tcc_index tc) (extend_accumulator tc (lookup_acc tools (tcc_index tc))) tools"

text \<open>A text delta that is not empty is sent as an event and appended.\<close>

definition delta_event :: "(str \<Rightarrow> agent_event) \<Rightarrow> str option \<Rightarrow> agent_event list" where
  "delta_event ev t = (case t of None \<Rightarrow> [] | Some x \<Rightarrow> if x \<noteq> [] then [ev x] else [])"

definition delta_text :: "str option \<Rightarrow> str" where
  "delta_text t = (case t of None \<Rightarrow> [] | Some x \<Rightarrow> x)"

definition absorb_chunk :: "str \<Rightarrow> completion_chunk \<Rightarrow> sse_state \<Rightarrow> agent_event list \<times> sse_state" where
  "absorb_chunk session_id chunk s =
     (case ck_choices chunk of
        [] \<Rightarrow> ([], case ck_usage chunk of None \<Rightarrow> s | Some u \<Rightarrow> s\<lparr>ss_usage := Some u\<rparr>)
      | choice # _ \<Rightarrow>
          (let d = ch_delta choice;
               s1 = (case ch_finish_reason choice of None \<Rightarrow> s | Some f \<Rightarrow> s\<lparr>ss_finish := Some f\<rparr>);
               s2 = s1\<lparr>ss_thinking := ss_thinking s1 @ delta_text (cd_thinking d)\<rparr>;
               s3 = s2\<lparr>ss_text := ss_text s2 @ delta_text (cd_content d)\<rparr>;
               s4 = (case cd_tool_calls d of
                       None \<Rightarrow> s3 | Some tcs \<Rightarrow> s3\<lparr>ss_tools := fold add_tool_chunk tcs (ss_tools s3)\<rparr>);
               s5 = (case ck_usage chunk of None \<Rightarrow> s4 | Some u \<Rightarrow> s4\<lparr>ss_usage := Some u\<rparr>)
           in (delta_event (ThinkingDelta session_id) (cd_thinking d)
                 @ delta_event (TextDelta session_id) (cd_content d), s5)))"

definition complete_accumulator :: "tool_call_accumulator \<Rightarrow> bool" where
  "complete_accumulator acc \<longleftrightarrow> \<not> (acc_id acc = [] \<or> acc_name acc = [])"

definition accumulated_call :: "tool_call_accumulator \<Rightarrow> tool_call" where
  "accumulated_call acc =
     \<lparr>tc_id = acc_id acc, tc_type = ''function'',
      tc_function = \<lparr>fc_name = acc_name acc, fc_arguments = acc_arguments acc\<rparr>\<rparr>"

definition build_response :: "str \<Rightarrow> str \<Rightarrow> (u32 \<times> tool_call_accumulator) list \<Rightarrow> usage option
    \<Rightarrow> str option \<Rightarrow> llm_response" where
  "build_response text thinking tools usage finish =
     \<lparr>lr_content = (if text = [] then None else Some text),
      lr_tool_calls = map (accumulated_call \<circ> snd)
        (filter (\<lambda>(_, acc). complete_accumulator acc) (sort_key fst tools)),
      lr_usage = usage, lr_finish_reason = finish,
      lr_thinking = (if thinking = [] then None else Some thinking)\<rparr>"

definition sse_response :: "sse_state \<Rightarrow> llm_response" where
  "sse_response s = build_response (ss_text s) (ss_thinking s) (ss_tools s) (ss_usage s) (ss_finish s)"

definition sse_step :: "(str \<Rightarrow> str + json) \<Rightarrow> str \<Rightarrow> str \<Rightarrow> sse_state \<Rightarrow> agent_event list \<times> sse_state line_step" where
  "sse_step parse session_id line s =
     (case data_of_line line of
        None \<Rightarrow> ([], Continue s)
      | Some data \<Rightarrow>
          if data = ''[DONE]'' then ([], Return (Inr (sse_response s)))
          else (case parse data of
                  Inl e \<Rightarrow> ([], Continue s)
                | Inr v \<Rightarrow>
                    (case json_chunk v of
                       None \<Rightarrow> ([], Continue s)
                     | Some chunk \<Rightarrow>
                         (case absorb_chunk session_id chunk s of (evs, s') \<Rightarrow> (evs, Continue s')))))"

definition parse_sse_stream ::
    "(str \<Rightarrow> str + json) \<Rightarrow> str \<Rightarrow> bool \<Rightarrow> stream_item list \<Rightarrow> agent_event list \<times> (agent_error + llm_response)" where
  "parse_sse_stream parse session_id token stream =
     read_loop token (sse_step parse session_id) sse_response (new_reader stream) initial_sse_state"

end
