(* ===== verification/Anthropic.thy ===== *)
theory Anthropic
  imports Sse Attachments
begin

text \<open>
  The native Anthropic path, \<open>crates/agent/src/llm/anthropic.rs\<close>: the request built from the chat messages
  and the parser of the event stream. A floating-point temperature is the bit pattern of the \<open>f32\<close>.
\<close>

section \<open>Requests\<close>

record media_source =
  ms_media_type :: str
  ms_data :: str

datatype anthropic_block =
    AnText str "cache_control option"
  | AnImage media_source
  | AnVideo media_source
  | AnToolUse str str json
  | AnToolResult str str "cache_control option"
  | AnThinking str "str option"

record anthropic_message =
  an_role :: str
  an_content :: "anthropic_block list"

datatype anthropic_system = SystemText str | SystemBlocks "(str \<times> cache_control option) list"

record anthropic_tool =
  at_name :: str
  at_description :: "str option"
  at_input_schema :: json
  at_cache_control :: "cache_control option"

type_synonym f32 = "32 word"

record anthropic_request =
  ar_model :: str
  ar_max_tokens :: u32
  ar_messages :: "anthropic_message list"
  ar_stream :: bool
  ar_system :: "anthropic_system option"
  ar_temperature :: "f32 option"
  ar_thinking :: "json option"
  ar_tools :: "anthropic_tool list option"
  ar_tool_choice :: "json option"

record llm_policy =
  lp_http1_only :: bool
  lp_no_pool :: bool
  lp_header_timeout_ms :: "64 word option"

definition default_llm_policy :: llm_policy where
  "default_llm_policy = \<lparr>lp_http1_only = False, lp_no_pool = False, lp_header_timeout_ms = None\<rparr>"

definition bench_llm_policy :: llm_policy where
  "bench_llm_policy = \<lparr>lp_http1_only = True, lp_no_pool = True, lp_header_timeout_ms = Some 15000\<rparr>"

record llm_client_config =
  lc_provider :: provider
  lc_base_url :: str
  lc_model :: str
  lc_api_key :: str
  lc_temperature :: "f32 option"
  lc_max_completion_tokens :: "u32 option"
  lc_extra_headers :: "(str \<times> str) list"
  lc_thinking :: "json option"
  lc_disable_cache_control :: bool
  lc_policy :: llm_policy

definition default_max_tokens :: u32 where "default_max_tokens = 8192"

definition sanitize_tool_char :: "char \<Rightarrow> char" where
  "sanitize_tool_char c =
     (let n = of_char c :: nat in
      if (48 \<le> n \<and> n \<le> 57) \<or> (65 \<le> n \<and> n \<le> 90) \<or> (97 \<le> n \<and> n \<le> 122) \<or> c = CHR ''_'' \<or> c = CHR ''-''
      then c else CHR ''_'')"

text \<open>Characters are mapped: a character of several bytes becomes one underscore.\<close>

definition sanitize_tool_id :: "str \<Rightarrow> str" where
  "sanitize_tool_id i = map sanitize_tool_char (filter (\<lambda>c. \<not> is_cont_byte c) i)"

definition anthropic_data_uri :: "str \<Rightarrow> (str \<times> str) option" where
  "anthropic_data_uri url =
     Option.bind (strip_prefix url ''data:'') (\<lambda>rest.
     Option.bind (split_comma rest) (\<lambda>(meta, data).
       let media_type = (case strip_suffix meta '';base64'' of None \<Rightarrow> meta | Some m \<Rightarrow> m)
       in if media_type = [] then None else Some (media_type, data)))"

definition cache_if :: "bool \<Rightarrow> cache_control option \<Rightarrow> cache_control option" where
  "cache_if cache_enabled cc = (if cache_enabled then cc else None)"

section \<open>Translation\<close>

definition system_segments :: "bool \<Rightarrow> chat_message \<Rightarrow> (str \<times> cache_control option) list" where
  "system_segments cache_enabled m =
     (if cm_role m \<noteq> ''system'' then []
      else case cm_content m of
        Some (TextContent s) \<Rightarrow> [(s, None)]
      | Some (Blocks bs) \<Rightarrow>
          List.map_filter (\<lambda>b. case b of TextBlock t cc \<Rightarrow> Some (t, cache_if cache_enabled cc) | _ \<Rightarrow> None) bs
      | None \<Rightarrow> [])"

definition extract_system :: "chat_message list \<Rightarrow> bool \<Rightarrow> anthropic_system option" where
  "extract_system ms cache_enabled =
     (let segments = concat (map (system_segments cache_enabled) ms) in
      if segments = [] then None
      else if list_ex (\<lambda>(_, cc). cc \<noteq> None) segments then Some (SystemBlocks segments)
      else Some (SystemText (join [NL, NL] (map fst segments))))"

fun translate_block :: "bool \<Rightarrow> content_block \<Rightarrow> anthropic_block option" where
  "translate_block cache_enabled (TextBlock t cc) = Some (AnText t (cache_if cache_enabled cc))"
| "translate_block cache_enabled (ImageUrl u) =
     map_option (\<lambda>(m, d). AnImage \<lparr>ms_media_type = m, ms_data = d\<rparr>) (anthropic_data_uri (mu_url u))"
| "translate_block cache_enabled (VideoUrl u) =
     map_option (\<lambda>(m, d). AnVideo \<lparr>ms_media_type = m, ms_data = d\<rparr>) (anthropic_data_uri (mu_url u))"

definition translate_user :: "chat_message \<Rightarrow> bool \<Rightarrow> anthropic_message" where
  "translate_user m cache_enabled =
     \<lparr>an_role = ''user'',
      an_content = (case cm_content m of
         Some (Blocks bs) \<Rightarrow> List.map_filter (translate_block cache_enabled) bs
       | Some (TextContent s) \<Rightarrow> [AnText s None]
       | None \<Rightarrow> [])\<rparr>"

definition tool_input :: "(str \<Rightarrow> str + json) \<Rightarrow> str \<Rightarrow> json" where
  "tool_input parse arguments =
     (if arguments = [] then JObj []
      else case parse arguments of Inr v \<Rightarrow> v | Inl _ \<Rightarrow> JObj [])"

definition translate_call :: "(str \<Rightarrow> str + json) \<Rightarrow> tool_call \<Rightarrow> anthropic_block" where
  "translate_call parse tc =
     AnToolUse (sanitize_tool_id (tc_id tc)) (fc_name (tc_function tc))
       (tool_input parse (fc_arguments (tc_function tc)))"

definition translate_assistant :: "(str \<Rightarrow> str + json) \<Rightarrow> chat_message \<Rightarrow> anthropic_message" where
  "translate_assistant parse m =
     (let text = (case cm_content m of None \<Rightarrow> [] | Some c \<Rightarrow> content_text c) in
      \<lparr>an_role = ''assistant'',
       an_content =
         (case cm_thinking m of None \<Rightarrow> [] | Some t \<Rightarrow> if t \<noteq> [] then [AnThinking t None] else [])
         @ (if text \<noteq> [] then [AnText text None] else [])
         @ (case cm_tool_calls m of None \<Rightarrow> [] | Some tcs \<Rightarrow> map (translate_call parse) tcs)\<rparr>)"

definition translate_result :: "chat_message \<Rightarrow> anthropic_block" where
  "translate_result m =
     AnToolResult (sanitize_tool_id (case cm_tool_call_id m of None \<Rightarrow> [] | Some i \<Rightarrow> i))
       (case cm_content m of None \<Rightarrow> [] | Some c \<Rightarrow> content_text c) None"

definition translate_tool :: "tool_definition \<Rightarrow> anthropic_tool" where
  "translate_tool t =
     \<lparr>at_name = fd_name (td_function t), at_description = fd_description (td_function t),
      at_input_schema = (case fd_parameters (td_function t) of
         Some p \<Rightarrow> p | None \<Rightarrow> JObj [(''type'', JStr ''object'')]),
      at_cache_control = None\<rparr>"

definition flush_results :: "anthropic_block list \<Rightarrow> anthropic_message list" where
  "flush_results pending = (if pending \<noteq> [] then [\<lparr>an_role = ''user'', an_content = pending\<rparr>] else [])"

text \<open>The loop over the messages with the tool results collected since the last other message.\<close>

fun translate_messages ::
    "(str \<Rightarrow> str + json) \<Rightarrow> bool \<Rightarrow> chat_message list \<Rightarrow> anthropic_block list \<Rightarrow> anthropic_message list" where
  "translate_messages parse cache_enabled [] pending = flush_results pending"
| "translate_messages parse cache_enabled (m # ms) pending =
     (if cm_role m = ''system'' then translate_messages parse cache_enabled ms pending
      else if cm_role m = ''tool'' then translate_messages parse cache_enabled ms (pending @ [translate_result m])
      else flush_results pending
        @ (if cm_role m = ''assistant'' then translate_assistant parse m else translate_user m cache_enabled)
        # translate_messages parse cache_enabled ms [])"

definition merge_step :: "anthropic_message list \<Rightarrow> anthropic_message \<Rightarrow> anthropic_message list" where
  "merge_step out m =
     (if out \<noteq> [] \<and> an_role (last out) = an_role m
      then butlast out @ [(last out)\<lparr>an_content := an_content (last out) @ an_content m\<rparr>]
      else out @ [m])"

definition merge_adjacent_roles :: "anthropic_message list \<Rightarrow> anthropic_message list" where
  "merge_adjacent_roles ms = foldl merge_step [] ms"

fun set_block_cache_control :: "cache_control option \<Rightarrow> anthropic_block \<Rightarrow> anthropic_block" where
  "set_block_cache_control cc (AnText t _) = AnText t cc"
| "set_block_cache_control cc (AnToolResult i c _) = AnToolResult i c cc"
| "set_block_cache_control cc b = b"

definition map_last :: "('a \<Rightarrow> 'a) \<Rightarrow> 'a list \<Rightarrow> 'a list" where
  "map_last f xs = (if xs = [] then [] else butlast xs @ [f (last xs)])"

definition mark_last_block :: "anthropic_message list \<Rightarrow> anthropic_message list" where
  "mark_last_block =
     map_last (\<lambda>m. m\<lparr>an_content := map_last (set_block_cache_control (Some ephemeral)) (an_content m)\<rparr>)"

definition thinking_requires_temperature_one :: "json \<Rightarrow> bool" where
  "thinking_requires_temperature_one thinking =
     (case json_get thinking ''budget_tokens'' of
        Some (JNum (PosInt n)) \<Rightarrow> 0 < n
      | _ \<Rightarrow> False)"

definition thinking_enabled :: "json \<Rightarrow> bool" where
  "thinking_enabled thinking =
     (let t = json_get_str thinking ''type'' in
      if t = Some ''disabled'' then False
      else if t = Some ''adaptive'' \<or> t = Some ''enabled'' then True
      else thinking_requires_temperature_one thinking)"

definition f32_one :: f32 where "f32_one = 0x3F800000"

definition build_anthropic_request ::
    "(str \<Rightarrow> str + json) \<Rightarrow> chat_message list \<Rightarrow> tool_definition list \<Rightarrow> llm_client_config \<Rightarrow> anthropic_request" where
  "build_anthropic_request parse ms tools config =
     (let cache_enabled = \<not> lc_disable_cache_control config;
          merged = merge_adjacent_roles (translate_messages parse cache_enabled ms []);
          thinking = (case lc_thinking config of
                        Some t \<Rightarrow> if thinking_enabled t then Some t else None | None \<Rightarrow> None);
          an_tools = map translate_tool tools
      in \<lparr>ar_model = lc_model config,
          ar_max_tokens = (case lc_max_completion_tokens config of Some n \<Rightarrow> n | None \<Rightarrow> default_max_tokens),
          ar_messages = (if cache_enabled then mark_last_block merged else merged),
          ar_stream = True,
          ar_system = extract_system ms cache_enabled,
          ar_temperature = (if (case thinking of None \<Rightarrow> False | Some t \<Rightarrow> thinking_requires_temperature_one t)
                            then Some f32_one else lc_temperature config),
          ar_thinking = thinking,
          ar_tools = (if tools = [] then None
                      else Some (if cache_enabled
                                 then map_last (\<lambda>t. t\<lparr>at_cache_control := Some ephemeral\<rparr>) an_tools else an_tools)),
          ar_tool_choice = (if tools = [] then None else Some (JObj [(''type'', JStr ''auto'')]))\<rparr>)"

section \<open>The event stream\<close>

definition u32_field :: "json \<Rightarrow> str \<Rightarrow> u32" where
  "u32_field v k = (case json_get v k of Some (JNum (PosInt n)) \<Rightarrow> ucast n | _ \<Rightarrow> 0)"

definition str_field :: "json \<Rightarrow> str \<Rightarrow> str" where
  "str_field v k = (case json_get_str v k of None \<Rightarrow> [] | Some s \<Rightarrow> s)"

definition map_stop_reason :: "str \<Rightarrow> str" where
  "map_stop_reason reason =
     (if reason = ''end_turn'' then ''stop''
      else if reason = ''tool_use'' then ''tool_calls''
      else if reason = ''max_tokens'' then ''length''
      else if reason = ''stop_sequence'' then ''stop''
      else ''stop'')"

record anthropic_state =
  av_text :: str
  av_thinking :: str
  av_tools :: "(u32 \<times> tool_call_accumulator) list"
  av_finish :: "str option"
  av_input :: u32
  av_cache_read :: u32
  av_cache_creation :: u32
  av_output :: u32
  av_have_usage :: bool

definition initial_anthropic_state :: anthropic_state where
  "initial_anthropic_state = \<lparr>av_text = [], av_thinking = [], av_tools = [], av_finish = None, av_input = 0,
     av_cache_read = 0, av_cache_creation = 0, av_output = 0, av_have_usage = False\<rparr>"

definition on_message_start :: "json \<Rightarrow> anthropic_state \<Rightarrow> anthropic_state" where
  "on_message_start v s =
     (case Option.bind (json_get v ''message'') (\<lambda>m. json_get m ''usage'') of
        None \<Rightarrow> s
      | Some u \<Rightarrow> s\<lparr>av_input := u32_field u ''input_tokens'',
                   av_cache_creation := u32_field u ''cache_creation_input_tokens'',
                   av_cache_read := u32_field u ''cache_read_input_tokens'',
                   av_have_usage := True\<rparr>)"

definition on_block_start :: "json \<Rightarrow> anthropic_state \<Rightarrow> anthropic_state" where
  "on_block_start v s =
     (case json_get v ''content_block'' of
        None \<Rightarrow> s
      | Some cb \<Rightarrow>
          if json_get_str cb ''type'' = Some ''tool_use''
          then s\<lparr>av_tools := AList.update (u32_field v ''index'')
                   \<lparr>acc_id = str_field cb ''id'', acc_name = str_field cb ''name'', acc_arguments = []\<rparr>
                   (av_tools s)\<rparr>
          else s)"

definition on_block_delta :: "str \<Rightarrow> json \<Rightarrow> anthropic_state \<Rightarrow> agent_event list \<times> anthropic_state" where
  "on_block_delta session_id v s =
     (let index = u32_field v ''index'' in
      case json_get v ''delta'' of
        None \<Rightarrow> ([], s)
      | Some delta \<Rightarrow>
          (let ty = str_field delta ''type'' in
           if ty = ''text_delta'' then
             (delta_event (TextDelta session_id) (json_get_str delta ''text''),
              s\<lparr>av_text := av_text s @ delta_text (json_get_str delta ''text'')\<rparr>)
           else if ty = ''thinking_delta'' then
             (delta_event (ThinkingDelta session_id) (json_get_str delta ''thinking''),
              s\<lparr>av_thinking := av_thinking s @ delta_text (json_get_str delta ''thinking'')\<rparr>)
           else if ty = ''input_json_delta'' then
             ([], case (json_get_str delta ''partial_json'', map_of (av_tools s) index) of
                    (Some partial, Some acc) \<Rightarrow>
                      s\<lparr>av_tools := AList.update index
                          (acc\<lparr>acc_arguments := acc_arguments acc @ partial\<rparr>) (av_tools s)\<rparr>
                  | _ \<Rightarrow> s)
           else ([], s)))"

definition on_message_delta :: "json \<Rightarrow> anthropic_state \<Rightarrow> anthropic_state" where
  "on_message_delta v s =
     (let s1 = (case Option.bind (json_get v ''delta'') (\<lambda>d. json_get_str d ''stop_reason'') of
                  None \<Rightarrow> s | Some sr \<Rightarrow> s\<lparr>av_finish := Some (map_stop_reason sr)\<rparr>)
      in case json_get v ''usage'' of
           None \<Rightarrow> s1
         | Some u \<Rightarrow>
             (let out = (case json_get u ''output_tokens'' of
                           Some (JNum (PosInt n)) \<Rightarrow> ucast n | _ \<Rightarrow> av_output s1);
                  cc = u32_field u ''cache_creation_input_tokens'';
                  cr = u32_field u ''cache_read_input_tokens''
              in s1\<lparr>av_output := out,
                    av_cache_creation := (if 0 < cc then cc else av_cache_creation s1),
                    av_cache_read := (if 0 < cr then cr else av_cache_read s1),
                    av_have_usage := True\<rparr>))"

definition stream_error :: "json \<Rightarrow> agent_error" where
  "stream_error v =
     LlmParseError (''Anthropic stream error: ''
       @ (case Option.bind (json_get v ''error'') (\<lambda>e. json_get_str e ''message'') of
            None \<Rightarrow> ''unknown error'' | Some m \<Rightarrow> m))"

text \<open>The sums wrap around, as in a release build.\<close>

definition anthropic_usage :: "anthropic_state \<Rightarrow> usage option" where
  "anthropic_usage s =
     (if av_have_usage s then
        (let prompt_tokens = av_input s + av_cache_read s + av_cache_creation s in
         Some \<lparr>us_prompt_tokens = prompt_tokens, us_completion_tokens = av_output s,
               us_total_tokens = prompt_tokens + av_output s,
               us_prompt_tokens_details = Some \<lparr>ptd_cached_tokens = Some (av_cache_read s),
                 ptd_cache_creation_tokens = Some (av_cache_creation s)\<rparr>\<rparr>)
      else None)"

definition anthropic_response :: "anthropic_state \<Rightarrow> llm_response" where
  "anthropic_response s =
     build_response (av_text s) (av_thinking s) (av_tools s) (anthropic_usage s) (av_finish s)"

definition anthropic_step ::
    "(str \<Rightarrow> str + json) \<Rightarrow> str \<Rightarrow> str \<Rightarrow> anthropic_state \<Rightarrow> agent_event list \<times> anthropic_state line_step" where
  "anthropic_step parse session_id line s =
     (case data_of_line line of
        None \<Rightarrow> ([], Continue s)
      | Some data \<Rightarrow>
          (case parse data of
             Inl e \<Rightarrow> ([], Continue s)
           | Inr v \<Rightarrow>
               (let ty = str_field v ''type'' in
                if ty = ''message_start'' then ([], Continue (on_message_start v s))
                else if ty = ''content_block_start'' then ([], Continue (on_block_start v s))
                else if ty = ''content_block_delta'' then
                  (case on_block_delta session_id v s of (evs, s') \<Rightarrow> (evs, Continue s'))
                else if ty = ''message_delta'' then ([], Continue (on_message_delta v s))
                else if ty = ''message_stop'' then ([], Break s)
                else if ty = ''error'' then ([], Return (Inl (stream_error v)))
                else ([], Continue s))))"

definition parse_anthropic_sse_stream ::
    "(str \<Rightarrow> str + json) \<Rightarrow> str \<Rightarrow> bool \<Rightarrow> stream_item list \<Rightarrow> agent_event list \<times> (agent_error + llm_response)" where
  "parse_anthropic_sse_stream parse session_id token stream =
     read_loop token (anthropic_step parse session_id) anthropic_response (new_reader stream) initial_anthropic_state"

end
