(* ===== verification/LlmClient.thy ===== *)
theory LlmClient
  imports Anthropic Compaction
begin

text \<open>
  The client of the model providers, \<open>crates/agent/src/llm/client.rs\<close>. The HTTP library is a parameter: what a
  request is answered with, whether the answer's headers come later than the policy allows, and which header
  names and values it accepts (a name is returned in the form in which the header map compares it).
\<close>

section \<open>Requests on the wire\<close>

datatype request_body = OpenAIBody chat_request | AnthropicBody anthropic_request

record http_request =
  hq_url :: str
  hq_headers :: "(str \<times> str) list"
  hq_body :: request_body

record http_reply =
  hr_status :: "16 word"
  hr_body :: str
  hr_stream :: "stream_item list"

record http_env =
  he_header_name :: "str \<Rightarrow> str option"
  he_header_value :: "str \<Rightarrow> str option"
  he_send :: "http_request \<Rightarrow> bool \<times> (str + http_reply)"
  he_log_errors :: bool
  he_parse_json :: "str \<Rightarrow> str + json"

definition sanitize_orphaned_tool_results :: "chat_message list \<Rightarrow> chat_message list" where
  "sanitize_orphaned_tool_results ms = filter (known_result (call_id_list ms)) ms"

definition add_header :: "http_env \<Rightarrow> str \<Rightarrow> str \<Rightarrow> (str \<times> str) list \<Rightarrow> (str \<times> str) list" where
  "add_header env key value headers =
     (case (he_header_name env key, he_header_value env value) of
        (Some n, Some v) \<Rightarrow> AList.update n v headers
      | _ \<Rightarrow> headers)"

definition apply_extra_headers :: "http_env \<Rightarrow> (str \<times> str) list \<Rightarrow> (str \<times> str) list \<Rightarrow> (str \<times> str) list" where
  "apply_extra_headers env extra headers = fold (\<lambda>(k, v). add_header env k v) extra headers"

text \<open>A header whose name the code gives; only its value may be refused.\<close>

definition set_header :: "http_env \<Rightarrow> str \<Rightarrow> str \<Rightarrow> (str \<times> str) list \<Rightarrow> (str \<times> str) list" where
  "set_header env name value headers =
     (case he_header_value env value of Some v \<Rightarrow> AList.update name v headers | None \<Rightarrow> headers)"

definition openai_headers :: "http_env \<Rightarrow> llm_client_config \<Rightarrow> (str \<times> str) list" where
  "openai_headers env config =
     (let h = [(''content-type'', ''application/json'')];
          h1 = (if lc_api_key config \<noteq> []
                then set_header env ''authorization'' (''Bearer '' @ lc_api_key config) h else h)
      in apply_extra_headers env (lc_extra_headers config) h1)"

definition anthropic_headers :: "http_env \<Rightarrow> llm_client_config \<Rightarrow> (str \<times> str) list" where
  "anthropic_headers env config =
     (let h = [(''content-type'', ''application/json'')];
          h1 = (if lc_api_key config \<noteq> [] then set_header env ''x-api-key'' (lc_api_key config) h else h);
          h2 = AList.update ''anthropic-version'' ''2023-06-01'' h1
      in apply_extra_headers env (lc_extra_headers config) h2)"

fun strip_block_cache :: "content_block \<Rightarrow> content_block" where
  "strip_block_cache (TextBlock t _) = TextBlock t None"
| "strip_block_cache b = b"

definition strip_cache_control :: "chat_message \<Rightarrow> chat_message" where
  "strip_cache_control m =
     (case cm_content m of
        Some (Blocks bs) \<Rightarrow> m\<lparr>cm_content := Some (Blocks (map strip_block_cache bs))\<rparr>
      | _ \<Rightarrow> m)"

definition openai_body ::
    "llm_client_config \<Rightarrow> chat_message list \<Rightarrow> tool_definition list \<Rightarrow> str \<Rightarrow> chat_request" where
  "openai_body config ms tools session_id =
     \<lparr>rq_model = lc_model config,
      rq_messages = map strip_cache_control (sanitize_orphaned_tool_results ms),
      rq_stream = True, rq_include_usage = Some True,
      rq_tools = (if tools = [] then None else Some tools),
      rq_tool_choice = (if tools = [] then None else Some ''auto''),
      rq_parallel_tool_calls = (if tools = [] then None else Some True),
      rq_max_completion_tokens = lc_max_completion_tokens config,
      rq_temperature = lc_temperature config,
      rq_thinking = lc_thinking config,
      rq_prompt_cache_key = (if \<not> lc_disable_cache_control config then Some session_id else None),
      rq_cache_control = None\<rparr>"

definition anthropic_body ::
    "(str \<Rightarrow> str + json) \<Rightarrow> llm_client_config \<Rightarrow> chat_message list \<Rightarrow> tool_definition list \<Rightarrow> anthropic_request" where
  "anthropic_body parse config ms tools =
     build_anthropic_request parse (sanitize_orphaned_tool_results ms) tools config"

section \<open>Sending and reading the answer\<close>

definition send_with_header_timeout ::
    "64 word option \<Rightarrow> bool \<times> (str + http_reply) \<Rightarrow> agent_error + http_reply" where
  "send_with_header_timeout timeout_ms outcome =
     (case (timeout_ms, outcome) of
        (Some ms, True, _) \<Rightarrow> Inl (HeaderTimeout ms)
      | (_, _, Inl e) \<Rightarrow> Inl (HttpError e)
      | (_, _, Inr reply) \<Rightarrow> Inr reply)"

definition is_success :: "16 word \<Rightarrow> bool" where
  "is_success status \<longleftrightarrow> 200 \<le> status \<and> status < 300"

text \<open>The answer to a request: \<open>None\<close> is the panic of the log line that slices an error body at byte 500.\<close>

definition read_reply ::
    "http_env \<Rightarrow> (stream_item list \<Rightarrow> agent_event list \<times> (agent_error + llm_response))
     \<Rightarrow> agent_error + http_reply \<Rightarrow> (agent_event list \<times> (agent_error + llm_response)) option" where
  "read_reply env parser reply =
     (case reply of
        Inl e \<Rightarrow> Some ([], Inl e)
      | Inr r \<Rightarrow>
          if is_success (hr_status r) then Some (parser (hr_stream r))
          else if he_log_errors env \<and> \<not> is_char_boundary (hr_body r) (min (length (hr_body r)) 500) then None
          else Some ([], Inl (LlmApiError (hr_status r) (hr_body r))))"

definition chat_completion_openai ::
    "http_env \<Rightarrow> llm_client_config \<Rightarrow> chat_message list \<Rightarrow> tool_definition list \<Rightarrow> str \<Rightarrow> bool
     \<Rightarrow> (agent_event list \<times> (agent_error + llm_response)) option" where
  "chat_completion_openai env config ms tools session_id token =
     (let request = \<lparr>hq_url = trim_end_char SLASH (lc_base_url config) @ ''/chat/completions'',
                     hq_headers = openai_headers env config,
                     hq_body = OpenAIBody (openai_body config ms tools session_id)\<rparr>
      in read_reply env (parse_sse_stream (he_parse_json env) session_id token)
           (send_with_header_timeout (lp_header_timeout_ms (lc_policy config)) (he_send env request)))"

definition chat_completion_anthropic ::
    "http_env \<Rightarrow> llm_client_config \<Rightarrow> chat_message list \<Rightarrow> tool_definition list \<Rightarrow> str \<Rightarrow> bool
     \<Rightarrow> (agent_event list \<times> (agent_error + llm_response)) option" where
  "chat_completion_anthropic env config ms tools session_id token =
     (let request = \<lparr>hq_url = trim_end_char SLASH (lc_base_url config) @ ''/v1/messages'',
                     hq_headers = anthropic_headers env config,
                     hq_body = AnthropicBody (anthropic_body (he_parse_json env) config ms tools)\<rparr>
      in read_reply env (parse_anthropic_sse_stream (he_parse_json env) session_id token)
           (send_with_header_timeout (lp_header_timeout_ms (lc_policy config)) (he_send env request)))"

definition client_chat_completion ::
    "http_env \<Rightarrow> llm_client_config \<Rightarrow> chat_message list \<Rightarrow> tool_definition list \<Rightarrow> str \<Rightarrow> bool
     \<Rightarrow> (agent_event list \<times> (agent_error + llm_response)) option" where
  "client_chat_completion env config ms tools session_id token =
     (case lc_provider config of
        OpenAI \<Rightarrow> chat_completion_openai env config ms tools session_id token
      | provider.Anthropic \<Rightarrow> chat_completion_anthropic env config ms tools session_id token)"

end
