(* ===== verification/SseFacts.thy ===== *)
theory SseFacts
  imports Sse
begin

text \<open>
  What the stream parsers promise: the lines read do not depend on how the bytes are cut into chunks, the
  text of the answer is what was sent as deltas, and each tool call is assembled from its own fragments.
\<close>

section \<open>The lines of a text\<close>

function (sequential) complete_lines :: "str \<Rightarrow> str list" where
  "complete_lines buf =
     (case take_line buf of None \<Rightarrow> [] | Some (line, rest) \<Rightarrow> line # complete_lines rest)"
  by pat_completeness auto
termination
  by (relation "measure length") (auto dest: take_line_shorter)

declare complete_lines.simps [simp del]

lemma take_line_None: "take_line buf = None \<longleftrightarrow> NL \<notin> set buf"
proof -
  have "take_line buf = None \<longleftrightarrow> dropWhile (\<lambda>c. c \<noteq> NL) buf = []"
    unfolding take_line_def by (cases "dropWhile (\<lambda>c. c \<noteq> NL) buf") (simp_all only: list.case, simp_all)
  then show ?thesis unfolding dropWhile_eq_Nil_conv by auto
qed

lemma take_line_append: "take_line buf = Some (line, rest) \<Longrightarrow> take_line (buf @ tail) = Some (line, rest @ tail)"
proof -
  assume t: "take_line buf = Some (line, rest)"
  then have "NL \<in> set buf" using take_line_None [of buf] by force
  with t show ?thesis
    by (auto simp: take_line_def split: list.splits)
qed

text \<open>Running a parser over lines that are all there.\<close>

fun run_lines ::
    "(str \<Rightarrow> 's \<Rightarrow> agent_event list \<times> 's line_step) \<Rightarrow> ('s \<Rightarrow> llm_response) \<Rightarrow> str list \<Rightarrow> 's
     \<Rightarrow> agent_event list \<times> (agent_error + llm_response)" where
  "run_lines step fin [] s = ([], Inr (fin s))"
| "run_lines step fin (line # ls) s =
     (case step line s of
        (evs, Continue s') \<Rightarrow> (case run_lines step fin ls s' of (evs', r) \<Rightarrow> (evs @ evs', r))
      | (evs, Break s') \<Rightarrow> (evs, Inr (fin s'))
      | (evs, Return r) \<Rightarrow> (evs, r))"

text \<open>On valid chunks that stay within the buffer, the next line is that of the bytes to come.\<close>

lemma next_line_chunks:
  assumes "list_all valid_utf8 cs" and "length (buf @ concat cs) \<le> max_buffer_size"
  shows "\<exists>cs' buf'. list_all valid_utf8 cs'
    \<and> next_line_go token (map Chunk cs) buf =
        (\<lparr>rd_stream = map Chunk cs', rd_buffer = buf'\<rparr>, Inr (map_option fst (take_line (buf @ concat cs))))
    \<and> (\<forall>line rest. take_line (buf @ concat cs) = Some (line, rest) \<longrightarrow> buf' @ concat cs' = rest)"
  using assms
proof (induction cs arbitrary: buf)
  case Nil
  show ?case
  proof (cases "take_line buf")
    case None
    then show ?thesis by (intro exI [of _ "[]"] exI [of _ buf]) simp
  next
    case (Some p)
    then show ?thesis by (cases p) (auto intro: exI [of _ "[]"])
  qed
next
  case (Cons c cs)
  show ?case
  proof (cases "take_line buf")
    case None
    have l: "from_utf8_lossy c = c" using Cons.prems(1) by (simp add: from_utf8_lossy_valid)
    have "length (buf @ c) \<le> max_buffer_size" using Cons.prems(2) by simp
    then have "next_line_go token (map Chunk (c # cs)) buf = next_line_go token (map Chunk cs) (buf @ c)"
      using None l by (simp add: Let_def)
    with Cons.IH [of "buf @ c"] Cons.prems show ?thesis by simp
  next
    case (Some p)
    obtain line rest where p: "p = (line, rest)" by (cases p)
    with Some have "take_line (buf @ concat (c # cs)) = Some (line, rest @ concat (c # cs))"
      using take_line_append by blast
    with Some p Cons.prems(1) show ?thesis
      by (intro exI [of _ "c # cs"] exI [of _ rest]) simp
  qed
qed

lemma read_loop_chunks:
  assumes "list_all valid_utf8 cs" and "length (buf @ concat cs) \<le> max_buffer_size"
  shows "read_loop token step fin \<lparr>rd_stream = map Chunk cs, rd_buffer = buf\<rparr> s =
    run_lines step fin (complete_lines (buf @ concat cs)) s"
  using assms
proof (induction "complete_lines (buf @ concat cs)" arbitrary: cs buf s)
  case Nil
  then have t: "take_line (buf @ concat cs) = None"
    by (subst (asm) complete_lines.simps) (auto split: option.splits)
  from next_line_chunks [OF Nil(2,3), of token] t show ?case
    by (subst read_loop.simps) (auto simp: next_line_def Nil(1) [symmetric])
next
  case (Cons line ls)
  obtain rest where t: "take_line (buf @ concat cs) = Some (line, rest)" and ls: "ls = complete_lines rest"
    using Cons(2) by (subst (asm) complete_lines.simps) (auto split: option.splits)
  from next_line_chunks [OF Cons(3,4), of token] t obtain cs' buf' where
    v: "list_all valid_utf8 cs'" and rest: "buf' @ concat cs' = rest"
    and n: "next_line_go token (map Chunk cs) buf = (\<lparr>rd_stream = map Chunk cs', rd_buffer = buf'\<rparr>, Inr (Some line))"
    by auto
  have len: "length (buf' @ concat cs') \<le> max_buffer_size"
    using take_line_shorter [OF t] Cons(4) rest by simp
  have IH: "read_loop token step fin \<lparr>rd_stream = map Chunk cs', rd_buffer = buf'\<rparr> s' = run_lines step fin ls s'" for s'
    using Cons(1) [OF _ v len] ls rest by simp
  show ?case
    by (subst read_loop.simps)
       (simp add: next_line_def n IH Cons(2) [symmetric] split: prod.split line_step.split)
qed

section \<open>The deltas and the answer\<close>

definition text_deltas :: "agent_event list \<Rightarrow> str" where
  "text_deltas evs = concat (map (\<lambda>e. case e of TextDelta _ d \<Rightarrow> d | _ \<Rightarrow> []) evs)"

definition thinking_deltas :: "agent_event list \<Rightarrow> str" where
  "thinking_deltas evs = concat (map (\<lambda>e. case e of ThinkingDelta _ d \<Rightarrow> d | _ \<Rightarrow> []) evs)"

lemma deltas_append [simp]:
  "text_deltas (xs @ ys) = text_deltas xs @ text_deltas ys"
  "thinking_deltas (xs @ ys) = thinking_deltas xs @ thinking_deltas ys"
  "text_deltas [] = []" "thinking_deltas [] = []"
  by (simp_all add: text_deltas_def thinking_deltas_def)

lemma delta_event_deltas [simp]:
  "text_deltas (delta_event (TextDelta sid) t) = delta_text t"
  "text_deltas (delta_event (ThinkingDelta sid) t) = []"
  "thinking_deltas (delta_event (ThinkingDelta sid) t) = delta_text t"
  "thinking_deltas (delta_event (TextDelta sid) t) = []"
  by (auto simp: text_deltas_def thinking_deltas_def delta_event_def delta_text_def split: option.split)

text \<open>What a parser of a stream keeps: its text is what it has sent, and the answer has that text.\<close>

locale delta_parser =
  fixes step :: "str \<Rightarrow> 's \<Rightarrow> agent_event list \<times> 's line_step"
    and fin :: "'s \<Rightarrow> llm_response"
    and text_of :: "'s \<Rightarrow> str"
    and thinking_of :: "'s \<Rightarrow> str"
  assumes step_continue: "step line s = (evs, Continue s') \<Longrightarrow>
      text_of s' = text_of s @ text_deltas evs \<and> thinking_of s' = thinking_of s @ thinking_deltas evs"
    and step_break: "step line s = (evs, Break s') \<Longrightarrow>
      text_of s' = text_of s @ text_deltas evs \<and> thinking_of s' = thinking_of s @ thinking_deltas evs"
    and step_return: "step line s = (evs, Return (Inr r)) \<Longrightarrow> evs = [] \<and> r = fin s"
    and fin_text: "lr_content (fin s) = (if text_of s = [] then None else Some (text_of s))"
    and fin_thinking: "lr_thinking (fin s) = (if thinking_of s = [] then None else Some (thinking_of s))"
begin

lemma fin_texts: "delta_text (lr_content (fin s)) = text_of s" "delta_text (lr_thinking (fin s)) = thinking_of s"
  "lr_content (fin s) \<noteq> Some []" "lr_thinking (fin s) \<noteq> Some []"
  by (simp_all add: fin_text fin_thinking delta_text_def)

lemma read_loop_text:
  "read_loop token step fin rd s = (evs, Inr r) \<Longrightarrow>
   delta_text (lr_content r) = text_of s @ text_deltas evs
   \<and> delta_text (lr_thinking r) = thinking_of s @ thinking_deltas evs
   \<and> lr_content r \<noteq> Some [] \<and> lr_thinking r \<noteq> Some []"
proof (induction "reader_size rd" arbitrary: rd s evs rule: less_induct)
  case less
  obtain rd' nxt where n: "next_line token rd = (rd', nxt)" by (cases "next_line token rd")
  show ?case
  proof (cases nxt)
    case (Inl e)
    with less.prems n show ?thesis by (subst (asm) read_loop.simps) simp
  next
    case (Inr lo)
    show ?thesis
    proof (cases lo)
      case None
      with less.prems n Inr show ?thesis
        by (subst (asm) read_loop.simps) (auto simp: fin_texts)
    next
      case (Some line)
      obtain evs1 st where st: "step line s = (evs1, st)" by (cases "step line s")
      show ?thesis
      proof (cases st)
        case (Continue s')
        obtain evs2 r' where l: "read_loop token step fin rd' s' = (evs2, r')"
          by (cases "read_loop token step fin rd' s'")
        with less.prems n Inr Some st Continue have e: "evs = evs1 @ evs2" "r' = Inr r"
          by (subst (asm) read_loop.simps, simp)+
        have "reader_size rd' < reader_size rd" using n Inr Some next_line_shorter by simp
        from less.hyps [OF this l [unfolded e(2)]] step_continue [OF st [unfolded Continue]] e(1)
        show ?thesis by simp
      next
        case (Break s')
        with less.prems n Inr Some st have "r = fin s'" "evs = evs1"
          by (subst (asm) read_loop.simps, simp)+
        with step_break [OF st [unfolded Break]] show ?thesis by (simp add: fin_texts)
      next
        case (Return r')
        with less.prems n Inr Some st have "r' = Inr r" "evs = evs1"
          by (subst (asm) read_loop.simps, simp)+
        with step_return [of line s evs1 r] st Return show ?thesis by (simp add: fin_texts)
      qed
    qed
  qed
qed

end

lemma absorb_chunk_text:
  "absorb_chunk sid c s = (evs, s') \<Longrightarrow>
   ss_text s' = ss_text s @ text_deltas evs \<and> ss_thinking s' = ss_thinking s @ thinking_deltas evs"
  by (cases "ck_choices c") (auto simp: absorb_chunk_def Let_def split: option.splits)

interpretation openai: delta_parser "sse_step parse sid" sse_response ss_text ss_thinking
proof unfold_locales
  fix line s evs s'
  assume "sse_step parse sid line s = (evs, Continue s')"
  then show "ss_text s' = ss_text s @ text_deltas evs \<and> ss_thinking s' = ss_thinking s @ thinking_deltas evs"
    by (auto simp: sse_step_def dest: absorb_chunk_text split: option.splits if_splits sum.splits prod.splits)
qed (auto simp: sse_step_def sse_response_def build_response_def
       split: option.splits if_splits sum.splits prod.splits)

section \<open>The answer assembled from its chunks\<close>

text \<open>The chunks that the parser decodes, up to the end mark.\<close>

fun decoded_chunks :: "(str \<Rightarrow> str + json) \<Rightarrow> str list \<Rightarrow> completion_chunk list" where
  "decoded_chunks parse [] = []"
| "decoded_chunks parse (line # ls) =
     (case data_of_line line of
        None \<Rightarrow> decoded_chunks parse ls
      | Some data \<Rightarrow>
          if data = ''[DONE]'' then []
          else (case parse data of
                  Inl _ \<Rightarrow> decoded_chunks parse ls
                | Inr v \<Rightarrow> (case json_chunk v of
                     None \<Rightarrow> decoded_chunks parse ls
                   | Some chunk \<Rightarrow> chunk # decoded_chunks parse ls)))"

definition first_choices :: "completion_chunk list \<Rightarrow> chunk_choice list" where
  "first_choices chunks = List.map_filter (\<lambda>c. case ck_choices c of [] \<Rightarrow> None | x # _ \<Rightarrow> Some x) chunks"

definition tool_fragments :: "chunk_choice list \<Rightarrow> tool_call_chunk list" where
  "tool_fragments choices =
     concat (map (\<lambda>c. case cd_tool_calls (ch_delta c) of None \<Rightarrow> [] | Some tcs \<Rightarrow> tcs) choices)"

definition last_of :: "'a option list \<Rightarrow> 'a option" where
  "last_of xs = fold (\<lambda>x acc. case x of None \<Rightarrow> acc | Some _ \<Rightarrow> x) xs None"

definition non_empty :: "str option \<Rightarrow> str option" where
  "non_empty t = (if delta_text t = [] then None else t)"

text \<open>A call put together from its own fragments.\<close>

definition assembled :: "tool_call_chunk list \<Rightarrow> tool_call_accumulator" where
  "assembled fs =
     \<lparr>acc_id = delta_text (last_of (map (\<lambda>f. non_empty (tcc_id f)) fs)),
      acc_name = delta_text (last_of (map (\<lambda>f. non_empty (Option.bind (tcc_function f) fcc_name)) fs)),
      acc_arguments = concat (map (\<lambda>f. delta_text (Option.bind (tcc_function f) fcc_arguments)) fs)\<rparr>"

definition assembled_calls :: "tool_call_chunk list \<Rightarrow> tool_call list" where
  "assembled_calls fs =
     map accumulated_call (filter complete_accumulator
       (map (\<lambda>i. assembled (filter (\<lambda>f. tcc_index f = i) fs)) (sorted_list_of_set (tcc_index ` set fs))))"

definition none_if_empty :: "str \<Rightarrow> str option" where
  "none_if_empty s = (if s = [] then None else Some s)"

definition response_of :: "completion_chunk list \<Rightarrow> llm_response" where
  "response_of chunks =
     (let choices = first_choices chunks in
      \<lparr>lr_content = none_if_empty (concat (map (\<lambda>c. delta_text (cd_content (ch_delta c))) choices)),
       lr_tool_calls = assembled_calls (tool_fragments choices),
       lr_usage = last_of (map ck_usage chunks),
       lr_finish_reason = last_of (map ch_finish_reason choices),
       lr_thinking = none_if_empty (concat (map (\<lambda>c. delta_text (cd_thinking (ch_delta c))) choices))\<rparr>)"

lemma last_of_snoc: "last_of (xs @ [x]) = (case x of None \<Rightarrow> last_of xs | Some _ \<Rightarrow> x)"
  by (simp add: last_of_def split: option.split)

lemma last_of_Nil [simp]: "last_of [] = None"
  by (simp add: last_of_def)

lemma assembled_Nil: "assembled [] = empty_accumulator"
  by (simp add: assembled_def empty_accumulator_def delta_text_def)

lemma assembled_snoc: "assembled (fs @ [f]) = extend_accumulator f (assembled fs)"
proof (cases "tcc_function f")
  case None
  then show ?thesis
    by (simp add: assembled_def extend_accumulator_def last_of_snoc non_empty_def delta_text_def Let_def split: option.split)
next
  case (Some g)
  then show ?thesis
    by (cases "tcc_id f"; cases "fcc_name g"; cases "fcc_arguments g")
       (simp_all add: assembled_def extend_accumulator_def last_of_snoc non_empty_def delta_text_def Let_def)
qed

lemma fold_tools:
  "map_of (fold add_tool_chunk fs []) =
     (\<lambda>i. if i \<in> tcc_index ` set fs then Some (assembled (filter (\<lambda>f. tcc_index f = i) fs)) else None)
   \<and> distinct (map fst (fold add_tool_chunk fs []))"
proof (induction fs rule: rev_induct)
  case (snoc f fs)
  let ?t = "fold add_tool_chunk fs []" and ?i = "tcc_index f"
  have "lookup_acc ?t ?i = assembled (filter (\<lambda>g. tcc_index g = ?i) fs)"
  proof (cases "?i \<in> tcc_index ` set fs")
    case False
    then have "\<forall>g \<in> set fs. tcc_index g \<noteq> ?i" by (metis imageI)
    then have "filter (\<lambda>g. tcc_index g = ?i) fs = []" by simp
    with False snoc show ?thesis by (simp add: lookup_acc_def assembled_Nil)
  qed (use snoc in \<open>simp add: lookup_acc_def\<close>)
  then have step: "fold add_tool_chunk (fs @ [f]) [] =
      AList.update ?i (assembled (filter (\<lambda>g. tcc_index g = ?i) (fs @ [f]))) ?t"
    by (simp add: add_tool_chunk_def assembled_snoc)
  have "distinct (map fst ?t)" using snoc by blast
  moreover have "map_of ?t j = (if j \<in> tcc_index ` set fs
      then Some (assembled (filter (\<lambda>g. tcc_index g = j) fs)) else None)" for j
    using snoc by simp
  ultimately show ?case unfolding step by (auto simp: update_conv' distinct_update fun_eq_iff)
qed simp

lemma sort_key_entries:
  assumes "distinct (map fst xs)"
  shows "sort_key fst xs = map (\<lambda>i. (i, the (map_of xs i))) (sorted_list_of_set (fst ` set xs))"
proof -
  have "map fst (sort_key fst xs) = sorted_list_of_set (set (map fst xs))"
    using assms by (simp only: map_sort_key sorted_list_of_set_sort_remdups distinct_remdups_id)
  moreover have "map ((\<lambda>i. (i, the (map_of xs i))) \<circ> fst) (sort_key fst xs) = sort_key fst xs"
  proof (rule map_idI)
    fix p assume "p \<in> set (sort_key fst xs)"
    then have "(fst p, snd p) \<in> set xs" by simp
    then have "map_of xs (fst p) = Some (snd p)" by (rule map_of_is_SomeI [OF assms])
    then show "((\<lambda>i. (i, the (map_of xs i))) \<circ> fst) p = p" by simp
  qed
  ultimately show ?thesis by (metis list.map_comp list.set_map)
qed

lemma built_calls:
  "lr_tool_calls (build_response text thinking (fold add_tool_chunk fs []) u f) = assembled_calls fs"
proof -
  let ?xs = "fold add_tool_chunk fs []"
  have d: "distinct (map fst ?xs)" and m: "map_of ?xs = (\<lambda>i. if i \<in> tcc_index ` set fs
      then Some (assembled (filter (\<lambda>f. tcc_index f = i) fs)) else None)"
    using fold_tools by blast+
  have keys: "fst ` set ?xs = tcc_index ` set fs"
  proof -
    have "fst ` set ?xs = dom (map_of ?xs)" by (simp add: dom_map_of_conv_image_fst)
    also have "\<dots> = tcc_index ` set fs" unfolding m by (auto simp: dom_def)
    finally show ?thesis .
  qed
  have "sort_key fst ?xs = map (\<lambda>i. (i, assembled (filter (\<lambda>f. tcc_index f = i) fs)))
          (sorted_list_of_set (tcc_index ` set fs))"
    unfolding sort_key_entries [OF d] keys by (rule map_cong) (auto simp: m)
  then show ?thesis
    by (simp add: build_response_def assembled_calls_def filter_map comp_def)
qed

text \<open>The state of the parser after the chunks it has decoded.\<close>

definition state_after :: "completion_chunk list \<Rightarrow> sse_state" where
  "state_after chunks =
     (let choices = first_choices chunks in
      \<lparr>ss_text = concat (map (\<lambda>c. delta_text (cd_content (ch_delta c))) choices),
       ss_thinking = concat (map (\<lambda>c. delta_text (cd_thinking (ch_delta c))) choices),
       ss_tools = fold add_tool_chunk (tool_fragments choices) [],
       ss_usage = last_of (map ck_usage chunks),
       ss_finish = last_of (map ch_finish_reason choices)\<rparr>)"

definition chunk_events :: "str \<Rightarrow> completion_chunk list \<Rightarrow> agent_event list" where
  "chunk_events sid chunks =
     concat (map (\<lambda>c. delta_event (ThinkingDelta sid) (cd_thinking (ch_delta c))
                    @ delta_event (TextDelta sid) (cd_content (ch_delta c))) (first_choices chunks))"

lemma first_choices_simps:
  "first_choices [] = []"
  "first_choices (c # cs) = (case ck_choices c of [] \<Rightarrow> [] | x # _ \<Rightarrow> [x]) @ first_choices cs"
  by (simp_all add: first_choices_def map_filter_simps split: list.split)

lemma first_choices_append: "first_choices (xs @ ys) = first_choices xs @ first_choices ys"
  by (induction xs) (simp_all add: first_choices_simps)

lemma absorb_state_after:
  "absorb_chunk sid c (state_after cs) = (chunk_events sid [c], state_after (cs @ [c]))"
proof (cases "ck_choices c")
  case Nil
  then show ?thesis
    by (cases "ck_usage c")
       (simp_all add: absorb_chunk_def state_after_def first_choices_append first_choices_simps
          chunk_events_def Let_def last_of_snoc)
next
  case (Cons x xs)
  show ?thesis
    using Cons
    by (cases "ck_usage c"; cases "ch_finish_reason x"; cases "cd_tool_calls (ch_delta x)")
       (simp_all add: absorb_chunk_def state_after_def first_choices_append first_choices_simps
          chunk_events_def Let_def last_of_snoc tool_fragments_def)
qed

lemma chunk_events_append: "chunk_events sid (xs @ ys) = chunk_events sid xs @ chunk_events sid ys"
  by (simp add: chunk_events_def first_choices_append)

lemma response_state_after: "sse_response (state_after cs) = response_of cs"
  using built_calls [of "ss_text (state_after cs)" "ss_thinking (state_after cs)" "tool_fragments (first_choices cs)"]
  by (simp add: sse_response_def response_of_def state_after_def Let_def build_response_def none_if_empty_def)

lemma run_lines_chunks:
  "run_lines (sse_step parse sid) sse_response ls (state_after cs) =
   (chunk_events sid (decoded_chunks parse ls), Inr (response_of (cs @ decoded_chunks parse ls)))"
proof (induction ls arbitrary: cs)
  case Nil
  then show ?case by (simp add: response_state_after chunk_events_def first_choices_simps)
next
  case (Cons line ls)
  show ?case
  proof (cases "data_of_line line")
    case None
    with Cons show ?thesis by (simp add: sse_step_def)
  next
    case (Some data)
    show ?thesis
    proof (cases "data = ''[DONE]''")
      case True
      with Some show ?thesis
        by (simp add: sse_step_def response_state_after chunk_events_def first_choices_simps)
    next
      case False
      consider "\<exists>e. parse data = Inl e \<or> (\<exists>v. parse data = Inr v \<and> json_chunk v = None)"
        | v c where "parse data = Inr v" "json_chunk v = Some c"
        by (cases "parse data") auto
      then show ?thesis
      proof cases
        case 1
        with Some False have "sse_step parse sid line s = ([], Continue s)"
          and "decoded_chunks parse (line # ls) = decoded_chunks parse ls" for s
          by (auto simp: sse_step_def)
        then show ?thesis by (simp add: Cons)
      next
        case 2
        with Some False have "run_lines (sse_step parse sid) sse_response (line # ls) (state_after cs) =
          (case run_lines (sse_step parse sid) sse_response ls (state_after (cs @ [c])) of
             (evs', r) \<Rightarrow> (chunk_events sid [c] @ evs', r))"
          by (simp add: sse_step_def absorb_state_after)
        also have "\<dots> = (chunk_events sid (c # decoded_chunks parse ls),
            Inr (response_of (cs @ c # decoded_chunks parse ls)))"
          using Cons [of "cs @ [c]"] chunk_events_append [of sid "[c]" "decoded_chunks parse ls", symmetric] by simp
        finally show ?thesis using 2 Some False by simp
      qed
    qed
  qed
qed

lemma parse_sse_stream_lines:
  assumes "list_all valid_utf8 cs" and "length (concat cs) \<le> max_buffer_size"
  shows "parse_sse_stream parse sid token (map Chunk cs) =
    run_lines (sse_step parse sid) sse_response (complete_lines (concat cs)) initial_sse_state"
  using read_loop_chunks [OF assms(1), of "[]" token] assms(2)
  by (simp add: parse_sse_stream_def new_reader_def)

text \<open>C8. However the bytes of the answer are cut into chunks, as long as no character is cut and they fit
  into the buffer, parsing gives the events and the answer of the reference semantics of the whole byte
  string: the text and thinking of the first choices, and for every index the call with the last id and
  name and all the argument fragments of that index, in the order of the indices, without the calls that
  never got an id or a name.\<close>

theorem parse_sse_stream_reference:
  assumes "list_all valid_utf8 cs" and "length (concat cs) \<le> max_buffer_size"
  shows "parse_sse_stream parse sid token (map Chunk cs) =
    (let chunks = decoded_chunks parse (complete_lines (concat cs))
     in (chunk_events sid chunks, Inr (response_of chunks)))"
proof -
  have "initial_sse_state = state_after []"
    by (simp add: initial_sse_state_def state_after_def first_choices_simps tool_fragments_def)
  with run_lines_chunks [of parse sid "complete_lines (concat cs)" "[]"] show ?thesis
    by (simp add: parse_sse_stream_lines [OF assms] Let_def)
qed

section \<open>Examples\<close>

text \<open>An answer in two chunks that are cut inside a line; the parser of JSON makes of a text the chunk with
  that content and one argument fragment.\<close>

definition demo_chunk_json :: "str \<Rightarrow> json" where
  "demo_chunk_json t =
     JObj [(''choices'', JArr [JObj [(''delta'', JObj [(''content'', JStr t),
              (''tool_calls'', JArr [JObj [(''function'', JObj [(''arguments'', JStr t)]), (''id'', JStr ''c'')],
                 JObj [(''function'', JObj [(''arguments'', JStr t), (''name'', JStr ''f'')]), (''id'', JStr ''d''),
                    (''index'', JNum (PosInt 1))]])]),
            (''index'', JNum (PosInt 0))]]), (''id'', JStr ''x'')]"

definition demo_stream :: "str list" where
  "demo_stream = [''data: a'' @ [NL], ''data:'', '' b'' @ [CR, NL] @ '': ping'' @ [NL], ''data: [DO'', ''NE]'' @ [NL]]"

definition demo_answer_events :: "agent_event list" where
  "demo_answer_events = [TextDelta ''s'' ''a'', TextDelta ''s'' ''b'']"

definition demo_response :: llm_response where
  "demo_response = \<lparr>lr_content = Some ''ab'',
     lr_tool_calls = [\<lparr>tc_id = ''d'', tc_type = ''function'', tc_function = \<lparr>fc_name = ''f'', fc_arguments = ''ab''\<rparr>\<rparr>],
     lr_usage = None, lr_finish_reason = None, lr_thinking = None\<rparr>"

lemma demo_stream_ok: "list_all valid_utf8 demo_stream" "length (concat demo_stream) \<le> max_buffer_size"
proof -
  show "list_all valid_utf8 demo_stream" by code_simp
  show "length (concat demo_stream) \<le> max_buffer_size" by (simp add: demo_stream_def max_buffer_size_def)
qed

lemma demo_lines: "complete_lines (concat demo_stream) = [''data: a'', ''data: b'', '': ping'', ''data: [DONE]'']"
  by code_simp

lemma demo_chunk_parsed:
  "json_chunk (demo_chunk_json t) = Some \<lparr>ck_id = ''x'',
      ck_choices = [\<lparr>ch_index = 0, ch_delta = \<lparr>cd_role = None, cd_content = Some t,
         cd_tool_calls = Some [\<lparr>tcc_index = 0, tcc_id = Some ''c'', tcc_type = None,
             tcc_function = Some \<lparr>fcc_name = None, fcc_arguments = Some t\<rparr>\<rparr>,
           \<lparr>tcc_index = 1, tcc_id = Some ''d'', tcc_type = None,
             tcc_function = Some \<lparr>fcc_name = Some ''f'', fcc_arguments = Some t\<rparr>\<rparr>],
         cd_thinking = None\<rparr>, ch_finish_reason = None\<rparr>], ck_usage = None\<rparr>"
    by (simp add: demo_chunk_json_def json_chunk_def json_choice_def json_delta_def json_tool_chunk_def
          json_call_chunk_def read_opt_def read_array_def json_get_str_def)

lemma demo_answer:
  "run_lines (sse_step (\<lambda>s. Inr (demo_chunk_json s)) ''s'') sse_response
     [''data: a'', ''data: b'', '': ping'', ''data: [DONE]''] initial_sse_state = (demo_answer_events, Inr demo_response)"
proof -
  have d: "data_of_line ''data: a'' = Some ''a''" "data_of_line ''data: b'' = Some ''b''"
    "data_of_line '': ping'' = None" "data_of_line ''data: [DONE]'' = Some ''[DONE]''"
    by code_simp+
  show ?thesis
    by (simp add: d demo_chunk_parsed sse_step_def absorb_chunk_def add_tool_chunk_def extend_accumulator_def lookup_acc_def
          empty_accumulator_def initial_sse_state_def delta_event_def delta_text_def sse_response_def
          build_response_def complete_accumulator_def accumulated_call_def demo_answer_events_def
          demo_response_def Let_def)
qed

lemma demo_parsed:
  "parse_sse_stream (\<lambda>s. Inr (demo_chunk_json s)) ''s'' False (map Chunk demo_stream) = (demo_answer_events, Inr demo_response)"
  unfolding parse_sse_stream_lines [OF demo_stream_ok] demo_lines by (rule demo_answer)

theorem parse_sse_stream_reference_witness:
  "snd (parse_sse_stream (\<lambda>s. Inr (demo_chunk_json s)) ''s'' False (map Chunk demo_stream)) = Inr demo_response
   \<and> response_of (decoded_chunks (\<lambda>s. Inr (demo_chunk_json s)) (complete_lines (concat demo_stream))) = demo_response"
proof -
  note demo_parsed
  with parse_sse_stream_reference [OF demo_stream_ok, of "\<lambda>s. Inr (demo_chunk_json s)" "''s''" False]
  show ?thesis by (simp add: Let_def)
qed

text \<open>Every chunk is decoded on its own: a character whose bytes are in two chunks is replaced in the line.\<close>

lemma split_character_lost:
  "next_line token (new_reader [Chunk [CHR 0xC3], Chunk [CHR 0xA9, NL]]) =
     (\<lparr>rd_stream = [], rd_buffer = []\<rparr>, Inr (Some (replacement_character @ replacement_character)))
   \<and> next_line token (new_reader [Chunk [CHR 0xC3, CHR 0xA9, NL]]) =
     (\<lparr>rd_stream = [], rd_buffer = []\<rparr>, Inr (Some [CHR 0xC3, CHR 0xA9]))"
proof -
  have l: "from_utf8_lossy [CHR 0xC3] = replacement_character"
    "from_utf8_lossy [CHR 0xA9, NL] = replacement_character @ [NL]"
    "from_utf8_lossy [CHR 0xC3, CHR 0xA9, NL] = [CHR 0xC3, CHR 0xA9, NL]" by code_simp+
  have t: "take_line [] = None" "take_line replacement_character = None"
    "take_line (replacement_character @ replacement_character @ [NL]) = Some (replacement_character @ replacement_character, [])"
    "take_line [CHR 0xC3, CHR 0xA9, NL] = Some ([CHR 0xC3, CHR 0xA9], [])" by code_simp+
  have n: "length replacement_character = 3" by code_simp
  show ?thesis by (simp add: next_line_def new_reader_def l t n max_buffer_size_def Let_def)
qed

end
