(* ===== verification/AnthropicFacts.thy ===== *)
theory AnthropicFacts
  imports Anthropic SseFacts CompactionFacts
begin

text \<open>
  The requests built for Anthropic: roles alternate, every tool use is answered at the start of the next
  message. Its stream parser keeps the same contract as the other one.
\<close>

section \<open>The stream\<close>

lemma on_block_delta_text:
  "on_block_delta sid v s = (evs, s') \<Longrightarrow>
   av_text s' = av_text s @ text_deltas evs \<and> av_thinking s' = av_thinking s @ thinking_deltas evs"
  by (auto simp: on_block_delta_def Let_def split: option.splits if_splits)

lemma other_events_text:
  "av_text (on_message_start v s) = av_text s" "av_thinking (on_message_start v s) = av_thinking s"
  "av_text (on_block_start v s) = av_text s" "av_thinking (on_block_start v s) = av_thinking s"
  "av_text (on_message_delta v s) = av_text s" "av_thinking (on_message_delta v s) = av_thinking s"
  by (simp_all add: on_message_start_def on_block_start_def on_message_delta_def Let_def split: option.split)

interpretation anthropic: delta_parser "anthropic_step parse sid" anthropic_response av_text av_thinking
proof unfold_locales
  fix line s evs s'
  assume "anthropic_step parse sid line s = (evs, Continue s')"
  then show "av_text s' = av_text s @ text_deltas evs \<and> av_thinking s' = av_thinking s @ thinking_deltas evs"
    by (auto simp: anthropic_step_def Let_def other_events_text dest: on_block_delta_text
        split: option.splits if_splits sum.splits prod.splits)
qed (auto simp: anthropic_step_def anthropic_response_def build_response_def Let_def
       split: option.splits if_splits sum.splits prod.splits)

section \<open>Merging\<close>

text \<open>The loop of \<open>merge_adjacent_roles\<close> from its last message on.\<close>

fun merge_from :: "anthropic_message \<Rightarrow> anthropic_message list \<Rightarrow> anthropic_message list" where
  "merge_from l [] = [l]"
| "merge_from l (m # ms) =
     (if an_role l = an_role m then merge_from (l\<lparr>an_content := an_content l @ an_content m\<rparr>) ms
      else l # merge_from m ms)"

lemma foldl_merge_step: "foldl merge_step (out @ [l]) ms = out @ merge_from l ms"
proof (induction ms arbitrary: out l)
  case (Cons m ms)
  then show ?case
    using Cons [of "out @ [l]" m] by (simp add: merge_step_def)
qed simp

lemma merge_adjacent_roles_eq:
  "merge_adjacent_roles ms = (case ms of [] \<Rightarrow> [] | m # ms \<Rightarrow> merge_from m ms)"
  using foldl_merge_step [of "[]"]
  by (auto simp: merge_adjacent_roles_def merge_step_def split: list.split)

fun alternating :: "anthropic_message list \<Rightarrow> bool" where
  "alternating (m # m' # ms) \<longleftrightarrow> an_role m \<noteq> an_role m' \<and> alternating (m' # ms)"
| "alternating _ \<longleftrightarrow> True"

lemma merge_from_Cons: "\<exists>c rest. merge_from l ms = l\<lparr>an_content := c\<rparr> # rest"
proof (induction ms arbitrary: l)
  case Nil
  show ?case by (intro exI [of _ "an_content l"]) simp
next
  case (Cons m ms)
  show ?case
  proof (cases "an_role l = an_role m")
    case True
    with Cons [of "l\<lparr>an_content := an_content l @ an_content m\<rparr>"] show ?thesis by auto
  next
    case False
    then show ?thesis by (auto intro: exI [of _ "an_content l"])
  qed
qed

lemma merge_from_alternating: "alternating (merge_from l ms)"
proof (induction l ms rule: merge_from.induct)
  case (2 l m ms)
  obtain c rest where c: "merge_from m ms = m\<lparr>an_content := c\<rparr> # rest" using merge_from_Cons by blast
  with 2 show ?case by (cases "an_role l = an_role m") simp_all
qed simp

lemma merge_from_content: "concat (map an_content (merge_from l ms)) = an_content l @ concat (map an_content ms)"
  by (induction l ms rule: merge_from.induct) simp_all

lemma merge_from_roles: "an_role ` set (merge_from l ms) = insert (an_role l) (an_role ` set ms)"
  by (induction l ms rule: merge_from.induct) auto

lemma merge_alternating: "alternating (merge_adjacent_roles ms)"
  by (simp add: merge_adjacent_roles_eq merge_from_alternating split: list.split)

lemma merge_content: "concat (map an_content (merge_adjacent_roles ms)) = concat (map an_content ms)"
  by (simp add: merge_adjacent_roles_eq merge_from_content split: list.split)

lemma merge_roles: "an_role ` set (merge_adjacent_roles ms) = an_role ` set ms"
  by (cases ms) (simp_all add: merge_adjacent_roles_eq merge_from_roles)

section \<open>Cache marks\<close>

text \<open>A block without its cache mark.\<close>

definition unmarked :: "anthropic_message \<Rightarrow> anthropic_message" where
  "unmarked m = m\<lparr>an_content := map (set_block_cache_control None) (an_content m)\<rparr>"

lemma set_block_twice [simp]: "set_block_cache_control None (set_block_cache_control cc b) = set_block_cache_control None b"
  by (cases b) auto

lemma map_map_last: "(\<And>x. f (g x) = f x) \<Longrightarrow> map f (map_last g xs) = map f xs"
  by (cases xs rule: rev_cases) (simp_all add: map_last_def)

lemma unmarked_mark_last: "map unmarked (mark_last_block ms) = map unmarked ms"
  unfolding mark_last_block_def by (rule map_map_last) (simp add: unmarked_def map_map_last)

lemma unmarked_role [simp]: "an_role (unmarked m) = an_role m"
  by (simp add: unmarked_def)

lemma alternating_unmarked: "alternating (map unmarked ms) = alternating ms"
  by (induction ms rule: alternating.induct) simp_all

lemma request_messages_unmarked:
  "map unmarked (ar_messages (build_anthropic_request parse ms tools config)) =
   map unmarked (merge_adjacent_roles (translate_messages parse (\<not> lc_disable_cache_control config) ms []))"
  by (simp add: build_anthropic_request_def Let_def unmarked_mark_last)

lemma translated_roles:
  "m \<in> set (translate_messages parse ce ms pending) \<Longrightarrow> an_role m = ''user'' \<or> an_role m = ''assistant''"
  by (induction parse ce ms pending rule: translate_messages.induct)
     (auto simp: flush_results_def translate_assistant_def translate_user_def Let_def split: if_splits)

section \<open>Tool uses and their results\<close>

fun use_id :: "anthropic_block \<Rightarrow> str option" where
  "use_id (AnToolUse i _ _) = Some i"
| "use_id _ = None"

fun result_id :: "anthropic_block \<Rightarrow> str option" where
  "result_id (AnToolResult i _ _) = Some i"
| "result_id _ = None"

definition uses :: "anthropic_message \<Rightarrow> str list" where
  "uses m = List.map_filter use_id (an_content m)"

text \<open>The ids of the results that a message starts with.\<close>

definition leading_results :: "anthropic_message \<Rightarrow> str list" where
  "leading_results m = List.map_filter result_id (takeWhile (\<lambda>b. result_id b \<noteq> None) (an_content m))"

fun uses_answered :: "anthropic_message list \<Rightarrow> bool" where
  "uses_answered [] \<longleftrightarrow> True"
| "uses_answered (m # ms) \<longleftrightarrow>
     (uses m = [] \<or> (an_role m = ''assistant''
        \<and> (case ms of [] \<Rightarrow> False | u # _ \<Rightarrow> an_role u = ''user'' \<and> leading_results u = uses m)))
     \<and> uses_answered ms"

lemma map_filter_append: "List.map_filter f (xs @ ys) = List.map_filter f xs @ List.map_filter f ys"
  by (simp add: List.map_filter_def)

lemma map_filter_none: "\<forall>x \<in> set xs. f x = None \<Longrightarrow> List.map_filter f xs = []"
  by (induction xs) (simp_all add: map_filter_simps)

lemma map_filter_map_some: "(\<And>x. f (g x) = Some (h x)) \<Longrightarrow> List.map_filter f (map g xs) = map h xs"
  by (induction xs) (simp_all add: map_filter_simps)

definition no_results :: "anthropic_message \<Rightarrow> bool" where
  "no_results m \<longleftrightarrow> list_all (\<lambda>b. result_id b = None) (an_content m)"

lemma map_filter_mem: "x \<in> set (List.map_filter f xs) \<Longrightarrow> \<exists>y. f y = Some x"
  by (induction xs) (auto simp: map_filter_simps split: option.splits)

lemma translate_block_plain: "translate_block ce b = Some x \<Longrightarrow> use_id x = None \<and> result_id x = None"
  by (cases b) auto

lemma translate_user_plain: "uses (translate_user m ce) = [] \<and> no_results (translate_user m ce)"
proof -
  have "use_id x = None \<and> result_id x = None" if x: "x \<in> set (an_content (translate_user m ce))" for x
  proof (cases "cm_content m")
    case None
    with x show ?thesis by (simp add: translate_user_def)
  next
    case (Some c)
    then show ?thesis
    proof (cases c)
      case (Blocks bs)
      with Some x have "x \<in> set (List.map_filter (translate_block ce) bs)" by (simp add: translate_user_def)
      then obtain y where "translate_block ce y = Some x" using map_filter_mem [of x "translate_block ce" bs] by auto
      then show ?thesis by (rule translate_block_plain)
    qed (use x in \<open>simp add: translate_user_def\<close>)
  qed
  then show ?thesis by (simp add: uses_def no_results_def list_all_iff map_filter_none)
qed

lemma translate_assistant_uses:
  "uses (translate_assistant parse m) =
     (case cm_tool_calls m of None \<Rightarrow> [] | Some tcs \<Rightarrow> map (sanitize_tool_id \<circ> tc_id) tcs)"
proof -
  have "List.map_filter use_id (map (translate_call parse) tcs) = map (sanitize_tool_id \<circ> tc_id) tcs" for tcs
    by (rule map_filter_map_some) (simp add: translate_call_def)
  then show ?thesis
    by (simp add: uses_def translate_assistant_def Let_def map_filter_append map_filter_simps split: option.split)
qed

lemma translate_assistant_no_results: "no_results (translate_assistant parse m)"
  by (auto simp: no_results_def translate_assistant_def Let_def translate_call_def list_all_iff split: option.split)

lemma translate_roles [simp]:
  "an_role (translate_user m ce) = ''user''" "an_role (translate_assistant parse m) = ''assistant''"
  by (simp_all add: translate_user_def translate_assistant_def Let_def)

lemma translate_results:
  "\<forall>r \<in> set rs. cm_role r = ''tool'' \<Longrightarrow>
   translate_messages parse ce (rs @ ms) p = translate_messages parse ce ms (p @ map translate_result rs)"
  by (induction rs arbitrary: p) simp_all

lemma translate_flush:
  "well_paired ms \<Longrightarrow> translate_messages parse ce ms p = flush_results p @ translate_messages parse ce ms []"
proof (induction arbitrary: p rule: well_paired.induct)
  case nil
  then show ?case by (simp add: flush_results_def)
next
  case (plain m ms)
  show ?case
  proof (cases "cm_role m = ''system''")
    case True
    then show ?thesis using plain.IH [of p] by simp
  next
    case False
    then show ?thesis using plain.hyps(1) by (simp add: plain_msg_def flush_results_def)
  qed
next
  case (turn a tcs rs ms)
  show ?case using turn.hyps(1) by (simp add: flush_results_def)
qed

lemma translate_turn:
  assumes "cm_role a = ''assistant''" and "tcs \<noteq> []" and "answers tcs rs" and "well_paired ms"
  shows "translate_messages parse ce (a # rs @ ms) [] =
    translate_assistant parse a # \<lparr>an_role = ''user'', an_content = map translate_result rs\<rparr>
      # translate_messages parse ce ms []"
proof -
  have "rs \<noteq> []" using assms(2,3) by (auto simp: answers_def)
  moreover have "\<forall>r \<in> set rs. cm_role r = ''tool''" using assms(3) by (simp add: answers_def)
  ultimately show ?thesis
    using assms(1) translate_flush [OF assms(4), of parse ce "map translate_result rs"]
    by (simp add: translate_results flush_results_def)
qed

lemma results_ids:
  assumes "answers tcs rs"
  shows "List.map_filter result_id (map translate_result rs) = map (sanitize_tool_id \<circ> tc_id) tcs"
proof -
  have "List.map_filter result_id (map translate_result rs) =
      map (\<lambda>i. sanitize_tool_id (case i of None \<Rightarrow> [] | Some i \<Rightarrow> i)) (map cm_tool_call_id rs)"
    by (subst map_map, rule map_filter_map_some) (simp add: translate_result_def)
  also have "map cm_tool_call_id rs = map (\<lambda>tc. Some (tc_id tc)) tcs" using assms by (simp add: answers_def)
  finally show ?thesis by (simp add: comp_def)
qed

lemma leading_results_append:
  assumes "\<forall>b \<in> set bs. result_id b \<noteq> None" and "list_all (\<lambda>b. result_id b = None) xs"
  shows "takeWhile (\<lambda>b. result_id b \<noteq> None) (bs @ xs) = bs"
  using assms by (cases xs) (simp_all add: takeWhile_append2)

text \<open>Merging what follows a message without calls: calls stay answered, and a user message is only
  extended by blocks that are no results.\<close>

lemma merged_uses_answered:
  assumes "well_paired ms" and "uses l = []" and "an_role l = ''user'' \<or> an_role l = ''assistant''"
  shows "uses_answered (merge_from l (translate_messages parse ce ms []))
    \<and> (an_role l = ''user'' \<longrightarrow> (\<exists>xs rest. merge_from l (translate_messages parse ce ms []) =
          l\<lparr>an_content := an_content l @ xs\<rparr> # rest \<and> list_all (\<lambda>b. result_id b = None) xs))"
  using assms
proof (induction arbitrary: l rule: well_paired.induct)
  case nil
  then show ?case by (auto simp: flush_results_def intro!: exI [of _ "[]"])
next
  case (plain m ms)
  show ?case
  proof (cases "cm_role m = ''system''")
    case True
    then show ?thesis using plain.IH [OF plain.prems] by simp
  next
    case False
    define x where "x = (if cm_role m = ''assistant'' then translate_assistant parse m else translate_user m ce)"
    have t: "translate_messages parse ce (m # ms) [] = x # translate_messages parse ce ms []"
      using False plain.hyps(1) by (simp add: plain_msg_def flush_results_def x_def)
    have ux: "uses x = []" and nx: "no_results x"
      using plain.hyps(1) translate_user_plain [of m ce]
      by (simp_all add: x_def translate_assistant_uses translate_assistant_no_results plain_msg_def)
    have rx: "an_role x = ''user'' \<or> an_role x = ''assistant''" by (simp add: x_def)
    show ?thesis
    proof (cases "an_role l = an_role x")
      case True
      let ?l = "l\<lparr>an_content := an_content l @ an_content x\<rparr>"
      have "uses ?l = []" using plain.prems(1) ux by (simp add: uses_def map_filter_append)
      from plain.IH [OF this] plain.prems(2)
      have IH: "uses_answered (merge_from ?l (translate_messages parse ce ms []))"
        "an_role l = ''user'' \<longrightarrow> (\<exists>xs rest. merge_from ?l (translate_messages parse ce ms []) =
          ?l\<lparr>an_content := an_content ?l @ xs\<rparr> # rest \<and> list_all (\<lambda>b. result_id b = None) xs)" by simp_all
      have m: "merge_from l (translate_messages parse ce (m # ms) []) = merge_from ?l (translate_messages parse ce ms [])"
        unfolding t using True by simp
      have "\<exists>ys rest. merge_from ?l (translate_messages parse ce ms []) =
          l\<lparr>an_content := an_content l @ ys\<rparr> # rest \<and> list_all (\<lambda>b. result_id b = None) ys" if "an_role l = ''user''"
      proof -
        from IH(2) that obtain xs rest where "merge_from ?l (translate_messages parse ce ms []) =
          ?l\<lparr>an_content := an_content ?l @ xs\<rparr> # rest" "list_all (\<lambda>b. result_id b = None) xs" by blast
        with nx show ?thesis
          by (intro exI [of _ "an_content x @ xs"] exI [of _ rest]) (simp add: no_results_def)
      qed
      with IH(1) show ?thesis unfolding m by blast
    next
      case False
      with plain.IH [OF ux rx] plain.prems(1) t show ?thesis
        by (auto intro!: exI [of _ "[]"])
    qed
  qed
next
  case (turn a tcs rs ms)
  let ?A = "translate_assistant parse a" and ?T = "translate_messages parse ce ms []"
  let ?U = "\<lparr>an_role = ''user'', an_content = map translate_result rs\<rparr>"
  note t = translate_turn [OF turn.hyps(1,3,4,5), of parse ce]
  have rr: "\<forall>b \<in> set (map translate_result rs). result_id b \<noteq> None \<and> use_id b = None"
    by (auto simp: translate_result_def)
  then have "uses ?U = []" by (simp add: uses_def map_filter_none)
  from turn.IH [OF this] obtain xs rest where
    ua: "uses_answered (merge_from ?U ?T)"
    and mU: "merge_from ?U ?T = ?U\<lparr>an_content := map translate_result rs @ xs\<rparr> # rest"
    and xs: "list_all (\<lambda>b. result_id b = None) xs" by auto
  have lead: "leading_results (?U\<lparr>an_content := map translate_result rs @ xs\<rparr>) = map (sanitize_tool_id \<circ> tc_id) tcs"
    using leading_results_append [OF _ xs, of "map translate_result rs"] rr results_ids [OF turn.hyps(4)]
    by (simp add: leading_results_def)
  have answered: "uses_answered (m # merge_from ?U ?T)"
    if "an_role m = ''assistant''" "uses m = map (sanitize_tool_id \<circ> tc_id) tcs" for m
    using ua that lead unfolding mU by simp
  have uA: "uses ?A = map (sanitize_tool_id \<circ> tc_id) tcs"
    using turn.hyps(2) by (simp add: translate_assistant_uses)
  show ?case
  proof (cases "an_role l = ''assistant''")
    case True
    have "uses (l\<lparr>an_content := an_content l @ an_content ?A\<rparr>) = map (sanitize_tool_id \<circ> tc_id) tcs"
      using turn.prems(1) uA by (simp add: uses_def map_filter_append)
    from answered [OF _ this] True show ?thesis unfolding t by simp
  next
    case False
    then have l: "an_role l = ''user''" using turn.prems(2) by blast
    then have m: "merge_from l (?A # ?U # ?T) = l # ?A # merge_from ?U ?T" by simp
    have "uses_answered (l # ?A # merge_from ?U ?T)"
      using answered [OF _ uA] turn.prems(1) by simp
    moreover have "l # ?A # merge_from ?U ?T = l\<lparr>an_content := an_content l @ []\<rparr> # ?A # merge_from ?U ?T" by simp
    ultimately show ?thesis unfolding t m by (metis list.pred_inject(1))
  qed
qed

lemma translated_uses_answered:
  assumes "well_paired ms"
  shows "uses_answered (merge_adjacent_roles (translate_messages parse ce ms []))"
proof (cases ms)
  case Nil
  then show ?thesis by (simp add: merge_adjacent_roles_eq flush_results_def)
next
  case (Cons m rest)
  let ?e = "\<lparr>an_role = ''user'', an_content = []\<rparr>" and ?T = "translate_messages parse ce ms []"
  show ?thesis
  proof (cases ?T)
    case (Cons x xs)
    note both = merged_uses_answered [OF assms, of ?e parse ce]
    show ?thesis
    proof (cases "an_role x = ''user''")
      case True
      then have "\<lparr>an_role = ''user'', an_content = an_content x\<rparr> = x" by (cases x) simp
      with True both Cons show ?thesis by (simp add: uses_def map_filter_simps merge_adjacent_roles_eq)
    next
      case False
      with both Cons show ?thesis by (simp add: uses_def map_filter_simps merge_adjacent_roles_eq)
    qed
  qed (simp add: merge_adjacent_roles_eq)
qed

lemma set_block_ids [simp]:
  "use_id (set_block_cache_control cc b) = use_id b" "result_id (set_block_cache_control cc b) = result_id b"
  by (cases b; simp)+

lemma unmarked_ids [simp]: "uses (unmarked m) = uses m" "leading_results (unmarked m) = leading_results m"
proof -
  have "List.map_filter f (map (set_block_cache_control None) bs) = List.map_filter f bs"
    if "\<And>b. f (set_block_cache_control None b) = f b" for f :: "anthropic_block \<Rightarrow> str option" and bs
    using that by (induction bs) (simp_all add: map_filter_simps split: option.split)
  then show "uses (unmarked m) = uses m" "leading_results (unmarked m) = leading_results m"
    by (simp_all add: uses_def leading_results_def unmarked_def takeWhile_map comp_def)
qed

lemma uses_answered_unmarked: "uses_answered (map unmarked ms) = uses_answered ms"
proof (induction ms)
  case (Cons m ms)
  then show ?case by (cases ms) simp_all
qed simp

lemma request_well_formed:
  assumes "well_paired ms"
  shows "alternating (ar_messages (build_anthropic_request parse ms tools config))
    \<and> uses_answered (ar_messages (build_anthropic_request parse ms tools config))"
proof -
  let ?ar = "ar_messages (build_anthropic_request parse ms tools config)"
  have "alternating (map unmarked ?ar)" "uses_answered (map unmarked ?ar)"
    unfolding request_messages_unmarked alternating_unmarked uses_answered_unmarked
    using merge_alternating translated_uses_answered [OF assms] by blast+
  then show ?thesis by (simp only: alternating_unmarked uses_answered_unmarked)
qed

text \<open>The messages of an Anthropic request alternate between the two roles, for every history, and
  merging loses nothing: cache marks aside, their blocks are those of the translated messages in order.\<close>

theorem anthropic_request_alternates:
  "alternating (ar_messages (build_anthropic_request parse ms tools config))
   \<and> set (map an_role (ar_messages (build_anthropic_request parse ms tools config))) \<subseteq> {''user'', ''assistant''}
   \<and> map (set_block_cache_control None)
        (concat (map an_content (ar_messages (build_anthropic_request parse ms tools config)))) =
      map (set_block_cache_control None)
        (concat (map an_content (translate_messages parse (\<not> lc_disable_cache_control config) ms [])))"
proof -
  let ?ar = "ar_messages (build_anthropic_request parse ms tools config)"
  let ?tr = "translate_messages parse (\<not> lc_disable_cache_control config) ms []"
  have c: "map (set_block_cache_control None) (concat (map an_content xs)) = concat (map an_content (map unmarked xs))" for xs
    by (induction xs) (simp_all add: unmarked_def)
  have "alternating (map unmarked ?ar)"
    unfolding request_messages_unmarked alternating_unmarked by (rule merge_alternating)
  moreover have "set (map an_role ?ar) = an_role ` set (map unmarked ?ar)" by (auto simp: image_image)
  then have "set (map an_role ?ar) = an_role ` set ?tr"
    unfolding request_messages_unmarked by (simp add: image_image merge_roles)
  then have "set (map an_role ?ar) \<subseteq> {''user'', ''assistant''}" by (auto dest: translated_roles)
  moreover have "map (set_block_cache_control None) (concat (map an_content ?ar)) =
      map (set_block_cache_control None) (concat (map an_content ?tr))"
    unfolding c [of ?ar] request_messages_unmarked by (simp only: c [symmetric] merge_content)
  ultimately show ?thesis by (simp add: alternating_unmarked)
qed

end
