(* ===== verification/LlmClientFacts.thy ===== *)
theory LlmClientFacts
  imports LlmClient AnthropicFacts AgentLoopFacts
begin

text \<open>
  What the client promises to the agent loop: an answer is what was streamed, and the requests of a run have
  the form the Messages API asks for.
\<close>

lemma read_reply_success:
  "read_reply env parser reply = Some (evs, Inr r) \<Longrightarrow> \<exists>stream. parser stream = (evs, Inr r)"
  by (auto simp: read_reply_def split: sum.splits if_splits)

text \<open>C17. With either provider and whatever the connection does: an answer that the client returns has as its
  text and as its thinking exactly the deltas it has sent to the interface, in order, and neither is present
  but empty.\<close>

theorem client_answer_is_streamed:
  assumes "client_chat_completion env config ms tools sid token = Some (evs, Inr r)"
  shows "delta_text (lr_content r) = text_deltas evs \<and> delta_text (lr_thinking r) = thinking_deltas evs
    \<and> lr_content r \<noteq> Some [] \<and> lr_thinking r \<noteq> Some []"
proof (cases "lc_provider config")
  case OpenAI
  with assms obtain stream where "parse_sse_stream (he_parse_json env) sid token stream = (evs, Inr r)"
    by (auto simp: client_chat_completion_def chat_completion_openai_def Let_def dest: read_reply_success)
  from openai.read_loop_text [OF this [unfolded parse_sse_stream_def]] show ?thesis
    by (simp add: initial_sse_state_def)
next
  case Anthropic
  with assms obtain stream where "parse_anthropic_sse_stream (he_parse_json env) sid token stream = (evs, Inr r)"
    by (auto simp: client_chat_completion_def chat_completion_anthropic_def Let_def dest: read_reply_success)
  from anthropic.read_loop_text [OF this [unfolded parse_anthropic_sse_stream_def]] show ?thesis
    by (simp add: initial_anthropic_state_def)
qed

text \<open>C5. Every request that a run of the agent makes has, in the form in which the Anthropic client sends
  it, roles that alternate, and each of its messages with tool uses is followed by a user message that
  starts with exactly the results of these uses, in order.\<close>

theorem run_requests_accepted:
  assumes "joins_all env" and "answers_identify env"
    and "well_paired (ls_messages st)" and "ls_requests st = []" and "plain_msg m"
    and "ms \<in> set (ls_requests (fst (run env m st)))"
  shows "alternating (ar_messages (anthropic_body parse config ms tools))
    \<and> uses_answered (ar_messages (anthropic_body parse config ms tools))"
proof -
  have wp: "well_paired ms"
    using run_requests_ok [OF assms(1-5)] assms(6) by (simp add: requests_ok_def)
  then have "sanitize_orphaned_tool_results ms = ms"
    unfolding sanitize_orphaned_tool_results_def using well_paired_pair_ok pair_ok_known by blast
  then show ?thesis using request_well_formed [OF wp] by (simp add: anthropic_body_def)
qed

text \<open>The log line about an error answer slices its body inside a character.\<close>

lemma error_body_panics:
  assumes "hr_status r = 500" and "he_log_errors env"
    and "hr_body r = replicate 499 (CHR ''x'') @ [CHR 0xC3, CHR 0xA9]"
  shows "read_reply env parser (Inr r) = None"
  using assms by (simp add: read_reply_def is_success_def is_char_boundary_def is_cont_byte_def nth_append)

section \<open>Examples\<close>

definition demo_client :: llm_client_config where
  "demo_client = \<lparr>lc_provider = OpenAI, lc_base_url = ''http://h/'', lc_model = ''m'', lc_api_key = ''k'',
     lc_temperature = None, lc_max_completion_tokens = None, lc_extra_headers = [], lc_thinking = None,
     lc_disable_cache_control = False, lc_policy = default_llm_policy\<rparr>"

text \<open>A server that answers the request with the right address and key.\<close>

definition demo_http :: http_env where
  "demo_http = \<lparr>he_header_name = Some, he_header_value = Some,
     he_send = (\<lambda>rq. (False,
        if hq_url rq = ''http://h/chat/completions'' \<and> map_of (hq_headers rq) ''authorization'' = Some ''Bearer k''
        then Inr \<lparr>hr_status = 200, hr_body = [], hr_stream = map Chunk demo_stream\<rparr> else Inl ''refused'')),
     he_log_errors = True, he_parse_json = (\<lambda>s. Inr (demo_chunk_json s))\<rparr>"

theorem client_answer_is_streamed_witness:
  "client_chat_completion demo_http demo_client [user_message ''q''] [] ''s'' False = Some (demo_answer_events, Inr demo_response)
   \<and> delta_text (lr_content demo_response) = text_deltas demo_answer_events"
proof -
  have u: "trim_end_char SLASH ''http://h/'' = ''http://h''" by code_simp
  have "client_chat_completion demo_http demo_client [user_message ''q''] [] ''s'' False = Some (demo_answer_events, Inr demo_response)"
    by (simp add: client_chat_completion_def chat_completion_openai_def demo_client_def demo_http_def Let_def u
          openai_headers_def set_header_def apply_extra_headers_def send_with_header_timeout_def
          default_llm_policy_def read_reply_def is_success_def demo_parsed)
  with client_answer_is_streamed [OF this] show ?thesis by blast
qed

theorem run_requests_accepted_witness:
  "uses_answered (ar_messages (anthropic_body (\<lambda>_. Inr JNull) demo_client
      (last (ls_requests (fst (run demo_loop_env (user_message ''go'') demo_start)))) []))
   \<and> map uses (ar_messages (anthropic_body (\<lambda>_. Inr JNull) demo_client
      (last (ls_requests (fst (run demo_loop_env (user_message ''go'') demo_start)))) [])) = [[], [''a'', ''b''], []]"
proof -
  let ?rs = "ls_requests (fst (run demo_loop_env (user_message ''go'') demo_start))"
  have ne: "?rs \<noteq> []" using demo_requests by (metis list.map_disc_iff list.distinct(1))
  have "well_paired (ls_messages demo_start)" "ls_requests demo_start = []"
    by (simp_all add: demo_start_def initial_state_def initial_messages_def demo_config_def well_paired.nil)
  from run_requests_accepted [OF demo_joins demo_identify this plain_messages(1) last_in_set [OF ne]]
  have "uses_answered (ar_messages (anthropic_body (\<lambda>_. Inr JNull) demo_client (last ?rs) []))" by blast
  moreover have "map uses (ar_messages (anthropic_body (\<lambda>_. Inr JNull) demo_client (last ?rs) [])) = [[], [''a'', ''b''], []]"
    by code_simp
  ultimately show ?thesis by blast
qed

end
