(* ===== verification/IgnoreFilter.thy ===== *)
theory IgnoreFilter
  imports FileSystem
begin

text \<open>
  Which files of a repository go to the context engine: \<open>crates/context-sync/src/ignore_filter.rs\<close>. The
  matcher of the repository's \<open>.gitignore\<close> and what the file system says of a path are parameters.
\<close>

definition blocked_dirs :: "str list" where
  "blocked_dirs = [''.git'', ''node_modules'', ''target'', ''dist'', ''build'', ''__pycache__'', ''.next'', ''vendor'',
     ''.agent-worktrees'', ''.ssh'', ''.aws'', ''.gnupg'']"

definition blocked_extensions :: "str list" where
  "blocked_extensions = [''lock'', ''png'', ''jpg'', ''jpeg'', ''gif'', ''svg'', ''ico'', ''webp'', ''woff'', ''woff2'', ''ttf'',
     ''eot'', ''mp3'', ''mp4'', ''avi'', ''mov'', ''zip'', ''tar'', ''gz'', ''bz2'', ''7z'', ''rar'', ''jar'', ''war'', ''exe'', ''dll'',
     ''so'', ''dylib'', ''o'', ''a'', ''pyc'', ''class'', ''wasm'', ''map'', ''pem'', ''key'', ''cer'', ''crt'', ''p12'', ''pfx'',
     ''jks'', ''keystore'', ''asc'', ''gpg'']"

definition blocked_compound_extensions :: "str list" where
  "blocked_compound_extensions = [''min.js'', ''min.css'']"

definition blocked_filenames :: "str list" where
  "blocked_filenames = [''.env'', ''.env.local'', ''.env.development'', ''.env.production'', ''.env.staging'',
     ''.env.test'', ''credentials'', ''credentials.json'', ''secrets.yaml'', ''secrets.yml'', ''secrets.json'', ''id_rsa'',
     ''id_dsa'', ''id_ecdsa'', ''id_ed25519'', ''.netrc'', ''.pgpass'', ''.npmrc'', ''.pypirc'']"

definition blocked_filename_prefixes :: "str list" where
  "blocked_filename_prefixes = [''.env.'']"

definition max_sync_file_size :: nat where "max_sync_file_size = 1048576"

record ignore_filter =
  if_gitignore :: "(str \<Rightarrow> bool \<Rightarrow> bool) option"
  if_repo_root :: str

text \<open>What the file system says of a path: whether it is a directory or a regular file, and the length that
  \<open>metadata\<close> reports, if it succeeds.\<close>

record path_view =
  pv_is_dir :: bool
  pv_is_file :: bool
  pv_length :: "nat option"

fun blocked_component :: "component \<Rightarrow> bool" where
  "blocked_component (Normal n) = (n \<in> set blocked_dirs)"
| "blocked_component _ = False"

definition is_blocked_dir :: "str \<Rightarrow> bool" where
  "is_blocked_dir p = list_ex blocked_component (components p)"

text \<open>\<open>path.file_name().and_then(to_str)\<close>.\<close>

definition file_name_str :: "str \<Rightarrow> str option" where
  "file_name_str p =
     (let cs = components p in
      if cs = [] then None
      else case last cs of Normal n \<Rightarrow> if valid_utf8 n then Some n else None | _ \<Rightarrow> None)"

definition is_blocked_filename :: "str \<Rightarrow> bool" where
  "is_blocked_filename p =
     (case file_name_str p of
        None \<Rightarrow> False
      | Some n \<Rightarrow>
          (let lower = ascii_lowercase n in
           lower \<in> set blocked_filenames \<or> list_ex (starts_with lower) blocked_filename_prefixes))"

definition has_blocked_extension :: "str \<Rightarrow> bool" where
  "has_blocked_extension p =
     (case file_name_str p of
        None \<Rightarrow> False
      | Some n \<Rightarrow>
          list_ex (\<lambda>e. ends_with n ([CHR ''.''] @ e)) blocked_compound_extensions
          \<or> (case file_extension n of None \<Rightarrow> False | Some e \<Rightarrow> e \<in> set blocked_extensions))"

text \<open>\<open>path.strip_prefix(root)\<close> as a string: the names below the root.\<close>

fun component_text :: "component \<Rightarrow> str" where
  "component_text (Normal n) = n"
| "component_text ParentDir = ''..''"
| "component_text CurDir = ''.''"
| "component_text RootDir = []"

definition relative_path :: "str \<Rightarrow> str \<Rightarrow> str" where
  "relative_path root p =
     (let r = components root; cs = components p in
      if path_starts_with cs r then join [SLASH] (map component_text (drop (length r) cs)) else p)"

definition should_walk_dir :: "str \<Rightarrow> bool" where
  "should_walk_dir dir = (\<not> is_blocked_dir dir)"

definition should_include :: "ignore_filter \<Rightarrow> path_view \<Rightarrow> str \<Rightarrow> bool" where
  "should_include flt view p =
     (if is_blocked_dir p then False
      else if is_blocked_filename p then False
      else if has_blocked_extension p then False
      else if (case if_gitignore flt of
                 Some gi \<Rightarrow> gi (relative_path (if_repo_root flt) p) (pv_is_dir view)
               | None \<Rightarrow> False) then False
      else if (case pv_length view of
                 Some len \<Rightarrow> pv_is_file view \<and> max_sync_file_size < len
               | None \<Rightarrow> False) then False
      else True)"

text \<open>The filter for a repository; the matcher of its ignore file, if it has one that can be built.\<close>

definition new_ignore_filter :: "(str \<Rightarrow> (str \<Rightarrow> bool \<Rightarrow> bool) option) \<Rightarrow> str \<Rightarrow> bool \<Rightarrow> ignore_filter" where
  "new_ignore_filter build_gitignore repo_root gitignore_exists =
     \<lparr>if_gitignore = (if gitignore_exists then build_gitignore repo_root else None), if_repo_root = repo_root\<rparr>"

end
