(* ===== verification/ContextSync.thy ===== *)
theory ContextSync
  imports IgnoreFilter Persistence "HOL-Library.List_Lexorder" "HOL-Library.Char_ord"
begin

text \<open>
  Sending a repository to the context engine: \<open>crates/context-sync/src/streamer.rs\<close>. Parameters are the hash
  and the encoders, the walk of the repository and the contents it finds, the answers of the server, whether
  the sync is cancelled at a point where the code looks, the order in which the upload tasks are joined and
  the clock. A failed task join carries its message.
\<close>

section \<open>Constants and data\<close>

definition max_batch_bytes :: nat where "max_batch_bytes = 2 * 1024 * 1024"
definition max_batch_files :: nat where "max_batch_files = 100"
definition sync_deadline_ms :: nat where "sync_deadline_ms = 300 * 1000"
definition poll_interval_ms :: nat where "poll_interval_ms = 2 * 1000"
definition max_retry_attempts :: nat where "max_retry_attempts = 3"
definition max_file_size_bytes :: nat where "max_file_size_bytes = 1048576"
definition max_repo_bytes :: nat where "max_repo_bytes = 100 * 1024 * 1024"
definition max_repo_files :: nat where "max_repo_files = 20000"
definition max_diff_body_gz_bytes :: nat where "max_diff_body_gz_bytes = 5 * 1024 * 1024"
definition max_diff_retry :: nat where "max_diff_retry = 3"

record streamer_config =
  sc_user_id :: str
  sc_workspace_id :: "64 word"
  sc_machine_id :: str
  sc_repo_path :: str

record sync_stats =
  sy_files_hashed :: nat
  sy_files_uploaded :: nat
  sy_files_deleted :: nat
  sy_bytes_uploaded :: nat
  sy_duplicate_batches :: nat

datatype sync_error =
    RepoTooLarge nat nat
  | TooManyFiles nat nat
  | SyncCancelled
  | SyncExpired str
  | BadRequest str str
  | RequestTooLarge nat nat
  | AuthRequired "16 word"
  | SyncHttp str
  | SyncIo str
  | SyncOther str

record file_entry =
  fe_path :: str
  fe_hash :: str
  fe_content :: str

record batch =
  bt_files :: "file_entry list"
  bt_deletes :: "str list"

record batch_stats =
  bs_files_uploaded :: nat
  bs_files_deleted :: nat
  bs_bytes_uploaded :: nat
  bs_duplicate_batches :: nat

record batch_outcome =
  bo_files_uploaded :: nat
  bo_files_deleted :: nat
  bo_bytes_uploaded :: nat
  bo_duplicate :: bool

record diff_request =
  dq_config :: streamer_config
  dq_files :: "(str \<times> str) list"
  dq_incremental :: bool
  dq_deletes :: "str list"

record diff_response =
  dr_sync_id :: str
  dr_need :: "str list"
  dr_delete :: "str list"

text \<open>An answer of the server, or a transport error with whether it is a timeout or a failed connection.\<close>

record reply =
  rp_status :: "16 word"
  rp_text :: str
  rp_json :: "json option"

datatype http_result = Transport str bool | Reply reply

section \<open>Walking\<close>

text \<open>What reading a file gives: its bytes, an error on which the file is skipped, or another error.\<close>

datatype read_outcome = ReadOk str | ReadSkipped | ReadError str

datatype sync_point =
    AtEntry nat | BeforeDiff | DiffAttempt nat | DiffBackoff nat | BeforeBatch nat
  | BatchAttempt str nat | AtPoll nat | PollSleep nat

record sync_env =
  se_sha256 :: "str \<Rightarrow> str"
  se_base64 :: "str \<Rightarrow> str"
  se_print_json :: "json \<Rightarrow> str"
  se_diff_size :: "diff_request \<Rightarrow> nat"
  se_view :: "str \<Rightarrow> path_view"
  se_read :: "str \<Rightarrow> read_outcome"
  se_cancelled :: "sync_point \<Rightarrow> bool"
  se_diff :: "nat \<Rightarrow> diff_request \<Rightarrow> http_result"
  se_stream :: "str \<Rightarrow> str \<Rightarrow> nat \<Rightarrow> str \<Rightarrow> http_result"
  se_complete :: "str \<Rightarrow> nat \<Rightarrow> http_result"
  se_join_order :: "nat \<Rightarrow> nat list"
  se_join_error :: "nat \<Rightarrow> str option"
  se_clock :: "nat \<Rightarrow> nat"
  se_poll_start :: nat
  se_status_text :: "16 word \<Rightarrow> str"

text \<open>The walk is the list of what the walker yields: paths, and errors that are logged.\<close>

fun walk_and_hash_go ::
    "sync_env \<Rightarrow> str \<Rightarrow> ignore_filter \<Rightarrow> nat \<Rightarrow> nat \<Rightarrow> nat \<Rightarrow> nat \<Rightarrow> str option list
     \<Rightarrow> file_entry list \<Rightarrow> nat \<Rightarrow> sync_error + file_entry list" where
  "walk_and_hash_go env root flt max_file max_repo max_files n [] entries seen = Inr entries"
| "walk_and_hash_go env root flt max_file max_repo max_files n (w # ws) entries seen =
     (let next = walk_and_hash_go env root flt max_file max_repo max_files (Suc n) ws in
      if se_cancelled env (AtEntry n) then Inl SyncCancelled
      else case w of
        None \<Rightarrow> next entries seen
      | Some p \<Rightarrow>
          if \<not> pv_is_file (se_view env p) \<or> \<not> should_include flt (se_view env p) p then next entries seen
          else case pv_length (se_view env p) of
            None \<Rightarrow> next entries seen
          | Some len \<Rightarrow>
              if max_file < len then next entries seen
              else case se_read env p of
                ReadSkipped \<Rightarrow> next entries seen
              | ReadError e \<Rightarrow> Inl (SyncIo e)
              | ReadOk content \<Rightarrow>
                  if \<not> valid_utf8 content then next entries seen
                  else
                    (let seen' = seen + length content in
                     if max_repo < seen' then Inl (RepoTooLarge seen' max_repo)
                     else if max_files \<le> length entries then Inl (TooManyFiles (length entries + 1) max_files)
                     else next (entries @ [\<lparr>fe_path = relative_path root p, fe_hash = se_sha256 env content,
                                            fe_content = content\<rparr>]) seen'))"

definition walk_and_hash ::
    "sync_env \<Rightarrow> str \<Rightarrow> ignore_filter \<Rightarrow> nat \<Rightarrow> nat \<Rightarrow> nat \<Rightarrow> str option list \<Rightarrow> sync_error + file_entry list" where
  "walk_and_hash env root flt max_file max_repo max_files walk =
     walk_and_hash_go env root flt max_file max_repo max_files 0 walk [] 0"

section \<open>Batches\<close>

definition entries_filtered_by_need :: "file_entry list \<Rightarrow> str list \<Rightarrow> file_entry list" where
  "entries_filtered_by_need entries need = filter (\<lambda>e. fe_path e \<in> set need) entries"

text \<open>The greedy loop: the batches pushed, the current batch and its bytes.\<close>

fun pack :: "file_entry list \<Rightarrow> file_entry list list \<Rightarrow> file_entry list \<Rightarrow> nat \<Rightarrow> file_entry list list" where
  "pack [] done_batches current bytes = (if current \<noteq> [] then done_batches @ [current] else done_batches)"
| "pack (e # es) done_batches current bytes =
     (let size = length (fe_content e) in
      if current \<noteq> [] \<and> (max_batch_files \<le> length current \<or> max_batch_bytes < bytes + size)
      then pack es (done_batches @ [current]) [e] size
      else pack es done_batches (current @ [e]) (bytes + size))"

definition chunk_into_batches :: "file_entry list \<Rightarrow> str list \<Rightarrow> batch list" where
  "chunk_into_batches needed deletes =
     (case pack needed [] [] 0 of
        fs # rest \<Rightarrow> \<lparr>bt_files = fs, bt_deletes = deletes\<rparr> # map (\<lambda>fs. \<lparr>bt_files = fs, bt_deletes = []\<rparr>) rest
      | [] \<Rightarrow> if deletes \<noteq> [] then [\<lparr>bt_files = [], bt_deletes = deletes\<rparr>] else [])"

definition file_line :: "file_entry \<Rightarrow> str" where
  "file_line f = ''file|'' @ fe_path f @ ''|'' @ fe_hash f"

definition delete_line :: "str \<Rightarrow> str" where
  "delete_line d = ''delete|'' @ d @ ''|''"

definition batch_lines :: "batch \<Rightarrow> str list" where
  "batch_lines b = map file_line (bt_files b) @ map delete_line (bt_deletes b)"

definition deterministic_batch_id :: "sync_env \<Rightarrow> batch \<Rightarrow> str" where
  "deterministic_batch_id env b = se_sha256 env (join [NL] (sort (batch_lines b)))"

definition build_batch_ndjson :: "sync_env \<Rightarrow> batch \<Rightarrow> str" where
  "build_batch_ndjson env b =
     concat (map (\<lambda>f. se_print_json env (JObj [(''content'', JStr (se_base64 env (fe_content f))), (''op'', JStr ''file''),
          (''path'', JStr (fe_path f)), (''sha256'', JStr (fe_hash f))]) @ [NL]) (bt_files b))
     @ concat (map (\<lambda>d. se_print_json env (JObj [(''op'', JStr ''delete''), (''path'', JStr d)]) @ [NL]) (bt_deletes b))"

section \<open>The difference\<close>

definition json_diff_response :: "json \<Rightarrow> diff_response option" where
  "json_diff_response v =
     Option.bind (json_get_str v ''sync_id'') (\<lambda>i.
     Option.bind (Option.bind (json_get v ''need'') (read_array as_str)) (\<lambda>n.
     Option.bind (Option.bind (json_get v ''delete'') (read_array as_str)) (\<lambda>d.
       Some \<lparr>dr_sync_id = i, dr_need = n, dr_delete = d\<rparr>)))"

definition body_error :: str where "body_error = ''error decoding response body''"

definition unexpected :: "sync_env \<Rightarrow> str \<Rightarrow> reply \<Rightarrow> sync_error" where
  "unexpected env what r =
     SyncOther (''unexpected '' @ what @ '' response '' @ se_status_text env (rp_status r) @ '': '' @ rp_text r)"

text \<open>The retry loop with the number of retries left; only 429 is retried.\<close>

fun diff_attempts :: "sync_env \<Rightarrow> diff_request \<Rightarrow> nat \<Rightarrow> sync_error + diff_response" where
  "diff_attempts env req left =
     (let attempt = max_diff_retry - left in
      if se_cancelled env (DiffAttempt attempt) then Inl SyncCancelled
      else case se_diff env attempt req of
        Transport e _ \<Rightarrow> Inl (SyncHttp e)
      | Reply r \<Rightarrow>
          if rp_status r = 200 then
            (case Option.bind (rp_json r) json_diff_response of
               None \<Rightarrow> Inl (SyncHttp body_error) | Some d \<Rightarrow> Inr d)
          else if rp_status r = 429 then
            (case left of
               0 \<Rightarrow> Inl (SyncOther ''concurrent sync in progress'')
             | Suc left' \<Rightarrow>
                 if se_cancelled env (DiffBackoff (Suc attempt)) then Inl SyncCancelled
                 else diff_attempts env req left')
          else if rp_status r = 401 \<or> rp_status r = 403 then Inl (AuthRequired (rp_status r))
          else Inl (unexpected env ''/diff'' r))"

declare diff_attempts.simps [simp del]

definition diff_request_of :: "streamer_config \<Rightarrow> file_entry list \<Rightarrow> bool \<Rightarrow> str list \<Rightarrow> diff_request" where
  "diff_request_of cfg entries incremental deletes =
     \<lparr>dq_config = cfg, dq_files = map (\<lambda>e. (fe_path e, fe_hash e)) entries, dq_incremental = incremental,
      dq_deletes = deletes\<rparr>"

definition call_diff :: "sync_env \<Rightarrow> streamer_config \<Rightarrow> file_entry list \<Rightarrow> bool \<Rightarrow> str list \<Rightarrow> sync_error + diff_response" where
  "call_diff env cfg entries incremental deletes =
     (let req = diff_request_of cfg entries incremental deletes in
      if se_cancelled env BeforeDiff then Inl SyncCancelled
      else if max_diff_body_gz_bytes < se_diff_size env req
      then Inl (RequestTooLarge (se_diff_size env req) max_diff_body_gz_bytes)
      else diff_attempts env req max_diff_retry)"

section \<open>Streaming\<close>

text \<open>\<open>usize\<close> and \<open>u64\<close> counts; a missing \<open>queued\<close> counts nothing, the outer \<open>None\<close> is a decoding error.\<close>

definition json_count :: "json \<Rightarrow> str \<Rightarrow> nat option" where
  "json_count v k = (case json_get v k of Some (JNum (PosInt n)) \<Rightarrow> Some (unat n) | _ \<Rightarrow> None)"

definition json_queued :: "json \<Rightarrow> (nat \<times> nat \<times> nat) option" where
  "json_queued v =
     Option.bind (json_count v ''files'') (\<lambda>f.
     Option.bind (json_count v ''deletes'') (\<lambda>d.
     Option.bind (json_count v ''bytes'') (\<lambda>b. Some (f, d, b))))"

definition json_stream_response :: "json \<Rightarrow> (nat \<times> nat \<times> nat) option" where
  "json_stream_response v =
     (if as_object v = None
        \<or> (case json_get v ''duplicate'' of None \<Rightarrow> False | Some d \<Rightarrow> as_bool d = None) then None
      else case read_opt json_queued v ''queued'' of
        None \<Rightarrow> None
      | Some None \<Rightarrow> Some (0, 0, 0)
      | Some (Some q) \<Rightarrow> Some q)"

definition json_field_or :: "json option \<Rightarrow> str \<Rightarrow> str \<Rightarrow> str" where
  "json_field_or v k d = (case Option.bind v (\<lambda>v. json_get_str v k) of None \<Rightarrow> d | Some s \<Rightarrow> s)"

fun batch_attempts :: "sync_env \<Rightarrow> str \<Rightarrow> str \<Rightarrow> str \<Rightarrow> nat \<Rightarrow> sync_error + batch_outcome" where
  "batch_attempts env sync_id batch_id body left =
     (let attempt = max_retry_attempts - left in
      if se_cancelled env (BatchAttempt batch_id attempt) then Inl SyncCancelled
      else case se_stream env sync_id batch_id attempt body of
        Reply r \<Rightarrow>
          if rp_status r = 202 then
            (case Option.bind (rp_json r) json_stream_response of
               None \<Rightarrow> Inl (SyncHttp body_error)
             | Some (f, d, b) \<Rightarrow> Inr \<lparr>bo_files_uploaded = f, bo_files_deleted = d, bo_bytes_uploaded = b, bo_duplicate = False\<rparr>)
          else if rp_status r = 200 then
            Inr \<lparr>bo_files_uploaded = 0, bo_files_deleted = 0, bo_bytes_uploaded = 0, bo_duplicate = True\<rparr>
          else if rp_status r = 410 then Inl (SyncExpired (rp_text r))
          else if rp_status r = 400 then
            Inl (BadRequest (json_field_or (rp_json r) ''error'' ''unknown'') (json_field_or (rp_json r) ''details'' []))
          else if rp_status r = 401 \<or> rp_status r = 403 \<or> rp_status r = 404 then Inl (AuthRequired (rp_status r))
          else (case left of
                  Suc left' \<Rightarrow> batch_attempts env sync_id batch_id body left'
                | 0 \<Rightarrow> Inl (SyncOther (''HTTP '' @ se_status_text env (rp_status r))))
      | Transport e again \<Rightarrow>
          if again then
            (case left of
               Suc left' \<Rightarrow> batch_attempts env sync_id batch_id body left'
             | 0 \<Rightarrow> Inl (SyncHttp e))
          else Inl (SyncHttp e))"

declare batch_attempts.simps [simp del]

definition stream_one_batch :: "sync_env \<Rightarrow> str \<Rightarrow> batch \<Rightarrow> sync_error + batch_outcome" where
  "stream_one_batch env sync_id b =
     batch_attempts env sync_id (deterministic_batch_id env b) (build_batch_ndjson env b) max_retry_attempts"

definition add_outcome :: "batch_outcome \<Rightarrow> batch_stats \<Rightarrow> batch_stats" where
  "add_outcome o' st =
     \<lparr>bs_files_uploaded = bs_files_uploaded st + bo_files_uploaded o',
      bs_files_deleted = bs_files_deleted st + bo_files_deleted o',
      bs_bytes_uploaded = bs_bytes_uploaded st + bo_bytes_uploaded o',
      bs_duplicate_batches = bs_duplicate_batches st + (if bo_duplicate o' then 1 else 0)\<rparr>"

text \<open>Joining the tasks in the order in which they end; the first failure is returned.\<close>

fun join_batches :: "sync_env \<Rightarrow> str \<Rightarrow> batch list \<Rightarrow> nat list \<Rightarrow> batch_stats \<Rightarrow> sync_error + batch_stats" where
  "join_batches env sync_id batches [] st = Inr st"
| "join_batches env sync_id batches (i # order) st =
     (case se_join_error env i of
        Some e \<Rightarrow> Inl (SyncOther (''join: '' @ e))
      | None \<Rightarrow>
          (case stream_one_batch env sync_id (batches ! i) of
             Inl e \<Rightarrow> Inl e
           | Inr o' \<Rightarrow> join_batches env sync_id batches order (add_outcome o' st)))"

definition empty_batch_stats :: batch_stats where
  "empty_batch_stats = \<lparr>bs_files_uploaded = 0, bs_files_deleted = 0, bs_bytes_uploaded = 0, bs_duplicate_batches = 0\<rparr>"

definition stream_batches :: "sync_env \<Rightarrow> str \<Rightarrow> file_entry list \<Rightarrow> str list \<Rightarrow> sync_error + batch_stats" where
  "stream_batches env sync_id needed deletes =
     (let batches = chunk_into_batches needed deletes in
      if list_ex (\<lambda>i. se_cancelled env (BeforeBatch i)) [0..<length batches] then Inl SyncCancelled
      else join_batches env sync_id batches (se_join_order env (length batches)) empty_batch_stats)"

section \<open>Completion\<close>

text \<open>The polls may go on for ever; then there is no value.\<close>

partial_function (option) poll_loop :: "sync_env \<Rightarrow> str \<Rightarrow> nat \<Rightarrow> nat \<Rightarrow> (sync_error + unit) option" where
  [code]: "poll_loop env sync_id deadline n =
     (if se_cancelled env (AtPoll n) then Some (Inl SyncCancelled)
      else if deadline \<le> se_clock env n then Some (Inr ())
      else case se_complete env sync_id n of
        Transport e _ \<Rightarrow> Some (Inl (SyncHttp e))
      | Reply r \<Rightarrow>
          if rp_status r = 200 then Some (Inr ())
          else if rp_status r = 202 \<or> rp_status r = 409 then
            (if se_cancelled env (PollSleep n) then Some (Inl SyncCancelled)
             else poll_loop env sync_id deadline (Suc n))
          else if rp_status r = 410 then Some (Inr ())
          else Some (Inl (unexpected env ''/sync-complete'' r)))"

definition poll_sync_complete :: "sync_env \<Rightarrow> str \<Rightarrow> (sync_error + unit) option" where
  "poll_sync_complete env sync_id = poll_loop env sync_id (se_poll_start env + sync_deadline_ms) 0"

section \<open>The syncs\<close>

text \<open>What both syncs do with the difference; \<open>None\<close> where the polls never end.\<close>

definition transfer :: "sync_env \<Rightarrow> file_entry list \<Rightarrow> diff_response \<Rightarrow> (sync_error + sync_stats) option" where
  "transfer env entries d =
     (let st = \<lparr>sy_files_hashed = length entries, sy_files_uploaded = 0, sy_files_deleted = 0,
                sy_bytes_uploaded = 0, sy_duplicate_batches = 0\<rparr>
      in if dr_need d = [] \<and> dr_delete d = [] then Some (Inr st)
         else case stream_batches env (dr_sync_id d) (entries_filtered_by_need entries (dr_need d)) (dr_delete d) of
           Inl e \<Rightarrow> Some (Inl e)
         | Inr b \<Rightarrow>
             map_option (\<lambda>r. case r of
                 Inl e \<Rightarrow> Inl e
               | Inr _ \<Rightarrow> Inr \<lparr>sy_files_hashed = length entries, sy_files_uploaded = bs_files_uploaded b,
                    sy_files_deleted = bs_files_deleted b, sy_bytes_uploaded = bs_bytes_uploaded b,
                    sy_duplicate_batches = bs_duplicate_batches b\<rparr>)
               (poll_sync_complete env (dr_sync_id d)))"

definition full_sync :: "sync_env \<Rightarrow> streamer_config \<Rightarrow> str \<Rightarrow> ignore_filter \<Rightarrow> str option list \<Rightarrow> (sync_error + sync_stats) option" where
  "full_sync env cfg root flt walk =
     (case walk_and_hash env root flt max_file_size_bytes max_repo_bytes max_repo_files walk of
        Inl e \<Rightarrow> Some (Inl e)
      | Inr entries \<Rightarrow>
          (case call_diff env cfg entries False [] of
             Inl e \<Rightarrow> Some (Inl e)
           | Inr d \<Rightarrow> transfer env entries d))"

fun hash_changed :: "sync_env \<Rightarrow> str \<Rightarrow> nat \<Rightarrow> str list \<Rightarrow> sync_error + file_entry list" where
  "hash_changed env root n [] = Inr []"
| "hash_changed env root n (p # ps) =
     (if se_cancelled env (AtEntry n) then Inl SyncCancelled
      else
        let next = hash_changed env root (Suc n) ps in
        if \<not> pv_is_file (se_view env p) then next
        else case se_read env p of
          ReadSkipped \<Rightarrow> next
        | ReadError e \<Rightarrow> Inl (SyncIo e)
        | ReadOk content \<Rightarrow>
            if max_file_size_bytes < length content then next
            else if \<not> valid_utf8 content then next
            else map_sum id (Cons \<lparr>fe_path = relative_path root p, fe_hash = se_sha256 env content,
                                    fe_content = content\<rparr>) next)"

definition incremental_sync :: "sync_env \<Rightarrow> streamer_config \<Rightarrow> str list \<Rightarrow> str list \<Rightarrow> str \<Rightarrow> (sync_error + sync_stats) option" where
  "incremental_sync env cfg changed deleted root =
     (case hash_changed env root 0 changed of
        Inl e \<Rightarrow> Some (Inl e)
      | Inr entries \<Rightarrow>
          (case call_diff env cfg entries True (map (relative_path root) deleted) of
             Inl e \<Rightarrow> Some (Inl e)
           | Inr d \<Rightarrow> transfer env entries d))"

end
