(* ===== verification/ContextSyncFacts.thy ===== *)
theory ContextSyncFacts
  imports ContextSync "HOL-Library.Multiset"
begin

text \<open>
  The batches of an upload, the identity of a batch, what a walk collects, and what a successful sync has
  delivered.
\<close>

section \<open>Batches\<close>

definition bytes_of :: "file_entry list \<Rightarrow> nat" where
  "bytes_of fs = sum_list (map (\<lambda>f. length (fe_content f)) fs)"

definition fits :: "file_entry list \<Rightarrow> bool" where
  "fits fs \<longleftrightarrow> fs \<noteq> [] \<and> length fs \<le> max_batch_files \<and> (bytes_of fs \<le> max_batch_bytes \<or> length fs = 1)"

text \<open>No batch could have taken the first file of the next one.\<close>

fun greedy :: "file_entry list list \<Rightarrow> bool" where
  "greedy (a # b # rest) \<longleftrightarrow>
     (max_batch_files \<le> length a \<or> max_batch_bytes < bytes_of a + length (fe_content (hd b))) \<and> greedy (b # rest)"
| "greedy _ \<longleftrightarrow> True"

lemma pack_prefix: "pack es done_batches cur n = done_batches @ pack es [] cur n"
proof (induction es arbitrary: done_batches cur n)
  case (Cons e es)
  show ?case
    using Cons [of "done_batches @ [cur]"] Cons [of "[cur]"] Cons [of done_batches] by (simp add: Let_def)
qed simp

lemma pack_concat: "concat (pack es [] cur n) = cur @ es"
proof (induction es arbitrary: cur n)
  case (Cons e es)
  then show ?case using pack_prefix [of es "[cur]"] by (simp add: Let_def)
qed simp

lemma pack_hd: "cur \<noteq> [] \<Longrightarrow> \<exists>xs rest. pack es [] cur n = (cur @ xs) # rest"
proof (induction es arbitrary: cur n)
  case (Cons e es)
  show ?case
  proof (cases "max_batch_files \<le> length cur \<or> max_batch_bytes < n + length (fe_content e)")
    case True
    with Cons.prems pack_prefix [of es "[cur]"] show ?thesis by (auto simp: Let_def)
  next
    case False
    moreover obtain xs rest where "pack es [] (cur @ [e]) (n + length (fe_content e)) = ((cur @ [e]) @ xs) # rest"
      using Cons.IH [of "cur @ [e]"] by blast
    ultimately show ?thesis by (intro exI [of _ "e # xs"] exI [of _ rest]) (simp add: Let_def)
  qed
qed simp

lemma pack_fits:
  "cur = [] \<or> fits cur \<Longrightarrow> n = bytes_of cur \<Longrightarrow> list_all fits (pack es [] cur n) \<and> greedy (pack es [] cur n)"
proof (induction es arbitrary: cur n)
  case (Cons e es)
  let ?size = "length (fe_content e)"
  have one: "fits [e]" by (simp add: fits_def max_batch_files_def)
  show ?case
  proof (cases "cur \<noteq> [] \<and> (max_batch_files \<le> length cur \<or> max_batch_bytes < n + ?size)")
    case True
    then have p: "pack (e # es) [] cur n = cur # pack es [] [e] ?size"
      using pack_prefix [of es "[cur]"] by (simp add: Let_def)
    obtain xs rest where h: "pack es [] [e] ?size = ([e] @ xs) # rest" using pack_hd [of "[e]"] by blast
    have "list_all fits (pack es [] [e] ?size) \<and> greedy (pack es [] [e] ?size)"
      by (rule Cons.IH) (simp_all add: one bytes_of_def)
    with True Cons.prems show ?thesis unfolding p h by simp
  next
    case False
    then have p: "pack (e # es) [] cur n = pack es [] (cur @ [e]) (n + ?size)" by (auto simp: Let_def)
    have "fits (cur @ [e])"
      using False one Cons.prems by (cases "cur = []") (auto simp: fits_def bytes_of_def)
    then show ?thesis unfolding p by (intro Cons.IH) (simp_all add: Cons.prems bytes_of_def)
  qed
qed (auto simp: fits_def)

lemma map_files: "map bt_files (map (\<lambda>fs. \<lparr>bt_files = fs, bt_deletes = ds\<rparr>) xs) = xs"
  by (induction xs) simp_all

lemma chunk_files: "map bt_files (chunk_into_batches needed deletes) =
    (if needed = [] then if deletes = [] then [] else [[]] else pack needed [] [] 0)"
proof (cases "pack needed [] [] 0")
  case Nil
  then show ?thesis using pack_concat [of needed "[]" 0] by (simp add: chunk_into_batches_def)
next
  case (Cons fs rest)
  have "needed \<noteq> []" using Cons by auto
  with Cons show ?thesis by (simp add: chunk_into_batches_def map_files comp_def)
qed

lemma chunk_concat:
  "concat (map bt_files (chunk_into_batches needed deletes)) = needed"
  "concat (map bt_deletes (chunk_into_batches needed deletes)) = deletes"
proof -
  have e: "concat (map (\<lambda>b. []) rest) = []" for rest :: "'a list" by (induction rest) simp_all
  show "concat (map bt_files (chunk_into_batches needed deletes)) = needed"
    using pack_concat [of needed "[]" 0] by (simp add: chunk_files)
  have d: "map bt_deletes (map (\<lambda>fs. \<lparr>bt_files = fs, bt_deletes = []\<rparr>) rest) = map (\<lambda>b. []) rest" for rest
    by (induction rest) simp_all
  show "concat (map bt_deletes (chunk_into_batches needed deletes)) = deletes"
    by (cases "pack needed [] [] 0") (simp_all add: chunk_into_batches_def d [unfolded map_map] e)
qed

text \<open>The files to upload are packed into batches completely and in order, the deletions are in the first
  batch; a batch holds at most 100 files and 2 MB unless it is a single file, no batch is empty, and the
  packing is greedy: none could have taken the first file of the next.\<close>

theorem chunk_into_batches_packs:
  "concat (map bt_files (chunk_into_batches needed deletes)) = needed
   \<and> concat (map bt_deletes (chunk_into_batches needed deletes)) = deletes
   \<and> list_all (\<lambda>b. length (bt_files b) \<le> max_batch_files
        \<and> (bytes_of (bt_files b) \<le> max_batch_bytes \<or> length (bt_files b) = 1)
        \<and> \<not> (bt_files b = [] \<and> bt_deletes b = [])) (chunk_into_batches needed deletes)
   \<and> greedy (map bt_files (chunk_into_batches needed deletes))"
proof (cases "needed = []")
  case True
  then show ?thesis
    by (simp add: chunk_into_batches_def max_batch_files_def bytes_of_def)
next
  case False
  have p: "list_all fits (pack needed [] [] 0)" "greedy (pack needed [] [] 0)"
    using pack_fits [of "[]" 0 needed] by (simp_all add: bytes_of_def)
  obtain fs rest where c: "pack needed [] [] 0 = fs # rest"
    using pack_concat [of needed "[]" 0] False by (cases "pack needed [] [] 0") auto
  have "chunk_into_batches needed deletes =
      \<lparr>bt_files = fs, bt_deletes = deletes\<rparr> # map (\<lambda>fs. \<lparr>bt_files = fs, bt_deletes = []\<rparr>) rest"
    by (simp add: chunk_into_batches_def c)
  then have "list_all (\<lambda>b. length (bt_files b) \<le> max_batch_files
        \<and> (bytes_of (bt_files b) \<le> max_batch_bytes \<or> length (bt_files b) = 1)
        \<and> \<not> (bt_files b = [] \<and> bt_deletes b = [])) (chunk_into_batches needed deletes)"
    using p(1) unfolding c by (auto simp: list_all_iff fits_def)
  moreover have "greedy (map bt_files (chunk_into_batches needed deletes))"
    using p(2) False by (simp add: chunk_files)
  ultimately show ?thesis using chunk_concat [of needed deletes] by blast
qed

section \<open>The identity of a batch\<close>

lemma sort_eq_iff: "sort xs = sort ys \<longleftrightarrow> mset xs = mset ys" for xs ys :: "'a :: linorder list"
  by (metis mset_sort properties_for_sort sorted_sort)

lemma join_Cons_nonempty: "x \<noteq> [] \<Longrightarrow> join sep (x # xs) \<noteq> []"
  by (cases xs) auto

lemma join_NL_inj:
  assumes "list_all (\<lambda>x. x \<noteq> [] \<and> NL \<notin> set x) xs" and "list_all (\<lambda>x. x \<noteq> [] \<and> NL \<notin> set x) ys"
    and "join [NL] xs = join [NL] ys"
  shows "xs = ys"
proof -
  have e: "zs = [] \<longleftrightarrow> join [NL] zs = []" if "list_all (\<lambda>x. x \<noteq> [] \<and> NL \<notin> set x) zs" for zs
    using that by (cases zs) (auto simp: join_Cons_nonempty)
  show ?thesis
  proof (cases "xs = []")
    case True
    with e [OF assms(1)] e [OF assms(2)] assms(3) show ?thesis by metis
  next
    case False
    with e [OF assms(1)] e [OF assms(2)] assms(3) have "ys \<noteq> []" by metis
    have "split_char NL (join [NL] xs) = xs" using False assms(1) by (intro split_char_join) (auto simp: list_all_iff)
    moreover have "split_char NL (join [NL] ys) = ys"
      using \<open>ys \<noteq> []\<close> assms(2) by (intro split_char_join) (auto simp: list_all_iff)
    ultimately show ?thesis using assms(3) by metis
  qed
qed

lemma batch_lines_nonempty: "x \<in> set (batch_lines b) \<Longrightarrow> x \<noteq> []"
  by (auto simp: batch_lines_def file_line_def delete_line_def)

text \<open>The id of a batch identifies its entries: with a hash that does not collide and without newlines in
  the paths, two batches have the same id exactly when they have the same entries, in whatever order.\<close>

theorem batch_id_identifies:
  assumes "inj (se_sha256 env)"
    and "list_all (\<lambda>l. NL \<notin> set l) (batch_lines b)" and "list_all (\<lambda>l. NL \<notin> set l) (batch_lines b')"
  shows "deterministic_batch_id env b = deterministic_batch_id env b' \<longleftrightarrow> mset (batch_lines b) = mset (batch_lines b')"
proof -
  have ok: "list_all (\<lambda>x. x \<noteq> [] \<and> NL \<notin> set x) (sort (batch_lines c))"
    if "list_all (\<lambda>l. NL \<notin> set l) (batch_lines c)" for c
    using that batch_lines_nonempty by (auto simp: list_all_iff)
  have "join [NL] (sort (batch_lines b)) = join [NL] (sort (batch_lines b'))
      \<longleftrightarrow> sort (batch_lines b) = sort (batch_lines b')"
    using join_NL_inj [OF ok [OF assms(2)] ok [OF assms(3)]] by metis
  then show ?thesis
    unfolding deterministic_batch_id_def inj_eq [OF assms(1)] sort_eq_iff .
qed

section \<open>Walking\<close>

text \<open>What the walk makes of one of its results.\<close>

definition collected :: "sync_env \<Rightarrow> str \<Rightarrow> ignore_filter \<Rightarrow> nat \<Rightarrow> str option \<Rightarrow> file_entry option" where
  "collected env root flt max_file w =
     (case w of
        None \<Rightarrow> None
      | Some p \<Rightarrow>
          (case se_read env p of
             ReadOk content \<Rightarrow>
               if pv_is_file (se_view env p) \<and> should_include flt (se_view env p) p
                  \<and> (case pv_length (se_view env p) of None \<Rightarrow> False | Some len \<Rightarrow> len \<le> max_file)
                  \<and> valid_utf8 content
               then Some \<lparr>fe_path = relative_path root p, fe_hash = se_sha256 env content, fe_content = content\<rparr>
               else None
           | _ \<Rightarrow> None))"

lemma walk_step:
  "walk_and_hash_go env root flt mf mr mn n (w # ws) es seen = Inr out \<Longrightarrow>
   (case collected env root flt mf w of
      None \<Rightarrow> walk_and_hash_go env root flt mf mr mn (Suc n) ws es seen = Inr out
    | Some e \<Rightarrow> seen + length (fe_content e) \<le> mr \<and> length es < mn
        \<and> walk_and_hash_go env root flt mf mr mn (Suc n) ws (es @ [e]) (seen + length (fe_content e)) = Inr out)"
  by (auto simp: collected_def Let_def split: option.splits if_splits read_outcome.splits)

lemma walk_go_collects:
  "walk_and_hash_go env root flt mf mr mn n ws es seen = Inr out \<Longrightarrow> seen \<le> mr \<Longrightarrow> length es \<le> mn \<Longrightarrow>
   out = es @ List.map_filter (collected env root flt mf) ws
   \<and> seen + bytes_of (List.map_filter (collected env root flt mf) ws) \<le> mr \<and> length out \<le> mn"
proof (induction ws arbitrary: n es seen)
  case Nil
  then show ?case by (simp add: bytes_of_def map_filter_simps)
next
  case (Cons w ws)
  from walk_step [OF Cons.prems(1)] show ?case
  proof (cases "collected env root flt mf w")
    case None
    with walk_step [OF Cons.prems(1)] Cons.IH Cons.prems(2,3) show ?thesis by (simp add: map_filter_simps)
  next
    case (Some e)
    with walk_step [OF Cons.prems(1)] have
      "walk_and_hash_go env root flt mf mr mn (Suc n) ws (es @ [e]) (seen + length (fe_content e)) = Inr out"
      "seen + length (fe_content e) \<le> mr" "length (es @ [e]) \<le> mn" by simp_all
    from Cons.IH [OF this] Some show ?thesis by (auto simp: map_filter_simps bytes_of_def)
  qed
qed

text \<open>A walk that succeeds has collected exactly the readable, included, valid files of the repository, in
  the order of the walk, and these stay within the limits on the bytes and the number of files.\<close>

theorem walk_and_hash_collects:
  assumes "walk_and_hash env root flt mf mr mn walk = Inr entries"
  shows "entries = List.map_filter (collected env root flt mf) walk \<and> bytes_of entries \<le> mr \<and> length entries \<le> mn"
  using walk_go_collects [OF assms [unfolded walk_and_hash_def]] by auto

text \<open>The filter looks at all components of the path, also at those of the directory that the repository is
  in: below a directory with a blocked name nothing is included.\<close>

lemma components_below_blocked:
  assumes "path_starts_with (components p) (components root)" and "is_blocked_dir root"
  shows "is_blocked_dir p"
proof -
  have "components p = components root @ drop (length (components root)) (components p)"
    using assms(1) unfolding path_starts_with_def by (metis append_take_drop_id)
  then show ?thesis using assms(2) unfolding is_blocked_dir_def by (metis list_ex_append)
qed

lemma blocked_root_walk:
  assumes "is_blocked_dir root" and "\<And>k. \<not> se_cancelled env (AtEntry k)"
    and "list_all (\<lambda>w. case w of None \<Rightarrow> True | Some p \<Rightarrow> path_starts_with (components p) (components root)) walk"
  shows "walk_and_hash_go env root flt mf mr mn n walk es seen = Inr es"
  using assms(3)
proof (induction walk arbitrary: n)
  case (Cons w ws)
  then show ?case
    using components_below_blocked [OF _ assms(1)] assms(2)
    by (cases w) (simp_all add: should_include_def Let_def)
qed simp

text \<open>A repository below a directory with a blocked name: whatever files it has, the full sync hashes none
  and sends the server, as the complete view of the repository, an empty list of files.\<close>

theorem blocked_root_syncs_nothing:
  assumes "is_blocked_dir root" and "\<And>k. \<not> se_cancelled env (AtEntry k)"
    and "list_all (\<lambda>w. case w of None \<Rightarrow> True | Some p \<Rightarrow> path_starts_with (components p) (components root)) walk"
  shows "full_sync env cfg root flt walk =
      (case call_diff env cfg [] False [] of Inl e \<Rightarrow> Some (Inl e) | Inr d \<Rightarrow> transfer env [] d)
    \<and> dq_files (diff_request_of cfg [] False []) = [] \<and> \<not> dq_incremental (diff_request_of cfg [] False [])"
  by (simp add: full_sync_def walk_and_hash_def blocked_root_walk [OF assms] diff_request_of_def)

section \<open>Delivery\<close>

text \<open>The server has taken the batch, now or before, in one of at most four attempts.\<close>

definition accepted :: "sync_env \<Rightarrow> str \<Rightarrow> batch \<Rightarrow> bool" where
  "accepted env sync_id b \<longleftrightarrow>
     (\<exists>k r. k \<le> max_retry_attempts
        \<and> se_stream env sync_id (deterministic_batch_id env b) k (build_batch_ndjson env b) = Reply r
        \<and> (rp_status r = 202 \<or> rp_status r = 200))"

lemma batch_attempts_accepted:
  "batch_attempts env sid bid body left = Inr o' \<Longrightarrow> left \<le> max_retry_attempts \<Longrightarrow>
   \<exists>k r. k \<le> max_retry_attempts \<and> se_stream env sid bid k body = Reply r \<and> (rp_status r = 202 \<or> rp_status r = 200)"
proof (induction left)
  case 0
  then show ?case
    by (subst (asm) batch_attempts.simps) (auto simp: Let_def split: if_splits http_result.splits)
next
  case (Suc left)
  define k where "k = max_retry_attempts - Suc left"
  show ?case
  proof (cases "\<exists>r. se_stream env sid bid k body = Reply r \<and> (rp_status r = 202 \<or> rp_status r = 200)")
    case True
    then show ?thesis unfolding k_def by (metis diff_le_self)
  next
    case False
    with Suc.prems(1) have "batch_attempts env sid bid body left = Inr o'"
      by (subst (asm) batch_attempts.simps) (auto simp: Let_def k_def split: if_splits http_result.splits)
    with Suc show ?thesis by simp
  qed
qed

lemma join_batches_accepted:
  "join_batches env sid batches order st = Inr st' \<Longrightarrow> i \<in> set order \<Longrightarrow> accepted env sid (batches ! i)"
proof (induction order arbitrary: st)
  case (Cons j order)
  then obtain o' where o': "stream_one_batch env sid (batches ! j) = Inr o'"
    and rest: "join_batches env sid batches order (add_outcome o' st) = Inr st'"
    by (auto split: option.splits sum.splits)
  show ?case
  proof (cases "i = j")
    case True
    with batch_attempts_accepted [OF o' [unfolded stream_one_batch_def]] show ?thesis
      unfolding accepted_def by simp
  next
    case False
    with Cons rest show ?thesis by simp
  qed
qed simp

lemma stream_batches_accepted:
  assumes "stream_batches env sid needed deletes = Inr st"
    and "set (se_join_order env (length (chunk_into_batches needed deletes))) = {..<length (chunk_into_batches needed deletes)}"
    and "b \<in> set (chunk_into_batches needed deletes)"
  shows "accepted env sid b"
proof -
  obtain i where "i < length (chunk_into_batches needed deletes)" "b = chunk_into_batches needed deletes ! i"
    using assms(3) by (metis in_set_conv_nth)
  moreover have "join_batches env sid (chunk_into_batches needed deletes)
      (se_join_order env (length (chunk_into_batches needed deletes))) empty_batch_stats = Inr st"
    using assms(1) by (simp add: stream_batches_def Let_def split: if_splits)
  ultimately show ?thesis using join_batches_accepted assms(2) by blast
qed

lemma transfer_delivers:
  assumes "transfer env entries d = Some (Inr st)"
    and "\<And>n. set (se_join_order env n) = {..<n}"
  shows "(\<forall>e. e \<in> set entries \<and> fe_path e \<in> set (dr_need d) \<longrightarrow>
        (\<exists>b. e \<in> set (bt_files b) \<and> accepted env (dr_sync_id d) b))
    \<and> (\<forall>p. p \<in> set (dr_delete d) \<longrightarrow> (\<exists>b. p \<in> set (bt_deletes b) \<and> accepted env (dr_sync_id d) b))"
proof (cases "dr_need d = [] \<and> dr_delete d = []")
  case False
  let ?needed = "entries_filtered_by_need entries (dr_need d)"
  let ?bs = "chunk_into_batches ?needed (dr_delete d)"
  obtain bst where sb: "stream_batches env (dr_sync_id d) ?needed (dr_delete d) = Inr bst"
    using assms(1) False by (auto simp: transfer_def Let_def split: sum.splits)
  have acc: "accepted env (dr_sync_id d) b" if "b \<in> set ?bs" for b
    by (rule stream_batches_accepted [OF sb assms(2) that])
  have cover: "concat (map bt_files ?bs) = ?needed" "concat (map bt_deletes ?bs) = dr_delete d"
    using chunk_concat by blast+
  have "\<exists>b \<in> set ?bs. e \<in> set (bt_files b)" if "e \<in> set entries" "fe_path e \<in> set (dr_need d)" for e
  proof -
    from that have "e \<in> set ?needed" by (simp add: entries_filtered_by_need_def)
    then have "e \<in> set (concat (map bt_files ?bs))" by (simp only: cover)
    then show ?thesis by auto
  qed
  moreover have "\<exists>b \<in> set ?bs. p \<in> set (bt_deletes b)" if "p \<in> set (dr_delete d)" for p
  proof -
    from that have "p \<in> set (concat (map bt_deletes ?bs))" by (simp only: cover)
    then show ?thesis by auto
  qed
  ultimately show ?thesis using acc by blast
qed simp

lemma transfer_hashed:
  assumes "transfer env entries d = Some (Inr st)"
  shows "sy_files_hashed st = length entries"
proof (cases "dr_need d = [] \<and> dr_delete d = []")
  case True
  with assms show ?thesis by (auto simp: transfer_def Let_def)
next
  case False
  then obtain bst where b: "stream_batches env (dr_sync_id d) (entries_filtered_by_need entries (dr_need d)) (dr_delete d) = Inr bst"
    using assms by (auto simp: transfer_def Let_def split: sum.splits)
  show ?thesis
  proof (cases "poll_sync_complete env (dr_sync_id d)")
    case None
    with b False assms show ?thesis by (auto simp: transfer_def Let_def)
  next
    case (Some z)
    with b False assms show ?thesis by (cases z) (auto simp: transfer_def Let_def)
  qed
qed

text \<open>C15. A full sync that reports success has delivered: every file that it hashed and the server asked for,
  and every deletion that the server announced, is in a batch that the server has taken, whatever order
  the upload tasks end in and whatever retries it took.\<close>

theorem full_sync_delivers:
  assumes "full_sync env cfg root flt walk = Some (Inr st)"
    and "\<And>n. set (se_join_order env n) = {..<n}"
  shows "\<exists>entries d. walk_and_hash env root flt max_file_size_bytes max_repo_bytes max_repo_files walk = Inr entries
    \<and> call_diff env cfg entries False [] = Inr d \<and> sy_files_hashed st = length entries
    \<and> (\<forall>e. e \<in> set entries \<and> fe_path e \<in> set (dr_need d) \<longrightarrow>
        (\<exists>b. e \<in> set (bt_files b) \<and> accepted env (dr_sync_id d) b))
    \<and> (\<forall>p. p \<in> set (dr_delete d) \<longrightarrow> (\<exists>b. p \<in> set (bt_deletes b) \<and> accepted env (dr_sync_id d) b))"
proof -
  obtain entries d where w: "walk_and_hash env root flt max_file_size_bytes max_repo_bytes max_repo_files walk = Inr entries"
    and c: "call_diff env cfg entries False [] = Inr d" and t: "transfer env entries d = Some (Inr st)"
    using assms(1) by (auto simp: full_sync_def split: sum.splits)
  have "sy_files_hashed st = length entries" by (rule transfer_hashed [OF t])
  with w c transfer_delivers [OF t assms(2)] show ?thesis by blast
qed

section \<open>Completion\<close>

text \<open>Some poll finds the sync cancelled, fails, or is answered by an unexpected status.\<close>

definition poll_fails :: "sync_env \<Rightarrow> str \<Rightarrow> bool" where
  "poll_fails env sync_id \<longleftrightarrow>
     (\<exists>k. se_cancelled env (AtPoll k) \<or> se_cancelled env (PollSleep k)
        \<or> (case se_complete env sync_id k of
             Transport _ _ \<Rightarrow> True
           | Reply r \<Rightarrow> rp_status r \<noteq> 200 \<and> rp_status r \<noteq> 202 \<and> rp_status r \<noteq> 409 \<and> rp_status r \<noteq> 410))"

text \<open>Every poll that does not end the loop is followed by the sleep of one interval.\<close>

lemma poll_loop_ends:
  "(\<And>k. se_clock env (Suc k) \<ge> se_clock env k + poll_interval_ms) \<Longrightarrow>
   se_clock env n + left * poll_interval_ms \<ge> deadline \<Longrightarrow>
   \<exists>r. poll_loop env sync_id deadline n = Some r \<and> (r = Inr () \<or> poll_fails env sync_id)"
proof (induction left arbitrary: n)
  case 0
  then show ?case by (subst poll_loop.simps) (auto simp: poll_interval_ms_def poll_fails_def)
next
  case (Suc left)
  have "se_clock env (Suc n) + left * poll_interval_ms \<ge> deadline"
    using Suc.prems(1) [of n] Suc.prems(2) by simp
  from Suc.IH [OF Suc.prems(1) this] obtain r where
    r: "poll_loop env sync_id deadline (Suc n) = Some r" "r = Inr () \<or> poll_fails env sync_id" by blast
  show ?case
  proof (cases "se_complete env sync_id n")
    case (Transport e b)
    then have "poll_fails env sync_id" unfolding poll_fails_def by (intro exI [of _ n]) simp
    with Transport show ?thesis by (subst poll_loop.simps) simp
  next
    case (Reply rp)
    show ?thesis
    proof (cases "poll_fails env sync_id")
      case True
      with Reply r(1) show ?thesis by (subst poll_loop.simps) simp
    next
      case False
      then have "\<not> (se_cancelled env (AtPoll n) \<or> se_cancelled env (PollSleep n)
        \<or> (case se_complete env sync_id n of Transport _ _ \<Rightarrow> True
           | Reply r \<Rightarrow> rp_status r \<noteq> 200 \<and> rp_status r \<noteq> 202 \<and> rp_status r \<noteq> 409 \<and> rp_status r \<noteq> 410))"
        unfolding poll_fails_def by blast
      then have "\<not> se_cancelled env (AtPoll n)" "\<not> se_cancelled env (PollSleep n)"
        "rp_status rp = 200 \<or> rp_status rp = 202 \<or> rp_status rp = 409 \<or> rp_status rp = 410"
        unfolding Reply by simp_all
      with Reply r show ?thesis by (subst poll_loop.simps) auto
    qed
  qed
qed

text \<open>
  C27. Waiting for the server to complete a sync ends, also when the server never reports completion: with a
  clock that moves on by the sleep between two polls there is always a result, and it is success unless
  the sync is cancelled, a request fails or the server gives an unexpected answer.\<close>

theorem poll_sync_complete_ends:
  assumes "\<And>k. se_clock env (Suc k) \<ge> se_clock env k + poll_interval_ms"
  shows "\<exists>r. poll_sync_complete env sync_id = Some r \<and> (r = Inr () \<or> poll_fails env sync_id)"
proof -
  let ?d = "se_poll_start env + sync_deadline_ms"
  have "?d \<le> se_clock env 0 + ?d * poll_interval_ms" by (simp add: poll_interval_ms_def)
  from poll_loop_ends [OF assms this] show ?thesis unfolding poll_sync_complete_def .
qed

section \<open>Examples\<close>

text \<open>Two files, of which the server wants one, a deletion, a server that is busy once and never reports
  completion, and tasks that end in reverse order.\<close>

definition demo_sync :: sync_env where
  "demo_sync = \<lparr>se_sha256 = (\<lambda>s. ''h'' @ s), se_base64 = id, se_print_json = (\<lambda>_. ''{}''), se_diff_size = (\<lambda>_. 10),
     se_view = (\<lambda>p. \<lparr>pv_is_dir = False, pv_is_file = True, pv_length = Some 1\<rparr>),
     se_read = (\<lambda>p. ReadOk ''x''), se_cancelled = (\<lambda>_. False),
     se_diff = (\<lambda>k rq. Reply \<lparr>rp_status = 200, rp_text = [], rp_json =
        Some (JObj [(''delete'', JArr [JStr ''old'']), (''need'', JArr [JStr ''a.rs'']), (''sync_id'', JStr ''s'')])\<rparr>),
     se_stream = (\<lambda>sid bid k body. Reply \<lparr>rp_status = (if k = 0 then 503 else 200), rp_text = [], rp_json = None\<rparr>),
     se_complete = (\<lambda>sid k. Reply \<lparr>rp_status = 202, rp_text = [], rp_json = None\<rparr>),
     se_join_order = (\<lambda>n. rev [0..<n]), se_join_error = (\<lambda>_. None), se_clock = (\<lambda>k. k * 400000),
     se_poll_start = 0, se_status_text = (\<lambda>_. [])\<rparr>"

definition demo_sync_config :: streamer_config where
  "demo_sync_config = \<lparr>sc_user_id = ''u'', sc_workspace_id = 1, sc_machine_id = ''m'', sc_repo_path = ''/r''\<rparr>"

definition demo_filter :: ignore_filter where
  "demo_filter = \<lparr>if_gitignore = None, if_repo_root = ''/r''\<rparr>"

lemma demo_include: "should_include demo_filter (se_view demo_sync p) p \<longleftrightarrow>
    \<not> is_blocked_dir p \<and> \<not> is_blocked_filename p \<and> \<not> has_blocked_extension p"
  by (simp add: should_include_def demo_filter_def demo_sync_def max_sync_file_size_def)

definition demo_entry :: "str \<Rightarrow> file_entry" where
  "demo_entry p = \<lparr>fe_path = p, fe_hash = ''hx'', fe_content = ''x''\<rparr>"

lemma demo_walk:
  assumes "Suc 0 \<le> mf" and "2 \<le> mr" and "2 \<le> mn"
  shows "walk_and_hash demo_sync ''/r'' demo_filter mf mr mn [Some ''/r/a.rs'', None, Some ''/r/b.png'', Some ''/r/c.rs''] =
    Inr [demo_entry ''a.rs'', demo_entry ''c.rs'']"
proof -
  have "\<not> is_blocked_dir ''/r/a.rs''" "\<not> is_blocked_filename ''/r/a.rs''" "\<not> has_blocked_extension ''/r/a.rs''"
    "\<not> is_blocked_dir ''/r/c.rs''" "\<not> is_blocked_filename ''/r/c.rs''" "\<not> has_blocked_extension ''/r/c.rs''"
    "has_blocked_extension ''/r/b.png''" by code_simp+
  note inc = this [THEN eqTrueI]
  have "relative_path ''/r'' ''/r/a.rs'' = ''a.rs''" "relative_path ''/r'' ''/r/c.rs'' = ''c.rs''" "valid_utf8 ''x''"
    by code_simp+
  note rel = this
  have view: "pv_is_file (se_view demo_sync p)" "pv_length (se_view demo_sync p) = Some 1"
    "se_read demo_sync p = ReadOk ''x''" "\<not> se_cancelled demo_sync k" "se_sha256 demo_sync ''x'' = ''hx''" for p k
    by (simp_all add: demo_sync_def)
  show ?thesis
    using assms inc by (simp add: walk_and_hash_def demo_include view rel demo_entry_def Let_def)
qed

theorem walk_and_hash_collects_witness:
  "List.map_filter (collected demo_sync ''/r'' demo_filter 100) [Some ''/r/a.rs'', None, Some ''/r/b.png'', Some ''/r/c.rs''] =
    [demo_entry ''a.rs'', demo_entry ''c.rs''] \<and> bytes_of [demo_entry ''a.rs'', demo_entry ''c.rs''] \<le> 2"
proof -
  have "walk_and_hash demo_sync ''/r'' demo_filter 100 2 2 [Some ''/r/a.rs'', None, Some ''/r/b.png'', Some ''/r/c.rs''] =
    Inr [demo_entry ''a.rs'', demo_entry ''c.rs'']" by (rule demo_walk) simp_all
  from walk_and_hash_collects [OF this] show ?thesis by metis
qed

theorem batch_id_identifies_witness:
  "deterministic_batch_id demo_sync \<lparr>bt_files = [demo_entry ''a'', demo_entry ''b''], bt_deletes = [''d'']\<rparr> =
   deterministic_batch_id demo_sync \<lparr>bt_files = [demo_entry ''b'', demo_entry ''a''], bt_deletes = [''d'']\<rparr>
   \<and> deterministic_batch_id demo_sync \<lparr>bt_files = [demo_entry ''a''], bt_deletes = []\<rparr> \<noteq>
     deterministic_batch_id demo_sync \<lparr>bt_files = [demo_entry ''b''], bt_deletes = []\<rparr>"
proof -
  let ?A = "\<lparr>bt_files = [demo_entry ''a'', demo_entry ''b''], bt_deletes = [''d'']\<rparr>"
  let ?B = "\<lparr>bt_files = [demo_entry ''b'', demo_entry ''a''], bt_deletes = [''d'']\<rparr>"
  let ?C = "\<lparr>bt_files = [demo_entry ''a''], bt_deletes = []\<rparr>" and ?D = "\<lparr>bt_files = [demo_entry ''b''], bt_deletes = []\<rparr>"
  have i: "inj (se_sha256 demo_sync)" by (simp add: demo_sync_def inj_def)
  have l: "batch_lines ?A = [''file|a|hx'', ''file|b|hx'', ''delete|d|'']" "batch_lines ?B = [''file|b|hx'', ''file|a|hx'', ''delete|d|'']"
    "batch_lines ?C = [''file|a|hx'']" "batch_lines ?D = [''file|b|hx'']"
    by (simp_all add: batch_lines_def file_line_def delete_line_def demo_entry_def)
  have n: "list_all (\<lambda>l. NL \<notin> set l) (batch_lines ?A)" "list_all (\<lambda>l. NL \<notin> set l) (batch_lines ?B)"
    "list_all (\<lambda>l. NL \<notin> set l) (batch_lines ?C)" "list_all (\<lambda>l. NL \<notin> set l) (batch_lines ?D)"
    unfolding l by simp_all
  from batch_id_identifies [OF i n(1,2)] batch_id_identifies [OF i n(3,4)] show ?thesis
    unfolding l by (simp add: add_mset_commute)
qed

definition demo_response :: diff_response where
  "demo_response = \<lparr>dr_sync_id = ''s'', dr_need = [''a.rs''], dr_delete = [''old'']\<rparr>"

lemma demo_diff: "call_diff demo_sync cfg es inc ds = Inr demo_response"
proof -
  have "json_diff_response (JObj [(''delete'', JArr [JStr ''old'']), (''need'', JArr [JStr ''a.rs'']), (''sync_id'', JStr ''s'')]) =
      Some demo_response"
    by (simp add: json_diff_response_def json_get_str_def read_array_def demo_response_def)
  then show ?thesis
    by (simp add: call_diff_def demo_sync_def Let_def diff_attempts.simps max_diff_body_gz_bytes_def)
qed

theorem blocked_root_syncs_nothing_witness:
  "full_sync demo_sync demo_sync_config ''/build/r'' demo_filter [Some ''/build/r/a.rs'', Some ''/build/r/b.rs''] =
     transfer demo_sync [] demo_response"
proof -
  have "is_blocked_dir ''/build/r''" by code_simp
  moreover have "\<not> se_cancelled demo_sync (AtEntry k)" for k by (simp add: demo_sync_def)
  moreover have "list_all (\<lambda>w. case w of None \<Rightarrow> True | Some p \<Rightarrow> path_starts_with (components p) (components ''/build/r''))
      [Some ''/build/r/a.rs'', Some ''/build/r/b.rs'']" by code_simp
  ultimately show ?thesis
    using blocked_root_syncs_nothing [of "''/build/r''" demo_sync] by (simp add: demo_diff)
qed

theorem poll_sync_complete_ends_witness: "poll_sync_complete demo_sync ''s'' = Some (Inr ())"
proof -
  have "\<not> poll_fails demo_sync ''s''" by (simp add: poll_fails_def demo_sync_def)
  moreover have "\<And>k. se_clock demo_sync (Suc k) \<ge> se_clock demo_sync k + poll_interval_ms"
    by (simp add: demo_sync_def poll_interval_ms_def)
  ultimately show ?thesis using poll_sync_complete_ends [of demo_sync "''s''"] by blast
qed

lemma demo_poll: "poll_sync_complete demo_sync sid = Some (Inr ())"
proof -
  have "poll_loop demo_sync sid 300000 1 = Some (Inr ())"
    by (subst poll_loop.simps) (simp add: demo_sync_def)
  then show ?thesis
    unfolding poll_sync_complete_def
    by (subst poll_loop.simps) (simp add: demo_sync_def sync_deadline_ms_def)
qed

lemma demo_batch: "stream_one_batch demo_sync sid b =
    Inr \<lparr>bo_files_uploaded = 0, bo_files_deleted = 0, bo_bytes_uploaded = 0, bo_duplicate = True\<rparr>"
proof -
  let ?o = "\<lparr>bo_files_uploaded = 0, bo_files_deleted = 0, bo_bytes_uploaded = 0, bo_duplicate = True\<rparr>"
  have reply: "se_stream demo_sync sid bid k body = Reply \<lparr>rp_status = (if k = 0 then 503 else 200), rp_text = [], rp_json = None\<rparr>"
    "\<not> se_cancelled demo_sync p" for bid k body p
    by (simp_all add: demo_sync_def)
  have three: "max_retry_attempts = Suc 2" by (simp add: max_retry_attempts_def)
  have "batch_attempts demo_sync sid bid body 2 = Inr ?o" for bid body
    by (subst batch_attempts.simps) (simp add: reply three)
  then show ?thesis
    unfolding stream_one_batch_def three
    by (subst batch_attempts.simps) (simp add: reply three)
qed

lemma demo_full_sync:
  "full_sync demo_sync demo_sync_config ''/r'' demo_filter [Some ''/r/a.rs'', None, Some ''/r/b.png'', Some ''/r/c.rs''] =
   Some (Inr \<lparr>sy_files_hashed = 2, sy_files_uploaded = 0, sy_files_deleted = 0, sy_bytes_uploaded = 0,
              sy_duplicate_batches = 1\<rparr>)"
proof -
  have w: "walk_and_hash demo_sync ''/r'' demo_filter max_file_size_bytes max_repo_bytes max_repo_files
      [Some ''/r/a.rs'', None, Some ''/r/b.png'', Some ''/r/c.rs''] = Inr [demo_entry ''a.rs'', demo_entry ''c.rs'']"
    by (rule demo_walk) (simp_all add: max_file_size_bytes_def max_repo_bytes_def max_repo_files_def)
  have n: "entries_filtered_by_need [demo_entry ''a.rs'', demo_entry ''c.rs''] [''a.rs''] = [demo_entry ''a.rs'']"
    by (simp add: entries_filtered_by_need_def demo_entry_def)
  have c: "chunk_into_batches [demo_entry ''a.rs''] [''old''] =
      [\<lparr>bt_files = [demo_entry ''a.rs''], bt_deletes = [''old'']\<rparr>]"
    by (simp add: chunk_into_batches_def)
  have s: "se_join_order demo_sync (Suc 0) = [0]" "se_join_error demo_sync i = None" "\<not> se_cancelled demo_sync p" for i p
    by (simp_all add: demo_sync_def)
  have "stream_batches demo_sync ''s'' [demo_entry ''a.rs''] [''old''] =
      Inr \<lparr>bs_files_uploaded = 0, bs_files_deleted = 0, bs_bytes_uploaded = 0, bs_duplicate_batches = 1\<rparr>"
    by (simp add: stream_batches_def c s Let_def demo_batch add_outcome_def empty_batch_stats_def)
  then show ?thesis
    by (simp add: full_sync_def w demo_diff transfer_def Let_def n demo_poll demo_response_def)
qed

theorem full_sync_delivers_witness:
  "\<exists>b. demo_entry ''a.rs'' \<in> set (bt_files b) \<and> accepted demo_sync ''s'' b"
proof -
  have "set (se_join_order demo_sync n) = {..<n}" for n by (auto simp: demo_sync_def)
  from full_sync_delivers [OF demo_full_sync this] obtain entries d where
    w: "walk_and_hash demo_sync ''/r'' demo_filter max_file_size_bytes max_repo_bytes max_repo_files
      [Some ''/r/a.rs'', None, Some ''/r/b.png'', Some ''/r/c.rs''] = Inr entries"
    and d: "call_diff demo_sync demo_sync_config entries False [] = Inr d"
    and e: "\<And>e. e \<in> set entries \<and> fe_path e \<in> set (dr_need d) \<Longrightarrow>
       \<exists>b. e \<in> set (bt_files b) \<and> accepted demo_sync (dr_sync_id d) b" by blast
  have "entries = [demo_entry ''a.rs'', demo_entry ''c.rs'']"
    using demo_walk [of max_file_size_bytes max_repo_bytes max_repo_files] w
    by (simp add: max_file_size_bytes_def max_repo_bytes_def max_repo_files_def)
  moreover have "d = demo_response" using d by (simp add: demo_diff)
  ultimately show ?thesis using e [of "demo_entry ''a.rs''"] by (simp add: demo_response_def demo_entry_def)
qed

text \<open>A changed file that is now too large is neither among the files nor among the deletions of the request.\<close>

lemma oversized_change_unreported:
  assumes "pv_is_file (se_view env p)" and "se_read env p = ReadOk content"
    and "max_file_size_bytes < length content" and "\<not> se_cancelled env (AtEntry 0)"
  shows "hash_changed env root 0 [p] = Inr []"
  using assms by simp

end
