(* ===== verification/SessionTable.thy ===== *)
theory SessionTable
  imports RustPrelude "HOL-Library.AList" "HOL-Library.Multiset" "HOL-Library.List_Lexorder" "HOL-Library.Char_ord"
begin

text \<open>
  The session table and the preferences of \<open>apps/desktop/src-tauri/src/agent_bridge/db.rs\<close>. A query is the
  function it computes on the list of rows, in the order of insertion; time stamps are arguments and are
  compared as text, as SQLite does. Rows with equal time stamps are listed in the order of insertion, which
  SQLite does not promise; nothing below rests on it.
\<close>

named_theorems session_simps \<open>unfolding facts about the session table\<close>

section \<open>Sessions\<close>

record session_row =
  se_id :: str
  se_folder :: str
  se_mode :: str
  se_title :: "str option"
  se_parent :: "str option"
  se_created_at :: str
  se_updated_at :: str
  se_status :: str
  se_provider_id :: "str option"
  se_model :: "str option"

text \<open>A row of the table has one column more.\<close>

record session_entry = session_row +
  se_deleted_at :: "str option"

type_synonym session_table = "session_entry list"

datatype db_error = UniqueViolation str

definition create_session ::
    "str \<Rightarrow> str \<Rightarrow> str \<Rightarrow> str \<Rightarrow> str option \<Rightarrow> str option \<Rightarrow> str option \<Rightarrow> str option
      \<Rightarrow> session_table \<Rightarrow> db_error + session_table" where
  "create_session now i folder mode title parent provider_id model tbl =
     (if \<exists>r \<in> set tbl. se_id r = i then Inl (UniqueViolation i)
      else Inr (tbl @ [\<lparr>se_id = i, se_folder = folder, se_mode = mode, se_title = title, se_parent = parent,
             se_created_at = now, se_updated_at = now, se_status = ''idle'', se_provider_id = provider_id,
             se_model = model, se_deleted_at = None\<rparr>]))"

definition find_session :: "str \<Rightarrow> session_table \<Rightarrow> session_entry option" where
  "find_session i tbl = find (\<lambda>r. se_id r = i) tbl"

definition get_session :: "str \<Rightarrow> session_table \<Rightarrow> session_row option" where
  "get_session i tbl = map_option session_row.truncate (find_session i tbl)"

text \<open>\<open>ORDER BY updated_at DESC\<close>.\<close>

fun insert_newest :: "session_entry \<Rightarrow> session_table \<Rightarrow> session_table" where
  "insert_newest r [] = [r]"
| "insert_newest r (x # xs) =
     (if se_updated_at x \<le> se_updated_at r then r # x # xs else x # insert_newest r xs)"

definition newest_first :: "session_table \<Rightarrow> session_table" where
  "newest_first tbl = foldr insert_newest tbl []"

definition list_sessions :: "session_table \<Rightarrow> session_row list" where
  "list_sessions tbl = map session_row.truncate (newest_first (filter (\<lambda>r. se_deleted_at r = None) tbl))"

definition update_session :: "str \<Rightarrow> (session_entry \<Rightarrow> session_entry) \<Rightarrow> session_table \<Rightarrow> session_table" where
  "update_session i f tbl = map (\<lambda>r. if se_id r = i then f r else r) tbl"

definition set_session_status :: "str \<Rightarrow> str \<Rightarrow> str \<Rightarrow> session_table \<Rightarrow> session_table" where
  "set_session_status now i status =
     update_session i (\<lambda>r. r\<lparr>se_status := status, se_updated_at := now\<rparr>)"

definition delete_session :: "str \<Rightarrow> str \<Rightarrow> session_table \<Rightarrow> session_table" where
  "delete_session now i = update_session i (\<lambda>r. r\<lparr>se_deleted_at := Some now, se_updated_at := now\<rparr>)"

definition set_session_title :: "str \<Rightarrow> str \<Rightarrow> str \<Rightarrow> session_table \<Rightarrow> session_table" where
  "set_session_title now i title =
     update_session i (\<lambda>r. r\<lparr>se_title := Some title, se_updated_at := now\<rparr>)"

definition set_session_model :: "str \<Rightarrow> str \<Rightarrow> str \<Rightarrow> str \<Rightarrow> session_table \<Rightarrow> session_table" where
  "set_session_model now i provider_id model =
     update_session i (\<lambda>r. r\<lparr>se_provider_id := Some provider_id, se_model := Some model, se_updated_at := now\<rparr>)"

definition set_session_mode :: "str \<Rightarrow> str \<Rightarrow> str \<Rightarrow> session_table \<Rightarrow> session_table" where
  "set_session_mode now i mode = update_session i (\<lambda>r. r\<lparr>se_mode := mode, se_updated_at := now\<rparr>)"

definition touch_session :: "str \<Rightarrow> str \<Rightarrow> session_table \<Rightarrow> session_table" where
  "touch_session now i = update_session i (\<lambda>r. r\<lparr>se_updated_at := now\<rparr>)"

definition active_session_for_folder :: "str \<Rightarrow> session_table \<Rightarrow> str option" where
  "active_session_for_folder folder tbl =
     (case newest_first (filter (\<lambda>r. se_folder r = folder \<and> se_status r = ''active'' \<and> se_deleted_at r = None) tbl) of
        [] \<Rightarrow> None
      | r # _ \<Rightarrow> Some (se_id r))"

section \<open>Preferences\<close>

type_synonym prefs = "(str \<times> bool) list"

definition load_disabled :: "prefs \<Rightarrow> str set" where
  "load_disabled ps = set (map fst (filter (\<lambda>(n, enabled). \<not> enabled) ps))"

definition set_enabled :: "str \<Rightarrow> bool \<Rightarrow> prefs \<Rightarrow> prefs" where
  "set_enabled name enabled ps = AList.update name enabled ps"

section \<open>Facts\<close>

text \<open>The primary key.\<close>

definition sessions_ok :: "session_table \<Rightarrow> bool" where
  "sessions_ok tbl \<longleftrightarrow> distinct (map se_id tbl)"

lemma sessions_ok_empty [simp]: "sessions_ok []"
  by (simp add: sessions_ok_def)

lemma create_session_ok:
  "sessions_ok tbl \<Longrightarrow> create_session now i f m t p pr md tbl = Inr tbl' \<Longrightarrow> sessions_ok tbl'"
  by (auto simp: create_session_def sessions_ok_def split: if_splits)

lemma update_session_ids:
  "(\<And>r. se_id (f r) = se_id r) \<Longrightarrow> map se_id (update_session i f tbl) = map se_id tbl"
  by (auto simp: update_session_def)

lemma update_session_ok [simp]:
  "(\<And>r. se_id (f r) = se_id r) \<Longrightarrow> sessions_ok (update_session i f tbl) = sessions_ok tbl"
  by (simp add: sessions_ok_def update_session_ids)

lemma find_session_update:
  "(\<And>r. se_id (f r) = se_id r) \<Longrightarrow>
   find_session j (update_session i f tbl)
     = (if j = i then map_option f (find_session j tbl) else find_session j tbl)"
  by (induction tbl) (auto simp: find_session_def update_session_def)

lemmas session_updates = set_session_status_def delete_session_def set_session_title_def
  set_session_model_def set_session_mode_def touch_session_def

lemma find_session_status [session_simps]:
  "find_session j (set_session_status now i s tbl)
     = (if j = i then map_option (\<lambda>r. r\<lparr>se_status := s, se_updated_at := now\<rparr>) (find_session j tbl)
        else find_session j tbl)"
  by (simp add: set_session_status_def find_session_update)

lemma find_session_delete [session_simps]:
  "find_session j (delete_session now i tbl)
     = (if j = i then map_option (\<lambda>r. r\<lparr>se_deleted_at := Some now, se_updated_at := now\<rparr>) (find_session j tbl)
        else find_session j tbl)"
  by (simp add: delete_session_def find_session_update)

lemma find_session_title [session_simps]:
  "find_session j (set_session_title now i s tbl)
     = (if j = i then map_option (\<lambda>r. r\<lparr>se_title := Some s, se_updated_at := now\<rparr>) (find_session j tbl)
        else find_session j tbl)"
  by (simp add: set_session_title_def find_session_update)

lemma find_session_mode [session_simps]:
  "find_session j (set_session_mode now i s tbl)
     = (if j = i then map_option (\<lambda>r. r\<lparr>se_mode := s, se_updated_at := now\<rparr>) (find_session j tbl)
        else find_session j tbl)"
  by (simp add: set_session_mode_def find_session_update)

lemma find_session_model [session_simps]:
  "find_session j (set_session_model now i p s tbl)
     = (if j = i then map_option (\<lambda>r. r\<lparr>se_provider_id := Some p, se_model := Some s, se_updated_at := now\<rparr>)
                        (find_session j tbl)
        else find_session j tbl)"
  by (simp add: set_session_model_def find_session_update)

lemma find_session_create:
  "create_session now i f m t p pr md tbl = Inr tbl' \<Longrightarrow> j \<noteq> i \<Longrightarrow> find_session j tbl' = find_session j tbl"
  unfolding create_session_def find_session_def
  by (induction tbl arbitrary: tbl') (auto split: if_splits)

text \<open>The order of the sidebar.\<close>

lemma mset_insert_newest: "mset (insert_newest r rs) = mset (r # rs)"
  by (induction rs) auto

lemma mset_newest_first: "mset (newest_first tbl) = mset tbl"
  by (induction tbl) (simp_all add: newest_first_def mset_insert_newest)

lemma set_newest_first [simp]: "set (newest_first tbl) = set tbl"
  using mset_newest_first by (metis set_mset_mset)

lemma sorted_insert_newest:
  "sorted_wrt (\<lambda>a b. se_updated_at b \<le> se_updated_at a) rs \<Longrightarrow>
   sorted_wrt (\<lambda>a b. se_updated_at b \<le> se_updated_at a) (insert_newest r rs)"
proof (induction rs)
  case (Cons x xs)
  have "set (insert_newest r xs) = insert r (set xs)"
    using mset_insert_newest [of r xs] by (metis list.simps(15) set_mset_mset)
  with Cons show ?case by (auto intro: order.trans)
qed simp

lemma sorted_newest_first: "sorted_wrt (\<lambda>a b. se_updated_at b \<le> se_updated_at a) (newest_first tbl)"
  by (induction tbl) (simp_all add: newest_first_def sorted_insert_newest)

lemma truncate_select [simp]:
  "se_id (session_row.truncate r) = se_id r"
  "se_folder (session_row.truncate r) = se_folder r"
  "se_mode (session_row.truncate r) = se_mode r"
  "se_title (session_row.truncate r) = se_title r"
  "se_status (session_row.truncate r) = se_status r"
  "se_updated_at (session_row.truncate r) = se_updated_at r"
  "se_provider_id (session_row.truncate r) = se_provider_id r"
  "se_model (session_row.truncate r) = se_model r"
  by (simp_all add: session_row.truncate_def)

lemma listed_sessions: "set (list_sessions tbl) = session_row.truncate ` {r \<in> set tbl. se_deleted_at r = None}"
  by (auto simp: list_sessions_def)

lemma deleted_session_hidden:
  assumes "sessions_ok tbl"
  shows "set (list_sessions (delete_session now i tbl)) = {r \<in> set (list_sessions tbl). se_id r \<noteq> i}"
proof -
  have "{r \<in> set (delete_session now i tbl). se_deleted_at r = None}
      = {r \<in> set tbl. se_deleted_at r = None \<and> se_id r \<noteq> i}"
    by (auto simp: delete_session_def update_session_def)
  then show ?thesis by (auto simp: listed_sessions)
qed

text \<open>The session reported as active is one, and every folder with an active session has one reported.\<close>

definition is_active :: "str \<Rightarrow> session_entry \<Rightarrow> bool" where
  "is_active folder r \<longleftrightarrow> se_folder r = folder \<and> se_status r = ''active'' \<and> se_deleted_at r = None"

lemma active_session_alt:
  "active_session_for_folder folder tbl =
     (case newest_first (filter (is_active folder) tbl) of [] \<Rightarrow> None | r # _ \<Rightarrow> Some (se_id r))"
  unfolding active_session_for_folder_def is_active_def [abs_def] ..

lemma active_session_found:
  assumes "active_session_for_folder folder tbl = Some i"
  shows "\<exists>r \<in> set tbl. se_id r = i \<and> is_active folder r"
proof (cases "newest_first (filter (is_active folder) tbl)")
  case (Cons r rs)
  then have "r \<in> set (filter (is_active folder) tbl)" by (metis list.set_intros(1) set_newest_first)
  moreover from assms Cons have "se_id r = i" by (simp add: active_session_alt)
  ultimately show ?thesis by auto
qed (use assms in \<open>simp add: active_session_alt\<close>)

lemma active_session_None_iff:
  "active_session_for_folder folder tbl = None \<longleftrightarrow> filter (is_active folder) tbl = []"
proof -
  have "newest_first (filter (is_active folder) tbl) = [] \<longleftrightarrow> filter (is_active folder) tbl = []"
    by (metis mset_newest_first mset_zero_iff)
  then show ?thesis by (cases "newest_first (filter (is_active folder) tbl)") (auto simp: active_session_alt)
qed

text \<open>A preference read back is the one set last.\<close>

lemma load_disabled_set_enabled:
  assumes "distinct (map fst ps)"
  shows "load_disabled (set_enabled n b ps) = (if b then load_disabled ps - {n} else insert n (load_disabled ps))"
    and "distinct (map fst (set_enabled n b ps))"
proof -
  have dis: "load_disabled qs = {m. map_of qs m = Some False}" if "distinct (map fst qs)" for qs :: prefs
  proof -
    have "m \<in> load_disabled qs \<longleftrightarrow> (m, False) \<in> set qs" for m
      by (force simp: load_disabled_def)
    with that show ?thesis by (simp add: set_eq_iff)
  qed
  show d: "distinct (map fst (set_enabled n b ps))"
    using assms by (simp add: set_enabled_def distinct_update)
  from dis [OF assms] dis [OF d]
  show "load_disabled (set_enabled n b ps) = (if b then load_disabled ps - {n} else insert n (load_disabled ps))"
    by (auto simp: set_enabled_def update_conv')
qed

end
