(* ===== verification/SessionManager.thy ===== *)
theory SessionManager
  imports AgentLoop "HOL-Library.AList"
begin

text \<open>
  The session manager, \<open>crates/agent/src/session.rs\<close>. A session is started by spawning its task, then
  entering its handle and spawning a watcher, which waits for the task and sets the status of the handle.
  Tasks, watchers and the calls of the client interleave, so each operation is split where the code awaits,
  and \<open>manager_run\<close> collects the states any interleaving reaches. A cancellation token is the number of its
  task. The manager is told how a task ends and which events it has sent; \<open>AgentLoop.run\<close> says how that comes about.
\<close>

section \<open>State\<close>

datatype session_status = StatusActive | StatusCompleted | StatusError str

record session_info =
  si_mode :: tool_mode
  si_project_path :: "str option"
  si_branch :: "str option"

record session_handle =
  sh_token :: nat
  sh_status :: session_status
  sh_info :: session_info

record session_summary =
  su_id :: str
  su_status :: session_status
  su_info :: session_info

text \<open>How a spawned task ends; a join error carries its message.\<close>

datatype task_result = TaskOk agent_result | TaskErr agent_error | TaskPanicked str

record session_task =
  tk_session :: str
  tk_info :: session_info
  tk_registered :: bool
  tk_result :: "task_result option"
  tk_watched :: bool
  tk_events :: "agent_event list"

record manager =
  mg_sessions :: "(str \<times> session_handle) list"
  mg_tasks :: "session_task list"
  mg_cancelled :: "nat set"

definition new_manager :: manager where
  "new_manager = \<lparr>mg_sessions = [], mg_tasks = [], mg_cancelled = {}\<rparr>"

definition task_result_of :: "str \<Rightarrow> run_outcome \<Rightarrow> task_result" where
  "task_result_of panic out =
     (case out of Finished r \<Rightarrow> TaskOk r | Failed e \<Rightarrow> TaskErr e | Panicked \<Rightarrow> TaskPanicked panic)"

section \<open>What a session is started with\<close>

definition ask_info :: "tool_mode \<Rightarrow> session_info" where
  "ask_info mode = \<lparr>si_mode = mode, si_project_path = None, si_branch = None\<rparr>"

definition coding_info :: "agent_config \<Rightarrow> str option \<Rightarrow> session_info" where
  "coding_info cfg branch =
     \<lparr>si_mode = CodingMode, si_project_path = Some (ac_working_dir cfg), si_branch = branch\<rparr>"

text \<open>The task seeds the loop before it runs it.\<close>

definition seed_loop :: "loop_env \<Rightarrow> chat_message list option \<Rightarrow> bool \<Rightarrow> nat option \<Rightarrow> loop_state \<Rightarrow> loop_state" where
  "seed_loop env initial_context is_resume initial_token_count st =
     (let st1 = (case initial_context of
                   None \<Rightarrow> st
                 | Some ms \<Rightarrow> if is_resume then with_resumed_context ms st else with_initial_context env ms st)
      in case initial_token_count of None \<Rightarrow> st1 | Some n \<Rightarrow> st1\<lparr>ls_total_tokens := n\<rparr>)"

definition seed_offset :: "u32 option \<Rightarrow> loop_env \<Rightarrow> loop_env" where
  "seed_offset turn_offset env =
     (case turn_offset of None \<Rightarrow> env | Some n \<Rightarrow> if 0 < n then env\<lparr>le_turn_offset := n\<rparr> else env)"

definition run_session ::
    "loop_env \<Rightarrow> chat_message list option \<Rightarrow> bool \<Rightarrow> nat option \<Rightarrow> u32 option \<Rightarrow> chat_message \<Rightarrow> loop_state
      \<Rightarrow> loop_state \<times> run_outcome" where
  "run_session env initial_context is_resume tokens turn_offset message st =
     run (seed_offset turn_offset env) message (seed_loop env initial_context is_resume tokens st)"

section \<open>Operations\<close>

definition map_task :: "nat \<Rightarrow> (session_task \<Rightarrow> session_task) \<Rightarrow> manager \<Rightarrow> manager" where
  "map_task n f m = m\<lparr>mg_tasks := (mg_tasks m)[n := f (mg_tasks m ! n)]\<rparr>"

definition session_handle_of :: "str \<Rightarrow> manager \<Rightarrow> session_handle option" where
  "session_handle_of sid m = map_of (mg_sessions m) sid"

text \<open>The first half of \<open>start_session_inner\<close>: the task is spawned, its handle not yet entered.\<close>

definition spawn_task :: "str \<Rightarrow> session_info \<Rightarrow> manager \<Rightarrow> manager" where
  "spawn_task sid info m =
     m\<lparr>mg_tasks := mg_tasks m @ [\<lparr>tk_session = sid, tk_info = info, tk_registered = False, tk_result = None,
         tk_watched = False, tk_events = []\<rparr>]\<rparr>"

text \<open>The second half: the handle is entered, replacing an older one, and the watcher spawned.\<close>

definition register_task :: "nat \<Rightarrow> manager \<Rightarrow> manager" where
  "register_task n m =
     (let t = mg_tasks m ! n in
      (map_task n (\<lambda>t. t\<lparr>tk_registered := True\<rparr>) m)
        \<lparr>mg_sessions := AList.update (tk_session t)
            \<lparr>sh_token = n, sh_status = StatusActive, sh_info = tk_info t\<rparr> (mg_sessions m)\<rparr>)"

definition finish_task :: "nat \<Rightarrow> agent_event list \<Rightarrow> task_result \<Rightarrow> manager \<Rightarrow> manager" where
  "finish_task n evs r = map_task n (\<lambda>t. t\<lparr>tk_result := Some r, tk_events := tk_events t @ evs\<rparr>)"

definition final_status :: "task_result \<Rightarrow> session_status" where
  "final_status r =
     (case r of
        TaskOk _ \<Rightarrow> StatusCompleted
      | TaskErr e \<Rightarrow> if e = Cancelled then StatusError ''Cancelled'' else StatusError (show_error e)
      | TaskPanicked e \<Rightarrow> StatusError (''Task panicked: '' @ e))"

definition watcher_events :: "str \<Rightarrow> task_result \<Rightarrow> agent_event list" where
  "watcher_events sid r =
     (case r of
        TaskOk _ \<Rightarrow> []
      | TaskErr e \<Rightarrow>
          if e = Cancelled then [] else [ErrorEvent sid (show_error e) False, DoneEvent sid None]
      | TaskPanicked e \<Rightarrow> [ErrorEvent sid (''Agent task panicked: '' @ e) False, DoneEvent sid None])"

definition set_status :: "str \<Rightarrow> session_status \<Rightarrow> manager \<Rightarrow> manager" where
  "set_status sid s m =
     (case session_handle_of sid m of
        None \<Rightarrow> m
      | Some h \<Rightarrow> m\<lparr>mg_sessions := AList.update sid (h\<lparr>sh_status := s\<rparr>) (mg_sessions m)\<rparr>)"

text \<open>The watcher, once the task has ended. Its end drops the last sender of the events.\<close>

definition watch_task :: "nat \<Rightarrow> manager \<Rightarrow> manager" where
  "watch_task n m =
     (let t = mg_tasks m ! n in
      case tk_result t of
        None \<Rightarrow> m
      | Some r \<Rightarrow>
          set_status (tk_session t) (final_status r)
            (map_task n (\<lambda>t. t\<lparr>tk_watched := True,
                tk_events := tk_events t @ watcher_events (tk_session t) r\<rparr>) m))"

definition cancel_session :: "str \<Rightarrow> manager \<Rightarrow> manager" where
  "cancel_session sid m =
     (case session_handle_of sid m of
        None \<Rightarrow> m
      | Some h \<Rightarrow> m\<lparr>mg_cancelled := insert (sh_token h) (mg_cancelled m)\<rparr>)"

definition get_status :: "str \<Rightarrow> manager \<Rightarrow> session_status option" where
  "get_status sid m = map_option sh_status (session_handle_of sid m)"

definition list_handles :: "manager \<Rightarrow> session_summary list" where
  "list_handles m = map (\<lambda>(sid, h). \<lparr>su_id = sid, su_status = sh_status h, su_info = sh_info h\<rparr>) (mg_sessions m)"

definition remove_session :: "str \<Rightarrow> manager \<Rightarrow> manager" where
  "remove_session sid m = (cancel_session sid m)\<lparr>mg_sessions := AList.delete sid (mg_sessions m)\<rparr>"

section \<open>Interleavings\<close>

definition live_task :: "manager \<Rightarrow> nat \<Rightarrow> bool" where
  "live_task m n \<longleftrightarrow> n < length (mg_tasks m) \<and> \<not> tk_watched (mg_tasks m ! n)"

inductive manager_step :: "(str \<Rightarrow> manager \<Rightarrow> bool) \<Rightarrow> manager \<Rightarrow> manager \<Rightarrow> bool" for may_start where
  spawned: "may_start sid m \<Longrightarrow> manager_step may_start m (spawn_task sid info m)"
| registered: "n < length (mg_tasks m) \<Longrightarrow> \<not> tk_registered (mg_tasks m ! n) \<Longrightarrow>
     manager_step may_start m (register_task n m)"
| finished: "n < length (mg_tasks m) \<Longrightarrow> tk_result (mg_tasks m ! n) = None \<Longrightarrow>
     manager_step may_start m (finish_task n evs r m)"
| watched: "live_task m n \<Longrightarrow> tk_registered (mg_tasks m ! n) \<Longrightarrow> tk_result (mg_tasks m ! n) \<noteq> None \<Longrightarrow>
     manager_step may_start m (watch_task n m)"
| cancelled: "manager_step may_start m (cancel_session sid m)"
| removed: "manager_step may_start m (remove_session sid m)"

inductive manager_run :: "(str \<Rightarrow> manager \<Rightarrow> bool) \<Rightarrow> manager \<Rightarrow> bool" for may_start where
  new: "manager_run may_start new_manager"
| step: "manager_run may_start m \<Longrightarrow> manager_step may_start m m' \<Longrightarrow> manager_run may_start m'"

text \<open>The discipline of a client that starts a session again only when its last task has been watched.\<close>

definition quiet :: "str \<Rightarrow> manager \<Rightarrow> bool" where
  "quiet sid m \<longleftrightarrow> (\<forall>t \<in> set (mg_tasks m). tk_session t = sid \<longrightarrow> tk_watched t)"

end
