(* ===== verification/Providers.thy ===== *)
theory Providers
  imports Anthropic Compaction
begin

text \<open>
  Model providers and selections: the provider part of
  \<open>apps/desktop/src-tauri/src/agent_bridge/commands.rs\<close> and the model registry,
  \<open>crates/agent/src/agent/model_profile.rs\<close>. The settings hold what their JSON text stands for: \<open>None\<close> is a key
  that is missing or does not parse. Metadata of models are association lists in the order of their keys, so
  that equal maps are equal lists. Fresh ids and the answers of a provider's server are parameters.
\<close>

section \<open>Model registry\<close>

record model_profile =
  mp_id :: str
  mp_display_name :: str
  mp_provider :: str
  mp_context_window :: nat
  mp_images :: bool
  mp_videos :: bool
  mp_thinking :: "str list"

record model_registry =
  mr_profiles :: "str \<Rightarrow> model_profile option"
  mr_order :: "str list"

definition empty_registry :: model_registry where
  "empty_registry = \<lparr>mr_profiles = (\<lambda>_. None), mr_order = []\<rparr>"

definition merge_profile :: "model_profile \<Rightarrow> model_registry \<Rightarrow> model_registry" where
  "merge_profile m reg =
     \<lparr>mr_profiles = (mr_profiles reg)(mp_id m \<mapsto> m),
      mr_order = (if mr_profiles reg (mp_id m) = None then mr_order reg @ [mp_id m] else mr_order reg)\<rparr>"

definition merge_profiles :: "model_profile list \<Rightarrow> model_registry \<Rightarrow> model_registry" where
  "merge_profiles ms reg = fold merge_profile ms reg"

definition registry_get :: "model_registry \<Rightarrow> str \<Rightarrow> model_profile option" where
  "registry_get reg i = mr_profiles reg i"

definition default_context_window :: nat where "default_context_window = 128000"

definition context_window_for :: "model_registry \<Rightarrow> str \<Rightarrow> nat" where
  "context_window_for reg i =
     (case registry_get reg i of None \<Rightarrow> default_context_window | Some p \<Rightarrow> mp_context_window p)"

definition registry_list :: "model_registry \<Rightarrow> model_profile list" where
  "registry_list reg = List.map_filter (mr_profiles reg) (mr_order reg)"

definition profile_full :: "str \<Rightarrow> str \<Rightarrow> str \<Rightarrow> nat \<Rightarrow> bool \<Rightarrow> bool \<Rightarrow> str list \<Rightarrow> model_profile" where
  "profile_full i name provider ctx images videos thinking =
     \<lparr>mp_id = i, mp_display_name = name, mp_provider = provider, mp_context_window = ctx, mp_images = images,
      mp_videos = videos, mp_thinking = thinking\<rparr>"

definition profile :: "str \<Rightarrow> str \<Rightarrow> str \<Rightarrow> nat \<Rightarrow> bool \<Rightarrow> model_profile" where
  "profile i name provider ctx vision = profile_full i name provider ctx vision False []"

definition default_profiles :: "model_profile list" where
  "default_profiles =
    [profile ''claude-opus-4-8'' ''Claude Opus 4.8'' ''anthropic'' 1000000 True,
     profile ''claude-opus-4-7'' ''Claude Opus 4.7'' ''anthropic'' 1000000 True,
     profile ''claude-opus-4-6'' ''Claude Opus 4.6'' ''anthropic'' 1000000 True,
     profile ''claude-sonnet-4-6'' ''Claude Sonnet 4.6'' ''anthropic'' 1000000 True,
     profile ''claude-haiku-4-5'' ''Claude Haiku 4.5'' ''anthropic'' 200000 True,
     profile_full ''MiniMax-M3'' ''MiniMax-M3'' ''minimax'' 1000000 True True [''adaptive'', ''disabled''],
     profile_full ''MiniMax-M2.7'' ''MiniMax-M2.7'' ''minimax'' 204800 False False [''always_on''],
     profile ''gpt-5.5'' ''GPT-5.5'' ''openai'' 1000000 True,
     profile ''gpt-5.4'' ''GPT-5.4'' ''openai'' 1000000 True,
     profile ''gpt-5.4-mini'' ''GPT-5.4 Mini'' ''openai'' 400000 True,
     profile ''gpt-5.4-nano'' ''GPT-5.4 Nano'' ''openai'' 400000 True,
     profile ''gpt-5.2'' ''GPT-5.2'' ''openai'' 400000 True,
     profile ''gpt-5.1'' ''GPT-5.1'' ''openai'' 400000 True,
     profile ''gpt-5'' ''GPT-5'' ''openai'' 400000 True,
     profile ''gpt-5-mini'' ''GPT-5 Mini'' ''openai'' 400000 True,
     profile ''gpt-5-nano'' ''GPT-5 Nano'' ''openai'' 400000 True,
     profile ''gpt-4.1'' ''GPT-4.1'' ''openai'' 1000000 True,
     profile ''gpt-4.1-mini'' ''GPT-4.1 Mini'' ''openai'' 1000000 True,
     profile ''gpt-4o'' ''GPT-4o'' ''openai'' 128000 True,
     profile ''gpt-4o-mini'' ''GPT-4o Mini'' ''openai'' 128000 True]"

definition default_registry :: model_registry where
  "default_registry = merge_profiles default_profiles empty_registry"

section \<open>Providers\<close>

record model_meta =
  mm_context_length :: "nat option"
  mm_images :: bool
  mm_videos :: bool
  mm_thinking :: "str list"

record provider_config =
  pc_id :: str
  pc_kind :: str
  pc_wire_format :: "str option"
  pc_builtin :: bool
  pc_label :: str
  pc_base_url :: str
  pc_api_key :: str
  pc_models :: "str list"
  pc_model_meta :: "(str \<times> model_meta) list"
  pc_images :: bool
  pc_videos :: bool

record model_ref =
  mf_provider_id :: str
  mf_model :: str

record model_selection =
  ms_active :: "model_ref option"
  ms_compaction :: "model_ref option"
  ms_title :: "model_ref option"

definition provider_of :: "provider_config \<Rightarrow> provider" where
  "provider_of p =
     (let format = (case pc_wire_format p of None \<Rightarrow> pc_kind p | Some w \<Rightarrow> w)
      in if format = ''messages'' \<or> format = ''anthropic'' then Anthropic else OpenAI)"

definition is_builtin :: "provider_config \<Rightarrow> bool" where
  "is_builtin p \<longleftrightarrow> pc_builtin p \<or> pc_kind p = ''openai'' \<or> pc_kind p = ''anthropic''"

definition minimax_model_meta :: "(str \<times> model_meta) list" where
  "minimax_model_meta =
     [(''MiniMax-M2.7'', \<lparr>mm_context_length = Some 204800, mm_images = False, mm_videos = False, mm_thinking = [''always_on'']\<rparr>),
      (''MiniMax-M3'', \<lparr>mm_context_length = Some 1000000, mm_images = True, mm_videos = True,
         mm_thinking = [''adaptive'', ''disabled'']\<rparr>)]"

definition minimax_provider :: "str \<Rightarrow> str \<Rightarrow> str \<Rightarrow> str \<Rightarrow> provider_config" where
  "minimax_provider i label base_url wire_format =
     \<lparr>pc_id = i, pc_kind = ''minimax'', pc_wire_format = Some wire_format, pc_builtin = True, pc_label = label,
      pc_base_url = base_url, pc_api_key = [], pc_models = [''MiniMax-M3'', ''MiniMax-M2.7''],
      pc_model_meta = minimax_model_meta, pc_images = False, pc_videos = False\<rparr>"

definition default_providers :: "provider_config list" where
  "default_providers =
    [\<lparr>pc_id = ''openai'', pc_kind = ''openai'', pc_wire_format = None, pc_builtin = True, pc_label = [],
      pc_base_url = ''https://api.openai.com/v1'', pc_api_key = [], pc_models = [], pc_model_meta = [],
      pc_images = False, pc_videos = False\<rparr>,
     \<lparr>pc_id = ''anthropic'', pc_kind = ''anthropic'', pc_wire_format = None, pc_builtin = True, pc_label = [],
      pc_base_url = ''https://api.anthropic.com'', pc_api_key = [], pc_models = [], pc_model_meta = [],
      pc_images = False, pc_videos = False\<rparr>,
     \<lparr>pc_id = ''qwen-local'', pc_kind = ''ollama'', pc_wire_format = None, pc_builtin = False,
      pc_label = ''Qwen2.5-Coder (local)'', pc_base_url = ''http://localhost:11434/v1'', pc_api_key = ''ollama'',
      pc_models = [''qwen2.5-coder:7b-instruct''],
      pc_model_meta = [(''qwen2.5-coder:7b-instruct'',
         \<lparr>mm_context_length = Some 32768, mm_images = False, mm_videos = False, mm_thinking = []\<rparr>)],
      pc_images = False, pc_videos = False\<rparr>,
     minimax_provider ''minimax-global-chat'' ''MiniMax Global (Chat)'' ''https://api.minimax.io/v1'' ''chat'',
     minimax_provider ''minimax-global-messages'' ''MiniMax Global (Messages)'' ''https://api.minimax.io/anthropic'' ''messages'',
     minimax_provider ''minimax-cn-chat'' ''MiniMax China (Chat)'' ''https://api.minimaxi.com/v1'' ''chat'',
     minimax_provider ''minimax-cn-messages'' ''MiniMax China (Messages)'' ''https://api.minimaxi.com/anthropic'' ''messages'']"

definition merge_builtin :: "provider_config \<Rightarrow> provider_config \<Rightarrow> provider_config" where
  "merge_builtin existing builtin =
     (if \<not> pc_builtin builtin then existing
      else builtin\<lparr>pc_base_url := pc_base_url existing, pc_api_key := pc_api_key existing,
              pc_models := pc_models existing\<rparr>)"

section \<open>Settings\<close>

record app_settings =
  st_providers :: "provider_config list option"
  st_selection :: "model_selection option"

definition find_provider :: "str \<Rightarrow> provider_config list \<Rightarrow> provider_config option" where
  "find_provider i ps = find (\<lambda>p. pc_id p = i) ps"

definition stored_providers :: "app_settings \<Rightarrow> provider_config list" where
  "stored_providers s = (case st_providers s of None \<Rightarrow> [] | Some ps \<Rightarrow> ps)"

definition canonical_row :: "provider_config list \<Rightarrow> provider_config \<Rightarrow> provider_config" where
  "canonical_row stored builtin =
     (case find_provider (pc_id builtin) stored of
        None \<Rightarrow> builtin
      | Some existing \<Rightarrow> merge_builtin existing builtin)"

fun add_custom :: "provider_config list \<Rightarrow> provider_config list \<Rightarrow> provider_config list" where
  "add_custom acc [] = acc"
| "add_custom acc (p # ps) =
     add_custom (if \<not> is_builtin p \<and> \<not> (\<exists>x \<in> set acc. pc_id x = pc_id p) then acc @ [p] else acc) ps"

definition providers_list :: "app_settings \<Rightarrow> provider_config list" where
  "providers_list s =
     add_custom (map (canonical_row (stored_providers s)) default_providers) (stored_providers s)"

definition providers_changed :: "app_settings \<Rightarrow> bool" where
  "providers_changed s \<longleftrightarrow>
     (\<exists>b \<in> set default_providers. find_provider (pc_id b) (stored_providers s) \<noteq> Some (canonical_row (stored_providers s) b))"

definition write_providers :: "provider_config list \<Rightarrow> app_settings \<Rightarrow> app_settings" where
  "write_providers ps s = s\<lparr>st_providers := Some ps\<rparr>"

definition read_providers :: "app_settings \<Rightarrow> provider_config list \<times> app_settings" where
  "read_providers s =
     (providers_list s, if providers_changed s then write_providers (providers_list s) s else s)"

definition read_selection :: "app_settings \<Rightarrow> model_selection" where
  "read_selection s =
     (case st_selection s of
        None \<Rightarrow> \<lparr>ms_active = None, ms_compaction = None, ms_title = None\<rparr>
      | Some sel \<Rightarrow> sel)"

definition write_selection :: "model_selection \<Rightarrow> app_settings \<Rightarrow> app_settings" where
  "write_selection sel s = s\<lparr>st_selection := Some sel\<rparr>"

section \<open>Resolving a model\<close>

text \<open>Reading the providers also stores the list read; \<open>read_providers_canonical\<close> says that this changes no later
  reading, so resolving is a function of the settings.\<close>

definition provider_by_id :: "app_settings \<Rightarrow> str \<Rightarrow> provider_config option" where
  "provider_by_id s i = find_provider i (providers_list s)"

definition resolve_ref :: "app_settings \<Rightarrow> model_ref \<Rightarrow> (provider_config \<times> str) option" where
  "resolve_ref s r = map_option (\<lambda>p. (p, mf_model r)) (provider_by_id s (mf_provider_id r))"

definition default_session_model :: "app_settings \<Rightarrow> model_ref option" where
  "default_session_model s =
     (let first = map_option (\<lambda>p. \<lparr>mf_provider_id = pc_id p, mf_model = hd (pc_models p)\<rparr>)
                    (find (\<lambda>p. pc_models p \<noteq> []) (providers_list s))
      in case ms_active (read_selection s) of
           Some a \<Rightarrow> if provider_by_id s (mf_provider_id a) \<noteq> None then Some a else first
         | None \<Rightarrow> first)"

definition no_model_msg :: str where
  "no_model_msg = ''No model selected. Pick one in Settings / the model picker.''"

definition session_model :: "app_settings \<Rightarrow> str option \<Rightarrow> str option \<Rightarrow> str + (provider_config \<times> str)" where
  "session_model s provider_id model =
     (let fallback = (case Option.bind (default_session_model s) (resolve_ref s) of
                        None \<Rightarrow> Inl no_model_msg | Some pm \<Rightarrow> Inr pm)
      in case (provider_id, model) of
           (Some pid, Some m) \<Rightarrow> (case provider_by_id s pid of Some p \<Rightarrow> Inr (p, m) | None \<Rightarrow> fallback)
         | _ \<Rightarrow> fallback)"

definition provider_to_llm_config :: "provider_config \<Rightarrow> str \<Rightarrow> llm_client_config" where
  "provider_to_llm_config p model =
     \<lparr>lc_provider = provider_of p, lc_base_url = pc_base_url p, lc_model = model, lc_api_key = pc_api_key p,
      lc_temperature = None, lc_max_completion_tokens = None, lc_extra_headers = [],
      lc_thinking = (case map_of (pc_model_meta p) model of
                       Some meta \<Rightarrow> if ''adaptive'' \<in> set (mm_thinking meta)
                                   then Some (JObj [(''type'', JStr ''adaptive'')]) else None
                     | None \<Rightarrow> None),
      lc_disable_cache_control = False, lc_policy = default_llm_policy\<rparr>"

record model_capability =
  ca_context_limit :: "nat option"
  ca_images :: bool
  ca_videos :: bool
  ca_thinking :: "str list"
  ca_source :: str

definition resolve_capability :: "model_registry \<Rightarrow> provider_config \<Rightarrow> str \<Rightarrow> model_capability" where
  "resolve_capability reg provider model =
     (case registry_get reg model of
        Some p \<Rightarrow> \<lparr>ca_context_limit = Some (mp_context_window p), ca_images = mp_images p, ca_videos = mp_videos p,
                   ca_thinking = mp_thinking p, ca_source = ''known''\<rparr>
      | None \<Rightarrow>
          (let meta = map_of (pc_model_meta provider) model;
               context_limit = Option.bind meta mm_context_length
           in \<lparr>ca_context_limit = context_limit,
               ca_images = (case meta of None \<Rightarrow> False | Some m \<Rightarrow> mm_images m) \<or> pc_images provider,
               ca_videos = (case meta of None \<Rightarrow> False | Some m \<Rightarrow> mm_videos m) \<or> pc_videos provider,
               ca_thinking = (case meta of None \<Rightarrow> [] | Some m \<Rightarrow> mm_thinking m),
               ca_source = (if context_limit \<noteq> None then ''discovered'' else ''unknown'')\<rparr>))"

text \<open>The part of \<open>build_agent_config\<close> that sizes the context.\<close>

definition size_context :: "nat option \<Rightarrow> compaction_config \<Rightarrow> compaction_config" where
  "size_context context_limit cfg =
     (case context_limit of
        Some n \<Rightarrow> cfg\<lparr>cc_context_limit := n, cc_auto_compact := True\<rparr>
      | None \<Rightarrow> cfg\<lparr>cc_auto_compact := False\<rparr>)"

section \<open>Commands\<close>

definition builtin_exists_msg :: str where
  "builtin_exists_msg = ''Built-in providers already exist; add an OpenAI-compatible one''"

definition add_provider :: "str \<Rightarrow> provider_config \<Rightarrow> app_settings \<Rightarrow> (str + provider_config) \<times> app_settings" where
  "add_provider fresh provider s =
     (let (providers, s1) = read_providers s;
          p = (if trim (pc_id provider) = [] then provider\<lparr>pc_id := fresh\<rparr> else provider)
      in if is_builtin p then (Inl builtin_exists_msg, s1)
         else (Inr p, write_providers (providers @ [p]) s1))"

fun replace_provider :: "provider_config \<Rightarrow> provider_config list \<Rightarrow> provider_config list" where
  "replace_provider provider [] = []"
| "replace_provider provider (p # ps) =
     (if pc_id p = pc_id provider then provider # ps else p # replace_provider provider ps)"

definition update_provider :: "provider_config \<Rightarrow> app_settings \<Rightarrow> (str + unit) \<times> app_settings" where
  "update_provider provider s =
     (let (providers, s1) = read_providers s in
      case find_provider (pc_id provider) providers of
        None \<Rightarrow> (Inl (''Provider not found: '' @ pc_id provider), s1)
      | Some _ \<Rightarrow> (Inr (), write_providers (replace_provider provider providers) s1))"

definition clear_ref :: "str \<Rightarrow> model_ref option \<Rightarrow> model_ref option" where
  "clear_ref i r = (case r of Some x \<Rightarrow> if mf_provider_id x = i then None else r | None \<Rightarrow> None)"

definition builtin_undeletable_msg :: str where
  "builtin_undeletable_msg = ''Built-in providers can'' @ [QUOTE] @ ''t be deleted''"

definition delete_provider :: "str \<Rightarrow> app_settings \<Rightarrow> (str + unit) \<times> app_settings" where
  "delete_provider i s =
     (let (providers, s1) = read_providers s in
      if \<exists>p \<in> set providers. pc_id p = i \<and> is_builtin p then (Inl builtin_undeletable_msg, s1)
      else
        let s2 = write_providers (filter (\<lambda>p. pc_id p \<noteq> i) providers) s1; sel = read_selection s2
        in (Inr (), write_selection
              \<lparr>ms_active = clear_ref i (ms_active sel), ms_compaction = clear_ref i (ms_compaction sel),
               ms_title = clear_ref i (ms_title sel)\<rparr> s2))"

definition set_model_selection :: "str \<Rightarrow> str \<Rightarrow> str \<Rightarrow> app_settings \<Rightarrow> (str + unit) \<times> app_settings" where
  "set_model_selection role provider_id model s =
     (let (providers, s1) = read_providers s in
      if find_provider provider_id providers = None then (Inl (''Provider not found: '' @ provider_id), s1)
      else
        let sel = read_selection s1; r = Some \<lparr>mf_provider_id = provider_id, mf_model = model\<rparr> in
        if role = ''active'' then (Inr (), write_selection (sel\<lparr>ms_active := r\<rparr>) s1)
        else if role = ''compaction'' then (Inr (), write_selection (sel\<lparr>ms_compaction := r\<rparr>) s1)
        else if role = ''title'' then (Inr (), write_selection (sel\<lparr>ms_title := r\<rparr>) s1)
        else (Inl (''Unknown selection role: '' @ role), s1))"

section \<open>The models a provider offers\<close>

record fetched_model =
  fm_id :: str
  fm_context_length :: "nat option"

text \<open>An optional number of a struct: absent or null, a number in range, or an error.\<close>

definition opt_usize :: "json \<Rightarrow> str \<Rightarrow> nat option option" where
  "opt_usize v k =
     (case json_get v k of
        None \<Rightarrow> Some None
      | Some JNull \<Rightarrow> Some None
      | Some (JNum (PosInt n)) \<Rightarrow> Some (Some (unat n))
      | Some _ \<Rightarrow> None)"

definition model_entry :: "json \<Rightarrow> fetched_model option" where
  "model_entry v =
     Option.bind (as_object v) (\<lambda>_.
     Option.bind (json_get v ''id'') (\<lambda>i. Option.bind (as_str i) (\<lambda>i.
     Option.bind (opt_usize v ''context_length'') (\<lambda>c.
     Option.bind (opt_usize v ''max_context_length'') (\<lambda>m.
       Some \<lparr>fm_id = i, fm_context_length = (case c of None \<Rightarrow> m | Some n \<Rightarrow> Some n)\<rparr>)))))"

definition ollama_entry :: "json \<Rightarrow> fetched_model option" where
  "ollama_entry v =
     Option.bind (as_object v) (\<lambda>_.
     Option.bind (json_get v ''name'') (\<lambda>n. Option.bind (as_str n) (\<lambda>n.
       Some \<lparr>fm_id = n, fm_context_length = None\<rparr>)))"

text \<open>A struct with one list: an error in one entry is an error of the whole.\<close>

definition entry_list :: "(json \<Rightarrow> fetched_model option) \<Rightarrow> str \<Rightarrow> json \<Rightarrow> fetched_model list option" where
  "entry_list entry k v =
     (if as_object v = None then None
      else case json_get v k of
        None \<Rightarrow> Some []
      | Some a \<Rightarrow> Option.bind (as_array a) (\<lambda>xs. those (map entry xs)))"

definition as_u64 :: "json \<Rightarrow> nat option" where
  "as_u64 v = (case v of JNum (PosInt n) \<Rightarrow> Some (unat n) | _ \<Rightarrow> None)"

definition loose_entry :: "json \<Rightarrow> fetched_model option" where
  "loose_entry item =
     (case as_str item of
        Some s \<Rightarrow> Some \<lparr>fm_id = s, fm_context_length = None\<rparr>
      | None \<Rightarrow>
          if as_object item = None then None
          else
            let key = (\<lambda>k. Option.bind (json_get item k) as_str); num = (\<lambda>k. Option.bind (json_get item k) as_u64) in
            map_option (\<lambda>i. \<lparr>fm_id = i, fm_context_length =
                (case num ''context_length'' of None \<Rightarrow> num ''max_context_length'' | Some n \<Rightarrow> Some n)\<rparr>)
              (case key ''id'' of Some i \<Rightarrow> Some i
               | None \<Rightarrow> (case key ''name'' of Some i \<Rightarrow> Some i | None \<Rightarrow> key ''model'')))"

definition shape_error :: str where "shape_error = ''Unexpected models response shape''"

definition loose_list :: "json \<Rightarrow> json list option" where
  "loose_list v =
     (case Option.bind (json_get v ''models'') as_array of
        Some a \<Rightarrow> Some a
      | None \<Rightarrow> (case Option.bind (json_get v ''data'') as_array of Some a \<Rightarrow> Some a | None \<Rightarrow> as_array v))"

definition parse_fetched_models :: "(str \<Rightarrow> json option) \<Rightarrow> str \<Rightarrow> str + fetched_model list" where
  "parse_fetched_models parse body =
     (case parse body of
        None \<Rightarrow> Inl shape_error
      | Some v \<Rightarrow>
          (case entry_list model_entry ''data'' v of
             Some (m # ms) \<Rightarrow> Inr (m # ms)
           | _ \<Rightarrow>
               (case entry_list ollama_entry ''models'' v of
                  Some (m # ms) \<Rightarrow> Inr (m # ms)
                | _ \<Rightarrow>
                    (case loose_list v of
                       None \<Rightarrow> Inl shape_error
                     | Some arr \<Rightarrow>
                         (case List.map_filter loose_entry arr of [] \<Rightarrow> Inl shape_error | m # ms \<Rightarrow> Inr (m # ms))))))"

definition models_candidate_urls :: "provider_config \<Rightarrow> str list" where
  "models_candidate_urls p =
     (let base = trim_end_char SLASH (pc_base_url p) in
      case provider_of p of
        Anthropic \<Rightarrow> [base @ ''/v1/models'']
      | OpenAI \<Rightarrow>
          [base @ ''/models''] @
          (if pc_kind p = ''ollama''
           then [(case strip_suffix base ''/v1'' of None \<Rightarrow> base | Some r \<Rightarrow> r) @ ''/api/tags'']
           else []))"

text \<open>The answer to one request: a failure to send, a status without success, a body that cannot be read, or a body.\<close>

datatype probe_answer = SendFailed str | BadStatus str | Unreadable str | Body str

fun fetch_models :: "(str \<Rightarrow> json option) \<Rightarrow> (str \<Rightarrow> probe_answer) \<Rightarrow> str list \<Rightarrow> str option \<Rightarrow> str option
    \<Rightarrow> str + fetched_model list" where
  "fetch_models parse ask [] last_status last_err =
     (case last_status of
        Some status \<Rightarrow> Inl (''Models endpoint returned '' @ status)
      | None \<Rightarrow> Inl (case last_err of None \<Rightarrow> shape_error | Some e \<Rightarrow> e))"
| "fetch_models parse ask (url # urls) last_status last_err =
     (case ask url of
        SendFailed e \<Rightarrow> fetch_models parse ask urls last_status (Some (''Request failed: '' @ e))
      | BadStatus status \<Rightarrow> fetch_models parse ask urls (Some status) last_err
      | Unreadable e \<Rightarrow> Inl (''Failed to read response: '' @ e)
      | Body body \<Rightarrow>
          (case parse_fetched_models parse body of
             Inr ms \<Rightarrow> if ms \<noteq> [] then Inr ms else fetch_models parse ask urls last_status last_err
           | Inl _ \<Rightarrow> fetch_models parse ask urls last_status last_err))"

definition fetch_provider_models :: "(str \<Rightarrow> json option) \<Rightarrow> (str \<Rightarrow> probe_answer) \<Rightarrow> provider_config \<Rightarrow> str + fetched_model list" where
  "fetch_provider_models parse ask p = fetch_models parse ask (models_candidate_urls p) None None"

section \<open>Titles\<close>

definition title_prefixes :: "str list" where
  "title_prefixes = [''Title:'', ''title:'', ''Title -'', ''Session:'']"

definition strip_title_prefix :: "str \<Rightarrow> str \<Rightarrow> str" where
  "strip_title_prefix prefix t = (case strip_prefix t prefix of None \<Rightarrow> t | Some r \<Rightarrow> trim r)"

definition refusal_starts :: "str list" where
  "refusal_starts = [''i '', ''i'' @ [QUOTE] @ ''m'', ''i need'', ''sorry'', ''could you'', ''can you'', ''please'']"

text \<open>\<open>lower\<close> stands for the Unicode \<open>to_lowercase\<close>.\<close>

definition clean_title :: "(str \<Rightarrow> str) \<Rightarrow> str \<Rightarrow> str option" where
  "clean_title lower raw =
     (let t1 = trim (trim_char DQUOTE (trim raw));
          t2 = trim (case str_lines t1 of [] \<Rightarrow> [] | l # _ \<Rightarrow> l);
          t3 = fold strip_title_prefix title_prefixes t2;
          t = trim (trim_char DQUOTE t3);
          l = lower t
      in if t = [] then None
         else if ends_with t ''?'' \<or> 10 < length (split_whitespace t)
            \<or> list_ex (starts_with l) refusal_starts
            \<or> contains l ''more context'' \<or> contains l ''provide more''
         then None
         else Some (take_chars 60 t))"

end
