(* ===== verification/Desktop.thy ===== *)
theory Desktop
  imports SessionTable SessionManager Resume Providers Permissions
begin

text \<open>
  The life of a session in the desktop application: \<open>AgentState\<close> and the commands of
  \<open>apps/desktop/src-tauri/src/agent_bridge/commands.rs\<close> that send a message, cancel, delete, restore a checkpoint and
  rewind to a message. \<open>run_agent_turn\<close> claims the folder of the session, prepares the run, starts it and
  leaves a monitor behind that frees the folder when the relay of the events ends; tasks and commands
  interleave, so it is split where other commands can come between, and \<open>desktop_step\<close> has one rule for each
  piece. What happens inside a run (messages, files, checkpoints) is the business of the loop: here a working
  task may change these in any way.
\<close>

section \<open>State\<close>

text \<open>
  A call of \<open>run_agent_turn\<close> with what it has spawned: it has claimed the folder; has failed and spawned the
  release, or failed without; its task is spawned, then registered; its relay runs; its monitor has freed the
  folder; it is over.
\<close>

datatype turn_phase = Claimed | Releasing | Leaked | Spawned nat | Registered nat | Relaying nat | Unlocked | Over

record agent_turn =
  at_session :: str
  at_folder :: str
  at_phase :: turn_phase

record desktop =
  dk_sessions :: session_table
  dk_store :: app_store
  dk_checkpoints :: ck_store
  dk_manager :: manager
  dk_running :: "str set"
  dk_handlers :: "str \<Rightarrow> permission_config option"
  dk_turns :: "agent_turn list"

record desktop_env =
  dv_settings :: app_settings
  dv_registry :: model_registry
  dv_json :: json_text
  dv_media :: media_env
  dv_permissions :: "str \<Rightarrow> permission_config"

section \<open>Preparing a run\<close>

definition parse_mode :: "str \<Rightarrow> tool_mode" where
  "parse_mode mode =
     (if mode = ''plan'' then PlanMode else if mode = ''coding'' then CodingMode
      else if mode = ''freestyle'' then FreestyleMode else if mode = ''harness'' then HarnessMode
      else if mode = ''cowork'' then CoworkMode else AskMode)"

definition autonomous :: "tool_mode \<Rightarrow> bool" where
  "autonomous mode \<longleftrightarrow> mode \<in> {FreestyleMode, HarnessMode, CoworkMode}"

definition codes :: "tool_mode \<Rightarrow> bool" where
  "codes mode \<longleftrightarrow> mode = CodingMode \<or> autonomous mode"

text \<open>The autonomous modes approve every call.\<close>

definition turn_permissions :: "tool_mode \<Rightarrow> permission_config \<Rightarrow> permission_config" where
  "turn_permissions mode cfg =
     (if autonomous mode
      then \<lparr>pc_project_path = None, pc_level = AutoApproveAll, pc_tool_overrides = None\<rparr> else cfg)"

definition turn_iterations :: "tool_mode \<Rightarrow> u32 \<Rightarrow> u32" where
  "turn_iterations mode n = (if autonomous mode then max n 250 else n)"

text \<open>The numbering of turns goes on after the last checkpoint listed.\<close>

definition turn_offset :: "ck_store \<Rightarrow> str \<Rightarrow> u32" where
  "turn_offset cks sid =
     (case list_checkpoints cks sid of
        Inr (t # ts) \<Rightarrow> ti_turn (last (t # ts))
      | _ \<Rightarrow> 0)"

record turn_start =
  ts_info :: session_info
  ts_provider :: provider_config
  ts_model :: str
  ts_context_limit :: "nat option"
  ts_context :: "chat_message list option"
  ts_tokens :: "nat option"
  ts_offset :: "u32 option"

definition turn_info_of :: "tool_mode \<Rightarrow> str \<Rightarrow> session_info" where
  "turn_info_of mode folder =
     (if codes mode then \<lparr>si_mode = CodingMode, si_project_path = Some folder, si_branch = None\<rparr>
      else ask_info mode)"

text \<open>Prior context, token count and turn offset are loaded; \<open>load_failure\<close> is the error of the database, if any.\<close>

definition load_turn :: "desktop_env \<Rightarrow> str option \<Rightarrow> session_row \<Rightarrow> provider_config \<Rightarrow> str \<Rightarrow> desktop \<Rightarrow> str + turn_start" where
  "load_turn env load_failure row provider model st =
     (case load_failure of
        Some e \<Rightarrow> Inl (''Failed to load context: '' @ e)
      | None \<Rightarrow>
          (let mode = parse_mode (se_mode row); sid = se_id row;
               prior = deserialize_context (dv_json env) (dv_media env) (as_disk (dk_store st))
                         (load_session_for_context (dv_json env) sid 500 (as_table (dk_store st)));
               offset = turn_offset (dk_checkpoints st) sid
           in Inr \<lparr>ts_info = turn_info_of mode (se_folder row), ts_provider = provider, ts_model = model,
                ts_context_limit = ca_context_limit (resolve_capability (dv_registry env) provider model),
                ts_context = (if prior = [] then None else Some prior),
                ts_tokens = map_option (\<lambda>(t, _, _). unat t)
                              (get_context_usage (dv_json env) sid (as_table (dk_store st))),
                ts_offset = (if codes mode \<and> 0 < offset then Some offset else None)\<rparr>))"

text \<open>
  What \<open>run_agent_turn\<close> does before it starts the session: \<open>Inl (released, e)\<close> is an error with or without a
  release of the folder.
\<close>

definition prepare_turn :: "desktop_env \<Rightarrow> str option \<Rightarrow> session_row \<Rightarrow> desktop \<Rightarrow> (bool \<times> str) + turn_start" where
  "prepare_turn env load_failure row st =
     (if \<not> path_exists (as_disk (dk_store st)) (components (se_folder row))
      then Inl (True, ''Folder does not exist: '' @ se_folder row)
      else case session_model (dv_settings env) (se_provider_id row) (se_model row) of
        Inl e \<Rightarrow> Inl (True, e)
      | Inr (provider, model) \<Rightarrow>
          (case load_turn env load_failure row provider model st of
             Inl e \<Rightarrow> Inl (False, e)
           | Inr ts \<Rightarrow> Inr ts))"

section \<open>Sending a message\<close>

definition get_row :: "str \<Rightarrow> desktop \<Rightarrow> session_row option" where
  "get_row sid st = get_session sid (dk_sessions st)"

definition folder_busy_msg :: "str \<Rightarrow> str" where
  "folder_busy_msg folder = ''A session is already running for '' @ folder"

text \<open>The start of \<open>run_agent_turn\<close>; the number is that of the new turn.\<close>

definition claim_folder :: "session_row \<Rightarrow> desktop \<Rightarrow> (str + nat) \<times> desktop" where
  "claim_folder row st =
     (if se_folder row \<in> dk_running st then (Inl (folder_busy_msg (se_folder row)), st)
      else (Inr (length (dk_turns st)),
            st\<lparr>dk_running := insert (se_folder row) (dk_running st),
               dk_turns := dk_turns st @ [\<lparr>at_session = se_id row, at_folder = se_folder row, at_phase = Claimed\<rparr>]\<rparr>))"

definition send_message :: "str \<Rightarrow> str \<Rightarrow> str option \<Rightarrow> desktop \<Rightarrow> (str + nat) \<times> desktop" where
  "send_message now sid mode st =
     (case get_row sid st of
        None \<Rightarrow> (Inl (''Session not found: '' @ sid), st)
      | Some row \<Rightarrow>
          (case mode of
             None \<Rightarrow> claim_folder row st
           | Some m \<Rightarrow>
               claim_folder (row\<lparr>se_mode := m\<rparr>)
                 (if m \<noteq> se_mode row then st\<lparr>dk_sessions := set_session_mode now sid m (dk_sessions st)\<rparr> else st)))"

definition set_phase :: "nat \<Rightarrow> turn_phase \<Rightarrow> desktop \<Rightarrow> desktop" where
  "set_phase i ph st = st\<lparr>dk_turns := (dk_turns st)[i := (dk_turns st ! i)\<lparr>at_phase := ph\<rparr>]\<rparr>"

definition fail_turn :: "nat \<Rightarrow> bool \<Rightarrow> desktop \<Rightarrow> desktop" where
  "fail_turn i released = set_phase i (if released then Releasing else Leaked)"

text \<open>The task that \<open>release\<close> spawns.\<close>

definition release_folder :: "nat \<Rightarrow> desktop \<Rightarrow> desktop" where
  "release_folder i st =
     (set_phase i Over st)\<lparr>dk_running := dk_running st - {at_folder (dk_turns st ! i)}\<rparr>"

text \<open>The approval handler is entered and the task spawned.\<close>

definition spawn_turn :: "nat \<Rightarrow> permission_config \<Rightarrow> session_info \<Rightarrow> desktop \<Rightarrow> desktop" where
  "spawn_turn i perms info st =
     (let sid = at_session (dk_turns st ! i) in
      (set_phase i (Spawned (length (mg_tasks (dk_manager st)))) st)
        \<lparr>dk_manager := spawn_task sid info (dk_manager st), dk_handlers := (dk_handlers st)(sid \<mapsto> perms)\<rparr>)"

definition register_turn :: "nat \<Rightarrow> nat \<Rightarrow> desktop \<Rightarrow> desktop" where
  "register_turn i n st = (set_phase i (Registered n) st)\<lparr>dk_manager := register_task n (dk_manager st)\<rparr>"

text \<open>The session is marked active and gets a title, and relay and monitor are spawned.\<close>

definition fallback_title :: "str option \<Rightarrow> str \<Rightarrow> str option" where
  "fallback_title title message =
     (let fallback = trim (take_chars 60 message) in
      if (case title of None \<Rightarrow> True | Some t \<Rightarrow> t = []) \<and> fallback \<noteq> [] then Some fallback else None)"

definition activate_turn :: "str \<Rightarrow> nat \<Rightarrow> nat \<Rightarrow> str option \<Rightarrow> desktop \<Rightarrow> desktop" where
  "activate_turn now i n title st =
     (let sid = at_session (dk_turns st ! i); tbl = set_session_status now sid ''active'' (dk_sessions st) in
      (set_phase i (Relaying n) st)
        \<lparr>dk_sessions := (case title of None \<Rightarrow> tbl | Some t \<Rightarrow> set_session_title now sid t tbl)\<rparr>)"

text \<open>The monitor: when the relay ends the folder is freed, then the session is marked idle.\<close>

definition unlock_turn :: "nat \<Rightarrow> desktop \<Rightarrow> desktop" where
  "unlock_turn i st =
     (set_phase i Unlocked st)\<lparr>dk_running := dk_running st - {at_folder (dk_turns st ! i)}\<rparr>"

definition idle_turn :: "str \<Rightarrow> nat \<Rightarrow> desktop \<Rightarrow> desktop" where
  "idle_turn now i st =
     (set_phase i Over st)
       \<lparr>dk_sessions := set_session_status now (at_session (dk_turns st ! i)) ''idle'' (dk_sessions st)\<rparr>"

section \<open>Other commands\<close>

definition cancel_command :: "str \<Rightarrow> desktop \<Rightarrow> desktop" where
  "cancel_command sid st =
     st\<lparr>dk_manager := cancel_session sid (dk_manager st), dk_handlers := (dk_handlers st)(sid := None)\<rparr>"

definition busy_delete_msg :: str where
  "busy_delete_msg = ''Stop the running session in this folder before deleting.''"

text \<open>\<open>remove_dir_all\<close> of the attachments.\<close>

definition remove_tree :: "path \<Rightarrow> disk \<Rightarrow> disk" where
  "remove_tree p d =
     (case stat d p of
        Inr (l, NDir) \<Rightarrow> (\<lambda>m. if take (length l) m = l then None else d m)
      | _ \<Rightarrow> d)"

definition delete_command :: "media_env \<Rightarrow> str \<Rightarrow> str \<Rightarrow> desktop \<Rightarrow> (str + unit) \<times> desktop" where
  "delete_command me now sid st =
     (if (case get_row sid st of None \<Rightarrow> False | Some row \<Rightarrow> se_folder row \<in> dk_running st)
      then (Inl busy_delete_msg, st)
      else (Inr (), st\<lparr>dk_sessions := delete_session now sid (dk_sessions st),
              dk_store := (dk_store st)\<lparr>as_disk := remove_tree (components (images_dir me sid)) (as_disk (dk_store st))\<rparr>\<rparr>))"

definition create_command :: "str \<Rightarrow> str \<Rightarrow> app_settings \<Rightarrow> str \<Rightarrow> str option \<Rightarrow> str option \<Rightarrow> str option \<Rightarrow> str option
    \<Rightarrow> desktop \<Rightarrow> (str + session_row) \<times> desktop" where
  "create_command now fresh settings folder title mode provider_id model st =
     (let default = default_session_model settings;
          provider = (case provider_id of None \<Rightarrow> map_option mf_provider_id default | Some p \<Rightarrow> Some p);
          mdl = (case model of None \<Rightarrow> map_option mf_model default | Some m \<Rightarrow> Some m)
      in case create_session now fresh folder (case mode of None \<Rightarrow> ''coding'' | Some m \<Rightarrow> m) title None provider mdl
                (dk_sessions st) of
           Inl (UniqueViolation i) \<Rightarrow> (Inl (''Failed to create session: UNIQUE constraint failed: sessions.id''), st)
         | Inr tbl \<Rightarrow>
             (case get_session fresh tbl of
                None \<Rightarrow> (Inl ''Session not found after create'', st\<lparr>dk_sessions := tbl\<rparr>)
              | Some row \<Rightarrow> (Inr row, st\<lparr>dk_sessions := tbl\<rparr>)))"

section \<open>Checkpoints\<close>

definition restore_files :: "str \<Rightarrow> u32 \<Rightarrow> str \<Rightarrow> desktop \<Rightarrow> desktop \<times> (git_error + nat)" where
  "restore_files sid target folder st =
     (case restore_to (dk_checkpoints st) sid target folder (as_disk (dk_store st)) of
        (d, res) \<Rightarrow> (st\<lparr>dk_store := (dk_store st)\<lparr>as_disk := d\<rparr>\<rparr>, res))"

definition delete_turns_from :: "str \<Rightarrow> u32 \<Rightarrow> desktop \<Rightarrow> desktop" where
  "delete_turns_from sid from_turn st =
     st\<lparr>dk_checkpoints := fst (delete_from (dk_checkpoints st) sid from_turn)\<rparr>"

definition change_table :: "(message_table \<Rightarrow> message_table \<times> nat) \<Rightarrow> desktop \<Rightarrow> desktop" where
  "change_table f st =
     st\<lparr>dk_store := (dk_store st)\<lparr>as_table := fst (f (as_table (dk_store st)))\<rparr>\<rparr>"

text \<open>\<open>show\<close> stands for the text of a checkpoint error.\<close>

definition restore_checkpoint :: "(git_error \<Rightarrow> str) \<Rightarrow> str \<Rightarrow> str \<Rightarrow> u32 \<Rightarrow> desktop \<Rightarrow> (str + unit) \<times> desktop" where
  "restore_checkpoint show_err now sid target st =
     (let st1 = cancel_command sid st;
          folder = (case get_row sid st1 of None \<Rightarrow> [] | Some row \<Rightarrow> se_folder row)
      in case restore_files sid target folder st1 of
           (st2, Inl e) \<Rightarrow> (Inl (''Failed to restore checkpoint: '' @ show_err e), st2)
         | (st2, Inr _) \<Rightarrow>
             (Inr (), change_table (rewind_from_turn now sid (target + 1)) (delete_turns_from sid (target + 1) st2)))"

text \<open>Up to its call of \<open>run_agent_turn\<close>, of which only the claim of the folder follows here.\<close>

definition rewind_to_message :: "str \<Rightarrow> str \<Rightarrow> nat \<Rightarrow> bool \<Rightarrow> desktop \<Rightarrow> (str + nat) \<times> desktop" where
  "rewind_to_message now sid message_id restore_code st =
     (case get_message_by_id message_id (as_table (dk_store st)) of
        None \<Rightarrow> (Inl ''Message not found'', st)
      | Some target \<Rightarrow>
          if sm_role target \<noteq> ''user'' then (Inl ''Can only rewind to user messages'', st)
          else if sm_session target \<noteq> sid then (Inl ''Message does not belong to this session'', st)
          else
            let st1 = change_table (rewind_messages now sid (sm_id target)) st in
            (case get_row sid st1 of
               None \<Rightarrow> (Inl ''Session not found'', st1)
             | Some row \<Rightarrow>
                 if restore_code then
                   let target_turn = (case sm_turn_count target of None \<Rightarrow> 1 | Some t \<Rightarrow> t);
                       restore_turn = (if target_turn = 0 then 0 else target_turn - 1);
                       st2 = fst (restore_files sid restore_turn (se_folder row) st1)
                   in claim_folder row (delete_turns_from sid target_turn st2)
                 else claim_folder row st1))"

end
