(* ===== verification/SessionManagerFacts.thy ===== *)
theory SessionManagerFacts
  imports SessionManager
begin

text \<open>
  The status a client reads is that of the last task of the session: an invariant of every interleaving in
  which a session is not started again before its previous task has been watched. Without that discipline
  an old watcher sets the status of the new task.
\<close>

lemmas manager_ops = spawn_task_def register_task_def finish_task_def watch_task_def set_status_def
  cancel_session_def remove_session_def map_task_def session_handle_of_def

definition task_status :: "session_task \<Rightarrow> session_status" where
  "task_status t =
     (case tk_result t of None \<Rightarrow> StatusActive | Some r \<Rightarrow> if tk_watched t then final_status r else StatusActive)"

definition handle_ok :: "session_task list \<Rightarrow> str \<Rightarrow> session_handle \<Rightarrow> bool" where
  "handle_ok ts sid h \<longleftrightarrow>
     sh_token h < length ts \<and> tk_session (ts ! sh_token h) = sid \<and> tk_registered (ts ! sh_token h)
     \<and> sh_status h = task_status (ts ! sh_token h) \<and> sh_info h = tk_info (ts ! sh_token h)
     \<and> (\<forall>i < length ts. tk_session (ts ! i) = sid \<longrightarrow> tk_registered (ts ! i) \<longrightarrow> i \<le> sh_token h)"

definition tasks_ok :: "session_task list \<Rightarrow> bool" where
  "tasks_ok ts \<longleftrightarrow>
     (\<forall>t \<in> set ts. tk_watched t \<longrightarrow> tk_registered t \<and> tk_result t \<noteq> None)
     \<and> (\<forall>i j. i < j \<longrightarrow> j < length ts \<longrightarrow> tk_session (ts ! i) = tk_session (ts ! j) \<longrightarrow> tk_watched (ts ! i))"

definition manager_ok :: "manager \<Rightarrow> bool" where
  "manager_ok m \<longleftrightarrow> tasks_ok (mg_tasks m)
     \<and> (\<forall>sid h. session_handle_of sid m = Some h \<longrightarrow> handle_ok (mg_tasks m) sid h)"

lemma manager_okI:
  "tasks_ok (mg_tasks m) \<Longrightarrow> (\<And>sid h. session_handle_of sid m = Some h \<Longrightarrow> handle_ok (mg_tasks m) sid h)
     \<Longrightarrow> manager_ok m"
  by (simp add: manager_ok_def)

lemma manager_ok_handle: "manager_ok m \<Longrightarrow> session_handle_of sid m = Some h \<Longrightarrow> handle_ok (mg_tasks m) sid h"
  by (simp add: manager_ok_def)

lemma manager_ok_tasks: "manager_ok m \<Longrightarrow> tasks_ok (mg_tasks m)"
  by (simp add: manager_ok_def)

text \<open>Within the discipline an unwatched task is the last of its session.\<close>

lemma live_task_last:
  "tasks_ok ts \<Longrightarrow> \<not> tk_watched (ts ! n) \<Longrightarrow> n < length ts \<Longrightarrow> i < length ts
     \<Longrightarrow> tk_session (ts ! i) = tk_session (ts ! n) \<Longrightarrow> i \<le> n"
  unfolding tasks_ok_def by (metis linorder_not_le)

lemma tasks_ok_update:
  assumes "tasks_ok ts" and "n < length ts" and "tk_session t = tk_session (ts ! n)"
    and "tk_watched (ts ! n) \<longrightarrow> tk_watched t"
    and "tk_watched t \<longrightarrow> tk_registered t \<and> tk_result t \<noteq> None"
  shows "tasks_ok (ts[n := t])"
  using assms unfolding tasks_ok_def
  by (auto simp: nth_list_update dest!: in_set_conv_nth [THEN iffD1])

lemma handle_ok_update:
  assumes "handle_ok ts sid h" and "n < length ts" and "tk_session t = tk_session (ts ! n)"
    and "tk_info t = tk_info (ts ! n)" and "tk_registered t = tk_registered (ts ! n)"
    and "n = sh_token h \<longrightarrow> task_status t = sh_status h"
  shows "handle_ok (ts[n := t]) sid h"
  using assms unfolding handle_ok_def by (auto simp: nth_list_update)

lemma spawn_ok:
  assumes ok: "manager_ok m" and q: "quiet sid m"
  shows "manager_ok (spawn_task sid info m)"
proof (rule manager_okI)
  show "tasks_ok (mg_tasks (spawn_task sid info m))"
    using ok q unfolding manager_ok_def tasks_ok_def quiet_def spawn_task_def
    by (auto simp: nth_append less_Suc_eq)
next
  fix s h assume "session_handle_of s (spawn_task sid info m) = Some h"
  then have "handle_ok (mg_tasks m) s h"
    using ok by (auto simp: manager_ops intro: manager_ok_handle)
  then show "handle_ok (mg_tasks (spawn_task sid info m)) s h"
    unfolding handle_ok_def spawn_task_def by (auto simp: nth_append less_Suc_eq)
qed

lemma register_ok:
  assumes ok: "manager_ok m" and n: "n < length (mg_tasks m)" and r: "\<not> tk_registered (mg_tasks m ! n)"
  shows "manager_ok (register_task n m)"
proof (rule manager_okI)
  let ?t = "mg_tasks m ! n" let ?ts = "(mg_tasks m)[n := ?t\<lparr>tk_registered := True\<rparr>]"
  have tasks: "mg_tasks (register_task n m) = ?ts" by (simp add: register_task_def map_task_def Let_def)
  from manager_ok_tasks [OF ok] n r have w: "\<not> tk_watched ?t" by (auto simp: tasks_ok_def)
  show "tasks_ok (mg_tasks (register_task n m))"
    unfolding tasks using w by (intro tasks_ok_update manager_ok_tasks ok n) auto
  fix s h assume h: "session_handle_of s (register_task n m) = Some h"
  show "handle_ok (mg_tasks (register_task n m)) s h"
  proof (cases "s = tk_session ?t")
    case True
    with h have "h = \<lparr>sh_token = n, sh_status = StatusActive, sh_info = tk_info ?t\<rparr>"
      by (simp add: register_task_def session_handle_of_def Let_def map_task_def update_conv')
    moreover have "i \<le> n" if "i < length (mg_tasks m)" "tk_session (mg_tasks m ! i) = tk_session ?t" for i
      using live_task_last [OF manager_ok_tasks [OF ok] w n that] .
    ultimately show ?thesis
      using True n w unfolding handle_ok_def tasks
      by (auto simp: nth_list_update task_status_def split: option.splits)
  next
    case False
    with h have "session_handle_of s m = Some h"
      by (simp add: register_task_def session_handle_of_def Let_def map_task_def update_conv')
    from manager_ok_handle [OF ok this] False n show ?thesis
      unfolding handle_ok_def tasks by (auto simp: nth_list_update)
  qed
qed

lemma finish_ok:
  assumes ok: "manager_ok m" and n: "n < length (mg_tasks m)" and r: "tk_result (mg_tasks m ! n) = None"
  shows "manager_ok (finish_task n evs x m)"
proof (rule manager_okI)
  let ?t = "mg_tasks m ! n"
  from manager_ok_tasks [OF ok] n r have w: "\<not> tk_watched ?t" by (auto simp: tasks_ok_def)
  show "tasks_ok (mg_tasks (finish_task n evs x m))"
    using w unfolding finish_task_def map_task_def by (simp, intro tasks_ok_update manager_ok_tasks ok n) auto
  fix s h assume "session_handle_of s (finish_task n evs x m) = Some h"
  then have h: "handle_ok (mg_tasks m) s h"
    using ok by (auto simp: finish_task_def map_task_def session_handle_of_def manager_ok_def)
  then have "n = sh_token h \<Longrightarrow> sh_status h = StatusActive"
    using r by (simp add: handle_ok_def task_status_def)
  with h show "handle_ok (mg_tasks (finish_task n evs x m)) s h"
    using n w unfolding finish_task_def map_task_def
    by (simp, intro handle_ok_update) (auto simp: task_status_def)
qed

text \<open>The handle a watcher finds is that of its own task.\<close>

lemma watched_handle_own:
  assumes ok: "manager_ok m" and n: "live_task m n" and r: "tk_registered (mg_tasks m ! n)"
    and h: "session_handle_of (tk_session (mg_tasks m ! n)) m = Some h"
  shows "sh_token h = n"
proof -
  note hok = manager_ok_handle [OF ok h, unfolded handle_ok_def]
  from n have n': "n < length (mg_tasks m)" "\<not> tk_watched (mg_tasks m ! n)" by (auto simp: live_task_def)
  from hok r n' have "n \<le> sh_token h" by blast
  moreover have "sh_token h \<le> n"
    using live_task_last [OF manager_ok_tasks [OF ok] n'(2,1)] hok by auto
  ultimately show ?thesis by simp
qed

lemma watch_ok:
  assumes ok: "manager_ok m" and n: "live_task m n" and r: "tk_registered (mg_tasks m ! n)"
    and res: "tk_result (mg_tasks m ! n) = Some x"
  shows "manager_ok (watch_task n m)"
proof (rule manager_okI)
  let ?t = "mg_tasks m ! n"
  let ?t' = "?t\<lparr>tk_watched := True, tk_events := tk_events ?t @ watcher_events (tk_session ?t) x\<rparr>"
  from n have n': "n < length (mg_tasks m)" by (simp add: live_task_def)
  have tasks: "mg_tasks (watch_task n m) = (mg_tasks m)[n := ?t']"
    using res by (simp add: watch_task_def set_status_def map_task_def Let_def split: option.splits)
  show "tasks_ok (mg_tasks (watch_task n m))"
    unfolding tasks using r res by (intro tasks_ok_update manager_ok_tasks ok n') auto
  fix s h assume h: "session_handle_of s (watch_task n m) = Some h"
  show "handle_ok (mg_tasks (watch_task n m)) s h"
  proof (cases "s = tk_session ?t")
    case True
    with h res obtain g where g: "session_handle_of s m = Some g" and hg: "h = g\<lparr>sh_status := final_status x\<rparr>"
      by (auto simp: watch_task_def set_status_def map_task_def session_handle_of_def Let_def update_conv'
          split: option.splits)
    have tok: "sh_token g = n" using watched_handle_own [OF ok n r] g True by simp
    from manager_ok_handle [OF ok g] show ?thesis
      using n' res tok unfolding tasks handle_ok_def hg
      by (auto simp: nth_list_update task_status_def)
  next
    case False
    with h res have g: "session_handle_of s m = Some h"
      by (auto simp: watch_task_def set_status_def map_task_def session_handle_of_def Let_def update_conv'
          split: option.splits)
    note hok = manager_ok_handle [OF ok g]
    from hok False have "n \<noteq> sh_token h" by (auto simp: handle_ok_def)
    with hok show ?thesis unfolding tasks using n' by (intro handle_ok_update) auto
  qed
qed

lemma cancel_ok: "manager_ok m \<Longrightarrow> manager_ok (cancel_session sid m)"
  by (auto simp: manager_ok_def cancel_session_def session_handle_of_def split: option.splits)

lemma cancel_session_sessions [simp]: "mg_sessions (cancel_session sid m) = mg_sessions m"
  by (simp add: cancel_session_def split: option.splits)

lemma remove_ok: "manager_ok m \<Longrightarrow> manager_ok (remove_session sid m)"
proof -
  assume "manager_ok m"
  then have "manager_ok (cancel_session sid m)" by (rule cancel_ok)
  then show ?thesis
    by (auto simp: manager_ok_def remove_session_def session_handle_of_def delete_conv' fun_upd_def
        split: if_splits)
qed

lemma manager_step_ok: "manager_step quiet m m' \<Longrightarrow> manager_ok m \<Longrightarrow> manager_ok m'"
  by (erule manager_step.cases) (auto intro: spawn_ok register_ok finish_ok watch_ok cancel_ok remove_ok)

lemma manager_run_ok: "manager_run quiet m \<Longrightarrow> manager_ok m"
proof (induction rule: manager_run.induct)
  case new
  show ?case by (simp add: manager_ok_def tasks_ok_def new_manager_def session_handle_of_def)
qed (rule manager_step_ok)

text \<open>
  C33. As long as a session is started again only after its previous task has been watched, whatever the
  interleaving of starts, ends of tasks, watchers, cancellations and removals: the status reported for a
  session is that of its last registered task, Active until that task has been watched and then the
  status its result stands for; and cancelling a session cancels that task.
\<close>
theorem session_status_exact:
  assumes "manager_run quiet m" and "session_handle_of sid m = Some h"
  shows "tk_session (mg_tasks m ! sh_token h) = sid
     \<and> get_status sid m = Some (case tk_result (mg_tasks m ! sh_token h) of
            Some r \<Rightarrow> if tk_watched (mg_tasks m ! sh_token h) then final_status r else StatusActive
          | None \<Rightarrow> StatusActive)
     \<and> list_all (\<lambda>i. \<not> (tk_session (mg_tasks m ! i) = sid \<and> tk_registered (mg_tasks m ! i) \<and> sh_token h < i))
           [0..<length (mg_tasks m)]
     \<and> sh_token h \<in> mg_cancelled (cancel_session sid m)"
proof -
  note h = manager_ok_handle [OF manager_run_ok [OF assms(1)] assms(2), unfolded handle_ok_def]
  from h assms(2) have "get_status sid m = Some (case tk_result (mg_tasks m ! sh_token h) of
            Some r \<Rightarrow> if tk_watched (mg_tasks m ! sh_token h) then final_status r else StatusActive
          | None \<Rightarrow> StatusActive)"
    by (auto simp: get_status_def task_status_def split: option.splits)
  moreover from h have "list_all (\<lambda>i. \<not> (tk_session (mg_tasks m ! i) = sid \<and> tk_registered (mg_tasks m ! i) \<and> sh_token h < i))
           [0..<length (mg_tasks m)]"
    by (auto simp: list_all_iff not_less)
  moreover from assms(2) have "sh_token h \<in> mg_cancelled (cancel_session sid m)"
    by (simp add: cancel_session_def)
  ultimately show ?thesis using h by blast
qed

text \<open>A session that was cancelled and has ended.\<close>

definition started_session :: manager where
  "started_session = register_task 0 (spawn_task ''s'' (ask_info AskMode) new_manager)"

definition ended_session :: manager where
  "ended_session = watch_task 0 (finish_task 0 [] (TaskErr Cancelled) started_session)"

lemmas demo_session_defs = started_session_def ended_session_def new_manager_def ask_info_def

lemmas run_spawned = manager_run.step [OF _ manager_step.spawned]
lemmas run_registered = manager_run.step [OF _ manager_step.registered]
lemmas run_finished = manager_run.step [OF _ manager_step.finished]
lemmas run_watched = manager_run.step [OF _ manager_step.watched]

lemma run_started: "may_start ''s'' new_manager \<Longrightarrow> manager_run may_start started_session"
  unfolding started_session_def
  by (rule run_registered, rule run_spawned, rule manager_run.new)
    (simp_all add: spawn_task_def new_manager_def)

lemma run_ended: "may_start ''s'' new_manager \<Longrightarrow> manager_run may_start ended_session"
  unfolding ended_session_def
  by (rule run_watched, rule run_finished, erule run_started)
    (simp_all add: manager_ops live_task_def demo_session_defs Let_def)

theorem session_status_exact_witness:
  "get_status ''s'' ended_session = Some (StatusError ''Cancelled'')
     \<and> 0 \<in> mg_cancelled (cancel_session ''s'' ended_session)"
proof -
  have h: "session_handle_of ''s'' ended_session
      = Some \<lparr>sh_token = 0, sh_status = StatusError ''Cancelled'', sh_info = ask_info AskMode\<rparr>"
    by (simp add: manager_ops demo_session_defs final_status_def Let_def)
  have q: "quiet ''s'' new_manager" by (simp add: quiet_def new_manager_def)
  have "tk_result (mg_tasks ended_session ! 0) = Some (TaskErr Cancelled)" "tk_watched (mg_tasks ended_session ! 0)"
    by (simp_all add: manager_ops demo_session_defs Let_def)
  with session_status_exact [OF run_ended [of quiet, OF q] h] show ?thesis by (simp add: final_status_def)
qed

text \<open>
  Without the discipline the watcher of an earlier task overwrites the status of the task that runs: here the
  session was cancelled and started again, and is reported as cancelled while its new task has not ended.
\<close>

definition restarted_session :: manager where
  "restarted_session = watch_task 0 (finish_task 0 [] (TaskErr Cancelled)
     (register_task 1 (spawn_task ''s'' (ask_info AskMode) started_session)))"

lemma old_watcher_overwrites:
  "manager_run (\<lambda>_ _. True) restarted_session
     \<and> session_handle_of ''s'' restarted_session
         = Some \<lparr>sh_token = 1, sh_status = StatusError ''Cancelled'', sh_info = ask_info AskMode\<rparr>
     \<and> tk_result (mg_tasks restarted_session ! 1) = None"
proof -
  have "manager_run (\<lambda>_ _. True) restarted_session"
    unfolding restarted_session_def
    by (rule run_watched, rule run_finished, rule run_registered, rule run_spawned, rule run_started)
      (simp_all add: manager_ops live_task_def demo_session_defs Let_def)
  then show ?thesis
    by (simp add: restarted_session_def manager_ops demo_session_defs final_status_def Let_def)
qed

text \<open>A cancellation that comes between the spawning of the task and the entry of its handle is lost.\<close>

lemma early_cancel_lost:
  "quiet sid m \<Longrightarrow> session_handle_of sid m = None \<Longrightarrow>
     length (mg_tasks m) \<notin> mg_cancelled m \<Longrightarrow>
     length (mg_tasks m) \<notin> mg_cancelled
       (register_task (length (mg_tasks m)) (cancel_session sid (spawn_task sid info m)))"
  by (simp add: manager_ops Let_def)

end
