(* ===== verification/DesktopFacts.thy ===== *)
theory DesktopFacts
  imports Desktop SessionManagerFacts
begin

text \<open>
  What holds in every state that the commands, tasks and monitors of the desktop application can reach in any
  order: a folder is claimed by at most one turn, a session is never started again before its task has ended,
  so that the session manager is used as it must be. Also what does not hold: a failure to load the context
  locks the folder for good, and a monitor can mark a session idle that runs again.
\<close>

section \<open>Steps\<close>

definition phase_at :: "desktop \<Rightarrow> nat \<Rightarrow> turn_phase \<Rightarrow> bool" where
  "phase_at st i ph \<longleftrightarrow> i < length (dk_turns st) \<and> at_phase (dk_turns st ! i) = ph"

definition row_of_turn :: "desktop \<Rightarrow> nat \<Rightarrow> session_row \<Rightarrow> bool" where
  "row_of_turn st i row \<longleftrightarrow>
     se_id row = at_session (dk_turns st ! i) \<and> se_folder row = at_folder (dk_turns st ! i)"

inductive desktop_step :: "desktop_env \<Rightarrow> desktop \<Rightarrow> desktop \<Rightarrow> bool" for env where
  sent: "send_message now sid mode st = (r, st') \<Longrightarrow> desktop_step env st st'"
| rewound: "rewind_to_message now sid mid restore st = (r, st') \<Longrightarrow> desktop_step env st st'"
| failed: "phase_at st i Claimed \<Longrightarrow> row_of_turn st i row \<Longrightarrow> prepare_turn env lf row st = Inl (released, e) \<Longrightarrow>
     desktop_step env st (fail_turn i released st)"
| spawned: "phase_at st i Claimed \<Longrightarrow> row_of_turn st i row \<Longrightarrow> prepare_turn env None row st = Inr ts \<Longrightarrow>
     desktop_step env st
       (spawn_turn i (turn_permissions (parse_mode (se_mode row)) (dv_permissions env (se_folder row))) (ts_info ts) st)"
| registered: "phase_at st i (Spawned n) \<Longrightarrow> desktop_step env st (register_turn i n st)"
| activated: "phase_at st i (Registered n) \<Longrightarrow> desktop_step env st (activate_turn now i n title st)"
| worked: "n < length (mg_tasks (dk_manager st)) \<Longrightarrow> tk_result (mg_tasks (dk_manager st) ! n) = None \<Longrightarrow>
     desktop_step env st (st\<lparr>dk_store := store, dk_checkpoints := cks\<rparr>)"
| finished: "n < length (mg_tasks (dk_manager st)) \<Longrightarrow> tk_result (mg_tasks (dk_manager st) ! n) = None \<Longrightarrow>
     desktop_step env st (st\<lparr>dk_manager := finish_task n evs res (dk_manager st)\<rparr>)"
| watched: "live_task (dk_manager st) n \<Longrightarrow> tk_registered (mg_tasks (dk_manager st) ! n) \<Longrightarrow>
     tk_result (mg_tasks (dk_manager st) ! n) \<noteq> None \<Longrightarrow>
     desktop_step env st (st\<lparr>dk_manager := watch_task n (dk_manager st)\<rparr>)"
| unlocked: "phase_at st i (Relaying n) \<Longrightarrow> tk_watched (mg_tasks (dk_manager st) ! n) \<Longrightarrow>
     desktop_step env st (unlock_turn i st)"
| idled: "phase_at st i Unlocked \<Longrightarrow> desktop_step env st (idle_turn now i st)"
| released: "phase_at st i Releasing \<Longrightarrow> desktop_step env st (release_folder i st)"
| cancelled: "desktop_step env st (cancel_command sid st)"
| deleted: "delete_command (dv_media env) now sid st = (r, st') \<Longrightarrow> desktop_step env st st'"
| created: "create_command now fresh (dv_settings env) folder title mode provider model st = (r', st') \<Longrightarrow>
     desktop_step env st st'"
| restored: "restore_checkpoint show_err now sid target st = (r, st') \<Longrightarrow> desktop_step env st st'"

text \<open>The application when it starts: stored sessions, messages and checkpoints, nothing running.\<close>

definition started_app :: "desktop \<Rightarrow> bool" where
  "started_app st \<longleftrightarrow> dk_running st = {} \<and> dk_turns st = [] \<and> dk_manager st = new_manager"

inductive desktop_run :: "desktop_env \<Rightarrow> desktop \<Rightarrow> desktop \<Rightarrow> bool" for env where
  start: "started_app st \<Longrightarrow> desktop_run env st st"
| step: "desktop_run env st0 st \<Longrightarrow> desktop_step env st st' \<Longrightarrow> desktop_run env st0 st'"

section \<open>Invariants\<close>

fun holds_folder :: "turn_phase \<Rightarrow> bool" where
  "holds_folder Unlocked = False"
| "holds_folder Over = False"
| "holds_folder _ = True"

fun task_of :: "turn_phase \<Rightarrow> nat option" where
  "task_of (Spawned n) = Some n"
| "task_of (Registered n) = Some n"
| "task_of (Relaying n) = Some n"
| "task_of _ = None"

definition locks_ok :: "agent_turn list \<Rightarrow> str set \<Rightarrow> bool" where
  "locks_ok ts running \<longleftrightarrow>
     (\<forall>f. f \<in> running \<longleftrightarrow> (\<exists>i < length ts. holds_folder (at_phase (ts ! i)) \<and> at_folder (ts ! i) = f))
     \<and> (\<forall>i j. i < length ts \<longrightarrow> j < length ts \<longrightarrow> holds_folder (at_phase (ts ! i)) \<longrightarrow>
          holds_folder (at_phase (ts ! j)) \<longrightarrow> at_folder (ts ! i) = at_folder (ts ! j) \<longrightarrow> i = j)"

definition rows_known :: "session_table \<Rightarrow> agent_turn list \<Rightarrow> bool" where
  "rows_known tbl ts \<longleftrightarrow>
     (\<forall>t \<in> set ts. \<exists>r. find_session (at_session t) tbl = Some r \<and> se_folder r = at_folder t)"

definition tasks_known :: "agent_turn list \<Rightarrow> session_task list \<Rightarrow> bool" where
  "tasks_known ts ks \<longleftrightarrow>
     (\<forall>i n. i < length ts \<longrightarrow> task_of (at_phase (ts ! i)) = Some n \<longrightarrow>
        n < length ks \<and> tk_session (ks ! n) = at_session (ts ! i)
        \<and> (tk_registered (ks ! n) \<longleftrightarrow> at_phase (ts ! i) \<noteq> Spawned n))
     \<and> (\<forall>i j n. i < length ts \<longrightarrow> j < length ts \<longrightarrow> task_of (at_phase (ts ! i)) = Some n \<longrightarrow>
          task_of (at_phase (ts ! j)) = Some n \<longrightarrow> i = j)
     \<and> (\<forall>n < length ks. \<not> tk_watched (ks ! n) \<longrightarrow> (\<exists>i < length ts. task_of (at_phase (ts ! i)) = Some n))"

definition desktop_ok :: "desktop \<Rightarrow> bool" where
  "desktop_ok st \<longleftrightarrow> locks_ok (dk_turns st) (dk_running st) \<and> rows_known (dk_sessions st) (dk_turns st)
     \<and> tasks_known (dk_turns st) (mg_tasks (dk_manager st)) \<and> manager_run quiet (dk_manager st)"

lemma desktop_okI:
  "locks_ok (dk_turns st) (dk_running st) \<Longrightarrow> rows_known (dk_sessions st) (dk_turns st) \<Longrightarrow>
   tasks_known (dk_turns st) (mg_tasks (dk_manager st)) \<Longrightarrow> manager_run quiet (dk_manager st) \<Longrightarrow> desktop_ok st"
  by (simp add: desktop_ok_def)

lemma desktop_okD:
  assumes "desktop_ok st"
  shows "locks_ok (dk_turns st) (dk_running st)" and "rows_known (dk_sessions st) (dk_turns st)"
    and "tasks_known (dk_turns st) (mg_tasks (dk_manager st))" and "manager_run quiet (dk_manager st)"
  using assms by (simp_all add: desktop_ok_def)

text \<open>Claiming, freeing and changing the phase of a turn.\<close>

lemma locks_claim:
  assumes "locks_ok ts running" and "at_folder t \<notin> running"
  shows "locks_ok (ts @ [t]) (if holds_folder (at_phase t) then insert (at_folder t) running else running)"
proof -
  from assms have new: "\<forall>i < length ts. holds_folder (at_phase (ts ! i)) \<longrightarrow> at_folder (ts ! i) \<noteq> at_folder t \<and> at_folder t \<noteq> at_folder (ts ! i)"
    by (auto simp: locks_ok_def)
  with assms(1) show ?thesis
    unfolding locks_ok_def by (auto simp: nth_append less_Suc_eq)
qed

lemma nth_phase:
  "k < length ts \<Longrightarrow> at_folder (ts[i := (ts ! i)\<lparr>at_phase := ph\<rparr>] ! k) = at_folder (ts ! k)"
  "k < length ts \<Longrightarrow> at_session (ts[i := (ts ! i)\<lparr>at_phase := ph\<rparr>] ! k) = at_session (ts ! k)"
  "k < length ts \<Longrightarrow> at_phase (ts[i := (ts ! i)\<lparr>at_phase := ph\<rparr>] ! k) = (if k = i then ph else at_phase (ts ! k))"
  by (cases "k = i"; simp)+

lemma locks_phase:
  assumes "locks_ok ts running" and "i < length ts" and "holds_folder (at_phase (ts ! i))" and "holds_folder ph"
  shows "locks_ok (ts[i := (ts ! i)\<lparr>at_phase := ph\<rparr>]) running"
proof -
  have h: "k < length ts \<Longrightarrow> holds_folder (if k = i then ph else at_phase (ts ! k)) = holds_folder (at_phase (ts ! k))" for k
    using assms(3,4) by simp
  from assms(1) show ?thesis
    unfolding locks_ok_def by (simp add: nth_phase h cong: conj_cong imp_cong)
qed

lemma locks_unheld_phase:
  assumes "locks_ok ts running" and "\<not> holds_folder (at_phase (ts ! i))" and "\<not> holds_folder ph"
  shows "locks_ok (ts[i := (ts ! i)\<lparr>at_phase := ph\<rparr>]) running"
proof -
  have h: "k < length ts \<Longrightarrow> holds_folder (if k = i then ph else at_phase (ts ! k)) = holds_folder (at_phase (ts ! k))" for k
    using assms(2,3) by simp
  from assms(1) show ?thesis
    unfolding locks_ok_def by (simp add: nth_phase h cong: conj_cong imp_cong)
qed

lemma locks_free:
  assumes "locks_ok ts running" and "i < length ts" and "holds_folder (at_phase (ts ! i))" and "\<not> holds_folder ph"
  shows "locks_ok (ts[i := (ts ! i)\<lparr>at_phase := ph\<rparr>]) (running - {at_folder (ts ! i)})"
proof -
  have h: "k < length ts \<Longrightarrow> holds_folder (if k = i then ph else at_phase (ts ! k)) \<longleftrightarrow> k \<noteq> i \<and> holds_folder (at_phase (ts ! k))" for k
    using assms(4) by simp
  from assms(1) have run: "f \<in> running \<longleftrightarrow> (\<exists>k < length ts. holds_folder (at_phase (ts ! k)) \<and> at_folder (ts ! k) = f)"
    and inj: "k < length ts \<Longrightarrow> holds_folder (at_phase (ts ! k)) \<Longrightarrow> at_folder (ts ! k) = at_folder (ts ! i) \<Longrightarrow> k = i" for f k
    using assms(2,3) unfolding locks_ok_def by blast+
  have "f \<in> running - {at_folder (ts ! i)} \<longleftrightarrow>
      (\<exists>k < length ts. (k \<noteq> i \<and> holds_folder (at_phase (ts ! k))) \<and> at_folder (ts ! k) = f)" for f
    using run [of f] inj by auto
  with assms(1) show ?thesis
    unfolding locks_ok_def by (simp add: nth_phase h cong: conj_cong imp_cong)
qed

lemma rows_phase: "rows_known tbl ts \<Longrightarrow> i < length ts \<Longrightarrow> rows_known tbl (ts[i := (ts ! i)\<lparr>at_phase := ph\<rparr>])"
  unfolding rows_known_def by (metis (no_types, lifting) in_set_conv_nth length_list_update nth_phase(1,2))

text \<open>The folder of a session does not change.\<close>

definition keeps_folders :: "session_table \<Rightarrow> session_table \<Rightarrow> bool" where
  "keeps_folders tbl tbl' \<longleftrightarrow>
     (\<forall>i r. find_session i tbl = Some r \<longrightarrow> (\<exists>r'. find_session i tbl' = Some r' \<and> se_folder r' = se_folder r))"

lemma rows_keep: "rows_known tbl ts \<Longrightarrow> keeps_folders tbl tbl' \<Longrightarrow> rows_known tbl' ts"
  unfolding rows_known_def keeps_folders_def by metis

lemma keeps_folders_ops [intro]:
  "keeps_folders tbl tbl"
  "keeps_folders tbl (set_session_status now i s tbl)"
  "keeps_folders tbl (set_session_title now i s tbl)"
  "keeps_folders tbl (set_session_mode now i s tbl)"
  "keeps_folders tbl (delete_session now i tbl)"
  by (auto simp: keeps_folders_def session_simps)

lemma keeps_folders_trans: "keeps_folders a b \<Longrightarrow> keeps_folders b c \<Longrightarrow> keeps_folders a c"
  unfolding keeps_folders_def by metis

lemma keeps_folders_create: "create_session now i f m t p pr md tbl = Inr tbl' \<Longrightarrow> keeps_folders tbl tbl'"
  unfolding keeps_folders_def
proof (intro allI impI)
  fix j r assume c: "create_session now i f m t p pr md tbl = Inr tbl'" and j: "find_session j tbl = Some r"
  then have "j \<noteq> i" by (auto simp: create_session_def find_session_def find_Some_iff split: if_splits)
  with c j show "\<exists>r'. find_session j tbl' = Some r' \<and> se_folder r' = se_folder r"
    by (simp add: find_session_create)
qed

text \<open>Turns and tasks.\<close>

lemma tasks_claim:
  assumes "tasks_known ts ks" and "task_of (at_phase t) = None"
  shows "tasks_known (ts @ [t]) ks"
  using assms unfolding tasks_known_def by (simp add: nth_append less_Suc_eq) (metis nth_append)

lemma tasks_phase:
  assumes "tasks_known ts ks" and "i < length ts" and "task_of ph = task_of (at_phase (ts ! i))"
    and "\<And>n. ph = Spawned n \<longleftrightarrow> at_phase (ts ! i) = Spawned n"
  shows "tasks_known (ts[i := (ts ! i)\<lparr>at_phase := ph\<rparr>]) ks"
proof -
  have h: "task_of (if k = i then ph else at_phase (ts ! k)) = task_of (at_phase (ts ! k))"
    "((if k = i then ph else at_phase (ts ! k)) = Spawned n) = (at_phase (ts ! k) = Spawned n)" for k n
    using assms(3,4) by simp_all
  from assms(1) show ?thesis
    unfolding tasks_known_def by (simp add: nth_phase h cong: conj_cong imp_cong)
qed

lemma tasks_unlock:
  assumes "tasks_known ts ks" and "task_of (at_phase (ts ! i)) = Some n" and "tk_watched (ks ! n)" and "task_of ph = None"
  shows "tasks_known (ts[i := (ts ! i)\<lparr>at_phase := ph\<rparr>]) ks"
proof -
  let ?ts = "ts[i := (ts ! i)\<lparr>at_phase := ph\<rparr>]"
  have h: "task_of (at_phase (?ts ! k)) = Some m \<longleftrightarrow> k \<noteq> i \<and> task_of (at_phase (ts ! k)) = Some m" if "k < length ts" for k m
    using assms(4) by (simp add: nth_phase [OF that])
  show ?thesis
    unfolding tasks_known_def
  proof (intro conjI allI impI)
    fix j m assume "j < length ?ts" and "task_of (at_phase (?ts ! j)) = Some m"
    then have j: "j < length ts" "j \<noteq> i" "task_of (at_phase (ts ! j)) = Some m" by (simp_all add: h)
    with assms(1) show "m < length ks" "tk_session (ks ! m) = at_session (?ts ! j)"
        "tk_registered (ks ! m) = (at_phase (?ts ! j) \<noteq> Spawned m)"
      unfolding tasks_known_def by (simp_all add: nth_phase)
  next
    fix j k m assume "j < length ?ts" "k < length ?ts" "task_of (at_phase (?ts ! j)) = Some m" "task_of (at_phase (?ts ! k)) = Some m"
    then have "j < length ts" "k < length ts" "task_of (at_phase (ts ! j)) = Some m" "task_of (at_phase (ts ! k)) = Some m"
      by (simp_all add: h)
    with assms(1) show "j = k" unfolding tasks_known_def by blast
  next
    fix m assume m: "m < length ks" "\<not> tk_watched (ks ! m)"
    with assms(1) obtain j where j: "j < length ts" "task_of (at_phase (ts ! j)) = Some m"
      unfolding tasks_known_def by blast
    from m assms(2,3) j have "j \<noteq> i" by auto
    with j show "\<exists>j < length ?ts. task_of (at_phase (?ts ! j)) = Some m" by (intro exI [of _ j]) (simp add: h)
  qed
qed

lemma tasks_update:
  assumes "tasks_known ts ks" and "tk_session t = tk_session (ks ! n)" and "tk_registered t = tk_registered (ks ! n)"
    and "tk_watched (ks ! n) \<longrightarrow> tk_watched t"
  shows "tasks_known ts (ks[n := t])"
proof -
  have h: "k < length ks \<Longrightarrow> tk_session (ks[n := t] ! k) = tk_session (ks ! k)"
    "k < length ks \<Longrightarrow> tk_registered (ks[n := t] ! k) = tk_registered (ks ! k)"
    "k < length ks \<Longrightarrow> \<not> tk_watched (ks[n := t] ! k) \<Longrightarrow> \<not> tk_watched (ks ! k)" for k
    using assms(2-4) by (cases "k = n"; simp)+
  from assms(1) show ?thesis
    unfolding tasks_known_def using h(3) by (simp add: h(1,2) cong: conj_cong imp_cong)
qed

lemma tasks_register:
  assumes "tasks_known ts ks" and "i < length ts" and "at_phase (ts ! i) = Spawned n"
  shows "tasks_known (ts[i := (ts ! i)\<lparr>at_phase := Registered n\<rparr>]) (ks[n := (ks ! n)\<lparr>tk_registered := True\<rparr>])"
proof -
  from assms have n: "n < length ks" unfolding tasks_known_def by (metis task_of.simps(1))
  have one: "k < length ts \<Longrightarrow> task_of (at_phase (ts ! k)) = Some n \<Longrightarrow> k = i" for k
    using assms unfolding tasks_known_def by (metis task_of.simps(1))
  have h: "task_of (if k = i then Registered n else at_phase (ts ! k)) = task_of (at_phase (ts ! k))" for k
    using assms(3) by simp
  have k: "tk_session (ks[n := (ks ! n)\<lparr>tk_registered := True\<rparr>] ! m) = tk_session (ks ! m)"
    "tk_watched (ks[n := (ks ! n)\<lparr>tk_registered := True\<rparr>] ! m) = tk_watched (ks ! m)"
    "tk_registered (ks[n := (ks ! n)\<lparr>tk_registered := True\<rparr>] ! m) = (m = n \<or> tk_registered (ks ! m))" for m
    using n by (cases "m = n"; simp)+
  from assms(1) have old: "\<And>j m. j < length ts \<Longrightarrow> task_of (at_phase (ts ! j)) = Some m \<Longrightarrow>
      m < length ks \<and> tk_session (ks ! m) = at_session (ts ! j) \<and> (tk_registered (ks ! m) \<longleftrightarrow> at_phase (ts ! j) \<noteq> Spawned m)"
    unfolding tasks_known_def by blast
  have new: "m < length ks \<and> tk_session (ks ! m) = at_session (ts ! j)
      \<and> ((m = n \<or> tk_registered (ks ! m)) \<longleftrightarrow> (if j = i then Registered n else at_phase (ts ! j)) \<noteq> Spawned m)"
    if "j < length ts" "task_of (at_phase (ts ! j)) = Some m" for j m
  proof (cases "j = i")
    case True
    with that(2) assms(3) have "m = n" by simp
    with True old [OF that] show ?thesis by simp
  next
    case False
    with one [of j] that have "m \<noteq> n" by auto
    with False old [OF that] show ?thesis by simp
  qed
  let ?ts = "ts[i := (ts ! i)\<lparr>at_phase := Registered n\<rparr>]" let ?ks = "ks[n := (ks ! n)\<lparr>tk_registered := True\<rparr>]"
  show ?thesis
    unfolding tasks_known_def
  proof (intro conjI allI impI)
    fix j m assume "j < length ?ts" and "task_of (at_phase (?ts ! j)) = Some m"
    then have "j < length ts" "task_of (at_phase (ts ! j)) = Some m" by (simp_all add: nth_phase h)
    from this(1) new [OF this] show "m < length ?ks" "tk_session (?ks ! m) = at_session (?ts ! j)"
        "tk_registered (?ks ! m) = (at_phase (?ts ! j) \<noteq> Spawned m)"
      by (simp_all add: nth_phase k)
  next
    fix j k m assume "j < length ?ts" "k < length ?ts" "task_of (at_phase (?ts ! j)) = Some m" "task_of (at_phase (?ts ! k)) = Some m"
    then have "j < length ts" "k < length ts" "task_of (at_phase (ts ! j)) = Some m" "task_of (at_phase (ts ! k)) = Some m"
      by (simp_all add: nth_phase h)
    with assms(1) show "j = k" unfolding tasks_known_def by blast
  next
    fix m assume "m < length ?ks" "\<not> tk_watched (?ks ! m)"
    then have "m < length ks" "\<not> tk_watched (ks ! m)" by (simp_all add: k)
    with assms(1) obtain j where "j < length ts" "task_of (at_phase (ts ! j)) = Some m"
      unfolding tasks_known_def by blast
    then show "\<exists>j < length ?ts. task_of (at_phase (?ts ! j)) = Some m" by (intro exI [of _ j]) (simp add: nth_phase h)
  qed
qed

lemma tasks_spawn:
  assumes "tasks_known ts ks" and "i < length ts" and "task_of (at_phase (ts ! i)) = None"
    and "tk_session t = at_session (ts ! i)" and "\<not> tk_registered t"
  shows "tasks_known (ts[i := (ts ! i)\<lparr>at_phase := Spawned (length ks)\<rparr>]) (ks @ [t])"
proof -
  let ?ts = "ts[i := (ts ! i)\<lparr>at_phase := Spawned (length ks)\<rparr>]"
  from assms(1) have old: "\<And>j m. j < length ts \<Longrightarrow> task_of (at_phase (ts ! j)) = Some m \<Longrightarrow>
      m < length ks \<and> tk_session (ks ! m) = at_session (ts ! j) \<and> (tk_registered (ks ! m) \<longleftrightarrow> at_phase (ts ! j) \<noteq> Spawned m)"
    unfolding tasks_known_def by blast
  have ph: "at_phase (?ts ! k) = (if k = i then Spawned (length ks) else at_phase (ts ! k))" if "k < length ts" for k
    using that by (rule nth_phase)
  show ?thesis
    unfolding tasks_known_def
  proof (intro conjI allI impI)
    fix j m assume "j < length ?ts" and t: "task_of (at_phase (?ts ! j)) = Some m"
    then have j: "j < length ts" by simp
    show "m < length (ks @ [t])"
      using t old [OF j] by (auto simp: ph [OF j] split: if_splits)
    show "tk_session ((ks @ [t]) ! m) = at_session (?ts ! j)"
      using t old [OF j] assms(4) by (auto simp: ph [OF j] nth_phase(2) [OF j] nth_append split: if_splits)
    show "tk_registered ((ks @ [t]) ! m) = (at_phase (?ts ! j) \<noteq> Spawned m)"
      using t old [OF j] assms(5) by (auto simp: ph [OF j] nth_append split: if_splits)
  next
    fix j k m assume "j < length ?ts" "k < length ?ts" and t: "task_of (at_phase (?ts ! j)) = Some m" "task_of (at_phase (?ts ! k)) = Some m"
    then have jk: "j < length ts" "k < length ts" by simp_all
    with t old [of j] old [of k] assms(1) show "j = k"
      unfolding tasks_known_def by (auto simp: ph split: if_splits)
  next
    fix m assume "m < length (ks @ [t])" and w: "\<not> tk_watched ((ks @ [t]) ! m)"
    show "\<exists>j < length ?ts. task_of (at_phase (?ts ! j)) = Some m"
    proof (cases "m = length ks")
      case True
      with assms(2) show ?thesis by (intro exI [of _ i]) (simp add: ph)
    next
      case False
      with \<open>m < length (ks @ [t])\<close> w have "m < length ks" "\<not> tk_watched (ks ! m)" by (auto simp: nth_append)
      with assms(1) obtain j where j: "j < length ts" "task_of (at_phase (ts ! j)) = Some m"
        unfolding tasks_known_def by blast
      with assms(3) have "j \<noteq> i" by auto
      with j show ?thesis by (intro exI [of _ j]) (simp add: ph)
    qed
  qed
qed

section \<open>Every step keeps the invariant\<close>

lemma task_holds: "task_of ph = Some n \<Longrightarrow> holds_folder ph"
  by (cases ph) auto

lemma quiet_at_claim:
  assumes ok: "desktop_ok st" and i: "phase_at st i Claimed"
  shows "quiet (at_session (dk_turns st ! i)) (dk_manager st)"
  unfolding quiet_def
proof (intro ballI impI)
  let ?ts = "dk_turns st" let ?ks = "mg_tasks (dk_manager st)"
  fix t assume "t \<in> set ?ks" and s: "tk_session t = at_session (?ts ! i)"
  then obtain n where n: "n < length ?ks" "?ks ! n = t" by (auto simp: in_set_conv_nth)
  show "tk_watched t"
  proof (rule ccontr)
    assume "\<not> tk_watched t"
    with n desktop_okD(3) [OF ok] obtain j where j: "j < length ?ts" "task_of (at_phase (?ts ! j)) = Some n"
      unfolding tasks_known_def by blast
    with desktop_okD(3) [OF ok] n s have "at_session (?ts ! j) = at_session (?ts ! i)"
      unfolding tasks_known_def by metis
    moreover from i have i': "i < length ?ts" "at_phase (?ts ! i) = Claimed" by (simp_all add: phase_at_def)
    ultimately have "at_folder (?ts ! j) = at_folder (?ts ! i)"
      using desktop_okD(2) [OF ok] j(1) unfolding rows_known_def by (metis nth_mem option.inject)
    moreover from j(2) have "holds_folder (at_phase (?ts ! j))" by (rule task_holds)
    ultimately have "j = i" using desktop_okD(1) [OF ok] j(1) i' unfolding locks_ok_def by (metis holds_folder.simps(3))
    with j(2) i' show False by simp
  qed
qed

lemma claim_ok:
  assumes "desktop_ok st" and "find_session (se_id row) (dk_sessions st) = Some r" and "se_folder r = se_folder row"
  shows "desktop_ok (snd (claim_folder row st))"
proof (cases "se_folder row \<in> dk_running st")
  case False
  let ?t = "\<lparr>at_session = se_id row, at_folder = se_folder row, at_phase = Claimed\<rparr>"
  show ?thesis
  proof (rule desktop_okI)
    show "locks_ok (dk_turns (snd (claim_folder row st))) (dk_running (snd (claim_folder row st)))"
      using locks_claim [OF desktop_okD(1) [OF assms(1)], of ?t] False by (simp add: claim_folder_def)
    show "rows_known (dk_sessions (snd (claim_folder row st))) (dk_turns (snd (claim_folder row st)))"
      using desktop_okD(2) [OF assms(1)] assms(2,3) False by (simp add: claim_folder_def rows_known_def)
    show "tasks_known (dk_turns (snd (claim_folder row st))) (mg_tasks (dk_manager (snd (claim_folder row st))))"
      using tasks_claim [OF desktop_okD(3) [OF assms(1)], of ?t] False by (simp add: claim_folder_def)
    show "manager_run quiet (dk_manager (snd (claim_folder row st)))"
      using desktop_okD(4) [OF assms(1)] False by (simp add: claim_folder_def)
  qed
qed (use assms(1) in \<open>simp add: claim_folder_def\<close>)

lemma desktop_ok_sessions:
  "desktop_ok st \<Longrightarrow> keeps_folders (dk_sessions st) tbl \<Longrightarrow> desktop_ok (st\<lparr>dk_sessions := tbl\<rparr>)"
  by (auto simp: desktop_ok_def intro: rows_keep)

lemma desktop_ok_irrelevant [simp]:
  "desktop_ok (st\<lparr>dk_store := store\<rparr>) = desktop_ok st"
  "desktop_ok (st\<lparr>dk_checkpoints := cks\<rparr>) = desktop_ok st"
  "desktop_ok (st\<lparr>dk_handlers := hs\<rparr>) = desktop_ok st"
  by (simp_all add: desktop_ok_def)

lemma get_row_find: "get_row sid st = Some row \<Longrightarrow>
    \<exists>r. find_session sid (dk_sessions st) = Some r \<and> se_folder r = se_folder row \<and> se_id row = sid"
  by (auto simp: get_row_def get_session_def find_session_def find_Some_iff)

lemma send_ok:
  assumes "desktop_ok st" and "send_message now sid mode st = (r, st')"
  shows "desktop_ok st'"
proof (cases "get_row sid st")
  case None
  with assms show ?thesis by (simp add: send_message_def)
next
  case (Some row)
  then obtain e where e: "find_session sid (dk_sessions st) = Some e" "se_folder e = se_folder row" "se_id row = sid"
    using get_row_find by blast
  show ?thesis
  proof (cases mode)
    case None
    with Some assms claim_ok [OF assms(1), of row e] e show ?thesis by (simp add: send_message_def)
  next
    case (Some m)
    let ?st = "if m \<noteq> se_mode row then st\<lparr>dk_sessions := set_session_mode now sid m (dk_sessions st)\<rparr> else st"
    from assms(1) have ok: "desktop_ok ?st" by (auto intro!: desktop_ok_sessions)
    have "\<exists>e'. find_session sid (dk_sessions ?st) = Some e' \<and> se_folder e' = se_folder row"
      using e by (auto simp: session_simps)
    with claim_ok [OF ok, of "row\<lparr>se_mode := m\<rparr>"] e have "desktop_ok (snd (claim_folder (row\<lparr>se_mode := m\<rparr>) ?st))" by auto
    moreover have "st' = snd (claim_folder (row\<lparr>se_mode := m\<rparr>) ?st)"
      using assms(2) \<open>get_row sid st = Some row\<close> Some by (simp add: send_message_def)
    ultimately show ?thesis by simp
  qed
qed

lemma change_table_ok [simp]:
  "desktop_ok (change_table f st) = desktop_ok st" "dk_sessions (change_table f st) = dk_sessions st"
  by (simp_all add: change_table_def)

lemma restore_files_ok [simp]:
  "desktop_ok (fst (restore_files sid t f st)) = desktop_ok st"
  "dk_sessions (fst (restore_files sid t f st)) = dk_sessions st"
  by (simp_all add: restore_files_def split: prod.splits)

lemma delete_turns_ok [simp]:
  "desktop_ok (delete_turns_from sid t st) = desktop_ok st" "dk_sessions (delete_turns_from sid t st) = dk_sessions st"
  by (simp_all add: delete_turns_from_def)

lemma rewind_ok:
  assumes "desktop_ok st" and "rewind_to_message now sid mid restore st = (r, st')"
  shows "desktop_ok st'"
proof (cases "get_message_by_id mid (as_table (dk_store st))")
  case None
  with assms show ?thesis by (simp add: rewind_to_message_def)
next
  case (Some target)
  let ?st1 = "change_table (rewind_messages now sid (sm_id target)) st"
  show ?thesis
  proof (cases "sm_role target = ''user'' \<and> sm_session target = sid")
    case False
    with assms Some show ?thesis by (auto simp: rewind_to_message_def split: if_splits)
  next
    case True
    show ?thesis
    proof (cases "get_row sid ?st1")
      case None
      with assms Some True show ?thesis by (auto simp: rewind_to_message_def Let_def)
    next
      case (Some row)
      then obtain e where e: "find_session sid (dk_sessions st) = Some e" "se_folder e = se_folder row" "se_id row = sid"
        using get_row_find [of sid ?st1] by auto
      have c: "desktop_ok s \<Longrightarrow> dk_sessions s = dk_sessions st \<Longrightarrow> desktop_ok (snd (claim_folder row s))" for s
        using claim_ok [of s row e] e by simp
      have "st' = snd (rewind_to_message now sid mid restore st)" using assms(2) by simp
      with \<open>get_message_by_id mid _ = _\<close> True Some assms(1) show ?thesis
        by (auto simp: rewind_to_message_def Let_def intro!: c split del: if_split split: if_split)
    qed
  qed
qed

lemma phase_atD: "phase_at st i ph \<Longrightarrow> i < length (dk_turns st)" "phase_at st i ph \<Longrightarrow> at_phase (dk_turns st ! i) = ph"
  by (simp_all add: phase_at_def)

lemma fail_ok: "desktop_ok st \<Longrightarrow> phase_at st i Claimed \<Longrightarrow> desktop_ok (fail_turn i released st)"
  by (auto simp: fail_turn_def set_phase_def phase_at_def intro!: desktop_okI locks_phase rows_phase tasks_phase
      dest: desktop_okD)

lemma spawn_turn_ok:
  assumes "desktop_ok st" and "phase_at st i Claimed"
  shows "desktop_ok (spawn_turn i perms info st)"
  unfolding spawn_turn_def set_phase_def Let_def
  using assms desktop_okD [OF assms(1)] phase_atD [OF assms(2)]
  by (auto simp: spawn_task_def [of _ _ "dk_manager st"] intro!: desktop_okI locks_phase rows_phase tasks_spawn
      run_spawned [where m = "dk_manager st", unfolded spawn_task_def] quiet_at_claim)

lemma register_turn_ok:
  assumes "desktop_ok st" and "phase_at st i (Spawned n)"
  shows "desktop_ok (register_turn i n st)"
proof -
  from desktop_okD(3) [OF assms(1)] phase_atD [OF assms(2)]
  have n: "n < length (mg_tasks (dk_manager st))" "\<not> tk_registered (mg_tasks (dk_manager st) ! n)"
    unfolding tasks_known_def by (metis task_of.simps(1))+
  have tasks: "mg_tasks (register_task n (dk_manager st))
      = (mg_tasks (dk_manager st))[n := (mg_tasks (dk_manager st) ! n)\<lparr>tk_registered := True\<rparr>]"
    by (simp add: register_task_def map_task_def Let_def)
  show ?thesis
    unfolding register_turn_def set_phase_def
    using desktop_okD [OF assms(1)] phase_atD [OF assms(2)] n
    by (auto simp: tasks intro!: desktop_okI locks_phase rows_phase tasks_register run_registered)
qed

lemma rows_status:
  assumes "desktop_ok st"
  shows "rows_known (set_session_status now sid s (dk_sessions st)) (dk_turns st)"
    and "rows_known (set_session_title now sid x (set_session_status now sid s (dk_sessions st))) (dk_turns st)"
  using desktop_okD(2) [OF assms] by (blast intro: rows_keep keeps_folders_ops)+

lemma activate_ok: "desktop_ok st \<Longrightarrow> phase_at st i (Registered n) \<Longrightarrow> desktop_ok (activate_turn now i n title st)"
  unfolding activate_turn_def set_phase_def Let_def
  by (auto simp: phase_at_def intro!: desktop_okI locks_phase rows_phase tasks_phase dest: desktop_okD
      split: option.splits intro: rows_status)

lemma finish_desktop_ok:
  assumes "desktop_ok st" and "n < length (mg_tasks (dk_manager st))" and "tk_result (mg_tasks (dk_manager st) ! n) = None"
  shows "desktop_ok (st\<lparr>dk_manager := finish_task n evs res (dk_manager st)\<rparr>)"
  using desktop_okD [OF assms(1)] assms(2,3)
  by (intro desktop_okI) (auto simp: finish_task_def map_task_def intro!: tasks_update
      run_finished [where m = "dk_manager st", unfolded finish_task_def map_task_def])

lemma watch_desktop_ok:
  assumes "desktop_ok st" and n: "live_task (dk_manager st) n" "tk_registered (mg_tasks (dk_manager st) ! n)"
    and r: "tk_result (mg_tasks (dk_manager st) ! n) \<noteq> None"
  shows "desktop_ok (st\<lparr>dk_manager := watch_task n (dk_manager st)\<rparr>)"
proof -
  from r obtain x where x: "tk_result (mg_tasks (dk_manager st) ! n) = Some x" by blast
  have "mg_tasks (watch_task n (dk_manager st)) = (mg_tasks (dk_manager st))[n := (mg_tasks (dk_manager st) ! n)
      \<lparr>tk_watched := True, tk_events := tk_events (mg_tasks (dk_manager st) ! n)
          @ watcher_events (tk_session (mg_tasks (dk_manager st) ! n)) x\<rparr>]"
    by (simp add: x watch_task_def set_status_def map_task_def Let_def split: option.splits)
  with desktop_okD [OF assms(1)] run_watched [OF desktop_okD(4) [OF assms(1)] n r] show ?thesis
    by (intro desktop_okI) (auto intro!: tasks_update)
qed

lemma unlock_ok:
  assumes "desktop_ok st" and "phase_at st i (Relaying n)" and "tk_watched (mg_tasks (dk_manager st) ! n)"
  shows "desktop_ok (unlock_turn i st)"
  unfolding unlock_turn_def set_phase_def
  using desktop_okD [OF assms(1)] phase_atD [OF assms(2)] assms(3)
  by (intro desktop_okI) (auto intro!: locks_free rows_phase tasks_unlock [where n = n])

lemma idle_ok: "desktop_ok st \<Longrightarrow> phase_at st i Unlocked \<Longrightarrow> desktop_ok (idle_turn now i st)"
  unfolding idle_turn_def set_phase_def
  by (auto simp: phase_at_def intro!: desktop_okI locks_unheld_phase rows_phase tasks_phase dest: desktop_okD
      intro: rows_status)

lemma release_ok: "desktop_ok st \<Longrightarrow> phase_at st i Releasing \<Longrightarrow> desktop_ok (release_folder i st)"
  unfolding release_folder_def set_phase_def
  by (auto simp: phase_at_def intro!: desktop_okI locks_free rows_phase tasks_phase dest: desktop_okD)

lemma cancel_command_ok: "desktop_ok st \<Longrightarrow> desktop_ok (cancel_command sid st)"
proof -
  assume ok: "desktop_ok st"
  have "mg_tasks (cancel_session sid (dk_manager st)) = mg_tasks (dk_manager st)"
    by (simp add: cancel_session_def split: option.splits)
  with desktop_okD [OF ok] manager_run.step [OF desktop_okD(4) [OF ok] manager_step.cancelled]
  show ?thesis by (auto simp: cancel_command_def intro: desktop_okI)
qed

lemma delete_command_ok: "desktop_ok st \<Longrightarrow> desktop_ok (snd (delete_command me now sid st))"
  by (auto simp: delete_command_def intro!: desktop_ok_sessions)

lemma create_command_ok: "desktop_ok st \<Longrightarrow> desktop_ok (snd (create_command now fresh se f t m p md st))"
  by (auto simp: create_command_def Let_def intro!: desktop_ok_sessions keeps_folders_create
      split: sum.splits db_error.splits option.splits)

lemma restore_checkpoint_ok: "desktop_ok st \<Longrightarrow> desktop_ok (snd (restore_checkpoint show_err now sid target st))"
proof -
  assume ok: "desktop_ok st"
  let ?f = "case get_row sid (cancel_command sid st) of None \<Rightarrow> [] | Some row \<Rightarrow> se_folder row"
  obtain st2 res where r: "restore_files sid target ?f (cancel_command sid st) = (st2, res)" by force
  then have "desktop_ok st2" using restore_files_ok(1) cancel_command_ok [OF ok] by (metis fst_conv)
  with r show ?thesis by (simp add: restore_checkpoint_def Let_def split: sum.splits)
qed

lemma desktop_step_ok: "desktop_step env st st' \<Longrightarrow> desktop_ok st \<Longrightarrow> desktop_ok st'"
proof (induction rule: desktop_step.induct)
  case sent then show ?case by (rule send_ok [rotated])
next
  case rewound then show ?case by (rule rewind_ok [rotated])
next
  case failed then show ?case by (blast intro: fail_ok)
next
  case spawned then show ?case by (blast intro: spawn_turn_ok)
next
  case registered then show ?case by (blast intro: register_turn_ok)
next
  case activated then show ?case by (blast intro: activate_ok)
next
  case worked then show ?case by (simp add: desktop_ok_def)
next
  case finished then show ?case by (blast intro: finish_desktop_ok)
next
  case watched then show ?case by (blast intro: watch_desktop_ok)
next
  case unlocked then show ?case by (blast intro: unlock_ok)
next
  case idled then show ?case by (blast intro: idle_ok)
next
  case released then show ?case by (blast intro: release_ok)
next
  case cancelled then show ?case by (rule cancel_command_ok)
next
  case deleted then show ?case by (metis delete_command_ok snd_conv)
next
  case created then show ?case by (metis create_command_ok snd_conv)
next
  case restored then show ?case by (metis restore_checkpoint_ok snd_conv)
qed

lemma started_ok: "started_app st \<Longrightarrow> desktop_ok st"
  using manager_run.new [of quiet]
  by (simp add: started_app_def desktop_ok_def locks_ok_def rows_known_def tasks_known_def)
    (simp add: new_manager_def)

lemma desktop_run_ok: "desktop_run env st0 st \<Longrightarrow> desktop_ok st"
  by (induction rule: desktop_run.induct) (auto intro: started_ok desktop_step_ok)

section \<open>One session per folder\<close>

text \<open>
  C13. In every state the application reaches, the set of running folders is exactly the set of folders that
  turns have claimed and not yet freed, and no two of these turns have the same folder.
\<close>
theorem one_session_per_folder:
  assumes "desktop_run env st0 st"
  shows "(\<forall>f. f \<in> dk_running st \<longleftrightarrow> (\<exists>i < length (dk_turns st). holds_folder (at_phase (dk_turns st ! i)) \<and> at_folder (dk_turns st ! i) = f))
     \<and> (\<forall>i < length (dk_turns st). \<forall>j < length (dk_turns st).
          \<not> (holds_folder (at_phase (dk_turns st ! i)) \<and> holds_folder (at_phase (dk_turns st ! j))
             \<and> at_folder (dk_turns st ! i) = at_folder (dk_turns st ! j) \<and> i \<noteq> j))"
  using desktop_okD(1) [OF desktop_run_ok [OF assms]] unfolding locks_ok_def by blast

text \<open>
  The application uses the session manager with the discipline that it needs: whatever the order of
  events, the status of a session is that of its last task, and no two tasks of one session are alive.
\<close>
theorem desktop_session_status:
  assumes "desktop_run env st0 st"
  shows "manager_run quiet (dk_manager st)
     \<and> (\<forall>i < length (mg_tasks (dk_manager st)). \<forall>j < i.
          \<not> (tk_session (mg_tasks (dk_manager st) ! i) = tk_session (mg_tasks (dk_manager st) ! j)
             \<and> \<not> tk_watched (mg_tasks (dk_manager st) ! j)))"
proof -
  have run: "manager_run quiet (dk_manager st)" using desktop_okD(4) [OF desktop_run_ok [OF assms]] .
  have "tasks_ok (mg_tasks (dk_manager st))" using manager_ok_tasks [OF manager_run_ok [OF run]] .
  with run show ?thesis unfolding tasks_ok_def by metis
qed

section \<open>Every claimed folder can be freed, but one\<close>

definition rank :: "desktop \<Rightarrow> nat \<Rightarrow> nat" where
  "rank st i =
     (case at_phase (dk_turns st ! i) of
        Claimed \<Rightarrow> 6
      | Spawned n \<Rightarrow> 5
      | Registered n \<Rightarrow> 4
      | Relaying n \<Rightarrow>
          (let t = mg_tasks (dk_manager st) ! n in
           if tk_watched t then 1 else if tk_result t \<noteq> None then 2 else 3)
      | Releasing \<Rightarrow> 1
      | _ \<Rightarrow> 0)"

lemma row_exists:
  assumes "desktop_ok st" and "i < length (dk_turns st)"
  obtains row where "row_of_turn st i row"
proof -
  from desktop_okD(2) [OF assms(1)] assms(2) obtain r where
    "find_session (at_session (dk_turns st ! i)) (dk_sessions st) = Some r" "se_folder r = at_folder (dk_turns st ! i)"
    unfolding rows_known_def using nth_mem by blast
  then have "row_of_turn st i (session_row.truncate r)"
    by (auto simp: row_of_turn_def find_session_def find_Some_iff)
  then show thesis by (rule that)
qed

lemma prepare_without_failure: "prepare_turn env None row st = Inl (released, e) \<Longrightarrow> released"
  by (auto simp: prepare_turn_def load_turn_def Let_def split: if_splits sum.splits prod.splits)

definition frees_or_nears :: "desktop \<Rightarrow> nat \<Rightarrow> desktop \<Rightarrow> bool" where
  "frees_or_nears st i st' \<longleftrightarrow>
     at_folder (dk_turns st ! i) \<notin> dk_running st'
     \<or> (i < length (dk_turns st') \<and> at_folder (dk_turns st' ! i) = at_folder (dk_turns st ! i)
        \<and> 0 < rank st' i \<and> rank st' i < rank st i)"

lemma progressI:
  "desktop_step env st st' \<Longrightarrow> frees_or_nears st i st' \<Longrightarrow> \<exists>st'. desktop_step env st st' \<and> frees_or_nears st i st'"
  by blast

lemma turn_progress:
  assumes ok: "desktop_ok st" and i: "i < length (dk_turns st)" and r: "0 < rank st i"
  shows "\<exists>st'. desktop_step env st st' \<and> frees_or_nears st i st'"
proof (cases "at_phase (dk_turns st ! i)")
  case Claimed
  with i have ph: "phase_at st i Claimed" by (simp add: phase_at_def)
  obtain row where row: "row_of_turn st i row" using row_exists [OF ok i] .
  show ?thesis
  proof (cases "prepare_turn env None row st")
    case (Inl a)
    moreover from this have "fst a" by (cases a) (auto dest: prepare_without_failure)
    ultimately have "prepare_turn env None row st = Inl (True, snd a)" by (cases a) simp
    from desktop_step.failed [OF ph row this] show ?thesis
      by (rule progressI) (simp add: frees_or_nears_def fail_turn_def set_phase_def rank_def i Claimed)
  next
    case (Inr ts)
    from desktop_step.spawned [OF ph row this] show ?thesis
      by (rule progressI) (simp add: frees_or_nears_def spawn_turn_def set_phase_def rank_def i Claimed Let_def)
  qed
next
  case Releasing
  with i have ph: "phase_at st i Releasing" by (simp add: phase_at_def)
  from desktop_step.released [OF ph] show ?thesis
    by (rule progressI) (simp add: frees_or_nears_def release_folder_def set_phase_def)
next
  case (Spawned n)
  with i have ph: "phase_at st i (Spawned n)" by (simp add: phase_at_def)
  from desktop_step.registered [OF ph] show ?thesis
    by (rule progressI) (simp add: frees_or_nears_def register_turn_def set_phase_def rank_def i Spawned)
next
  case (Registered n)
  with i have ph: "phase_at st i (Registered n)" by (simp add: phase_at_def)
  from desktop_step.activated [OF ph] show ?thesis
    by (rule progressI) (simp add: frees_or_nears_def activate_turn_def set_phase_def rank_def i Registered Let_def)
next
  case (Relaying n)
  with i have ph: "phase_at st i (Relaying n)" by (simp add: phase_at_def)
  from desktop_okD(3) [OF ok] i Relaying have n: "n < length (mg_tasks (dk_manager st))"
    and reg: "tk_registered (mg_tasks (dk_manager st) ! n)"
    unfolding tasks_known_def by (metis task_of.simps(3) turn_phase.distinct)+
  let ?t = "mg_tasks (dk_manager st) ! n"
  consider "tk_watched ?t" | x where "\<not> tk_watched ?t" "tk_result ?t = Some x" | "\<not> tk_watched ?t" "tk_result ?t = None" by auto
  then show ?thesis
  proof cases
    case 1
    from desktop_step.unlocked [OF ph 1] show ?thesis
      by (rule progressI) (simp add: frees_or_nears_def unlock_turn_def set_phase_def)
  next
    case 2
    with n have "live_task (dk_manager st) n" by (simp add: live_task_def)
    from desktop_step.watched [OF this reg] 2 have step: "desktop_step env st (st\<lparr>dk_manager := watch_task n (dk_manager st)\<rparr>)" by simp
    have w: "tk_watched (mg_tasks (watch_task n (dk_manager st)) ! n)"
      using 2 n by (simp add: watch_task_def set_status_def map_task_def Let_def split: option.splits)
    show ?thesis
      by (rule progressI [OF step]) (simp add: frees_or_nears_def rank_def i Relaying 2 w Let_def)
  next
    case 3
    from desktop_step.finished [OF n 3(2)] show ?thesis
      by (rule progressI) (simp add: frees_or_nears_def rank_def i Relaying 3 Let_def finish_task_def map_task_def n)
  qed
qed (use r in \<open>simp_all add: rank_def\<close>)

lemma folder_freed:
  "desktop_ok st \<Longrightarrow> i < length (dk_turns st) \<Longrightarrow> 0 < rank st i \<Longrightarrow>
     \<exists>st'. (desktop_step env)\<^sup>*\<^sup>* st st' \<and> at_folder (dk_turns st ! i) \<notin> dk_running st'"
proof (induction "rank st i" arbitrary: st rule: less_induct)
  case less
  obtain st1 where step: "desktop_step env st st1" and "frees_or_nears st i st1"
    using turn_progress [OF less.prems] by blast
  then consider "at_folder (dk_turns st ! i) \<notin> dk_running st1"
    | "i < length (dk_turns st1)" "at_folder (dk_turns st1 ! i) = at_folder (dk_turns st ! i)" "0 < rank st1 i" "rank st1 i < rank st i"
    by (auto simp: frees_or_nears_def)
  then show ?case
  proof cases
    case 1
    with step show ?thesis by blast
  next
    case 2
    from less.hyps [OF 2(4) desktop_step_ok [OF step less.prems(1)] 2(1,3)] 2(2) step
    show ?thesis by (metis converse_rtranclp_into_rtranclp)
  qed
qed

text \<open>
  From every reachable state, a folder that a turn holds can be freed again by steps of the application
  (the run ends, its watcher and its monitor do their work), unless loading the context of that turn failed.
\<close>
theorem claimed_folder_can_be_freed:
  assumes "desktop_run env st0 st" and "i < length (dk_turns st)"
    and "holds_folder (at_phase (dk_turns st ! i))" and "at_phase (dk_turns st ! i) \<noteq> Leaked"
  shows "\<exists>st'. (desktop_step env)\<^sup>*\<^sup>* st st' \<and> at_folder (dk_turns st ! i) \<notin> dk_running st'"
proof -
  from assms(3,4) have "0 < rank st i"
    by (cases "at_phase (dk_turns st ! i)") (auto simp: rank_def Let_def)
  from folder_freed [OF desktop_run_ok [OF assms(1)] assms(2) this] show ?thesis .
qed

section \<open>The folder of a turn whose context did not load\<close>

definition keeps_leak :: "nat \<Rightarrow> desktop \<Rightarrow> desktop \<Rightarrow> bool" where
  "keeps_leak i st st' \<longleftrightarrow>
     (phase_at st i Leaked \<longrightarrow> phase_at st' i Leaked \<and> at_folder (dk_turns st' ! i) = at_folder (dk_turns st ! i))"

lemma keeps_leak_refl [simp]: "keeps_leak i st st"
  by (simp add: keeps_leak_def)

lemma keeps_leak_turns: "dk_turns st' = dk_turns st \<Longrightarrow> keeps_leak i st st'"
  by (simp add: keeps_leak_def phase_at_def)

lemma keeps_leak_phase:
  "phase_at st j ph \<Longrightarrow> ph \<noteq> Leaked \<Longrightarrow> dk_turns st' = (dk_turns st)[j := (dk_turns st ! j)\<lparr>at_phase := ph'\<rparr>] \<Longrightarrow> keeps_leak i st st'"
  by (auto simp: keeps_leak_def phase_at_def nth_list_update)

lemma claim_keeps_leak: "dk_turns s = dk_turns st \<Longrightarrow> keeps_leak i st (snd (claim_folder row s))"
  by (auto simp: claim_folder_def keeps_leak_def phase_at_def nth_append)

lemma rewind_keeps_leak: "keeps_leak i st (snd (rewind_to_message now sid mid restore st))"
proof -
  have t: "dk_turns (change_table f s) = dk_turns s" "dk_turns (delete_turns_from sid n s) = dk_turns s"
    "dk_turns (fst (restore_files sid n g s)) = dk_turns s" for f n g s sid
    by (simp_all add: change_table_def delete_turns_from_def restore_files_def split: prod.splits)
  show ?thesis
    by (auto simp: rewind_to_message_def Let_def t keeps_leak_turns intro!: claim_keeps_leak split: option.splits)
qed

lemma restore_turns_same: "dk_turns (snd (restore_checkpoint show_err now sid target st)) = dk_turns st"
  by (simp add: restore_checkpoint_def restore_files_def cancel_command_def change_table_def delete_turns_from_def Let_def
      split: prod.splits sum.splits)

lemma step_keeps_leak: "desktop_step env st st' \<Longrightarrow> keeps_leak i st st'"
proof (induction rule: desktop_step.induct)
  case (sent now sid mode st r st')
  have "keeps_leak i st (snd (send_message now sid mode st))"
    by (auto simp: send_message_def intro!: claim_keeps_leak split: option.splits)
  with sent show ?case by simp
next
  case (rewound now sid mid restore st r st')
  then show ?case by (metis rewind_keeps_leak snd_conv)
next
  case (deleted now sid st r st')
  have "dk_turns (snd (delete_command (dv_media env) now sid st)) = dk_turns st" by (simp add: delete_command_def)
  with deleted show ?case by (simp add: keeps_leak_turns)
next
  case (created now fresh folder title mode provider model st r' st')
  have "dk_turns (snd (create_command now fresh (dv_settings env) folder title mode provider model st)) = dk_turns st"
    by (simp add: create_command_def Let_def split: sum.splits db_error.splits option.splits)
  with created show ?case by (simp add: keeps_leak_turns)
next
  case (restored show_err now sid target st r st')
  with restore_turns_same [of show_err now sid target st] show ?case by (simp add: keeps_leak_turns)
next
  case (failed st j row lf released e)
  then show ?case by (rule_tac keeps_leak_phase [OF failed(1)]) (simp_all add: fail_turn_def set_phase_def)
next
  case (spawned st j row ts)
  then show ?case by (rule_tac keeps_leak_phase [OF spawned(1)]) (simp_all add: spawn_turn_def set_phase_def Let_def)
next
  case (registered st j n)
  then show ?case by (rule_tac keeps_leak_phase [OF registered(1)]) (simp_all add: register_turn_def set_phase_def)
next
  case (activated st j n now title)
  then show ?case by (rule_tac keeps_leak_phase [OF activated(1)]) (simp_all add: activate_turn_def set_phase_def Let_def)
next
  case (unlocked st j n)
  then show ?case by (rule_tac keeps_leak_phase [OF unlocked(1)]) (simp_all add: unlock_turn_def set_phase_def)
next
  case (idled st j now)
  then show ?case by (rule_tac keeps_leak_phase [OF idled(1)]) (simp_all add: idle_turn_def set_phase_def)
next
  case (released st j)
  then show ?case by (rule_tac keeps_leak_phase [OF released(1)]) (simp_all add: release_folder_def set_phase_def)
qed (simp_all add: keeps_leak_turns cancel_command_def)

lemma steps_keep_leak: "(desktop_step env)\<^sup>*\<^sup>* st st' \<Longrightarrow> keeps_leak i st st'"
  by (induction rule: rtranclp_induct) (auto simp: keeps_leak_def dest: step_keeps_leak [of env _ _ i])

lemma steps_ok: "(desktop_step env)\<^sup>*\<^sup>* st st' \<Longrightarrow> desktop_ok st \<Longrightarrow> desktop_ok st'"
  by (induction rule: rtranclp_induct) (auto intro: desktop_step_ok)

lemma send_busy:
  assumes "se_folder row \<in> dk_running st" and "get_row sid st = Some row"
  shows "fst (send_message now sid mode st) = Inl (folder_busy_msg (se_folder row))"
  using assms by (cases mode) (simp_all add: send_message_def claim_folder_def)

text \<open>
  C23. When the database fails while the context of a turn is loaded, the folder stays locked: in every later
  state, whatever happens, a message to any session of that folder is refused.
\<close>
theorem load_failure_locks_folder:
  assumes "desktop_run env st0 st" and "phase_at st i Claimed" and "row_of_turn st i row"
    and "prepare_turn env (Some e) row st = Inl (False, m)"
    and "(desktop_step env)\<^sup>*\<^sup>* (fail_turn i False st) st'"
    and "get_row sid st' = Some row'" and "se_folder row' = se_folder row"
  shows "fst (send_message now sid mode st') = Inl (folder_busy_msg (se_folder row))"
proof -
  let ?st = "fail_turn i False st"
  have leak: "phase_at ?st i Leaked" "at_folder (dk_turns ?st ! i) = se_folder row"
    using assms(2,3) by (simp_all add: fail_turn_def set_phase_def phase_at_def row_of_turn_def)
  from assms(1,2) have "desktop_ok ?st" by (intro fail_ok desktop_run_ok)
  from steps_ok [OF assms(5) this] have ok: "desktop_ok st'" .
  from steps_keep_leak [OF assms(5), of i] leak
  have "phase_at st' i Leaked" "at_folder (dk_turns st' ! i) = se_folder row" by (simp_all add: keeps_leak_def)
  with desktop_okD(1) [OF ok] have "se_folder row \<in> dk_running st'"
    unfolding locks_ok_def phase_at_def by (metis holds_folder.simps(5))
  with send_busy [of row' st' sid] assms(6,7) show ?thesis by simp
qed

section \<open>A stale status\<close>

text \<open>
  The monitor frees the folder before it marks the session idle. A turn that starts in between marks the
  session active, and the old monitor then marks it idle although it runs.
\<close>

lemma monitor_marks_running_idle:
  assumes "phase_at st i Unlocked" and "phase_at st j (Relaying n)"
    and "at_session (dk_turns st ! i) = at_session (dk_turns st ! j)"
    and "find_session (at_session (dk_turns st ! j)) (dk_sessions st) = Some r"
  shows "desktop_step env st (idle_turn now i st)"
    and "phase_at (idle_turn now i st) j (Relaying n)"
    and "map_option se_status (find_session (at_session (dk_turns st ! j)) (dk_sessions (idle_turn now i st))) = Some ''idle''"
proof -
  show "desktop_step env st (idle_turn now i st)"
    using assms(1) by (rule desktop_step.idled)
qed (use assms in \<open>auto simp: idle_turn_def set_phase_def phase_at_def nth_list_update session_simps\<close>)

section \<open>An application with one session\<close>

definition demo_session :: session_entry where
  "demo_session = \<lparr>se_id = ''s'', se_folder = ''/p'', se_mode = ''coding'', se_title = None, se_parent = None,
     se_created_at = [], se_updated_at = [], se_status = ''idle'', se_provider_id = None, se_model = None,
     se_deleted_at = None\<rparr>"

definition demo_app :: desktop where
  "demo_app = \<lparr>dk_sessions = [demo_session],
     dk_store = \<lparr>as_table = empty_table, as_disk = [[] \<mapsto> NDir, [''p''] \<mapsto> NDir], as_fresh = 0\<rparr>,
     dk_checkpoints = (\<lambda>_. None), dk_manager = new_manager, dk_running = {}, dk_handlers = (\<lambda>_. None), dk_turns = []\<rparr>"

definition demo_dv :: desktop_env where
  "demo_dv = \<lparr>dv_settings = \<lparr>st_providers = None, st_selection = None\<rparr>, dv_registry = default_registry,
     dv_json = \<lparr>jt_print = (\<lambda>_. []), jt_parse = (\<lambda>_. None)\<rparr>, dv_media = demo_media_env,
     dv_permissions = (\<lambda>_. \<lparr>pc_project_path = None, pc_level = ApproveDestructive, pc_tool_overrides = None\<rparr>)\<rparr>"

definition claimed_app :: desktop where
  "claimed_app = snd (send_message ''now'' ''s'' None demo_app)"

lemma demo_row: "get_row ''s'' demo_app = Some (session_row.truncate demo_session)"
  by (simp add: get_row_def get_session_def find_session_def demo_app_def demo_session_def)

lemma claimed_app_eq: "claimed_app = demo_app\<lparr>dk_running := {''/p''},
    dk_turns := [\<lparr>at_session = ''s'', at_folder = ''/p'', at_phase = Claimed\<rparr>]\<rparr>"
  unfolding claimed_app_def send_message_def demo_row
  by (simp add: claim_folder_def) (simp add: demo_app_def demo_session_def)

lemma demo_run_claimed: "desktop_run demo_dv demo_app claimed_app"
proof -
  have "desktop_run demo_dv demo_app demo_app"
    by (rule desktop_run.start) (simp add: started_app_def demo_app_def)
  moreover have "desktop_step demo_dv demo_app claimed_app"
    unfolding claimed_app_def by (rule desktop_step.sent [of "''now''" "''s''" None]) (rule prod.collapse [symmetric])
  ultimately show ?thesis by (rule desktop_run.step)
qed

lemma claimed_turns: "dk_turns claimed_app = [\<lparr>at_session = ''s'', at_folder = ''/p'', at_phase = Claimed\<rparr>]"
  by (simp add: claimed_app_eq)

theorem one_session_per_folder_witness: "dk_running claimed_app = {''/p''}"
proof -
  have "f \<in> dk_running claimed_app \<longleftrightarrow> f = ''/p''" for f
    using one_session_per_folder [OF demo_run_claimed] by (auto simp: claimed_turns)
  then show ?thesis by auto
qed

theorem desktop_session_status_witness: "manager_run quiet (dk_manager claimed_app)"
  using desktop_session_status [OF demo_run_claimed] by blast

theorem claimed_folder_can_be_freed_witness:
  "\<exists>st'. (desktop_step demo_dv)\<^sup>*\<^sup>* claimed_app st' \<and> ''/p'' \<notin> dk_running st'"
  using claimed_folder_can_be_freed [OF demo_run_claimed, of 0] by (simp add: claimed_turns)

lemma demo_prepare: "\<exists>m. prepare_turn demo_dv (Some ''locked'') (session_row.truncate demo_session) claimed_app = Inl (False, m)"
proof -
  have "path_exists (as_disk (dk_store claimed_app)) (components ''/p'')" 
    by (simp add: claimed_app_eq demo_app_def) code_simp
  moreover have "\<exists>p m. session_model (dv_settings demo_dv) None None = Inr (p, m)"
  proof -
    have "providers_list (dv_settings demo_dv) = default_providers"
      by (simp add: providers_list_def stored_providers_def demo_dv_def canonical_row_def [abs_def] find_provider_def)
    then show ?thesis
      by (simp add: session_model_def default_session_model_def read_selection_def demo_dv_def resolve_ref_def
          provider_by_id_def find_provider_def default_providers_def Let_def)
  qed
  ultimately show ?thesis
    by (auto simp: prepare_turn_def load_turn_def Let_def demo_session_def session_row.truncate_def)
qed

theorem load_failure_locks_folder_witness:
  "fst (send_message ''later'' ''s'' None (fail_turn 0 False claimed_app)) = Inl (folder_busy_msg ''/p'')"
proof -
  obtain m where m: "prepare_turn demo_dv (Some ''locked'') (session_row.truncate demo_session) claimed_app = Inl (False, m)"
    using demo_prepare by blast
  have "phase_at claimed_app 0 Claimed" "row_of_turn claimed_app 0 (session_row.truncate demo_session)"
    by (simp_all add: phase_at_def row_of_turn_def claimed_turns) (simp_all add: demo_session_def)
  moreover have "get_row ''s'' (fail_turn 0 False claimed_app) = Some (session_row.truncate demo_session)"
    using demo_row by (simp add: fail_turn_def set_phase_def claimed_app_eq get_row_def)
  ultimately show ?thesis
    using load_failure_locks_folder [OF demo_run_claimed _ _ m rtranclp.rtrancl_refl] by (simp add: demo_session_def)
qed

end
