(* ===== verification/DesktopCheckpoints.thy ===== *)
theory DesktopCheckpoints
  imports DesktopFacts CheckpointUndo CheckpointDiff MessageDbFacts
begin

text \<open>
  What the commands \<open>agent_restore_checkpoint\<close> and \<open>agent_rewind_to_message\<close> do to files, checkpoints and messages
  together: a restore takes all three back to the end of a turn and leaves everything else. A rewind does so
  only for a message that its turn identifies, and nothing keeps it from a session that runs.
\<close>

section \<open>Names in the checkpoint store\<close>

lemma names_ok_alt: "names_ok sd \<longleftrightarrow> distinct (map fst sd)
    \<and> (\<forall>n \<in> fst ` set sd. \<forall>t. parse_turn_from_dirname n = Some t \<longrightarrow> n = turn_dirname t)"
  by (simp add: names_ok_def)

lemma names_ok_update: "names_ok sd \<Longrightarrow> names_ok (AList.update (turn_dirname t) td sd)"
proof -
  assume "names_ok sd"
  moreover have "fst ` set (AList.update k v sd) = insert k (fst ` set sd)" for k v
    using arg_cong [OF update_keys [of k v sd], of set] by (auto split: if_splits)
  ultimately show ?thesis
    by (auto simp: names_ok_alt distinct_update)
qed

lemma edit_run_names:
  assumes "edit_run sid target st0 d0 t st d K" and "names_ok (session_turns st0 (sanitize_session_id sid))"
  shows "names_ok (session_turns st (sanitize_session_id sid))"
  using assms
proof (induction rule: edit_run.induct)
  case (edit t st d K t' l st' d')
  from edit(6) show ?case
  proof (cases rule: backup_file_cases)
    case (new m prior)
    then show ?thesis
      using names_ok_update [OF edit.IH [OF edit.prems]] by (simp add: write_turn_dir_def session_turns_def)
  qed (use edit in simp)
qed simp_all

lemma deleted_turns:
  assumes "names_ok (session_turns st (sanitize_session_id sid))"
  shows "set (list_turn_numbers (fst (delete_from st sid from)) (sanitize_session_id sid)) =
           {u \<in> set (list_turn_numbers st (sanitize_session_id sid)). u < from}"
proof (cases "st (sanitize_session_id sid)")
  case None
  then show ?thesis
    by (simp add: delete_from_def list_turn_numbers_def session_turns_def map_filter_simps)
next
  case (Some sd)
  with assms have ok: "names_ok sd" by (simp add: session_turns_def)
  have mem: "u \<in> set (List.map_filter (\<lambda>(name, _). parse_turn_from_dirname name) xs) \<longleftrightarrow>
      (\<exists>x \<in> set xs. parse_turn_from_dirname (fst x) = Some u)" for u and xs :: session_dir
    by (force simp: List.map_filter_def)
  have "set (List.map_filter (\<lambda>(name, _). parse_turn_from_dirname name) (filter (earlier from) xs)) =
      {u \<in> set (List.map_filter (\<lambda>(name, _). parse_turn_from_dirname name) xs). u < from}" for xs :: session_dir
    unfolding set_eq_iff mem mem_Collect_eq by (force simp: earlier_def)
  then show ?thesis
    using delete_from_keeps_earlier [of st sid sd "from", OF Some ok]
    by (simp add: list_turn_numbers_def session_turns_def Some)
qed

lemma kept_turns:
  assumes "names_ok (session_turns st (sanitize_session_id sid))"
  shows "session_turns (fst (delete_from st sid from)) (sanitize_session_id sid) =
      filter (earlier from) (session_turns st (sanitize_session_id sid))"
    and "root' \<noteq> sanitize_session_id sid \<Longrightarrow> fst (delete_from st sid from) root' = st root'"
proof -
  have "session_turns (fst (delete_from st sid from)) (sanitize_session_id sid) =
      filter (earlier from) (session_turns st (sanitize_session_id sid))
    \<and> (root' \<noteq> sanitize_session_id sid \<longrightarrow> fst (delete_from st sid from) root' = st root')"
  proof (cases "st (sanitize_session_id sid)")
    case None
    then show ?thesis by (simp add: delete_from_def session_turns_def)
  next
    case (Some sd)
    with assms have "names_ok sd" by (simp add: session_turns_def)
    from delete_from_keeps_earlier [of st sid sd "from", OF Some this] Some show ?thesis
      by (simp add: session_turns_def)
  qed
  then show "session_turns (fst (delete_from st sid from)) (sanitize_session_id sid) =
      filter (earlier from) (session_turns st (sanitize_session_id sid))"
    and "root' \<noteq> sanitize_session_id sid \<Longrightarrow> fst (delete_from st sid from) root' = st root'" by blast+
qed

section \<open>Restoring\<close>

lemma less_next: "target \<noteq> - 1 \<Longrightarrow> u < target + 1 \<longleftrightarrow> u \<le> target" for u target :: u32
  using inc_less_eq_iff [of target u] by (simp flip: not_le)

lemma cancel_simps [simp]:
  "get_row sid' (cancel_command sid st) = get_row sid' st"
  "dk_store (cancel_command sid st) = dk_store st" "dk_checkpoints (cancel_command sid st) = dk_checkpoints st"
  "dk_handlers (cancel_command sid st) = (dk_handlers st)(sid := None)"
  by (simp_all add: cancel_command_def get_row_def)

lemma restore_checkpoint_eq:
  assumes "get_row sid st = Some row"
    and "restore_to (dk_checkpoints st) sid target (se_folder row) (as_disk (dk_store st)) = (d', Inr n)"
  shows "restore_checkpoint show_err now sid target st =
     (Inr (), change_table (rewind_from_turn now sid (target + 1)) (delete_turns_from sid (target + 1)
        ((cancel_command sid st)\<lparr>dk_store := (dk_store st)\<lparr>as_disk := d'\<rparr>\<rparr>)))"
  using assms by (simp add: restore_checkpoint_def restore_files_def Let_def)

text \<open>
  C9. After any run of backed-up edits of the session in turns later than \<open>target\<close>, \<open>agent_restore_checkpoint\<close>
  succeeds: every file of the disk is as it was when \<open>target\<close> ended; the session keeps exactly its messages of
  turns up to \<open>target\<close> and those without a turn, and of its checkpoints exactly the directories of those turns (and
  any whose name is no turn), each as it was; its run is cancelled and its approval handler gone. The messages
  of other sessions, the checkpoint directories of other names, the other handlers, the sessions and the claimed
  folders stay as they are.
\<close>
theorem restore_checkpoint_undoes_run:
  assumes "edit_run sid target st0 d0 t (dk_checkpoints st) (as_disk (dk_store st)) K"
    and "plain_disk d0" and "fresh_after st0 sid target"
    and "names_ok (session_turns st0 (sanitize_session_id sid))"
    and "get_row sid st = Some row"
    and "\<forall>l \<in> K. path_starts_with (abs_path l) (components (se_folder row))" and "room_for K (as_disk (dk_store st))"
    and "target \<noteq> - 1"
  shows "\<exists>st'. restore_checkpoint show_err now sid target st = (Inr (), st')
     \<and> file_at (as_disk (dk_store st')) = file_at d0
     \<and> load_session_messages sid (as_table (dk_store st')) =
         filter (\<lambda>r. case sm_turn_count r of None \<Rightarrow> True | Some u \<Rightarrow> u \<le> target)
           (load_session_messages sid (as_table (dk_store st)))
     \<and> (\<forall>u \<in> set (list_turn_numbers (dk_checkpoints st') (sanitize_session_id sid)). u \<le> target)
     \<and> session_turns (dk_checkpoints st') (sanitize_session_id sid) =
         filter (\<lambda>(name, _). case parse_turn_from_dirname name of None \<Rightarrow> True | Some u \<Rightarrow> u \<le> target)
           (session_turns (dk_checkpoints st) (sanitize_session_id sid))
     \<and> (\<forall>root. root \<noteq> sanitize_session_id sid \<longrightarrow> dk_checkpoints st' root = dk_checkpoints st root)
     \<and> dk_handlers st' = (dk_handlers st)(sid := None) \<and> dk_manager st' = cancel_session sid (dk_manager st)
     \<and> dk_sessions st' = dk_sessions st \<and> dk_running st' = dk_running st \<and> dk_turns st' = dk_turns st
     \<and> (\<forall>s'. s' \<noteq> sid \<longrightarrow> load_session_messages s' (as_table (dk_store st')) = load_session_messages s' (as_table (dk_store st)))"
proof -
  have less: "u < target + 1 \<longleftrightarrow> u \<le> target" for u
    by (rule less_next [OF assms(8)])
  obtain d' n where undo: "restore_to (dk_checkpoints st) sid target (se_folder row) (as_disk (dk_store st)) = (d', Inr n)"
    and files: "file_at d' = file_at d0"
    using undo_run [OF assms(1,2,3,6,7)] by blast
  have names: "names_ok (session_turns (dk_checkpoints st) (sanitize_session_id sid))"
    by (rule edit_run_names [OF assms(1,4)])
  note messages = rewind_from_turn_hides [of sid now "target + 1" "as_table (dk_store st)", unfolded less]
  have kept: "session_turns (fst (delete_from (dk_checkpoints st) sid (target + 1))) (sanitize_session_id sid) =
      filter (\<lambda>(name, _). case parse_turn_from_dirname name of None \<Rightarrow> True | Some u \<Rightarrow> u \<le> target)
        (session_turns (dk_checkpoints st) (sanitize_session_id sid))"
    unfolding kept_turns(1) [OF names]
    by (rule filter_cong [OF refl]) (simp add: earlier_def less split: option.split prod.split)
  have others: "\<forall>root. root \<noteq> sanitize_session_id sid
      \<longrightarrow> fst (delete_from (dk_checkpoints st) sid (target + 1)) root = dk_checkpoints st root"
    using kept_turns(2) [OF names] by blast
  have cancel: "dk_manager (cancel_command sid st) = cancel_session sid (dk_manager st)"
    "dk_sessions (cancel_command sid st) = dk_sessions st" "dk_running (cancel_command sid st) = dk_running st"
    "dk_turns (cancel_command sid st) = dk_turns st"
    by (simp_all add: cancel_command_def)
  show ?thesis
    unfolding restore_checkpoint_eq [OF assms(5) undo]
    using messages deleted_turns [OF names, of "target + 1"] kept others
    by (auto simp: change_table_def delete_turns_from_def files less cancel)
qed

section \<open>Rewinding to a message\<close>

text \<open>A run that does not code numbers its messages from 1 again, whatever came before.\<close>

lemma ask_turns_from_one:
  "prepare_turn env None row st = Inr ts \<Longrightarrow> \<not> codes (parse_mode (se_mode row)) \<Longrightarrow> ts_offset ts = None"
  by (auto simp: prepare_turn_def load_turn_def Let_def split: if_splits sum.splits)

lemma rewind_messages_loads:
  "load_session_messages s (fst (rewind_messages now s i tbl)) = filter (\<lambda>r. sm_id r < i) (load_session_messages s tbl)"
proof -
  let ?g = "\<lambda>r. if active s r \<and> i \<le> sm_id r then r\<lparr>sm_rewound_at := Some now\<rparr> else r"
  have "filter (active s) (map ?g rs) = filter (\<lambda>r. sm_id r < i) (filter (active s) rs)" for rs
    by (induction rs) (auto simp: active_def)
  then show ?thesis
    by (simp add: load_session_messages_def rewind_messages_def update_rows_def del: filter_filter)
qed

lemma get_message_id: "get_message_by_id i tbl = Some r \<Longrightarrow> sm_id r = i"
  by (auto simp: get_message_by_id_def find_Some_iff)

definition own_message :: "str \<Rightarrow> nat \<Rightarrow> desktop \<Rightarrow> stored_message \<Rightarrow> bool" where
  "own_message sid mid st r \<longleftrightarrow>
     get_message_by_id mid (as_table (dk_store st)) = Some r \<and> sm_role r = ''user'' \<and> sm_session r = sid"

lemma rewind_own:
  assumes "own_message sid mid st r" and "get_row sid st = Some row"
  shows "rewind_to_message now sid mid restore st =
    claim_folder row
      (let st1 = change_table (rewind_messages now sid mid) st;
           k = (case sm_turn_count r of None \<Rightarrow> 1 | Some t \<Rightarrow> t)
       in if restore then delete_turns_from sid k
               (fst (restore_files sid (if k = 0 then 0 else k - 1) (se_folder row) st1)) else st1)"
  using assms get_message_id [of mid _ r]
  by (auto simp: rewind_to_message_def own_message_def get_row_def change_table_def Let_def)

text \<open>
  Rewinding to an own message of the user while the folder of the session is claimed, say because the
  session runs, fails only after its effects: the error says that a session is running, and yet the message
  and every later one of the session are hidden, whereas the run goes on as before.
\<close>
theorem rewind_hides_running:
  assumes "own_message sid mid st r" and "get_row sid st = Some row" and "se_folder row \<in> dk_running st"
  shows "\<exists>st'. rewind_to_message now sid mid restore st = (Inl (folder_busy_msg (se_folder row)), st')
     \<and> load_session_messages sid (as_table (dk_store st')) =
         filter (\<lambda>m. sm_id m < mid) (load_session_messages sid (as_table (dk_store st)))
     \<and> dk_manager st' = dk_manager st \<and> dk_running st' = dk_running st \<and> dk_turns st' = dk_turns st"
  unfolding rewind_own [OF assms(1,2)] using assms(3)
  by (simp add: claim_folder_def Let_def change_table_def rewind_messages_loads restore_files_def delete_turns_from_def
      split: prod.splits)

text \<open>
  Rewinding to an own message of turn \<open>target + 1\<close> with the files, when no session runs in the folder:
  every file is as it was when \<open>target\<close> ended, whatever backed-up edits followed, exactly the messages before
  that one remain, no later checkpoint does, and the folder is claimed for the new run.
\<close>
theorem rewind_to_message_undoes_run:
  assumes "edit_run sid target st0 d0 t (dk_checkpoints st) (as_disk (dk_store st)) K"
    and "plain_disk d0" and "fresh_after st0 sid target"
    and "names_ok (session_turns st0 (sanitize_session_id sid))"
    and "own_message sid mid st r" and "sm_turn_count r = Some (target + 1)" and "target \<noteq> - 1"
    and "get_row sid st = Some row" and "se_folder row \<notin> dk_running st"
    and "\<forall>l \<in> K. path_starts_with (abs_path l) (components (se_folder row))" and "room_for K (as_disk (dk_store st))"
  shows "\<exists>st'. rewind_to_message now sid mid True st = (Inr (length (dk_turns st)), st')
     \<and> file_at (as_disk (dk_store st')) = file_at d0
     \<and> load_session_messages sid (as_table (dk_store st')) =
         filter (\<lambda>m. sm_id m < mid) (load_session_messages sid (as_table (dk_store st)))
     \<and> (\<forall>u \<in> set (list_turn_numbers (dk_checkpoints st') (sanitize_session_id sid)). u \<le> target)
     \<and> se_folder row \<in> dk_running st'"
proof -
  have pos: "target + 1 \<noteq> 0"
    using assms(7) by (metis add_eq_0_iff2)
  obtain d' n where undo: "restore_to (dk_checkpoints st) sid target (se_folder row) (as_disk (dk_store st)) = (d', Inr n)"
    and files: "file_at d' = file_at d0"
    using undo_run [OF assms(1,2,3,10,11)] by blast
  have names: "names_ok (session_turns (dk_checkpoints st) (sanitize_session_id sid))"
    by (rule edit_run_names [OF assms(1,4)])
  show ?thesis
    unfolding rewind_own [OF assms(5,8)]
    using assms(9) deleted_turns [OF names, of "target + 1"]
    by (simp add: assms(6) pos Let_def claim_folder_def change_table_def restore_files_def undo delete_turns_from_def
        rewind_messages_loads files less_next [OF assms(7)])
qed

section \<open>An application with one edited file\<close>

definition demo_table :: message_table where
  "demo_table = fst (insert_message ''t'' ''s'' ''/p'' ''user'' ''text'' ''{}'' ''{}'' (Some 1) empty_table)"

definition edited_app :: "ck_store \<Rightarrow> desktop" where
  "edited_app cks = demo_app\<lparr>dk_checkpoints := cks,
     dk_store := \<lparr>as_table = demo_table, as_disk = demo_disk ''v1'', as_fresh = 0\<rparr>\<rparr>"

lemma edited_app_simps [simp]:
  "dk_checkpoints (edited_app cks) = cks" "dk_store (edited_app cks) = \<lparr>as_table = demo_table, as_disk = demo_disk ''v1'', as_fresh = 0\<rparr>"
  "get_row ''s'' (edited_app cks) = Some (session_row.truncate demo_session)"
  "dk_running (edited_app cks) = {}" "dk_turns (edited_app cks) = []"
  using demo_row by (simp_all add: edited_app_def get_row_def) (simp_all add: demo_app_def)

lemma demo_folder [simp]: "se_folder demo_session = ''/p''"
  by (simp add: demo_session_def)

lemma demo_names: "names_ok (session_turns (\<lambda>_. None) root)"
  by (simp add: names_ok_def session_turns_def)

lemma demo_message:
  "mt_rows demo_table = [\<lparr>sm_id = 1, sm_session = ''s'', sm_project = ''/p'', sm_role = ''user'', sm_type = ''text'',
     sm_llm_message = ''{}'', sm_metadata = ''{}'', sm_created_at = ''t'', sm_rewound_at = None, sm_turn_count = Some 1\<rparr>]"
  by (simp add: demo_table_def insert_message_def empty_table_def)

lemma demo_edited:
  assumes "backup_file (\<lambda>_. None) (demo_disk ''v0'') ''s'' 1 ''/p/a'' = Inr cks"
  shows "edit_run ''s'' 0 (\<lambda>_. None) (demo_disk ''v0'') 1 (dk_checkpoints (edited_app cks))
           (as_disk (dk_store (edited_app cks))) {[''p'', ''a'']}"
    and "\<forall>l \<in> {[''p'', ''a'']}. path_starts_with (abs_path l) (components (se_folder (session_row.truncate demo_session)))"
    and "room_for {[''p'', ''a'']} (as_disk (dk_store (edited_app cks)))"
    and "fresh_after (\<lambda>_. None) ''s'' 0"
  using demo_undo [OF assms] by simp_all

theorem restore_checkpoint_undoes_run_witness:
  "\<exists>cks st'. backup_file (\<lambda>_. None) (demo_disk ''v0'') ''s'' 1 ''/p/a'' = Inr cks
     \<and> restore_checkpoint (\<lambda>_. []) ''now'' ''s'' 0 (edited_app cks) = (Inr (), st')
     \<and> file_at (as_disk (dk_store st')) = file_at (demo_disk ''v0'')
     \<and> load_session_messages ''s'' (as_table (dk_store st')) = []"
proof -
  obtain cks where cks: "backup_file (\<lambda>_. None) (demo_disk ''v0'') ''s'' 1 ''/p/a'' = Inr cks"
    using demo_backup by blast
  note demo = demo_edited [OF cks]
  show ?thesis
    using restore_checkpoint_undoes_run [of _ _ _ _ _ _ _ _ "\<lambda>_. []" "''now''",
        OF demo(1) demo_disk_plain demo(4) demo_names edited_app_simps(3) demo(2,3)] cks
    by (auto simp: load_session_messages_def demo_message)
qed

lemma demo_own: "own_message ''s'' 1 (edited_app cks) (hd (mt_rows demo_table))"
  by (simp add: own_message_def get_message_by_id_def demo_message)

theorem rewind_hides_running_witness:
  "fst (rewind_to_message ''now'' ''s'' 1 False ((edited_app (\<lambda>_. None))\<lparr>dk_running := {''/p''}\<rparr>)) = Inl (folder_busy_msg ''/p'')"
proof -
  let ?app = "(edited_app (\<lambda>_. None))\<lparr>dk_running := {''/p''}\<rparr>"
  have "own_message ''s'' 1 ?app (hd (mt_rows demo_table))"
    using demo_own [of "\<lambda>_. None"] by (simp add: own_message_def)
  moreover have "get_row ''s'' ?app = Some (session_row.truncate demo_session)"
    using edited_app_simps(3) [of "\<lambda>_. None"] by (simp add: get_row_def)
  moreover have "se_folder (session_row.truncate demo_session) \<in> dk_running ?app"
    by simp
  ultimately show ?thesis
    using rewind_hides_running [of "''s''" 1 ?app _ _ "''now''" False] by force
qed

theorem rewind_to_message_undoes_run_witness:
  "\<exists>cks st'. backup_file (\<lambda>_. None) (demo_disk ''v0'') ''s'' 1 ''/p/a'' = Inr cks
     \<and> rewind_to_message ''now'' ''s'' 1 True (edited_app cks) = (Inr 0, st')
     \<and> file_at (as_disk (dk_store st')) = file_at (demo_disk ''v0'')
     \<and> load_session_messages ''s'' (as_table (dk_store st')) = []"
proof -
  obtain cks where cks: "backup_file (\<lambda>_. None) (demo_disk ''v0'') ''s'' 1 ''/p/a'' = Inr cks"
    using demo_backup by blast
  note demo = demo_edited [OF cks]
  have turn1: "sm_turn_count (hd (mt_rows demo_table)) = Some (0 + 1)" by (simp add: demo_message)
  show ?thesis
    using rewind_to_message_undoes_run [of _ _ _ _ _ _ _ _ _ _ "''now''",
        OF demo(1) demo_disk_plain demo(4) demo_names demo_own turn1 _ edited_app_simps(3) _ demo(2,3)] cks
    by (auto simp: load_session_messages_def demo_message)
qed

end
