(* ===== verification/EventRelay.thy ===== *)
theory EventRelay
  imports AgentLoop
begin

text \<open>
  The relay of the events of a run to the window, \<open>apps/desktop/src-tauri/src/agent_bridge/events.rs\<close>: each
  event becomes a window event, text and tool steps are gathered into finished messages, token usage is stored
  and turn diffs are computed by tasks of their own. The result is the list of these actions in order. What
  the relay takes from outside is in \<open>relay_env\<close>: the JSON parser, the seconds on the clock at the \<open>n\<close>-th event, and
  the fresh id and time stamp of the \<open>n\<close>-th action. A window event that cannot be delivered is only logged.
\<close>

section \<open>Answers that are tool calls by mistake\<close>

text \<open>\<open>events.rs\<close> and \<open>commands.rs\<close> have the same four functions.\<close>

definition FENCE :: str where "FENCE = ''```''"

fun fenced_body :: "str list \<Rightarrow> str" where
  "fenced_body [] = []"
| "fenced_body (l # ls) = (if starts_with (trim l) FENCE then [] else l @ [NL] @ fenced_body ls)"

definition parse_tool_payload_json :: "(str \<Rightarrow> json option) \<Rightarrow> str \<Rightarrow> json option" where
  "parse_tool_payload_json parse raw =
     (let trimmed = trim raw in
      if trimmed = [] then None
      else case parse trimmed of
        Some v \<Rightarrow> Some v
      | None \<Rightarrow>
          if \<not> starts_with trimmed FENCE then None
          else
            let ls = str_lines trimmed; first = (case ls of [] \<Rightarrow> [] | l # _ \<Rightarrow> trim l) in
            if \<not> starts_with first FENCE then None
            else
              let body = trim (fenced_body (drop 1 ls)) in
              if body = [] then None else parse body)"

definition name_at :: "json \<Rightarrow> str \<Rightarrow> str option" where
  "name_at v k = Option.bind (json_get v k) as_str"

definition leaked_tool_name :: "json \<Rightarrow> str option" where
  "leaked_tool_name v =
     (case as_object v of
        None \<Rightarrow> None
      | Some _ \<Rightarrow>
          if json_get v ''tool_calls'' \<noteq> None then
            (case Option.bind (json_get v ''tool_calls'') as_array of
               Some (first # _) \<Rightarrow>
                 (case Option.bind (json_get first ''function'') (\<lambda>f. name_at f ''name'') of
                    Some n \<Rightarrow> Some n
                  | None \<Rightarrow> name_at first ''name'')
             | _ \<Rightarrow> None)
          else
            case Option.bind (json_get v ''function'') (\<lambda>f. name_at f ''name'') of
              Some n \<Rightarrow> Some n
            | None \<Rightarrow>
                if json_get v ''arguments'' = None then None
                else case name_at v ''name'' of Some n \<Rightarrow> Some n | None \<Rightarrow> name_at v ''tool'')"

definition conversational_fallback_for_tool :: "str \<Rightarrow> str" where
  "conversational_fallback_for_tool tool_name =
     (let normalized = ascii_lowercase tool_name in
      if contains normalized ''todo_write'' \<or> contains normalized ''todo''
      then ''I updated the todo list and will continue with the next steps.''
      else ''I used the '' @ tool_name @ '' tool and I will continue with the next step.'')"

definition sanitize_assistant_display_text :: "(str \<Rightarrow> json option) \<Rightarrow> str \<Rightarrow> str" where
  "sanitize_assistant_display_text parse raw =
     (case Option.bind (parse_tool_payload_json parse raw) leaked_tool_name of
        None \<Rightarrow> raw
      | Some tool_name \<Rightarrow> conversational_fallback_for_tool tool_name)"

section \<open>The accumulator\<close>

record accumulator =
  ma_steps :: "str list"
  ma_start :: "nat option"
  ma_text :: str

definition empty_acc :: accumulator where
  "empty_acc = \<lparr>ma_steps = [], ma_start = None, ma_text = []\<rparr>"

definition has_content :: "accumulator \<Rightarrow> bool" where
  "has_content acc \<longleftrightarrow> ma_text acc \<noteq> [] \<or> ma_steps acc \<noteq> []"

definition thinking_header :: "nat \<Rightarrow> str list \<Rightarrow> str" where
  "thinking_header duration steps =
     (if steps = [] then []
      else ''<!-- thinking duration='' @ to_decimal duration @ '' -->'' @ [NL]
             @ concat (map (\<lambda>s. s @ [NL]) steps) @ ''<!-- /thinking -->'' @ [NL, NL])"

definition build_content :: "(str \<Rightarrow> json option) \<Rightarrow> nat \<Rightarrow> accumulator \<Rightarrow> str \<times> accumulator" where
  "build_content parse now acc =
     (thinking_header (case ma_start acc of None \<Rightarrow> 0 | Some s \<Rightarrow> now - s) (ma_steps acc)
        @ sanitize_assistant_display_text parse (ma_text acc), empty_acc)"

definition on_text_delta :: "str \<Rightarrow> accumulator \<Rightarrow> accumulator" where
  "on_text_delta delta acc = acc\<lparr>ma_text := ma_text acc @ delta\<rparr>"

definition on_tool_start :: "(str \<Rightarrow> json option) \<Rightarrow> nat \<Rightarrow> str \<Rightarrow> accumulator \<Rightarrow> str option \<times> accumulator" where
  "on_tool_start parse now args_summary acc =
     (let (flushed, acc1) =
            (if ma_text acc \<noteq> [] then (case build_content parse now acc of (c, a) \<Rightarrow> (Some c, a)) else (None, acc));
          acc2 = (if ma_start acc1 = None then acc1\<lparr>ma_start := Some now\<rparr> else acc1)
      in (flushed, acc2\<lparr>ma_steps := ma_steps acc2 @ [args_summary]\<rparr>))"

section \<open>Actions\<close>

datatype relay_action =
    Emit str json
  | SaveUsage u32 u32
  | SpawnDiff u32 "str list"

record relay_env =
  rl_parse :: "str \<Rightarrow> json option"
  rl_session :: str
  rl_has_db :: bool
  rl_has_checkpoints :: bool
  rl_clock :: "nat \<Rightarrow> nat"
  rl_stamp :: "nat \<Rightarrow> str \<times> str"

record relay_state =
  rs_acc :: accumulator
  rs_subagent_calls :: "str set"
  rs_actions :: "relay_action list"

definition initial_relay :: relay_state where
  "initial_relay = \<lparr>rs_acc = empty_acc, rs_subagent_calls = {}, rs_actions = []\<rparr>"

text \<open>An object of \<open>json!\<close>: its keys are sorted, a later value replaces an earlier one.\<close>

definition jobj :: "(str \<times> json) list \<Rightarrow> json" where
  "jobj es = JObj (fold (\<lambda>(k, v). obj_insert k v) es [])"

fun opt_json :: "('a \<Rightarrow> json) \<Rightarrow> 'a option \<Rightarrow> json" where
  "opt_json f None = JNull"
| "opt_json f (Some x) = f x"

definition num_json :: "u32 \<Rightarrow> json" where
  "num_json n = JNum (PosInt (ucast n))"

definition strs_json :: "str list \<Rightarrow> json" where
  "strs_json xs = JArr (map JStr xs)"

definition todo_json :: "todo_item \<Rightarrow> json" where
  "todo_json t = jobj [(''id'', JStr (ti_id t)), (''content'', JStr (ti_content t)), (''status'', JStr (ti_status t))]"

definition act :: "relay_action \<Rightarrow> relay_state \<Rightarrow> relay_state" where
  "act a st = st\<lparr>rs_actions := rs_actions st @ [a]\<rparr>"

definition emit_window :: "relay_env \<Rightarrow> str \<Rightarrow> (str \<times> json) list \<Rightarrow> relay_state \<Rightarrow> relay_state" where
  "emit_window env name es = act (Emit name (jobj ((''thread_id'', JStr (rl_session env)) # es)))"

definition flush_content :: "relay_env \<Rightarrow> str \<Rightarrow> relay_state \<Rightarrow> relay_state" where
  "flush_content env content st =
     (case rl_stamp env (length (rs_actions st)) of (i, created_at) \<Rightarrow>
        emit_window env ''agent:message_complete''
          [(''message'', jobj [(''id'', JStr i), (''role'', JStr ''assistant''), (''content'', JStr content),
             (''created_at'', JStr created_at)])] st)"

definition flush_all :: "relay_env \<Rightarrow> nat \<Rightarrow> relay_state \<Rightarrow> relay_state" where
  "flush_all env now st =
     (if has_content (rs_acc st)
      then case build_content (rl_parse env) now (rs_acc st) of
             (content, acc) \<Rightarrow> flush_content env content (st\<lparr>rs_acc := acc\<rparr>)
      else st)"

definition start_step :: "relay_env \<Rightarrow> nat \<Rightarrow> str \<Rightarrow> relay_state \<Rightarrow> relay_state" where
  "start_step env now label st =
     (case on_tool_start (rl_parse env) now label (rs_acc st) of
        (flushed, acc) \<Rightarrow>
          (case flushed of None \<Rightarrow> id | Some content \<Rightarrow> flush_content env content) (st\<lparr>rs_acc := acc\<rparr>))"

section \<open>One event\<close>

fun relay_event :: "relay_env \<Rightarrow> nat \<Rightarrow> agent_event \<Rightarrow> relay_state \<Rightarrow> relay_state \<times> bool" where
  "relay_event env now (ThinkingDelta sid delta) st = (st, False)"
| "relay_event env now (TextDelta sid delta) st =
     (emit_window env ''agent:text_delta'' [(''delta'', JStr delta)]
        (st\<lparr>rs_acc := on_text_delta delta (rs_acc st)\<rparr>), False)"
| "relay_event env now (ToolStart sid call tool_name args_summary) st =
     (if tool_name = ''spawn_subagent''
      then (st\<lparr>rs_subagent_calls := insert call (rs_subagent_calls st)\<rparr>, False)
      else (emit_window env ''agent:tool_start''
              [(''tool_call_id'', JStr call), (''tool_name'', JStr tool_name), (''args_summary'', JStr args_summary)]
              (start_step env now args_summary st), False))"
| "relay_event env now (ToolEnd sid call success summary modified_files) st =
     (if call \<in> rs_subagent_calls st
      then (st\<lparr>rs_subagent_calls := rs_subagent_calls st - {call}\<rparr>, False)
      else (emit_window env ''agent:tool_end''
              [(''tool_call_id'', JStr call), (''success'', JBool success), (''summary'', JStr summary),
               (''modified_files'', opt_json strs_json modified_files)] st, False))"
| "relay_event env now (ToolStatus sid call status) st = (st, False)"
| "relay_event env now (ErrorEvent sid message retrying) st =
     (emit_window env ''agent:error'' [(''message'', JStr message), (''retrying'', JBool retrying)] st, False)"
| "relay_event env now (CompactionEvent sid) st = (emit_window env ''agent:compaction'' [] st, False)"
| "relay_event env now (TokenUsage sid total_tokens context_limit cache_read cache_creation) st =
     ((if rl_has_db env
       then act (SaveUsage total_tokens (case context_limit of None \<Rightarrow> 0 | Some n \<Rightarrow> n)) else id)
        (emit_window env ''agent:token_usage''
          [(''total_tokens'', num_json total_tokens), (''context_limit'', opt_json num_json context_limit),
           (''cache_read_tokens'', opt_json num_json cache_read),
           (''cache_creation_tokens'', opt_json num_json cache_creation)] st), False)"
| "relay_event env now (DoneEvent sid summary) st =
     (emit_window env ''agent:done'' [(''summary'', opt_json JStr summary)] (flush_all env now st), True)"
| "relay_event env now (TurnCompleted sid turn_count modified_files) st =
     ((if rl_has_checkpoints env then act (SpawnDiff turn_count modified_files) st else st), False)"
| "relay_event env now (UserQuestionAsked sid question options) st =
     (emit_window env ''agent:question_asked''
        [(''session_id'', JStr sid), (''question'', JStr question), (''options'', opt_json strs_json options)] st, False)"
| "relay_event env now (PlanReadyEvent sid plan plan_path project_path) st =
     (emit_window env ''agent:plan_ready''
        [(''session_id'', JStr sid), (''plan'', JStr plan), (''plan_path'', JStr plan_path),
         (''project_path'', JStr project_path)] st, False)"
| "relay_event env now (TodoUpdated sid todos) st =
     (emit_window env ''agent:todo_updated'' [(''todos'', JArr (map todo_json todos))] st, False)"
| "relay_event env now (SkillLoaded sid skill_name) st =
     (emit_window env ''agent:skill_loaded'' [(''skill_name'', JStr skill_name)] st, False)"
| "relay_event env now (SubagentStart sid call child name prompt_preview) st =
     (emit_window env ''agent:subagent_start''
        [(''parent_tool_call_id'', JStr call), (''child_session_id'', JStr child),
         (''subagent_name'', JStr name), (''prompt_preview'', JStr prompt_preview)]
        (start_step env now (''Subagent: '' @ name) st), False)"
| "relay_event env now (SubagentEnd sid call child success summary) st =
     (emit_window env ''agent:subagent_end''
        [(''parent_tool_call_id'', JStr call), (''child_session_id'', JStr child),
         (''success'', JBool success), (''summary'', JStr summary)] st, False)"

section \<open>The relay\<close>

fun relay_events :: "relay_env \<Rightarrow> nat \<Rightarrow> agent_event list \<Rightarrow> relay_state \<times> bool \<Rightarrow> relay_state \<times> bool" where
  "relay_events env n [] sd = sd"
| "relay_events env n (e # es) (st, saw_done) =
     (case relay_event env (rl_clock env n) e st of (st', d) \<Rightarrow> relay_events env (Suc n) es (st', saw_done \<or> d))"

text \<open>The whole task, run on the events until the channel closes.\<close>

definition spawn_event_relay :: "relay_env \<Rightarrow> agent_event list \<Rightarrow> relay_state" where
  "spawn_event_relay env es =
     (case relay_events env 0 es (initial_relay, False) of
        (st, saw_done) \<Rightarrow>
          if \<not> saw_done \<and> has_content (rs_acc st)
          then emit_window env ''agent:done'' [(''summary'', JNull)]
                 (flush_all env (rl_clock env (length es)) st)
          else st)"

text \<open>What the task of a turn diff reports; the relay waits for these tasks before it ends.\<close>

definition diff_report :: "str \<Rightarrow> u32 \<Rightarrow> str list \<Rightarrow> git_error + diff_output \<Rightarrow> relay_action" where
  "diff_report sid turn_count files result =
     Emit ''agent:turn_diff_completed'' (jobj
       ([(''thread_id'', JStr sid), (''turn_count'', num_json turn_count), (''files'', strs_json files)]
        @ (case result of
             Inr d \<Rightarrow> [(''additions'', JNum (PosInt (word_of_nat (do_insertions d)))),
                      (''deletions'', JNum (PosInt (word_of_nat (do_deletions d)))),
                      (''diff'', JStr (do_diff d)), (''stat'', JStr (do_stat d)), (''status'', JStr ''ready'')]
           | Inl _ \<Rightarrow> [(''additions'', JNum (PosInt 0)), (''deletions'', JNum (PosInt 0)),
                      (''diff'', JStr []), (''stat'', JStr []), (''status'', JStr ''partial'')])))"

end
