(* ===== verification/Display.thy ===== *)
theory Display
  imports MessageDb EventRelay
begin

text \<open>
  What the window shows of a stored session: \<open>agent_get_messages\<close> of
  \<open>apps/desktop/src-tauri/src/agent_bridge/commands.rs\<close> with the text, media and tool summaries it takes from a row
  (also \<open>extract_display_content\<close> of \<open>db.rs\<close>). Time stamps are read by a parameter, in nanoseconds.
\<close>

section \<open>Content of a row\<close>

record tool_chip =
  tc_name :: str
  tc_summary :: str

record display_message =
  dm_id :: nat
  dm_role :: str
  dm_text :: str
  dm_created_at :: str
  dm_session :: str
  dm_tools :: "tool_chip list"
  dm_duration :: u32
  dm_images :: "str list"
  dm_videos :: "str list"

record display_env =
  de_json :: json_text
  de_media :: media_env
  de_disk :: disk
  de_time :: "str \<Rightarrow> int option"

fun display_block :: "json \<Rightarrow> str \<times> str list \<times> str list \<Rightarrow> str \<times> str list \<times> str list" where
  "display_block block (tx, images, videos) =
     (let ty = name_at block ''type'' in
      if ty = Some ''text'' then
        (case name_at block ''text'' of None \<Rightarrow> (tx, images, videos) | Some t \<Rightarrow> (tx @ t, images, videos))
      else if ty = Some ''image_url'' then
        (case Option.bind (json_get block ''image_url'') (\<lambda>i. name_at i ''url'') of
           None \<Rightarrow> (tx, images, videos) | Some u \<Rightarrow> (tx, images @ [u], videos))
      else if ty = Some ''video_url'' then
        (case Option.bind (json_get block ''video_url'') (\<lambda>i. name_at i ''url'') of
           None \<Rightarrow> (tx, images, videos) | Some u \<Rightarrow> (tx, images, videos @ [u]))
      else (tx, images, videos))"

definition extract_display_content :: "display_env \<Rightarrow> str \<Rightarrow> str \<Rightarrow> str \<times> str list \<times> str list" where
  "extract_display_content env llm_message session_id =
     (let val = inline_attachments (de_media env) session_id (de_disk env)
                  (case jt_parse (de_json env) llm_message of None \<Rightarrow> JObj [] | Some v \<Rightarrow> v);
          content = (case json_get val ''content'' of None \<Rightarrow> JNull | Some c \<Rightarrow> c)
      in case as_str content of
           Some s \<Rightarrow> (s, [], [])
         | None \<Rightarrow>
             (case as_array content of
                None \<Rightarrow> ([], [], [])
              | Some blocks \<Rightarrow> fold display_block blocks ([], [], [])))"

section \<open>Tool calls\<close>

definition base_name :: "str \<Rightarrow> str" where
  "base_name p = last (split_char SLASH p)"

definition tool_arg_summary :: "str \<Rightarrow> json \<Rightarrow> str" where
  "tool_arg_summary name args =
     (let get = (\<lambda>k. case name_at args k of None \<Rightarrow> [] | Some s \<Rightarrow> s) in
      if name \<in> {''read'', ''write'', ''edit'', ''apply_patch''} then base_name (get ''filePath'')
      else if name = ''ls'' then base_name (get ''path'')
      else if name \<in> {''bash'', ''git''} then get ''command''
      else if name \<in> {''grep'', ''glob''} then get ''pattern''
      else if name \<in> {''codebase_search'', ''codebase_graph''} then get ''query''
      else if name \<in> {''save_plan'', ''edit_plan''} then base_name (get ''path'')
      else if name = ''todo_write'' then ''Updated todos''
      else if name = ''spawn_subagent'' then get ''name''
      else [])"

definition elapsed_secs :: "(str \<Rightarrow> int option) \<Rightarrow> str \<Rightarrow> str \<Rightarrow> u32" where
  "elapsed_secs time from_stamp to_stamp =
     (case (time from_stamp, time to_stamp) of
        (Some a, Some b) \<Rightarrow> word_of_int (max 0 (b - a) div 1000000000)
      | _ \<Rightarrow> 0)"

definition tool_chip_of :: "json_text \<Rightarrow> json \<Rightarrow> tool_chip option" where
  "tool_chip_of jt c =
     Option.bind (json_get c ''function'') (\<lambda>func.
     Option.bind (name_at func ''name'') (\<lambda>name.
       let args = (case Option.bind (name_at func ''arguments'') (jt_parse jt) of None \<Rightarrow> JNull | Some v \<Rightarrow> v)
       in Some \<lparr>tc_name = name, tc_summary = tool_arg_summary name args\<rparr>))"

definition parse_tool_chips :: "json_text \<Rightarrow> str \<Rightarrow> tool_chip list" where
  "parse_tool_chips jt llm_message =
     (case Option.bind (jt_parse jt llm_message) (\<lambda>v. Option.bind (json_get v ''tool_calls'') as_array) of
        None \<Rightarrow> []
      | Some calls \<Rightarrow> List.map_filter (tool_chip_of jt) calls)"

section \<open>The walk over the rows\<close>

definition shown_content :: "display_env \<Rightarrow> stored_message \<Rightarrow> str \<times> str list \<times> str list" where
  "shown_content env msg =
     (case extract_display_content env (sm_llm_message msg) (sm_session msg) of
        (tx, images, videos) \<Rightarrow>
          (if sm_role msg = ''assistant'' then sanitize_assistant_display_text (jt_parse (de_json env)) tx else tx,
           images, videos))"

definition display_of :: "stored_message \<Rightarrow> str \<times> str list \<times> str list \<Rightarrow> tool_chip list \<Rightarrow> u32 \<Rightarrow> display_message" where
  "display_of msg content tools secs =
     (case content of (tx, images, videos) \<Rightarrow>
        \<lparr>dm_id = sm_id msg, dm_role = sm_role msg, dm_text = tx, dm_created_at = sm_created_at msg,
         dm_session = sm_session msg, dm_tools = tools, dm_duration = secs, dm_images = images, dm_videos = videos\<rparr>)"

fun display_rows :: "display_env \<Rightarrow> stored_message list \<Rightarrow> tool_chip list \<Rightarrow> str option \<Rightarrow> display_message list" where
  "display_rows env [] pending started = []"
| "display_rows env (msg # rest) pending started =
     (if sm_type msg = ''tool_call'' then
        display_rows env rest (pending @ parse_tool_chips (de_json env) (sm_llm_message msg))
          (if started = None then Some (sm_created_at msg) else started)
      else if (sm_role msg \<noteq> ''user'' \<and> sm_role msg \<noteq> ''assistant'') \<or> sm_type msg \<noteq> ''text'' then
        display_rows env rest pending started
      else if shown_content env msg = ([], [], []) then
        (if sm_role msg = ''user'' then display_rows env rest [] None else display_rows env rest pending started)
      else if sm_role msg = ''assistant'' then
        display_of msg (shown_content env msg) pending
            (case started of None \<Rightarrow> 0 | Some s \<Rightarrow> elapsed_secs (de_time env) s (sm_created_at msg))
          # display_rows env rest [] None
      else display_of msg (shown_content env msg) [] 0 # display_rows env rest [] None)"

definition get_messages :: "display_env \<Rightarrow> str \<Rightarrow> message_table \<Rightarrow> display_message list" where
  "get_messages env session_id tbl = display_rows env (load_session_messages session_id tbl) [] None"

section \<open>What is shown\<close>

definition displayable :: "display_env \<Rightarrow> stored_message \<Rightarrow> bool" where
  "displayable env r \<longleftrightarrow> sm_type r = ''text'' \<and> sm_role r \<in> {''user'', ''assistant''} \<and> shown_content env r \<noteq> ([], [], [])"

text \<open>A row after which the tool calls before it are not attached to a later message.\<close>

definition takes_tools :: "display_env \<Rightarrow> stored_message \<Rightarrow> bool" where
  "takes_tools env r \<longleftrightarrow> sm_type r = ''text'' \<and> (sm_role r = ''user'' \<or> sm_role r = ''assistant'' \<and> shown_content env r \<noteq> ([], [], []))"

text \<open>The tool call rows since then.\<close>

definition recent_calls :: "display_env \<Rightarrow> stored_message list \<Rightarrow> stored_message list" where
  "recent_calls env before =
     filter (\<lambda>r. sm_type r = ''tool_call'') (rev (takeWhile (\<lambda>r. \<not> takes_tools env r) (rev before)))"

definition display_spec :: "display_env \<Rightarrow> stored_message list \<Rightarrow> stored_message \<Rightarrow> display_message" where
  "display_spec env before r =
     (let calls = recent_calls env before in
      if sm_role r = ''user'' then display_of r (shown_content env r) [] 0
      else display_of r (shown_content env r)
             (concat (map (\<lambda>c. parse_tool_chips (de_json env) (sm_llm_message c)) calls))
             (case calls of [] \<Rightarrow> 0 | c # _ \<Rightarrow> elapsed_secs (de_time env) (sm_created_at c) (sm_created_at r)))"

lemma recent_calls_snoc:
  "recent_calls env (before @ [r]) =
     (if takes_tools env r then []
      else recent_calls env before @ (if sm_type r = ''tool_call'' then [r] else []))"
  by (simp add: recent_calls_def)

lemma display_rows_spec:
  assumes "pending = concat (map (\<lambda>c. parse_tool_chips (de_json env) (sm_llm_message c)) (recent_calls env before))"
    and "started = (case recent_calls env before of [] \<Rightarrow> None | c # _ \<Rightarrow> Some (sm_created_at c))"
  shows "display_rows env rows pending started
     = map (\<lambda>i. display_spec env (before @ take i rows) (rows ! i))
         (filter (\<lambda>i. displayable env (rows ! i)) [0..<length rows])"
  using assms
proof (induction rows arbitrary: before pending started)
  case (Cons r rs)
  have idx: "map (\<lambda>i. display_spec env (before @ take i (r # rs)) ((r # rs) ! i))
         (filter (\<lambda>i. displayable env ((r # rs) ! i)) [0..<length (r # rs)])
     = (if displayable env r then [display_spec env before r] else [])
       @ map (\<lambda>i. display_spec env ((before @ [r]) @ take i rs) (rs ! i))
           (filter (\<lambda>i. displayable env (rs ! i)) [0..<length rs])"
    by (simp add: upt_conv_Cons map_Suc_upt [symmetric] filter_map comp_def del: upt_Suc)
  note IH = Cons.IH [of _ "before @ [r]", unfolded recent_calls_snoc, symmetric]
  show ?case
    unfolding idx using Cons.prems
    by (auto simp: displayable_def takes_tools_def display_spec_def Let_def IH [symmetric] split: list.splits)
qed simp

text \<open>
  The window shows exactly the text rows of the user and the assistant that have any content, in order. A
  message of the assistant carries the tool calls made since the last row of the user or shown message, all
  of them and in order, and the time since the first of these; a message of the user carries none.
\<close>
theorem get_messages_attaches_tools:
  "get_messages env session_id tbl =
     (let rows = load_session_messages session_id tbl in
      map (\<lambda>i. display_spec env (take i rows) (rows ! i))
        (filter (\<lambda>i. displayable env (rows ! i)) [0..<length rows]))"
  unfolding get_messages_def Let_def
  using display_rows_spec [of "[]" env "[]" None] by (simp add: recent_calls_def)

end
