(* ===== verification/EventRelayFacts.thy ===== *)
theory EventRelayFacts
  imports EventRelay
begin

text \<open>
  Every piece of text and every tool step of a run is shown in exactly one finished message, in order, and the
  end of the run is announced once.
\<close>

section \<open>Reading window events\<close>

lemma map_of_jobj_fold: "map_of (fold (\<lambda>(k, v). obj_insert k v) es acc) = map_of acc ++ map_of (rev es)"
proof (induction es arbitrary: acc)
  case (Cons e es)
  then show ?case by (cases e) (simp add: map_of_obj_insert map_add_def fun_eq_iff split: option.splits)
qed simp

lemma json_get_jobj [simp]: "json_get (jobj es) k = map_of (rev es) k"
  by (simp add: jobj_def map_of_jobj_fold)

fun completed :: "relay_action \<Rightarrow> str list" where
  "completed (Emit name v) =
     (if name = ''agent:message_complete''
      then (case Option.bind (json_get v ''message'') (\<lambda>m. name_at m ''content'') of None \<Rightarrow> [] | Some c \<Rightarrow> [c])
      else [])"
| "completed _ = []"

fun is_done_action :: "relay_action \<Rightarrow> bool" where
  "is_done_action (Emit name v) = (name = ''agent:done'')"
| "is_done_action _ = False"

definition contents :: "relay_state \<Rightarrow> str list" where
  "contents st = concat (map completed (rs_actions st))"

definition done_count :: "relay_state \<Rightarrow> nat" where
  "done_count st = length (filter is_done_action (rs_actions st))"

section \<open>What a run has to show\<close>

text \<open>Pieces of text and tool steps, as the events bring them.\<close>

datatype shown_item = TextItem str | StepItem str

fun event_items :: "agent_event \<Rightarrow> shown_item list" where
  "event_items (TextDelta sid delta) = [TextItem delta]"
| "event_items (ToolStart sid call tool_name args_summary) =
     (if tool_name = ''spawn_subagent'' then [] else [StepItem args_summary])"
| "event_items (SubagentStart sid call child name prompt_preview) = [StepItem (''Subagent: '' @ name)]"
| "event_items _ = []"

fun is_done :: "agent_event \<Rightarrow> bool" where
  "is_done (DoneEvent sid summary) = True"
| "is_done _ = False"

definition run_items :: "agent_event list \<Rightarrow> shown_item list" where
  "run_items es = concat (map event_items es)"

text \<open>The messages that they make, from steps and text already gathered: a message is some steps and the text after
  them; the next step after some text begins the next message.\<close>

fun segments :: "str list \<Rightarrow> str \<Rightarrow> shown_item list \<Rightarrow> (str list \<times> str) list" where
  "segments steps t [] = (if steps = [] \<and> t = [] then [] else [(steps, t)])"
| "segments steps t (TextItem d # is) = segments steps (t @ d) is"
| "segments steps t (StepItem s # is) =
     (if t = [] then segments (steps @ [s]) [] is else (steps, t) # segments [s] [] is)"

fun item_text :: "shown_item \<Rightarrow> str" where
  "item_text (TextItem d) = d"
| "item_text (StepItem s) = []"

fun item_steps :: "shown_item \<Rightarrow> str list" where
  "item_steps (TextItem d) = []"
| "item_steps (StepItem s) = [s]"

text \<open>Together the messages have every piece of text and every step exactly once, in order.\<close>

lemma segments_cover:
  "concat (map snd (segments steps t its)) = t @ concat (map item_text its)
   \<and> concat (map fst (segments steps t its)) = steps @ concat (map item_steps its)"
  by (induction steps t its rule: segments.induct) auto

lemma segments_nothing: "segments steps t its = [] \<longleftrightarrow> steps = [] \<and> t = [] \<and> (\<forall>i \<in> set its. i = TextItem [])"
  by (induction steps t its rule: segments.induct) auto

text \<open>A finished message: the steps before it, their duration and the text.\<close>

definition show_message :: "(str \<Rightarrow> json option) \<Rightarrow> str list \<times> nat \<times> str \<Rightarrow> str" where
  "show_message parse m =
     (case m of (steps, d, t) \<Rightarrow> thinking_header d steps @ sanitize_assistant_display_text parse t)"

definition without_duration :: "str list \<times> nat \<times> str \<Rightarrow> str list \<times> str" where
  "without_duration m = (case m of (steps, d, t) \<Rightarrow> (steps, t))"

section \<open>The accounting\<close>

text \<open>What has been shown are the messages of the items so far, but for the one that is gathered.\<close>

definition accounted :: "(str \<Rightarrow> json option) \<Rightarrow> relay_state \<Rightarrow> shown_item list \<Rightarrow> bool" where
  "accounted parse st its \<longleftrightarrow>
     (\<exists>ms. contents st = map (show_message parse) ms
         \<and> (\<forall>rest. segments [] [] (its @ rest)
              = map without_duration ms @ segments (ma_steps (rs_acc st)) (ma_text (rs_acc st)) rest))"

text \<open>What has been shown are the messages of the items.\<close>

definition all_shown :: "(str \<Rightarrow> json option) \<Rightarrow> relay_state \<Rightarrow> shown_item list \<Rightarrow> bool" where
  "all_shown parse st its \<longleftrightarrow>
     (\<exists>ms. contents st = map (show_message parse) ms \<and> map without_duration ms = segments [] [] its)"

lemma contents_emit [simp]:
  "name \<noteq> ''agent:message_complete'' \<Longrightarrow> contents (emit_window env name es st) = contents st"
  by (simp add: contents_def emit_window_def act_def)

lemma contents_acc [simp]: "contents (st\<lparr>rs_acc := a\<rparr>) = contents st"
  by (simp add: contents_def)

lemma contents_calls [simp]: "contents (st\<lparr>rs_subagent_calls := a\<rparr>) = contents st"
  by (simp add: contents_def)

lemma contents_flush [simp]: "contents (flush_content env c st) = contents st @ [c]"
  by (simp add: contents_def flush_content_def emit_window_def act_def name_at_def split: prod.splits)

lemma acc_emit [simp]: "rs_acc (emit_window env name es st) = rs_acc st"
  by (simp add: emit_window_def act_def)

lemma acc_flush [simp]: "rs_acc (flush_content env c st) = rs_acc st"
  by (simp add: flush_content_def split: prod.splits)

lemma accounted_emit [simp]:
  "name \<noteq> ''agent:message_complete'' \<Longrightarrow> accounted parse (emit_window env name es st) = accounted parse st"
  "name \<noteq> ''agent:message_complete'' \<Longrightarrow> all_shown parse (emit_window env name es st) = all_shown parse st"
  by (simp_all add: accounted_def all_shown_def fun_eq_iff)

lemma accounted_calls [simp]: "accounted parse (st\<lparr>rs_subagent_calls := a\<rparr>) = accounted parse st"
  by (simp add: accounted_def fun_eq_iff)

lemma accounted_save [simp]: "accounted parse (act (SaveUsage a b) st) = accounted parse st"
  by (simp add: accounted_def fun_eq_iff contents_def act_def)

lemma accounted_diff [simp]: "accounted parse (act (SpawnDiff a b) st) = accounted parse st"
  by (simp add: accounted_def fun_eq_iff contents_def act_def)

lemma accounted_delta:
  "accounted parse st its \<Longrightarrow>
     accounted parse (st\<lparr>rs_acc := on_text_delta d (rs_acc st)\<rparr>) (its @ [TextItem d])"
  by (fastforce simp: accounted_def on_text_delta_def)

lemma flushed_message:
  "fst (build_content parse now acc) =
     show_message parse (ma_steps acc, case ma_start acc of None \<Rightarrow> 0 | Some s \<Rightarrow> now - s, ma_text acc)"
  by (simp add: show_message_def build_content_def)

lemma accounted_flush_all:
  assumes "rl_parse env = parse" and "accounted parse st its"
  shows "all_shown parse (flush_all env now st) its"
proof -
  from assms(2) obtain ms where c: "contents st = map (show_message parse) ms"
    and "\<forall>rest. segments [] [] (its @ rest) = map without_duration ms @ segments (ma_steps (rs_acc st)) (ma_text (rs_acc st)) rest"
    unfolding accounted_def by blast
  from spec [OF this(2), of "[]"]
  have ms: "segments [] [] its = map without_duration ms @ segments (ma_steps (rs_acc st)) (ma_text (rs_acc st)) []" by simp
  show ?thesis
  proof (cases "has_content (rs_acc st)")
    case True
    let ?m = "(ma_steps (rs_acc st), case ma_start (rs_acc st) of None \<Rightarrow> 0 | Some s \<Rightarrow> now - s, ma_text (rs_acc st))"
    have "contents (flush_all env now st) = map (show_message parse) (ms @ [?m])"
      using True c flushed_message [of parse now "rs_acc st"] assms(1) by (simp add: flush_all_def case_prod_unfold)
    with True ms show ?thesis
      unfolding all_shown_def by (intro exI [of _ "ms @ [?m]"]) (auto simp: has_content_def without_duration_def)
  next
    case False
    with c ms show ?thesis by (auto simp: all_shown_def flush_all_def has_content_def)
  qed
qed

lemma flush_all_no_content [simp]: "has_content (rs_acc (flush_all env now st)) = False"
  by (simp add: flush_all_def build_content_def has_content_def empty_acc_def)

lemma accounted_start_step:
  assumes "rl_parse env = parse" and "accounted parse st its"
  shows "accounted parse (start_step env now label st) (its @ [StepItem label])"
proof -
  from assms(2) obtain ms where ms: "contents st = map (show_message parse) ms"
    "\<forall>rest. segments [] [] (its @ rest) = map without_duration ms @ segments (ma_steps (rs_acc st)) (ma_text (rs_acc st)) rest"
    unfolding accounted_def by blast
  show ?thesis
  proof (cases "ma_text (rs_acc st) = []")
    case True
    with ms show ?thesis
      unfolding accounted_def by (intro exI [of _ ms]) (simp add: start_step_def on_tool_start_def Let_def)
  next
    case False
    let ?m = "(ma_steps (rs_acc st), case ma_start (rs_acc st) of None \<Rightarrow> 0 | Some s \<Rightarrow> now - s, ma_text (rs_acc st))"
    have "start_step env now label st = flush_content env (fst (build_content parse now (rs_acc st)))
        (st\<lparr>rs_acc := \<lparr>ma_steps = [label], ma_start = Some now, ma_text = []\<rparr>\<rparr>)"
      using False assms(1) by (simp add: start_step_def on_tool_start_def build_content_def empty_acc_def)
    then have "contents (start_step env now label st) = map (show_message parse) (ms @ [?m])"
      and "ma_steps (rs_acc (start_step env now label st)) = [label]"
      and "ma_text (rs_acc (start_step env now label st)) = []"
      using ms(1) flushed_message [of parse now "rs_acc st"] by simp_all
    with ms(2) False show ?thesis
      unfolding accounted_def by (intro exI [of _ "ms @ [?m]"]) (simp add: without_duration_def)
  qed
qed

lemma relay_event_accounted:
  assumes "rl_parse env = parse" and "accounted parse st its" and "\<not> is_done e"
  shows "accounted parse (fst (relay_event env now e st)) (its @ event_items e)"
  using assms by (cases e) (auto intro: accounted_delta accounted_start_step)

section \<open>Announcing the end\<close>

lemma done_count_emit [simp]:
  "done_count (emit_window env name es st) = done_count st + (if name = ''agent:done'' then 1 else 0)"
  by (simp add: done_count_def emit_window_def act_def)

lemma done_count_simps [simp]:
  "done_count (flush_content env c st) = done_count st"
  "done_count (st\<lparr>rs_acc := a\<rparr>) = done_count st"
  "done_count (st\<lparr>rs_subagent_calls := cs\<rparr>) = done_count st"
  "done_count (act (SaveUsage x y) st) = done_count st"
  "done_count (act (SpawnDiff t fs) st) = done_count st"
  by (simp_all add: done_count_def flush_content_def emit_window_def act_def split: prod.splits)

lemma done_count_flush_all [simp]: "done_count (flush_all env now st) = done_count st"
  by (simp add: flush_all_def split: prod.splits)

lemma done_count_start [simp]: "done_count (start_step env now label st) = done_count st"
  by (simp add: start_step_def split: prod.splits option.splits)

lemma relay_event_done: "done_count (fst (relay_event env now e st)) = done_count st + (if is_done e then 1 else 0)"
  and relay_event_flag: "snd (relay_event env now e st) = is_done e"
  by (cases e; simp)+

text \<open>The loop, up to the end of the run.\<close>

lemma relay_events_invariant:
  assumes "rl_parse env = parse"
  shows "list_all (\<lambda>e. \<not> is_done e) es \<Longrightarrow> accounted parse st its \<Longrightarrow>
     accounted parse (fst (relay_events env n es (st, d))) (its @ run_items es)
     \<and> done_count (fst (relay_events env n es (st, d))) = done_count st
     \<and> snd (relay_events env n es (st, d)) = d"
proof (induction es arbitrary: n st d its)
  case Nil
  then show ?case by (simp add: run_items_def)
next
  case (Cons e es)
  obtain st' d' where ev: "relay_event env (rl_clock env n) e st = (st', d')" by force
  have e: "\<not> is_done e" using Cons.prems(1) by simp
  from relay_event_accounted [OF assms Cons.prems(2) e, of "rl_clock env n"] ev
  have acc: "accounted parse st' (its @ event_items e)" by simp
  from relay_event_done [of env "rl_clock env n" e st] relay_event_flag [of env "rl_clock env n" e st] ev e
  have d: "done_count st' = done_count st" "\<not> d'" by simp_all
  from Cons.IH [OF _ acc, of "Suc n" d] Cons.prems(1) show ?case
    by (simp add: ev d run_items_def)
qed

lemma relay_events_snoc:
  "relay_events env n (es @ [e]) (st, d)
     = (case relay_events env n es (st, d) of (st', d') \<Rightarrow>
          (case relay_event env (rl_clock env (n + length es)) e st' of (st'', d'') \<Rightarrow> (st'', d' \<or> d'')))"
  by (induction es arbitrary: n st d) (auto split: prod.splits)

text \<open>Where nothing is gathered, all messages have been shown.\<close>

lemma accounted_shown:
  assumes "accounted parse st its"
  shows "all_shown parse st its \<or> has_content (rs_acc st)"
proof -
  from assms obtain ms where ms: "contents st = map (show_message parse) ms"
    "\<forall>rest. segments [] [] (its @ rest) = map without_duration ms @ segments (ma_steps (rs_acc st)) (ma_text (rs_acc st)) rest"
    unfolding accounted_def by blast
  from spec [OF ms(2), of "[]"] ms(1) show ?thesis by (auto simp: all_shown_def has_content_def)
qed

text \<open>A message is shown only when a step follows, and then that step is gathered, so something is gathered from the
  first item on.\<close>

lemma relay_event_content:
  "\<not> is_done e \<Longrightarrow> has_content (rs_acc (fst (relay_event env now e st)))
     = (has_content (rs_acc st) \<or> (\<exists>i \<in> set (event_items e). i \<noteq> TextItem []))"
  by (cases e) (auto simp: has_content_def on_text_delta_def start_step_def on_tool_start_def build_content_def
      empty_acc_def Let_def act_def split: prod.splits option.splits)

lemma relay_events_content:
  "list_all (\<lambda>e. \<not> is_done e) es \<Longrightarrow>
     has_content (rs_acc (fst (relay_events env n es (st, d))))
       = (has_content (rs_acc st) \<or> (\<exists>i \<in> set (run_items es). i \<noteq> TextItem []))"
proof (induction es arbitrary: n st d)
  case (Cons e es)
  obtain st' d' where ev: "relay_event env (rl_clock env n) e st = (st', d')" by force
  from Cons.prems relay_event_content [of e env "rl_clock env n" st] ev
  have "has_content (rs_acc st') = (has_content (rs_acc st) \<or> (\<exists>i \<in> set (event_items e). i \<noteq> TextItem []))" by simp
  with Cons show ?case by (auto simp: ev run_items_def)
qed (simp add: run_items_def)

text \<open>Only the last event of a run is its end.\<close>

definition ends_once :: "agent_event list \<Rightarrow> bool" where
  "ends_once es \<longleftrightarrow> list_all (\<lambda>e. \<not> is_done e) (butlast es)"

lemma relay_final:
  assumes "ends_once es"
  shows "all_shown (rl_parse env) (spawn_event_relay env es) (run_items es)"
    and "done_count (spawn_event_relay env es)
           = (if list_ex is_done es \<or> segments [] [] (run_items es) \<noteq> [] then 1 else 0)"
proof -
  have "accounted (rl_parse env) initial_relay []"
    unfolding accounted_def by (intro exI [of _ "[]"]) (simp add: contents_def initial_relay_def empty_acc_def)
  note inv = relay_events_invariant [OF refl _ this, of _ 0 False]
  have start: "done_count initial_relay = 0" "\<not> has_content (rs_acc initial_relay)"
    by (simp_all add: done_count_def initial_relay_def has_content_def empty_acc_def)
  have "all_shown (rl_parse env) (spawn_event_relay env es) (run_items es)
    \<and> done_count (spawn_event_relay env es)
           = (if list_ex is_done es \<or> segments [] [] (run_items es) \<noteq> [] then 1 else 0)"
  proof (cases "list_ex is_done es")
    case True
    then obtain es' e where es: "es = es' @ [e]" by (cases es rule: rev_cases) auto
    with assms have none: "list_all (\<lambda>e. \<not> is_done e) es'" by (simp add: ends_once_def)
    moreover from this True es have "is_done e" by (auto simp: list_ex_iff list_all_iff)
    then obtain sid sm where e: "e = DoneEvent sid sm" by (cases e) auto
    obtain st d where r: "relay_events env 0 es' (initial_relay, False) = (st, d)" by (rule prod.exhaust)
    have "accounted (rl_parse env) st (run_items es')" "done_count st = 0" using inv [OF none] r start(1) by simp_all
    moreover have "spawn_event_relay env es = emit_window env ''agent:done'' [(''summary'', opt_json JStr sm)]
        (flush_all env (rl_clock env (length es')) st)"
      by (simp add: spawn_event_relay_def es relay_events_snoc r e)
    moreover have "run_items es = run_items es'" by (simp add: es e run_items_def)
    ultimately show ?thesis using True by (simp add: accounted_flush_all)
  next
    case False
    then have none: "list_all (\<lambda>e. \<not> is_done e) es" by (simp add: list_ex_iff list_all_iff)
    obtain st d where r: "relay_events env 0 es (initial_relay, False) = (st, d)" by (rule prod.exhaust)
    have i: "accounted (rl_parse env) st (run_items es)" "done_count st = 0" "\<not> d" using inv [OF none] r start(1) by simp_all
    have c: "has_content (rs_acc st) = (segments [] [] (run_items es) \<noteq> [])"
      using relay_events_content [OF none, of env 0 initial_relay False] r start(2) by (simp add: segments_nothing)
    show ?thesis
      using i c False accounted_shown [OF i(1)] by (auto simp: spawn_event_relay_def r accounted_flush_all)
  qed
  then show "all_shown (rl_parse env) (spawn_event_relay env es) (run_items es)"
    and "done_count (spawn_event_relay env es)
           = (if list_ex is_done es \<or> segments [] [] (run_items es) \<noteq> [] then 1 else 0)" by blast+
qed

text \<open>
  C35. The relay of a run in which no event follows the end shows exactly these messages, in this order: each is the
  tool steps since the last one and the text streamed after them up to the next step, so that together they have
  every piece of text and every step once, in order, and each step before the text that came after it
  (\<open>segments_cover\<close>). The end is announced once if there is an end event or anything to show; a run that is
  stopped without an end event before it had anything to show is not announced as ended.
\<close>
theorem relay_shows_run:
  assumes "ends_once es"
  shows "(\<exists>ms. contents (spawn_event_relay env es) = map (show_message (rl_parse env)) ms
            \<and> map without_duration ms = segments [] [] (run_items es))
     \<and> done_count (spawn_event_relay env es)
           = (if list_ex is_done es \<or> segments [] [] (run_items es) \<noteq> [] then 1 else 0)"
  using relay_final [OF assms, of env] by (simp add: all_shown_def)

definition demo_relay :: relay_env where
  "demo_relay = \<lparr>rl_parse = (\<lambda>_. None), rl_session = ''s'', rl_has_db = False, rl_has_checkpoints = True,
     rl_clock = (\<lambda>n. n), rl_stamp = (\<lambda>n. (''id'', ''now''))\<rparr>"

definition demo_run :: "agent_event list" where
  "demo_run = [TextDelta ''s'' ''Rea'', TextDelta ''s'' ''ding'', ToolStart ''s'' ''c'' ''read'' ''a.rs'',
     ToolEnd ''s'' ''c'' True ''ok'' None, TextDelta ''s'' ''Done''
   , DoneEvent ''s'' (Some ''Done'')]"

theorem relay_shows_run_witness:
  "(\<exists>ms. contents (spawn_event_relay demo_relay demo_run) = map (show_message (\<lambda>_. None)) ms
            \<and> map without_duration ms = [([], ''Reading''), ([''a.rs''], ''Done'')])
     \<and> done_count (spawn_event_relay demo_relay demo_run) = 1"
proof -
  have "ends_once demo_run" by (simp add: ends_once_def demo_run_def)
  moreover have "segments [] [] (run_items demo_run) = [([], ''Reading''), ([''a.rs''], ''Done'')]"
    by (simp add: run_items_def demo_run_def)
  ultimately show ?thesis using relay_shows_run [of demo_run demo_relay] by (simp add: demo_relay_def)
qed

section \<open>Tool calls in the text\<close>

text \<open>Only a text that is JSON, alone or in a code fence, is replaced; what replaces it names the tool.\<close>

lemma sanitize_keeps_prose:
  "parse (trim raw) = None \<Longrightarrow> \<not> starts_with (trim raw) FENCE \<Longrightarrow>
     sanitize_assistant_display_text parse raw = raw"
  by (simp add: sanitize_assistant_display_text_def parse_tool_payload_json_def Let_def)

lemma sanitize_twice:
  assumes "\<And>name. parse_tool_payload_json parse (conversational_fallback_for_tool name) = None"
  shows "sanitize_assistant_display_text parse (sanitize_assistant_display_text parse raw)
           = sanitize_assistant_display_text parse raw"
  using assms by (auto simp: sanitize_assistant_display_text_def split: option.splits bind_splits)

end
