(* ===== verification/ProvidersFacts.thy ===== *)
theory ProvidersFacts
  imports Providers
begin

text \<open>
  Reading the providers gives every preset and stores those that were missing or outdated, every command but one keeps the selected models
  resolvable, and the title of a session is never longer than 60 characters or a question.
\<close>

section \<open>The list of providers\<close>

lemma default_ids_distinct: "distinct (map pc_id default_providers)"
  by (simp add: default_providers_def minimax_provider_def)

lemma default_length [simp]: "length default_providers = 7"
  by (simp add: default_providers_def)

lemma find_provider_Some: "find_provider i ps = Some e \<Longrightarrow> pc_id e = i \<and> e \<in> set ps"
  by (auto simp: find_provider_def find_Some_iff)

lemma canonical_row_id [simp]: "pc_id (canonical_row st b) = pc_id b"
  by (auto simp: canonical_row_def merge_builtin_def dest: find_provider_Some split: option.splits)

definition custom_ids :: "provider_config list \<Rightarrow> str set" where
  "custom_ids ps = pc_id ` {p \<in> set ps. \<not> is_builtin p}"

lemma custom_ids_simps [simp]:
  "custom_ids [] = {}"
  "custom_ids (p # ps) = (if is_builtin p then custom_ids ps else insert (pc_id p) (custom_ids ps))"
  by (auto simp: custom_ids_def)

lemma add_custom_split: "\<exists>cs. add_custom acc ps = acc @ cs
    \<and> (\<forall>c \<in> set cs. c \<in> set ps \<and> \<not> is_builtin c \<and> pc_id c \<notin> pc_id ` set acc) \<and> distinct (map pc_id cs)
    \<and> pc_id ` set cs = custom_ids ps - pc_id ` set acc"
proof (induction ps arbitrary: acc)
  case (Cons p ps)
  show ?case
  proof (cases "\<not> is_builtin p \<and> \<not> (\<exists>x \<in> set acc. pc_id x = pc_id p)")
    case True
    from Cons.IH [of "acc @ [p]"] obtain cs where cs: "add_custom (acc @ [p]) ps = (acc @ [p]) @ cs"
      "\<forall>c \<in> set cs. c \<in> set ps \<and> \<not> is_builtin c \<and> pc_id c \<notin> pc_id ` set (acc @ [p])" "distinct (map pc_id cs)"
      "pc_id ` set cs = custom_ids ps - pc_id ` set (acc @ [p])" by blast
    have "pc_id ` set (p # cs) = custom_ids (p # ps) - pc_id ` set acc"
      using cs(4) True by auto
    with cs(1-3) True show ?thesis
      by (intro exI [of _ "p # cs"] conjI) (auto simp: image_iff)
  next
    case False
    from Cons.IH [of acc] obtain cs where cs: "add_custom acc ps = acc @ cs"
      "\<forall>c \<in> set cs. c \<in> set ps \<and> \<not> is_builtin c \<and> pc_id c \<notin> pc_id ` set acc" "distinct (map pc_id cs)"
      "pc_id ` set cs = custom_ids ps - pc_id ` set acc" by blast
    moreover have "custom_ids (p # ps) - pc_id ` set acc = custom_ids ps - pc_id ` set acc"
    proof -
      from False have "is_builtin p \<or> pc_id p \<in> pc_id ` set acc" by (metis imageI)
      then show ?thesis by auto
    qed
    ultimately show ?thesis
      using False by (intro exI [of _ cs]) auto
  qed
qed simp

lemma add_custom_known:
  "\<forall>c \<in> set cs. \<not> is_builtin c \<and> pc_id c \<notin> pc_id ` set acc \<Longrightarrow> distinct (map pc_id cs) \<Longrightarrow>
     add_custom acc cs = acc @ cs"
proof (induction cs arbitrary: acc)
  case (Cons c cs)
  have "add_custom (acc @ [c]) cs = (acc @ [c]) @ cs"
    by (rule Cons.IH) (use Cons.prems in \<open>auto simp: image_iff\<close>)
  with Cons.prems show ?case by (auto simp: image_iff)
qed simp

lemma add_custom_skip: "\<forall>p \<in> set ps. pc_id p \<in> pc_id ` set acc \<Longrightarrow> add_custom acc ps = acc"
  by (induction ps) auto

lemma add_custom_append: "add_custom acc (ps @ qs) = add_custom (add_custom acc ps) qs"
  by (induction ps arbitrary: acc) auto

lemma providers_list_split:
  obtains cs where "providers_list s = map (canonical_row (stored_providers s)) default_providers @ cs"
    and "\<And>c. c \<in> set cs \<Longrightarrow> \<not> is_builtin c \<and> pc_id c \<notin> pc_id ` set default_providers"
    and "distinct (map pc_id cs)"
    and "pc_id ` set cs = custom_ids (stored_providers s) - pc_id ` set default_providers"
  using add_custom_split [of "map (canonical_row (stored_providers s)) default_providers" "stored_providers s"]
  by (auto simp: providers_list_def image_image)

lemma providers_list_distinct: "distinct (map pc_id (providers_list s))"
proof -
  obtain cs where cs: "providers_list s = map (canonical_row (stored_providers s)) default_providers @ cs"
    "\<And>c. c \<in> set cs \<Longrightarrow> \<not> is_builtin c \<and> pc_id c \<notin> pc_id ` set default_providers" "distinct (map pc_id cs)"
    using providers_list_split [of s] by metis
  from cs(2) have "pc_id ` set cs \<inter> pc_id ` set default_providers = {}" by (auto dest!: cs(2)) 
  with cs(1,3) show ?thesis using default_ids_distinct by (simp add: comp_def Int_commute)
qed

lemma providers_list_ids:
  "pc_id ` set (providers_list s) = pc_id ` set default_providers \<union> custom_ids (stored_providers s)"
proof -
  from providers_list_split [of s] obtain cs where
    "providers_list s = map (canonical_row (stored_providers s)) default_providers @ cs"
    "pc_id ` set cs = custom_ids (stored_providers s) - pc_id ` set default_providers"
    by metis
  then show ?thesis by (simp add: image_image image_Un)
qed

lemma find_provider_distinct:
  "distinct (map pc_id ps) \<Longrightarrow> p \<in> set ps \<Longrightarrow> find_provider (pc_id p) ps = Some p"
  by (induction ps) (auto simp: find_provider_def)

lemma find_provider_None: "find_provider i ps = None \<longleftrightarrow> i \<notin> pc_id ` set ps"
  by (auto simp: find_provider_def find_None_iff)

lemma merge_builtin_twice: "merge_builtin (merge_builtin e b) b = merge_builtin e b"
  by (simp add: merge_builtin_def)

lemma merge_builtin_self: "merge_builtin b b = b"
  by (simp add: merge_builtin_def)

lemma stored_written [simp]: "stored_providers (write_providers ps s) = ps"
  by (simp add: stored_providers_def write_providers_def)

lemma canonical_row_again:
  assumes "b \<in> set default_providers"
  shows "find_provider (pc_id b) (providers_list s) = Some (canonical_row (stored_providers s) b)"
    and "canonical_row (providers_list s) b = canonical_row (stored_providers s) b"
proof -
  from providers_list_split [of s] obtain cs where
    "providers_list s = map (canonical_row (stored_providers s)) default_providers @ cs" by metis
  with assms have "canonical_row (stored_providers s) b \<in> set (providers_list s)" by simp
  from find_provider_distinct [OF providers_list_distinct this]
  show f: "find_provider (pc_id b) (providers_list s) = Some (canonical_row (stored_providers s) b)" by simp
  then show "canonical_row (providers_list s) b = canonical_row (stored_providers s) b"
    by (simp add: canonical_row_def merge_builtin_twice merge_builtin_self split: option.splits)
qed

lemma providers_list_again:
  assumes "stored_providers s' = providers_list s"
  shows "providers_list s' = providers_list s"
proof -
  from providers_list_split [of s] obtain cs where cs:
    "providers_list s = map (canonical_row (stored_providers s)) default_providers @ cs"
    "\<And>c. c \<in> set cs \<Longrightarrow> \<not> is_builtin c \<and> pc_id c \<notin> pc_id ` set default_providers" "distinct (map pc_id cs)" by metis
  have rows: "map (canonical_row (providers_list s)) default_providers = map (canonical_row (stored_providers s)) default_providers"
    by (simp add: canonical_row_again(2))
  have "providers_list s' = add_custom (add_custom (map (canonical_row (stored_providers s)) default_providers)
          (map (canonical_row (stored_providers s)) default_providers)) cs"
    unfolding providers_list_def [of s'] assms rows unfolding cs(1) by (rule add_custom_append)
  also have "\<dots> = add_custom (map (canonical_row (stored_providers s)) default_providers) cs"
    by (subst add_custom_skip) auto
  also have "\<dots> = providers_list s"
    unfolding cs(1) using cs(2,3) by (intro add_custom_known) (auto simp: image_image)
  finally show ?thesis .
qed

text \<open>Connection data, which the user edits.\<close>

definition connection :: "provider_config \<Rightarrow> str \<times> str \<times> str \<times> str list" where
  "connection p = (pc_id p, pc_base_url p, pc_api_key p, pc_models p)"

definition kept_connection :: "provider_config list \<Rightarrow> provider_config \<Rightarrow> str \<times> str \<times> str \<times> str list" where
  "kept_connection stored b =
     (case find_provider (pc_id b) stored of None \<Rightarrow> connection b | Some e \<Rightarrow> connection e)"

lemma canonical_connection: "connection (canonical_row st b) = kept_connection st b"
  by (cases "find_provider (pc_id b) st")
    (auto simp: canonical_row_def kept_connection_def connection_def merge_builtin_def dest: find_provider_Some)

lemma read_again: "read_providers (snd (read_providers s)) = read_providers s"
proof (cases "providers_changed s")
  case True
  let ?s' = "write_providers (providers_list s) s"
  have "\<not> providers_changed ?s'"
    using canonical_row_again by (simp add: providers_changed_def)
  moreover have "providers_list ?s' = providers_list s" by (rule providers_list_again) simp
  ultimately show ?thesis
    using True by (simp add: read_providers_def)
next
  case False
  then show ?thesis by (simp add: read_providers_def)
qed

text \<open>While every preset is stored as it should be, nothing is written: rows of the same id that an earlier
  version stored are dropped from the list read, and stay stored.\<close>

lemma find_provider_append:
  "find_provider i (ps @ qs) = (case find_provider i ps of None \<Rightarrow> find_provider i qs | Some p \<Rightarrow> Some p)"
  by (induction ps) (simp_all add: find_provider_def)

lemma defaults_canonical: "b \<in> set default_providers \<Longrightarrow> find_provider (pc_id b) (default_providers @ ps) = Some b"
  using find_provider_distinct [OF default_ids_distinct, of b] by (simp add: find_provider_append)

lemma duplicate_rows_stay:
  assumes "\<not> is_builtin p" and "pc_id p \<notin> pc_id ` set default_providers"
  shows "read_providers (write_providers (default_providers @ [p, p]) s) =
    (default_providers @ [p], write_providers (default_providers @ [p, p]) s)"
proof -
  have row: "canonical_row (default_providers @ [p, p]) b = b" if "b \<in> set default_providers" for b
    using defaults_canonical [OF that] by (simp add: canonical_row_def merge_builtin_self)
  then have "add_custom (map (canonical_row (default_providers @ [p, p])) default_providers) (default_providers @ [p, p])
      = default_providers @ [p]"
    using assms add_custom_skip [of default_providers default_providers]
    by (simp add: map_idI add_custom_append) (auto simp: image_iff)
  then show ?thesis
    using row defaults_canonical by (simp add: read_providers_def providers_changed_def providers_list_def)
qed

text \<open>
  C39. Whatever is stored, the list of providers read has distinct ids and starts with the presets, each with the
  connection data the user gave it. Afterwards every preset is stored under its id as it was read, also when it was
  missing or outdated before, and a second reading gives the same list and stores nothing new. (Two custom rows of
  one id are read once, but stay stored until a preset has to be written, \<open>duplicate_rows_stay\<close>.)
\<close>
theorem read_providers_canonical:
  "distinct (map pc_id (fst (read_providers s)))
     \<and> map connection (take 7 (fst (read_providers s))) = map (kept_connection (stored_providers s)) default_providers
     \<and> map (\<lambda>b. find_provider (pc_id b) (stored_providers (snd (read_providers s)))) default_providers
         = map Some (take 7 (fst (read_providers s)))
     \<and> read_providers (snd (read_providers s)) = (fst (read_providers s), snd (read_providers s))"
proof -
  from providers_list_split [of s] obtain cs where cs:
    "providers_list s = map (canonical_row (stored_providers s)) default_providers @ cs" by metis
  have "map connection (take 7 (providers_list s)) = map (kept_connection (stored_providers s)) default_providers"
    by (simp add: cs canonical_connection)
  moreover have "find_provider (pc_id b) (stored_providers (snd (read_providers s)))
      = Some (canonical_row (stored_providers s) b)" if "b \<in> set default_providers" for b
    using that canonical_row_again(1) by (auto simp: read_providers_def providers_changed_def)
  then have "map (\<lambda>b. find_provider (pc_id b) (stored_providers (snd (read_providers s)))) default_providers
      = map Some (take 7 (fst (read_providers s)))"
    by (simp add: read_providers_def cs)
  ultimately show ?thesis
    using providers_list_distinct by (simp only: read_again prod.collapse) (simp add: read_providers_def)
qed

section \<open>Selected models\<close>

definition ref_ok :: "app_settings \<Rightarrow> model_ref option \<Rightarrow> bool" where
  "ref_ok s r = (case r of None \<Rightarrow> True | Some x \<Rightarrow> mf_provider_id x \<in> pc_id ` set (providers_list s))"

definition selection_ok :: "app_settings \<Rightarrow> bool" where
  "selection_ok s \<longleftrightarrow> (let sel = read_selection s in
     ref_ok s (ms_active sel) \<and> ref_ok s (ms_compaction sel) \<and> ref_ok s (ms_title sel))"

lemma ref_ok_simps [simp]: "ref_ok s None" "ref_ok s (Some x) = (mf_provider_id x \<in> pc_id ` set (providers_list s))"
  by (simp_all add: ref_ok_def)

lemma read_selection_write [simp]:
  "read_selection (write_selection sel s) = sel" "read_selection (write_providers ps s) = read_selection s"
  "stored_providers (write_selection sel s) = stored_providers s"
  by (simp_all add: read_selection_def write_selection_def write_providers_def stored_providers_def)

lemma read_providers_simps [simp]:
  "fst (read_providers s) = providers_list s"
  "read_selection (snd (read_providers s)) = read_selection s"
  by (simp_all add: read_providers_def)

lemma ids_after_read [simp]: "pc_id ` set (providers_list (snd (read_providers s))) = pc_id ` set (providers_list s)"
  using read_again [of s] by (simp add: read_providers_def split: if_splits)

lemma custom_ids_list: "custom_ids (providers_list s) \<subseteq> pc_id ` set (providers_list s)"
  by (auto simp: custom_ids_def)

lemma custom_in_list:
  "pc_id ` set (providers_list s) \<subseteq> pc_id ` set default_providers \<union> custom_ids (providers_list s)"
proof -
  obtain cs where cs: "providers_list s = map (canonical_row (stored_providers s)) default_providers @ cs"
    "\<And>c. c \<in> set cs \<Longrightarrow> \<not> is_builtin c \<and> pc_id c \<notin> pc_id ` set default_providers"
    using providers_list_split [of s] by metis
  then show ?thesis by (auto simp: custom_ids_def image_image)
qed

text \<open>After a command that stores \<open>ps\<close>, at least the ids of its custom rows and of the presets are there.\<close>

lemma ids_written:
  "pc_id ` set (providers_list (write_selection sel (write_providers ps s))) = pc_id ` set default_providers \<union> custom_ids ps"
  "pc_id ` set (providers_list (write_providers ps s)) = pc_id ` set default_providers \<union> custom_ids ps"
  by (simp_all add: providers_list_ids)

lemma ref_ok_mono:
  "pc_id ` set (providers_list s) \<subseteq> pc_id ` set (providers_list s') \<Longrightarrow> ref_ok s r \<Longrightarrow> ref_ok s' r"
  by (auto simp: ref_ok_def split: option.splits)

lemma selection_ok_mono:
  "pc_id ` set (providers_list s) \<subseteq> pc_id ` set (providers_list s') \<Longrightarrow> read_selection s' = read_selection s \<Longrightarrow>
     selection_ok s \<Longrightarrow> selection_ok s'"
  by (auto simp: selection_ok_def Let_def intro: ref_ok_mono)

lemma selection_ok_read: "selection_ok s \<Longrightarrow> selection_ok (snd (read_providers s))"
  by (rule selection_ok_mono [of s]) simp_all

lemma custom_ids_append: "custom_ids ps \<subseteq> custom_ids (ps @ qs)"
  by (auto simp: custom_ids_def)

lemma add_provider_selection: "selection_ok s \<Longrightarrow> selection_ok (snd (add_provider fresh p s))"
proof -
  assume ok: "selection_ok s"
  let ?p = "if trim (pc_id p) = [] then p\<lparr>pc_id := fresh\<rparr> else p"
  let ?s = "write_providers (providers_list s @ [?p]) (snd (read_providers s))"
  have "selection_ok ?s"
  proof (rule selection_ok_mono [OF _ _ ok])
    show "pc_id ` set (providers_list s) \<subseteq> pc_id ` set (providers_list ?s)"
      unfolding ids_written using custom_in_list [of s] custom_ids_append by blast
  qed simp
  with selection_ok_read [OF ok] show ?thesis
    by (simp add: add_provider_def Let_def split_beta)
qed

lemma ref_ok_clear:
  assumes "ref_ok s r"
  shows "ref_ok (write_selection sel (write_providers (filter (\<lambda>p. pc_id p \<noteq> i) (providers_list s)) s1)) (clear_ref i r)"
proof (cases "clear_ref i r")
  case (Some x)
  with assms have x: "r = Some x" "mf_provider_id x \<noteq> i" "mf_provider_id x \<in> pc_id ` set (providers_list s)"
    by (auto simp: clear_ref_def split: option.splits if_splits)
  with custom_in_list [of s] have "mf_provider_id x \<in> pc_id ` set default_providers \<union> custom_ids (providers_list s)" by blast
  with x(2) have "mf_provider_id x \<in> pc_id ` set default_providers
      \<union> custom_ids (filter (\<lambda>p. pc_id p \<noteq> i) (providers_list s))"
    by (auto simp: custom_ids_def)
  with Some show ?thesis by (simp add: ids_written)
qed simp

lemma delete_provider_selection:
  assumes "selection_ok s"
  shows "selection_ok (snd (delete_provider i s))"
proof (cases "\<exists>p \<in> set (providers_list s). pc_id p = i \<and> is_builtin p")
  case True
  with selection_ok_read [OF assms] show ?thesis by (simp add: delete_provider_def Let_def split_beta)
next
  case False
  then have "snd (delete_provider i s) = write_selection
      \<lparr>ms_active = clear_ref i (ms_active (read_selection s)), ms_compaction = clear_ref i (ms_compaction (read_selection s)),
       ms_title = clear_ref i (ms_title (read_selection s))\<rparr>
      (write_providers (filter (\<lambda>p. pc_id p \<noteq> i) (providers_list s)) (snd (read_providers s)))"
    by (auto simp: delete_provider_def Let_def split_beta)
  with assms show ?thesis by (simp add: selection_ok_def Let_def ref_ok_clear)
qed

lemma ref_ok_read [simp]: "ref_ok (write_selection sel (snd (read_providers s))) r = ref_ok s r"
  using ids_after_read [of s] by (simp add: ref_ok_def providers_list_ids split: option.splits)

lemma set_selection_selection:
  assumes "selection_ok s"
  shows "selection_ok (snd (set_model_selection role i m s))"
proof (cases "find_provider i (providers_list s) = None")
  case True
  with selection_ok_read [OF assms] show ?thesis by (simp add: set_model_selection_def Let_def split_beta)
next
  case False
  then have i: "i \<in> pc_id ` set (providers_list s)" by (simp add: find_provider_None)
  from assms have refs: "ref_ok s (ms_active (read_selection s))" "ref_ok s (ms_compaction (read_selection s))"
    "ref_ok s (ms_title (read_selection s))" by (simp_all add: selection_ok_def Let_def)
  have upd: "selection_ok (write_selection sel (snd (read_providers s)))"
    if "ref_ok s (ms_active sel)" "ref_ok s (ms_compaction sel)" "ref_ok s (ms_title sel)" for sel
    using that by (simp add: selection_ok_def Let_def)
  from False refs i selection_ok_read [OF assms] show ?thesis
    by (simp add: set_model_selection_def Let_def split_beta upd)
qed

text \<open>
  The selected models keep naming providers that exist through every command that adds or deletes a
  provider or selects a model.
\<close>
theorem selection_stays_resolvable:
  assumes "selection_ok s"
  shows "selection_ok (snd (add_provider fresh p s)) \<and> selection_ok (snd (delete_provider i s))
     \<and> selection_ok (snd (set_model_selection role i m s))"
  using assms add_provider_selection delete_provider_selection set_selection_selection by blast

definition fresh_settings :: app_settings where
  "fresh_settings = \<lparr>st_providers = None, st_selection = None\<rparr>"

theorem selection_stays_resolvable_witness:
  "selection_ok (snd (delete_provider ''qwen-local'' fresh_settings))"
proof -
  have "selection_ok fresh_settings"
    by (simp add: selection_ok_def read_selection_def fresh_settings_def Let_def)
  from selection_stays_resolvable [OF this] show ?thesis by blast
qed

text \<open>
  Updating a provider can break it: a custom provider whose kind is changed to that of a preset is accepted,
  but no longer in the list, and a selection that names it no longer resolves.
\<close>

lemma update_can_lose_provider:
  assumes "stored_providers s = providers_list s" and "p \<in> set (providers_list s)"
    and "pc_id p \<notin> pc_id ` set default_providers"
  shows "fst (update_provider (p\<lparr>pc_kind := ''openai''\<rparr>) s) = Inr ()
     \<and> provider_by_id (snd (update_provider (p\<lparr>pc_kind := ''openai''\<rparr>) s)) (pc_id p) = None"
proof -
  let ?q = "p\<lparr>pc_kind := ''openai''\<rparr>" let ?L = "replace_provider ?q (providers_list s)"
  have "find_provider (pc_id p) (providers_list s) \<noteq> None" using assms(2) by (simp add: find_provider_None)
  then obtain x where x: "find_provider (pc_id p) (providers_list s) = Some x" by blast
  have gone: "distinct (map pc_id ps) \<Longrightarrow> pc_id p \<notin> custom_ids (replace_provider ?q ps)" for ps
  proof (induction ps)
    case (Cons a ps)
    have q: "is_builtin ?q" by (simp add: is_builtin_def)
    have "custom_ids ps \<subseteq> pc_id ` set ps" by (auto simp: custom_ids_def)
    with Cons q show ?case by (cases "pc_id a = pc_id p") auto
  qed simp
  have "pc_id p \<notin> pc_id ` set (providers_list (write_providers ?L (snd (read_providers s))))"
    unfolding ids_written using gone [OF providers_list_distinct] assms(3) by blast
  with x show ?thesis
    by (simp add: update_provider_def split_beta provider_by_id_def find_provider_None)
qed

section \<open>Titles and models\<close>

text \<open>A title has at most 60 characters and is the start of a trimmed text that is neither empty nor a question.\<close>

lemma clean_title_short:
  assumes "clean_title lower raw = Some t"
  shows "length (filter (\<lambda>c. \<not> is_cont_byte c) t) \<le> 60
     \<and> (\<exists>r. t @ r \<noteq> [] \<and> \<not> ends_with (t @ r) ''?'' \<and> length (split_whitespace (t @ r)) \<le> 10)"
proof -
  from assms obtain u where u: "t = take_chars 60 u" "u \<noteq> []" "\<not> ends_with u ''?''" "length (split_whitespace u) \<le> 10"
    by (auto simp: clean_title_def Let_def split: if_splits)
  moreover obtain r where "u = t @ r" using take_chars_prefix [of u 60] u(1) by blast
  ultimately show ?thesis using take_chars_len [of 60 u] by (auto simp: char_count_def)
qed

lemma fetch_models_nonempty: "fetch_models parse ask urls st er = Inr ms \<Longrightarrow> ms \<noteq> []"
  by (induction urls arbitrary: st er) (auto split: option.splits probe_answer.splits sum.splits if_splits)

text \<open>An answer with an empty list of models hides the models it lists under \<open>data\<close> as plain names.\<close>

lemma empty_models_hide_data:
  "parse body = Some (JObj [(''data'', JArr [JStr x]), (''models'', JArr [])]) \<Longrightarrow>
     parse_fetched_models parse body = Inl shape_error"
  by (simp add: parse_fetched_models_def entry_list_def model_entry_def loose_list_def map_filter_simps)

end
