(* ===== verification/Skills.thy ===== *)
theory Skills
  imports ToolExec
begin

text \<open>
  Skills: the splitter of \<open>crates/agent/src/frontmatter.rs\<close>, parsing, registry, discovery and tool of
  \<open>crates/agent/src/skills\<close>, and what \<open>agent_bridge/skills.rs\<close> does with them. The YAML parser, the skills
  embedded in the binary and the order in which a directory is listed are parameters. A registry is an
  association list without duplicate names.
\<close>

section \<open>Front matter\<close>

record frontmatter_raw =
  fr_yaml :: str
  fr_body :: str

datatype frontmatter_error = MissingDelimiter

definition BOM :: str where "BOM = [CHR 0xEF, CHR 0xBB, CHR 0xBF]"

function trim_start_str :: "str \<Rightarrow> str \<Rightarrow> str" where
  "trim_start_str p s = (if p \<noteq> [] \<and> starts_with s p then trim_start_str p (drop (length p) s) else s)"
  by pat_completeness auto
termination
  by (relation "measure (\<lambda>(p, s). length s)") (auto simp: starts_with_iff)

declare trim_start_str.simps [simp del]

definition trim_newlines :: "str \<Rightarrow> str" where
  "trim_newlines s = dropWhile (\<lambda>c. c = CR \<or> c = NL) s"

definition close_delims :: "str list" where
  "close_delims = [NL # ''---'' @ [NL], CR # NL # ''---'' @ [CR, NL], NL # ''---'' @ [CR, NL], CR # NL # ''---'' @ [NL]]"

fun first_close :: "str list \<Rightarrow> str \<Rightarrow> (str \<times> str) option" where
  "first_close [] s = None"
| "first_close (p # ps) s =
     (case find_sub s p of
        Some i \<Rightarrow> Some (take i s, drop (i + length p) s)
      | None \<Rightarrow> first_close ps s)"

definition split_on_close_delim :: "str \<Rightarrow> (str \<times> str) option" where
  "split_on_close_delim s =
     (case first_close close_delims s of
        Some x \<Rightarrow> Some x
      | None \<Rightarrow>
          (case strip_suffix s (CR # NL # ''---'') of
             Some r \<Rightarrow> Some (r, [])
           | None \<Rightarrow> map_option (\<lambda>r. (r, [])) (strip_suffix s (NL # ''---''))))"

definition split_frontmatter :: "str \<Rightarrow> frontmatter_error + frontmatter_raw" where
  "split_frontmatter raw =
     (let trimmed = trim_newlines (trim_start_str BOM raw) in
      case (case strip_prefix trimmed (''---'' @ [NL]) of
              Some r \<Rightarrow> Some r | None \<Rightarrow> strip_prefix trimmed (''---'' @ [CR, NL])) of
        None \<Rightarrow> Inl MissingDelimiter
      | Some without_open \<Rightarrow>
          (case split_on_close_delim without_open of
             None \<Rightarrow> Inl MissingDelimiter
           | Some (yaml, body) \<Rightarrow> Inr \<lparr>fr_yaml = yaml, fr_body = body\<rparr>))"

section \<open>Parsing\<close>

definition name_max :: nat where "name_max = 64"
definition skill_desc_max :: nat where "skill_desc_max = 1024"

definition name_char :: "char \<Rightarrow> bool" where
  "name_char c \<longleftrightarrow> (CHR ''a'' \<le> c \<and> c \<le> CHR ''z'') \<or> (CHR ''0'' \<le> c \<and> c \<le> CHR ''9'') \<or> c = CHR ''-''"

definition name_matches :: "str \<Rightarrow> bool" where
  "name_matches s \<longleftrightarrow> 1 \<le> length s \<and> length s \<le> 64 \<and> list_all name_char s"

record parsed_skill =
  ps_name :: str
  ps_description :: str
  ps_body :: str

datatype skill_parse_error = MissingFrontmatter | InvalidYaml str | InvalidName str | InvalidDescription

record skill_frontmatter =
  sf_name :: str
  sf_description :: str

definition show_skill_error :: "skill_parse_error \<Rightarrow> str" where
  "show_skill_error e =
     (case e of
        MissingFrontmatter \<Rightarrow> ''missing frontmatter delimiter''
      | InvalidYaml m \<Rightarrow> ''invalid YAML frontmatter: '' @ m
      | InvalidName n \<Rightarrow> ''invalid skill name `'' @ n @ ''` (must match ^[a-z0-9-]{1,64}$)''
      | InvalidDescription \<Rightarrow> ''description must be 1-'' @ to_decimal skill_desc_max @ '' characters'')"

definition parse_skill_md :: "(str \<Rightarrow> str + skill_frontmatter) \<Rightarrow> str \<Rightarrow> skill_parse_error + parsed_skill" where
  "parse_skill_md yaml raw =
     (case split_frontmatter raw of
        Inl _ \<Rightarrow> Inl MissingFrontmatter
      | Inr fm_raw \<Rightarrow>
          (case yaml (fr_yaml fm_raw) of
             Inl e \<Rightarrow> Inl (InvalidYaml e)
           | Inr fm \<Rightarrow>
               if sf_name fm = [] \<or> name_max < length (sf_name fm) \<or> \<not> name_matches (sf_name fm)
               then Inl (InvalidName (sf_name fm))
               else if sf_description fm = [] \<or> skill_desc_max < length (sf_description fm)
               then Inl InvalidDescription
               else Inr \<lparr>ps_name = sf_name fm, ps_description = sf_description fm,
                      ps_body = trim_newlines (fr_body fm_raw)\<rparr>))"

section \<open>Registry\<close>

datatype origin = DefaultTier | GlobalTier | ProjectTier

record skill =
  sk_name :: str
  sk_description :: str
  sk_body :: str
  sk_origin :: origin
  sk_path :: str

definition max_body_tokens :: nat where "max_body_tokens = 20000"

record tier_input =
  in_raw :: str
  in_path :: str

type_synonym skill_registry = "(str \<times> skill) list"

definition body_too_large :: "str \<Rightarrow> nat \<Rightarrow> str" where
  "body_too_large p approx_tokens =
     p @ '': body too large ('' @ to_decimal approx_tokens @ '' > '' @ to_decimal max_body_tokens @ '' tokens)''"

definition load_skill :: "(str \<Rightarrow> str + skill_frontmatter) \<Rightarrow> tier_input \<Rightarrow> origin \<Rightarrow> str + skill" where
  "load_skill yaml input origin =
     (case parse_skill_md yaml (in_raw input) of
        Inl e \<Rightarrow> Inl (in_path input @ '': parse error: '' @ show_skill_error e)
      | Inr parsed \<Rightarrow>
          (let approx_tokens = length (ps_body parsed) div 4 in
           if max_body_tokens < approx_tokens then Inl (body_too_large (in_path input) approx_tokens)
           else Inr \<lparr>sk_name = ps_name parsed, sk_description = ps_description parsed, sk_body = ps_body parsed,
                  sk_origin = origin, sk_path = in_path input\<rparr>))"

text \<open>The loop over the tiers, shared with the subagents: what loads is entered under its name.\<close>

definition add_input :: "('i \<Rightarrow> origin \<Rightarrow> str + 'a) \<Rightarrow> ('a \<Rightarrow> str) \<Rightarrow> origin \<times> 'i \<Rightarrow> (str \<times> 'a) list \<Rightarrow> (str \<times> 'a) list" where
  "add_input load name x reg =
     (case x of (origin, input) \<Rightarrow>
        (case load input origin of Inl _ \<Rightarrow> reg | Inr a \<Rightarrow> AList.update (name a) a reg))"

definition all_inputs :: "'i list \<Rightarrow> 'i list \<Rightarrow> 'i list \<Rightarrow> (origin \<times> 'i) list" where
  "all_inputs defaults global project =
     map (Pair DefaultTier) defaults @ map (Pair GlobalTier) global @ map (Pair ProjectTier) project"

definition build_registry :: "('i \<Rightarrow> origin \<Rightarrow> str + 'a) \<Rightarrow> ('a \<Rightarrow> str) \<Rightarrow> 'i list \<Rightarrow> 'i list \<Rightarrow> 'i list \<Rightarrow> str set
    \<Rightarrow> (str \<times> 'a) list" where
  "build_registry load name defaults global project disabled =
     filter (\<lambda>(n, _). n \<notin> disabled) (fold (add_input load name) (all_inputs defaults global project) [])"

definition new_skill_registry :: "(str \<Rightarrow> str + skill_frontmatter) \<Rightarrow> tier_input list \<Rightarrow> tier_input list
    \<Rightarrow> tier_input list \<Rightarrow> str set \<Rightarrow> skill_registry" where
  "new_skill_registry yaml = build_registry (load_skill yaml) sk_name"

definition skill_is_empty :: "skill_registry \<Rightarrow> bool" where
  "skill_is_empty reg \<longleftrightarrow> reg = []"

definition skill_count :: "skill_registry \<Rightarrow> nat" where
  "skill_count reg = length reg"

definition get_skill :: "skill_registry \<Rightarrow> str \<Rightarrow> skill option" where
  "get_skill reg name = map_of reg name"

definition skill_names :: "skill_registry \<Rightarrow> str list" where
  "skill_names reg = sort (map fst reg)"

definition all_skills :: "skill_registry \<Rightarrow> skill list" where
  "all_skills reg = sort_key sk_name (map snd reg)"

definition skills_for_prompt :: "skill_registry \<Rightarrow> (str \<times> str) list" where
  "skills_for_prompt reg = sort_key fst (map (\<lambda>(_, s). (sk_name s, sk_description s)) reg)"

section \<open>Discovery\<close>

fun is_link :: "ioerr + node \<Rightarrow> bool" where
  "is_link (Inr (NLink t)) = True"
| "is_link _ = False"

text \<open>One entry of a listed directory; \<open>md\<close> is the file in it.\<close>

definition read_guarded :: "disk \<Rightarrow> str \<Rightarrow> str \<Rightarrow> str option" where
  "read_guarded d entry md =
     (if is_link (lstat d (components entry)) then None
      else case lstat d (components md) of
        Inl _ \<Rightarrow> None
      | Inr n \<Rightarrow>
          if is_link (Inr n) then None
          else (case read_to_string d (components md) of Inl _ \<Rightarrow> None | Inr raw \<Rightarrow> Some raw))"

definition read_skill_entry :: "disk \<Rightarrow> str \<Rightarrow> str \<Rightarrow> tier_input option" where
  "read_skill_entry d root n =
     (let p = path_join root n in
      map_option (\<lambda>raw. \<lparr>in_raw = raw, in_path = p\<rparr>) (read_guarded d p (path_join p ''SKILL.md'')))"

type_synonym dir_listing = "path \<Rightarrow> str list option"

definition read_skill_tier :: "dir_listing \<Rightarrow> disk \<Rightarrow> str \<Rightarrow> tier_input list" where
  "read_skill_tier read_dir d root =
     (case read_dir (components root) of
        None \<Rightarrow> []
      | Some names \<Rightarrow> List.map_filter (read_skill_entry d root) names)"

section \<open>The application\<close>

record skill_env =
  sv_yaml :: "str \<Rightarrow> str + skill_frontmatter"
  sv_default :: "tier_input list"
  sv_data_dir :: str
  sv_read_dir :: dir_listing

definition global_skills_dir :: "skill_env \<Rightarrow> str" where
  "global_skills_dir env = path_join (sv_data_dir env) ''skills''"

definition project_skills_dir :: "str \<Rightarrow> str" where
  "project_skills_dir working_dir = path_join (path_join working_dir ''.agent'') ''skills''"

definition build_skills_for_agent :: "skill_env \<Rightarrow> disk \<Rightarrow> str set \<Rightarrow> str \<Rightarrow> skill_registry option" where
  "build_skills_for_agent env d disabled working_dir =
     (let reg = new_skill_registry (sv_yaml env) (sv_default env)
                  (read_skill_tier (sv_read_dir env) d (global_skills_dir env))
                  (read_skill_tier (sv_read_dir env) d (project_skills_dir working_dir)) disabled
      in if skill_is_empty reg then None else Some reg)"

record skill_dialog_entry =
  sd_name :: str
  sd_description :: str
  sd_origin :: str
  sd_enabled :: bool
  sd_path :: str

definition show_origin :: "origin \<Rightarrow> str" where
  "show_origin r = (case r of DefaultTier \<Rightarrow> ''default'' | GlobalTier \<Rightarrow> ''global'' | ProjectTier \<Rightarrow> ''project'')"

definition skill_dialog_entry_of :: "str set \<Rightarrow> skill \<Rightarrow> skill_dialog_entry" where
  "skill_dialog_entry_of disabled s =
     \<lparr>sd_name = sk_name s, sd_description = sk_description s, sd_origin = show_origin (sk_origin s),
      sd_enabled = (sk_name s \<notin> disabled), sd_path = sk_path s\<rparr>"

definition list_skills_for_dialog :: "skill_env \<Rightarrow> disk \<Rightarrow> str set \<Rightarrow> str option \<Rightarrow> skill_dialog_entry list" where
  "list_skills_for_dialog env d disabled working_dir =
     map (skill_dialog_entry_of disabled)
       (all_skills (new_skill_registry (sv_yaml env) (sv_default env)
          (read_skill_tier (sv_read_dir env) d (global_skills_dir env))
          (case working_dir of None \<Rightarrow> []
           | Some wd \<Rightarrow> read_skill_tier (sv_read_dir env) d (project_skills_dir wd)) {}))"

section \<open>The tool\<close>

definition skill_close :: str where "skill_close = ''</skill_content>''"
definition skill_close_escaped :: str where "skill_close_escaped = ''<'' @ [BACKSLASH] @ ''/skill_content>''"

definition skill_output :: "skill \<Rightarrow> str" where
  "skill_output s =
     ''<skill_content name='' @ [DQUOTE] @ sk_name s @ [DQUOTE] @ ''>'' @ [NL]
       @ replace_sub (sk_body s) skill_close skill_close_escaped @ [NL] @ skill_close"

definition unknown_skill_msg :: "skill_registry \<Rightarrow> str \<Rightarrow> str" where
  "unknown_skill_msg reg name =
     ''Unknown skill `'' @ name @ ''`. Available skills: ['' @ join '', '' (skill_names reg) @ '']''"

definition skill_execute :: "skill_registry \<Rightarrow> json \<Rightarrow> tool_context \<Rightarrow> world \<Rightarrow> world \<times> agent_event list \<times> (str + tool_result)" where
  "skill_execute reg args cx w =
     (case json_get_str args ''name'' of
        None \<Rightarrow> (w, [], Inl (missing_param ''name''))
      | Some name \<Rightarrow>
          (case get_skill reg name of
             None \<Rightarrow> (w, [], Inr (tool_failure (unknown_skill_msg reg name)))
           | Some s \<Rightarrow> (w, [SkillLoaded (cx_session_id cx) (sk_name s)], Inr (tool_success (skill_output s)))))"

definition skill_schema :: json where
  "skill_schema = JObj
     [(''properties'', JObj [(''name'', string_param ''The exact skill name from the Available Skills list.'')]),
      (''required'', JArr [JStr ''name'']),
      (''type'', JStr ''object'')]"

definition skill_tool :: "skill_registry \<Rightarrow> tool" where
  "skill_tool reg =
     \<lparr>tl_name = ''skill'',
      tl_description = ''Load a skill'' @ [QUOTE] @ ''s full instructions into the conversation. The skills list at the top of the ''
        @ ''system prompt shows available names and descriptions. Call this when a task matches a ''
        @ ''skill and you need the full body to follow its instructions.'',
      tl_schema = skill_schema, tl_execute = skill_execute reg\<rparr>"

end
