(* ===== verification/SkillFacts.thy ===== *)
theory SkillFacts
  imports Skills
begin

text \<open>
  Skills: front matter that is written is found again, the registry follows the tiers, discovery reads regular
  files only, and the text of a skill cannot end its own tag.
\<close>

section \<open>Front matter\<close>

lemma find_sub_at:
  assumes "p \<noteq> []" and "\<not> contains (a @ butlast p) p"
  shows "find_sub (a @ p @ b) p = Some (length a)"
proof (cases "find_sub (a @ p @ b) p")
  case None
  then show ?thesis unfolding find_sub_None by blast
next
  case (Some i)
  have le: "i \<le> length a" by (rule find_sub_first [OF Some refl])
  have at: "take (length p) (drop i (a @ p @ b)) = p"
    using find_sub_Some [OF Some]
    by (metis add_diff_cancel_left' append_eq_conv_conj append_take_drop_id drop_take take_add)
  have "i = length a"
  proof (rule ccontr)
    assume "i \<noteq> length a"
    with le have less: "i + length p \<le> length (a @ butlast p)" using assms(1) by (cases p) auto
    have split: "a @ p @ b = (a @ butlast p) @ (last p # b)" using assms(1) by simp
    have "take (length p) (drop i (a @ butlast p)) = p"
      using at less unfolding split by (simp add: take_drop del: append_assoc)
    then have "a @ butlast p = take i (a @ butlast p) @ p @ drop (length p) (drop i (a @ butlast p))"
      by (metis append_take_drop_id)
    then show False using assms(2) unfolding contains_iff by blast
  qed
  with Some show ?thesis by simp
qed

lemma trim_start_str_other: "\<not> starts_with s p \<Longrightarrow> trim_start_str p s = s"
  by (subst trim_start_str.simps) simp

lemma trim_start_str_one: "p \<noteq> [] \<Longrightarrow> trim_start_str p (p @ s) = trim_start_str p s"
  by (subst trim_start_str.simps) simp

text \<open>A file as an editor writes it: marks of byte order and empty lines, the opening line, the YAML text, the
  closing line and the body.\<close>

definition frontmatter_file :: "nat \<Rightarrow> str \<Rightarrow> str \<Rightarrow> str \<Rightarrow> str \<Rightarrow> str" where
  "frontmatter_file boms blank eol yaml body =
     concat (replicate boms BOM) @ blank @ ''---'' @ eol @ yaml @ eol @ ''---'' @ eol @ body"

lemma trim_boms: "\<not> starts_with s BOM \<Longrightarrow> trim_start_str BOM (concat (replicate n BOM) @ s) = s"
proof (induction n)
  case (Suc n)
  have "BOM \<noteq> []" by (simp add: BOM_def)
  with Suc show ?case by (simp add: trim_start_str_one)
qed (simp add: trim_start_str_other)

lemma trim_file:
  assumes "\<forall>c \<in> set blank. c = CR \<or> c = NL"
  shows "trim_newlines (trim_start_str BOM (frontmatter_file boms blank eol yaml body)) =
    ''---'' @ eol @ yaml @ eol @ ''---'' @ eol @ body"
proof -
  have "\<not> starts_with (blank @ ''---'' @ eol @ yaml @ eol @ ''---'' @ eol @ body) BOM"
    using assms by (cases blank) (auto simp: BOM_def)
  then show ?thesis
    using assms by (simp add: frontmatter_file_def trim_boms trim_newlines_def dropWhile_append)
qed

text \<open>
  Front matter is found again: with line feeds, when no line of the YAML text but the closing line is
  three hyphens; with carriage returns, when moreover no such line ended by a line feed alone follows.
\<close>
theorem frontmatter_roundtrip:
  assumes "\<forall>c \<in> set blank. c = CR \<or> c = NL"
    and "(eol = [NL] \<and> \<not> contains (yaml @ NL # ''---'') (NL # ''---'' @ [NL]))
       \<or> (eol = [CR, NL] \<and> \<not> contains (yaml @ eol @ ''---'' @ [CR]) (CR # NL # ''---'' @ [CR, NL])
           \<and> \<not> contains (yaml @ eol @ ''---'' @ eol @ body) (NL # ''---'' @ [NL]))"
  shows "split_frontmatter (frontmatter_file boms blank eol yaml body) = Inr \<lparr>fr_yaml = yaml, fr_body = body\<rparr>"
  using assms(2)
proof
  assume lf: "eol = [NL] \<and> \<not> contains (yaml @ NL # ''---'') (NL # ''---'' @ [NL])"
  then have "find_sub (yaml @ (NL # ''---'' @ [NL]) @ body) (NL # ''---'' @ [NL]) = Some (length yaml)"
    by (intro find_sub_at) simp_all
  with lf show ?thesis
    unfolding split_frontmatter_def trim_file [OF assms(1)]
    by (simp add: strip_prefix_def starts_with_def split_on_close_delim_def close_delims_def)
next
  assume crlf: "eol = [CR, NL] \<and> \<not> contains (yaml @ eol @ ''---'' @ [CR]) (CR # NL # ''---'' @ [CR, NL])
     \<and> \<not> contains (yaml @ eol @ ''---'' @ eol @ body) (NL # ''---'' @ [NL])"
  then have "find_sub (yaml @ (CR # NL # ''---'' @ [CR, NL]) @ body) (CR # NL # ''---'' @ [CR, NL]) = Some (length yaml)"
    by (intro find_sub_at) auto
  moreover from crlf have "find_sub (yaml @ CR # NL # ''---'' @ CR # NL # body) (NL # ''---'' @ [NL]) = None"
    by (auto simp: contains_def)
  ultimately show ?thesis
    using crlf unfolding split_frontmatter_def trim_file [OF assms(1)]
    by (simp add: strip_prefix_def starts_with_def split_on_close_delim_def close_delims_def)
qed

theorem frontmatter_roundtrip_witness:
  "split_frontmatter (BOM @ [NL] @ ''---'' @ [CR, NL] @ ''name: x'' @ [CR, NL] @ ''---'' @ [CR, NL] @ ''body'')
     = Inr \<lparr>fr_yaml = ''name: x'', fr_body = ''body''\<rparr>"
proof -
  have "\<not> contains (''name: x'' @ [CR, NL] @ ''---'' @ [CR]) (CR # NL # ''---'' @ [CR, NL])"
    and "\<not> contains (''name: x'' @ [CR, NL] @ ''---'' @ [CR, NL] @ ''body'') (NL # ''---'' @ [NL])"
    by code_simp+
  then show ?thesis
    using frontmatter_roundtrip [of "[NL]" "[CR, NL]" "''name: x''" "''body''" 1] by (simp add: frontmatter_file_def)
qed

text \<open>The closing lines are searched one kind after the other, so a rule in the body can hide the first one.\<close>

lemma later_rule_closes:
  "split_frontmatter (''---'' @ [CR, NL] @ ''name: x'' @ [CR, NL] @ ''---'' @ [CR, NL] @ ''a'' @ [NL] @ ''---'' @ [NL] @ ''b'')
     = Inr \<lparr>fr_yaml = ''name: x'' @ [CR, NL] @ ''---'' @ [CR, NL] @ ''a'', fr_body = ''b''\<rparr>"
  by code_simp

section \<open>The registry\<close>

definition last_of :: "'a list \<Rightarrow> 'a option" where
  "last_of xs = (if xs = [] then None else Some (last xs))"

lemma last_of_simps [simp]:
  "last_of [] = None" "last_of [x] = Some x"
  "last_of (xs @ ys) = (case last_of ys of None \<Rightarrow> last_of xs | Some a \<Rightarrow> Some a)"
  by (simp_all add: last_of_def)

text \<open>What loads of some inputs, and the last of it under a name.\<close>

definition loaded :: "('i \<Rightarrow> origin \<Rightarrow> str + 'a) \<Rightarrow> (origin \<times> 'i) list \<Rightarrow> 'a list" where
  "loaded load xs = concat (map (\<lambda>(origin, i). case load i origin of Inl _ \<Rightarrow> [] | Inr a \<Rightarrow> [a]) xs)"

definition last_loaded :: "('i \<Rightarrow> origin \<Rightarrow> str + 'a) \<Rightarrow> ('a \<Rightarrow> str) \<Rightarrow> str \<Rightarrow> (origin \<times> 'i) list \<Rightarrow> 'a option" where
  "last_loaded load name n xs = last_of (filter (\<lambda>a. name a = n) (loaded load xs))"

lemma last_loaded_append [simp]:
  "last_loaded load name n (xs @ ys) =
     (case last_loaded load name n ys of None \<Rightarrow> last_loaded load name n xs | Some a \<Rightarrow> Some a)"
  by (simp add: last_loaded_def loaded_def split: option.split)

lemma last_loaded_some:
  assumes "last_loaded load name n xs = Some a"
  shows "name a = n" and "\<exists>x \<in> set xs. load (snd x) (fst x) = Inr a"
proof -
  have "a \<in> set (filter (\<lambda>a. name a = n) (loaded load xs))"
    using assms last_in_set by (auto simp: last_loaded_def last_of_def simp del: set_filter split: if_splits)
  then show "name a = n" and "\<exists>x \<in> set xs. load (snd x) (fst x) = Inr a"
    by (auto simp: loaded_def split: sum.splits) force
qed

lemma distinct_add_input: "distinct (map fst reg) \<Longrightarrow> distinct (map fst (add_input load name x reg))"
  by (auto simp: add_input_def distinct_update split: prod.splits sum.splits)

lemma distinct_inputs: "distinct (map fst reg) \<Longrightarrow> distinct (map fst (fold (add_input load name) xs reg))"
  by (induction xs arbitrary: reg) (simp_all add: distinct_add_input)

lemma registry_names_distinct: "distinct (map fst (build_registry load name defaults global project disabled))"
  by (simp add: build_registry_def distinct_map_filter distinct_inputs)

lemma map_of_filter_key: "map_of (filter (\<lambda>(n, _). P n) reg) n = (if P n then map_of reg n else None)"
  by (induction reg) auto

lemma inputs_lookup:
  "map_of (fold (add_input load name) xs reg) n =
     (case last_loaded load name n xs of None \<Rightarrow> map_of reg n | Some a \<Rightarrow> Some a)"
proof (induction xs arbitrary: reg rule: rev_induct)
  case (snoc x xs)
  obtain origin i where x: "x = (origin, i)" by (cases x)
  show ?case
    using snoc [of reg]
    by (cases "load i origin")
      (auto simp: x add_input_def last_loaded_def loaded_def update_conv' split: option.splits)
qed (simp add: last_loaded_def loaded_def)

lemma registry_lookup:
  "map_of (build_registry load name defaults global project disabled) n =
     (if n \<in> disabled then None else last_loaded load name n (all_inputs defaults global project))"
  by (simp add: build_registry_def map_of_filter_key inputs_lookup split: option.split)

text \<open>The skill of a name in one tier.\<close>

definition tier_skill :: "(str \<Rightarrow> str + skill_frontmatter) \<Rightarrow> origin \<Rightarrow> tier_input list \<Rightarrow> str \<Rightarrow> skill option" where
  "tier_skill yaml origin inputs n = last_loaded (load_skill yaml) sk_name n (map (Pair origin) inputs)"

definition skill_ok :: "skill \<Rightarrow> bool" where
  "skill_ok s \<longleftrightarrow> name_matches (sk_name s) \<and> sk_description s \<noteq> [] \<and> length (sk_description s) \<le> 1024
     \<and> length (sk_body s) < 4 * 20001"

lemma load_skill_ok: "load_skill yaml i origin = Inr s \<Longrightarrow> skill_ok s \<and> sk_origin s = origin"
  by (auto simp: load_skill_def parse_skill_md_def skill_ok_def skill_desc_max_def max_body_tokens_def Let_def
      split: sum.splits if_splits)

text \<open>
  The registry has for a name what the highest tier with a loadable skill of that name gives, project before
  global before default, unless the user has disabled the name; what it has is well formed and comes from
  the tier it names.
\<close>
theorem skill_precedence:
  "get_skill (new_skill_registry yaml defaults global project disabled) n =
     (if n \<in> disabled then None
      else case tier_skill yaml ProjectTier project n of
        Some s \<Rightarrow> Some s
      | None \<Rightarrow> (case tier_skill yaml GlobalTier global n of
          Some s \<Rightarrow> Some s
        | None \<Rightarrow> tier_skill yaml DefaultTier defaults n))
   \<and> (case tier_skill yaml origin inputs n of None \<Rightarrow> True
      | Some s \<Rightarrow> skill_ok s \<and> sk_name s = n \<and> sk_origin s = origin)"
proof -
  have "(case tier_skill yaml origin inputs n of None \<Rightarrow> True
      | Some s \<Rightarrow> skill_ok s \<and> sk_name s = n \<and> sk_origin s = origin)"
    using last_loaded_some [of "load_skill yaml" sk_name n "map (Pair origin) inputs"] load_skill_ok [of yaml]
    by (auto simp: tier_skill_def split: option.splits)
  then show ?thesis
    by (auto simp: get_skill_def new_skill_registry_def registry_lookup all_inputs_def last_loaded_append tier_skill_def
        split: option.split)
qed

section \<open>The dialog\<close>

lemma update_mem: "(n, a) \<in> set (AList.update k v al) \<Longrightarrow> (n, a) = (k, v) \<or> (n, a) \<in> set al"
  by (induction al) (auto split: if_splits)

lemma inputs_named:
  assumes "\<And>n a. (n, a) \<in> set reg \<Longrightarrow> name a = n"
  shows "(n, a) \<in> set (fold (add_input load name) xs reg) \<Longrightarrow> name a = n"
  using assms
proof (induction xs arbitrary: reg)
  case (Cons x xs)
  show ?case
  proof (rule Cons.IH)
    show "(n, a) \<in> set (fold (add_input load name) xs (add_input load name x reg))" using Cons.prems(1) by simp
    show "name a' = n'" if "(n', a') \<in> set (add_input load name x reg)" for n' a'
      using that Cons.prems(2)
      by (cases x, cases "load (snd x) (fst x)") (auto simp: add_input_def dest: update_mem)
  qed
qed simp

lemma all_skills_enabled:
  "all_skills (new_skill_registry yaml defaults global project disabled) =
     filter (\<lambda>s. sk_name s \<notin> disabled) (all_skills (new_skill_registry yaml defaults global project {}))"
proof -
  let ?reg = "fold (add_input (load_skill yaml) sk_name) (all_inputs defaults global project) []"
  have named: "sk_name a = n" if "(n, a) \<in> set ?reg" for n a
    by (rule inputs_named [OF _ that]) simp
  have "map snd (filter (\<lambda>(n, _). n \<notin> disabled) ?reg) = filter (\<lambda>s. sk_name s \<notin> disabled) (map snd ?reg)"
    unfolding filter_map by (rule arg_cong [of _ _ "map snd"], rule filter_cong) (auto simp: named)
  then show ?thesis
    by (simp add: all_skills_def new_skill_registry_def build_registry_def filter_sort)
qed

text \<open>
  The dialog shows with the mark of being enabled exactly the skills that an agent started in that folder
  gets, in the same order.
\<close>
theorem dialog_shows_agent_skills:
  "filter sd_enabled (list_skills_for_dialog env d disabled (Some wd)) =
     map (skill_dialog_entry_of disabled)
       (case build_skills_for_agent env d disabled wd of None \<Rightarrow> [] | Some reg \<Rightarrow> all_skills reg)"
proof -
  have "filter sd_enabled (map (skill_dialog_entry_of disabled) ss) =
      map (skill_dialog_entry_of disabled) (filter (\<lambda>s. sk_name s \<notin> disabled) ss)" for ss
    by (induction ss) (simp_all add: skill_dialog_entry_of_def)
  moreover have "all_skills [] = []" by (simp add: all_skills_def)
  ultimately show ?thesis
    by (simp add: list_skills_for_dialog_def build_skills_for_agent_def Let_def skill_is_empty_def
        flip: all_skills_enabled)
qed

section \<open>Discovery\<close>

text \<open>What a listing of directories must be: the names in them, none of them a path.\<close>

definition plain_name :: "str \<Rightarrow> bool" where
  "plain_name n \<longleftrightarrow> n \<noteq> [] \<and> n \<noteq> ''.'' \<and> n \<noteq> ''..'' \<and> SLASH \<notin> set n"

definition lists_disk :: "dir_listing \<Rightarrow> disk \<Rightarrow> bool" where
  "lists_disk read_dir d \<longleftrightarrow>
     (\<forall>p ns. read_dir p = Some ns \<longrightarrow> (\<exists>l. stat d p = Inr (l, NDir)) \<and> list_all plain_name ns)"

lemma split_char_none: "c \<notin> set s \<Longrightarrow> split_char c s = [s]"
  by (induction s) auto

lemma split_char_snoc: "c \<notin> set n \<Longrightarrow> split_char c (s @ c # n) = split_char c s @ [n]"
  by (induction s) (auto simp: split_char_none split: list.splits)

lemma hd_split_char_append: "hd (split_char c (s @ c # n)) = hd (split_char c s)"
  by (induction s) (auto split: list.splits)

lemma starts_with_app_nonempty: "s \<noteq> [] \<Longrightarrow> starts_with (s @ t) [c] \<longleftrightarrow> starts_with s [c]"
  by (cases s) simp_all

lemma components_join:
  assumes "plain_name n"
  shows "components (path_join s n) = components s @ [Normal n]"
proof -
  from assms have n: "SLASH \<notin> set n" "n \<noteq> []" "n \<noteq> ''.''" "n \<noteq> ''..''" by (simp_all add: plain_name_def)
  then have abs: "\<not> is_absolute n" by (cases n) (auto simp: is_absolute_def)
  consider "s = []" | u where "s = u @ [SLASH]" | "s \<noteq> []" "last s \<noteq> SLASH"
    by (metis append_butlast_last_id)
  then show ?thesis
  proof cases
    case 1
    with n abs show ?thesis
      by (cases n) (auto simp: path_join_def components_def split_char_none component_of_def Let_def)
  next
    case 2
    have u: "split_char SLASH (u @ SLASH # n) = split_char SLASH u @ [n]"
      "split_char SLASH (u @ [SLASH]) = split_char SLASH u @ [[]]"
      using split_char_snoc [of SLASH n u] split_char_snoc [of SLASH "[]" u] n by simp_all
    have "starts_with (u @ SLASH # n) [SLASH] = starts_with (u @ [SLASH]) [SLASH]" by (cases u) simp_all
    with 2 n abs u show ?thesis by (simp add: path_join_def components_def component_of_def Let_def)
  next
    case 3
    then have "path_join s n = s @ SLASH # n" using abs by (simp add: path_join_def)
    moreover have "split_char SLASH (s @ SLASH # n) = split_char SLASH s @ [n]" using split_char_snoc n by blast
    ultimately show ?thesis
      using n 3(1) by (simp add: components_def component_of_def Let_def starts_with_app_nonempty)
  qed
qed

lemma resolve_snoc:
  "resolve d cur (p @ [Normal n]) =
     (case resolve d cur p of Inl e \<Rightarrow> Inl e
      | Inr l \<Rightarrow> (case need_dir d l of Some e \<Rightarrow> Inl e | None \<Rightarrow> Inr (follow d (l @ [n]))))"
  by (induction d cur p rule: resolve.induct) (auto split: option.splits)

lemma lstat_snoc:
  "lstat d (p @ [Normal n]) =
     (case resolve d [] p of Inl e \<Rightarrow> Inl e
      | Inr l \<Rightarrow> (case need_dir d l of Some e \<Rightarrow> Inl e
          | None \<Rightarrow> (case d (l @ [n]) of None \<Rightarrow> Inl NotFound | Some x \<Rightarrow> Inr x)))"
  by (auto simp: lstat_def entry_of_def split: sum.splits option.splits)

lemma read_guarded_regular:
  assumes "stat d root = Inr (l, NDir)" and "components entry = root @ [Normal n]"
    and "components md = root @ [Normal n, Normal m]" and "read_guarded d entry md = Some raw"
  shows "d (l @ [n]) = Some NDir \<and> d (l @ [n, m]) = Some (NFile raw)"
proof -
  have r: "resolve d [] root = Inr l" "d l = Some NDir"
    using assms(1) by (auto simp: stat_def split: sum.splits option.splits)
  have nd: "need_dir d l = None" using r(2) by (simp add: need_dir_def)
  have md: "components md = (root @ [Normal n]) @ [Normal m]" using assms(3) by simp
  have nolink: "\<not> is_link (lstat d (components entry))"
    using assms(4) by (auto simp: read_guarded_def split: if_splits)
  obtain x where x: "lstat d (components md) = Inr x" and xl: "\<not> is_link (Inr x)"
    and content: "read_to_string d (components md) = Inr raw"
    using assms(4) by (auto simp: read_guarded_def split: if_splits sum.splits)
  have up: "resolve d [] (root @ [Normal n]) = Inr (follow d (l @ [n]))"
    by (simp add: resolve_snoc r nd)
  have dir: "need_dir d (follow d (l @ [n])) = None"
    using x unfolding md lstat_snoc up by (auto split: option.splits)
  have "d (l @ [n]) = Some NDir"
  proof (cases "d (l @ [n])")
    case None
    with dir show ?thesis by (simp add: need_dir_def follow_def)
  next
    case (Some y)
    with nolink have "\<not> is_link (Inr y)" unfolding assms(2) lstat_snoc by (simp add: r nd)
    with Some dir show ?thesis by (cases y) (simp_all add: need_dir_def follow_def)
  qed
  moreover from this have fol: "follow d (l @ [n]) = l @ [n]" by (simp add: follow_def)
  moreover from x have y: "d (l @ [n, m]) = Some x"
    unfolding md lstat_snoc up by (auto simp: fol dir split: option.splits)
  moreover have "stat d (components md) = Inr (l @ [n, m], x)"
    using xl y calculation(1) unfolding md stat_def resolve_snoc up
    by (cases x) (simp_all add: r fol need_dir_def follow_def)
  ultimately show ?thesis
    using content by (cases x) (auto simp: read_to_string_def read_file_def split: if_splits)
qed

text \<open>
  Whatever links a project holds below its directory of skills, every skill read from there is the text of a
  regular file \<open>SKILL.md\<close> in a directory right below it: no link is followed.
\<close>
theorem skills_are_regular_files:
  assumes "lists_disk read_dir d" and "i \<in> set (read_skill_tier read_dir d root)"
  shows "\<exists>l n. stat d (components root) = Inr (l, NDir) \<and> in_path i = path_join root n
     \<and> d (l @ [n]) = Some NDir \<and> d (l @ [n, ''SKILL.md'']) = Some (NFile (in_raw i))"
proof -
  from assms(2) obtain ns n where ns: "read_dir (components root) = Some ns" "n \<in> set ns"
    and n: "read_skill_entry d root n = Some i"
    by (cases "read_dir (components root)") (auto simp: read_skill_tier_def List.map_filter_def)
  from ns assms(1) obtain l where l: "stat d (components root) = Inr (l, NDir)" and pn: "plain_name n"
    by (fastforce simp: lists_disk_def list_all_iff)
  have md: "plain_name ''SKILL.md''" by (simp add: plain_name_def)
  have "read_guarded d (path_join root n) (path_join (path_join root n) ''SKILL.md'') = Some (in_raw i)"
    and "in_path i = path_join root n"
    using n by (auto simp: read_skill_entry_def Let_def)
  with read_guarded_regular [OF l components_join [OF pn, of root], of "path_join (path_join root n) ''SKILL.md''"]
  show ?thesis using l components_join [OF md] components_join [OF pn] by auto
qed

definition skills_disk :: disk where
  "skills_disk = [[] \<mapsto> NDir, [''s''] \<mapsto> NDir, [''s'', ''a''] \<mapsto> NDir, [''s'', ''a'', ''SKILL.md''] \<mapsto> NFile ''text'',
     [''s'', ''evil''] \<mapsto> NLink [''etc''], [''etc''] \<mapsto> NDir, [''etc'', ''SKILL.md''] \<mapsto> NFile ''secret'']"

definition skills_listing :: dir_listing where
  "skills_listing p = (if p = [RootDir, Normal ''s''] then Some [''evil'', ''a''] else None)"

lemma skills_demo:
  "lists_disk skills_listing skills_disk"
  "read_skill_tier skills_listing skills_disk ''/s'' = [\<lparr>in_raw = ''text'', in_path = ''/s/a''\<rparr>]"
proof -
  have "stat skills_disk [RootDir, Normal ''s''] = Inr ([''s''], NDir)" by code_simp
  then show "lists_disk skills_listing skills_disk"
    by (simp add: lists_disk_def skills_listing_def plain_name_def)
  show "read_skill_tier skills_listing skills_disk ''/s'' = [\<lparr>in_raw = ''text'', in_path = ''/s/a''\<rparr>]"
    by code_simp
qed

theorem skills_are_regular_files_witness:
  "\<exists>l n. stat skills_disk (components ''/s'') = Inr (l, NDir) \<and> ''/s/a'' = path_join ''/s'' n
     \<and> skills_disk (l @ [n]) = Some NDir \<and> skills_disk (l @ [n, ''SKILL.md'']) = Some (NFile ''text'')"
  using skills_are_regular_files [OF skills_demo(1), of "\<lparr>in_raw = ''text'', in_path = ''/s/a''\<rparr>" "''/s''"]
  by (simp add: skills_demo(2))

section \<open>The tool\<close>

lemma split_sub_parts: "p \<noteq> [] \<Longrightarrow> x \<in> set (split_sub s p) \<Longrightarrow> \<not> contains x p"
proof (induction s p arbitrary: x rule: split_sub.induct)
  case (1 s p)
  show ?case
  proof (cases "find_sub s p")
    case None
    with 1 show ?thesis by (simp add: split_sub.simps [of s] contains_def)
  next
    case (Some i)
    have "\<not> contains (take i s) p"
    proof
      assume "contains (take i s) p"
      then obtain a b where ab: "take i s = a @ p @ b" unfolding contains_iff by blast
      then have "s = a @ p @ (b @ drop i s)" by (metis append.assoc append_take_drop_id)
      from find_sub_first [OF Some this] have "i \<le> length a" .
      moreover have "length (take i s) = length a + length p + length b" using ab by simp
      ultimately show False using 1(2) by (cases p) simp_all
    qed
    with 1 Some show ?thesis by (auto simp: split_sub.simps [of s])
  qed
qed

text \<open>A pattern of which no proper part starts anew and a replacement in which it cannot overlap.\<close>

lemma close_overlap:
  assumes "a @ skill_close @ b = x @ skill_close_escaped @ y"
  shows "(\<exists>u. x = a @ skill_close @ u) \<or> (\<exists>u. y = u @ skill_close @ b)"
proof (cases "length a < length x")
  case True
  then obtain u where u: "x = a @ u" "u \<noteq> []"
    using assms by (metis append_eq_append_conv_if append_take_drop_id drop_eq_Nil not_le order_less_imp_le)
  with assms have eq: "skill_close @ b = u @ skill_close_escaped @ y" by simp
  show ?thesis
  proof (cases "length u < length skill_close")
    case True
    then have "skill_close ! length u = CHR ''<''"
      using arg_cong [OF eq, of "\<lambda>s. s ! length u"] by (simp add: nth_append skill_close_escaped_def)
    moreover have "length u < 16" "0 < length u" using True u by (simp_all add: skill_close_def)
    ultimately show ?thesis
      by (auto simp: skill_close_def nth_Cons' split: if_splits)
  next
    case False
    then have "\<exists>v. u = skill_close @ v"
      using eq by (metis append_eq_append_conv_if append_take_drop_id not_le)
    with u show ?thesis by auto
  qed
next
  case False
  then have "\<exists>u. a = x @ u"
    using assms by (metis append_eq_append_conv_if append_take_drop_id not_le)
  then obtain u where u: "a = x @ u" by blast
  with assms have eq: "u @ skill_close @ b = skill_close_escaped @ y" by simp
  show ?thesis
  proof (cases "length u < length skill_close_escaped")
    case True
    then have "skill_close_escaped ! length u = CHR ''<''"
      using arg_cong [OF eq, of "\<lambda>s. s ! length u"] by (simp add: nth_append skill_close_def)
    moreover have "length u < 17" using True by (simp add: skill_close_escaped_def)
    ultimately have "u = []"
      by (auto simp: skill_close_escaped_def nth_Cons' split: if_splits)
    with eq show ?thesis by (simp add: skill_close_def skill_close_escaped_def)
  next
    case False
    then have "\<exists>v. u = skill_close_escaped @ v"
      using eq by (metis append_eq_append_conv_if append_take_drop_id not_le)
    with eq show ?thesis by auto
  qed
qed

lemma join_escaped:
  "\<forall>x \<in> set xs. \<not> contains x skill_close \<Longrightarrow> \<not> contains (join skill_close_escaped xs) skill_close"
proof (induction xs)
  case Nil
  then show ?case by (simp add: contains_def skill_close_def)
next
  case (Cons x xs)
  show ?case
  proof (cases "xs = []")
    case False
    show ?thesis
    proof
      assume "contains (join skill_close_escaped (x # xs)) skill_close"
      with False obtain a b where "a @ skill_close @ b = x @ skill_close_escaped @ join skill_close_escaped xs"
        by (auto simp: contains_iff join_Cons)
      from close_overlap [OF this] Cons show False unfolding contains_iff by auto
    qed
  qed (use Cons in simp)
qed

text \<open>
  For a known skill the tool sends one event and answers with the text of the skill between the tags, and
  between them the closing tag does not occur: no skill text can end its own tag.
\<close>
theorem skill_text_stays_in_tag:
  assumes "get_skill reg name = Some s" and "json_get_str args ''name'' = Some name"
  shows "\<exists>shown. skill_execute reg args cx w =
      (w, [SkillLoaded (cx_session_id cx) (sk_name s)],
       Inr (tool_success (''<skill_content name='' @ [DQUOTE] @ sk_name s @ [DQUOTE] @ ''>'' @ [NL] @ shown @ [NL] @ skill_close)))
    \<and> \<not> contains shown skill_close
    \<and> (\<not> contains (sk_body s) skill_close \<longrightarrow> shown = sk_body s)"
proof -
  have p: "skill_close \<noteq> []" by (simp add: skill_close_def)
  have "\<not> contains (replace_sub (sk_body s) skill_close skill_close_escaped) skill_close"
    using split_sub_parts [OF p] by (simp add: replace_sub_def p join_escaped)
  moreover have "replace_sub (sk_body s) skill_close skill_close_escaped = sk_body s"
    if "\<not> contains (sk_body s) skill_close"
    using that by (simp add: replace_sub_def p split_sub.simps [of "sk_body s"] contains_def)
  ultimately show ?thesis
    using assms by (auto simp: skill_execute_def skill_output_def)
qed

definition demo_skills :: skill_registry where
  "demo_skills = [(''a'', \<lparr>sk_name = ''a'', sk_description = ''d'', sk_body = ''x'' @ skill_close @ ''y'',
     sk_origin = ProjectTier, sk_path = ''p''\<rparr>)]"

definition skill_context :: tool_context where
  "skill_context = \<lparr>cx_working_dir = ''/p'', cx_session_id = ''s'', cx_tool_call_id = ''c'',
     cx_checkpoint_on = True, cx_checkpoint_turn = 1, cx_policy = default_policy\<rparr>"

theorem skill_text_stays_in_tag_witness:
  "\<exists>w shown. skill_execute demo_skills (JObj [(''name'', JStr ''a'')]) skill_context w =
      (w, [SkillLoaded ''s'' ''a''],
       Inr (tool_success (''<skill_content name='' @ [DQUOTE] @ ''a'' @ [DQUOTE] @ ''>'' @ [NL] @ shown @ [NL] @ skill_close)))
    \<and> \<not> contains shown skill_close"
proof -
  let ?s = "\<lparr>sk_name = ''a'', sk_description = ''d'', sk_body = ''x'' @ skill_close @ ''y'', sk_origin = ProjectTier, sk_path = ''p''\<rparr>"
  have known: "get_skill demo_skills ''a'' = Some ?s" by (simp only: demo_skills_def get_skill_def map_of.simps fun_upd_same fst_conv snd_conv)
  have named: "json_get_str (JObj [(''name'', JStr ''a'')]) ''name'' = Some ''a''" by code_simp
  have ids: "cx_session_id skill_context = ''s''" "sk_name ?s = ''a''" by (simp_all only: skill_context_def tool_context.simps skill.simps)
  from skill_text_stays_in_tag [OF known named, of skill_context] show ?thesis unfolding ids by blast
qed

end
