(* ===== verification/Subagents.thy ===== *)
theory Subagents
  imports Skills AgentLoop Anthropic
begin

text \<open>
  Subagents, \<open>crates/agent/src/subagents\<close> and \<open>agent_bridge/subagents.rs\<close>: their definitions and registry, and
  the tool that runs one as a nested loop on a task of its own. The client of the child, the fresh session id,
  the date and what the child's loop cannot know are parameters. The messages of the child go to the persister
  under the child's session and are not followed here.
\<close>

section \<open>Definitions of subagents\<close>

definition subagent_desc_max :: nat where "subagent_desc_max = 2048"

record parsed_subagent =
  pa_name :: str
  pa_description :: str
  pa_body :: str
  pa_allowed_tools :: "str list option"
  pa_model :: "str option"

datatype subagent_parse_error =
    NoFrontmatter
  | BadYaml str
  | BadName str
  | BadDescription
  | InvalidAllowedTools
  | InvalidModel

record subagent_frontmatter =
  af_name :: str
  af_description :: str
  af_allowed_tools :: "str list option"
  af_model :: "str option"

definition show_subagent_error :: "subagent_parse_error \<Rightarrow> str" where
  "show_subagent_error e =
     (case e of
        NoFrontmatter \<Rightarrow> ''missing frontmatter delimiter''
      | BadYaml m \<Rightarrow> ''invalid YAML frontmatter: '' @ m
      | BadName n \<Rightarrow> ''invalid subagent name `'' @ n @ ''` (must match ^[a-z0-9-]{1,64}$)''
      | BadDescription \<Rightarrow> ''description must be 1-'' @ to_decimal subagent_desc_max @ '' characters''
      | InvalidAllowedTools \<Rightarrow> ''allowed-tools must be a list of strings''
      | InvalidModel \<Rightarrow> ''model must be a non-empty string'')"

definition parse_subagent_md :: "(str \<Rightarrow> str + subagent_frontmatter) \<Rightarrow> str \<Rightarrow> subagent_parse_error + parsed_subagent" where
  "parse_subagent_md yaml raw =
     (case split_frontmatter raw of
        Inl _ \<Rightarrow> Inl NoFrontmatter
      | Inr fm_raw \<Rightarrow>
          (case yaml (fr_yaml fm_raw) of
             Inl e \<Rightarrow> Inl (BadYaml e)
           | Inr fm \<Rightarrow>
               if af_name fm = [] \<or> name_max < length (af_name fm) \<or> \<not> name_matches (af_name fm)
               then Inl (BadName (af_name fm))
               else if af_description fm = [] \<or> subagent_desc_max < length (af_description fm)
               then Inl BadDescription
               else if (case af_allowed_tools fm of None \<Rightarrow> False | Some tools \<Rightarrow> list_ex (\<lambda>t. t = []) tools)
               then Inl InvalidAllowedTools
               else if af_model fm = Some [] then Inl InvalidModel
               else Inr \<lparr>pa_name = af_name fm, pa_description = af_description fm,
                      pa_body = trim_newlines (fr_body fm_raw), pa_allowed_tools = af_allowed_tools fm,
                      pa_model = af_model fm\<rparr>))"

section \<open>Registry\<close>

record subagent =
  sa_name :: str
  sa_description :: str
  sa_body :: str
  sa_allowed_tools :: "str list option"
  sa_model :: "str option"
  sa_origin :: origin
  sa_path :: str

type_synonym subagent_registry = "(str \<times> subagent) list"

definition load_subagent :: "(str \<Rightarrow> str + subagent_frontmatter) \<Rightarrow> tier_input \<Rightarrow> origin \<Rightarrow> str + subagent" where
  "load_subagent yaml input origin =
     (case parse_subagent_md yaml (in_raw input) of
        Inl e \<Rightarrow> Inl (in_path input @ '': parse error: '' @ show_subagent_error e)
      | Inr parsed \<Rightarrow>
          (let approx_tokens = length (pa_body parsed) div 4 in
           if max_body_tokens < approx_tokens then Inl (body_too_large (in_path input) approx_tokens)
           else Inr \<lparr>sa_name = pa_name parsed, sa_description = pa_description parsed, sa_body = pa_body parsed,
                  sa_allowed_tools = pa_allowed_tools parsed, sa_model = pa_model parsed,
                  sa_origin = origin, sa_path = in_path input\<rparr>))"

definition new_subagent_registry :: "(str \<Rightarrow> str + subagent_frontmatter) \<Rightarrow> tier_input list \<Rightarrow> tier_input list
    \<Rightarrow> tier_input list \<Rightarrow> str set \<Rightarrow> subagent_registry" where
  "new_subagent_registry yaml = build_registry (load_subagent yaml) sa_name"

definition subagent_is_empty :: "subagent_registry \<Rightarrow> bool" where
  "subagent_is_empty reg \<longleftrightarrow> reg = []"

definition get_subagent :: "subagent_registry \<Rightarrow> str \<Rightarrow> subagent option" where
  "get_subagent reg name = map_of reg name"

definition subagent_names :: "subagent_registry \<Rightarrow> str list" where
  "subagent_names reg = sort (map fst reg)"

definition all_subagents :: "subagent_registry \<Rightarrow> subagent list" where
  "all_subagents reg = sort_key sa_name (map snd reg)"

definition subagents_for_prompt :: "subagent_registry \<Rightarrow> (str \<times> str) list" where
  "subagents_for_prompt reg = sort_key fst (map (\<lambda>(_, a). (sa_name a, sa_description a)) reg)"

definition read_subagent_entry :: "disk \<Rightarrow> str \<Rightarrow> str \<Rightarrow> tier_input option" where
  "read_subagent_entry d root n =
     (let p = path_join root n; agent_md = path_join p (n @ ''.md'') in
      map_option (\<lambda>raw. \<lparr>in_raw = raw, in_path = agent_md\<rparr>) (read_guarded d p agent_md))"

definition read_subagent_tier :: "dir_listing \<Rightarrow> disk \<Rightarrow> str \<Rightarrow> tier_input list" where
  "read_subagent_tier read_dir d root =
     (case read_dir (components root) of
        None \<Rightarrow> []
      | Some names \<Rightarrow> List.map_filter (read_subagent_entry d root) names)"

record subagent_env =
  av_yaml :: "str \<Rightarrow> str + subagent_frontmatter"
  av_default :: "tier_input list"
  av_data_dir :: str
  av_read_dir :: dir_listing

definition global_subagents_dir :: "subagent_env \<Rightarrow> str" where
  "global_subagents_dir env = path_join (av_data_dir env) ''subagents''"

definition project_subagents_dir :: "str \<Rightarrow> str" where
  "project_subagents_dir working_dir = path_join (path_join working_dir ''.agent'') ''subagents''"

definition build_subagents_for_agent :: "subagent_env \<Rightarrow> disk \<Rightarrow> str set \<Rightarrow> str \<Rightarrow> subagent_registry option" where
  "build_subagents_for_agent env d disabled working_dir =
     (let reg = new_subagent_registry (av_yaml env) (av_default env)
                  (read_subagent_tier (av_read_dir env) d (global_subagents_dir env))
                  (read_subagent_tier (av_read_dir env) d (project_subagents_dir working_dir)) disabled
      in if subagent_is_empty reg then None else Some reg)"

record subagent_dialog_entry =
  ad_name :: str
  ad_description :: str
  ad_origin :: str
  ad_enabled :: bool
  ad_allowed_tools :: "str list option"
  ad_model :: "str option"
  ad_path :: str

definition subagent_dialog_entry_of :: "str set \<Rightarrow> subagent \<Rightarrow> subagent_dialog_entry" where
  "subagent_dialog_entry_of disabled a =
     \<lparr>ad_name = sa_name a, ad_description = sa_description a, ad_origin = show_origin (sa_origin a),
      ad_enabled = (sa_name a \<notin> disabled), ad_allowed_tools = sa_allowed_tools a, ad_model = sa_model a,
      ad_path = sa_path a\<rparr>"

definition list_subagents_for_dialog :: "subagent_env \<Rightarrow> disk \<Rightarrow> str set \<Rightarrow> str option \<Rightarrow> subagent_dialog_entry list" where
  "list_subagents_for_dialog env d disabled working_dir =
     map (subagent_dialog_entry_of disabled)
       (all_subagents (new_subagent_registry (av_yaml env) (av_default env)
          (read_subagent_tier (av_read_dir env) d (global_subagents_dir env))
          (case working_dir of None \<Rightarrow> []
           | Some wd \<Rightarrow> read_subagent_tier (av_read_dir env) d (project_subagents_dir wd)) {}))"

section \<open>The child\<close>

record inheritance =
  ih_llm :: llm_client_config
  ih_max_retries :: u32
  ih_compaction :: compaction_config
  ih_max_iterations :: u32
  ih_engine_tools :: "tool list option"
  ih_persist_on :: bool
  ih_approval :: "(str \<Rightarrow> str \<Rightarrow> str \<Rightarrow> json \<Rightarrow> str \<Rightarrow> approval_decision option) option"
  ih_parent_session :: "str option"
  ih_checkpoint_on :: bool

record spawn_env =
  sn_builtin :: "str \<Rightarrow> tool"
  sn_fresh :: str
  sn_date :: str
  sn_provider :: "llm_client_config \<Rightarrow> llm_provider"
  sn_summarizer :: "llm_provider option"
  sn_tools :: tool_env
  sn_cancelled :: "nat \<Rightarrow> cancel_point \<Rightarrow> bool"
  sn_join_order :: "nat \<Rightarrow> nat \<Rightarrow> nat list"
  sn_panics :: "nat \<Rightarrow> nat \<Rightarrow> (world \<Rightarrow> world \<times> agent_event list) option"
  sn_show_result :: "agent_result \<Rightarrow> str"

definition write_capable_tools :: "str list" where
  "write_capable_tools = [''write'', ''edit'', ''bash'', ''apply_patch'', ''git'', ''create_pr'']"

definition is_write_capable :: "str list \<Rightarrow> bool" where
  "is_write_capable effective_tools \<longleftrightarrow> list_ex (\<lambda>t. t \<in> set write_capable_tools) effective_tools"

definition child_registry :: "spawn_env \<Rightarrow> inheritance \<Rightarrow> subagent \<Rightarrow> registry" where
  "child_registry env ih a =
     (let r = registry_for_mode (sn_builtin env) CodingMode (ih_engine_tools ih) None
      in case sa_allowed_tools a of None \<Rightarrow> r | Some allowed \<Rightarrow> retain_tools (\<lambda>n. n \<in> set allowed) r)"

definition child_llm :: "inheritance \<Rightarrow> subagent \<Rightarrow> llm_client_config" where
  "child_llm ih a = (case sa_model a of None \<Rightarrow> ih_llm ih | Some m \<Rightarrow> (ih_llm ih)\<lparr>lc_model := m\<rparr>)"

definition env_block_text :: "str \<Rightarrow> str \<Rightarrow> str" where
  "env_block_text working_dir date =
     ''# Environment'' @ [NL] @ ''- Working directory: '' @ working_dir @ [NL]
     @ ''- Depth: 1 (spawned by parent)'' @ [NL] @ ''- Date: '' @ date @ [NL]"

definition child_config :: "spawn_env \<Rightarrow> inheritance \<Rightarrow> subagent \<Rightarrow> tool_context \<Rightarrow> agent_config" where
  "child_config env ih a cx =
     \<lparr>ac_working_dir = cx_working_dir cx, ac_max_iterations = ih_max_iterations ih,
      ac_system_prompt = Some
        [\<lparr>sb_text = sa_body a, sb_cache_control = Some ephemeral\<rparr>,
         \<lparr>sb_text = env_block_text (cx_working_dir cx) (sn_date env), sb_cache_control = None\<rparr>],
      ac_max_retries = ih_max_retries ih, ac_compaction = ih_compaction ih,
      ac_checkpoint_on = ih_checkpoint_on ih, ac_tool_policy = default_policy\<rparr>"

definition child_loop :: "spawn_env \<Rightarrow> inheritance \<Rightarrow> str \<Rightarrow> subagent \<Rightarrow> tool_context \<Rightarrow> loop_env" where
  "child_loop env ih name a cx =
     \<lparr>le_config = child_config env ih a cx, le_session_id = sn_fresh env,
      le_provider = sn_provider env (child_llm ih a), le_summarizer = sn_summarizer env,
      le_tools = (sn_tools env)\<lparr>te_registry := child_registry env ih a,
         te_approval := map_option (\<lambda>f. f name) (ih_approval ih)\<rparr>,
      le_cancelled = sn_cancelled env, le_join_order = sn_join_order env, le_panics = sn_panics env,
      le_persist_on = ih_persist_on ih,
      le_parent_session = (if ih_persist_on ih then ih_parent_session ih else None), le_turn_offset = 0\<rparr>"

text \<open>What the drain task collects of the child's events.\<close>

fun turn_files :: "agent_event \<Rightarrow> str list" where
  "turn_files (TurnCompleted sid n files) = files"
| "turn_files _ = []"

definition collected_files :: "agent_event list \<Rightarrow> str list" where
  "collected_files evs = remdups_adj (sort (concat (map turn_files evs)))"

definition run_summary :: "spawn_env \<Rightarrow> run_outcome \<Rightarrow> (bool \<times> str) option" where
  "run_summary env out =
     (case out of
        Finished (Done summary) \<Rightarrow> Some (True, summary)
      | Finished other \<Rightarrow> Some (False, ''subagent yielded unexpectedly: '' @ sn_show_result env other)
      | Failed Cancelled \<Rightarrow> Some (False, ''subagent cancelled'')
      | Failed e \<Rightarrow> Some (False, ''subagent failed: '' @ show_error e)
      | Panicked \<Rightarrow> None)"

section \<open>The tool\<close>

definition build_description :: "subagent_registry \<Rightarrow> str" where
  "build_description reg =
     ''Dispatch a specialized subagent. The child runs as a nested AgentLoop, ''
     @ ''sees only your `prompt` (no parent history), and returns a final ''
     @ ''summary as this tool'' @ [QUOTE] @ ''s result. Child shares the parent'' @ [QUOTE] @ ''s working ''
     @ ''directory. Multiple calls in one assistant turn run concurrently ''
     @ ''unless the subagent is write-capable (write-capable children serialize ''
     @ ''per working dir).'' @ [NL, NL] @ ''Available subagents:'' @ [NL]
     @ concat (map (\<lambda>(name, description). ''- '' @ name @ '': '' @ description @ [NL]) (subagents_for_prompt reg))"

definition spawn_schema :: json where
  "spawn_schema = JObj
     [(''properties'', JObj
         [(''name'', string_param ''Subagent name from the available list''),
          (''prompt'', string_param ''Full task description for the subagent'')]),
      (''required'', JArr [JStr ''name'', JStr ''prompt'']),
      (''type'', JStr ''object'')]"

definition truncate_prompt_preview :: "str \<Rightarrow> nat \<Rightarrow> str" where
  "truncate_prompt_preview prompt max_chars =
     (let collapsed = join '' '' (split_whitespace prompt) in
      if char_count collapsed \<le> max_chars then collapsed
      else take_chars max_chars collapsed @ [CHR 0xE2, CHR 0x80, CHR 0xA6])"

definition unknown_subagent_msg :: "subagent_registry \<Rightarrow> str \<Rightarrow> str" where
  "unknown_subagent_msg reg name =
     ''unknown subagent `'' @ name @ ''`. available: '' @ join '', '' (subagent_names reg)"

definition spawn_end :: "spawn_env \<Rightarrow> tool_context \<Rightarrow> bool \<Rightarrow> str \<Rightarrow> agent_event" where
  "spawn_end env cx success summary =
     SubagentEnd (cx_session_id cx) (cx_tool_call_id cx) (sn_fresh env) success summary"

text \<open>
  The call; \<open>gave_up\<close> says that the parent was cancelled while a write-capable child waited for the lock. The
  result is \<open>None\<close> where the child panics, which ends the task of the call.
\<close>

definition spawn_execute :: "spawn_env \<Rightarrow> inheritance \<Rightarrow> subagent_registry \<Rightarrow> bool \<Rightarrow> json \<Rightarrow> tool_context \<Rightarrow> world
    \<Rightarrow> world \<times> agent_event list \<times> (str + tool_result) option" where
  "spawn_execute env ih reg gave_up args cx w =
     (case json_get_str args ''name'' of
        None \<Rightarrow> (w, [], Some (Inl ''spawn_subagent: missing `name`''))
      | Some name \<Rightarrow>
     (case json_get_str args ''prompt'' of
        None \<Rightarrow> (w, [], Some (Inl ''spawn_subagent: missing `prompt`''))
      | Some prompt \<Rightarrow>
     (case get_subagent reg name of
        None \<Rightarrow> (w, [], Some (Inr (tool_failure (unknown_subagent_msg reg name))))
      | Some a \<Rightarrow>
          (let start = SubagentStart (cx_session_id cx) (cx_tool_call_id cx) (sn_fresh env) name
                         (truncate_prompt_preview prompt 120)
           in if is_write_capable (tool_names (child_registry env ih a)) \<and> gave_up
              then (w, [start, spawn_end env cx False ''subagent cancelled''], Some (Inr (tool_failure ''subagent cancelled'')))
              else case run (child_loop env ih name a cx) (user_message prompt) (initial_state (child_config env ih a cx) 0 w) of
                (st, out) \<Rightarrow>
                  (case run_summary env out of
                     None \<Rightarrow> (ls_world st, [start], None)
                   | Some (success, summary) \<Rightarrow>
                       (ls_world st, [start, spawn_end env cx success summary],
                        Some (Inr \<lparr>tr_output = summary, tr_is_error = (\<not> success), tr_yield_data = None,
                               tr_modified_files = collected_files (ls_events st)\<rparr>)))))))"

section \<open>Write locks\<close>

text \<open>
  The mutexes are numbered; the registry has one for each directory that was asked for. Directories are equal if
  their components are.
\<close>

type_synonym lock_registry = "(path \<times> nat) list"

definition get_or_create :: "lock_registry \<Rightarrow> str \<Rightarrow> lock_registry \<times> nat" where
  "get_or_create locks working_dir =
     (let dir = components working_dir in
      case map_of locks dir of
        Some lock \<Rightarrow> (locks, lock)
      | None \<Rightarrow> ((dir, length locks) # locks, length locks))"

text \<open>
  The calls of the tool that are under way at once, each with the directory it works in, the names of the tools its
  child gets, where it is in \<open>execute\<close> and the guard it holds: before the test of \<open>write_capable\<close>, waiting for a
  mutex, running the child, and after the end, when the guard is dropped. A call that waits gives up when the parent
  is cancelled. Whether the child may write depends on its tools alone.
\<close>

datatype child_phase = Called | Waiting nat | Running | Ended

record child_call =
  cl_dir :: str
  cl_tools :: "str list"
  cl_phase :: child_phase
  cl_guard :: "nat option"

record write_locks =
  wl_registry :: lock_registry
  wl_held :: "nat set"
  wl_calls :: "child_call list"

definition set_call :: "nat \<Rightarrow> child_call \<Rightarrow> write_locks \<Rightarrow> write_locks" where
  "set_call i c s = s\<lparr>wl_calls := (wl_calls s)[i := c]\<rparr>"

definition new_call :: "str \<Rightarrow> str list \<Rightarrow> write_locks \<Rightarrow> write_locks" where
  "new_call dir tools s =
     s\<lparr>wl_calls := wl_calls s @ [\<lparr>cl_dir = dir, cl_tools = tools, cl_phase = Called, cl_guard = None\<rparr>]\<rparr>"

definition enter_call :: "nat \<Rightarrow> write_locks \<Rightarrow> write_locks" where
  "enter_call i s =
     (let c = wl_calls s ! i in
      if is_write_capable (cl_tools c) then
        (case get_or_create (wl_registry s) (cl_dir c) of
           (locks, lock) \<Rightarrow> set_call i (c\<lparr>cl_phase := Waiting lock\<rparr>) (s\<lparr>wl_registry := locks\<rparr>))
      else set_call i (c\<lparr>cl_phase := Running\<rparr>) s)"

definition acquire_lock :: "nat \<Rightarrow> nat \<Rightarrow> write_locks \<Rightarrow> write_locks" where
  "acquire_lock i lock s =
     set_call i ((wl_calls s ! i)\<lparr>cl_phase := Running, cl_guard := Some lock\<rparr>) (s\<lparr>wl_held := insert lock (wl_held s)\<rparr>)"

definition end_call :: "nat \<Rightarrow> write_locks \<Rightarrow> write_locks" where
  "end_call i s =
     set_call i ((wl_calls s ! i)\<lparr>cl_phase := Ended, cl_guard := None\<rparr>)
       (s\<lparr>wl_held := wl_held s - set_option (cl_guard (wl_calls s ! i))\<rparr>)"

inductive lock_step :: "write_locks \<Rightarrow> write_locks \<Rightarrow> bool" where
  called: "lock_step s (new_call dir tools s)"
| entered: "i < length (wl_calls s) \<Longrightarrow> cl_phase (wl_calls s ! i) = Called \<Longrightarrow> lock_step s (enter_call i s)"
| acquired: "i < length (wl_calls s) \<Longrightarrow> cl_phase (wl_calls s ! i) = Waiting lock \<Longrightarrow> lock \<notin> wl_held s \<Longrightarrow>
     lock_step s (acquire_lock i lock s)"
| gave_up: "i < length (wl_calls s) \<Longrightarrow> cl_phase (wl_calls s ! i) = Waiting lock \<Longrightarrow> lock_step s (end_call i s)"
| ended: "i < length (wl_calls s) \<Longrightarrow> cl_phase (wl_calls s ! i) = Running \<Longrightarrow> lock_step s (end_call i s)"

definition no_locks :: write_locks where
  "no_locks = \<lparr>wl_registry = [], wl_held = {}, wl_calls = []\<rparr>"

end
