(* ===== verification/LoopWorld.thy ===== *)
theory LoopWorld
  imports AgentLoopFacts
begin

text \<open>
  What the loop does to the world of the tools: nothing but the calls of tools it makes. So a reflexive and
  transitive relation between worlds that holds over every call holds over a run.
\<close>

section \<open>The world of a run\<close>

named_theorems world_simps \<open>steps of the loop that leave the world of the tools alone\<close>

lemma world_basic [world_simps]:
  "ls_world (push_message m st) = ls_world st" "ls_world (persist env am st) = ls_world st"
  "ls_world (fst (chat_completion env defs st)) = ls_world st"
  "ls_world (apply_compaction env a b m st) = ls_world st"
  "ls_world (turn_completed env v st) = ls_world st"
  "ls_world (take_user_message env m st) = ls_world st"
  "ls_world (reestimate st) = ls_world st"
  "ls_world (push_response env i response st) = ls_world st"
  by (simp_all add: push_message_def persist_def chat_completion_def apply_compaction_def turn_completed_def
      take_user_message_def reestimate_def push_response_def Let_def split: prod.split)

lemma world_attempt [world_simps]: "ls_world (fst (llm_attempt env defs k e st)) = ls_world st"
proof -
  have "ls_world s = ls_world st1" if "chat_completion env defs st1 = (s, r)" for st1 s r
    using world_basic(3) [of env defs st1] that by simp
  then show ?thesis
    by (auto simp: llm_attempt_def Let_def split: prod.split sum.split agent_error.split)
qed

lemma world_attempts [world_simps]: "ls_world (fst (llm_attempts env defs n e st)) = ls_world st"
proof (induction n arbitrary: e st)
  case 0
  obtain s r where a: "llm_attempt env defs (unat (ac_max_retries (le_config env))) e st = (s, r)" by (rule prod.exhaust)
  then have "ls_world s = ls_world st" using world_attempt by (metis fst_conv)
  with a show ?case by (cases r) (simp_all add: Let_def)
next
  case (Suc n)
  obtain s r where a: "llm_attempt env defs (unat (ac_max_retries (le_config env)) - Suc n) e st = (s, r)" by (rule prod.exhaust)
  then have "ls_world s = ls_world st" using world_attempt by (metis fst_conv)
  with a Suc.IH show ?case by (cases r) simp_all
qed

lemma world_call [world_simps]: "ls_world (fst (call_llm_with_retry env defs st)) = ls_world st"
  by (simp add: call_llm_with_retry_def world_simps)

lemma world_summarize [world_simps]: "ls_world (fst (summarize_attempts env msgs n st)) = ls_world st"
proof (induction n arbitrary: st)
  case (Suc n)
  obtain s r where a: "summarize_attempt env msgs st = (s, r)" by (rule prod.exhaust)
  then have "ls_world s = ls_world st"
    by (auto simp: summarize_attempt_def Let_def split: prod.splits sum.splits)
  with a Suc.IH show ?case by (cases r) simp_all
qed simp

lemma world_compaction [world_simps]: "ls_world (fst (try_compaction env st)) = ls_world st"
proof -
  have "ls_world s = ls_world st" if "try_llm_summarization env a b st = (s, r)" for a b s r
    using that world_summarize by (metis fst_conv try_llm_summarization_def)
  then show ?thesis
    by (auto simp: try_compaction_def Let_def world_simps split: option.split prod.split)
qed

lemma world_pre [world_simps]: "ls_world (snd (pre_llm_compaction env s)) = ls_world (snd s)"
proof -
  have "ls_world st' = ls_world st" if "try_compaction env st = (st', c)" for st st' c
    using that world_compaction by (metis fst_conv)
  then show ?thesis by (auto simp: pre_llm_compaction_def Let_def split: prod.split)
qed

lemma world_post [world_simps]: "ls_world (snd (post_tool_compaction env s)) = ls_world (snd s)"
proof -
  have "ls_world st' = ls_world st" if "try_compaction env st = (st', c)" for st st' c
    using that world_compaction by (metis fst_conv)
  then show ?thesis by (auto simp: post_tool_compaction_def split: prod.split)
qed

lemma world_others [world_simps]:
  "ls_world (snd (note_usage env response s)) = ls_world (snd s)"
  "ls_world (fst (finish_text env response st)) = ls_world st"
  "ls_world (snd (doom_check env s)) = ls_world (snd s)"
  "act_on_yield env y st = Some (st', out) \<Longrightarrow> ls_world st' = ls_world st"
  by (auto simp: note_usage_def finish_text_def doom_check_def act_on_yield_def Let_def world_simps
      split: prod.splits option.splits if_splits)

lemma world_results [world_simps]: "ls_world (fold (push_result env i) rs st) = ls_world st"
  by (induction rs arbitrary: st) (simp_all add: push_result_def world_simps Let_def split: prod.split)

text \<open>A relation of worlds that holds over every call of a tool.\<close>

definition tools_keep :: "loop_env \<Rightarrow> (world \<Rightarrow> world \<Rightarrow> bool) \<Rightarrow> bool" where
  "tools_keep env R \<longleftrightarrow> reflp R \<and> transp R
     \<and> (\<forall>cid name args i c w. R w (fst (execute_tool_call (le_tools env) cid name args (task_context env i c) w)))
     \<and> (\<forall>i idx f w. le_panics env i idx = Some f \<longrightarrow> R w (fst (f w)))"

lemma tools_keepD:
  assumes "tools_keep env R"
  shows "R w w" and "R u v \<Longrightarrow> R v w \<Longrightarrow> R u w"
    and "R w (fst (execute_tool_call (le_tools env) cid name args (task_context env i c) w))"
    and "le_panics env i idx = Some f \<Longrightarrow> R w (fst (f w))"
  using assms by (auto simp: tools_keep_def dest: reflpD transpD)

lemma task_keeps: "tools_keep env R \<Longrightarrow> R (ls_world st) (ls_world (fst (run_task env i idx tc st)))"
proof -
  assume keep: "tools_keep env R"
  show ?thesis
  proof (cases "le_panics env i idx")
    case None
    obtain w evs r where e: "execute_tool_call (le_tools env) (tc_id tc) (fc_name (tc_function tc))
        (fc_arguments (tc_function tc)) (task_context env i (tc_id tc)) (ls_world st) = (w, evs, r)" by (rule prod_cases3)
    show ?thesis
      using tools_keepD(3) [OF keep, of "ls_world st" "tc_id tc" "fc_name (tc_function tc)" "fc_arguments (tc_function tc)" i "tc_id tc"]
      by (simp add: run_task_def None e)
  next
    case (Some f)
    obtain w evs where e: "f (ls_world st) = (w, evs)" by (rule prod.exhaust)
    show ?thesis
      using tools_keepD(4) [OF keep Some, of "ls_world st"] by (simp add: run_task_def Some e)
  qed
qed

lemma tasks_keep: "tools_keep env R \<Longrightarrow> R (ls_world st) (ls_world (fst (run_tasks env i calls order st)))"
proof (induction env i calls order st rule: run_tasks.induct)
  case (2 env i calls idx order st)
  obtain s1 r where t: "run_task env i idx (calls ! idx) st = (s1, r)" by (rule prod.exhaust)
  obtain s2 rs where ts: "run_tasks env i calls order s1 = (s2, rs)" by (rule prod.exhaust)
  have "R (ls_world st) (ls_world s1)" using task_keeps [OF 2(2)] t by (metis fst_conv)
  moreover have "R (ls_world s1) (ls_world s2)" using 2(1) [OF t [symmetric] 2(2)] ts by simp
  ultimately show ?case using tools_keepD(2) [OF 2(2)] by (simp add: t ts)
qed (simp add: tools_keepD(1))

lemma batch_keeps: "tools_keep env R \<Longrightarrow> R (ls_world st) (ls_world (fst (run_batch env i calls st)))"
  using tasks_keep [of env R st i calls "le_join_order env i (length calls)"]
  by (cases "run_tasks env i calls (le_join_order env i (length calls)) st") (simp add: run_batch_def)

lemma round_keeps:
  assumes keep: "tools_keep env R" and r: "tool_round env calls (v, st) = (st', res)"
  shows "R (ls_world st) (ls_world st')"
proof (cases "le_cancelled env (tv_iteration v) BeforeTools")
  case True
  with r show ?thesis by (simp add: tool_round_def tools_keepD(1) [OF keep])
next
  case False
  obtain s1 rs where b: "run_batch env (tv_iteration v) calls st = (s1, rs)" by (rule prod.exhaust)
  let ?v1 = "v\<lparr>tv_failures := (if all_failed rs then Suc (tv_failures v) else 0),
      tv_modified := tv_modified v @ concat (map (\<lambda>(_, _, r). tr_modified_files r) rs)\<rparr>"
  let ?s2 = "fold (push_result env (tv_iteration v)) rs s1"
  obtain v2 s3 where d: "doom_check env (?v1, ?s2) = (v2, s3)" by (rule prod.exhaust)
  obtain v3 s4 where p: "post_tool_compaction env (v2, s3) = (v3, s4)" by (rule prod.exhaust)
  have "ls_world s3 = ls_world s1" using world_others(3) [of env "(?v1, ?s2)"] by (simp add: d world_results)
  moreover have "ls_world s4 = ls_world s3" using world_post [of env "(v2, s3)"] by (simp add: p)
  ultimately have "ls_world st' = ls_world s1"
    using r False world_others(4) by (auto simp: tool_round_def b d p Let_def world_simps split: option.splits if_splits)
  with batch_keeps [OF keep, of st "tv_iteration v" calls] b show ?thesis by simp
qed

lemma turn_keeps:
  assumes keep: "tools_keep env R" and t: "turn env defs (v, st) = (st', res)"
  shows "R (ls_world st) (ls_world st')"
proof -
  obtain v1 s1 where p: "pre_llm_compaction env (v, st) = (v1, s1)" by (rule prod.exhaust)
  then have w1: "ls_world s1 = ls_world st" using world_pre [of env "(v, st)"] by simp
  let ?s1 = "s1\<lparr>ls_messages := strip_orphaned_tool_results (ls_messages s1)\<rparr>"
  obtain s2 answer where c: "call_llm_with_retry env defs ?s1 = (s2, answer)" by (rule prod.exhaust)
  then have w2: "ls_world s2 = ls_world s1" using world_call [of env defs ?s1] by simp
  show ?thesis
  proof (cases answer)
    case (Inl e)
    with t p c w1 w2 show ?thesis by (simp add: turn_def Let_def tools_keepD(1) [OF keep])
  next
    case (Inr response)
    obtain v2 s3 where n: "note_usage env response (v1, s2) = (v2, s3)" by (rule prod.exhaust)
    then have w3: "ls_world s3 = ls_world s2" using world_others(1) [of env response "(v1, s2)"] by simp
    let ?s4 = "push_response env (tv_iteration v2) response s3"
    have w4: "ls_world ?s4 = ls_world st" using w1 w2 w3 by (simp add: world_simps)
    show ?thesis
    proof (cases "lr_tool_calls response = []")
      case True
      then have "st' = fst (finish_text env response ?s4)"
        using t by (auto simp: turn_def p c n Inr Let_def split: prod.splits)
      then show ?thesis using w4 by (simp add: world_simps tools_keepD(1) [OF keep])
    next
      case False
      then have "tool_round env (lr_tool_calls response) (v2, ?s4) = (st', res)"
        using t by (simp add: turn_def p c n Inr Let_def)
      from round_keeps [OF keep this] w4 show ?thesis by simp
    qed
  qed
qed

lemma loop_keeps: "tools_keep env R \<Longrightarrow> R (ls_world st) (ls_world (fst (run_loop env defs n (v, st))))"
proof (induction n arbitrary: v st)
  case 0
  then show ?case by (simp add: Let_def tools_keepD(1))
next
  case (Suc n)
  let ?v = "v\<lparr>tv_iteration := Suc (tv_iteration v)\<rparr>"
  obtain s' res where t: "turn env defs (?v, st) = (s', res)" by (rule prod.exhaust)
  note k = turn_keeps [OF Suc.prems t]
  show ?case
    using k Suc.IH [OF Suc.prems, of s'] tools_keepD(1,2) [OF Suc.prems] by (auto simp: t split: sum.split)
qed

lemma run_keeps: "tools_keep env R \<Longrightarrow> R (ls_world st) (ls_world (fst (run env m st)))"
  using loop_keeps [of env R "reestimate (take_user_message env m st)"]
  by (simp add: run_def Let_def world_simps tools_keepD(1))


end
