(* ===== verification/SubagentFacts.thy ===== *)
theory SubagentFacts
  imports Subagents SkillFacts LoopWorld ToolExecFacts
begin

text \<open>
  Subagents: which tools a child gets, what its run reports, and that children which may write exclude each
  other per directory.
\<close>

section \<open>Registry\<close>

lemma subagent_lookup:
  "get_subagent (new_subagent_registry yaml defaults global project disabled) n =
     (if n \<in> disabled then None else last_loaded (load_subagent yaml) sa_name n (all_inputs defaults global project))"
  by (simp add: get_subagent_def new_subagent_registry_def registry_lookup)

section \<open>Tools of a child\<close>

lemma get_register: "map_of (register t reg) n = (if n = tl_name t then Some t else map_of reg n)"
  by (simp add: register_def update_conv')

lemma names_fold_register:
  "fst ` set (fold register ts reg) = fst ` set reg \<union> tl_name ` set ts"
proof (induction ts arbitrary: reg)
  case (Cons t ts)
  have "fst ` set (register t reg) = insert (tl_name t) (fst ` set reg)"
    using arg_cong [OF update_keys [of "tl_name t" t reg], of set] by (auto simp: register_def split: if_splits)
  with Cons show ?case by auto
qed simp

definition names_tools :: "(str \<Rightarrow> tool) \<Rightarrow> bool" where
  "names_tools builtin \<longleftrightarrow> (\<forall>n. tl_name (builtin n) = n)"

text \<open>
  A child has the tools of coding mode and those of the context engine, of these only the ones its definition
  allows, if it says so; so it cannot spawn further subagents, and if it is taken to be read-only then it has
  none of the tools that change files.
\<close>
theorem child_tools_confined:
  assumes "names_tools (sn_builtin env)"
  shows "set (tool_names (child_registry env ih a)) =
      {n \<in> set (mode_tools CodingMode) \<union> (case ih_engine_tools ih of None \<Rightarrow> {} | Some ts \<Rightarrow> tl_name ` set ts).
         case sa_allowed_tools a of None \<Rightarrow> True | Some allowed \<Rightarrow> n \<in> set allowed}
    \<and> ''spawn_subagent'' \<notin> set (mode_tools CodingMode)
    \<and> (\<not> is_write_capable (tool_names (child_registry env ih a)) \<longrightarrow>
        (\<forall>n \<in> {''write'', ''edit'', ''apply_patch'', ''bash'', ''git'', ''create_pr''}.
           get_tool (child_registry env ih a) n = None))"
proof -
  let ?coding = "fold register (map (sn_builtin env) (mode_tools CodingMode)) []"
  have "tl_name ` set (map (sn_builtin env) ns) = set ns" for ns
    using assms by (simp add: names_tools_def image_image)
  then have mode: "fst ` set (registry_for_mode (sn_builtin env) CodingMode (ih_engine_tools ih) None) =
      set (mode_tools CodingMode) \<union> (case ih_engine_tools ih of None \<Rightarrow> {} | Some ts \<Rightarrow> tl_name ` set ts)"
    by (simp add: registry_for_mode_def Let_def names_fold_register split: option.split)
  have names: "set (tool_names (child_registry env ih a)) =
      {n \<in> set (mode_tools CodingMode) \<union> (case ih_engine_tools ih of None \<Rightarrow> {} | Some ts \<Rightarrow> tl_name ` set ts).
         case sa_allowed_tools a of None \<Rightarrow> True | Some allowed \<Rightarrow> n \<in> set allowed}"
    unfolding mode [symmetric]
    by (auto simp: child_registry_def tool_names_def retain_tools_def Let_def split: option.splits)
  moreover have "get_tool (child_registry env ih a) n = None"
    if "\<not> is_write_capable (tool_names (child_registry env ih a))" "n \<in> set write_capable_tools" for n
  proof -
    have "n \<notin> set (tool_names (child_registry env ih a))"
      using that by (auto simp: is_write_capable_def list_ex_iff)
    then show ?thesis by (simp add: get_tool_def tool_names_def map_of_eq_None_iff)
  qed
  ultimately show ?thesis
    by (auto simp: write_capable_tools_def mode_tools_def)
qed

section \<open>What the call reports\<close>

lemma distinct_sorted_dedup: "sorted xs \<Longrightarrow> distinct (remdups_adj xs)"
proof (induction xs rule: remdups_adj.induct)
  case (3 x y xs)
  then show ?case by (cases "x = y") (auto simp: order.antisym)
qed simp_all

lemma preview_len: "char_count (truncate_prompt_preview prompt n) \<le> n + 1"
proof -
  have "char_count (xs @ ys) = char_count xs + char_count ys" for xs ys by (simp add: char_count_def)
  moreover have "char_count [CHR 0xE2, CHR 0x80, CHR 0xA6] = 1" by code_simp
  ultimately show ?thesis using take_chars_len [of n] by (simp add: truncate_prompt_preview_def Let_def)
qed

text \<open>
  A call that comes back with a result has sent either nothing, because the subagent is unknown, or a start
  and an end of the same child: the end carries the summary that is the output and a success flag that is the
  opposite of its error flag; the preview has at most 121 characters, and the modified files are sorted, without
  duplicates and among those which the turns of the child reported.
\<close>
theorem spawn_reports:
  assumes "spawn_execute env ih reg gave_up args cx w = (w', evs, Some (Inr r))"
  shows "(\<exists>name. json_get_str args ''name'' = Some name \<and> get_subagent reg name = None \<and> evs = [] \<and> tr_is_error r \<and> w' = w)
    \<or> (\<exists>name preview. json_get_str args ''name'' = Some name \<and> get_subagent reg name \<noteq> None \<and> char_count preview \<le> 121
        \<and> evs = [SubagentStart (cx_session_id cx) (cx_tool_call_id cx) (sn_fresh env) name preview,
            SubagentEnd (cx_session_id cx) (cx_tool_call_id cx) (sn_fresh env) (\<not> tr_is_error r) (tr_output r)]
        \<and> sorted (tr_modified_files r) \<and> distinct (tr_modified_files r)
        \<and> (\<exists>a prompt st out. run (child_loop env ih name a cx) (user_message prompt)
                (initial_state (child_config env ih a cx) 0 w) = (st, out)
            \<and> set (tr_modified_files r) \<subseteq> (\<Union>e \<in> set (ls_events st). set (turn_files e))))"
proof -
  obtain name where name: "json_get_str args ''name'' = Some name"
    using assms by (auto simp: spawn_execute_def split: option.splits)
  obtain prompt where prompt: "json_get_str args ''prompt'' = Some prompt"
    using assms name by (auto simp: spawn_execute_def split: option.splits)
  show ?thesis
  proof (cases "get_subagent reg name")
    case None
    with assms name prompt show ?thesis by (auto simp: spawn_execute_def tool_failure_def)
  next
    case (Some a)
    obtain st out where run: "run (child_loop env ih name a cx) (user_message prompt)
        (initial_state (child_config env ih a cx) 0 w) = (st, out)" by (rule prod.exhaust)
    have files: "sorted (collected_files (ls_events st))" "distinct (collected_files (ls_events st))"
      "set (collected_files (ls_events st)) = (\<Union>e \<in> set (ls_events st). set (turn_files e))"
      by (simp_all add: collected_files_def distinct_sorted_dedup)
    have preview: "char_count (truncate_prompt_preview prompt 120) \<le> 121" using preview_len [of prompt 120] by simp
    have "evs = [SubagentStart (cx_session_id cx) (cx_tool_call_id cx) (sn_fresh env) name (truncate_prompt_preview prompt 120),
            SubagentEnd (cx_session_id cx) (cx_tool_call_id cx) (sn_fresh env) (\<not> tr_is_error r) (tr_output r)]
        \<and> (tr_modified_files r = [] \<or> tr_modified_files r = collected_files (ls_events st))"
      using assms name prompt Some run
      by (cases "is_write_capable (tool_names (child_registry env ih a)) \<and> gave_up"; cases "run_summary env out")
        (auto simp: spawn_execute_def spawn_end_def tool_failure_def Let_def)
    then show ?thesis
      using name Some run files preview by (intro disjI2 exI conjI) (assumption | force)+
  qed
qed

text \<open>
  A prompt with a character of several bytes across byte 100 makes the child panic before it starts: nothing
  comes back for the call, and no end follows its start.
\<close>
lemma prompt_panic:
  assumes "get_subagent reg ''a'' = Some a" and "json_get_str args ''name'' = Some ''a''"
    and "json_get_str args ''prompt'' = Some (replicate 99 (CHR ''a'') @ [CHR 0xC3, CHR 0xA9])"
  shows "\<exists>preview. spawn_execute env ih reg False args cx w =
    (w, [SubagentStart (cx_session_id cx) (cx_tool_call_id cx) (sn_fresh env) ''a'' preview], None)"
  using assms by (simp add: spawn_execute_def Let_def run_preview_panic run_summary_def initial_state_def)

section \<open>Checkpoints of a child\<close>

text \<open>The checkpoints after some backups for one session.\<close>

inductive backed_up :: "str \<Rightarrow> ck_store \<Rightarrow> ck_store \<Rightarrow> bool" for sid where
  none: "backed_up sid st st"
| one: "backed_up sid st st' \<Longrightarrow> backup_file st' d sid t p = Inr st'' \<Longrightarrow> backed_up sid st st''"

lemma backed_up_trans:
  assumes "backed_up sid v w" and "backed_up sid u v"
  shows "backed_up sid u w"
  using assms by (induction rule: backed_up.induct) (auto intro: backed_up.one)

lemma backed_up_other:
  assumes "backed_up sid st st'" and "root \<noteq> sanitize_session_id sid"
  shows "st' root = st root"
  using assms
  by (induction rule: backed_up.induct) (auto simp: backup_file_def write_turn_dir_def Let_def split: if_splits sum.splits option.splits)

lemma ctx_checkpoint_backs_up: "backed_up (cx_session_id cx) (w_store w) (w_store (ctx_checkpoint cx p w))"
  by (auto simp: ctx_checkpoint_def intro: backed_up.intros split: sum.split)

text \<open>A tool that changes the checkpoints only by backups for the session it is called for.\<close>

definition backs_up :: "tool \<Rightarrow> bool" where
  "backs_up t \<longleftrightarrow> (\<forall>args cx w. backed_up (cx_session_id cx) (w_store w) (w_store (fst (tl_execute t args cx w))))"

definition own_tools :: "spawn_env \<Rightarrow> inheritance \<Rightarrow> bool" where
  "own_tools env ih \<longleftrightarrow> (\<forall>n. backs_up (sn_builtin env n))
     \<and> (\<forall>ts. ih_engine_tools ih = Some ts \<longrightarrow> list_all backs_up ts)
     \<and> (\<forall>i idx f w. sn_panics env i idx = Some f \<longrightarrow> backed_up (sn_fresh env) (w_store w) (w_store (fst (f w))))"

lemma own_fold_register:
  "(\<forall>t \<in> set ts. P t) \<Longrightarrow> (\<forall>n t. map_of reg n = Some t \<longrightarrow> P t) \<Longrightarrow>
    map_of (fold register ts reg) n = Some t \<Longrightarrow> P t"
proof (induction ts arbitrary: reg)
  case (Cons u us)
  from Cons.prems have "\<forall>m v. map_of (register u reg) m = Some v \<longrightarrow> P v" by (simp add: get_register)
  with Cons.IH [of "register u reg"] Cons.prems show ?case by simp
qed simp

lemma map_of_filter_keys: "map_of (filter (\<lambda>(k, _). Q k) xs) n = (if Q n then map_of xs n else None)"
  by (induction xs) auto

lemma child_tools_own:
  assumes "own_tools env ih" and "get_tool (child_registry env ih a) n = Some t"
  shows "backs_up t"
proof -
  have coding: "backs_up u" if "map_of (fold register (map (sn_builtin env) (mode_tools CodingMode)) []) m = Some u" for m u
    by (rule own_fold_register [OF _ _ that]) (use assms(1) in \<open>auto simp: own_tools_def\<close>)
  have "backs_up u"
    if "map_of (registry_for_mode (sn_builtin env) CodingMode (ih_engine_tools ih) None) m = Some u" for m u
  proof (cases "ih_engine_tools ih")
    case None
    with that coding show ?thesis by (simp add: registry_for_mode_def Let_def)
  next
    case (Some ts)
    with that have "map_of (fold register ts (fold register (map (sn_builtin env) (mode_tools CodingMode)) [])) m = Some u"
      by (simp add: registry_for_mode_def Let_def)
    from own_fold_register [OF _ _ this] Some coding assms(1) show ?thesis by (auto simp: own_tools_def list_all_iff)
  qed
  then show ?thesis
    using assms(2) by (auto simp: child_registry_def get_tool_def retain_tools_def map_of_filter_keys Let_def
        split: option.splits if_splits)
qed

lemma run_tool_store: "w_store (fst (run_tool env c t args cx w)) = w_store (fst (tl_execute t args cx w))"
proof -
  obtain w' evs r where e: "tl_execute t args cx w = (w', evs, r)" by (rule prod_cases3)
  show ?thesis by (cases r) (simp_all add: run_tool_def e split: prod.split)
qed

lemma call_store:
  assumes "\<And>t. get_tool (te_registry env) name = Some t \<Longrightarrow> backs_up t"
  shows "backed_up (cx_session_id cx) (w_store w) (w_store (fst (execute_tool_call env cid name js cx w)))"
proof (cases "te_parse_json env js")
  case (Inl e)
  then show ?thesis by (simp add: execute_tool_call_def refuse_def Let_def backed_up.none)
next
  case (Inr args)
  show ?thesis
  proof (cases "get_tool (te_registry env) name")
    case None
    with Inr show ?thesis by (simp add: execute_tool_call_def refuse_def Let_def backed_up.none)
  next
    case (Some t)
    let ?cx = "cx\<lparr>cx_tool_call_id := cid\<rparr>"
    obtain w' evs r where x: "run_tool env cid t args ?cx w = (w', evs, r)" by (rule prod_cases3)
    have "backed_up (cx_session_id ?cx) (w_store w) (w_store w')"
      using assms [OF Some] run_tool_store [of env cid t args ?cx w] unfolding backs_up_def x by (metis fst_conv)
    then show ?thesis
      by (simp add: execute_tool_call_def Inr Some x refuse_def Let_def backed_up.none split: sum.split option.split)
  qed
qed

lemma child_store:
  assumes own: "own_tools env ih"
  shows "backed_up (sn_fresh env) (w_store w) (w_store (fst (spawn_execute env ih reg g args cx w)))"
proof -
  have keep: "tools_keep (child_loop env ih n a cx) (\<lambda>u v. backed_up (sn_fresh env) (w_store u) (w_store v))" for n a
    unfolding tools_keep_def
  proof (intro conjI allI impI)
    show "backed_up (sn_fresh env) (w_store w) (w_store (fst (execute_tool_call (le_tools (child_loop env ih n a cx)) cid name js
        (task_context (child_loop env ih n a cx) i c) w)))" for cid name js i c w
      using call_store [of "le_tools (child_loop env ih n a cx)" name "task_context (child_loop env ih n a cx) i c"]
        child_tools_own [OF own] by (simp add: child_loop_def task_context_def)
    show "backed_up (sn_fresh env) (w_store w) (w_store (fst (f w)))" if "le_panics (child_loop env ih n a cx) i idx = Some f" for i idx f w
      using own that by (simp add: own_tools_def child_loop_def)
  qed (auto intro: reflpI transpI backed_up.none backed_up_trans)
  have "backed_up (sn_fresh env) (w_store w) (w_store (ls_world st))"
    if "run (child_loop env ih n a cx) m (initial_state (child_config env ih a cx) 0 w) = (st, out)" for n a m st out
    using run_keeps [OF keep [of n a], of "initial_state (child_config env ih a cx) 0 w" m] that
    by (simp add: initial_state_def)
  then show ?thesis
    by (auto simp: spawn_execute_def Let_def backed_up.none split: option.split prod.split)
qed

lemma turn_dir_cong:
  assumes "st root = st' root"
  shows "get_turn_dir st root n = get_turn_dir st' root n" "read_manifest st root n = read_manifest st' root n"
  by (simp_all add: get_turn_dir_def session_turns_def read_manifest_def assms)

lemma restore_turns_cong:
  assumes "st root = st' root"
  shows "restore_turns st root p ts d n = restore_turns st' root p ts d n"
proof (induction ts arbitrary: d n)
  case (Cons t ts)
  show ?case
    by (simp add: turn_dir_cong [of st root st', OF assms] Cons.IH Let_def cong: sum.case_cong option.case_cong prod.case_cong)
qed simp

lemma list_turns_cong:
  assumes "st root = st' root"
  shows "list_turns st root ts = list_turns st' root ts"
  by (induction ts) (simp_all add: turn_dir_cong [of st root st', OF assms] cong: sum.case_cong)

lemma session_view_cong:
  assumes "st (sanitize_session_id sid) = st' (sanitize_session_id sid)"
  shows "restore_to st sid t p d = restore_to st' sid t p d" "list_checkpoints st sid = list_checkpoints st' sid"
  using restore_turns_cong [of st _ st', OF assms] list_turns_cong [of st _ st', OF assms]
  by (simp_all add: restore_to_def list_checkpoints_def turns_to_undo_def list_turn_numbers_def session_turns_def
      assms Let_def)

section \<open>Write locks\<close>

inductive_cases lock_stepE: "lock_step s s'"

definition registry_ok :: "lock_registry \<Rightarrow> bool" where
  "registry_ok locks \<longleftrightarrow> (\<forall>d m. map_of locks d = Some m \<longrightarrow> m < length locks)
     \<and> inj_on (map_of locks) (dom (map_of locks))"

lemma get_or_create_ok:
  assumes ok: "registry_ok locks" and g: "get_or_create locks dir = (locks', m)"
  shows "registry_ok locks'" "map_of locks' (components dir) = Some m"
    "map_of locks d = Some k \<Longrightarrow> map_of locks' d = Some k"
proof -
  have fresh: "map_of locks e \<noteq> Some (length locks)" for e
    using ok by (auto simp: registry_ok_def)
  then have "inj_on (map_of ((components dir, length locks) # locks)) (dom (map_of ((components dir, length locks) # locks)))"
    if "map_of locks (components dir) = None"
    using ok that by (auto simp: registry_ok_def inj_on_def dom_def fresh)
  moreover have "k < length locks'" if "map_of locks' d = Some k" for d k
    using ok g that by (fastforce simp: registry_ok_def get_or_create_def Let_def intro: less_SucI split: option.splits if_splits)
  ultimately show "registry_ok locks'"
    using ok g by (auto simp: registry_ok_def get_or_create_def Let_def split: option.splits)
qed (use g in \<open>auto simp: get_or_create_def Let_def split: option.splits\<close>)

text \<open>The calls that hold the guard of a mutex.\<close>

definition holders :: "write_locks \<Rightarrow> nat \<Rightarrow> nat set" where
  "holders s m = {i. i < length (wl_calls s) \<and> cl_guard (wl_calls s ! i) = Some m}"

text \<open>What holds of a call at each point: it runs without a guard only if its tools cannot write.\<close>

definition call_ok :: "lock_registry \<Rightarrow> child_call \<Rightarrow> bool" where
  "call_ok locks c \<longleftrightarrow>
     (case cl_phase c of
        Waiting m \<Rightarrow> cl_guard c = None \<and> map_of locks (components (cl_dir c)) = Some m
      | Running \<Rightarrow>
          (if is_write_capable (cl_tools c)
           then \<exists>m. cl_guard c = Some m \<and> map_of locks (components (cl_dir c)) = Some m
           else cl_guard c = None)
      | _ \<Rightarrow> cl_guard c = None)"

definition locks_ok :: "write_locks \<Rightarrow> bool" where
  "locks_ok s \<longleftrightarrow> registry_ok (wl_registry s) \<and> list_all (call_ok (wl_registry s)) (wl_calls s)
     \<and> (\<forall>m. if m \<in> wl_held s then \<exists>i. holders s m = {i} else holders s m = {})"

lemma locks_okD:
  assumes "locks_ok s"
  shows "m \<in> wl_held s \<Longrightarrow> \<exists>i. holders s m = {i}" "m \<notin> wl_held s \<Longrightarrow> holders s m = {}"
    "i < length (wl_calls s) \<Longrightarrow> call_ok (wl_registry s) (wl_calls s ! i)"
  using assms spec [of "\<lambda>m. if m \<in> wl_held s then \<exists>i. holders s m = {i} else holders s m = {}" m]
  by (auto simp: locks_ok_def list_all_length)

lemma holders_unique: "locks_ok s \<Longrightarrow> i \<in> holders s m \<Longrightarrow> j \<in> holders s m \<Longrightarrow> i = j"
  using locks_okD(1,2) [of s m] by (cases "m \<in> wl_held s") auto

lemma set_call_fields [simp]:
  "wl_registry (set_call i c s) = wl_registry s" "wl_held (set_call i c s) = wl_held s"
  by (simp_all add: set_call_def)

lemma holders_set_call:
  assumes "i < length (wl_calls s)"
  shows "holders (set_call i c s) m = (if cl_guard c = Some m then insert i (holders s m) else holders s m - {i})"
  using assms by (auto simp: holders_def set_call_def nth_list_update split: if_splits)

lemma holders_update [simp]: "holders (s\<lparr>wl_held := h\<rparr>) m = holders s m" "holders (s\<lparr>wl_registry := r\<rparr>) m = holders s m"
  by (simp_all add: holders_def)

lemma call_ok_grow:
  "call_ok locks c \<Longrightarrow> (\<And>d k. map_of locks d = Some k \<Longrightarrow> map_of locks' d = Some k) \<Longrightarrow> call_ok locks' c"
  by (auto simp: call_ok_def split: child_phase.splits if_splits)

lemma locks_ok_set_call:
  assumes "registry_ok (wl_registry s)" and "list_all (call_ok (wl_registry s)) (wl_calls s)"
    and "call_ok (wl_registry s) c"
    and "\<And>m. if m \<in> wl_held s then \<exists>j. holders (set_call i c s) m = {j} else holders (set_call i c s) m = {}"
  shows "locks_ok (set_call i c s)"
proof -
  have "list_all (call_ok (wl_registry s)) (wl_calls (set_call i c s))"
    using assms(2,3) by (auto simp: set_call_def list_all_iff dest!: set_update_subset_insert [THEN subsetD])
  with assms show ?thesis by (simp add: locks_ok_def)
qed

lemma no_guard:
  assumes "locks_ok s" and "i < length (wl_calls s)" and "cl_phase (wl_calls s ! i) \<noteq> Running"
  shows "cl_guard (wl_calls s ! i) = None" "i \<notin> holders s m"
  using locks_okD(3) [OF assms(1,2)] assms(3) by (auto simp: call_ok_def holders_def split: child_phase.splits)

lemma end_call_ok:
  assumes ok: "locks_ok s" and i: "i < length (wl_calls s)"
  shows "locks_ok (end_call i s)"
proof -
  let ?g = "cl_guard (wl_calls s ! i)"
  let ?c = "(wl_calls s ! i)\<lparr>cl_phase := Ended, cl_guard := None\<rparr>"
  let ?s = "s\<lparr>wl_held := wl_held s - set_option ?g\<rparr>"
  have less: "holders (set_call i ?c ?s) m = holders s m - {i}" for m
    using i holders_set_call [of i ?s ?c m] by simp
  have own: "i \<in> holders s m \<longleftrightarrow> ?g = Some m" for m using i by (simp add: holders_def)
  have "if m \<in> wl_held ?s then \<exists>j. holders (set_call i ?c ?s) m = {j} else holders (set_call i ?c ?s) m = {}" for m
  proof (cases "?g = Some m")
    case True
    then have "holders s m - {i} = {}" using holders_unique [OF ok, of i m] own by blast
    with True less [of m] show ?thesis by simp
  next
    case False
    then have "holders s m - {i} = holders s m" using own by auto
    with False less [of m] locks_okD(1,2) [OF ok, of m] show ?thesis by (cases "m \<in> wl_held s") auto
  qed
  with ok show ?thesis
    unfolding end_call_def by (intro locks_ok_set_call) (simp_all add: locks_ok_def call_ok_def)
qed

lemma enter_call_ok:
  assumes ok: "locks_ok s" and i: "i < length (wl_calls s)" and "cl_phase (wl_calls s ! i) = Called"
  shows "locks_ok (enter_call i s)"
proof -
  let ?c = "wl_calls s ! i"
  have none: "cl_guard ?c = None" "holders s m - {i} = holders s m" for m using no_guard [OF ok i] assms(3) by auto
  have h: "if m \<in> wl_held s then \<exists>j. holders s m = {j} else holders s m = {}" for m
    using locks_okD(1,2) [OF ok] by simp
  show ?thesis
  proof (cases "is_write_capable (cl_tools ?c)")
    case True
    obtain locks m where g: "get_or_create (wl_registry s) (cl_dir ?c) = (locks, m)" by (rule prod.exhaust)
    have r: "registry_ok (wl_registry s)" using ok by (simp add: locks_ok_def)
    note g' = get_or_create_ok [OF r g]
    have "list_all (call_ok locks) (wl_calls s)"
      using ok call_ok_grow [OF _ g'(3)] by (auto simp: locks_ok_def list_all_iff)
    with g'(1,2) none(1) have "locks_ok (set_call i (?c\<lparr>cl_phase := Waiting m\<rparr>) (s\<lparr>wl_registry := locks\<rparr>))"
      by (intro locks_ok_set_call) (use i h none in \<open>simp_all add: call_ok_def holders_set_call\<close>)
    with True g show ?thesis by (simp add: enter_call_def Let_def)
  next
    case False
    have "locks_ok (set_call i (?c\<lparr>cl_phase := Running\<rparr>) s)"
      by (intro locks_ok_set_call) (use ok False i h none in \<open>simp_all add: locks_ok_def call_ok_def holders_set_call\<close>)
    with False show ?thesis by (simp add: enter_call_def Let_def)
  qed
qed

lemma acquire_lock_ok:
  assumes ok: "locks_ok s" and i: "i < length (wl_calls s)" and w: "cl_phase (wl_calls s ! i) = Waiting m"
    and free: "m \<notin> wl_held s" and cap: "is_write_capable (cl_tools (wl_calls s ! i))"
  shows "locks_ok (acquire_lock i m s)"
proof -
  have "call_ok (wl_registry s) (wl_calls s ! i)" by (rule locks_okD(3) [OF ok i])
  with w cap have c: "call_ok (wl_registry s) ((wl_calls s ! i)\<lparr>cl_phase := Running, cl_guard := Some m\<rparr>)"
    by (simp add: call_ok_def)
  have "holders s m = {}" "\<And>k. i \<notin> holders s k" using locks_okD(2) [OF ok free] no_guard [OF ok i] w by auto
  with ok i c locks_okD(1,2) [OF ok] show ?thesis
    unfolding acquire_lock_def by (intro locks_ok_set_call) (auto simp: locks_ok_def holders_set_call)
qed

text \<open>A call waits only if its tools can write.\<close>

definition waits_to_write :: "write_locks \<Rightarrow> bool" where
  "waits_to_write s \<longleftrightarrow> (\<forall>c \<in> set (wl_calls s). \<forall>m. cl_phase c = Waiting m \<longrightarrow> is_write_capable (cl_tools c))"

lemma waits_set_call:
  "waits_to_write s \<Longrightarrow> (\<And>m. cl_phase c = Waiting m \<Longrightarrow> is_write_capable (cl_tools c)) \<Longrightarrow> waits_to_write (set_call i c s)"
  by (auto simp: waits_to_write_def set_call_def dest!: set_update_subset_insert [THEN subsetD])

lemma lock_step_ok: "lock_step s s' \<Longrightarrow> locks_ok s \<and> waits_to_write s \<Longrightarrow> locks_ok s' \<and> waits_to_write s'"
proof (induction rule: lock_step.induct)
  case (called s dir tools)
  have "holders (new_call dir tools s) m = holders s m" for m
    by (auto simp: holders_def new_call_def nth_append less_Suc_eq)
  with called show ?case by (auto simp: locks_ok_def waits_to_write_def new_call_def call_ok_def)
next
  case (entered i s)
  then have "waits_to_write (enter_call i s)"
    using waits_set_call [of "s\<lparr>wl_registry := locks\<rparr>" for locks]
    by (auto simp: enter_call_def Let_def waits_to_write_def intro!: waits_set_call split: prod.split)
      (auto simp: set_call_def dest!: set_update_subset_insert [THEN subsetD])
  with entered enter_call_ok show ?case by blast
next
  case (acquired i s lock)
  then have "is_write_capable (cl_tools (wl_calls s ! i))" by (auto simp: waits_to_write_def)
  with acquired acquire_lock_ok have "locks_ok (acquire_lock i lock s)" by blast
  moreover have "waits_to_write (acquire_lock i lock s)"
    unfolding acquire_lock_def by (rule waits_set_call) (use acquired in \<open>simp_all add: waits_to_write_def\<close>)
  ultimately show ?case by blast
next
  case (gave_up i s lock)
  have "waits_to_write (end_call i s)"
    unfolding end_call_def by (rule waits_set_call) (use gave_up in \<open>simp_all add: waits_to_write_def\<close>)
  with gave_up end_call_ok show ?case by blast
next
  case (ended i s)
  have "waits_to_write (end_call i s)"
    unfolding end_call_def by (rule waits_set_call) (use ended in \<open>simp_all add: waits_to_write_def\<close>)
  with ended end_call_ok show ?case by blast
qed

lemma reachable_locks: "lock_step\<^sup>*\<^sup>* no_locks s \<Longrightarrow> locks_ok s"
proof -
  assume "lock_step\<^sup>*\<^sup>* no_locks s"
  then have "locks_ok s \<and> waits_to_write s"
  proof (induction rule: rtranclp_induct)
    case base
    show ?case by (simp add: locks_ok_def waits_to_write_def no_locks_def registry_ok_def holders_def)
  qed (rule lock_step_ok)
  then show ?thesis ..
qed

text \<open>
  C29. Of the calls of subagents, started, queued, cancelled and ended in any order, no two whose children have a tool
  that \<open>is_write_capable\<close> counts (\<open>write\<close>, \<open>edit\<close>, \<open>bash\<close>, \<open>apply_patch\<close>, \<open>git\<close> or \<open>create_pr\<close>) ever run their
  children at once in the same directory.
\<close>
theorem writers_exclusive:
  assumes "lock_step\<^sup>*\<^sup>* no_locks s"
    and "i < length (wl_calls s)" and "cl_phase (wl_calls s ! i) = Running"
    and "j < length (wl_calls s)" and "cl_phase (wl_calls s ! j) = Running"
    and "t \<in> set (cl_tools (wl_calls s ! i))" and "t \<in> set write_capable_tools"
    and "u \<in> set (cl_tools (wl_calls s ! j))" and "u \<in> set write_capable_tools"
    and "components (cl_dir (wl_calls s ! i)) = components (cl_dir (wl_calls s ! j))"
  shows "i = j"
proof -
  have ok: "locks_ok s"
    using assms(1) by (rule reachable_locks)
  have "is_write_capable (cl_tools (wl_calls s ! i))" "is_write_capable (cl_tools (wl_calls s ! j))"
    using assms(6-9) by (auto simp: is_write_capable_def list_ex_iff)
  moreover have "call_ok (wl_registry s) (wl_calls s ! i)" "call_ok (wl_registry s) (wl_calls s ! j)"
    using locks_okD(3) [OF ok] assms(2,4) by simp_all
  ultimately obtain m where "cl_guard (wl_calls s ! i) = Some m" "cl_guard (wl_calls s ! j) = Some m"
    using assms(3,5,10) by (auto simp: call_ok_def)
  with assms(2,4) have "i \<in> holders s m" "j \<in> holders s m" by (simp_all add: holders_def)
  then show ?thesis by (rule holders_unique [OF ok])
qed

text \<open>
  No queued child is stuck: from every reachable state it can be made to run, after the child that holds its
  mutex has ended, if there is one.
\<close>
theorem queued_child_can_run:
  assumes "lock_step\<^sup>*\<^sup>* no_locks s" and "i < length (wl_calls s)" and "cl_phase (wl_calls s ! i) = Waiting m"
  shows "\<exists>s'. lock_step\<^sup>*\<^sup>* s s' \<and> cl_phase (wl_calls s' ! i) = Running"
proof -
  have ok: "locks_ok s" using assms(1) by (rule reachable_locks)
  show ?thesis
  proof (cases "m \<in> wl_held s")
    case False
    from lock_step.acquired [OF assms(2,3) this] assms(2) show ?thesis
      by (intro exI [of _ "acquire_lock i m s"]) (auto simp: acquire_lock_def set_call_def)
  next
    case True
    with locks_okD(1) [OF ok] obtain j where "holders s m = {j}" by blast
    then have j: "j < length (wl_calls s)" "cl_guard (wl_calls s ! j) = Some m" by (auto simp: holders_def)
    then have run: "cl_phase (wl_calls s ! j) = Running" using no_guard [OF ok j(1)] by auto
    have ne: "i \<noteq> j" using assms(3) run by auto
    let ?u = "end_call j s"
    have i: "i < length (wl_calls ?u)" "wl_calls ?u ! i = wl_calls s ! i" "m \<notin> wl_held ?u"
      using assms(2) ne j(2) by (simp_all add: end_call_def set_call_def)
    have "lock_step s ?u" "lock_step ?u (acquire_lock i m ?u)"
      using lock_step.ended [OF j(1) run] lock_step.acquired [of i ?u m] i assms(3) by simp_all
    then have "lock_step\<^sup>*\<^sup>* s (acquire_lock i m ?u)" by auto
    moreover have "cl_phase (wl_calls (acquire_lock i m ?u) ! i) = Running"
      using i(1) by (simp add: acquire_lock_def set_call_def)
    ultimately show ?thesis by blast
  qed
qed

section \<open>Examples\<close>

definition demo_llm :: llm_client_config where
  "demo_llm = \<lparr>lc_provider = OpenAI, lc_base_url = ''u'', lc_model = ''m'', lc_api_key = [], lc_temperature = None,
     lc_max_completion_tokens = None, lc_extra_headers = [], lc_thinking = None, lc_disable_cache_control = False,
     lc_policy = default_llm_policy\<rparr>"

definition demo_inheritance :: inheritance where
  "demo_inheritance = \<lparr>ih_llm = demo_llm, ih_max_retries = 1, ih_compaction = ac_compaction demo_config,
     ih_max_iterations = 2, ih_engine_tools = None, ih_persist_on = False, ih_approval = None,
     ih_parent_session = None, ih_checkpoint_on = True\<rparr>"

definition demo_spawn :: spawn_env where
  "demo_spawn = \<lparr>sn_builtin = (\<lambda>n. write_tool\<lparr>tl_name := n\<rparr>), sn_fresh = ''child'', sn_date = ''2026-01-01'',
     sn_provider = (\<lambda>_. demo_model), sn_summarizer = None, sn_tools = le_tools demo_loop_env,
     sn_cancelled = (\<lambda>_ _. False), sn_join_order = (\<lambda>_ n. [0..<n]), sn_panics = (\<lambda>_ _. None),
     sn_show_result = (\<lambda>_. ''?'')\<rparr>"

definition demo_agent :: "str list option \<Rightarrow> subagent" where
  "demo_agent allowed = \<lparr>sa_name = ''a'', sa_description = ''d'', sa_body = ''b'', sa_allowed_tools = allowed,
     sa_model = None, sa_origin = ProjectTier, sa_path = ''p''\<rparr>"

definition demo_call_args :: json where
  "demo_call_args = JObj [(''name'', JStr ''a''), (''prompt'', JStr ''go'')]"

theorem child_tools_confined_witness:
  "get_tool (child_registry demo_spawn demo_inheritance (demo_agent (Some [''read'', ''grep'']))) ''apply_patch'' = None
    \<and> ''read'' \<in> set (tool_names (child_registry demo_spawn demo_inheritance (demo_agent (Some [''read'', ''grep'']))))"
proof -
  let ?a = "demo_agent (Some [''read'', ''grep''])"
  have "names_tools (sn_builtin demo_spawn)" by (simp add: names_tools_def demo_spawn_def)
  note c = child_tools_confined [OF this, of demo_inheritance ?a]
  then have names: "set (tool_names (child_registry demo_spawn demo_inheritance ?a)) = {''read'', ''grep''}"
    by (auto simp: mode_tools_def demo_inheritance_def demo_agent_def)
  then have "\<not> is_write_capable (tool_names (child_registry demo_spawn demo_inheritance ?a))"
    by (simp add: is_write_capable_def list_ex_iff write_capable_tools_def)
  with c have "get_tool (child_registry demo_spawn demo_inheritance ?a) ''apply_patch'' = None" by simp
  with names show ?thesis by simp
qed

theorem spawn_reports_witness:
  "\<exists>preview. fst (snd (spawn_execute demo_spawn demo_inheritance [(''a'', demo_agent None)] True demo_call_args demo_context demo_world)) =
      [SubagentStart ''s'' ''c'' ''child'' ''a'' preview, SubagentEnd ''s'' ''c'' ''child'' False ''subagent cancelled'']
    \<and> char_count preview \<le> 121"
proof -
  have "is_write_capable (tool_names (child_registry demo_spawn demo_inheritance (demo_agent None)))" by code_simp
  then have "spawn_execute demo_spawn demo_inheritance [(''a'', demo_agent None)] True demo_call_args demo_context demo_world =
      (demo_world, [SubagentStart ''s'' ''c'' ''child'' ''a'' (truncate_prompt_preview ''go'' 120),
         spawn_end demo_spawn demo_context False ''subagent cancelled''], Some (Inr (tool_failure ''subagent cancelled'')))"
    by (simp add: spawn_execute_def demo_call_args_def json_get_str_def get_subagent_def demo_context_def demo_spawn_def)
  note e = this and r = spawn_reports [OF this]
  show ?thesis
    using r unfolding e
    by (simp add: demo_call_args_def json_get_str_def get_subagent_def demo_context_def demo_spawn_def spawn_end_def tool_failure_def)
qed

text \<open>Two writers of one directory, spelled differently, and a reader; the first of them runs, and the reader.\<close>

definition two_writers :: write_locks where
  "two_writers = acquire_lock 0 0 (enter_call 2 (enter_call 1 (enter_call 0
     (new_call ''/p'' [''grep''] (new_call ''/p/'' [''bash''] (new_call ''/p'' [''read'', ''write''] no_locks))))))"

lemma components_p: "components ''/p/'' = components ''/p''" by code_simp

lemma capable: "is_write_capable [''read'', ''write'']" "is_write_capable [''bash'']" "\<not> is_write_capable [''grep'']"
  by code_simp+

lemmas writer_simps = acquire_lock_def enter_call_def new_call_def no_locks_def set_call_def get_or_create_def
  components_p capable

lemma demo_writers: "lock_step\<^sup>*\<^sup>* no_locks two_writers"
proof -
  let ?a = "new_call ''/p'' [''grep''] (new_call ''/p/'' [''bash''] (new_call ''/p'' [''read'', ''write''] no_locks))"
  have "lock_step\<^sup>*\<^sup>* no_locks ?a" by (meson lock_step.called r_into_rtranclp rtranclp_trans)
  moreover have "lock_step ?a (enter_call 0 ?a)"
    by (rule lock_step.entered) (simp_all add: writer_simps)
  moreover have "lock_step (enter_call 0 ?a) (enter_call 1 (enter_call 0 ?a))"
    by (rule lock_step.entered) (simp_all add: writer_simps)
  moreover have "lock_step (enter_call 1 (enter_call 0 ?a)) (enter_call 2 (enter_call 1 (enter_call 0 ?a)))"
    by (rule lock_step.entered) (simp_all add: writer_simps)
  moreover have "lock_step (enter_call 2 (enter_call 1 (enter_call 0 ?a))) two_writers"
    unfolding two_writers_def by (rule lock_step.acquired) (simp_all add: writer_simps)
  ultimately show ?thesis by (meson rtranclp.rtrancl_into_rtrancl)
qed

lemma two_writers_calls:
  "wl_calls two_writers =
     [\<lparr>cl_dir = ''/p'', cl_tools = [''read'', ''write''], cl_phase = Running, cl_guard = Some 0\<rparr>,
      \<lparr>cl_dir = ''/p/'', cl_tools = [''bash''], cl_phase = Waiting 0, cl_guard = None\<rparr>,
      \<lparr>cl_dir = ''/p'', cl_tools = [''grep''], cl_phase = Running, cl_guard = None\<rparr>]"
  by (simp add: two_writers_def writer_simps)

theorem writers_exclusive_witness:
  "\<not> (\<exists>j. j \<noteq> 0 \<and> j < length (wl_calls two_writers) \<and> cl_phase (wl_calls two_writers ! j) = Running
     \<and> ''bash'' \<in> set (cl_tools (wl_calls two_writers ! j)) \<and> components (cl_dir (wl_calls two_writers ! j)) = components ''/p'')"
proof -
  have tools: "''write'' \<in> set write_capable_tools" "''bash'' \<in> set write_capable_tools"
    by (simp_all add: write_capable_tools_def)
  have zero: "0 < length (wl_calls two_writers)" "cl_phase (wl_calls two_writers ! 0) = Running"
    "''write'' \<in> set (cl_tools (wl_calls two_writers ! 0))"
    "components (cl_dir (wl_calls two_writers ! 0)) = components ''/p''"
    by (simp_all add: two_writers_calls)
  show ?thesis
    using writers_exclusive [OF demo_writers zero(1,2) _ _ zero(3) tools(1) _ tools(2)] zero(4) by metis
qed

theorem queued_child_can_run_witness:
  "\<exists>s. lock_step\<^sup>*\<^sup>* two_writers s \<and> cl_phase (wl_calls s ! 1) = Running"
  using queued_child_can_run [OF demo_writers, of 1] by (auto simp: two_writers_calls)

end
