(* ===== verification/PlanTools.thy ===== *)
theory PlanTools
  imports ToolExec Checkpoint
begin

text \<open>
  The tools that keep a todo list, save a plan and ask the user: \<open>crates/agent/src/tool/todo_write.rs\<close>,
  \<open>save_plan.rs\<close> and \<open>ask_user.rs\<close>. What \<open>git\<close> answers and which characters beyond ASCII are alphanumeric are
  parameters.
\<close>

section \<open>The todo list\<close>

definition status_values :: "str list" where
  "status_values = [''pending'', ''in_progress'', ''completed'']"

definition todo_schema :: json where
  "todo_schema = JObj
     [(''properties'', JObj
         [(''todos'', JObj
             [(''description'', JStr ''The complete todo list. Each call replaces the entire list.''),
              (''items'', JObj
                 [(''properties'', JObj
                     [(''content'', string_param ''Description of the task''),
                      (''id'', string_param ''Unique identifier for this todo item''),
                      (''status'', JObj
                         [(''description'', JStr ''Current status of the task''),
                          (''enum'', JArr (map JStr status_values)),
                          (''type'', JStr ''string'')])]),
                  (''required'', JArr [JStr ''id'', JStr ''content'', JStr ''status'']),
                  (''type'', JStr ''object'')]),
              (''type'', JStr ''array'')])]),
      (''required'', JArr [JStr ''todos'']),
      (''type'', JStr ''object'')]"

definition field_or :: "json \<Rightarrow> str \<Rightarrow> str \<Rightarrow> str" where
  "field_or item k d = (case json_get_str item k of None \<Rightarrow> d | Some s \<Rightarrow> s)"

definition todo_of :: "json \<Rightarrow> todo_item" where
  "todo_of item = \<lparr>ti_id = field_or item ''id'' [], ti_content = field_or item ''content'' [],
     ti_status = field_or item ''status'' ''pending''\<rparr>"

definition empty_field_msg :: "nat \<Rightarrow> str" where
  "empty_field_msg i =
     ''Todo item at index '' @ to_decimal i @ '' must have non-empty '' @ quoted ''id'' @ '' and '' @ quoted ''content'' @ ''.''"

definition bad_status_msg :: "str \<Rightarrow> str \<Rightarrow> str" where
  "bad_status_msg i status =
     ''Todo item '' @ quoted i @ '' has invalid status '' @ quoted status
     @ ''. Must be: pending, in_progress, or completed.''"

fun parse_todos :: "nat \<Rightarrow> json list \<Rightarrow> str + todo_item list" where
  "parse_todos i [] = Inr []"
| "parse_todos i (item # items) =
     (let t = todo_of item in
      if ti_id t = [] \<or> ti_content t = [] then Inl (empty_field_msg i)
      else if ti_status t \<notin> set status_values then Inl (bad_status_msg (ti_id t) (ti_status t))
      else case parse_todos (i + 1) items of Inl e \<Rightarrow> Inl e | Inr ts \<Rightarrow> Inr (t # ts))"

definition todo_marker :: "str \<Rightarrow> str" where
  "todo_marker status =
     (if status = ''completed'' then ''[x]'' else if status = ''in_progress'' then ''[-]'' else ''[ ]'')"

definition todo_line :: "todo_item \<Rightarrow> str" where
  "todo_line t = ''- '' @ todo_marker (ti_status t) @ [SP] @ ti_content t @ [NL]"

definition todo_markdown :: "todo_item list \<Rightarrow> str" where
  "todo_markdown ts = ''# Agent Todos'' @ [NL, NL] @ concat (map todo_line ts)"

definition todo_execute :: "(str \<Rightarrow> str option) \<Rightarrow> json \<Rightarrow> tool_context \<Rightarrow> world
    \<Rightarrow> world \<times> agent_event list \<times> (str + tool_result)" where
  "todo_execute git_dir args cx w =
     (case Option.bind (json_get args ''todos'') as_array of
        None \<Rightarrow> (w, [], Inr (tool_failure (quoted ''todos'' @ '' must be a non-empty array.'')))
      | Some arr \<Rightarrow>
          (case parse_todos 0 arr of
             Inl e \<Rightarrow> (w, [], Inr (tool_failure e))
           | Inr todos \<Rightarrow>
               (case ensure_agent_dir git_dir (cx_working_dir cx) (w_disk w) of
                  (d, agent_dir) \<Rightarrow>
                    (let md = todo_markdown todos;
                         d' = (case write_file d (components (path_join agent_dir ''todos.md'')) md of
                                 Inl _ \<Rightarrow> d | Inr d' \<Rightarrow> d')
                     in (w\<lparr>w_disk := d'\<rparr>, [TodoUpdated (cx_session_id cx) todos], Inr (tool_success md))))))"

definition todo_write_tool :: "(str \<Rightarrow> str option) \<Rightarrow> tool" where
  "todo_write_tool git_dir =
     \<lparr>tl_name = ''todo_write'',
      tl_description = ''Write or update a todo list to track progress on multi-step tasks. ''
        @ ''Each call replaces the entire list. Mark items as completed as you finish them.'',
      tl_schema = todo_schema, tl_execute = todo_execute git_dir\<rparr>"

section \<open>Saving a plan\<close>

definition plan_schema :: json where
  "plan_schema = JObj
     [(''properties'', JObj
         [(''filename'', string_param (''A descriptive filename for the plan, e.g. '' @ quoted ''plan-add-auth-middleware.md''
             @ '' or '' @ quoted ''plan-refactor-database-layer.md'' @ ''. Must end in .md.'')),
          (''plan'', string_param ''The complete implementation plan in markdown format'')]),
      (''required'', JArr [JStr ''plan'', JStr ''filename'']),
      (''type'', JStr ''object'')]"

text \<open>The characters of a string: a first byte and its continuations.\<close>

function utf8_chars :: "str \<Rightarrow> str list" where
  "utf8_chars [] = []"
| "utf8_chars (c # s) = (c # takeWhile is_cont_byte s) # utf8_chars (dropWhile is_cont_byte s)"
  by pat_completeness auto
termination
  by (relation "measure length") (auto simp: le_imp_less_Suc length_dropWhile_le)

definition char_alphanumeric :: "(str \<Rightarrow> bool) \<Rightarrow> str \<Rightarrow> bool" where
  "char_alphanumeric alnum ch =
     (if (of_char (hd ch) :: nat) < 128 then is_ascii_alphanumeric (hd ch) else alnum ch)"

definition safe_char :: "(str \<Rightarrow> bool) \<Rightarrow> str \<Rightarrow> str" where
  "safe_char alnum ch =
     (if char_alphanumeric alnum ch \<or> ch = ''-'' \<or> ch = ''_'' \<or> ch = ''.'' then ch else ''-'')"

definition safe_filename :: "(str \<Rightarrow> bool) \<Rightarrow> str \<Rightarrow> str" where
  "safe_filename alnum filename =
     (let safe = concat (map (safe_char alnum) (utf8_chars filename)) in
      if ends_with safe ''.md'' then safe else safe @ ''.md'')"

definition plan_filename :: "json \<Rightarrow> str" where
  "plan_filename args =
     (case json_get_str args ''filename'' of
        None \<Rightarrow> ''plan.md''
      | Some f \<Rightarrow> if f = [] then ''plan.md'' else f)"

definition plan_yield :: "str \<Rightarrow> str \<Rightarrow> json" where
  "plan_yield plan plan_path =
     JObj [(''plan'', JStr plan), (''plan_path'', JStr plan_path), (''yield_type'', JStr ''save_plan'')]"

definition save_plan_execute :: "(str \<Rightarrow> str option) \<Rightarrow> (str \<Rightarrow> bool) \<Rightarrow> json \<Rightarrow> tool_context \<Rightarrow> world
    \<Rightarrow> world \<times> agent_event list \<times> (str + tool_result)" where
  "save_plan_execute git_dir alnum args cx w =
     (let plan = field_or args ''plan'' [] in
      if plan = [] then (w, [], Inr (tool_failure ''Plan must not be empty.''))
      else case ensure_agent_dir git_dir (cx_working_dir cx) (w_disk w) of
        (d, agent_dir) \<Rightarrow>
          (let plan_path = path_join agent_dir (safe_filename alnum (plan_filename args)) in
           case write_file d (components plan_path) plan of
             Inl e \<Rightarrow> (w\<lparr>w_disk := d\<rparr>, [], Inr (tool_failure (''Failed to write plan file: '' @ io_text e)))
           | Inr d' \<Rightarrow>
               (w\<lparr>w_disk := d'\<rparr>, [],
                Inr \<lparr>tr_output = ''Plan saved to '' @ plan_path, tr_is_error = False,
                     tr_yield_data = Some (plan_yield plan plan_path), tr_modified_files = []\<rparr>)))"

definition save_plan_tool :: "(str \<Rightarrow> str option) \<Rightarrow> (str \<Rightarrow> bool) \<Rightarrow> tool" where
  "save_plan_tool git_dir alnum =
     \<lparr>tl_name = ''save_plan'',
      tl_description = ''Save your implementation plan and present it to the user for approval. ''
        @ ''Call this when your plan is complete and ready for review. ''
        @ ''You must provide a descriptive filename (e.g. '' @ quoted ''plan-add-auth-middleware.md'' @ ''). ''
        @ ''The plan will be saved to .agent/{filename} and shown to the user with an Implement button.'',
      tl_schema = plan_schema, tl_execute = save_plan_execute git_dir alnum\<rparr>"

section \<open>Asking the user\<close>

definition ask_schema :: json where
  "ask_schema = JObj
     [(''properties'', JObj
         [(''options'', JObj
             [(''description'', JStr ''Optional list of choices for the user to pick from''),
              (''items'', JObj [(''type'', JStr ''string'')]),
              (''type'', JStr ''array'')]),
          (''question'', string_param ''The question to ask the user'')]),
      (''required'', JArr [JStr ''question'']),
      (''type'', JStr ''object'')]"

definition ask_options :: "json \<Rightarrow> str list option" where
  "ask_options args = map_option (List.map_filter as_str) (Option.bind (json_get args ''options'') as_array)"

definition ask_yield :: "str \<Rightarrow> str list option \<Rightarrow> json" where
  "ask_yield question options =
     JObj [(''options'', case options of None \<Rightarrow> JNull | Some os \<Rightarrow> JArr (map JStr os)),
           (''question'', JStr question), (''yield_type'', JStr ''ask_user'')]"

definition ask_execute :: "json \<Rightarrow> tool_context \<Rightarrow> world \<Rightarrow> world \<times> agent_event list \<times> (str + tool_result)" where
  "ask_execute args cx w =
     (let question = field_or args ''question'' [] in
      if question = [] then (w, [], Inr (tool_failure ''Question must not be empty.''))
      else (w, [], Inr \<lparr>tr_output = ''Question asked: '' @ question, tr_is_error = False,
              tr_yield_data = Some (ask_yield question (ask_options args)), tr_modified_files = []\<rparr>))"

definition ask_user_tool :: tool where
  "ask_user_tool =
     \<lparr>tl_name = ''ask_user'',
      tl_description = ''Ask the user a clarifying question. Use when you need more information to proceed. ''
        @ ''Optionally provide a list of choices for the user to pick from.'',
      tl_schema = ask_schema, tl_execute = ask_execute\<rparr>"

end
