(* ===== verification/PlanFacts.thy ===== *)
theory PlanFacts
  imports PlanTools SkillFacts ToolExecFacts AgentLoop
begin

text \<open>
  The todo list is replaced as a whole or not at all; a plan is saved in the agent directory whatever name the
  model gives; and the loop ends with what the yielding tools hand it.
\<close>

section \<open>The todo list\<close>

definition valid_todo :: "json \<Rightarrow> bool" where
  "valid_todo item \<longleftrightarrow> ti_id (todo_of item) \<noteq> [] \<and> ti_content (todo_of item) \<noteq> []
     \<and> ti_status (todo_of item) \<in> {''pending'', ''in_progress'', ''completed''}"

lemma parse_todos_Inr: "parse_todos i items = Inr ts \<longleftrightarrow> list_all valid_todo items \<and> ts = map todo_of items"
proof (induction items arbitrary: i ts)
  case (Cons item items)
  have ih: "(\<exists>us. parse_todos (Suc i) items = Inr us \<and> P us) \<longleftrightarrow> list_all valid_todo items \<and> P (map todo_of items)" for P
    using Cons.IH [of "Suc i"] by auto
  have "parse_todos i (item # items) = Inr ts \<longleftrightarrow>
      valid_todo item \<and> (\<exists>us. parse_todos (Suc i) items = Inr us \<and> ts = todo_of item # us)"
    by (auto simp: Let_def valid_todo_def status_values_def split: sum.split)
  then show ?case by (simp add: ih)
qed auto

text \<open>
  The todo tool replaces the list as a whole: if every item has an id, a content and a known status, all items
  are announced in their order and shown, else nothing is changed or announced and the result is an error.
\<close>
theorem todo_write_all_or_nothing:
  "(\<exists>items w'. json_get args ''todos'' = Some (JArr items) \<and> list_all valid_todo items
      \<and> todo_execute git_dir args cx w = (w', [TodoUpdated (cx_session_id cx) (map todo_of items)],
          Inr (tool_success (todo_markdown (map todo_of items)))))
    \<or> (\<nexists>items. json_get args ''todos'' = Some (JArr items) \<and> list_all valid_todo items)
      \<and> (\<exists>msg. todo_execute git_dir args cx w = (w, [], Inr (tool_failure msg)))"
proof (cases "Option.bind (json_get args ''todos'') as_array")
  case None
  then have "\<nexists>items. json_get args ''todos'' = Some (JArr items)" by auto
  with None show ?thesis by (auto simp: todo_execute_def)
next
  case (Some items)
  then have j: "json_get args ''todos'' = Some (JArr items)"
    by (cases "json_get args ''todos''") (auto elim!: as_array.elims)
  show ?thesis
  proof (cases "parse_todos 0 items")
    case (Inl e)
    then have "\<not> list_all valid_todo items" using parse_todos_Inr [of 0 items "map todo_of items"] by auto
    with j Some Inl show ?thesis by (auto simp: todo_execute_def)
  next
    case (Inr ts)
    then have "list_all valid_todo items" "ts = map todo_of items" by (simp_all add: parse_todos_Inr)
    with j Some Inr show ?thesis
      by (intro disjI1 exI [of _ items]) (simp add: todo_execute_def Let_def split: prod.split)
  qed
qed

text \<open>The empty list is accepted, although the message for a wrong argument asks for one that is not empty.\<close>

lemma todo_empty_accepted:
  "snd (todo_execute git_dir (JObj [(''todos'', JArr [])]) cx w) =
    ([TodoUpdated (cx_session_id cx) []], Inr (tool_success (todo_markdown [])))"
  by (simp add: todo_execute_def json_get.simps Let_def split: prod.split)

section \<open>Plans\<close>

lemma no_slash_chars:
  "ch \<in> set (utf8_chars s) \<Longrightarrow> ch \<noteq> [] \<and> SLASH \<notin> set (tl ch)"
proof (induction s rule: utf8_chars.induct)
  case (2 c s)
  have "\<not> is_cont_byte SLASH" by code_simp
  then have "SLASH \<notin> set (takeWhile is_cont_byte s)" by (meson set_takeWhileD)
  with 2 show ?case by auto
qed simp

lemma safe_char_no_slash:
  assumes "ch \<in> set (utf8_chars s)"
  shows "SLASH \<notin> set (safe_char alnum ch)"
proof -
  obtain c r where ch: "ch = c # r" "SLASH \<notin> set r" using no_slash_chars [OF assms] by (cases ch) auto
  have "\<not> is_ascii_alphanumeric SLASH" by code_simp
  then have "\<not> char_alphanumeric alnum (SLASH # r)" by (simp add: char_alphanumeric_def)
  then have "c \<noteq> SLASH" if "char_alphanumeric alnum ch" using that ch by auto
  with ch show ?thesis by (auto simp: safe_char_def)
qed

lemma safe_filename_plain: "plain_name (safe_filename alnum f) \<and> ends_with (safe_filename alnum f) ''.md''"
proof -
  let ?s = "concat (map (safe_char alnum) (utf8_chars f))"
  have noslash: "SLASH \<notin> set ?s" using safe_char_no_slash by auto
  have end1: "ends_with (safe_filename alnum f) ''.md''" by (simp add: safe_filename_def Let_def ends_with_def)
  then have "3 \<le> length (safe_filename alnum f)" by (simp add: ends_with_def)
  moreover have "SLASH \<notin> set (safe_filename alnum f)" using noslash by (simp add: safe_filename_def Let_def)
  ultimately show ?thesis using end1 unfolding plain_name_def by force
qed

text \<open>
  Whatever file name the model gives, a plan that is saved is written to a file directly in the agent directory
  of the project whose name ends in .md, and the loop that gets the result ends with that plan and that path.
\<close>
theorem save_plan_confined:
  assumes "save_plan_execute git_dir alnum args cx w = (w', evs, Inr r)" and "\<not> tr_is_error r"
  shows "\<exists>f path. SLASH \<notin> set f \<and> ends_with f ''.md''
    \<and> components path = components (cx_working_dir cx) @ [Normal ''.agent'', Normal f]
    \<and> write_file (fst (ensure_agent_dir git_dir (cx_working_dir cx) (w_disk w))) (components path) (field_or args ''plan'' []) =
        Inr (w_disk w')
    \<and> w_store w' = w_store w
    \<and> act_on_yield env (tr_yield_data r) st =
        Some (emit [PlanReadyEvent (le_session_id env) (field_or args ''plan'' []) path (ac_working_dir (le_config env))] st,
          Finished (PlanReady (field_or args ''plan'' []) path))"
proof -
  let ?f = "safe_filename alnum (plan_filename args)" and ?wd = "cx_working_dir cx"
  let ?p = "path_join (path_join ?wd ''.agent'') ?f"
  have "plain_name ''.agent''" by (simp add: plain_name_def)
  then have comps: "components ?p = components ?wd @ [Normal ''.agent'', Normal ?f]"
    using safe_filename_plain [of alnum "plan_filename args"] by (simp add: components_join)
  have dir: "snd (ensure_agent_dir git_dir ?wd d) = path_join ?wd ''.agent''" for d
    by (simp add: ensure_agent_dir_def Let_def)
  obtain d where d: "ensure_agent_dir git_dir ?wd (w_disk w) = (d, path_join ?wd ''.agent'')"
    using dir [of "w_disk w"] by (metis prod.collapse)
  have "field_or args ''plan'' [] \<noteq> []" using assms by (auto simp: save_plan_execute_def tool_failure_def)
  then obtain d' where wr: "write_file d (components ?p) (field_or args ''plan'' []) = Inr d'" "w' = w\<lparr>w_disk := d'\<rparr>"
    "tr_yield_data r = Some (plan_yield (field_or args ''plan'' []) ?p)"
    using assms by (auto simp: save_plan_execute_def d Let_def tool_failure_def split: sum.splits)
  have "act_on_yield env (tr_yield_data r) st =
      Some (emit [PlanReadyEvent (le_session_id env) (field_or args ''plan'' []) ?p (ac_working_dir (le_config env))] st,
        Finished (PlanReady (field_or args ''plan'' []) ?p))"
    by (simp add: act_on_yield_def wr(3) plan_yield_def str_or_empty_def json_get_str_def json_get.simps Let_def)
  with comps d wr safe_filename_plain [of alnum "plan_filename args"] show ?thesis
    by (intro exI [of _ ?f] exI [of _ ?p]) (simp add: plain_name_def)
qed

definition demo_plan_args :: json where
  "demo_plan_args = JObj [(''filename'', JStr ''../x y''), (''plan'', JStr ''go'')]"

lemma demo_plan:
  "snd (save_plan_execute (\<lambda>_. None) (\<lambda>_. False) demo_plan_args demo_context demo_world) =
    ([], Inr \<lparr>tr_output = ''Plan saved to /p/.agent/..-x-y.md'', tr_is_error = False,
       tr_yield_data = Some (plan_yield ''go'' ''/p/.agent/..-x-y.md''), tr_modified_files = []\<rparr>)"
  by code_simp

theorem save_plan_confined_witness:
  "\<exists>f path. SLASH \<notin> set f \<and> components path = components ''/p'' @ [Normal ''.agent'', Normal f]
    \<and> write_file (fst (ensure_agent_dir (\<lambda>_. None) ''/p'' (w_disk demo_world))) (components path) ''go'' =
        Inr (w_disk (fst (save_plan_execute (\<lambda>_. None) (\<lambda>_. False) demo_plan_args demo_context demo_world)))"
proof -
  let ?x = "save_plan_execute (\<lambda>_. None) (\<lambda>_. False) demo_plan_args demo_context demo_world"
  have "?x = (fst ?x, [], Inr \<lparr>tr_output = ''Plan saved to /p/.agent/..-x-y.md'', tr_is_error = False,
       tr_yield_data = Some (plan_yield ''go'' ''/p/.agent/..-x-y.md''), tr_modified_files = []\<rparr>)"
    using demo_plan by (metis prod.collapse)
  moreover have "field_or demo_plan_args ''plan'' [] = ''go''" "cx_working_dir demo_context = ''/p''"
    by (simp_all add: field_or_def demo_plan_args_def json_get_str_def demo_context_def)
  ultimately show ?thesis using save_plan_confined [of "\<lambda>_. None" "\<lambda>_. False" demo_plan_args demo_context demo_world] by (metis tool_result.select_convs(2))
qed

text \<open>A plan may have the name of the todo list, which it then replaces.\<close>

lemma plan_replaces_todos: "safe_filename alnum ''todos.md'' = ''todos.md''"
proof -
  have "utf8_chars ''todos.md'' = map (\<lambda>c. [c]) ''todos.md''" by code_simp
  moreover have "char_alphanumeric alnum [c] = is_ascii_alphanumeric c" if "(of_char c :: nat) < 128" for c
    using that by (simp add: char_alphanumeric_def)
  ultimately show ?thesis by (simp add: safe_filename_def safe_char_def is_ascii_alphanumeric_def ends_with_def Let_def)
qed

section \<open>Questions\<close>

text \<open>
  A question ends the run with exactly that question and the options of the call that are strings; without a
  question the result is an error and the run goes on.
\<close>
theorem ask_user_ends_run:
  "(if field_or args ''question'' [] = [] then \<exists>msg. ask_execute args cx w = (w, [], Inr (tool_failure msg))
    else \<exists>r. ask_execute args cx w = (w, [], Inr r) \<and> \<not> tr_is_error r
      \<and> act_on_yield env (tr_yield_data r) st =
          Some (emit [UserQuestionAsked (le_session_id env) (field_or args ''question'' []) (ask_options args)] st,
            Finished (AskUser (field_or args ''question'' []) (ask_options args))))"
proof -
  have strs: "List.map_filter as_str (map JStr os) = os" for os
    by (induction os) (simp_all add: List.map_filter_simps)
  have "act_on_yield env (Some (ask_yield q os)) st =
      Some (emit [UserQuestionAsked (le_session_id env) q os] st, Finished (AskUser q os))" for q os
    by (cases os) (simp_all add: act_on_yield_def ask_yield_def str_or_empty_def json_get_str_def json_get.simps strs Let_def)
  then show ?thesis by (auto simp: ask_execute_def Let_def)
qed


end
