(* ===== verification/FileTools.thy ===== *)
theory FileTools
  imports PlanTools IgnoreFilter
begin

text \<open>
  The tools that read: \<open>crates/agent/src/tool/read.rs\<close>, \<open>glob.rs\<close>, \<open>grep.rs\<close>, and \<open>bash.rs\<close>. The names in a directory,
  the walker and the matcher of the libraries behind \<open>glob\<close>, the programs that are started and whether a
  search runs into its time limit are parameters. A panic is \<open>None\<close>.
\<close>

section \<open>Reading\<close>

definition default_limit :: "64 word" where "default_limit = 2000"
definition max_line_length :: nat where "max_line_length = 2000"
definition read_max_bytes :: nat where "read_max_bytes = 50 * 1024"

definition typed_param :: "str \<Rightarrow> str \<Rightarrow> json" where
  "typed_param ty desc = JObj [(''description'', JStr desc), (''type'', JStr ty)]"

definition read_schema :: json where
  "read_schema = JObj
     [(''properties'', JObj
         [(''filePath'', string_param ''Absolute or relative path to the file or directory to read''),
          (''limit'', typed_param ''integer'' ''Maximum number of lines to read (default 2000)''),
          (''offset'', typed_param ''integer'' ''1-indexed line number to start reading from'')]),
      (''required'', JArr [JStr ''filePath'']),
      (''type'', JStr ''object'')]"

text \<open>\<open>as_u64().unwrap_or(d)\<close>; \<open>usize\<close> has 64 bits.\<close>

definition u64_arg :: "json \<Rightarrow> str \<Rightarrow> 64 word \<Rightarrow> 64 word" where
  "u64_arg args k d = (case json_get args k of Some (JNum (PosInt n)) \<Rightarrow> n | _ \<Rightarrow> d)"

definition read_start :: "64 word \<Rightarrow> nat" where
  "read_start offset = (if 0 < offset then unat offset - 1 else 0)"

text \<open>An entry of a directory is marked if it is a directory itself; links are not followed.\<close>

definition entry_name :: "disk \<Rightarrow> path \<Rightarrow> str \<Rightarrow> str" where
  "entry_name d p n = (case lstat d (p @ [Normal n]) of Inr NDir \<Rightarrow> n @ [SLASH] | _ \<Rightarrow> n)"

text \<open>The listing fails at once or at an entry, each with a message of the system.\<close>

definition read_directory :: "disk \<Rightarrow> str + (str + str list) \<Rightarrow> str \<Rightarrow> 64 word \<Rightarrow> 64 word \<Rightarrow> str + tool_result" where
  "read_directory d listing path offset limit =
     (case listing of
        Inl e \<Rightarrow> Inl (''Failed to read directory: '' @ e)
      | Inr (Inl e) \<Rightarrow> Inl (''Error reading entry: '' @ e)
      | Inr (Inr names) \<Rightarrow>
          (let entries = sort (map (entry_name d (components path)) names) in
           Inr (tool_success (''Directory: '' @ path @ [NL, NL]
             @ join [NL] (take (unat limit) (drop (read_start offset) entries))))))"

text \<open>
  The lines shown. The end is computed with wrap-around, and a slice whose end is before its start panics; where
  overflow is checked, the addition panics in the same cases.
\<close>

definition read_window :: "64 word \<Rightarrow> 64 word \<Rightarrow> nat \<Rightarrow> (nat \<times> nat) option" where
  "read_window offset limit n =
     (let start = min (read_start offset) n; stop = min ((start + unat limit) mod 2 ^ 64) n
      in if stop < start then None else Some (start, stop))"

definition numbered_line :: "nat \<Rightarrow> str \<Rightarrow> str" where
  "numbered_line line_num line =
     to_decimal line_num @ [TAB]
     @ (if max_line_length < length line then truncate_str line max_line_length else line) @ [NL]"

definition read_truncated :: "nat \<Rightarrow> nat \<Rightarrow> str" where
  "read_truncated i n =
     [NL] @ ''... truncated (file too large, showing '' @ to_decimal i @ '' of '' @ to_decimal n @ '' selected lines)''"

fun number_lines :: "nat \<Rightarrow> nat \<Rightarrow> nat \<Rightarrow> str list \<Rightarrow> nat \<Rightarrow> str \<Rightarrow> str" where
  "number_lines start n i [] bytes out = out"
| "number_lines start n i (line # ls) bytes out =
     (let formatted = numbered_line (start + i + 1) line; bytes' = bytes + length formatted in
      if read_max_bytes < bytes' then out @ read_truncated i n
      else number_lines start n (i + 1) ls bytes' (out @ formatted))"

definition range_note :: "nat \<Rightarrow> nat \<Rightarrow> nat \<Rightarrow> str" where
  "range_note start stop n =
     (if 0 < start \<or> stop < n
      then [NL] @ ''(showing lines '' @ to_decimal (start + 1) @ ''-'' @ to_decimal stop @ '' of '' @ to_decimal n @ '' total)''
      else [])"

definition read_text_file :: "disk \<Rightarrow> str \<Rightarrow> 64 word \<Rightarrow> 64 word \<Rightarrow> (str + tool_result) option" where
  "read_text_file d path offset limit =
     (case read_file d (components path) of
        Inl e \<Rightarrow> Some (Inl (''Failed to read file: '' @ io_text e))
      | Inr raw_bytes \<Rightarrow>
          if CHR 0x00 \<in> set (take 4096 raw_bytes)
          then Some (Inr (tool_failure (''Error: '' @ path @ '' appears to be a binary file'')))
          else
            (let lines = str_lines (from_utf8_lossy raw_bytes) in
             case read_window offset limit (length lines) of
               None \<Rightarrow> None
             | Some (start, stop) \<Rightarrow>
                 (let selected = take (stop - start) (drop start lines) in
                  Some (Inr (tool_success
                    (number_lines start (length selected) 0 selected 0 [] @ range_note start stop (length lines)))))))"

definition read_execute :: "(path \<Rightarrow> str + (str + str list)) \<Rightarrow> json \<Rightarrow> tool_context \<Rightarrow> world \<Rightarrow> (str + tool_result) option" where
  "read_execute read_dir args cx w =
     (case json_get_str args ''filePath'' of
        None \<Rightarrow> Some (Inl (missing_param ''filePath''))
      | Some file_path \<Rightarrow>
          (let offset = u64_arg args ''offset'' 0; limit = u64_arg args ''limit'' default_limit;
               path = resolve_path (cx_working_dir cx) file_path
           in if \<not> path_exists (w_disk w) (components path)
              then Some (Inr (tool_failure (''Error: Path does not exist: '' @ path)))
              else if is_dir (w_disk w) (components path)
              then Some (read_directory (w_disk w) (read_dir (components path)) path offset limit)
              else read_text_file (w_disk w) path offset limit))"

section \<open>Finding files\<close>

definition glob_max_results :: nat where "glob_max_results = 100"

definition glob_schema :: json where
  "glob_schema = JObj
     [(''properties'', JObj
         [(''path'', string_param ''Base directory to search in (defaults to working directory)''),
          (''pattern'', string_param (''Glob pattern to match files against (e.g. '' @ quoted ''**/*.rs'' @ '')''))]),
      (''required'', JArr [JStr ''pattern'']),
      (''type'', JStr ''object'')]"

definition default_ignore_dirs :: "str list" where
  "default_ignore_dirs = [''.git'', ''node_modules'', ''target'', ''dist'', ''build'', ''__pycache__'', ''.next'',
     ''vendor'', ''coverage'']"

definition default_ignore_globs :: "str list" where
  "default_ignore_globs = [''*.min.js'', ''*.min.css'']"

text \<open>Both tools drop the ignored directories that an argument names.\<close>

definition names_dir :: "str \<Rightarrow> str option \<Rightarrow> bool" where
  "names_dir dir arg = (case arg of None \<Rightarrow> False | Some p \<Rightarrow> contains p dir)"

definition glob_targeted :: "str \<Rightarrow> str option \<Rightarrow> str \<Rightarrow> bool" where
  "glob_targeted dir path_arg pattern \<longleftrightarrow> contains pattern dir \<or> names_dir dir path_arg"

definition is_min_asset :: "str \<Rightarrow> bool" where
  "is_min_asset name \<longleftrightarrow>
     list_ex (\<lambda>g. case strip_prefix g ''*'' of None \<Rightarrow> False | Some suf \<Rightarrow> ends_with name suf) default_ignore_globs"

text \<open>What the walker gives for an entry: its path, whether it is a directory if that is known, and when it was
  modified, the epoch if that is not known.\<close>

record glob_entry =
  ge_path :: str
  ge_is_dir :: "bool option"
  ge_mtime :: int

record glob_env =
  gl_compile :: "str \<Rightarrow> str + (str \<Rightarrow> bool)"
  gl_walk :: "(bool \<Rightarrow> str \<Rightarrow> bool) \<Rightarrow> str \<Rightarrow> glob_entry list"
  gl_timed_out :: bool

definition keep_entry :: "str list \<Rightarrow> bool \<Rightarrow> bool \<Rightarrow> str \<Rightarrow> bool" where
  "keep_entry ignore_dirs ignore_min_assets is_directory name \<longleftrightarrow>
     \<not> (is_directory \<and> name \<in> set ignore_dirs)
     \<and> \<not> (\<not> is_directory \<and> ignore_min_assets \<and> is_min_asset name)"

definition canonical_path :: "disk \<Rightarrow> str \<Rightarrow> str" where
  "canonical_path d p =
     (case canonicalize d (components p) of
        None \<Rightarrow> p
      | Some cs \<Rightarrow> [SLASH] @ join [SLASH] (map component_text (tl cs)))"

definition glob_hits :: "glob_env \<Rightarrow> disk \<Rightarrow> str \<Rightarrow> (str \<Rightarrow> bool) \<Rightarrow> str list \<Rightarrow> bool \<Rightarrow> (str \<times> int) list" where
  "glob_hits env d base matcher ignore_dirs ignore_min_assets =
     map (\<lambda>e. (canonical_path d (ge_path e), ge_mtime e))
       (filter (\<lambda>e. ge_is_dir e = Some False \<and> matcher (relative_path base (ge_path e)))
         (gl_walk env (keep_entry ignore_dirs ignore_min_assets) base))"

definition glob_search :: "glob_env \<Rightarrow> disk \<Rightarrow> str \<Rightarrow> str \<Rightarrow> str list \<Rightarrow> bool \<Rightarrow> str + str" where
  "glob_search env d base pattern ignore_dirs ignore_min_assets =
     (case gl_compile env pattern of
        Inl e \<Rightarrow> Inl (''Invalid glob pattern '' @ quoted pattern @ '': '' @ e)
      | Inr matcher \<Rightarrow>
          (let entries = glob_hits env d base matcher ignore_dirs ignore_min_assets; n = length entries in
           if entries = [] then Inr (''No files found matching pattern '' @ quoted pattern)
           else Inr (join [NL] (map fst (take glob_max_results (sort_key (\<lambda>(_, t). - t) entries)))
             @ (if glob_max_results < n
                then [NL, NL] @ ''Showing '' @ to_decimal glob_max_results @ '' of '' @ to_decimal n @ '' results''
                else []))))"

definition search_timeout_msg :: "str \<Rightarrow> 64 word \<Rightarrow> str" where
  "search_timeout_msg tool ms =
     tool @ '' timed out after '' @ to_decimal (unat (ms div 1000)) @ ''s '' @ [CHR 0xE2, CHR 0x80, CHR 0x94]
     @ '' narrow the pattern or restrict `path`.''"

definition search_path :: "json \<Rightarrow> tool_context \<Rightarrow> str" where
  "search_path args cx =
     (case json_get_str args ''path'' of None \<Rightarrow> cx_working_dir cx | Some p \<Rightarrow> resolve_path (cx_working_dir cx) p)"

definition glob_execute :: "glob_env \<Rightarrow> json \<Rightarrow> tool_context \<Rightarrow> world \<Rightarrow> str + tool_result" where
  "glob_execute env args cx w =
     (case json_get_str args ''pattern'' of
        None \<Rightarrow> Inl (missing_param ''pattern'')
      | Some pattern \<Rightarrow>
          (let ignores = tp_search_default_ignores (cx_policy cx);
               ignore_dirs = (if ignores
                 then filter (\<lambda>d. \<not> glob_targeted d (json_get_str args ''path'') pattern) default_ignore_dirs else []);
               result = glob_search env (w_disk w) (search_path args cx) pattern ignore_dirs ignores;
               answer = (case result of Inr out \<Rightarrow> Inr (tool_success out) | Inl e \<Rightarrow> Inr (tool_failure e))
           in case tp_search_timeout_ms (cx_policy cx) of
                Some ms \<Rightarrow> if gl_timed_out env then Inr (tool_failure (search_timeout_msg ''glob'' ms)) else answer
              | None \<Rightarrow> answer))"

definition glob_tool :: "glob_env \<Rightarrow> tool" where
  "glob_tool env =
     \<lparr>tl_name = ''glob'',
      tl_description = ''Find files matching a glob pattern. Respects .gitignore. ''
        @ ''Returns absolute paths sorted by modification time (most recent first). ''
        @ ''Example patterns: '' @ quoted ''**/*.rs'' @ '', '' @ quoted ''src/**/*.ts'' @ '', '' @ quoted ''*.json'',
      tl_schema = glob_schema, tl_execute = (\<lambda>args cx w. (w, [], glob_execute env args cx w))\<rparr>"

section \<open>Searching text\<close>

definition grep_max_matches :: nat where "grep_max_matches = 100"

definition grep_schema :: json where
  "grep_schema = JObj
     [(''properties'', JObj
         [(''include'', string_param (''Glob pattern to filter files (e.g. '' @ quoted ''*.rs'' @ '', '' @ quoted ''*.{ts,tsx}'' @ '')'')),
          (''path'', string_param ''File or directory to search in (defaults to working directory)''),
          (''pattern'', string_param ''Regex pattern to search for'')]),
      (''required'', JArr [JStr ''pattern'']),
      (''type'', JStr ''object'')]"

definition grep_targeted :: "str \<Rightarrow> str option \<Rightarrow> str option \<Rightarrow> bool" where
  "grep_targeted dir path_arg incl \<longleftrightarrow> names_dir dir path_arg \<or> names_dir dir incl"

definition rg_args :: "str \<Rightarrow> str \<Rightarrow> str option \<Rightarrow> str list \<Rightarrow> str list \<Rightarrow> str list" where
  "rg_args pattern path incl ignore_dirs ignore_globs =
     [''-n'', ''-H'', ''--color'', ''never'', ''--no-heading'']
     @ (case incl of None \<Rightarrow> [] | Some g \<Rightarrow> [''--glob'', g])
     @ concat (map (\<lambda>d. [''--glob'', ''!**/'' @ d @ ''/**'']) ignore_dirs)
     @ concat (map (\<lambda>g. [''--glob'', ''!'' @ g]) ignore_globs)
     @ [pattern, path]"

definition grep_args :: "str \<Rightarrow> str \<Rightarrow> str option \<Rightarrow> str list \<Rightarrow> str list \<Rightarrow> str list" where
  "grep_args pattern path incl ignore_dirs ignore_globs =
     [''-r'', ''-n'', ''-H'', ''-E'']
     @ (case incl of None \<Rightarrow> [] | Some g \<Rightarrow> [''--include'', g])
     @ map (\<lambda>d. ''--exclude-dir='' @ d) ignore_dirs
     @ map (\<lambda>g. ''--exclude='' @ g) ignore_globs
     @ [pattern, path]"

text \<open>A program that has ended: its exit code if it has one, and what it wrote.\<close>

record process_output =
  po_code :: "int option"
  po_stdout :: str
  po_stderr :: str

text \<open>A program is started with its arguments in a directory; what it does to the disk is its own: the pattern is
  an argument like any other, so one that begins with a dash is an option of the program.\<close>

record grep_env =
  gr_rg_available :: bool
  gr_run :: "str \<Rightarrow> str list \<Rightarrow> str \<Rightarrow> disk \<Rightarrow> disk \<times> (str + process_output)"
  gr_timed_out :: bool

definition match_line :: "str \<Rightarrow> str" where
  "match_line line =
     (if max_line_length < length line then truncate_str line max_line_length @ ''...'' else line) @ [NL]"

definition format_matches :: "str \<Rightarrow> str" where
  "format_matches stdout =
     (let lines = str_lines stdout; n = length lines;
          out = concat (map match_line (take grep_max_matches lines));
          out = (if ends_with out [NL] then butlast out else out)
      in out @ (if grep_max_matches < n
                then [NL, NL] @ ''Showing '' @ to_decimal grep_max_matches @ '' of '' @ to_decimal n @ '' matches''
                else []))"

definition exit_code :: "process_output \<Rightarrow> int" where
  "exit_code p = (case po_code p of None \<Rightarrow> - 1 | Some c \<Rightarrow> c)"

definition show_int :: "int \<Rightarrow> str" where
  "show_int i = (if i < 0 then ''-'' @ to_decimal (nat (- i)) else to_decimal (nat i))"

definition grep_answer :: "str \<Rightarrow> str + process_output \<Rightarrow> tool_result" where
  "grep_answer pattern output =
     (case output of
        Inl e \<Rightarrow> tool_failure (''Failed to execute grep: '' @ e)
      | Inr p \<Rightarrow>
          if exit_code p = 0 then tool_success (format_matches (from_utf8_lossy (po_stdout p)))
          else if exit_code p = 1 then tool_success (''No matches found for pattern '' @ quoted pattern)
          else tool_failure (''Grep error (exit code '' @ show_int (exit_code p) @ ''): '' @ from_utf8_lossy (po_stderr p)))"

definition grep_execute :: "grep_env \<Rightarrow> json \<Rightarrow> tool_context \<Rightarrow> disk \<Rightarrow> disk \<times> (str + tool_result)" where
  "grep_execute env args cx d =
     (case json_get_str args ''pattern'' of
        None \<Rightarrow> (d, Inl (missing_param ''pattern''))
      | Some pattern \<Rightarrow>
          (let ignores = tp_search_default_ignores (cx_policy cx);
               incl = json_get_str args ''include'';
               ignore_dirs = (if ignores
                 then filter (\<lambda>d. \<not> grep_targeted d (json_get_str args ''path'') incl) default_ignore_dirs else []);
               ignore_globs = (if ignores then default_ignore_globs else []);
               (d', output) = (if gr_rg_available env
                 then gr_run env ''rg'' (rg_args pattern (search_path args cx) incl ignore_dirs ignore_globs) (cx_working_dir cx) d
                 else gr_run env ''grep'' (grep_args pattern (search_path args cx) incl ignore_dirs ignore_globs) (cx_working_dir cx) d)
           in case tp_search_timeout_ms (cx_policy cx) of
                Some ms \<Rightarrow>
                  if gr_timed_out env then (d', Inr (tool_failure (search_timeout_msg ''grep'' ms)))
                  else (d', Inr (grep_answer pattern output))
              | None \<Rightarrow> (d', Inr (grep_answer pattern output))))"

definition grep_tool :: "grep_env \<Rightarrow> tool" where
  "grep_tool env =
     \<lparr>tl_name = ''grep'',
      tl_description = ''Search file contents using regex patterns. ''
        @ ''Returns matching lines with file paths and line numbers. ''
        @ ''Use the '' @ quoted ''include'' @ '' parameter to filter by file type (e.g. '' @ quoted ''*.rs'' @ '').'',
      tl_schema = grep_schema, tl_execute = (\<lambda>args cx w.
        case grep_execute env args cx (w_disk w) of (d, r) \<Rightarrow> (w\<lparr>w_disk := d\<rparr>, [], r))\<rparr>"

section \<open>Running commands\<close>

definition default_timeout_ms :: "64 word" where "default_timeout_ms = 120000"

definition bash_schema :: json where
  "bash_schema = JObj
     [(''properties'', JObj
         [(''command'', string_param ''The bash command to execute''),
          (''description'', string_param ''A short 5-10 word description of what this command does''),
          (''timeout'', typed_param ''integer'' ''Timeout in milliseconds (default 120000)'')]),
      (''required'', JArr [JStr ''command'', JStr ''description'']),
      (''type'', JStr ''object'')]"

datatype command_end =
    NotSpawned str
  | Broken str
  | Exited process_output
  | TimedOut
  | CommandCancelled

definition bash_timeout :: "json \<Rightarrow> tool_policy \<Rightarrow> 64 word" where
  "bash_timeout args policy =
     (let timeout_ms = u64_arg args ''timeout'' default_timeout_ms in
      case tp_bash_timeout_ceiling_ms policy of None \<Rightarrow> timeout_ms | Some ceiling \<Rightarrow> min timeout_ms ceiling)"

definition combined_output :: "str \<Rightarrow> str \<Rightarrow> str" where
  "combined_output stdout stderr =
     stdout @ (if stderr = [] then [] else (if stdout = [] then [] else [NL]) @ ''STDERR:'' @ [NL] @ stderr)"

definition bash_output :: "process_output \<Rightarrow> tool_result" where
  "bash_output p =
     (let combined = truncate_output (combined_output (from_utf8_lossy (po_stdout p)) (from_utf8_lossy (po_stderr p)))
                       max_tool_output_lines max_tool_output_bytes
      in \<lparr>tr_output = ''Exit code: '' @ show_int (exit_code p) @ [NL] @ combined, tr_is_error = (exit_code p \<noteq> 0),
          tr_yield_data = None, tr_modified_files = []\<rparr>)"

definition bash_result :: "64 word \<Rightarrow> command_end \<Rightarrow> str + tool_result" where
  "bash_result timeout_ms e =
     (case e of
        NotSpawned msg \<Rightarrow> Inl (''Failed to spawn command: '' @ msg)
      | Broken msg \<Rightarrow> Inr (tool_failure (''Command execution error: '' @ msg))
      | Exited p \<Rightarrow> Inr (bash_output p)
      | TimedOut \<Rightarrow> Inr (tool_failure (''Command timed out after '' @ to_decimal (unat timeout_ms) @ ''ms''))
      | CommandCancelled \<Rightarrow> Inr (tool_failure ''Command cancelled''))"

text \<open>The shell, given the command, the directory and the time, changes the disk and ends in some way.\<close>

definition bash_execute :: "(str \<Rightarrow> str \<Rightarrow> 64 word \<Rightarrow> disk \<Rightarrow> disk \<times> command_end) \<Rightarrow> json \<Rightarrow> tool_context \<Rightarrow> world
    \<Rightarrow> world \<times> agent_event list \<times> (str + tool_result)" where
  "bash_execute sh args cx w =
     (case json_get_str args ''command'' of
        None \<Rightarrow> (w, [], Inl (missing_param ''command''))
      | Some command \<Rightarrow>
          (let timeout_ms = bash_timeout args (cx_policy cx);
               status = ToolStatus (cx_session_id cx) (cx_tool_call_id cx)
                          (''Running: '' @ field_or args ''description'' ''Running command'')
           in case sh command (cx_working_dir cx) timeout_ms (w_disk w) of
                (d, e) \<Rightarrow> (w\<lparr>w_disk := d\<rparr>, [status], bash_result timeout_ms e)))"

definition bash_tool :: "(str \<Rightarrow> str \<Rightarrow> 64 word \<Rightarrow> disk \<Rightarrow> disk \<times> command_end) \<Rightarrow> tool" where
  "bash_tool sh =
     \<lparr>tl_name = ''bash'',
      tl_description = ''Execute a bash command. The command runs in a shell with the working directory set to ''
        @ ''the project root. Returns stdout and stderr combined with the exit code.'',
      tl_schema = bash_schema, tl_execute = bash_execute sh\<rparr>"

end
