(* ===== verification/FileFacts.thy ===== *)
theory FileFacts
  imports FileTools ToolExecFacts "HOL-Library.Multiset"
begin

text \<open>
  What the reading tools show: the lines of a file that fit, the newest of the files found, a bounded number of
  matches; when a reading panics; and what is kept of the output of a command.
\<close>

section \<open>Reading a file\<close>

definition text_lines :: "str \<Rightarrow> str list" where
  "text_lines raw_bytes = str_lines (from_utf8_lossy raw_bytes)"

definition looks_binary :: "str \<Rightarrow> bool" where
  "looks_binary raw_bytes \<longleftrightarrow> CHR 0x00 \<in> set (take 4096 raw_bytes)"

definition shown_lines :: "str list \<Rightarrow> nat \<Rightarrow> nat \<Rightarrow> str" where
  "shown_lines lines i k = concat (map (\<lambda>j. numbered_line (j + 1) (lines ! j)) [i..<k])"

lemma shown_lines_step: "i < k \<Longrightarrow> shown_lines lines i k = numbered_line (i + 1) (lines ! i) @ shown_lines lines (Suc i) k"
  by (simp add: shown_lines_def upt_conv_Cons)

lemma shown_lines_refl [simp]: "shown_lines lines i i = []"
  by (simp add: shown_lines_def)

lemma number_lines_spec:
  assumes "start + i = pos" and "pos + m \<le> length lines" and "bytes \<le> read_max_bytes"
  shows "\<exists>k \<le> m. number_lines start n i (take m (drop pos lines)) bytes out =
        out @ shown_lines lines pos (pos + k) @ (if k < m then read_truncated (i + k) n else [])
      \<and> bytes + length (shown_lines lines pos (pos + k)) \<le> read_max_bytes
      \<and> (k < m \<longrightarrow> read_max_bytes < bytes + length (shown_lines lines pos (Suc (pos + k))))"
  using assms
proof (induction m arbitrary: i pos bytes out)
  case (Suc m)
  let ?f = "numbered_line (Suc pos) (lines ! pos)"
  have d: "take (Suc m) (drop pos lines) = (lines ! pos) # take m (drop (Suc pos) lines)"
    using Suc.prems(2) by (simp add: Cons_nth_drop_Suc [symmetric])
  have s: "shown_lines lines pos (Suc (pos + k)) = ?f @ shown_lines lines (Suc pos) (Suc (pos + k))" for k
    by (subst shown_lines_step) simp_all
  show ?case
  proof (cases "read_max_bytes < bytes + length ?f")
    case True
    then show ?thesis
      using Suc.prems by (intro exI [of _ 0]) (simp add: d Let_def shown_lines_step)
  next
    case False
    have m: "start + Suc i = Suc pos" "Suc pos + m \<le> length lines" using Suc.prems by simp_all
    have le: "bytes + length ?f \<le> read_max_bytes" using False by simp
    from Suc.IH [OF m le, of "out @ ?f"] obtain k where k: "k \<le> m"
        "number_lines start n (Suc i) (take m (drop (Suc pos) lines)) (bytes + length ?f) (out @ ?f) =
          (out @ ?f) @ shown_lines lines (Suc pos) (Suc pos + k) @ (if k < m then read_truncated (Suc i + k) n else [])"
        "bytes + length ?f + length (shown_lines lines (Suc pos) (Suc pos + k)) \<le> read_max_bytes"
        "k < m \<longrightarrow> read_max_bytes < bytes + length ?f + length (shown_lines lines (Suc pos) (Suc (Suc pos + k)))"
      by blast
    have step: "number_lines start n i (take (Suc m) (drop pos lines)) bytes out =
        number_lines start n (Suc i) (take m (drop (Suc pos) lines)) (bytes + length ?f) (out @ ?f)"
      using False Suc.prems(1) by (simp add: d Let_def)
    show ?thesis
      unfolding step k(2) using k(1,3,4) by (intro exI [of _ "Suc k"]) (simp add: s [of k] s [of "Suc k", simplified] add.assoc)
  qed
qed simp

lemma read_window_Some:
  assumes "read_window offset limit n = Some (start, stop)"
  shows "start \<le> stop" and "stop \<le> n"
proof -
  define i j where "i = min (read_start offset) n" and "j = min ((i + unat limit) mod 2 ^ 64) n"
  have "(if j < i then None else Some (i, j)) = Some (start, stop)"
    using assms by (simp only: read_window_def Let_def i_def j_def)
  then have "i = start" "j = stop" "i \<le> j" by (auto split: if_splits)
  then show "start \<le> stop" and "stop \<le> n" by (simp_all add: j_def)
qed

text \<open>
  Of a file that is no binary, exactly the first lines of the window are shown that fit in 50 KB together with
  their numbers, then a note if lines of the window are left out, then the range if the window is not the file.
\<close>
theorem read_shows_what_fits:
  assumes "read_file d (components path) = Inr raw_bytes" and "\<not> looks_binary raw_bytes"
    and "read_window offset limit (length (text_lines raw_bytes)) = Some (start, stop)"
  shows "\<exists>k. start \<le> k \<and> k \<le> stop
    \<and> read_text_file d path offset limit = Some (Inr (tool_success
        (shown_lines (text_lines raw_bytes) start k
         @ (if k < stop then read_truncated (k - start) (stop - start) else [])
         @ range_note start stop (length (text_lines raw_bytes)))))
    \<and> length (shown_lines (text_lines raw_bytes) start k) \<le> read_max_bytes
    \<and> (k < stop \<longrightarrow> read_max_bytes < length (shown_lines (text_lines raw_bytes) start (k + 1)))"
proof -
  let ?ls = "text_lines raw_bytes"
  have w: "start \<le> stop" "stop \<le> length ?ls" by (rule read_window_Some [OF assms(3)])+
  then have "start + (stop - start) \<le> length ?ls" by simp
  from number_lines_spec [of start 0 start, OF _ this, of 0 "stop - start" "[]"] obtain k where k: "k \<le> stop - start"
    "number_lines start (stop - start) 0 (take (stop - start) (drop start ?ls)) 0 [] =
        [] @ shown_lines ?ls start (start + k) @ (if k < stop - start then read_truncated (0 + k) (stop - start) else [])"
    "0 + length (shown_lines ?ls start (start + k)) \<le> read_max_bytes"
    "k < stop - start \<longrightarrow> read_max_bytes < 0 + length (shown_lines ?ls start (Suc (start + k)))"
    by auto
  have sel: "length (take (stop - start) (drop start ?ls)) = stop - start" using w by simp
  have "read_text_file d path offset limit = Some (Inr (tool_success
      (number_lines start (stop - start) 0 (take (stop - start) (drop start ?ls)) 0 [] @ range_note start stop (length ?ls))))"
    using assms sel by (simp add: read_text_file_def looks_binary_def text_lines_def [symmetric] Let_def)
  with k w show ?thesis by (intro exI [of _ "start + k"]) (auto simp: less_diff_conv add.commute)
qed

lemma read_window_None: "read_window offset limit n = None \<longleftrightarrow> 2 ^ 64 \<le> min (read_start offset) n + unat limit"
proof -
  define start where "start = min (read_start offset) n"
  have l: "unat limit < 2 ^ 64" using unsigned_less [of limit] by simp
  have "unat offset < 2 ^ 64" using unsigned_less [of offset] by simp
  then have s: "start < 2 ^ 64" "start \<le> n" by (auto simp: start_def read_start_def)
  then have "read_window offset limit n = None \<longleftrightarrow> (start + unat limit) mod 2 ^ 64 < start"
    unfolding read_window_def start_def [symmetric] Let_def by (auto simp: min_def)
  also have "\<dots> \<longleftrightarrow> 2 ^ 64 \<le> start + unat limit"
  proof (cases "2 ^ 64 \<le> start + unat limit")
    case True
    then have "(start + unat limit) mod 2 ^ 64 = start + unat limit - 2 ^ 64"
      using l s by (simp add: le_mod_geq)
    with True l show ?thesis by simp
  qed simp
  finally show ?thesis by (simp only: start_def)
qed

text \<open>
  Reading panics in exactly one case: when the first line shown and the limit add up to more than 64 bits hold.
  So the model can crash its own call with an offset of 2 and the greatest limit.
\<close>
theorem read_panics_iff:
  assumes "read_file d (components path) = Inr raw_bytes" and "\<not> looks_binary raw_bytes"
  shows "read_text_file d path offset limit = None \<longleftrightarrow>
    2 ^ 64 \<le> min (read_start offset) (length (text_lines raw_bytes)) + unat limit"
  unfolding read_window_None [symmetric]
  using assms by (simp add: read_text_file_def looks_binary_def text_lines_def [symmetric] Let_def split: option.split)

section \<open>Files found\<close>

text \<open>
  A search that finds files lists the most recently modified of them, newest first: at most 100, and if any is
  left out then 100 are listed and none left out is newer than one listed.
\<close>
theorem glob_lists_newest:
  assumes "gl_compile env pattern = Inr matcher"
    and "glob_hits env d base matcher ignore_dirs ignore_min_assets = hits" and "hits \<noteq> []"
  shows "\<exists>listed rest note. glob_search env d base pattern ignore_dirs ignore_min_assets = Inr (join [NL] (map fst listed) @ note)
    \<and> mset listed + mset rest = mset hits
    \<and> length listed \<le> glob_max_results \<and> (rest \<noteq> [] \<longrightarrow> length listed = glob_max_results)
    \<and> sorted_wrt (\<lambda>a b. snd b \<le> snd a) listed
    \<and> (\<forall>a \<in> set listed. \<forall>b \<in> set rest. snd b \<le> snd a)"
proof -
  let ?s = "sort_key (\<lambda>(_, t). - t) hits"
  let ?listed = "take glob_max_results ?s" and ?rest = "drop glob_max_results ?s"
  have "sorted (map (\<lambda>(_, t). - t) ?s)" by (rule sorted_sort_key)
  then have sorted: "sorted_wrt (\<lambda>a b. snd b \<le> snd a) (?listed @ ?rest)"
    by (simp only: append_take_drop_id) (simp add: sorted_map case_prod_beta)
  have "mset ?listed + mset ?rest = mset hits"
    by (metis append_take_drop_id mset_append mset_sort)
  moreover have "?rest \<noteq> [] \<longrightarrow> length ?listed = glob_max_results" by simp
  ultimately show ?thesis
    using assms(3) sorted
    by (intro exI [of _ ?listed] exI [of _ ?rest] exI [of _ "if glob_max_results < length hits
          then [NL, NL] @ ''Showing '' @ to_decimal glob_max_results @ '' of '' @ to_decimal (length hits) @ '' results'' else []"])
      (simp only: glob_search_def assms(1,2) sum.case Let_def if_False sorted_wrt_append, simp)
qed

section \<open>Matches\<close>

lemma match_line_len: "length (match_line l) \<le> max_line_length + 4"
  using floor_char_boundary_le [of l max_line_length]
  by (auto simp: match_line_def truncate_str_def)

lemma concat_len_le: "(\<And>x. x \<in> set xs \<Longrightarrow> length (f x) \<le> n) \<Longrightarrow> length (concat (map f xs)) \<le> length xs * n"
  by (induction xs) (auto intro: add_mono)

text \<open>
  Whatever a search prints, the matches shown are at most 100 lines of at most 2003 bytes, and only a count of
  the lines follows.
\<close>
theorem grep_matches_bounded:
  "\<exists>shown. length shown \<le> grep_max_matches * (max_line_length + 4)
    \<and> format_matches out = shown
        @ (if grep_max_matches < length (str_lines out)
           then [NL, NL] @ ''Showing '' @ to_decimal grep_max_matches @ '' of '' @ to_decimal (length (str_lines out)) @ '' matches''
           else [])"
proof -
  let ?out = "concat (map match_line (take grep_max_matches (str_lines out)))"
  have "length ?out \<le> length (take grep_max_matches (str_lines out)) * (max_line_length + 4)"
    by (rule concat_len_le) (rule match_line_len)
  also have "\<dots> \<le> grep_max_matches * (max_line_length + 4)" by (intro mult_right_mono) simp_all
  finally have "length ?out \<le> grep_max_matches * (max_line_length + 4)" .
  then have "length (if ends_with ?out [NL] then butlast ?out else ?out) \<le> grep_max_matches * (max_line_length + 4)"
    by (auto intro: le_trans)
  then show ?thesis
    by (intro exI [of _ "if ends_with ?out [NL] then butlast ?out else ?out"]) (simp only: format_matches_def Let_def)
qed

text \<open>
  The pattern stands among the options, with nothing before it that would end them: a pattern that begins with a
  hyphen is an option of the program.
\<close>

lemma pattern_among_options:
  "rg_args pattern path None [] [] = [''-n'', ''-H'', ''--color'', ''never'', ''--no-heading'', pattern, path]
    \<and> (\<forall>a \<in> set (take 5 (rg_args pattern path None [] [])). a \<notin> {''--'', ''-e'', ''--regexp''})"
  by (simp add: rg_args_def)

text \<open>A directory is taken as named by the pattern when its name occurs anywhere in it.\<close>

lemma ignored_dir_by_substring: "glob_targeted ''build'' None ''**/Rebuilder.java''"
  by code_simp

section \<open>Output of commands\<close>

lemma str_lines_count: "length (str_lines s) \<le> Suc (count_list s NL)"
proof (induction s rule: str_lines_induct)
  case (last l)
  then show ?case by (simp add: str_lines_last)
next
  case (step l r)
  then show ?case by (simp add: str_lines_step)
qed simp

lemma count_join_lines: "list_all (\<lambda>l. NL \<notin> set l) ls \<Longrightarrow> count_list (join [NL] ls) NL = length ls - 1"
proof (induction ls)
  case (Cons l ls)
  then show ?case by (cases ls) (simp_all add: join_Cons count_list_append)
qed simp

lemma decimal_no_NL: "count_list (to_decimal n) NL = 0"
proof -
  have "\<not> is_digit NL" by code_simp
  then show ?thesis using to_decimal_digits [of NL n] by (auto simp: count_list_0_iff)
qed

lemma truncated_lines: "length (str_lines (truncate_output out max_lines max_bytes)) \<le> max_lines + 2"
proof (cases "max_lines < length (str_lines out) \<or> max_bytes < length out")
  case False
  then have "truncate_output out max_lines max_bytes = out" by (auto simp: truncate_output_def Let_def)
  with False show ?thesis by simp
next
  case True
  have one: "count_list (if k = m then [] else truncation_note a b c e) NL \<le> 1" for k m a b c e :: nat
    by (simp add: truncation_note_def count_list_append decimal_no_NL)
  from truncate_output_keeps_prefix [OF True] obtain k where "k \<le> max_lines"
    "truncate_output out max_lines max_bytes = join [NL] (take k (str_lines out)) @
       (if k = length (str_lines out) then []
        else truncation_note k (length (str_lines out)) (length (join [NL] (take k (str_lines out)))) (length out))"
    by blast
  with one obtain suffix where k: "k \<le> max_lines"
    "truncate_output out max_lines max_bytes = join [NL] (take k (str_lines out)) @ suffix" "count_list suffix NL \<le> 1"
    by metis
  have "list_all (\<lambda>l. NL \<notin> set l) (take k (str_lines out))"
    using str_lines_no_NL [of _ out] by (auto simp: list_all_iff dest: in_set_takeD)
  from count_join_lines [OF this] have "count_list (join [NL] (take k (str_lines out))) NL \<le> k - 1" by simp
  then show ?thesis
    using str_lines_count [of "truncate_output out max_lines max_bytes"] k by (simp add: count_list_append)
qed


lemma bash_output_lines: "length (str_lines (tr_output (bash_output p))) \<le> 2003"
proof -
  have "count_list (show_int i) NL = 0" for i by (simp add: show_int_def decimal_no_NL count_list_append)
  then have "NL \<notin> set (''Exit code: '' @ show_int (exit_code p))" by (simp add: count_list_0_iff)
  from str_lines_step [OF this] truncated_lines [of _ max_tool_output_lines max_tool_output_bytes] show ?thesis
    by (simp add: bash_output_def Let_def max_tool_output_lines_def)
qed

text \<open>
  However much a command prints, what is saved as its full output when the result of the tool is cut is the text
  that the tool has already cut itself, of at most 2003 lines.
\<close>
theorem saved_output_already_cut:
  assumes "json_get_str args ''command'' = Some command"
    and "sh command (cx_working_dir cx) (bash_timeout args (cx_policy cx)) (w_disk w) = (d, Exited p)"
  shows "\<exists>saved. length (str_lines saved) \<le> 2003
    \<and> (w_disk (fst (run_tool env call_id (bash_tool sh) args cx w)), tr_output (snd (snd (run_tool env call_id (bash_tool sh) args cx w)))) =
        truncate_and_persist (te_git_dir env) saved max_tool_output_lines max_tool_output_bytes (cx_working_dir cx) call_id d"
proof -
  have x: "tl_execute (bash_tool sh) args cx w =
      (w\<lparr>w_disk := d\<rparr>, [ToolStatus (cx_session_id cx) (cx_tool_call_id cx)
         (''Running: '' @ field_or args ''description'' ''Running command'')], Inr (bash_output p))"
    using assms by (simp add: bash_tool_def bash_execute_def bash_result_def Let_def)
  obtain d' out where t: "truncate_and_persist (te_git_dir env) (tr_output (bash_output p)) max_tool_output_lines
      max_tool_output_bytes (cx_working_dir cx) call_id d = (d', out)" by (rule prod.exhaust)
  show ?thesis
    using bash_output_lines [of p] by (intro exI [of _ "tr_output (bash_output p)"]) (simp add: run_tool_def x t)
qed

section \<open>Examples\<close>

lemma demo_read: "read_file (demo_disk ''v'') (components ''/p/a'') = Inr ''v''"
  by code_simp

lemma demo_file_text: "text_lines ''v'' = [''v'']" "\<not> looks_binary ''v''"
  by code_simp+

theorem read_panics_iff_witness: "read_text_file (demo_disk ''v'') ''/p/a'' 2 (- 1) = None"
proof -
  have "unat (- 1 :: 64 word) = 2 ^ 64 - 1" by (simp add: unsigned_minus_1_eq_mask mask_eq_exp_minus_1)
  moreover have "min (read_start 2) (length (text_lines ''v'')) = 1" by (simp add: read_start_def demo_file_text)
  ultimately show ?thesis using read_panics_iff [OF demo_read demo_file_text(2), of 2 "- 1"] by simp
qed

theorem read_shows_what_fits_witness:
  "\<exists>k \<le> 1. read_text_file (demo_disk ''v'') ''/p/a'' 0 2000 = Some (Inr (tool_success
      (shown_lines [''v''] 0 k @ (if k < 1 then read_truncated k 1 else []))))"
proof -
  have "read_window 0 2000 (length (text_lines ''v'')) = Some (0, 1)"
    by (simp add: read_window_def read_start_def demo_file_text)
  moreover have "range_note 0 1 1 = []" "length [''v''] = 1" by (simp_all add: range_note_def)
  ultimately show ?thesis
    using read_shows_what_fits [OF demo_read demo_file_text(2), of 0 2000 0 1]
    unfolding demo_file_text(1) by (simp only: append_Nil2 diff_zero simp_thms) blast
qed

definition demo_glob :: glob_env where
  "demo_glob = \<lparr>gl_compile = (\<lambda>_. Inr (\<lambda>_. True)),
     gl_walk = (\<lambda>_ _. [\<lparr>ge_path = ''/p/a'', ge_is_dir = Some False, ge_mtime = 1\<rparr>,
       \<lparr>ge_path = ''/p/b'', ge_is_dir = Some False, ge_mtime = 2\<rparr>]), gl_timed_out = False\<rparr>"

lemma demo_hits: "glob_hits demo_glob (demo_disk ''v'') ''/p'' (\<lambda>_. True) [] False = [(''/p/a'', 1), (''/p/b'', 2)]"
  by code_simp

theorem glob_lists_newest_witness:
  "\<exists>listed note. glob_search demo_glob (demo_disk ''v'') ''/p'' ''*'' [] False = Inr (join [NL] (map fst listed) @ note)
    \<and> sorted_wrt (\<lambda>a b. snd b \<le> snd a) listed \<and> set listed = {(''/p/a'', 1 :: int), (''/p/b'', 2)}"
proof -
  have "gl_compile demo_glob ''*'' = Inr (\<lambda>_. True)" by (simp add: demo_glob_def)
  from glob_lists_newest [OF this demo_hits list.distinct(2)] obtain listed rest added where l:
    "glob_search demo_glob (demo_disk ''v'') ''/p'' ''*'' [] False = Inr (join [NL] (map fst listed) @ added)"
    "mset listed + mset rest = mset [(''/p/a'', 1 :: int), (''/p/b'', 2)]" "rest \<noteq> [] \<longrightarrow> length listed = glob_max_results"
    "sorted_wrt (\<lambda>a b. snd b \<le> snd a) listed"
    by blast
  from arg_cong [OF l(2), of size] l(3) have "rest = []" by (auto simp: glob_max_results_def)
  with l(2) have "mset listed = mset [(''/p/a'', 1 :: int), (''/p/b'', 2)]" by simp
  from mset_eq_setD [OF this] have "set listed = {(''/p/a'', 1 :: int), (''/p/b'', 2)}" by simp
  with l(1,4) show ?thesis by blast
qed

theorem saved_output_already_cut_witness:
  "\<exists>saved. length (str_lines saved) \<le> 2003
    \<and> tr_output (snd (snd (run_tool (demo_env JNull None) ''c''
        (bash_tool (\<lambda>_ _ _ d. (d, Exited \<lparr>po_code = Some 0, po_stdout = replicate 5000 NL, po_stderr = []\<rparr>)))
        (JObj [(''command'', JStr ''yes'')]) demo_context demo_world))) =
      snd (truncate_and_persist (\<lambda>_. None) saved max_tool_output_lines max_tool_output_bytes ''/p'' ''c'' (w_disk demo_world))"
proof -
  let ?p = "\<lparr>po_code = Some 0, po_stdout = replicate 5000 NL, po_stderr = []\<rparr>"
  let ?a = "JObj [(''command'', JStr ''yes'')]"
  have "json_get_str ?a ''command'' = Some ''yes''" by (simp add: json_get_str_def)
  from saved_output_already_cut [OF this, of "\<lambda>_ _ _ d. (d, Exited ?p)" demo_context demo_world "w_disk demo_world" ?p
      "demo_env JNull None" "''c''"]
  obtain saved where "length (str_lines saved) \<le> 2003"
    "(w_disk (fst (run_tool (demo_env JNull None) ''c'' (bash_tool (\<lambda>_ _ _ d. (d, Exited ?p))) ?a demo_context demo_world)),
      tr_output (snd (snd (run_tool (demo_env JNull None) ''c'' (bash_tool (\<lambda>_ _ _ d. (d, Exited ?p))) ?a demo_context demo_world)))) =
     truncate_and_persist (te_git_dir (demo_env JNull None)) saved max_tool_output_lines max_tool_output_bytes
       (cx_working_dir demo_context) ''c'' (w_disk demo_world)"
    by blast
  moreover have "te_git_dir (demo_env JNull None) = (\<lambda>_. None)" "cx_working_dir demo_context = ''/p''"
    by (simp_all add: demo_env_def demo_context_def)
  ultimately show ?thesis by (metis snd_conv)
qed

end
