(* ===== verification/SystemPrompt.thy ===== *)
theory SystemPrompt
  imports Skills Subagents Desktop
begin

text \<open>
  The system prompt and the configuration of a run: \<open>crates/agent/src/agent/prompt.rs\<close>, \<open>AgentConfig::new\<close> of
  \<open>agent/config.rs\<close> and \<open>build_agent_config\<close> of \<open>agent_bridge/commands.rs\<close> with the note about existing plans of
  \<open>run_agent_turn\<close>. The texts of the templates, which are files included at compile time, the date, the names of
  the operating system and of the architecture are parameters.
\<close>

section \<open>The system prompt\<close>

record prompt_env =
  pe_template :: "tool_mode \<Rightarrow> str"
  pe_date :: str
  pe_os :: str
  pe_arch :: str

abbreviation EMDASH :: str where "EMDASH \<equiv> [CHR 0xE2, CHR 0x80, CHR 0x94]"

definition index_prompt_block :: str where
  "index_prompt_block =
     ''# Codebase Index (semantic search '' @ EMDASH @ '' PREFER THIS for finding code)'' @ [NL]
     @ [NL]
     @ ''This project is indexed. Two extra tools are available and are faster and more accurate ''
     @ ''than grep/glob for locating code:'' @ [NL]
     @ [NL]
     @ ''- `codebase_search` '' @ EMDASH @ '' semantic, AI-ranked search across the whole codebase. Handles ''
     @ ''conceptual queries (e.g. '' @ [DQUOTE] @ ''color parsing'' @ [DQUOTE] @ '', '' @ [DQUOTE] @ ''rate limiting logic''
     @ [DQUOTE] @ '') and finds relevant ''
     @ ''code even when you don'' @ [QUOTE] @ ''t know the exact symbol or string.'' @ [NL]
     @ ''- `codebase_graph` '' @ EMDASH @ '' call/dependency graph: find a function'' @ [QUOTE] @ ''s callers, callees, ''
     @ ''definitions, and references.'' @ [NL]
     @ [NL]
     @ ''Exploration workflow (this OVERRIDES the grep/glob guidance in the sections below): when ''
     @ ''you need to find where something is implemented or understand how a feature works, call ''
     @ ''`codebase_search` FIRST (and `codebase_graph` for relationships), then `read` the files it ''
     @ ''points to. Use `grep`/`glob` only for exact-string matches, or if the index tool reports ''
     @ ''it is unavailable.'' @ [NL]"

definition skills_header :: str where
  "skills_header =
     ''# Available Skills'' @ [NL]
     @ ''Skills are instruction packs loaded on demand via the `skill` tool. ''
     @ ''The descriptions below are a MENU '' @ EMDASH @ '' they do not contain the rules ''
     @ ''themselves. Whenever a task matches a skill by name, topic, or ''
     @ ''intent '' @ EMDASH @ '' or the user explicitly mentions one '' @ EMDASH @ '' CALL THE `skill` ''
     @ ''TOOL FIRST and follow the body verbatim. Do not guess at the rules ''
     @ ''from the description. Skip the tool only when no skill below is ''
     @ ''clearly relevant.'' @ [NL, NL]
     @ ''Available:'' @ [NL]"

definition subagents_header :: str where
  "subagents_header =
     ''# Available Subagents'' @ [NL]
     @ ''Subagents currently enabled for this turn (see '' @ [DQUOTE] @ ''Default Subagents'' @ [DQUOTE] @ '' ''
     @ ''in the main prompt for routing guidance):'' @ [NL]"

definition entry_lines :: "(str \<times> str) list \<Rightarrow> str" where
  "entry_lines es = concat (map (\<lambda>(name, description). ''- '' @ name @ '': '' @ description @ [NL]) es)"

definition combined_entries :: "(str \<times> str) list \<Rightarrow> (str \<times> str) list \<Rightarrow> str" where
  "combined_entries skills subagents =
     (let combined = (if skills \<noteq> [] then skills_header @ entry_lines skills else [])
      in if subagents \<noteq> []
         then (if combined \<noteq> [] then combined @ [NL] else combined) @ subagents_header @ entry_lines subagents
         else combined)"

definition environment_section :: "prompt_env \<Rightarrow> str \<Rightarrow> str option \<Rightarrow> str option \<Rightarrow> str" where
  "environment_section env working_dir branch project_note =
     ''# Environment'' @ [NL] @ ''- Working directory: '' @ working_dir @ [NL]
     @ (case branch of None \<Rightarrow> [] | Some b \<Rightarrow> ''- Git branch: '' @ b @ [NL])
     @ (case project_note of None \<Rightarrow> [] | Some n \<Rightarrow> ''- '' @ n @ [NL])
     @ ''- Date: '' @ pe_date env @ [NL]
     @ ''- OS: '' @ pe_os env @ ''/'' @ pe_arch env @ [NL]"

definition cached :: "str \<Rightarrow> system_block" where
  "cached t = \<lparr>sb_text = t, sb_cache_control = Some ephemeral\<rparr>"

definition build_system_prompt :: "prompt_env \<Rightarrow> tool_mode \<Rightarrow> str \<Rightarrow> str option \<Rightarrow> str option
    \<Rightarrow> skill_registry option \<Rightarrow> subagent_registry option \<Rightarrow> bool \<Rightarrow> system_block list" where
  "build_system_prompt env mode working_dir branch project_note skills subagents context_engine_enabled =
     (let static_body = replace_sub (pe_template env mode) ''{{working_dir}}'' working_dir;
          skills_entries = (case skills of None \<Rightarrow> [] | Some r \<Rightarrow> skills_for_prompt r);
          subagents_entries = (case subagents of None \<Rightarrow> [] | Some r \<Rightarrow> subagents_for_prompt r)
      in [cached static_body]
         @ (if context_engine_enabled then [cached index_prompt_block] else [])
         @ (if skills_entries \<noteq> [] \<or> subagents_entries \<noteq> []
            then [cached (combined_entries skills_entries subagents_entries)] else [])
         @ [\<lparr>sb_text = environment_section env working_dir branch project_note, sb_cache_control = None\<rparr>])"

section \<open>The configuration of a run\<close>

text \<open>The prompt of \<open>build_agent_config\<close>: the user's instructions go behind the first block, a last block is added.\<close>

definition insert_at :: "nat \<Rightarrow> 'a \<Rightarrow> 'a list \<Rightarrow> 'a list" where
  "insert_at i x xs = take i xs @ x # drop i xs"

definition instructions_block :: "str \<Rightarrow> system_block" where
  "instructions_block instructions =
     cached (''# User'' @ [QUOTE] @ ''s Custom Instructions'' @ [NL]
       @ ''The user has provided the following instructions. Follow them carefully throughout this session.''
       @ [NL, NL] @ instructions @ [NL])"

definition style_block :: system_block where
  "style_block =
     cached (''# Conversation Style'' @ [NL]
       @ ''Respond as a conversational assistant. After using tools, provide a short, natural-language update. ''
       @ ''Never output raw tool-call JSON or internal protocol payloads (for example {'' @ [DQUOTE] @ ''name'' @ [DQUOTE]
       @ '': ..., '' @ [DQUOTE] @ ''arguments'' @ [DQUOTE] @ '': ...}) as your final reply.'' @ [NL])"

definition given_instructions :: "str option \<Rightarrow> str option" where
  "given_instructions user_instructions =
     (case map_option trim user_instructions of
        Some s \<Rightarrow> if s \<noteq> [] then Some s else None
      | None \<Rightarrow> None)"

definition session_prompt :: "str option \<Rightarrow> system_block list \<Rightarrow> system_block list" where
  "session_prompt user_instructions blocks =
     (case given_instructions user_instructions of
        None \<Rightarrow> blocks
      | Some s \<Rightarrow> insert_at (min (length blocks) 1) (instructions_block s) blocks) @ [style_block]"

text \<open>
  The fields of \<open>AgentConfig\<close> that \<open>agent_config\<close> leaves to the host of the loop. The delays of the retries take no
  part in the model.
\<close>

record run_config =
  rn_llm :: llm_client_config
  rn_mode :: tool_mode
  rn_loop :: agent_config
  rn_compaction_llm :: "llm_client_config option"
  rn_engine_repo :: "str option"
  rn_skills :: "skill_registry option"
  rn_subagents :: "subagent_registry option"
  rn_extra_tools :: "tool list"

text \<open>The threshold, a product of floating-point numbers, is a parameter.\<close>

definition default_compaction :: "(nat \<Rightarrow> nat) \<Rightarrow> compaction_config" where
  "default_compaction threshold =
     \<lparr>cc_context_limit = 128000, cc_auto_compact = True, cc_threshold = threshold,
      cc_keep_recent_messages = 10, cc_max_messages = 10000\<rparr>"

definition default_max_retries :: u32 where "default_max_retries = 3"

definition new_run_config :: "(nat \<Rightarrow> nat) \<Rightarrow> llm_client_config \<Rightarrow> str \<Rightarrow> run_config" where
  "new_run_config threshold llm working_dir =
     \<lparr>rn_llm = llm, rn_mode = CodingMode,
      rn_loop = \<lparr>ac_working_dir = working_dir, ac_max_iterations = 100, ac_system_prompt = None,
        ac_max_retries = default_max_retries, ac_compaction = default_compaction threshold,
        ac_checkpoint_on = False, ac_tool_policy = default_policy\<rparr>,
      rn_compaction_llm = None, rn_engine_repo = None, rn_skills = None, rn_subagents = None, rn_extra_tools = []\<rparr>"

definition compaction_client :: "provider_config \<Rightarrow> str \<Rightarrow> (provider_config \<times> str) option \<Rightarrow> llm_client_config" where
  "compaction_client main_provider main_model compaction =
     (case compaction of
        Some (p, m) \<Rightarrow> provider_to_llm_config p m
      | None \<Rightarrow> provider_to_llm_config main_provider main_model)\<lparr>lc_disable_cache_control := True\<rparr>"

text \<open>\<open>engine_repo\<close> is the path of the repository in the configuration of the context engine, where it is enabled.\<close>

definition build_agent_config :: "prompt_env \<Rightarrow> (nat \<Rightarrow> nat) \<Rightarrow> provider_config \<Rightarrow> str \<Rightarrow> (provider_config \<times> str) option
    \<Rightarrow> str \<Rightarrow> tool_mode \<Rightarrow> nat option \<Rightarrow> str option \<Rightarrow> skill_registry option \<Rightarrow> subagent_registry option
    \<Rightarrow> str option \<Rightarrow> str option \<Rightarrow> tool list \<Rightarrow> run_config" where
  "build_agent_config env threshold main_provider main_model compaction working_dir mode context_limit project_note
       skills subagents engine_repo user_instructions extra_tools =
     (let c = new_run_config threshold (provider_to_llm_config main_provider main_model) working_dir;
          lp = rn_loop c;
          blocks = build_system_prompt env mode (ac_working_dir lp) None project_note skills subagents (engine_repo \<noteq> None)
      in c\<lparr>rn_mode := mode, rn_skills := skills, rn_subagents := subagents, rn_engine_repo := engine_repo,
           rn_compaction_llm := Some (compaction_client main_provider main_model compaction),
           rn_extra_tools := extra_tools,
           rn_loop := lp\<lparr>ac_compaction := size_context context_limit (ac_compaction lp), ac_checkpoint_on := True,
             ac_system_prompt := Some (session_prompt user_instructions blocks),
             ac_max_iterations := turn_iterations mode (ac_max_iterations lp)\<rparr>\<rparr>)"

section \<open>The note about existing plans\<close>

definition existing_plans :: "dir_listing \<Rightarrow> str \<Rightarrow> str list" where
  "existing_plans read_dir work_dir =
     map (\<lambda>n. ''.agent/'' @ n)
       (filter (\<lambda>n. starts_with n ''plan'' \<and> ends_with n ''.md'')
         (case read_dir (components (path_join work_dir ''.agent'')) of None \<Rightarrow> [] | Some ns \<Rightarrow> ns))"

definition project_note_of :: "tool_mode \<Rightarrow> dir_listing \<Rightarrow> str \<Rightarrow> str option" where
  "project_note_of mode read_dir work_dir =
     (if mode = PlanMode then
        (let existing = existing_plans read_dir work_dir in
         if existing = [] then None
         else Some (''EXISTING PLAN FILES: '' @ join '', '' existing
                @ ''. If this request refines an existing plan, use edit_plan; ''
                @ ''otherwise ask the user whether to replace it or create a new plan file.''))
      else None)"

section \<open>Cache breakpoints of a request\<close>

text \<open>The marks a request to Anthropic carries: on blocks of the system prompt, on blocks of messages, on tools.\<close>

definition is_marked :: "cache_control option \<Rightarrow> bool" where
  "is_marked cc \<longleftrightarrow> cc \<noteq> None"

fun block_marks :: "anthropic_block \<Rightarrow> nat" where
  "block_marks (AnText t cc) = of_bool (is_marked cc)"
| "block_marks (AnToolResult i c cc) = of_bool (is_marked cc)"
| "block_marks b = 0"

definition message_marks :: "anthropic_message list \<Rightarrow> nat" where
  "message_marks ms = sum_list (map block_marks (concat (map an_content ms)))"

fun system_marks :: "anthropic_system option \<Rightarrow> nat" where
  "system_marks (Some (SystemBlocks segments)) = length (filter (\<lambda>(t, cc). is_marked cc) segments)"
| "system_marks _ = 0"

definition tool_marks :: "anthropic_tool list option \<Rightarrow> nat" where
  "tool_marks tools = (case tools of None \<Rightarrow> 0 | Some ts \<Rightarrow> length (filter (\<lambda>t. is_marked (at_cache_control t)) ts))"

definition breakpoints :: "anthropic_request \<Rightarrow> nat" where
  "breakpoints r = system_marks (ar_system r) + message_marks (ar_messages r) + tool_marks (ar_tools r)"

end
