(* ===== verification/SystemPromptFacts.thy ===== *)
theory SystemPromptFacts
  imports SystemPrompt LlmClientFacts
begin

text \<open>
  The layout of the system prompt and how many cache breakpoints a request to Anthropic carries: those of the
  prompt, one on the last tool and one on the last block of the conversation.
\<close>

section \<open>Layout\<close>

definition leading_blocks :: "prompt_env \<Rightarrow> tool_mode \<Rightarrow> str \<Rightarrow> skill_registry option \<Rightarrow> subagent_registry option
    \<Rightarrow> bool \<Rightarrow> str option \<Rightarrow> system_block list" where
  "leading_blocks env mode working_dir skills subagents engine ui =
     (let sk = (case skills of None \<Rightarrow> [] | Some r \<Rightarrow> skills_for_prompt r);
          sa = (case subagents of None \<Rightarrow> [] | Some r \<Rightarrow> subagents_for_prompt r)
      in cached (replace_sub (pe_template env mode) ''{{working_dir}}'' working_dir)
         # (case given_instructions ui of None \<Rightarrow> [] | Some s \<Rightarrow> [instructions_block s])
         @ (if engine then [cached index_prompt_block] else [])
         @ (if sk \<noteq> [] \<or> sa \<noteq> [] then [cached (combined_entries sk sa)] else []))"

lemma session_prompt_blocks:
  "session_prompt ui (build_system_prompt env mode wd br note sk sa ce)
     = leading_blocks env mode wd sk sa ce ui
       @ [\<lparr>sb_text = environment_section env wd br note, sb_cache_control = None\<rparr>, style_block]"
  by (simp add: session_prompt_def build_system_prompt_def leading_blocks_def insert_at_def Let_def split: option.split)

lemma leading_cached: "b \<in> set (leading_blocks env mode wd sk sa ce ui) \<Longrightarrow> sb_cache_control b = Some ephemeral"
  by (auto simp: leading_blocks_def cached_def instructions_block_def Let_def split: option.splits if_splits)

lemma leading_date [simp]:
  "leading_blocks (env\<lparr>pe_date := d, pe_os := os, pe_arch := arch\<rparr>) mode wd sk sa ce ui = leading_blocks env mode wd sk sa ce ui"
  by (simp add: leading_blocks_def)

lemma run_prompt:
  "ac_system_prompt (rn_loop (build_agent_config env th mp mm co wd mode lim note sk sa er ui xt))
     = Some (leading_blocks env mode wd sk sa (er \<noteq> None) ui
         @ [\<lparr>sb_text = environment_section env wd None note, sb_cache_control = None\<rparr>, style_block])"
  by (simp add: build_agent_config_def new_run_config_def Let_def session_prompt_blocks)

text \<open>
  The system prompt of a run: the blocks that stay the same from day to day come first and are all marked for
  the cache, then comes the environment with the date, unmarked; but the last block, behind the date, is marked
  again, so that the prefix that ends with it is a different one every day.
\<close>

theorem prompt_cached_but_environment:
  "\<exists>lead. ac_system_prompt (rn_loop (build_agent_config env th mp mm co wd mode lim note sk sa er ui xt))
       = Some (lead @ [\<lparr>sb_text = environment_section env wd None note, sb_cache_control = None\<rparr>, style_block])
     \<and> ac_system_prompt (rn_loop (build_agent_config (env\<lparr>pe_date := d\<rparr>) th mp mm co wd mode lim note sk sa er ui xt))
       = Some (lead @ [\<lparr>sb_text = environment_section (env\<lparr>pe_date := d\<rparr>) wd None note, sb_cache_control = None\<rparr>, style_block])
     \<and> hd lead = cached (replace_sub (pe_template env mode) ''{{working_dir}}'' wd)
     \<and> set (map sb_cache_control lead) = {Some ephemeral}
     \<and> sb_cache_control style_block = Some ephemeral"
proof -
  let ?lead = "leading_blocks env mode wd sk sa (er \<noteq> None) ui"
  have "leading_blocks (env\<lparr>pe_date := d\<rparr>) mode wd sk sa (er \<noteq> None) ui = ?lead"
    by (simp add: leading_blocks_def)
  moreover have h: "?lead \<noteq> []" "hd ?lead = cached (replace_sub (pe_template env mode) ''{{working_dir}}'' wd)"
    by (simp_all add: leading_blocks_def Let_def)
  moreover have "set (map sb_cache_control ?lead) = {Some ephemeral}"
    using h(1) leading_cached [of _ env mode wd sk sa "er \<noteq> None" ui] by (cases ?lead) auto
  ultimately show ?thesis by (intro exI [of _ ?lead]) (simp add: run_prompt style_block_def cached_def)
qed

section \<open>Breakpoints\<close>

lemma is_marked_simps [simp]: "\<not> is_marked None" "is_marked (Some cc)"
  by (simp_all add: is_marked_def)

lemma marked_prompt:
  "length (filter (\<lambda>b. is_marked (sb_cache_control b)) (leading_blocks env mode wd sk sa ce ui))
     = 1 + of_bool (given_instructions ui \<noteq> None) + of_bool ce
       + of_bool ((case sk of None \<Rightarrow> [] | Some r \<Rightarrow> skills_for_prompt r) \<noteq> []
                  \<or> (case sa of None \<Rightarrow> [] | Some r \<Rightarrow> subagents_for_prompt r) \<noteq> [])"
  by (simp add: leading_blocks_def Let_def cached_def instructions_block_def split: option.split)

lemma prompt_nonempty [simp]: "skills_for_prompt r = [] \<longleftrightarrow> r = []" "subagents_for_prompt q = [] \<longleftrightarrow> q = []"
  by (simp_all add: skills_for_prompt_def subagents_for_prompt_def flip: length_0_conv)

lemma tools_marked:
  "lc_disable_cache_control config = False \<Longrightarrow>
   tool_marks (ar_tools (build_anthropic_request parse ms tools config)) = of_bool (tools \<noteq> [])"
proof -
  have "filter (\<lambda>t. is_marked (at_cache_control t)) (map translate_tool ts) = []" for ts
    by (simp add: translate_tool_def is_marked_def)
  then show "lc_disable_cache_control config = False \<Longrightarrow> ?thesis"
    by (simp add: tool_marks_def build_anthropic_request_def Let_def map_last_def flip: map_butlast)
qed

lemma system_marked:
  "lc_disable_cache_control config = False \<Longrightarrow>
   system_marks (ar_system (build_anthropic_request parse
     (plain_message ''system'' (Some (Blocks (map (\<lambda>b. TextBlock (sb_text b) (sb_cache_control b)) blocks)))
        # user_message t # []) tools config))
   = length (filter (\<lambda>b. is_marked (sb_cache_control b)) blocks)"
proof -
  have m: "List.map_filter (\<lambda>b. case b of TextBlock t cc \<Rightarrow> Some (t, cc) | _ \<Rightarrow> None)
       (map (\<lambda>b. TextBlock (sb_text b) (sb_cache_control b)) bs) = map (\<lambda>b. (sb_text b, sb_cache_control b)) bs" for bs
    by (induction bs) (simp_all add: List.map_filter_simps)
  have "length (filter (\<lambda>(t, cc). is_marked cc) (map (\<lambda>b. (sb_text b, sb_cache_control b)) blocks))
      = length (filter (\<lambda>b. is_marked (sb_cache_control b)) blocks)"
    by (simp add: filter_map o_def)
  moreover have "\<not> list_ex (\<lambda>(t, cc). cc \<noteq> None) (map (\<lambda>b. (sb_text b, sb_cache_control b)) blocks)
      \<Longrightarrow> filter (\<lambda>b. is_marked (sb_cache_control b)) blocks = []"
    by (auto simp: list_ex_iff filter_empty_conv)
  ultimately show "lc_disable_cache_control config = False \<Longrightarrow> ?thesis"
    by (simp add: build_anthropic_request_def Let_def extract_system_def system_segments_def plain_message_def
        user_message_def cache_if_def m)
qed

lemma first_message_marked:
  "lc_disable_cache_control config = False \<Longrightarrow> cm_role s = ''system'' \<Longrightarrow>
   message_marks (ar_messages (build_anthropic_request parse [s, user_message t] tools config)) = 1"
  by (simp add: build_anthropic_request_def Let_def user_message_def plain_message_def flush_results_def
      merge_adjacent_roles_def merge_step_def mark_last_block_def map_last_def translate_user_def message_marks_def
      is_marked_def)

lemma first_history_kept:
  "cm_role s = ''system'' \<Longrightarrow> sanitize_orphaned_tool_results [s, user_message t] = [s, user_message t]"
  by (simp add: sanitize_orphaned_tool_results_def known_result_def user_message_def plain_message_def)

text \<open>
  C19. The first request of a run to Anthropic carries one breakpoint for the mode's text, one for the style
  block, one for the message, and one each for the user's instructions, the index, the skills and subagents
  and the tools, where there are any. Anthropic documents that it accepts at most four: with a skill or a
  subagent and a tool there are at least five.
\<close>

theorem first_request_breakpoints:
  "(let c = build_agent_config env th mp mm co wd mode lim note sk sa er ui xt
    in breakpoints (anthropic_body parse (rn_llm c)
         (initial_messages (ac_system_prompt (rn_loop c)) @ [user_message t]) tools))
   = 3 + of_bool (given_instructions ui \<noteq> None) + of_bool (er \<noteq> None)
     + (if sk \<in> {None, Some []} \<and> sa \<in> {None, Some []} then 0 else 1) + of_bool (tools \<noteq> [])"
proof -
  let ?c = "build_agent_config env th mp mm co wd mode lim note sk sa er ui xt"
  let ?blocks = "leading_blocks env mode wd sk sa (er \<noteq> None) ui
      @ [\<lparr>sb_text = environment_section env wd None note, sb_cache_control = None\<rparr>, style_block]"
  let ?s = "plain_message ''system'' (Some (Blocks (map (\<lambda>b. TextBlock (sb_text b) (sb_cache_control b)) ?blocks)))"
  have cfg: "lc_disable_cache_control (rn_llm ?c) = False"
    by (simp add: build_agent_config_def new_run_config_def provider_to_llm_config_def Let_def)
  have h: "initial_messages (ac_system_prompt (rn_loop ?c)) = [?s]"
    by (simp add: run_prompt initial_messages_def leading_blocks_def Let_def)
  have role: "cm_role ?s = ''system''" by (simp add: plain_message_def)
  have "system_marks (ar_system (build_anthropic_request parse [?s, user_message t] tools (rn_llm ?c)))
      = 2 + of_bool (given_instructions ui \<noteq> None) + of_bool (er \<noteq> None)
        + (if sk \<in> {None, Some []} \<and> sa \<in> {None, Some []} then 0 else 1)"
    unfolding system_marked [OF cfg]
    by (simp add: marked_prompt style_block_def cached_def split: option.split)
  then show ?thesis
    by (simp only: Let_def h append.simps anthropic_body_def first_history_kept [OF role] breakpoints_def
        first_message_marked [OF cfg role] tools_marked [OF cfg])
qed

end
