(* ===== verification/DesktopContext.thy ===== *)
theory DesktopContext
  imports Desktop LlmClient CheckpointDiff
begin

text \<open>
  The remaining session commands of \<open>agent_bridge/commands.rs\<close>: user messages with attachments, the use of the
  context, clearing and compacting it by hand, titles, the check of a key, checkpoints, starting from a plan and
  the small commands over the tables. The HTTP client is a parameter, one for each request where several are
  made. \<open>chat_completion\<close> sends a piece of text into a bounded channel as it arrives; these commands hold its
  receiver and never read it. A channel is its places, what waits in it and whether its receiver is there: as
  \<open>tokio\<close> documents, sending waits while the channel is full and fails once the receiver is dropped.
\<close>

section \<open>User messages\<close>

record attachment_payload =
  ap_url :: str
  ap_file_name :: str
  ap_media_type :: str

text \<open>\<open>fetch\<close>: no answer, or a status and the body, unless it cannot be read.\<close>

type_synonym fetcher = "str \<Rightarrow> (16 word \<times> str option) option"

definition fetch_attachment_as_data_url :: "fetcher \<Rightarrow> media_env \<Rightarrow> str \<Rightarrow> str \<Rightarrow> str" where
  "fetch_attachment_as_data_url fetch me url media_type =
     (if starts_with url ''data:'' then url
      else case fetch url of
        Some (status, body) \<Rightarrow>
          if is_success status
          then (case body of
                  Some raw_bytes \<Rightarrow> ''data:'' @ media_type @ '';base64,'' @ me_encode me raw_bytes
                | None \<Rightarrow> url)
          else url
      | None \<Rightarrow> url)"

definition is_media :: "attachment_payload \<Rightarrow> bool" where
  "is_media a \<longleftrightarrow> starts_with (ap_media_type a) ''image/'' \<or> starts_with (ap_media_type a) ''video/''"

definition attachment_block :: "fetcher \<Rightarrow> media_env \<Rightarrow> attachment_payload \<Rightarrow> content_block" where
  "attachment_block fetch me a =
     (let data_url = fetch_attachment_as_data_url fetch me (ap_url a) (ap_media_type a) in
      if starts_with (ap_media_type a) ''video/'' then VideoUrl \<lparr>mu_url = data_url, mu_detail = None\<rparr>
      else ImageUrl \<lparr>mu_url = data_url, mu_detail = Some ''auto''\<rparr>)"

definition build_user_message :: "fetcher \<Rightarrow> media_env \<Rightarrow> str \<Rightarrow> attachment_payload list option \<Rightarrow> chat_message" where
  "build_user_message fetch me t attachments =
     (let media = filter is_media (case attachments of None \<Rightarrow> [] | Some atts \<Rightarrow> atts) in
      if media = [] then user_message t
      else user_with_media (TextBlock t None # map (attachment_block fetch me) media))"

section \<open>Completions that nobody reads\<close>

datatype 'a command_result = CommandPanics | CommandHangs | Returns 'a

record 'e channel =
  ch_places :: nat
  ch_queue :: "'e list"
  ch_receiver :: bool

datatype 'e sending = Sent "'e channel" | SendFails | SendWaits

definition new_channel :: "nat \<Rightarrow> 'e channel" where
  "new_channel n = \<lparr>ch_places = n, ch_queue = [], ch_receiver = True\<rparr>"

definition channel_send :: "'e \<Rightarrow> 'e channel \<Rightarrow> 'e sending" where
  "channel_send e ch =
     (if \<not> ch_receiver ch then SendFails
      else if length (ch_queue ch) < ch_places ch then Sent (ch\<lparr>ch_queue := ch_queue ch @ [e]\<rparr>)
      else SendWaits)"

text \<open>A completion with pieces still to send, beside a channel that may have a reader. A send that fails is
  ignored, as the parsers of the streams do.\<close>

inductive channel_step :: "bool \<Rightarrow> 'e list \<times> 'e channel \<Rightarrow> 'e list \<times> 'e channel \<Rightarrow> bool" for reads where
  send: "channel_send e ch = Sent ch' \<Longrightarrow> channel_step reads (e # es, ch) (es, ch')"
| fails: "channel_send e ch = SendFails \<Longrightarrow> channel_step reads (e # es, ch) (es, ch)"
| recv: "reads \<Longrightarrow> ch_queue ch = x # q \<Longrightarrow> channel_step reads (es, ch) (es, ch\<lparr>ch_queue := q\<rparr>)"

inductive_cases channel_step_cases: "channel_step reads (es, ch) x"

text \<open>Without a reader: the channel afterwards and the pieces that could not be sent.\<close>

fun send_all :: "'e list \<Rightarrow> 'e channel \<Rightarrow> 'e channel \<times> 'e list" where
  "send_all [] ch = (ch, [])"
| "send_all (e # es) ch =
     (case channel_send e ch of
        Sent ch' \<Rightarrow> send_all es ch'
      | SendFails \<Rightarrow> send_all es ch
      | SendWaits \<Rightarrow> (ch, e # es))"

text \<open>A completion that the command waits for while it holds the receiver.\<close>

definition silent_completion :: "agent_event channel \<Rightarrow> http_env \<Rightarrow> llm_client_config \<Rightarrow> chat_message list \<Rightarrow> str
    \<Rightarrow> agent_event channel \<times> (agent_error + llm_response) command_result" where
  "silent_completion tx env config ms session_id =
     (case client_chat_completion env config ms [] session_id False of
        None \<Rightarrow> (tx, CommandPanics)
      | Some (events, result) \<Rightarrow>
          (case send_all events tx of
             (tx', []) \<Rightarrow> (tx', Returns result)
           | (tx', _ # _) \<Rightarrow> (tx', CommandHangs)))"

section \<open>Context\<close>

record context_usage_response =
  cu_total_tokens :: u32
  cu_context_limit :: "u32 option"
  cu_message_count :: u32

definition row_model :: "desktop_env \<Rightarrow> session_row \<Rightarrow> str + (provider_config \<times> str)" where
  "row_model env row = session_model (dv_settings env) (se_provider_id row) (se_model row)"

definition context_usage_command :: "desktop_env \<Rightarrow> str \<Rightarrow> desktop \<Rightarrow> context_usage_response option" where
  "context_usage_command env sid st =
     (let current_limit =
        (case map_option (row_model env) (get_row sid st) of
           Some (Inr (provider, model)) \<Rightarrow>
             map_option word_of_nat (ca_context_limit (resolve_capability (dv_registry env) provider model))
         | _ \<Rightarrow> None)
      in map_option (\<lambda>(t, _, m). \<lparr>cu_total_tokens = t, cu_context_limit = current_limit, cu_message_count = m\<rparr>)
           (get_context_usage (dv_json env) sid (as_table (dk_store st))))"

definition session_folder :: "str \<Rightarrow> desktop \<Rightarrow> str" where
  "session_folder sid st = (case get_row sid st of None \<Rightarrow> [] | Some row \<Rightarrow> se_folder row)"

definition set_table :: "message_table \<Rightarrow> desktop \<Rightarrow> desktop" where
  "set_table tbl st = st\<lparr>dk_store := (dk_store st)\<lparr>as_table := tbl\<rparr>\<rparr>"

definition clear_context :: "str \<Rightarrow> str \<Rightarrow> desktop \<Rightarrow> desktop" where
  "clear_context now sid st =
     set_table (insert_context_reset now sid (session_folder sid st) (as_table (dk_store st))) st"

definition manual_instruction :: str where
  "manual_instruction =
     ''Summarize this conversation. Structure: ## Goal, ## Key Decisions, ## Work Completed, ''
     @ ''## Current State, ## Relevant Files. Preserve exact file paths, function names, error ''
     @ ''messages, and technical details. Be concise but complete.''"

definition no_model_compact_msg :: str where
  "no_model_compact_msg = ''No model selected. Pick one in Settings.''"

definition compaction_model :: "desktop_env \<Rightarrow> str \<Rightarrow> desktop \<Rightarrow> str + (provider_config \<times> str)" where
  "compaction_model env sid st =
     (case Option.bind (ms_compaction (read_selection (dv_settings env))) (resolve_ref (dv_settings env)) of
        Some pm \<Rightarrow> Inr pm
      | None \<Rightarrow>
          (case get_row sid st of
             None \<Rightarrow> Inl no_model_compact_msg
           | Some row \<Rightarrow> row_model env row))"

text \<open>The attempts, one HTTP client each, with one channel for all of them.\<close>

definition summary_text :: "agent_error + llm_response \<Rightarrow> str option" where
  "summary_text result =
     (case result of
        Inl _ \<Rightarrow> None
      | Inr response \<Rightarrow>
          (let t = (case lr_content response of None \<Rightarrow> [] | Some c \<Rightarrow> c) in
           if trim t \<noteq> [] then Some t else None))"

fun summarize :: "agent_event channel \<Rightarrow> http_env list \<Rightarrow> llm_client_config \<Rightarrow> chat_message list \<Rightarrow> str
    \<Rightarrow> str option command_result" where
  "summarize tx [] config ms sid = Returns None"
| "summarize tx (env # envs) config ms sid =
     (case silent_completion tx env config ms sid of
        (_, CommandPanics) \<Rightarrow> CommandPanics
      | (_, CommandHangs) \<Rightarrow> CommandHangs
      | (tx', Returns result) \<Rightarrow>
          (case summary_text result of
             Some t \<Rightarrow> Returns (Some t)
           | None \<Rightarrow> summarize tx' envs config ms sid))"

definition keep_recent_default :: nat where "keep_recent_default = 10"

definition whole_context :: "desktop_env \<Rightarrow> str \<Rightarrow> desktop \<Rightarrow> chat_message list" where
  "whole_context env sid st =
     deserialize_context (dv_json env) (dv_media env) (as_disk (dk_store st))
       (load_session_messages sid (as_table (dk_store st)))"

definition store_compaction :: "desktop_env \<Rightarrow> str \<Rightarrow> str \<Rightarrow> nat \<Rightarrow> str option \<Rightarrow> desktop \<Rightarrow> str \<times> desktop" where
  "store_compaction env now sid start answer st =
     (let (result_type, summary) =
        (case answer of
           Some t \<Rightarrow> (''compacted'', summary_prefix @ t)
         | None \<Rightarrow> (''truncated'', ''[Earlier context was truncated due to length.]''));
        tbl = fst (insert_compaction (dv_json env) now sid (session_folder sid st) summary (word_of_nat start)
                     (as_table (dk_store st)))
      in (result_type, set_table (delete_context_usage sid tbl) st))"

definition compact_request :: "nat \<Rightarrow> nat \<Rightarrow> chat_message list \<Rightarrow> chat_message list" where
  "compact_request start e ms =
     [system_message manual_instruction, user_message (build_compaction_prompt (drop start (take e ms)))]"

definition compact_context :: "desktop_env \<Rightarrow> http_env \<Rightarrow> http_env \<Rightarrow> str \<Rightarrow> str \<Rightarrow> str \<Rightarrow> desktop
    \<Rightarrow> (str + str) command_result \<times> desktop" where
  "compact_context env attempt1 attempt2 now compact_sid sid st =
     (let ms = whole_context env sid st in
      case compaction_boundaries ms keep_recent_default of
        None \<Rightarrow> (Returns (Inr ''nothing_to_compact''), st)
      | Some (start, e) \<Rightarrow>
          (case compaction_model env sid st of
             Inl err \<Rightarrow> (Returns (Inl err), st)
           | Inr (provider, model) \<Rightarrow>
               (case summarize (new_channel 1) [attempt1, attempt2]
                       ((provider_to_llm_config provider model)\<lparr>lc_disable_cache_control := True\<rparr>)
                       (compact_request start e ms) compact_sid of
                  CommandPanics \<Rightarrow> (CommandPanics, st)
                | CommandHangs \<Rightarrow> (CommandHangs, st)
                | Returns summary \<Rightarrow>
                    (case store_compaction env now sid start summary st of
                       (result_type, st') \<Rightarrow> (Returns (Inr result_type), st')))))"

section \<open>Titles and keys\<close>

definition title_system :: str where
  "title_system =
     ''You are a function that turns a developer'' @ [QUOTE] @ ''s first message into a short coding-session ''
     @ ''title. Output ONLY the title: 3'' @ [CHR 0xE2, CHR 0x80, CHR 0x93]
     @ ''6 words, Title Case, no quotes, no punctuation, no ''
     @ ''preamble. Never ask a question or request clarification '' @ [CHR 0xE2, CHR 0x80, CHR 0x94]
     @ '' if the message is vague, ''
     @ ''title it literally from its words.''"

definition title_messages :: "str \<Rightarrow> chat_message list" where
  "title_messages first_message =
     [system_message title_system,
      user_message ''fix the flaky auth test and add retries'',
      assistant_message (Some ''Fix Flaky Auth Test'') None None,
      user_message ''add a dark mode toggle to the settings page'',
      assistant_message (Some ''Add Dark Mode Toggle'') None None,
      user_message ''why is my build failing with a linker error'',
      assistant_message (Some ''Debug Linker Build Error'') None None,
      user_message ''hey'',
      assistant_message (Some ''New Coding Session'') None None,
      user_message first_message]"

definition title_config :: "provider_config \<Rightarrow> str \<Rightarrow> llm_client_config" where
  "title_config provider model =
     (provider_to_llm_config provider model)\<lparr>lc_max_completion_tokens := Some 32, lc_disable_cache_control := True\<rparr>"

text \<open>The task: the title it finds, and the table with it.\<close>

definition generated_title :: "http_env \<Rightarrow> (str \<Rightarrow> str) \<Rightarrow> str \<Rightarrow> provider_config \<Rightarrow> str \<Rightarrow> str
    \<Rightarrow> str option command_result" where
  "generated_title env lower first_message provider model probe_sid =
     (case snd (silent_completion (new_channel 8) env (title_config provider model) (title_messages first_message) probe_sid) of
        CommandPanics \<Rightarrow> CommandPanics
      | CommandHangs \<Rightarrow> CommandHangs
      | Returns (Inl e) \<Rightarrow> Returns None
      | Returns (Inr resp) \<Rightarrow> Returns (Option.bind (lr_content resp) (clean_title lower)))"

definition title_task :: "http_env \<Rightarrow> (str \<Rightarrow> str) \<Rightarrow> str \<Rightarrow> str \<Rightarrow> str \<Rightarrow> provider_config \<Rightarrow> str \<Rightarrow> str \<Rightarrow> desktop \<Rightarrow> desktop" where
  "title_task env lower now sid first_message provider model probe_sid st =
     (case generated_title env lower first_message provider model probe_sid of
        Returns (Some title) \<Rightarrow> st\<lparr>dk_sessions := set_session_title now sid title (dk_sessions st)\<rparr>
      | _ \<Rightarrow> st)"

definition rejects_key :: "16 word \<Rightarrow> bool" where
  "rejects_key status \<longleftrightarrow> status = 401 \<or> status = 403"

definition key_rejected :: "16 word \<Rightarrow> str" where
  "key_rejected status = ''API key rejected ('' @ to_decimal (unat status) @ '')''"

fun probe_key :: "(str \<Rightarrow> 16 word option) \<Rightarrow> str list \<Rightarrow> str + unit" where
  "probe_key ask [] = Inr ()"
| "probe_key ask (url # urls) =
     (case ask url of
        Some status \<Rightarrow> if rejects_key status then Inl (key_rejected status) else Inr ()
      | None \<Rightarrow> probe_key ask urls)"

definition verify_provider :: "http_env \<Rightarrow> (str \<Rightarrow> 16 word option) \<Rightarrow> str \<Rightarrow> provider_config \<Rightarrow> (str + unit) command_result" where
  "verify_provider env ask sid provider =
     (if pc_api_key provider = [] then Returns (Inr ())
      else case pc_models provider of
        [] \<Rightarrow> Returns (probe_key ask (models_candidate_urls provider))
      | probe_model # _ \<Rightarrow>
          (case snd (silent_completion (new_channel 8) env
                  ((provider_to_llm_config provider probe_model)\<lparr>lc_max_completion_tokens := Some 16\<rparr>)
                  [user_message ''hi''] sid) of
             CommandPanics \<Rightarrow> CommandPanics
           | CommandHangs \<Rightarrow> CommandHangs
           | Returns (Inl (LlmApiError status body)) \<Rightarrow>
               Returns (if rejects_key status then Inl (key_rejected status) else Inr ())
           | Returns _ \<Rightarrow> Returns (Inr ())))"

section \<open>Checkpoints, plans and tables\<close>

definition list_checkpoints_command :: "str \<Rightarrow> desktop \<Rightarrow> turn_info list" where
  "list_checkpoints_command sid st =
     (case list_checkpoints (dk_checkpoints st) sid of Inl _ \<Rightarrow> [] | Inr turns \<Rightarrow> turns)"

definition turn_diff_command :: "(git_error \<Rightarrow> str) \<Rightarrow> str \<Rightarrow> u32 \<Rightarrow> desktop \<Rightarrow> str + diff_output" where
  "turn_diff_command show_err sid n st =
     (case diff_turn (dk_checkpoints st) (as_disk (dk_store st)) sid n of
        Inl e \<Rightarrow> Inl (''Failed to diff turn: '' @ show_err e)
      | Inr d \<Rightarrow> Inr d)"

definition plan_task :: "str \<Rightarrow> str \<Rightarrow> str option \<Rightarrow> str" where
  "plan_task project_path plan_text plan_path =
     (let plan_ref = (case plan_path of None \<Rightarrow> project_path @ ''/.agent/plan.md'' | Some p \<Rightarrow> p) in
      ''Implement the following plan step by step. The full plan also lives at: '' @ plan_ref @ [NL, NL]
      @ ''First, use todo_write to create todos from the plan'' @ [QUOTE] @ ''s implementation steps, then work ''
      @ ''through each one, marking them completed as you go. Edit files in place in the project.'' @ [NL, NL]
      @ ''---'' @ [NL, NL] @ plan_text)"

text \<open>Up to its call of \<open>run_agent_turn\<close>, of which only the claim of the folder follows here.\<close>

definition start_coding_from_plan :: "str \<Rightarrow> str \<Rightarrow> app_settings \<Rightarrow> str \<Rightarrow> str option \<Rightarrow> desktop
    \<Rightarrow> (str + nat) \<times> desktop" where
  "start_coding_from_plan now fresh settings project_path title st =
     (if \<not> path_exists (as_disk (dk_store st)) (components project_path)
      then (Inl (''Project path does not exist: '' @ project_path), st)
      else
        let default = default_session_model settings in
        case create_session now fresh project_path ''coding''
               (Some (case title of None \<Rightarrow> ''Implement plan'' | Some t \<Rightarrow> t)) None
               (map_option mf_provider_id default) (map_option mf_model default) (dk_sessions st) of
          Inl (UniqueViolation i) \<Rightarrow> (Inl (''Failed to create session: UNIQUE constraint failed: sessions.id''), st)
        | Inr tbl \<Rightarrow>
            (let st1 = st\<lparr>dk_sessions := tbl\<rparr> in
             case get_row fresh st1 of
               None \<Rightarrow> (Inl ''Session missing after create'', st1)
             | Some row \<Rightarrow> claim_folder row st1))"

definition rename_command :: "str \<Rightarrow> str \<Rightarrow> str \<Rightarrow> desktop \<Rightarrow> desktop" where
  "rename_command now sid title st = st\<lparr>dk_sessions := set_session_title now sid title (dk_sessions st)\<rparr>"

definition set_model_command :: "str \<Rightarrow> str \<Rightarrow> str \<Rightarrow> str \<Rightarrow> desktop \<Rightarrow> desktop" where
  "set_model_command now sid provider_id model st =
     st\<lparr>dk_sessions := set_session_model now sid provider_id model (dk_sessions st)\<rparr>"

definition list_command :: "desktop \<Rightarrow> session_row list" where
  "list_command st = list_sessions (dk_sessions st)"

text \<open>\<open>shown\<close> stands for the quoted form of a name.\<close>

definition is_valid_name :: "str \<Rightarrow> bool" where
  "is_valid_name name \<longleftrightarrow> 1 \<le> length name \<and> length name \<le> 64
     \<and> list_all (\<lambda>b. let n = of_char b :: nat in (97 \<le> n \<and> n \<le> 122) \<or> (48 \<le> n \<and> n \<le> 57) \<or> b = CHR ''-'') name"

definition set_enabled_command :: "str \<Rightarrow> (str \<Rightarrow> str) \<Rightarrow> str \<Rightarrow> bool \<Rightarrow> prefs \<Rightarrow> (str + unit) \<times> prefs" where
  "set_enabled_command kind shown name enabled ps =
     (if \<not> is_valid_name name then (Inl (''invalid '' @ kind @ '' name: '' @ shown name), ps)
      else (Inr (), set_enabled name enabled ps))"

end
