(* ===== verification/DesktopContextFacts.thy ===== *)
theory DesktopContextFacts
  imports DesktopContext DesktopFacts LlmClientFacts
begin

text \<open>
  What compacting a session by hand does: it only ever stores a summary that arrived in one piece, it waits for
  ever for one that comes in several, and it summarises what has been cleared before.
\<close>

section \<open>Silent completions\<close>

lemma client_text:
  assumes "client_chat_completion env config ms tools sid token = Some (evs, Inr r)"
  shows "delta_text (lr_content r) = text_deltas evs"
proof (cases "lc_provider config")
  case OpenAI
  with assms obtain stream where "parse_sse_stream (he_parse_json env) sid token stream = (evs, Inr r)"
    by (auto simp: client_chat_completion_def chat_completion_openai_def Let_def dest: read_reply_success)
  from openai.read_loop_text [OF this [unfolded parse_sse_stream_def]] show ?thesis
    by (simp add: initial_sse_state_def)
next
  case Anthropic
  with assms obtain stream where "parse_anthropic_sse_stream (he_parse_json env) sid token stream = (evs, Inr r)"
    by (auto simp: client_chat_completion_def chat_completion_anthropic_def Let_def dest: read_reply_success)
  from anthropic.read_loop_text [OF this [unfolded parse_anthropic_sse_stream_def]] show ?thesis
    by (simp add: initial_anthropic_state_def)
qed

lemma text_of_few_events:
  assumes "length evs \<le> 1" and "text_deltas evs = t" and "t \<noteq> []"
  shows "\<exists>sid. evs = [TextDelta sid t]"
proof (cases evs)
  case (Cons e es)
  with assms(1) have "evs = [e]" by simp
  with assms(2,3) show ?thesis by (cases e) (auto simp: text_deltas_def)
qed (use assms in simp)

lemma channel_send_full:
  "length (ch_queue ch) = ch_places ch \<Longrightarrow> ch_receiver ch \<Longrightarrow> channel_send e ch = SendWaits"
  by (simp add: channel_send_def)

text \<open>A channel nobody reads takes as many pieces as it has places left.\<close>

lemma send_all_places:
  assumes "ch_receiver ch" and "length (ch_queue ch) \<le> ch_places ch"
  shows "send_all es ch =
    (ch\<lparr>ch_queue := ch_queue ch @ take (ch_places ch - length (ch_queue ch)) es\<rparr>,
     drop (ch_places ch - length (ch_queue ch)) es)"
  using assms
proof (induction es arbitrary: ch)
  case (Cons e es)
  show ?case
  proof (cases "length (ch_queue ch) < ch_places ch")
    case True
    let ?ch = "ch\<lparr>ch_queue := ch_queue ch @ [e]\<rparr>"
    have s: "channel_send e ch = Sent ?ch" using Cons.prems True by (simp add: channel_send_def)
    obtain k where k: "ch_places ch - length (ch_queue ch) = Suc k" using True by (metis Suc_diff_Suc)
    then have "ch_places ch - Suc (length (ch_queue ch)) = k" by simp
    with Cons.IH [of ?ch] Cons.prems True k s show ?thesis by simp
  next
    case False
    with Cons.prems have "length (ch_queue ch) = ch_places ch" by simp
    with Cons.prems show ?thesis by (simp add: channel_send_full)
  qed
qed simp

lemma send_all_new: "send_all es (new_channel n) = (new_channel n\<lparr>ch_queue := take n es\<rparr>, drop n es)"
  using send_all_places [of "new_channel n" es] by (simp add: new_channel_def)

text \<open>What \<open>send_all\<close> cannot send is stuck: the steps without a reader lead to it and no step leads on.\<close>

definition blocked :: "bool \<Rightarrow> 'e list \<Rightarrow> 'e channel \<Rightarrow> bool" where
  "blocked reads es ch \<longleftrightarrow>
     (\<exists>e es' ch'. (channel_step reads)\<^sup>*\<^sup>* (es, ch) (e # es', ch') \<and> \<not> (\<exists>x. channel_step reads (e # es', ch') x))"

lemma send_all_steps: "(channel_step False)\<^sup>*\<^sup>* (es, ch) (snd (send_all es ch), fst (send_all es ch))"
proof (induction es ch rule: send_all.induct)
  case (2 e es ch)
  then show ?case
    by (cases "channel_send e ch")
       (auto intro: converse_rtranclp_into_rtranclp [of "channel_step False"] channel_step.intros)
qed simp

lemma send_all_stuck: "send_all es ch = (ch', e # es') \<Longrightarrow> \<not> channel_step False (e # es', ch') x"
proof (induction es ch rule: send_all.induct)
  case (2 e0 es ch)
  show ?case
  proof (cases "channel_send e0 ch")
    case SendWaits
    with 2(3) have "e = e0" "ch' = ch" by simp_all
    with SendWaits show ?thesis by (auto elim: channel_step_cases)
  qed (use 2 in auto)
qed simp

lemma blocked_unread: "send_all es ch = (ch', e # es') \<Longrightarrow> blocked False es ch"
  using send_all_steps [of es ch] send_all_stuck unfolding blocked_def by (metis fst_conv snd_conv)

text \<open>With a reader every piece is sent.\<close>

lemma reader_unblocks:
  assumes "0 < ch_places ch"
  shows "\<not> (\<exists>x. channel_step True (es, ch) x) \<Longrightarrow> es = []"
proof (rule ccontr)
  assume stuck: "\<not> (\<exists>x. channel_step True (es, ch) x)" and "es \<noteq> []"
  then obtain e es' where es: "es = e # es'" by (cases es) auto
  with stuck have "channel_send e ch = SendWaits"
    by (cases "channel_send e ch") (auto intro: channel_step.intros)
  then have "ch_queue ch \<noteq> []" using assms by (auto simp: channel_send_def split: if_splits)
  then show False using stuck by (cases "ch_queue ch") (auto intro: channel_step.intros)
qed

lemma summary_in_one_piece:
  assumes "summarize tx envs config ms sid = Returns (Some t)" and "ch_receiver tx" and "ch_places tx = 1"
    and "length (ch_queue tx) \<le> 1"
  shows "\<exists>a \<in> set envs. \<exists>s resp. client_chat_completion a config ms [] sid False = Some ([TextDelta s t], Inr resp)"
  using assms
proof (induction envs arbitrary: tx)
  case (Cons a envs)
  let ?free = "1 - length (ch_queue tx)"
  obtain evs res where evs: "client_chat_completion a config ms [] sid False = Some (evs, res)"
    using Cons.prems(1) by (cases "client_chat_completion a config ms [] sid False") (auto simp: silent_completion_def)
  have s: "send_all evs tx = (tx\<lparr>ch_queue := ch_queue tx @ take ?free evs\<rparr>, drop ?free evs)"
    using send_all_places [of tx evs] Cons.prems by simp
  have few: "drop ?free evs = []"
    using Cons.prems(1) evs s by (cases "drop ?free evs") (auto simp: silent_completion_def simp del: drop_eq_Nil)
  then have l: "length evs \<le> 1" "length (ch_queue tx @ take ?free evs) \<le> 1" using Cons.prems(4) by auto
  show ?case
  proof (cases "summary_text res")
    case None
    then have "summarize (tx\<lparr>ch_queue := ch_queue tx @ take ?free evs\<rparr>) envs config ms sid = Returns (Some t)"
      using Cons.prems(1) evs s few by (simp add: silent_completion_def)
    from Cons.IH [OF this] l Cons.prems show ?thesis by auto
  next
    case (Some u)
    then have "summary_text res = Some t" using Cons.prems(1) evs s few by (simp add: silent_completion_def)
    then obtain resp where r: "res = Inr resp" "t = delta_text (lr_content resp)" "trim t \<noteq> []"
      by (auto simp: summary_text_def Let_def delta_text_def split: sum.splits if_splits option.splits)
    have "text_deltas evs = t" using client_text evs r by metis
    moreover have "trim [] = []" by code_simp
    then have "t \<noteq> []" using r(3) by auto
    ultimately show ?thesis using text_of_few_events [OF l(1)] evs r(1) by fastforce
  qed
qed simp

lemma send_step_bound:
  "(channel_step False)\<^sup>*\<^sup>* (es, ch) (es', ch') \<Longrightarrow> ch_receiver ch \<Longrightarrow>
     ch_receiver ch' \<and> ch_places ch' = ch_places ch
     \<and> length (ch_queue ch') + length es' = length (ch_queue ch) + length es"
proof (induction "(es', ch')" arbitrary: es' ch' rule: rtranclp_induct)
  case (step y)
  then show ?case by (cases y) (force elim: channel_step.cases simp: channel_send_def split: if_splits)
qed simp

lemma blocked_new: "blocked False es (new_channel n :: 'e channel) = (n < length es)"
proof
  assume "n < length es"
  then obtain e es' where "drop n es = e # es'" by (cases "drop n es") auto
  then show "blocked False es (new_channel n)" using blocked_unread send_all_new by metis
next
  assume "blocked False es (new_channel n)"
  then obtain e es' ch' where r: "(channel_step False)\<^sup>*\<^sup>* (es, new_channel n) (e # es', ch')"
    and s: "\<not> (\<exists>x. channel_step False (e # es', ch') x)" by (auto simp: blocked_def)
  from send_step_bound [OF r] have b: "ch_receiver ch'" "ch_places ch' = n"
    "length (ch_queue ch') + Suc (length es') = length es" by (simp_all add: new_channel_def)
  have "channel_send e ch' = SendWaits"
    using s by (cases "channel_send e ch'") (auto intro: channel_step.intros)
  with b show "n < length es" by (auto simp: channel_send_def split: if_splits)
qed

definition compaction_client_of :: "provider_config \<Rightarrow> str \<Rightarrow> llm_client_config" where
  "compaction_client_of p m = (provider_to_llm_config p m)\<lparr>lc_disable_cache_control := True\<rparr>"

lemma compact_context_cases:
  assumes "compaction_boundaries (whole_context env sid st) keep_recent_default = Some (start, e)"
    and "compaction_model env sid st = Inr (p, m)"
  shows "compact_context env a1 a2 now c sid st =
    (case summarize (new_channel 1) [a1, a2] (compaction_client_of p m) (compact_request start e (whole_context env sid st)) c of
       CommandPanics \<Rightarrow> (CommandPanics, st)
     | CommandHangs \<Rightarrow> (CommandHangs, st)
     | Returns t \<Rightarrow> apfst (\<lambda>r. Returns (Inr r)) (store_compaction env now sid start t st))"
  using assms by (simp add: compact_context_def Let_def compaction_client_of_def apfst_def map_prod_def split: command_result.split prod.split)

lemma silent_completion_new:
  "client_chat_completion env config ms [] sid False = Some (evs, res) \<Longrightarrow>
     silent_completion (new_channel n) env config ms sid =
       (new_channel n\<lparr>ch_queue := take n evs\<rparr>, if n < length evs then CommandHangs else Returns res)"
  by (cases "drop n evs"; cases "n < length evs") (simp_all add: silent_completion_def send_all_new)

text \<open>
  C24. Compacting a session by hand makes one channel of one place for both requests and reads from none. Where
  the answers to both requests bring more than one piece of text together, the command never returns: the second
  piece waits, and no step is left that could take the first one out; nothing is stored. Where only one piece or none
  arrives, the command returns and stores the first answer that is not blank, or that the context was truncated.
\<close>

theorem compact_context_waits_for_ever:
  assumes "compaction_boundaries (whole_context env sid st) keep_recent_default = Some (start, e)"
    and "compaction_model env sid st = Inr (p, m)"
    and "client_chat_completion a1 (compaction_client_of p m) (compact_request start e (whole_context env sid st)) [] c False
      = Some (evs1, res1)"
    and "client_chat_completion a2 (compaction_client_of p m) (compact_request start e (whole_context env sid st)) [] c False
      = Some (evs2, res2)"
  shows "let pieces = evs1 @ (if summary_text res1 = None then evs2 else []);
             answer = (if summary_text res1 = None then summary_text res2 else summary_text res1)
    in compact_context env a1 a2 now c sid st =
         (if blocked False pieces (new_channel 1) then (CommandHangs, st)
          else (Returns (Inr (if answer = None then ''truncated'' else ''compacted'')),
                snd (store_compaction env now sid start answer st)))
       \<and> blocked False pieces (new_channel 1) = (1 < length pieces)"
proof -
  let ?ms = "compact_request start e (whole_context env sid st)"
  let ?q = "new_channel 1\<lparr>ch_queue := evs1\<rparr> :: agent_event channel"
  note a1 = silent_completion_new [OF assms(3), of 1]
  have a2: "snd (silent_completion ?q a2 (compaction_client_of p m) ?ms c) =
       (if 1 < length (evs1 @ evs2) then CommandHangs else Returns res2)" if "length evs1 \<le> 1"
  proof -
    have "send_all evs2 ?q = (?q\<lparr>ch_queue := evs1 @ take (1 - length evs1) evs2\<rparr>, drop (1 - length evs1) evs2)"
      using that send_all_places [of ?q evs2] by (simp add: new_channel_def)
    moreover have "(drop (1 - length evs1) evs2 = []) = (\<not> 1 < length (evs1 @ evs2))" using that by auto
    ultimately show ?thesis
      using assms(4) by (cases "drop (1 - length evs1) evs2") (auto simp: silent_completion_def)
  qed
  have store: "fst (store_compaction env now sid start x st) = (if x = None then ''truncated'' else ''compacted'')" for x
    by (simp add: store_compaction_def Let_def split: option.split)
  show ?thesis
  proof (cases "1 < length evs1")
    case True
    with a1 show ?thesis by (simp add: compact_context_cases [OF assms(1,2)] blocked_new Let_def)
  next
    case False
    then have q: "silent_completion (new_channel 1) a1 (compaction_client_of p m) ?ms c = (?q, Returns res1)"
      using a1 by simp
    obtain tx r where tx: "silent_completion ?q a2 (compaction_client_of p m) ?ms c = (tx, r)" by fastforce
    with a2 False have r: "r = (if 1 < length (evs1 @ evs2) then CommandHangs else Returns res2)" by simp
    show ?thesis
      using False q tx r store
      by (cases "summary_text res1"; cases "summary_text res2")
         (auto simp: compact_context_cases [OF assms(1,2)] apfst_def map_prod_def case_prod_beta Let_def blocked_new)
  qed
qed

text \<open>The check of a key and the task that finds a title have channels of eight places.\<close>

lemma verify_provider_hangs_iff:
  assumes "pc_api_key p \<noteq> []" and "pc_models p = m # ms"
    and "client_chat_completion env ((provider_to_llm_config p m)\<lparr>lc_max_completion_tokens := Some 16\<rparr>)
           [user_message ''hi''] [] sid False = Some (evs, r)"
  shows "verify_provider env ask sid p = CommandHangs \<longleftrightarrow> 8 < length evs"
  using assms by (simp add: verify_provider_def silent_completion_new split: sum.split agent_error.split)

lemma generated_title_hangs_iff:
  assumes "client_chat_completion env (title_config p m) (title_messages t) [] sid False = Some (evs, r)"
  shows "generated_title env lower t p m sid = CommandHangs \<longleftrightarrow> 8 < length evs"
  using assms by (simp add: generated_title_def silent_completion_new split: sum.split)

text \<open>A key is only refused for a status that says so.\<close>

lemma verify_provider_refuses:
  "verify_provider env ask sid p = Returns (Inl e) \<Longrightarrow> e = key_rejected 401 \<or> e = key_rejected 403"
proof -
  have probe: "probe_key ask urls = Inl e \<Longrightarrow> e = key_rejected 401 \<or> e = key_rejected 403" for urls
    by (induction urls) (auto simp: rejects_key_def split: option.splits if_splits)
  then show "verify_provider env ask sid p = Returns (Inl e) \<Longrightarrow> ?thesis"
    by (auto simp: verify_provider_def rejects_key_def
        split: if_splits list.splits command_result.splits sum.splits agent_error.splits)
qed

section \<open>Clearing does not reach it\<close>

definition row_message :: "desktop_env \<Rightarrow> desktop \<Rightarrow> stored_message \<Rightarrow> chat_message option" where
  "row_message env st r =
     json_message (am_llm_message (stored_to_agent_message (dv_json env) (dv_media env) (as_disk (dk_store st)) r))"

definition never_compacted :: "str \<Rightarrow> message_table \<Rightarrow> bool" where
  "never_compacted sid tbl \<longleftrightarrow> (\<forall>r \<in> set (mt_rows tbl). active sid r \<longrightarrow> sm_type r \<noteq> ''compaction'')"

text \<open>Rows that are not messages have an empty object as their message.\<close>

definition usage_rows_silent :: "message_table \<Rightarrow> bool" where
  "usage_rows_silent tbl \<longleftrightarrow> (\<forall>r \<in> set (mt_rows tbl). sm_type r = ''context_usage'' \<longrightarrow> sm_llm_message r = ''{}'')"

lemma silent_row:
  "jt_parse (dv_json env) ''{}'' = Some (JObj []) \<Longrightarrow> sm_llm_message r = ''{}'' \<Longrightarrow> row_message env st r = None"
  by (simp add: row_message_def stored_to_agent_message_def Let_def inline_attachments_def json_message_def json_get_str_def)

lemma whole_context_rows:
  assumes "never_compacted sid (as_table (dk_store st))"
  shows "whole_context env sid st =
    sanitize_tool_pairs (List.map_filter (row_message env st) (load_session_messages sid (as_table (dk_store st))))"
proof -
  have "last_compaction_pos (load_session_messages sid (as_table (dk_store st))) = None"
    using assms by (intro no_compaction_pos) (auto simp: never_compacted_def load_session_messages_def)
  then show ?thesis
    by (simp add: whole_context_def deserialize_context_def reconstruct_context_def row_message_def [abs_def]
        List.map_filter_def filter_map o_def)
qed

lemma map_filter_drop:
  "(\<And>x. x \<in> set xs \<Longrightarrow> \<not> P x \<Longrightarrow> f x = None) \<Longrightarrow> List.map_filter f (filter P xs) = List.map_filter f xs"
  by (induction xs) (auto simp: List.map_filter_simps split: option.split)

definition keeps_row :: "str \<Rightarrow> stored_message \<Rightarrow> bool" where
  "keeps_row sid r \<longleftrightarrow> \<not> (sm_session r = sid \<and> sm_type r = ''context_usage'')"

definition reset_row :: "str \<Rightarrow> str \<Rightarrow> str \<Rightarrow> message_table \<Rightarrow> stored_message" where
  "reset_row now sid folder tbl =
     \<lparr>sm_id = mt_next tbl, sm_session = sid, sm_project = folder, sm_role = ''system'', sm_type = ''context_reset'',
      sm_llm_message = ''{}'', sm_metadata = ''{}'', sm_created_at = now, sm_rewound_at = None, sm_turn_count = None\<rparr>"

lemma cleared_table:
  "as_table (dk_store (clear_context now sid st)) =
     \<lparr>mt_rows = filter (keeps_row sid) (mt_rows (as_table (dk_store st)))
        @ [reset_row now sid (session_folder sid st) (as_table (dk_store st))],
      mt_next = Suc (mt_next (as_table (dk_store st)))\<rparr>"
  by (simp add: clear_context_def set_table_def insert_context_reset_def delete_context_usage_def insert_message_def
      reset_row_def keeps_row_def [abs_def])

lemma clear_context_rest [simp]:
  "as_disk (dk_store (clear_context now sid st)) = as_disk (dk_store st)"
  "dk_sessions (clear_context now sid st) = dk_sessions st"
  by (simp_all add: clear_context_def set_table_def)

lemma cleared_context_whole:
  assumes "never_compacted sid (as_table (dk_store st))" and "usage_rows_silent (as_table (dk_store st))"
    and "jt_parse (dv_json env) ''{}'' = Some (JObj [])"
  shows "whole_context env sid (clear_context now sid st) = whole_context env sid st"
proof -
  let ?rows = "mt_rows (as_table (dk_store st))"
  let ?reset = "reset_row now sid (session_folder sid st) (as_table (dk_store st))"
  have nc: "never_compacted sid (as_table (dk_store (clear_context now sid st)))"
    using assms(1) by (auto simp: cleared_table never_compacted_def reset_row_def)
  have f: "row_message env (clear_context now sid st) = row_message env st"
    by (simp add: row_message_def fun_eq_iff)
  have "row_message env st ?reset = None" using assms(3) by (simp add: silent_row reset_row_def)
  then have "List.map_filter (row_message env st) (filter (active sid) (filter (keeps_row sid) ?rows @ [?reset]))
      = List.map_filter (row_message env st) (filter (keeps_row sid) (filter (active sid) ?rows))"
    by (simp add: List.map_filter_def filter_filter conj_commute)
  also have "\<dots> = List.map_filter (row_message env st) (filter (active sid) ?rows)"
    using assms(2) by (intro map_filter_drop silent_row [OF assms(3)]) (auto simp: keeps_row_def usage_rows_silent_def)
  finally show ?thesis
    by (simp add: whole_context_rows [OF nc] whole_context_rows [OF assms(1)] f load_session_messages_def cleared_table)
qed

lemma compaction_model_cleared [simp]: "compaction_model env sid (clear_context now sid st) = compaction_model env sid st"
  by (simp add: compaction_model_def Desktop.get_row_def cong: option.case_cong)

lemma last_id_snoc: "filter P (mt_rows tbl) = rs @ [r] \<Longrightarrow> last_id P tbl = Some (sm_id r)"
  by (cases rs) (auto simp: last_id_def)

text \<open>After the reset only the record of the compaction is context.\<close>

lemma compacted_after_reset:
  assumes "rows_ok (as_table (dk_store st))" and "st2 = clear_context now' sid st"
    and "store_compaction env now sid start t st2 = (res, st3)"
  shows "map sm_llm_message (load_session_for_context (dv_json env) sid n (as_table (dk_store st3))) =
    [jt_print (dv_json env) (JObj [(''content'', JStr (case t of
        Some x \<Rightarrow> summary_prefix @ x | None \<Rightarrow> ''[Earlier context was truncated due to length.]'')), (''role'', JStr ''system'')])]"
proof -
  let ?tbl = "as_table (dk_store st)" and ?tbl3 = "as_table (dk_store st3)"
  let ?n = "mt_next ?tbl"
  define old where "old = filter (keeps_row sid) (mt_rows ?tbl)"
  let ?reset = "reset_row now' sid (session_folder sid st) ?tbl"
  obtain llm meta where llm: "llm = jt_print (dv_json env) (JObj [(''content'', JStr (case t of
        Some x \<Rightarrow> summary_prefix @ x | None \<Rightarrow> ''[Earlier context was truncated due to length.]'')), (''role'', JStr ''system'')])"
    and meta: "meta = jt_print (dv_json env) (JObj [(''kept_before_count'', u32_json (word_of_nat start)), (''version'', u32_json 1)])"
    by blast
  define comp where "comp = \<lparr>sm_id = Suc ?n, sm_session = sid, sm_project = session_folder sid st2, sm_role = ''system'',
      sm_type = ''compaction'', sm_llm_message = llm, sm_metadata = meta, sm_created_at = now, sm_rewound_at = None,
      sm_turn_count = None\<rparr>"
  have below: "sm_id r < ?n" if "r \<in> set old" for r using assms(1) that by (auto simp: rows_ok_def old_def)
  have keep: "keeps_row sid ?reset" "keeps_row sid comp" by (simp_all add: keeps_row_def reset_row_def comp_def)
  have t3: "mt_rows ?tbl3 = old @ [?reset, comp]"
    using assms(3) keep unfolding assms(2)
    by (auto simp: store_compaction_def set_table_def delete_context_usage_def insert_compaction_def insert_message_def
        cleared_table comp_def old_def llm meta assms(2) Let_def filter_filter keeps_row_def [abs_def] split: option.splits)
  have act: "active sid ?reset" "active sid comp" by (simp_all add: active_def reset_row_def comp_def)
  have ty: "sm_type ?reset = ''context_reset''" "sm_type comp = ''compaction''" "sm_id ?reset = ?n" "sm_id comp = Suc ?n"
    by (simp_all add: reset_row_def comp_def)
  have "filter (\<lambda>r. active sid r \<and> sm_type r = ''context_reset'') (mt_rows ?tbl3)
      = filter (\<lambda>r. active sid r \<and> sm_type r = ''context_reset'') old @ [?reset]"
    by (simp add: t3 act ty)
  then have floor: "reset_floor sid ?tbl3 = ?n" by (simp add: reset_floor_def last_id_snoc ty)
  have none: "filter (\<lambda>r. active sid r \<and> sm_type r = ''compaction'' \<and> ?n < sm_id r) old = []"
    "filter (\<lambda>r. active sid r \<and> Suc ?n \<le> sm_id r \<and> sm_type r \<notin> {''context_usage'', ''context_reset''}) old = []"
    using below by (auto simp: filter_empty_conv Suc_le_eq dest: order_less_asym)
  have last: "last_id (\<lambda>r. active sid r \<and> sm_type r = ''compaction'' \<and> ?n < sm_id r) ?tbl3 = Some (Suc ?n)"
    by (subst last_id_snoc [where rs = "[]" and r = comp]) (simp_all add: t3 act ty none)
  have kept: "filter (\<lambda>r. active sid r \<and> sm_id r < Suc ?n \<and> ?n < sm_id r \<and> sm_type r \<notin> A) (mt_rows ?tbl3) = []" for A
    by (auto simp: filter_empty_conv)
  have "filter (\<lambda>r. active sid r \<and> Suc ?n \<le> sm_id r \<and> sm_type r \<notin> {''context_usage'', ''context_reset''}) (mt_rows ?tbl3) = [comp]"
    using none(2) by (simp add: t3 act ty)
  then have "load_session_for_context (dv_json env) sid n ?tbl3 = [comp]"
    unfolding load_session_for_context_def Let_def floor last option.case kept
    by (simp add: last_rows_def) (simp add: comp_def)
  then show ?thesis by (simp add: comp_def llm)
qed

text \<open>
  Compacting a session whose context has been cleared: what it asks the model to summarise are the messages
  that were cleared, and the summary, which the model must have sent in a single piece, is then the whole context
  of the next run.
\<close>

theorem compaction_after_clear:
  assumes "rows_ok (as_table (dk_store st))" and "never_compacted sid (as_table (dk_store st))"
    and "usage_rows_silent (as_table (dk_store st))" and "jt_parse (dv_json env) ''{}'' = Some (JObj [])"
    and "compact_context env a1 a2 now c sid (clear_context now' sid st) = (Returns (Inr ''compacted''), st')"
  shows "\<exists>start e p m a s t resp.
       compaction_boundaries (whole_context env sid st) keep_recent_default = Some (start, e)
     \<and> a \<in> {a1, a2}
     \<and> client_chat_completion a (compaction_client_of p m) (compact_request start e (whole_context env sid st)) [] c False
         = Some ([TextDelta s t], Inr resp)
     \<and> map sm_llm_message (load_session_for_context (dv_json env) sid 500 (as_table (dk_store st')))
         = [jt_print (dv_json env) (JObj [(''content'', JStr (summary_prefix @ t)), (''role'', JStr ''system'')])]"
proof -
  let ?st = "clear_context now' sid st"
  have w: "whole_context env sid ?st = whole_context env sid st"
    by (rule cleared_context_whole [OF assms(2-4)])
  obtain start e where b: "compaction_boundaries (whole_context env sid ?st) keep_recent_default = Some (start, e)"
    using assms(5) by (cases "compaction_boundaries (whole_context env sid ?st) keep_recent_default")
      (auto simp: compact_context_def)
  obtain p m where pm: "compaction_model env sid ?st = Inr (p, m)"
    using assms(5) b by (cases "compaction_model env sid ?st") (auto simp: compact_context_def)
  let ?sum = "summarize (new_channel 1) [a1, a2] (compaction_client_of p m) (compact_request start e (whole_context env sid ?st)) c"
  obtain t where sm: "?sum = Returns (Some t)" and st': "store_compaction env now sid start (Some t) ?st = (''compacted'', st')"
    using assms(5) unfolding compact_context_cases [OF b pm]
    by (cases ?sum) (auto simp: apfst_def map_prod_def store_compaction_def Let_def split: prod.splits option.splits)
  from summary_in_one_piece [OF sm] have "\<exists>a \<in> set [a1, a2]. \<exists>s resp. client_chat_completion a (compaction_client_of p m)
      (compact_request start e (whole_context env sid ?st)) [] c False = Some ([TextDelta s t], Inr resp)"
    by (simp add: new_channel_def)
  then obtain a s resp where a: "a \<in> {a1, a2}"
    "client_chat_completion a (compaction_client_of p m) (compact_request start e (whole_context env sid ?st)) [] c False
       = Some ([TextDelta s t], Inr resp)" by auto
  note load = compacted_after_reset [OF assms(1) refl st', of 500]
  show ?thesis
    by (intro exI conjI) (use b a load in \<open>simp_all only: w option.case\<close>)
qed

section \<open>An application with twelve messages\<close>

definition context_dv :: desktop_env where
  "context_dv = demo_dv\<lparr>dv_json := \<lparr>jt_print = (\<lambda>_. ''c''),
     jt_parse = (\<lambda>s. Some (if s = ''u'' then message_json (user_message ''q'') else JObj []))\<rparr>\<rparr>"

definition twelve_rows :: message_table where
  "twelve_rows = \<lparr>mt_rows = map (\<lambda>i. \<lparr>sm_id = Suc i, sm_session = ''s'', sm_project = ''/p'', sm_role = ''user'',
       sm_type = ''text'', sm_llm_message = ''u'', sm_metadata = ''{}'', sm_created_at = ''t'', sm_rewound_at = None,
       sm_turn_count = Some 1\<rparr>) [0..<12], mt_next = 13\<rparr>"

definition long_app :: desktop where
  "long_app = set_table twelve_rows demo_app"

text \<open>A server that answers every request with the same stream.\<close>

definition answering :: "str list \<Rightarrow> http_env" where
  "answering stream = \<lparr>he_header_name = Some, he_header_value = Some,
     he_send = (\<lambda>_. (False, Inr \<lparr>hr_status = 200, hr_body = [], hr_stream = map Chunk stream\<rparr>)),
     he_log_errors = True, he_parse_json = (\<lambda>s. Inr (demo_chunk_json s))\<rparr>"

lemma answering_streams:
  "lc_provider config = OpenAI \<Longrightarrow> client_chat_completion (answering stream) config ms [] sid False
     = Some (parse_sse_stream (\<lambda>s. Inr (demo_chunk_json s)) sid False (map Chunk stream))"
  by (simp add: client_chat_completion_def chat_completion_openai_def answering_def Let_def
      send_with_header_timeout_def read_reply_def is_success_def split: option.split)

lemma long_table [simp]: "as_table (dk_store long_app) = twelve_rows" "as_disk (dk_store long_app) = as_disk (dk_store demo_app)"
  by (simp_all add: long_app_def set_table_def)

lemma long_app_ok:
  "rows_ok (as_table (dk_store long_app))" "never_compacted ''s'' (as_table (dk_store long_app))"
  "usage_rows_silent (as_table (dk_store long_app))" "jt_parse (dv_json context_dv) ''{}'' = Some (JObj [])"
proof -
  show "rows_ok (as_table (dk_store long_app))" by (auto simp: twelve_rows_def rows_ok_def sorted_wrt_map o_def)
qed (simp_all add: twelve_rows_def never_compacted_def usage_rows_silent_def context_dv_def)

lemma long_app_whole: "whole_context context_dv ''s'' long_app = replicate 12 (user_message ''q'')"
proof -
  have row: "row_message context_dv long_app r = Some (user_message ''q'')" if "sm_llm_message r = ''u''" for r
  proof -
    have "inline_attachments me s d (message_json (user_message ''q'')) = message_json (user_message ''q'')" for me s d
      by (simp add: inline_attachments_def message_json_def opt_field_def user_message_def plain_message_def)
    then show ?thesis
      using that message_json_roundtrip by (simp add: row_message_def stored_to_agent_message_def context_dv_def Let_def)
  qed
  have "List.map_filter (row_message context_dv long_app) (load_session_messages ''s'' twelve_rows)
      = replicate 12 (user_message ''q'')"
    by (simp add: twelve_rows_def load_session_messages_def active_def upt_rec List.map_filter_simps row eval_nat_numeral)
  moreover have "sanitize_tool_pairs (replicate n (user_message ''q'')) = replicate n (user_message ''q'')" for n
    by (induction n) (simp_all add: user_message_def plain_message_def is_tool_def)
  ultimately show ?thesis using long_app_ok(2) by (simp add: whole_context_rows)
qed

lemma long_app_boundaries:
  "compaction_boundaries (whole_context context_dv ''s'' long_app) keep_recent_default = Some (0, 2)"
  unfolding long_app_whole by code_simp

lemma long_app_model: "\<exists>p m. compaction_model context_dv ''s'' long_app = Inr (p, m) \<and> provider_of p = OpenAI"
proof -
  have l: "providers_list (dv_settings demo_dv) = default_providers"
    by (simp add: providers_list_def stored_providers_def demo_dv_def canonical_row_def [abs_def] find_provider_def)
  have "\<exists>p m. session_model (dv_settings demo_dv) None None = Inr (p, m) \<and> provider_of p = OpenAI"
    using l by (simp add: session_model_def default_session_model_def read_selection_def demo_dv_def resolve_ref_def
        provider_by_id_def find_provider_def default_providers_def provider_of_def Let_def)
  moreover have "get_row ''s'' long_app = Some (session_row.truncate demo_session)"
    using demo_row by (simp add: long_app_def set_table_def Desktop.get_row_def)
  moreover have "ms_compaction (read_selection (dv_settings demo_dv)) = None"
    by (simp add: read_selection_def demo_dv_def)
  ultimately show ?thesis
    by (simp add: compaction_model_def row_model_def context_dv_def demo_session_def session_row.truncate_def)
qed

lemma llm_provider [simp]: "lc_provider (compaction_client_of p m) = provider_of p"
  by (simp add: compaction_client_of_def provider_to_llm_config_def)

theorem compact_context_waits_for_ever_witness:
  "compact_context context_dv (answering demo_stream) (answering []) ''t'' ''s'' ''s'' long_app = (CommandHangs, long_app)"
proof -
  obtain p m where pm: "compaction_model context_dv ''s'' long_app = Inr (p, m)" "provider_of p = OpenAI"
    using long_app_model by blast
  have a: "client_chat_completion (answering stream) (compaction_client_of p m)
      (compact_request 0 2 (whole_context context_dv ''s'' long_app)) [] ''s'' False
    = Some (fst (parse_sse_stream (\<lambda>s. Inr (demo_chunk_json s)) ''s'' False (map Chunk stream)),
        snd (parse_sse_stream (\<lambda>s. Inr (demo_chunk_json s)) ''s'' False (map Chunk stream)))" for stream
    using pm(2) by (simp add: answering_streams)
  from compact_context_waits_for_ever [OF long_app_boundaries pm(1) a a, of demo_stream "[]" "''t''"]
  show ?thesis by (simp add: demo_parsed demo_answer_events_def Let_def)
qed

definition one_piece :: "str list" where
  "one_piece = [''data: a'' @ [NL], ''data: [DONE]'' @ [NL]]"

lemma one_piece_parsed:
  "\<exists>resp. parse_sse_stream (\<lambda>s. Inr (demo_chunk_json s)) ''s'' False (map Chunk one_piece) = ([TextDelta ''s'' ''a''], Inr resp)"
proof -
  have ok: "list_all valid_utf8 one_piece" "length (concat one_piece) \<le> max_buffer_size"
    by code_simp (simp add: one_piece_def max_buffer_size_def)
  have l: "complete_lines (concat one_piece) = [''data: a'', ''data: [DONE]'']" by code_simp
  have d: "data_of_line ''data: a'' = Some ''a''" "data_of_line ''data: [DONE]'' = Some ''[DONE]''" by code_simp+
  show ?thesis unfolding parse_sse_stream_lines [OF ok] l
    by (simp add: d demo_chunk_parsed sse_step_def absorb_chunk_def add_tool_chunk_def extend_accumulator_def
        lookup_acc_def empty_accumulator_def initial_sse_state_def delta_event_def delta_text_def Let_def)
qed

theorem compaction_after_clear_witness:
  "fst (compact_context context_dv (answering one_piece) (answering []) ''t'' ''s'' ''s'' (clear_context ''t0'' ''s'' long_app))
     = Returns (Inr ''compacted'')
   \<and> map sm_llm_message (load_session_for_context (dv_json context_dv) ''s'' 500 (as_table (dk_store
       (snd (compact_context context_dv (answering one_piece) (answering []) ''t'' ''s'' ''s'' (clear_context ''t0'' ''s'' long_app))))))
     = [''c'']"
proof -
  let ?st = "clear_context ''t0'' ''s'' long_app"
  obtain p m where pm: "compaction_model context_dv ''s'' long_app = Inr (p, m)" "provider_of p = OpenAI"
    using long_app_model by blast
  obtain resp where r: "parse_sse_stream (\<lambda>s. Inr (demo_chunk_json s)) ''s'' False (map Chunk one_piece)
      = ([TextDelta ''s'' ''a''], Inr resp)" using one_piece_parsed by blast
  have w: "whole_context context_dv ''s'' ?st = whole_context context_dv ''s'' long_app"
    by (rule cleared_context_whole [OF long_app_ok(2-4)])
  have "delta_text (lr_content resp) = ''a''"
    using client_text [of "answering one_piece" "compaction_client_of p m" "[]" "[]" "''s''" False] pm(2) r
    by (simp add: answering_streams text_deltas_def)
  moreover have "trim ''a'' \<noteq> []" by code_simp
  ultimately have "fst (compact_context context_dv (answering one_piece) (answering []) ''t'' ''s'' ''s'' ?st) = Returns (Inr ''compacted'')"
    using pm(2) r
    by (subst compact_context_cases [OF long_app_boundaries [folded w], of p m])
       (simp_all add: pm(1) answering_streams silent_completion_new summary_text_def store_compaction_def Let_def delta_text_def)
  then obtain st' where c: "compact_context context_dv (answering one_piece) (answering []) ''t'' ''s'' ''s'' ?st = (Returns (Inr ''compacted''), st')"
    by (metis prod.collapse)
  from compaction_after_clear [OF long_app_ok c] have
    "map sm_llm_message (load_session_for_context (dv_json context_dv) ''s'' 500 (as_table (dk_store st'))) = [''c'']"
    by (auto simp: context_dv_def)
  with c show ?thesis by simp
qed

end
