(* ===== verification/Mcp.thy ===== *)
theory Mcp
  imports ToolExec Providers
begin

text \<open>
  The client of the Model Context Protocol, \<open>crates/agent/src/mcp/mod.rs\<close>, and the commands of the application that
  keep the list of servers. A server is what the client sees of it: what arrives on the pipe of a child process, how
  it answers a request over HTTP, what arrives on an event stream. The JSON printer and parser, the conversion to
  lower case and the text of a status are parameters. What takes no time limit in the code may take for ever here.
\<close>

section \<open>Configuration\<close>

datatype mcp_transport = Stdio | Http | SseTransport

record mcp_server_config =
  mc_id :: str
  mc_name :: str
  mc_transport :: mcp_transport
  mc_command :: str
  mc_args :: "str list"
  mc_env :: "(str \<times> str) list"
  mc_url :: str
  mc_headers :: "(str \<times> str) list"
  mc_enabled :: bool

text \<open>\<open>agent_save_mcp_server\<close> and \<open>agent_delete_mcp_server\<close>; \<open>fresh\<close> is the new id.\<close>

definition mcp_config_error :: "mcp_server_config \<Rightarrow> str option" where
  "mcp_config_error server =
     (if trim (mc_name server) = [] then Some ''Server name is required''
      else case mc_transport server of
        Stdio \<Rightarrow> if trim (mc_command server) = [] then Some ''Command is required for the stdio transport'' else None
      | _ \<Rightarrow> if trim (mc_url server) = [] then Some ''Server URL is required for HTTP/SSE transports'' else None)"

fun replace_server :: "mcp_server_config \<Rightarrow> mcp_server_config list \<Rightarrow> mcp_server_config list" where
  "replace_server server [] = [server]"
| "replace_server server (s # ss) =
     (if mc_id s = mc_id server then server # ss else s # replace_server server ss)"

definition save_mcp_server :: "str \<Rightarrow> mcp_server_config \<Rightarrow> mcp_server_config list
    \<Rightarrow> (str + mcp_server_config) \<times> mcp_server_config list" where
  "save_mcp_server fresh server servers =
     (case mcp_config_error server of
        Some e \<Rightarrow> (Inl e, servers)
      | None \<Rightarrow>
          if trim (mc_id server) = []
          then (let saved = server\<lparr>mc_id := fresh\<rparr> in (Inr saved, servers @ [saved]))
          else (Inr server, replace_server server servers))"

definition delete_mcp_server :: "str \<Rightarrow> mcp_server_config list \<Rightarrow> mcp_server_config list" where
  "delete_mcp_server i servers = filter (\<lambda>s. mc_id s \<noteq> i) servers"

section \<open>Messages\<close>

type_synonym u64 = "64 word"

definition initialize_params :: json where
  "initialize_params =
     JObj [(''capabilities'', JObj []),
       (''clientInfo'', JObj [(''name'', JStr ''Godcoder''), (''version'', JStr ''0.1.0'')]),
       (''protocolVersion'', JStr ''2024-11-05'')]"

definition rpc_request :: "u64 \<Rightarrow> str \<Rightarrow> json \<Rightarrow> json" where
  "rpc_request i rpc_method params =
     JObj [(''id'', JNum (PosInt i)), (''jsonrpc'', JStr ''2.0''), (''method'', JStr rpc_method), (''params'', params)]"

definition rpc_notification :: "str \<Rightarrow> json \<Rightarrow> json" where
  "rpc_notification rpc_method params =
     JObj [(''jsonrpc'', JStr ''2.0''), (''method'', JStr rpc_method), (''params'', params)]"

definition match_response :: "json \<Rightarrow> u64 \<Rightarrow> (str + json) option" where
  "match_response msg i =
     (if (case json_get msg ''id'' of Some (JNum (PosInt n)) \<Rightarrow> n = i | _ \<Rightarrow> False) then
        Some (case json_get msg ''error'' of
            Some err \<Rightarrow> Inl (''MCP error: ''
              @ (case json_get_str err ''message'' of None \<Rightarrow> ''unknown error'' | Some m \<Rightarrow> m))
          | None \<Rightarrow> Inr (case json_get msg ''result'' of None \<Rightarrow> JNull | Some v \<Rightarrow> v))
      else None)"

definition add_part :: "str \<Rightarrow> str \<Rightarrow> str" where
  "add_part t part = (if t \<noteq> [] then t @ [NL] else t) @ part"

definition add_content :: "json \<Rightarrow> str \<Rightarrow> str" where
  "add_content item t =
     (case json_get_str item ''type'' of
        None \<Rightarrow> t
      | Some ty \<Rightarrow>
          if ty = ''text'' then (case json_get_str item ''text'' of None \<Rightarrow> t | Some x \<Rightarrow> add_part t x)
          else add_part t (''['' @ ty @ '' content omitted]''))"

definition parse_call_result :: "(json \<Rightarrow> str) \<Rightarrow> json \<Rightarrow> str \<times> bool" where
  "parse_call_result print result =
     (let is_error = (case Option.bind (json_get result ''isError'') as_bool of None \<Rightarrow> False | Some b \<Rightarrow> b);
          t = fold add_content (case Option.bind (json_get result ''content'') as_array of None \<Rightarrow> [] | Some xs \<Rightarrow> xs) []
      in (if t = [] then print result else t, is_error))"

definition is_alnum :: "char \<Rightarrow> bool" where
  "is_alnum c = (let n = of_char c :: nat in (48 \<le> n \<and> n \<le> 57) \<or> (65 \<le> n \<and> n \<le> 90) \<or> (97 \<le> n \<and> n \<le> 122))"

text \<open>Characters are mapped: one of several bytes becomes one underscore.\<close>

definition ns :: "(str \<Rightarrow> str) \<Rightarrow> str \<Rightarrow> str" where
  "ns lower name =
     (let s = map (\<lambda>c. if is_alnum c then c else CHR ''_'') (filter (\<lambda>c. \<not> is_cont_byte c) (lower (trim name)));
          t = trim_char (CHR ''_'') s
      in if t = [] then ''mcp'' else t)"

section \<open>The world of a client\<close>

datatype 'a awaited = Done 'a | Forever

record process_command =
  cd_program :: str
  cd_args :: "str list"
  cd_env :: "(str \<times> str) list"

text \<open>What arrives on a pipe until it is closed: lines, a failure, or nothing until a time limit is over.\<close>

datatype pipe_item = PipeLine str | PipeFailed str | PipeSilence

datatype write_outcome = Written | WriteFailed str | FlushFailed str | WriteBlocks

record mcp_post =
  po_url :: str
  po_headers :: "(str \<times> str) list"
  po_body :: json

text \<open>An answer whose headers have come has a body that is read, cannot be read or does not end.\<close>

datatype mcp_reply =
    PostFailed str
  | PostUnanswered
  | PostAnswer "16 word" "str option" "str option" "(str + str) awaited"

datatype sse_item = SseChunk str | SseBroken | SseSilence

text \<open>The answer to the request for an event stream: a failure, none, or a status with what arrives while the client
  waits for the endpoint and what arrives later.\<close>

datatype sse_answer = GetFailed str | GetUnanswered | GetAnswer "16 word" "sse_item list" "sse_item list"

record mcp_env =
  mv_windows :: bool
  mv_lower :: "str \<Rightarrow> str"
  mv_print :: "json \<Rightarrow> str"
  mv_parse :: "str \<Rightarrow> str + json"
  mv_status :: "16 word \<Rightarrow> str"
  mv_spawn :: "process_command \<Rightarrow> str + pipe_item list"
  mv_write :: "str \<Rightarrow> write_outcome"
  mv_post :: "mcp_post \<Rightarrow> mcp_reply"
  mv_get :: "str \<Rightarrow> (str \<times> str) list \<Rightarrow> sse_answer"

definition mcp_success :: "16 word \<Rightarrow> bool" where
  "mcp_success status \<longleftrightarrow> 200 \<le> status \<and> status < 300"

definition timed_out :: "str \<Rightarrow> str" where
  "timed_out rpc_method = ''MCP request '' @ [QUOTE] @ rpc_method @ [QUOTE] @ '' timed out''"

section \<open>Child processes\<close>

definition build_command :: "mcp_env \<Rightarrow> mcp_server_config \<Rightarrow> process_command" where
  "build_command env config =
     (let looks_like_exe = ends_with (mv_lower env (mc_command config)) ''.exe''
            \<or> SLASH \<in> set (mc_command config) \<or> BACKSLASH \<in> set (mc_command config)
      in if mv_windows env \<and> \<not> looks_like_exe
         then \<lparr>cd_program = ''cmd'', cd_args = ''/C'' # mc_command config # mc_args config, cd_env = mc_env config\<rparr>
         else \<lparr>cd_program = mc_command config, cd_args = mc_args config, cd_env = mc_env config\<rparr>)"

record stdio_client =
  sd_server :: str
  sd_pipe :: "pipe_item list"
  sd_next :: u64
  sd_written :: "str list"

definition stdio_connect :: "mcp_env \<Rightarrow> mcp_server_config \<Rightarrow> str + stdio_client" where
  "stdio_connect env config =
     (if trim (mc_command config) = [] then Inl ''A command is required for the stdio transport''
      else case mv_spawn env (build_command env config) of
        Inl e \<Rightarrow> Inl (''Failed to launch MCP server '' @ [QUOTE] @ mc_name config @ [QUOTE] @ '' (''
                     @ mc_command config @ ''): '' @ e)
      | Inr pipe \<Rightarrow> Inr \<lparr>sd_server = mc_name config, sd_pipe = pipe, sd_next = 1, sd_written = []\<rparr>)"

text \<open>The read loop of a request, with what remains on the pipe.\<close>

definition line_message :: "(str \<Rightarrow> str + json) \<Rightarrow> str \<Rightarrow> json option" where
  "line_message parse line =
     (if trim line = [] then None else case parse (trim line) of Inl _ \<Rightarrow> None | Inr msg \<Rightarrow> Some msg)"

fun read_response :: "(str \<Rightarrow> str + json) \<Rightarrow> str \<Rightarrow> str \<Rightarrow> u64 \<Rightarrow> pipe_item list \<Rightarrow> pipe_item list \<times> (str + json)" where
  "read_response parse server rpc_method i [] =
     ([], Inl (''MCP server '' @ [QUOTE] @ server @ [QUOTE] @ '' closed the connection''))"
| "read_response parse server rpc_method i (PipeFailed e # items) = (items, Inl (''MCP read failed: '' @ e))"
| "read_response parse server rpc_method i (PipeSilence # items) = (items, Inl (timed_out rpc_method))"
| "read_response parse server rpc_method i (PipeLine line # items) =
     (case Option.bind (line_message parse line) (\<lambda>msg. match_response msg i) of
        Some r \<Rightarrow> (items, r)
      | None \<Rightarrow> read_response parse server rpc_method i items)"

definition write_line :: "mcp_env \<Rightarrow> json \<Rightarrow> stdio_client \<Rightarrow> stdio_client \<times> (str + unit) awaited" where
  "write_line env payload c =
     (let line = mv_print env payload @ [NL] in
      case mv_write env line of
        Written \<Rightarrow> (c\<lparr>sd_written := sd_written c @ [line]\<rparr>, Done (Inr ()))
      | WriteFailed e \<Rightarrow> (c, Done (Inl (''MCP write failed: '' @ e)))
      | FlushFailed e \<Rightarrow> (c, Done (Inl (''MCP flush failed: '' @ e)))
      | WriteBlocks \<Rightarrow> (c, Forever))"

definition stdio_request :: "mcp_env \<Rightarrow> str \<Rightarrow> json \<Rightarrow> stdio_client \<Rightarrow> stdio_client \<times> (str + json) awaited" where
  "stdio_request env rpc_method params c =
     (let i = sd_next c; c1 = c\<lparr>sd_next := i + 1\<rparr> in
      case write_line env (rpc_request i rpc_method params) c1 of
        (c2, Forever) \<Rightarrow> (c2, Forever)
      | (c2, Done (Inl e)) \<Rightarrow> (c2, Done (Inl e))
      | (c2, Done (Inr _)) \<Rightarrow>
          (case read_response (mv_parse env) (sd_server c2) rpc_method i (sd_pipe c2) of
             (pipe, r) \<Rightarrow> (c2\<lparr>sd_pipe := pipe\<rparr>, Done r)))"

definition stdio_notify :: "mcp_env \<Rightarrow> str \<Rightarrow> json \<Rightarrow> stdio_client \<Rightarrow> stdio_client \<times> (str + unit) awaited" where
  "stdio_notify env rpc_method params c = write_line env (rpc_notification rpc_method params) c"

section \<open>Streamable HTTP\<close>

record http_client =
  hc_url :: str
  hc_headers :: "(str \<times> str) list"
  hc_session :: "str option"
  hc_next :: u64

definition http_new :: "mcp_server_config \<Rightarrow> str + http_client" where
  "http_new config =
     (if trim (mc_url config) = [] then Inl ''Server URL is required for the HTTP transport''
      else Inr \<lparr>hc_url = trim (mc_url config), hc_headers = mc_headers config, hc_session = None, hc_next = 1\<rparr>)"

fun first_response :: "u64 \<Rightarrow> json list \<Rightarrow> (str + json) option" where
  "first_response i [] = None"
| "first_response i (m # ms) = (case match_response m i of Some r \<Rightarrow> Some r | None \<Rightarrow> first_response i ms)"

definition event_message :: "(str \<Rightarrow> str + json) \<Rightarrow> str \<Rightarrow> json option" where
  "event_message parse line =
     (case strip_prefix line ''data:'' of
        None \<Rightarrow> None
      | Some d \<Rightarrow>
          (let data = trim d in
           if data = [] \<or> data = ''[DONE]'' then None
           else case parse data of Inl _ \<Rightarrow> None | Inr v \<Rightarrow> Some v))"

definition extract_http_response :: "(str \<Rightarrow> str + json) \<Rightarrow> str \<Rightarrow> bool \<Rightarrow> u64 \<Rightarrow> str + json" where
  "extract_http_response parse t is_sse i =
     (if is_sse then
        (case first_response i (List.map_filter (event_message parse) (str_lines t)) of
           Some r \<Rightarrow> r | None \<Rightarrow> Inl ''No matching response in event stream'')
      else case parse (trim t) of
        Inl e \<Rightarrow> Inl (''Bad JSON-RPC response: '' @ e)
      | Inr v \<Rightarrow>
          (case as_array v of
             Some arr \<Rightarrow>
               (case first_response i arr of Some r \<Rightarrow> r | None \<Rightarrow> Inl ''No matching response in batch'')
           | None \<Rightarrow> (case match_response v i of Some r \<Rightarrow> r | None \<Rightarrow> Inl ''Response id mismatch'')))"

definition http_headers_of :: "http_client \<Rightarrow> (str \<times> str) list" where
  "http_headers_of c =
     [(''accept'', ''application/json, text/event-stream''), (''content-type'', ''application/json'')]
     @ hc_headers c @ (case hc_session c of None \<Rightarrow> [] | Some sid \<Rightarrow> [(''Mcp-Session-Id'', sid)])"

definition http_post :: "json \<Rightarrow> http_client \<Rightarrow> mcp_post" where
  "http_post body c = \<lparr>po_url = hc_url c, po_headers = http_headers_of c, po_body = body\<rparr>"

definition http_request :: "mcp_env \<Rightarrow> str \<Rightarrow> json \<Rightarrow> http_client \<Rightarrow> http_client \<times> (str + json) awaited" where
  "http_request env rpc_method params c =
     (let i = hc_next c; c1 = c\<lparr>hc_next := i + 1\<rparr> in
      case mv_post env (http_post (rpc_request i rpc_method params) c1) of
        PostUnanswered \<Rightarrow> (c1, Done (Inl (timed_out rpc_method)))
      | PostFailed e \<Rightarrow> (c1, Done (Inl (''HTTP request failed: '' @ e)))
      | PostAnswer status session content_type body \<Rightarrow>
          if \<not> mcp_success status then (c1, Done (Inl (''MCP server returned HTTP '' @ mv_status env status)))
          else
            let c2 = (case session of None \<Rightarrow> c1 | Some sid \<Rightarrow> c1\<lparr>hc_session := Some sid\<rparr>);
                is_sse = (case content_type of None \<Rightarrow> False | Some ct \<Rightarrow> contains ct ''text/event-stream'')
            in (case body of
                  Forever \<Rightarrow> (c2, Forever)
                | Done (Inl e) \<Rightarrow> (c2, Done (Inl (''HTTP read failed: '' @ e)))
                | Done (Inr t) \<Rightarrow> (c2, Done (extract_http_response (mv_parse env) t is_sse i))))"

definition http_notify :: "mcp_env \<Rightarrow> str \<Rightarrow> json \<Rightarrow> http_client \<Rightarrow> http_client \<times> (str + unit) awaited" where
  "http_notify env rpc_method params c =
     (case mv_post env (http_post (rpc_notification rpc_method params) c) of
        PostUnanswered \<Rightarrow> (c, Forever)
      | _ \<Rightarrow> (c, Done (Inr ())))"

section \<open>HTTP with an event stream\<close>

text \<open>The reader: its buffer, the endpoint it has passed on and the messages.\<close>

record sse_reader =
  sr_buf :: str
  sr_endpoint :: "str option"
  sr_messages :: "json list"

function drain_events :: "str \<Rightarrow> str list \<times> str" where
  "drain_events buf =
     (case find_sub buf [NL, NL] of
        None \<Rightarrow> ([], buf)
      | Some pos \<Rightarrow>
          (case drain_events (drop (pos + 2) buf) of
             (events, r) \<Rightarrow> (take (pos + 2) buf # events, r)))"
  by pat_completeness auto
termination
  by (relation "measure length") (auto dest!: find_sub_Some)

declare drain_events.simps [simp del]

definition event_field :: "str \<Rightarrow> str \<times> str \<Rightarrow> str \<times> str" where
  "event_field line ev =
     (case ev of (name, data) \<Rightarrow>
        (case strip_prefix line ''event:'' of
           Some e \<Rightarrow> (trim e, data)
         | None \<Rightarrow>
             (case strip_prefix line ''data:'' of
                Some d \<Rightarrow> (name, (if data \<noteq> [] then data @ [NL] else data)
                             @ (case strip_prefix d [SP] of None \<Rightarrow> d | Some r \<Rightarrow> r))
              | None \<Rightarrow> (name, data))))"

definition event_parts :: "str \<Rightarrow> str \<times> str" where
  "event_parts event = (case fold event_field (str_lines event) ([], []) of (name, data) \<Rightarrow> (name, trim data))"

definition read_event :: "(str \<Rightarrow> str + json) \<Rightarrow> str \<Rightarrow> sse_reader \<Rightarrow> sse_reader" where
  "read_event parse event r =
     (case event_parts event of (name, data) \<Rightarrow>
        if name = ''endpoint''
        then (case sr_endpoint r of None \<Rightarrow> r\<lparr>sr_endpoint := Some data\<rparr> | Some _ \<Rightarrow> r)
        else if data \<noteq> []
        then (case parse data of Inl _ \<Rightarrow> r | Inr v \<Rightarrow> r\<lparr>sr_messages := sr_messages r @ [v]\<rparr>)
        else r)"

definition feed_chunk :: "(str \<Rightarrow> str + json) \<Rightarrow> str \<Rightarrow> sse_reader \<Rightarrow> sse_reader" where
  "feed_chunk parse chunk r =
     (case drain_events (sr_buf r @ replace_sub (from_utf8_lossy chunk) [CR, NL] [NL]) of
        (events, buf) \<Rightarrow> fold (read_event parse) events (r\<lparr>sr_buf := buf\<rparr>))"

definition resolve_url :: "str \<Rightarrow> str \<Rightarrow> str" where
  "resolve_url base p =
     (if starts_with p ''http://'' \<or> starts_with p ''https://'' then p
      else
        let origin = (case find_sub base ''://'' of
              Some i \<Rightarrow>
                (let rest = drop (i + 3) base;
                     host_end = (case find_sub rest [SLASH] of Some j \<Rightarrow> i + 3 + j | None \<Rightarrow> length base)
                 in take host_end base)
            | None \<Rightarrow> base)
        in origin @ [SLASH] @ (case strip_prefix p [SLASH] of Some stripped \<Rightarrow> stripped | None \<Rightarrow> p))"

text \<open>The client; the reader runs ahead of it, here what has not been looked at yet is still to come.\<close>

record sse_client =
  ss_endpoint :: str
  ss_headers :: "(str \<times> str) list"
  ss_next :: u64
  ss_reader :: sse_reader
  ss_stream :: "sse_item list"

fun await_endpoint :: "(str \<Rightarrow> str + json) \<Rightarrow> sse_item list \<Rightarrow> sse_reader \<Rightarrow> sse_reader" where
  "await_endpoint parse (SseChunk c # items) r = await_endpoint parse items (feed_chunk parse c r)"
| "await_endpoint parse (SseSilence # items) r = await_endpoint parse items r"
| "await_endpoint parse (SseBroken # items) r = r"
| "await_endpoint parse [] r = r"

definition sse_connect :: "mcp_env \<Rightarrow> mcp_server_config \<Rightarrow> (str + sse_client) awaited" where
  "sse_connect env config =
     (let url = trim (mc_url config) in
      if url = [] then Done (Inl ''Server URL is required for the SSE transport'')
      else case mv_get env url ((''accept'', ''text/event-stream'') # mc_headers config) of
        GetFailed e \<Rightarrow> Done (Inl (''SSE connect failed: '' @ e))
      | GetUnanswered \<Rightarrow> Forever
      | GetAnswer status early later \<Rightarrow>
          if \<not> mcp_success status then Done (Inl (''SSE endpoint returned HTTP '' @ mv_status env status))
          else
            let r = await_endpoint (mv_parse env) early \<lparr>sr_buf = [], sr_endpoint = None, sr_messages = []\<rparr> in
            Done (case sr_endpoint r of
                None \<Rightarrow> Inl ''SSE server did not advertise an endpoint''
              | Some p \<Rightarrow> Inr \<lparr>ss_endpoint = resolve_url url p, ss_headers = mc_headers config, ss_next = 1,
                             ss_reader = r, ss_stream = (if SseBroken \<in> set early then [] else later)\<rparr>))"

definition sse_post :: "mcp_env \<Rightarrow> json \<Rightarrow> sse_client \<Rightarrow> (str + unit) awaited" where
  "sse_post env body c =
     (case mv_post env \<lparr>po_url = ss_endpoint c, po_headers = (''content-type'', ''application/json'') # ss_headers c, po_body = body\<rparr> of
        PostUnanswered \<Rightarrow> Forever
      | PostFailed e \<Rightarrow> Done (Inl (''SSE POST failed: '' @ e))
      | PostAnswer status session content_type answer_body \<Rightarrow>
          Done (if \<not> mcp_success status then Inl (''SSE endpoint returned HTTP '' @ mv_status env status) else Inr ()))"

text \<open>The messages read before, then the stream.\<close>

fun take_response :: "u64 \<Rightarrow> json list \<Rightarrow> json list \<times> (str + json) option" where
  "take_response i [] = ([], None)"
| "take_response i (m # ms) = (case match_response m i of Some r \<Rightarrow> (ms, Some r) | None \<Rightarrow> take_response i ms)"

fun await_response :: "(str \<Rightarrow> str + json) \<Rightarrow> str \<Rightarrow> u64 \<Rightarrow> sse_item list \<Rightarrow> sse_reader
    \<Rightarrow> sse_item list \<times> sse_reader \<times> (str + json)" where
  "await_response parse rpc_method i items r =
     (case take_response i (sr_messages r) of
        (ms, Some res) \<Rightarrow> (items, r\<lparr>sr_messages := ms\<rparr>, res)
      | (ms, None) \<Rightarrow>
          (let r1 = r\<lparr>sr_messages := []\<rparr> in
           case items of
             [] \<Rightarrow> ([], r1, Inl ''SSE stream closed'')
           | SseBroken # rest \<Rightarrow> ([], r1, Inl ''SSE stream closed'')
           | SseSilence # rest \<Rightarrow> (rest, r1, Inl (timed_out rpc_method))
           | SseChunk c # rest \<Rightarrow> await_response parse rpc_method i rest (feed_chunk parse c r1)))"

declare await_response.simps [simp del]

definition sse_request :: "mcp_env \<Rightarrow> str \<Rightarrow> json \<Rightarrow> sse_client \<Rightarrow> sse_client \<times> (str + json) awaited" where
  "sse_request env rpc_method params c =
     (let i = ss_next c; c1 = c\<lparr>ss_next := i + 1\<rparr> in
      case sse_post env (rpc_request i rpc_method params) c1 of
        Forever \<Rightarrow> (c1, Forever)
      | Done (Inl e) \<Rightarrow> (c1, Done (Inl e))
      | Done (Inr _) \<Rightarrow>
          (case await_response (mv_parse env) rpc_method i (ss_stream c1) (ss_reader c1) of
             (items, r, res) \<Rightarrow> (c1\<lparr>ss_stream := items, ss_reader := r\<rparr>, Done res)))"

definition sse_notify :: "mcp_env \<Rightarrow> str \<Rightarrow> json \<Rightarrow> sse_client \<Rightarrow> sse_client \<times> (str + unit) awaited" where
  "sse_notify env rpc_method params c = (c, sse_post env (rpc_notification rpc_method params) c)"

section \<open>Endpoints\<close>

datatype mcp_endpoint = StdioEnd stdio_client | HttpEnd http_client | SseEnd sse_client

definition endpoint_request :: "mcp_env \<Rightarrow> str \<Rightarrow> json \<Rightarrow> mcp_endpoint \<Rightarrow> mcp_endpoint \<times> (str + json) awaited" where
  "endpoint_request env rpc_method params ep =
     (case ep of
        StdioEnd c \<Rightarrow> map_prod StdioEnd id (stdio_request env rpc_method params c)
      | HttpEnd c \<Rightarrow> map_prod HttpEnd id (http_request env rpc_method params c)
      | SseEnd c \<Rightarrow> map_prod SseEnd id (sse_request env rpc_method params c))"

definition endpoint_notify :: "mcp_env \<Rightarrow> str \<Rightarrow> json \<Rightarrow> mcp_endpoint \<Rightarrow> mcp_endpoint \<times> (str + unit) awaited" where
  "endpoint_notify env rpc_method params ep =
     (case ep of
        StdioEnd c \<Rightarrow> map_prod StdioEnd id (stdio_notify env rpc_method params c)
      | HttpEnd c \<Rightarrow> map_prod HttpEnd id (http_notify env rpc_method params c)
      | SseEnd c \<Rightarrow> map_prod SseEnd id (sse_notify env rpc_method params c))"

text \<open>The operator \<open>?\<close> on an awaited result.\<close>

definition then_await :: "'s \<times> (str + 'a) awaited \<Rightarrow> ('s \<Rightarrow> 'a \<Rightarrow> 's \<times> (str + 'b) awaited) \<Rightarrow> 's \<times> (str + 'b) awaited" where
  "then_await x f =
     (case x of
        (s, Forever) \<Rightarrow> (s, Forever)
      | (s, Done (Inl e)) \<Rightarrow> (s, Done (Inl e))
      | (s, Done (Inr a)) \<Rightarrow> f s a)"

definition mcp_initialize :: "mcp_env \<Rightarrow> mcp_endpoint \<Rightarrow> mcp_endpoint \<times> (str + unit) awaited" where
  "mcp_initialize env ep =
     then_await (endpoint_request env ''initialize'' initialize_params ep)
       (\<lambda>ep1 _. endpoint_notify env ''notifications/initialized'' (JObj []) ep1)"

record mcp_tool_def =
  md_name :: str
  md_description :: str
  md_input_schema :: json

definition tool_def_of :: "json \<Rightarrow> mcp_tool_def option" where
  "tool_def_of t =
     (case json_get_str t ''name'' of
        None \<Rightarrow> None
      | Some name \<Rightarrow> Some \<lparr>md_name = name,
          md_description = (case json_get_str t ''description'' of None \<Rightarrow> [] | Some d \<Rightarrow> d),
          md_input_schema = (case json_get t ''inputSchema'' of None \<Rightarrow> JObj [(''type'', JStr ''object'')] | Some s \<Rightarrow> s)\<rparr>)"

definition list_tools :: "mcp_env \<Rightarrow> mcp_endpoint \<Rightarrow> mcp_endpoint \<times> (str + mcp_tool_def list) awaited" where
  "list_tools env ep =
     then_await (endpoint_request env ''tools/list'' (JObj []) ep)
       (\<lambda>ep1 result. (ep1, Done (Inr (List.map_filter tool_def_of
          (case Option.bind (json_get result ''tools'') as_array of None \<Rightarrow> [] | Some arr \<Rightarrow> arr)))))"

definition call_tool :: "mcp_env \<Rightarrow> str \<Rightarrow> json \<Rightarrow> mcp_endpoint \<Rightarrow> mcp_endpoint \<times> (str + str \<times> bool) awaited" where
  "call_tool env name arguments ep =
     then_await (endpoint_request env ''tools/call'' (JObj [(''arguments'', arguments), (''name'', JStr name)]) ep)
       (\<lambda>ep1 result. (ep1, Done (Inr (parse_call_result (mv_print env) result))))"

section \<open>Tools\<close>

record mcp_tool =
  mt_tool_name :: str
  mt_full_name :: str
  mt_description :: str
  mt_schema :: json

definition mcp_cancelled :: tool_result where
  "mcp_cancelled = tool_failure ''MCP tool call cancelled''"

definition call_result :: "str + str \<times> bool \<Rightarrow> tool_result" where
  "call_result res =
     (case res of
        Inl e \<Rightarrow> tool_failure e
      | Inr (out, is_error) \<Rightarrow>
          \<lparr>tr_output = out, tr_is_error = is_error, tr_yield_data = None, tr_modified_files = []\<rparr>)"

text \<open>
  \<open>execute\<close>, where the call is not cancelled before it ends, and what a cancellation gives: then the endpoint is
  left as the call has left it so far.
\<close>

definition mcp_execute :: "mcp_env \<Rightarrow> mcp_tool \<Rightarrow> json \<Rightarrow> mcp_endpoint \<Rightarrow> mcp_endpoint \<times> tool_result awaited" where
  "mcp_execute env t args ep =
     (case call_tool env (mt_tool_name t) args ep of
        (ep1, Forever) \<Rightarrow> (ep1, Forever)
      | (ep1, Done res) \<Rightarrow> (ep1, Done (call_result res)))"

definition mcp_execute_cancelled :: "mcp_endpoint \<Rightarrow> mcp_endpoint \<times> tool_result awaited" where
  "mcp_execute_cancelled ep_so_far = (ep_so_far, Done mcp_cancelled)"

record mcp_connection =
  mn_endpoint :: mcp_endpoint
  mn_tools :: "mcp_tool list"
  mn_tool_names :: "str list"

definition full_tool_name :: "str \<Rightarrow> str \<Rightarrow> str" where
  "full_tool_name server_ns name = ''mcp__'' @ server_ns @ ''__'' @ name"

definition wrap_tool :: "str \<Rightarrow> mcp_tool_def \<Rightarrow> mcp_tool" where
  "wrap_tool server_ns def =
     \<lparr>mt_tool_name = md_name def, mt_full_name = full_tool_name server_ns (md_name def),
      mt_description = md_description def, mt_schema = md_input_schema def\<rparr>"

definition mcp_open :: "mcp_env \<Rightarrow> mcp_server_config \<Rightarrow> (str + mcp_endpoint) awaited" where
  "mcp_open env config =
     (case mc_transport config of
        Stdio \<Rightarrow> Done (map_sum id StdioEnd (stdio_connect env config))
      | Http \<Rightarrow> Done (map_sum id HttpEnd (http_new config))
      | SseTransport \<Rightarrow>
          (case sse_connect env config of Forever \<Rightarrow> Forever | Done r \<Rightarrow> Done (map_sum id SseEnd r)))"

definition connect_server :: "mcp_env \<Rightarrow> mcp_server_config \<Rightarrow> (str + mcp_connection) awaited" where
  "connect_server env config =
     (case mcp_open env config of
        Forever \<Rightarrow> Forever
      | Done (Inl e) \<Rightarrow> Done (Inl e)
      | Done (Inr ep) \<Rightarrow>
          (case then_await (mcp_initialize env ep) (\<lambda>ep1 _. list_tools env ep1) of
             (ep2, Forever) \<Rightarrow> Forever
           | (ep2, Done (Inl e)) \<Rightarrow> Done (Inl e)
           | (ep2, Done (Inr defs)) \<Rightarrow>
               (let tools = map (wrap_tool (ns (mv_lower env) (mc_name config))) defs in
                Done (Inr \<lparr>mn_endpoint = ep2, mn_tools = tools, mn_tool_names = map mt_full_name tools\<rparr>))))"

text \<open>One environment for each server.\<close>

fun connect_all :: "(mcp_server_config \<Rightarrow> mcp_env) \<Rightarrow> mcp_server_config list \<Rightarrow> mcp_connection list awaited" where
  "connect_all env [] = Done []"
| "connect_all env (config # configs) =
     (case connect_server (env config) config of
        Forever \<Rightarrow> Forever
      | Done (Inl e) \<Rightarrow> connect_all env configs
      | Done (Inr conn) \<Rightarrow>
          (case connect_all env configs of Forever \<Rightarrow> Forever | Done conns \<Rightarrow> Done (conn # conns)))"

definition connect_enabled :: "(mcp_server_config \<Rightarrow> mcp_env) \<Rightarrow> mcp_server_config list \<Rightarrow> mcp_connection list awaited" where
  "connect_enabled env configs = connect_all env (filter mc_enabled configs)"

text \<open>What \<open>run_agent_turn\<close> awaits before it starts a session.\<close>

definition session_servers :: "(mcp_server_config \<Rightarrow> mcp_env) \<Rightarrow> mcp_server_config list \<Rightarrow> mcp_connection list awaited" where
  "session_servers env servers = (if \<exists>s \<in> set servers. mc_enabled s then connect_enabled env servers else Done [])"

end
