(* ===== verification/McpFacts.thy ===== *)
theory McpFacts
  imports Mcp Permissions
begin

text \<open>
  Facts about the client of the Model Context Protocol: answers that come late are never taken for others, the
  messages of an event stream do not depend on how it is cut into chunks, the tools of servers have names of their
  own, and which servers a session gets.
\<close>

section \<open>Late answers\<close>

definition message_id :: "json \<Rightarrow> u64 option" where
  "message_id msg = (case json_get msg ''id'' of Some (JNum (PosInt n)) \<Rightarrow> Some n | _ \<Rightarrow> None)"

lemma match_response_id: "match_response msg i = None \<longleftrightarrow> message_id msg \<noteq> Some i"
  by (auto simp: match_response_def message_id_def split: option.splits json.splits jnum.splits)

text \<open>What a child process prints while the client waits for the answer to one request.\<close>

definition line_id :: "(str \<Rightarrow> str + json) \<Rightarrow> str \<Rightarrow> u64 option" where
  "line_id parse line = Option.bind (line_message parse line) message_id"

lemma read_response_skips:
  assumes "\<And>l. l \<in> set ls \<Longrightarrow> line_id parse l \<noteq> Some i"
  shows "read_response parse server m i (map PipeLine ls @ items) = read_response parse server m i items"
  using assms
proof (induction ls)
  case (Cons l ls)
  have "Option.bind (line_message parse l) (\<lambda>msg. match_response msg i) = None"
    using Cons.prems [of l] by (cases "line_message parse l") (simp_all add: line_id_def match_response_id)
  with Cons show ?case by simp
qed simp

definition line_response :: "(str \<Rightarrow> str + json) \<Rightarrow> u64 \<Rightarrow> str \<Rightarrow> (str + json) option" where
  "line_response parse i line = Option.bind (line_message parse line) (\<lambda>msg. match_response msg i)"

lemma line_response_id: "line_response parse i l = None \<longleftrightarrow> line_id parse l \<noteq> Some i"
  by (cases "line_message parse l") (simp_all add: line_response_def line_id_def match_response_id)

text \<open>
  The part of what a child prints that one request reads: lines, then its answer or nothing until the time limit.
  An honest server answers to ids it was given: the lines before are not messages, have no id, or answer earlier
  requests.
\<close>

definition part_items :: "str list \<times> str option \<Rightarrow> pipe_item list" where
  "part_items part =
     (case part of (ls, answer) \<Rightarrow> map PipeLine ls @ [case answer of None \<Rightarrow> PipeSilence | Some l \<Rightarrow> PipeLine l])"

fun honest :: "(str \<Rightarrow> str + json) \<Rightarrow> u64 set \<Rightarrow> u64 \<Rightarrow> (str list \<times> str option) list \<Rightarrow> bool" where
  "honest parse earlier i [] = True"
| "honest parse earlier i ((ls, answer) # parts) \<longleftrightarrow>
     (\<forall>l \<in> set ls. case line_id parse l of None \<Rightarrow> True | Some n \<Rightarrow> n \<in> earlier)
     \<and> (case answer of None \<Rightarrow> True | Some l \<Rightarrow> line_id parse l = Some i)
     \<and> honest parse (insert i earlier) (i + 1) parts"

fun stdio_requests :: "mcp_env \<Rightarrow> (str \<times> json) list \<Rightarrow> stdio_client \<Rightarrow> stdio_client \<times> (str + json) awaited list" where
  "stdio_requests env [] c = (c, [])"
| "stdio_requests env ((m, params) # rs) c =
     (case stdio_request env m params c of
        (c1, r) \<Rightarrow> map_prod id (Cons r) (stdio_requests env rs c1))"

fun own_answers :: "(str \<Rightarrow> str + json) \<Rightarrow> u64 \<Rightarrow> (str \<times> json) list \<Rightarrow> (str list \<times> str option) list \<Rightarrow> (str + json) awaited list" where
  "own_answers parse i ((m, params) # rs) ((ls, answer) # parts) =
     Done (case Option.bind answer (line_response parse i) of None \<Rightarrow> Inl (timed_out m) | Some r \<Rightarrow> r)
       # own_answers parse (i + 1) rs parts"
| "own_answers parse i _ _ = []"

lemma stdio_request_part:
  assumes "\<And>l. mv_write env l = Written" and "sd_pipe c = part_items (ls, answer) @ items"
    and "\<And>l. l \<in> set ls \<Longrightarrow> line_id (mv_parse env) l \<noteq> Some (sd_next c)"
    and "\<And>l. answer = Some l \<Longrightarrow> line_id (mv_parse env) l = Some (sd_next c)"
  shows "\<exists>w. stdio_request env m params c =
    (c\<lparr>sd_next := sd_next c + 1, sd_written := w, sd_pipe := items\<rparr>,
     Done (case Option.bind answer (line_response (mv_parse env) (sd_next c)) of None \<Rightarrow> Inl (timed_out m) | Some r \<Rightarrow> r))"
proof -
  note skip = read_response_skips [of ls "mv_parse env" "sd_next c" "sd_server c" m, OF assms(3)]
  show ?thesis
  proof (cases answer)
    case None
    with assms(2) show ?thesis
      by (intro exI [of _ "sd_written c @ [mv_print env (rpc_request (sd_next c) m params) @ [NL]]"])
        (simp add: stdio_request_def write_line_def assms(1) Let_def part_items_def skip)
  next
    case (Some l)
    with assms(4) obtain r where "line_response (mv_parse env) (sd_next c) l = Some r"
      using line_response_id [of "mv_parse env" "sd_next c" l] by (cases "line_response (mv_parse env) (sd_next c) l") auto
    with Some assms(2) show ?thesis
      by (intro exI [of _ "sd_written c @ [mv_print env (rpc_request (sd_next c) m params) @ [NL]]"])
        (simp add: stdio_request_def write_line_def assms(1) Let_def part_items_def skip line_response_def)
  qed
qed

lemma fresh_id: "n < 2 ^ 64 \<Longrightarrow> (word_of_nat n :: u64) \<notin> word_of_nat ` {1..<n}"
proof
  assume n: "n < 2 ^ 64" and "(word_of_nat n :: u64) \<in> word_of_nat ` {1..<n}"
  then obtain j where "j < n" "(word_of_nat n :: u64) = word_of_nat j" by auto
  then have "unat (word_of_nat n :: u64) = unat (word_of_nat j :: u64)" by simp
  with n \<open>j < n\<close> show False by (simp add: unat_of_nat take_bit_nat_eq_self)
qed

text \<open>
  C28. A session with a child process that may answer late: requests are made one after the other, each of which
  reads up to its answer or gives up after its time limit, and in between the child prints lines that are no
  messages, notifications and answers to requests given up before. Every request gets its own answer or says that
  it timed out, and never the answer to another one, as long as fewer than 2^64 requests are made.
\<close>

theorem late_answers_skipped:
  assumes "\<And>l. mv_write env l = Written"
    and "sd_next c = word_of_nat n" and "1 \<le> n" and "n + length parts \<le> 2 ^ 64" and "length rs = length parts"
    and "sd_pipe c = concat (map part_items parts) @ items"
    and "honest (mv_parse env) (word_of_nat ` {1..<n}) (sd_next c) parts"
  shows "snd (stdio_requests env rs c) = own_answers (mv_parse env) (sd_next c) rs parts
    \<and> sd_pipe (fst (stdio_requests env rs c)) = items"
  using assms(2-)
proof (induction rs parts arbitrary: c n rule: list_induct2')
  case (4 x rs part parts)
  obtain m params where x: "x = (m, params)" by (cases x)
  obtain ls answer where p: "part = (ls, answer)" by (cases part)
  have new: "sd_next c \<notin> word_of_nat ` {1..<n}" using 4 fresh_id [of n] by simp
  have ls: "line_id (mv_parse env) l \<noteq> Some (sd_next c)" if "l \<in> set ls" for l
    using 4(7) that new by (auto simp: p split: option.splits)
  have ans: "line_id (mv_parse env) l = Some (sd_next c)" if "answer = Some l" for l
    using 4(7) that by (simp add: p)
  have pipe: "sd_pipe c = part_items (ls, answer) @ concat (map part_items parts) @ items" using 4(6) by (simp add: p)
  obtain w where step: "stdio_request env m params c =
    (c\<lparr>sd_next := sd_next c + 1, sd_written := w, sd_pipe := concat (map part_items parts) @ items\<rparr>,
     Done (case Option.bind answer (line_response (mv_parse env) (sd_next c)) of None \<Rightarrow> Inl (timed_out m) | Some r \<Rightarrow> r))"
    using stdio_request_part [where items = "concat (map part_items parts) @ items", OF assms(1) pipe ls ans] by blast
  let ?c1 = "c\<lparr>sd_next := sd_next c + 1, sd_written := w, sd_pipe := concat (map part_items parts) @ items\<rparr>"
  have "{1..<Suc n} = insert n {1..<n}" using 4(3) by auto
  then have "honest (mv_parse env) (word_of_nat ` {1..<Suc n}) (sd_next ?c1) parts"
    using 4(2) 4(7) by (simp add: p)
  moreover have "sd_next ?c1 = word_of_nat (Suc n)" using 4(2) by simp
  moreover have "Suc n + length parts \<le> 2 ^ 64" "length rs = length parts" using 4(4,5) by simp_all
  ultimately have "snd (stdio_requests env rs ?c1) = own_answers (mv_parse env) (sd_next ?c1) rs parts
      \<and> sd_pipe (fst (stdio_requests env rs ?c1)) = items"
    by (intro 4(1) [where n = "Suc n"]) (simp_all add: add.commute)
  then show ?case by (simp add: x p step)
qed auto

text \<open>A request of the server itself that happens to have the id that is waited for is taken for the answer.\<close>

lemma server_request_taken:
  "match_response (JObj [(''id'', JNum (PosInt i)), (''jsonrpc'', JStr ''2.0''), (''method'', JStr ''ping'')]) i = Some (Inr JNull)"
  by (simp add: match_response_def)

section \<open>Event streams\<close>

lemma find_sub_extend: "find_sub s p = Some i \<Longrightarrow> find_sub (s @ t) p = Some i"
proof (induction s p arbitrary: i rule: find_sub.induct)
  case (1 p)
  then show ?case by (cases t) (simp_all add: starts_with_def split: if_splits)
next
  case (2 c s p)
  show ?case
  proof (cases "starts_with (c # s) p")
    case True
    then have "starts_with (c # s @ t) p" unfolding starts_with_iff by (metis append_Cons append_assoc)
    with 2 True show ?thesis by simp
  next
    case False
    with 2(2) obtain j where j: "find_sub s p = Some j" "i = Suc j" by auto
    have "length p \<le> length s" using find_sub_Some [OF j(1)] by simp
    then have "\<not> starts_with (c # s @ t) p" using False by (auto simp: starts_with_def take_Cons' split: if_splits)
    with j 2(1) [OF False j(1)] show ?thesis by simp
  qed
qed

lemma drain_events_append:
  "drain_events (a @ b) =
     (case drain_events a of (es, r) \<Rightarrow> case drain_events (r @ b) of (es', r') \<Rightarrow> (es @ es', r'))"
proof (induction a rule: drain_events.induct)
  case (1 a)
  show ?case
  proof (cases "find_sub a [NL, NL]")
    case None
    then show ?thesis by (simp add: drain_events.simps [of a] split: prod.split)
  next
    case (Some pos)
    have l: "pos + 2 \<le> length a" using find_sub_Some [OF Some] by simp
    show ?thesis
      using 1 [OF Some] find_sub_extend [OF Some, of b] l
      by (simp add: drain_events.simps [of a] drain_events.simps [of "a @ b"] Some split: prod.split)
  qed
qed

lemma read_event_buf: "read_event parse e (r\<lparr>sr_buf := b\<rparr>) = (read_event parse e r)\<lparr>sr_buf := b\<rparr>"
  by (simp add: read_event_def split: prod.split option.split sum.split)

lemma fold_read_event_buf:
  "fold (read_event parse) es (r\<lparr>sr_buf := b\<rparr>) = (fold (read_event parse) es r)\<lparr>sr_buf := b\<rparr>"
  by (induction es arbitrary: r) (simp_all add: read_event_buf)

lemma sr_buf_fold [simp]: "sr_buf ((fold (read_event parse) es r)\<lparr>sr_buf := b\<rparr>) = b"
  by simp

text \<open>Line ends of two bytes become one; a text may be cut anywhere but between the two.\<close>

fun unix_lines :: "str \<Rightarrow> str" where
  "unix_lines [] = []"
| "unix_lines [c] = [c]"
| "unix_lines (c # x # s) = (if c = CR \<and> x = NL then NL # unix_lines s else c # unix_lines (x # s))"

lemma replace_line_ends: "replace_sub s [CR, NL] [NL] = unix_lines s"
proof (induction s rule: unix_lines.induct)
  case 1
  show ?case by (simp add: replace_sub_def split_sub.simps [of "[]"])
next
  case (2 c)
  show ?case by (simp add: replace_sub_def split_sub.simps [of "[c]"] starts_with_def)
next
  case (3 c x s)
  show ?case
  proof (cases "c = CR \<and> x = NL")
    case True
    then have "split_sub (c # x # s) [CR, NL] = [] # split_sub s [CR, NL]"
      by (simp add: split_sub.simps [of "CR # NL # s"] starts_with_def)
    with True 3(1) show ?thesis by (simp add: replace_sub_def join_Cons split_sub_nonempty)
  next
    case False
    then have f: "find_sub (c # x # s) [CR, NL] = map_option Suc (find_sub (x # s) [CR, NL])"
      by (auto simp: starts_with_def)
    have "join [NL] (split_sub (c # x # s) [CR, NL]) = c # join [NL] (split_sub (x # s) [CR, NL])"
    proof (cases "find_sub (x # s) [CR, NL]")
      case None
      then show ?thesis using f by (simp add: split_sub.simps [of "c # x # s"] split_sub.simps [of "x # s"])
    next
      case (Some i)
      let ?rest = "split_sub (drop (i + 2) (x # s)) [CR, NL]"
      have "split_sub (c # x # s) [CR, NL] = (c # take i (x # s)) # ?rest"
        using f Some by (subst split_sub.simps) simp
      moreover have "split_sub (x # s) [CR, NL] = take i (x # s) # ?rest"
        using Some by (subst split_sub.simps) simp
      ultimately show ?thesis by (simp add: join_Cons split_sub_nonempty del: take_Cons drop_Cons)
    qed
    with False 3(2) show ?thesis by (simp add: replace_sub_def)
  qed
qed

lemma unix_lines_append: "a = [] \<or> last a \<noteq> CR \<Longrightarrow> unix_lines (a @ b) = unix_lines a @ unix_lines b"
proof (induction a rule: unix_lines.induct)
  case (2 c)
  then show ?case by (cases b) auto
qed (auto split: if_splits)

lemma decoded_chunk: "valid_utf8 c \<Longrightarrow> replace_sub (from_utf8_lossy c) [CR, NL] [NL] = unix_lines c"
  by (simp add: from_utf8_lossy_valid replace_line_ends)

lemma utf8_len_append: "utf8_len a \<noteq> 0 \<Longrightarrow> utf8_len (a @ b) = utf8_len a \<and> utf8_len a \<le> length a"
  by (cases a) (auto simp: Let_def split: list.splits if_splits)

lemma valid_utf8_append: "valid_utf8 a \<Longrightarrow> valid_utf8 b \<Longrightarrow> valid_utf8 (a @ b)"
proof (induction a rule: valid_utf8.induct)
  case (1 a)
  show ?case
  proof (cases "a = []")
    case False
    with 1(2) have l: "utf8_len a \<noteq> 0" "valid_utf8 (drop (utf8_len a) a)"
      using valid_utf8.simps [of a] by (auto split: if_splits)
    with 1(1) [OF False _ l(2) 1(3)] utf8_len_append [OF l(1), of b] False show ?thesis
      by (simp add: valid_utf8.simps [of "a @ b"])
  qed (use 1 in simp)
qed

lemma valid_utf8_concat: "list_all valid_utf8 cs \<Longrightarrow> valid_utf8 (concat cs)"
  by (induction cs) (simp_all add: valid_utf8.simps [of "[]"] valid_utf8_append)

definition empty_reader :: sse_reader where
  "empty_reader = \<lparr>sr_buf = [], sr_endpoint = None, sr_messages = []\<rparr>"

lemma empty_reader_buf [simp]: "sr_buf empty_reader = []"
  by (simp add: empty_reader_def)

definition whole_chunk :: "str \<Rightarrow> bool" where
  "whole_chunk c \<longleftrightarrow> valid_utf8 c \<and> (c = [] \<or> last c \<noteq> CR)"

lemma whole_chunk_append: "whole_chunk a \<Longrightarrow> whole_chunk b \<Longrightarrow> whole_chunk (a @ b)"
  by (cases b) (auto simp: whole_chunk_def valid_utf8_append)

lemma whole_chunk_concat: "list_all whole_chunk cs \<Longrightarrow> whole_chunk (concat cs)"
proof (induction cs)
  case Nil
  show ?case by (simp add: whole_chunk_def valid_utf8.simps [of "[]"])
qed (simp add: whole_chunk_append)

text \<open>
  C38. However the bytes of an event stream are cut into chunks, as long as no cut falls inside a character or
  right behind a carriage return, the endpoint, the messages and what is left in the buffer are those of the
  whole text in one chunk. The line ends of the stream may have one byte or two. (A cut inside a character
  replaces it, and one behind a carriage return can join two events, \<open>cut_line_end_joins_events\<close>.)
\<close>

theorem events_independent_of_chunks:
  assumes "list_all whole_chunk cs"
  shows "fold (feed_chunk parse) cs empty_reader = feed_chunk parse (concat cs) empty_reader"
  using assms
proof (induction cs rule: rev_induct)
  case Nil
  show ?case by (simp add: feed_chunk_def empty_reader_def decoded_chunk valid_utf8.simps [of "[]"] drain_events.simps [of "[]"])
next
  case (snoc c cs)
  let ?all = "concat cs"
  have w: "whole_chunk ?all" "whole_chunk c" using snoc.prems whole_chunk_concat [of cs] by simp_all
  then have v: "valid_utf8 ?all" "valid_utf8 c" "valid_utf8 (?all @ c)"
    by (simp_all add: whole_chunk_def valid_utf8_append)
  have lines: "unix_lines (?all @ c) = unix_lines ?all @ unix_lines c"
    using w(1) by (intro unix_lines_append) (simp add: whole_chunk_def)
  obtain es buf where d1: "drain_events (unix_lines ?all) = (es, buf)" by (cases "drain_events (unix_lines ?all)")
  obtain es' buf' where d2: "drain_events (buf @ unix_lines c) = (es', buf')" by (cases "drain_events (buf @ unix_lines c)")
  have d: "drain_events (unix_lines (?all @ c)) = (es @ es', buf')"
    using drain_events_append [of "unix_lines ?all" "unix_lines c"] d1 d2 lines by simp
  have "fold (feed_chunk parse) (cs @ [c]) empty_reader = feed_chunk parse c (feed_chunk parse ?all empty_reader)"
    using snoc by simp
  also have "\<dots> = feed_chunk parse (?all @ c) empty_reader"
    by (simp add: feed_chunk_def decoded_chunk [OF v(1)] decoded_chunk [OF v(2)] decoded_chunk [OF v(3)] d1 d2 d fold_read_event_buf)
  finally show ?case by simp
qed

text \<open>A line end of two bytes that is cut keeps its carriage return, so that two events become one.\<close>

lemma cut_line_end_joins_events:
  "sr_messages (fold (feed_chunk (\<lambda>s. Inr (JStr s))) [''data: 1'' @ [CR, NL, CR], [NL] @ ''data: 2'' @ [CR, NL, CR, NL]] empty_reader)
     = [JStr (''1'' @ [NL] @ ''2'')]"
  "sr_messages (feed_chunk (\<lambda>s. Inr (JStr s)) (''data: 1'' @ [CR, NL, CR, NL] @ ''data: 2'' @ [CR, NL, CR, NL]) empty_reader)
     = [JStr ''1'', JStr ''2'']"
  by code_simp+

text \<open>An endpoint that is a whole URL is taken as it is, whatever host it names: requests go there with all headers.\<close>

lemma foreign_endpoint:
  assumes "starts_with p ''http://'' \<or> starts_with p ''https://''" and "mv_post env = post"
  shows "resolve_url base p = p"
    and "sse_post env body (c\<lparr>ss_endpoint := resolve_url base p\<rparr>) =
      (case post \<lparr>po_url = p, po_headers = (''content-type'', ''application/json'') # ss_headers c, po_body = body\<rparr> of
        PostUnanswered \<Rightarrow> Forever
      | PostFailed e \<Rightarrow> Done (Inl (''SSE POST failed: '' @ e))
      | PostAnswer status session content_type answer_body \<Rightarrow>
          Done (if \<not> mcp_success status then Inl (''SSE endpoint returned HTTP '' @ mv_status env status) else Inr ()))"
  using assms by (auto simp: resolve_url_def sse_post_def)

section \<open>Tools\<close>

lemma connected_tool_name:
  assumes "connect_server env config = Done (Inr conn)" and "t \<in> set (mn_tools conn)"
  shows "mt_full_name t = full_tool_name (ns (mv_lower env) (mc_name config)) (mt_tool_name t)"
  using assms by (auto simp: connect_server_def Let_def wrap_tool_def
      split: awaited.splits sum.splits prod.splits)

lemma connect_all_from:
  "connect_all env configs = Done conns \<Longrightarrow> conn \<in> set conns \<Longrightarrow>
     \<exists>config \<in> set configs. connect_server (env config) config = Done (Inr conn)"
  by (induction configs arbitrary: conns) (auto split: awaited.splits sum.splits)

text \<open>
  The names of the tools of servers begin with \<open>mcp__\<close>: none of them has the name of a tool of the agent, of any
  mode, so a server cannot take the place of one. But the levels of approval go by name: at the level that asks
  for destructive tools, the default, no tool of a server is ever asked about.
\<close>

theorem mcp_tools_named_apart:
  assumes "connect_enabled env configs = Done conns" and "conn \<in> set conns" and "t \<in> set (mn_tools conn)"
  shows "mt_full_name t \<notin> set (mode_tools mode) \<union> {''skill'', ''spawn_subagent'', ''codebase_search'', ''codebase_graph''}
    \<and> \<not> needs_approval \<lparr>pc_project_path = p, pc_level = ApproveDestructive, pc_tool_overrides = None\<rparr> (mt_full_name t)"
proof -
  obtain config where "connect_server (env config) config = Done (Inr conn)"
    using assms(1,2) connect_all_from unfolding connect_enabled_def by blast
  from connected_tool_name [OF this assms(3)] obtain r where r: "mt_full_name t = ''mcp__'' @ r"
    by (simp add: full_tool_name_def)
  show ?thesis
    by (simp add: r mode_tools_def needs_approval_def system_tools_def is_destructive_def destructive_tools_def
        split: tool_mode.split)
qed

text \<open>Two servers can share a name space, and a separator can be part of it.\<close>

lemma mcp_names_collide:
  "full_tool_name (ns ascii_lowercase ''My-Server'') x = full_tool_name (ns ascii_lowercase ''my server'') x"
  "full_tool_name (ns ascii_lowercase ''a'') ''b__c'' = full_tool_name (ns ascii_lowercase ''a__b'') ''c''"
proof -
  have "ns ascii_lowercase ''My-Server'' = ns ascii_lowercase ''my server''"
    "ns ascii_lowercase ''a'' = ''a''" "ns ascii_lowercase ''a__b'' = ''a__b''" by code_simp+
  then show "full_tool_name (ns ascii_lowercase ''My-Server'') x = full_tool_name (ns ascii_lowercase ''my server'') x"
    "full_tool_name (ns ascii_lowercase ''a'') ''b__c'' = full_tool_name (ns ascii_lowercase ''a__b'') ''c''"
    by (simp_all add: full_tool_name_def)
qed

section \<open>Servers of a session\<close>

definition connected :: "(mcp_server_config \<Rightarrow> mcp_env) \<Rightarrow> mcp_server_config \<Rightarrow> mcp_connection option" where
  "connected env s = (case connect_server (env s) s of Done (Inr conn) \<Rightarrow> Some conn | _ \<Rightarrow> None)"

lemma connect_all_exact:
  "connect_all env configs =
     (if \<exists>s \<in> set configs. connect_server (env s) s = Forever then Forever
      else Done (List.map_filter (connected env) configs))"
proof (induction configs)
  case (Cons s ss)
  show ?case
  proof (cases "connect_server (env s) s")
    case (Done r)
    then have "connected env s = (case r of Inl e \<Rightarrow> None | Inr conn \<Rightarrow> Some conn)"
      by (simp add: connected_def split: sum.split)
    with Cons Done show ?thesis by (cases r) (simp_all add: List.map_filter_simps)
  qed simp
qed (simp add: List.map_filter_simps)

text \<open>
  A session gets the connections to exactly those enabled servers that can be connected, in order, and the
  others are left out; but a single one that neither answers nor fails keeps it waiting for ever, with the folder
  claimed.
\<close>

theorem session_servers_exact:
  "session_servers env servers =
     (if \<exists>s \<in> set servers. mc_enabled s \<and> connect_server (env s) s = Forever then Forever
      else Done (List.map_filter (connected env) (filter mc_enabled servers)))"
  by (auto simp: session_servers_def connect_enabled_def connect_all_exact List.map_filter_def filter_empty_conv)

text \<open>Such a server: the event stream is never answered.\<close>

lemma silent_server_waits:
  assumes "mc_transport s = SseTransport" and "trim (mc_url s) \<noteq> []" and "\<And>u h. mv_get env u h = GetUnanswered"
  shows "connect_server env s = Forever"
  using assms by (simp add: connect_server_def mcp_open_def sse_connect_def Let_def)

text \<open>The time limit of a request ends with the headers: a body that does not end is waited for.\<close>

lemma http_body_unlimited:
  assumes "mv_post env (http_post (rpc_request (hc_next c) m params) (c\<lparr>hc_next := hc_next c + 1\<rparr>)) = PostAnswer status s ct Forever"
    and "mcp_success status"
  shows "snd (http_request env m params c) = Forever"
  using assms by (simp add: http_request_def Let_def)

section \<open>The list of servers\<close>

lemma replace_server_ids:
  "map mc_id (replace_server server servers) =
     (if mc_id server \<in> mc_id ` set servers then map mc_id servers else map mc_id servers @ [mc_id server])"
  by (induction servers) auto

lemma save_mcp_server_keeps_ids:
  assumes "distinct (map mc_id servers)" and "fresh \<notin> mc_id ` set servers"
  shows "distinct (map mc_id (snd (save_mcp_server fresh server servers)))"
  using assms by (auto simp: save_mcp_server_def Let_def replace_server_ids split: option.split)

lemma delete_after_save:
  assumes "save_mcp_server fresh server servers = (Inr saved, servers')" and "mc_id saved \<notin> mc_id ` set servers"
  shows "delete_mcp_server (mc_id saved) servers' = servers"
proof -
  have d: "delete_mcp_server i ss = ss" if "i \<notin> mc_id ` set ss" for i ss
    using that by (induction ss) (auto simp: delete_mcp_server_def)
  have "replace_server server ss = ss @ [server]" if "mc_id server \<notin> mc_id ` set ss" for ss
    using that by (induction ss) auto
  then have "servers' = servers @ [saved]"
    using assms by (auto simp: save_mcp_server_def Let_def split: option.splits if_splits)
  with d [OF assms(2)] show ?thesis by (simp add: delete_mcp_server_def)
qed

section \<open>A server with one tool\<close>

definition demo_answer_of :: "u64 \<Rightarrow> json" where
  "demo_answer_of i = JObj [(''id'', JNum (PosInt i)),
     (''result'', JObj [(''tools'', JArr [JObj [(''name'', JStr ''t'')]])])]"

definition demo_mcp :: mcp_env where
  "demo_mcp = \<lparr>mv_windows = False, mv_lower = ascii_lowercase, mv_print = (\<lambda>_. ''p''),
     mv_parse = (\<lambda>s. if s = ''1'' then Inr (demo_answer_of 1) else if s = ''2'' then Inr (demo_answer_of 2) else Inl ''no JSON''),
     mv_status = (\<lambda>_. []), mv_spawn = (\<lambda>_. Inr [PipeLine ''1'', PipeLine ''2'']), mv_write = (\<lambda>_. Written),
     mv_post = (\<lambda>_. PostUnanswered), mv_get = (\<lambda>_ _. GetUnanswered)\<rparr>"

definition demo_mcp_server :: mcp_server_config where
  "demo_mcp_server = \<lparr>mc_id = ''i'', mc_name = ''My server'', mc_transport = Stdio, mc_command = ''npx'', mc_args = [],
     mc_env = [], mc_url = [], mc_headers = [], mc_enabled = True\<rparr>"

definition late_client :: stdio_client where
  "late_client = \<lparr>sd_server = ''s'', sd_pipe = [PipeSilence, PipeLine ''log'', PipeLine ''1'', PipeLine ''2''], sd_next = 1, sd_written = []\<rparr>"

lemma demo_mcp_lines:
  "line_id (mv_parse demo_mcp) ''log'' = None" "line_id (mv_parse demo_mcp) ''1'' = Some 1"
  "line_id (mv_parse demo_mcp) ''2'' = Some 2"
  "line_response (mv_parse demo_mcp) 2 ''2'' = Some (Inr (JObj [(''tools'', JArr [JObj [(''name'', JStr ''t'')]])]))"
proof -
  have t: "trim ''log'' = ''log''" "trim ''1'' = ''1''" "trim ''2'' = ''2''" by code_simp+
  show "line_id (mv_parse demo_mcp) ''log'' = None" "line_id (mv_parse demo_mcp) ''1'' = Some 1"
    "line_id (mv_parse demo_mcp) ''2'' = Some 2"
    "line_response (mv_parse demo_mcp) 2 ''2'' = Some (Inr (JObj [(''tools'', JArr [JObj [(''name'', JStr ''t'')]])]))"
    by (simp_all add: line_id_def line_response_def line_message_def t demo_mcp_def message_id_def match_response_def demo_answer_of_def)
qed

theorem late_answers_skipped_witness:
  "snd (stdio_requests demo_mcp [(''x'', JNull), (''y'', JNull)] late_client)
     = [Done (Inl (timed_out ''x'')), Done (Inr (JObj [(''tools'', JArr [JObj [(''name'', JStr ''t'')]])]))]"
proof -
  let ?parts = "[([], None), ([''log'', ''1''], Some ''2'')]"
  have "honest (mv_parse demo_mcp) (word_of_nat ` {1..<1}) 1 ?parts" by (simp add: demo_mcp_lines)
  then have h: "honest (mv_parse demo_mcp) (word_of_nat ` {1..<1}) (sd_next late_client) ?parts" by (simp add: late_client_def)
  have "sd_pipe late_client = concat (map part_items ?parts) @ []" "sd_next late_client = word_of_nat 1"
    by (simp_all add: late_client_def part_items_def)
  from late_answers_skipped [OF _ this(2) _ _ _ this(1) h, of "[(''x'', JNull), (''y'', JNull)]"]
  show ?thesis by (simp add: demo_mcp_def [THEN arg_cong [where f = mv_write]] late_client_def demo_mcp_lines)
qed

theorem events_independent_of_chunks_witness:
  "fold (feed_chunk (\<lambda>s. Inr (JStr s))) [''data: 1'' @ [CR, NL], [CR, NL] @ ''data: 2'', [CR, NL, CR, NL]] empty_reader
     = feed_chunk (\<lambda>s. Inr (JStr s)) (''data: 1'' @ [CR, NL, CR, NL] @ ''data: 2'' @ [CR, NL, CR, NL]) empty_reader"
proof -
  have "list_all whole_chunk [''data: 1'' @ [CR, NL], [CR, NL] @ ''data: 2'', [CR, NL, CR, NL]]" by code_simp
  from events_independent_of_chunks [OF this] show ?thesis by simp
qed

lemma demo_connected:
  "(case connect_enabled (\<lambda>_. demo_mcp) [demo_mcp_server] of
      Done conns \<Rightarrow> map (\<lambda>c. map mt_full_name (mn_tools c)) conns | Forever \<Rightarrow> []) = [[''mcp__my_server__t'']]"
  by code_simp

theorem mcp_tools_named_apart_witness:
  "\<exists>conn t. connect_enabled (\<lambda>_. demo_mcp) [demo_mcp_server] = Done [conn] \<and> mn_tools conn = [t]
     \<and> mt_full_name t = ''mcp__my_server__t'' \<and> mt_full_name t \<notin> set (mode_tools CodingMode)"
proof -
  obtain conn t where c: "connect_enabled (\<lambda>_. demo_mcp) [demo_mcp_server] = Done [conn]" "mn_tools conn = [t]"
    "mt_full_name t = ''mcp__my_server__t''"
    using demo_connected by (auto split: awaited.splits)
  from mcp_tools_named_apart [OF c(1), of conn t CodingMode None] c show ?thesis by auto
qed

end
