(* ===== verification/GitOps.thy ===== *)
theory GitOps
  imports FileTools
begin

text \<open>
  The crate \<open>git-ops\<close> (\<open>exec.rs\<close>, \<open>core.rs\<close>, \<open>pr.rs\<close> and the types of \<open>types.rs\<close> and
  \<open>error.rs\<close>), and the two tools of the agent over it, \<open>crates/agent/src/tool/git_tool.rs\<close> and
  \<open>pr_tool.rs\<close>. The program \<open>git\<close> is a parameter: given its arguments and its directory it changes
  the disk and ends, or cannot be run. Each function is the sequence of commands it runs, cut short by
  the first that fails, and the text processing of their output. For pull requests the environment, the
  program \<open>gh\<close> and the HTTP client are the record \<open>gh_env\<close>.
\<close>

section \<open>Running git\<close>

record git_output =
  go_exit_code :: int
  go_stdout :: str
  go_stderr :: str

text \<open>The errors of \<open>GitOpsError\<close> that these functions give; \<^typ>\<open>git_error\<close> has those of checkpoints.
  An error of the system or of the HTTP client is its message.\<close>

datatype git_ops_error =
    GitCommand int str str
  | GitNotFound str
  | InvalidRepoPath str
  | GitHubApi "16 word" str
  | NoAuthToken
  | InvalidRemoteUrl str
  | HttpError str

definition git_error_text :: "git_ops_error \<Rightarrow> str" where
  "git_error_text e =
     (case e of
        GitCommand code stderr stdout \<Rightarrow> ''git command failed (exit '' @ show_int code @ ''): '' @ stderr
      | GitNotFound msg \<Rightarrow> ''git not found: '' @ msg
      | InvalidRepoPath p \<Rightarrow> ''invalid repo path: '' @ p
      | GitHubApi status body \<Rightarrow> ''GitHub API error (status '' @ to_decimal (unat status) @ ''): '' @ body
      | NoAuthToken \<Rightarrow> ''no GitHub auth token found''
      | InvalidRemoteUrl url \<Rightarrow> ''invalid remote URL: '' @ url
      | HttpError msg \<Rightarrow> ''HTTP error: '' @ msg)"

type_synonym git_program = "str list \<Rightarrow> str \<Rightarrow> disk \<Rightarrow> disk \<times> (str + process_output)"
type_synonym 'a git_result = "disk \<times> (git_ops_error + 'a)"

definition run_git_inner :: "git_program \<Rightarrow> str \<Rightarrow> str list \<Rightarrow> disk \<Rightarrow> git_output git_result" where
  "run_git_inner git repo args d =
     (if \<not> path_exists d (components repo) then (d, Inl (InvalidRepoPath repo))
      else case git args repo d of
        (d1, Inl msg) \<Rightarrow> (d1, Inl (GitNotFound msg))
      | (d1, Inr p) \<Rightarrow>
          (d1, Inr \<lparr>go_exit_code = exit_code p, go_stdout = from_utf8_lossy (po_stdout p),
                    go_stderr = from_utf8_lossy (po_stderr p)\<rparr>))"

definition run_git_raw :: "git_program \<Rightarrow> str \<Rightarrow> str list \<Rightarrow> disk \<Rightarrow> git_output git_result" where
  "run_git_raw git repo args d = run_git_inner git repo args d"

definition run_git :: "git_program \<Rightarrow> str \<Rightarrow> str list \<Rightarrow> disk \<Rightarrow> git_output git_result" where
  "run_git git repo args d =
     (case run_git_inner git repo args d of
        (d1, Inl e) \<Rightarrow> (d1, Inl e)
      | (d1, Inr out) \<Rightarrow>
          if go_exit_code out \<noteq> 0 then (d1, Inl (GitCommand (go_exit_code out) (go_stderr out) (go_stdout out)))
          else (d1, Inr out))"

text \<open>The operator \<open>?\<close> after an awaited command.\<close>

definition git_seq :: "'a git_result \<Rightarrow> ('a \<Rightarrow> disk \<Rightarrow> 'b git_result) \<Rightarrow> 'b git_result" where
  "git_seq r k = (case r of (d, Inl e) \<Rightarrow> (d, Inl e) | (d, Inr x) \<Rightarrow> k x d)"

section \<open>Status\<close>

record file_status =
  fs_path :: str
  fs_status :: str

record status_output =
  so_branch :: str
  so_ahead :: u32
  so_behind :: u32
  so_staged :: "file_status list"
  so_unstaged :: "file_status list"
  so_untracked :: "file_status list"
  so_raw :: str

definition signed_count :: "str \<Rightarrow> str \<Rightarrow> u32" where
  "signed_count sign part =
     (case Option.bind (strip_prefix part sign) parse_u32 of None \<Rightarrow> 0 | Some n \<Rightarrow> n)"

definition ahead_behind :: "str \<Rightarrow> status_output \<Rightarrow> status_output" where
  "ahead_behind line st =
     (let parts = split_whitespace line in
      if 4 \<le> length parts
      then st\<lparr>so_ahead := signed_count ''+'' (parts ! 2), so_behind := signed_count ''-'' (parts ! 3)\<rparr> else st)"

definition changed_path :: "str \<Rightarrow> str \<Rightarrow> str" where
  "changed_path line part = (if starts_with line ''2 '' then hd (split_char TAB part) else part)"

definition add_changed :: "str \<Rightarrow> str \<Rightarrow> str \<Rightarrow> status_output \<Rightarrow> status_output" where
  "add_changed x y p st =
     (let st = (if x \<noteq> ''.'' then st\<lparr>so_staged := so_staged st @ [\<lparr>fs_path = p, fs_status = x\<rparr>]\<rparr> else st)
      in if y \<noteq> ''.'' then st\<lparr>so_unstaged := so_unstaged st @ [\<lparr>fs_path = p, fs_status = y\<rparr>]\<rparr> else st)"

text \<open>The slices of the second field panic, \<open>None\<close>, when it is shorter than two bytes or they cut a
  character.\<close>

definition changed_entry :: "str \<Rightarrow> status_output \<Rightarrow> status_output option" where
  "changed_entry line st =
     (let parts = splitn_char 9 SP line in
      if 9 \<le> length parts
      then case (slice (parts ! 1) 0 1, slice (parts ! 1) 1 2) of
             (Some x, Some y) \<Rightarrow>
               Some (add_changed x y (changed_path line (parts ! 8)) st)
           | _ \<Rightarrow> None
      else Some st)"

definition status_line :: "status_output \<Rightarrow> str \<Rightarrow> status_output option" where
  "status_line st line =
     (case strip_prefix line ''# branch.head '' of
        Some b \<Rightarrow> Some (st\<lparr>so_branch := b\<rparr>)
      | None \<Rightarrow>
          if starts_with line ''# branch.ab '' then Some (ahead_behind line st)
          else if starts_with line ''1 '' \<or> starts_with line ''2 '' then changed_entry line st
          else case strip_prefix line ''? '' of
            Some p \<Rightarrow> Some (st\<lparr>so_untracked := so_untracked st @ [\<lparr>fs_path = p, fs_status = ''?''\<rparr>]\<rparr>)
          | None \<Rightarrow> Some st)"

fun status_lines :: "status_output \<Rightarrow> str list \<Rightarrow> status_output option" where
  "status_lines st [] = Some st"
| "status_lines st (line # lines) =
     (case status_line st line of None \<Rightarrow> None | Some st1 \<Rightarrow> status_lines st1 lines)"

definition parse_status :: "str \<Rightarrow> status_output option" where
  "parse_status raw =
     status_lines \<lparr>so_branch = [], so_ahead = 0, so_behind = 0, so_staged = [], so_unstaged = [],
                   so_untracked = [], so_raw = raw\<rparr> (str_lines raw)"

definition git_status :: "git_program \<Rightarrow> str \<Rightarrow> disk \<Rightarrow> status_output option git_result" where
  "git_status git repo d =
     git_seq (run_git git repo [''status'', ''--porcelain=v2'', ''--branch''] d)
       (\<lambda>out d. (d, Inr (parse_status (go_stdout out))))"

section \<open>Diff\<close>

definition extract_number :: "str \<Rightarrow> str \<Rightarrow> u32" where
  "extract_number line keyword =
     (case find_sub line keyword of
        None \<Rightarrow> 0
      | Some i \<Rightarrow>
          (case split_whitespace (trim (take i line)) of
             [] \<Rightarrow> 0
           | words \<Rightarrow> (case parse_u32 (last words) of None \<Rightarrow> 0 | Some n \<Rightarrow> n)))"

definition parse_diff_stat :: "str \<Rightarrow> u32 \<times> u32 \<times> u32" where
  "parse_diff_stat summary =
     (let last_line = (case str_lines summary of [] \<Rightarrow> [] | lines \<Rightarrow> last lines) in
      (extract_number last_line ''file'', extract_number last_line ''insertion'',
       extract_number last_line ''deletion''))"

definition diff_args :: "str list option \<Rightarrow> bool \<Rightarrow> str option \<Rightarrow> str list" where
  "diff_args files staged ref_range =
     (case ref_range of Some r \<Rightarrow> [r] | None \<Rightarrow> if staged then [''--cached''] else [])
     @ (case files of Some fs \<Rightarrow> ''--'' # fs | None \<Rightarrow> [])"

definition git_diff :: "git_program \<Rightarrow> str \<Rightarrow> str list option \<Rightarrow> bool \<Rightarrow> str option \<Rightarrow> disk \<Rightarrow> diff_output git_result" where
  "git_diff git repo files staged ref_range d =
     git_seq (run_git git repo (''diff'' # diff_args files staged ref_range) d) (\<lambda>out d.
     git_seq (run_git git repo ([''diff'', ''--stat''] @ diff_args files staged ref_range) d) (\<lambda>summary d.
       (let stat_text = trim (go_stdout summary) in
        case parse_diff_stat stat_text of (f, i, r) \<Rightarrow>
          (d, Inr \<lparr>do_diff = go_stdout out, do_files_changed = unat f, do_insertions = unat i,
                    do_deletions = unat r, do_stat = stat_text\<rparr>))))"

section \<open>Commit, push, branches and log\<close>

record commit_output =
  co_sha :: str
  co_message :: str
  co_files_changed :: u32

definition add_args :: "str list option \<Rightarrow> str list" where
  "add_args files = (case files of Some fs \<Rightarrow> [''add'', ''--''] @ fs | None \<Rightarrow> [''add'', ''-A''])"

definition git_commit :: "git_program \<Rightarrow> str \<Rightarrow> str \<Rightarrow> str list option \<Rightarrow> disk \<Rightarrow> commit_output git_result" where
  "git_commit git repo message files d =
     git_seq (run_git git repo (add_args files) d) (\<lambda>_ d.
     git_seq (run_git git repo [''commit'', ''-m'', message] d) (\<lambda>_ d.
     git_seq (run_git git repo [''rev-parse'', ''--short'', ''HEAD''] d) (\<lambda>sha d.
     git_seq (run_git git repo [''show'', ''--stat'', ''--format='', ''HEAD''] d) (\<lambda>shown d.
       (d, Inr \<lparr>co_sha = trim (go_stdout sha), co_message = message,
                 co_files_changed = fst (parse_diff_stat (go_stdout shown))\<rparr>)))))"

record push_output =
  pu_remote :: str
  pu_branch :: str
  pu_raw :: str

definition git_push :: "git_program \<Rightarrow> str \<Rightarrow> str option \<Rightarrow> str option \<Rightarrow> disk \<Rightarrow> push_output git_result" where
  "git_push git repo branch remote d =
     (let remote_name = (case remote of None \<Rightarrow> ''origin'' | Some r \<Rightarrow> r) in
      git_seq (run_git git repo ([''push'', remote_name] @ (case branch of None \<Rightarrow> [] | Some b \<Rightarrow> [b])) d) (\<lambda>out d.
        (let (d, resolved) =
           (case branch of
              Some b \<Rightarrow> (d, b)
            | None \<Rightarrow>
                (case run_git git repo [''rev-parse'', ''--abbrev-ref'', ''HEAD''] d of
                   (d, Inl _) \<Rightarrow> (d, [])
                 | (d, Inr o') \<Rightarrow> (d, trim (go_stdout o'))))
         in (d, Inr \<lparr>pu_remote = remote_name, pu_branch = resolved,
                      pu_raw = go_stdout out @ go_stderr out\<rparr>))))"

record branch_info =
  bi_name :: str
  bi_is_current :: bool
  bi_upstream :: "str option"

definition branch_of_line :: "str \<Rightarrow> branch_info option" where
  "branch_of_line line =
     (let parts = split_char TAB line in
      if 2 \<le> length parts
      then Some \<lparr>bi_name = parts ! 1, bi_is_current = (trim (parts ! 0) = ''*''),
                 bi_upstream = (if 2 < length parts \<and> parts ! 2 \<noteq> [] then Some (parts ! 2) else None)\<rparr>
      else None)"

definition branch_format :: str where
  "branch_format =
     ''--format=%(if)%(HEAD)%(then)*%(else) %(end)'' @ [TAB] @ ''%(refname:short)'' @ [TAB] @ ''%(upstream:short)''"

definition git_branches :: "git_program \<Rightarrow> str \<Rightarrow> disk \<Rightarrow> branch_info list git_result" where
  "git_branches git repo d =
     git_seq (run_git git repo [''branch'', ''-a'', branch_format] d)
       (\<lambda>out d. (d, Inr (List.map_filter branch_of_line (str_lines (go_stdout out)))))"

definition create_branch :: "git_program \<Rightarrow> str \<Rightarrow> str \<Rightarrow> str option \<Rightarrow> disk \<Rightarrow> unit git_result" where
  "create_branch git repo name start d =
     git_seq (run_git git repo ([''checkout'', ''-b'', name] @ (case start of None \<Rightarrow> [] | Some s \<Rightarrow> [s])) d)
       (\<lambda>_ d. (d, Inr ()))"

definition switch_branch :: "git_program \<Rightarrow> str \<Rightarrow> str \<Rightarrow> disk \<Rightarrow> unit git_result" where
  "switch_branch git repo name d = git_seq (run_git git repo [''checkout'', name] d) (\<lambda>_ d. (d, Inr ()))"

record log_entry =
  le_sha :: str
  le_message :: str
  le_author :: str
  le_date :: str

definition log_entry_of :: "str \<Rightarrow> log_entry option" where
  "log_entry_of line =
     (if line = [] then None
      else let parts = splitn_char 4 TAB line in
        if 4 \<le> length parts
        then Some \<lparr>le_sha = parts ! 0, le_message = parts ! 1, le_author = parts ! 2, le_date = parts ! 3\<rparr>
        else None)"

definition git_log :: "git_program \<Rightarrow> str \<Rightarrow> u32 option \<Rightarrow> disk \<Rightarrow> log_entry list git_result" where
  "git_log git repo limit d =
     git_seq (run_git git repo
         [''log'', ''--format=%h'' @ [TAB] @ ''%s'' @ [TAB] @ ''%an'' @ [TAB] @ ''%aI'', ''-n'',
          to_decimal (unat (case limit of None \<Rightarrow> 20 | Some n \<Rightarrow> n))] d)
       (\<lambda>out d. (d, Inr (List.map_filter log_entry_of (str_lines (go_stdout out)))))"

section \<open>Pull requests\<close>

record pr_output =
  pr_url :: str
  pr_number :: "64 word"

record gh_request =
  gq_url :: str
  gq_headers :: "(str \<times> str) list"
  gq_body :: "json option"

record gh_env =
  gh_github_token :: "str option"
  gh_home_var :: "str option"
  gh_run :: "str \<Rightarrow> str list \<Rightarrow> str + process_output"
  gh_send :: "gh_request \<Rightarrow> str + 16 word \<times> (str + json)"
  gh_print :: "json \<Rightarrow> str"

definition owner_and_repo :: "str \<Rightarrow> (str \<times> str) option" where
  "owner_and_repo rest =
     (let rest = (case strip_suffix rest ''.git'' of None \<Rightarrow> rest | Some r \<Rightarrow> r) in
      case splitn_char 2 SLASH rest of
        [a, b] \<Rightarrow> if a \<noteq> [] \<and> b \<noteq> [] then Some (a, b) else None
      | _ \<Rightarrow> None)"

definition parse_remote_url :: "str \<Rightarrow> git_ops_error + str \<times> str" where
  "parse_remote_url raw =
     (let url = trim raw;
          rest = (case strip_prefix url ''git@github.com:'' of
                    Some r \<Rightarrow> Some r
                  | None \<Rightarrow>
                      (case strip_prefix url ''https://github.com/'' of
                         Some r \<Rightarrow> Some r
                       | None \<Rightarrow> strip_prefix url ''http://github.com/''))
      in case Option.bind rest owner_and_repo of
           Some r \<Rightarrow> Inr r
         | None \<Rightarrow> Inl (InvalidRemoteUrl url))"

definition gh_candidates :: "str list" where
  "gh_candidates =
     [''/opt/homebrew/bin/gh'', ''/usr/local/bin/gh'', ''/usr/bin/gh'', ''/snap/bin/gh'',
      ''/home/linuxbrew/.linuxbrew/bin/gh'']"

definition resolve_gh :: "gh_env \<Rightarrow> disk \<Rightarrow> str" where
  "resolve_gh env d =
     (case find (\<lambda>p. path_exists d (components p)) gh_candidates of
        Some p \<Rightarrow> p
      | None \<Rightarrow>
          (case gh_home_var env of
             Some home \<Rightarrow>
               (let linuxbrew = home @ ''/.linuxbrew/bin/gh'' in
                if path_exists d (components linuxbrew) then linuxbrew else ''gh'')
           | None \<Rightarrow> ''gh''))"

definition gh_cli_token :: "gh_env \<Rightarrow> disk \<Rightarrow> git_ops_error + str" where
  "gh_cli_token env d =
     (case gh_run env (resolve_gh env d) [''auth'', ''token''] of
        Inl _ \<Rightarrow> Inl NoAuthToken
      | Inr out \<Rightarrow>
          if po_code out = Some 0
          then (let token = trim (from_utf8_lossy (po_stdout out)) in if token \<noteq> [] then Inr token else Inl NoAuthToken)
          else Inl NoAuthToken)"

definition auth_token :: "gh_env \<Rightarrow> disk \<Rightarrow> git_ops_error + str" where
  "auth_token env d =
     (case gh_github_token env of
        Some token \<Rightarrow> if token \<noteq> [] then Inr token else gh_cli_token env d
      | None \<Rightarrow> gh_cli_token env d)"

definition branch_exists_on_remote :: "git_program \<Rightarrow> str \<Rightarrow> str \<Rightarrow> str \<Rightarrow> disk \<Rightarrow> bool git_result" where
  "branch_exists_on_remote git repo branch remote d =
     git_seq (run_git git repo [''ls-remote'', ''--heads'', remote, branch] d)
       (\<lambda>out d. (d, Inr (trim (go_stdout out) \<noteq> [])))"

definition gh_headers :: "str \<Rightarrow> (str \<times> str) list" where
  "gh_headers token =
     [(''Authorization'', ''token '' @ token), (''Accept'', ''application/vnd.github.v3+json''),
      (''User-Agent'', ''git-ops'')]"

definition pulls_url :: "str \<Rightarrow> str \<Rightarrow> str" where
  "pulls_url owner repo = ''https://api.github.com/repos/'' @ owner @ ''/'' @ repo @ ''/pulls''"

definition find_existing_pr :: "gh_env \<Rightarrow> str \<Rightarrow> str \<Rightarrow> str \<Rightarrow> str \<Rightarrow> pr_output option" where
  "find_existing_pr env branch owner repo token =
     (case gh_send env \<lparr>gq_url = pulls_url owner repo @ ''?head='' @ owner @ '':'' @ branch @ ''&state=open'',
                         gq_headers = gh_headers token, gq_body = None\<rparr> of
        Inr (_, Inr (JArr (first # _))) \<Rightarrow>
          map_option (\<lambda>url. \<lparr>pr_url = url, pr_number = u64_arg first ''number'' 0\<rparr>) (json_get_str first ''html_url'')
      | _ \<Rightarrow> None)"

definition open_pr :: "gh_env \<Rightarrow> str \<Rightarrow> str \<Rightarrow> str \<Rightarrow> str \<Rightarrow> str \<Rightarrow> str \<Rightarrow> str \<Rightarrow> git_ops_error + pr_output" where
  "open_pr env title body branch base owner repo token =
     (case gh_send env \<lparr>gq_url = pulls_url owner repo, gq_headers = gh_headers token,
             gq_body = Some (JObj [(''base'', JStr base), (''body'', JStr body), (''head'', JStr branch),
                                   (''title'', JStr title)])\<rparr> of
        Inl msg \<Rightarrow> Inl (HttpError msg)
      | Inr (status, Inl msg) \<Rightarrow> Inl (HttpError msg)
      | Inr (status, Inr answer) \<Rightarrow>
          if status = 422
          then (case find_existing_pr env branch owner repo token of
                  Some pr \<Rightarrow> Inr pr
                | None \<Rightarrow> Inl (GitHubApi status (gh_print env answer)))
          else if status \<noteq> 201 then Inl (GitHubApi status (gh_print env answer))
          else Inr \<lparr>pr_url = field_or answer ''html_url'' [], pr_number = u64_arg answer ''number'' 0\<rparr>)"

definition not_on_remote :: "str \<Rightarrow> str" where
  "not_on_remote branch =
     ''Branch '' @ quoted branch @ '' not found on remote '' @ quoted ''origin''
     @ ''. Push it first with: git push -u origin '' @ branch"

definition create_pr :: "git_program \<Rightarrow> gh_env \<Rightarrow> str \<Rightarrow> str \<Rightarrow> str \<Rightarrow> str \<Rightarrow> str \<Rightarrow> disk \<Rightarrow> pr_output git_result" where
  "create_pr git env repo_path title body branch base d =
     git_seq (run_git git repo_path [''remote'', ''get-url'', ''origin''] d) (\<lambda>out d.
     case parse_remote_url (trim (go_stdout out)) of
       Inl e \<Rightarrow> (d, Inl e)
     | Inr (owner, repo) \<Rightarrow>
         git_seq (branch_exists_on_remote git repo_path branch ''origin'' d) (\<lambda>pushed d.
           if \<not> pushed then (d, Inl (GitCommand 1 (not_on_remote branch) []))
           else case auth_token env d of
             Inl e \<Rightarrow> (d, Inl e)
           | Inr token \<Rightarrow> (d, open_pr env title body branch base owner repo token)))"

section \<open>The git tool\<close>

definition allowed_subcommands :: "str list" where
  "allowed_subcommands =
     [''status'', ''diff'', ''add'', ''commit'', ''branch'', ''checkout'', ''push'', ''log'', ''show'', ''stash'',
      ''reset'', ''rev-parse'', ''remote'', ''fetch'', ''merge'', ''rebase'', ''tag'', ''cherry-pick'']"

definition blocked_subcommands :: "str list" where
  "blocked_subcommands = [''config'', ''clean'', ''gc'', ''filter-branch'', ''update-ref'', ''reflog'']"

definition blocked_flags :: "str list" where
  "blocked_flags =
     [''--exec'', ''--force'', ''-f'', ''--force-with-lease'', ''--hard'', ''--amend'', ''--no-verify'']"

text \<open>The loop over the characters; every character it looks for is one byte.\<close>

fun split_go :: "bool \<Rightarrow> bool \<Rightarrow> str \<Rightarrow> str \<Rightarrow> str list" where
  "split_go dq sq cur [] = (if cur = [] then [] else [cur])"
| "split_go dq sq cur (c # s) =
     (if c = DQUOTE \<and> \<not> sq then split_go (\<not> dq) sq cur s
      else if c = QUOTE \<and> \<not> dq then split_go dq (\<not> sq) cur s
      else if c = BACKSLASH \<and> dq then
        (case s of [] \<Rightarrow> split_go dq sq cur [] | x # r \<Rightarrow> split_go dq sq (cur @ [x]) r)
      else if (c = SP \<or> c = TAB) \<and> \<not> dq \<and> \<not> sq then
        (if cur = [] then split_go dq sq [] s else cur # split_go dq sq [] s)
      else split_go dq sq (cur @ [c]) s)"

definition split_shell_words :: "str \<Rightarrow> str list" where
  "split_shell_words input = split_go False False [] input"

definition is_blocked_flag :: "str \<Rightarrow> bool" where
  "is_blocked_flag flag \<longleftrightarrow> list_ex (\<lambda>b. flag = b \<or> starts_with flag (b @ ''='')) blocked_flags"

definition git_refusal :: "str list \<Rightarrow> str option" where
  "git_refusal tokens =
     (case tokens of
        [] \<Rightarrow> Some ''Error: empty git command''
      | sub # args \<Rightarrow>
          if sub \<in> set blocked_subcommands
          then Some (''Error: git subcommand '' @ quoted sub @ '' is blocked for safety'')
          else if sub \<notin> set allowed_subcommands
          then Some (''Error: git subcommand '' @ quoted sub @ '' is not in the allowed list. Allowed: ''
                      @ join '', '' allowed_subcommands)
          else map_option (\<lambda>flag. ''Error: flag '' @ quoted (hd (split_char (CHR ''='') flag))
                      @ '' is blocked for safety. Blocked flags: '' @ join '', '' blocked_flags)
                 (find is_blocked_flag args))"

definition combined_text :: "str \<Rightarrow> str \<Rightarrow> str" where
  "combined_text stdout stderr =
     (if stderr = [] then stdout else if stdout = [] then stderr else stdout @ [NL] @ stderr)"

definition git_answer :: "git_output \<Rightarrow> tool_result" where
  "git_answer out =
     \<lparr>tr_output = ''Exit code: '' @ show_int (go_exit_code out) @ [NL] @ combined_text (go_stdout out) (go_stderr out),
      tr_is_error = (go_exit_code out \<noteq> 0), tr_yield_data = None, tr_modified_files = []\<rparr>"

definition git_execute :: "git_program \<Rightarrow> json \<Rightarrow> tool_context \<Rightarrow> world
    \<Rightarrow> world \<times> agent_event list \<times> (str + tool_result)" where
  "git_execute git args cx w =
     (case json_get_str args ''command'' of
        None \<Rightarrow> (w, [], Inl (missing_param ''command''))
      | Some command \<Rightarrow>
          (let status = ToolStatus (cx_session_id cx) (cx_tool_call_id cx)
                          (''Git: '' @ field_or args ''description'' ''Running git command'');
               tokens = split_shell_words command
           in case git_refusal tokens of
                Some msg \<Rightarrow> (w, [status], Inr (tool_failure msg))
              | None \<Rightarrow>
                  (case run_git_raw git (cx_working_dir cx) tokens (w_disk w) of
                     (d, Inl e) \<Rightarrow> (w\<lparr>w_disk := d\<rparr>, [status], Inl (''Git execution error: '' @ git_error_text e))
                   | (d, Inr out) \<Rightarrow> (w\<lparr>w_disk := d\<rparr>, [status], Inr (git_answer out)))))"

definition git_schema :: json where
  "git_schema = JObj
     [(''properties'', JObj
         [(''command'', string_param (''The git subcommand with arguments (e.g. '' @ quoted ''status'' @ '', ''
              @ quoted ''diff --staged'' @ '', '' @ quoted (''commit -m '' @ [DQUOTE] @ ''msg'' @ [DQUOTE]) @ '')'')),
          (''description'', string_param ''A short 5-10 word summary of what this git command does'')]),
      (''required'', JArr [JStr ''command'', JStr ''description'']),
      (''type'', JStr ''object'')]"

definition git_tool :: "git_program \<Rightarrow> tool" where
  "git_tool git =
     \<lparr>tl_name = ''git'',
      tl_description = ''Execute a git command in the project repository. The command runs with the working ''
        @ ''directory set to the project root. Use this for version control operations like ''
        @ ''status, diff, commit, branch, push, etc.'',
      tl_schema = git_schema, tl_execute = git_execute git\<rparr>"

section \<open>The pull request tool\<close>

definition pr_answer :: "git_ops_error + pr_output \<Rightarrow> tool_result" where
  "pr_answer r =
     (case r of
        Inr pr \<Rightarrow> tool_success (''Pull request created: '' @ pr_url pr @ [NL] @ ''PR #'' @ to_decimal (unat (pr_number pr)))
      | Inl NoAuthToken \<Rightarrow> tool_failure (''Error: No GitHub auth token found. Set GITHUB_TOKEN environment ''
          @ ''variable or authenticate with `gh auth login`.'')
      | Inl (GitHubApi status body) \<Rightarrow>
          tool_failure (''Error: GitHub API returned HTTP '' @ to_decimal (unat status) @ ''. ''
            @ ''Check that the branch is pushed and the token has repo scope.'')
      | Inl (InvalidRemoteUrl url) \<Rightarrow> tool_failure (''Error: Could not parse GitHub remote URL: '' @ url)
      | Inl (GitCommand code stderr stdout) \<Rightarrow>
          if contains stderr ''not found on remote'' then tool_failure (''Error: '' @ stderr)
          else tool_failure ''Error creating PR. Check git remote, network, and auth configuration.''
      | Inl _ \<Rightarrow> tool_failure ''Error creating PR. Check git remote, network, and auth configuration.'')"

definition pr_execute :: "git_program \<Rightarrow> gh_env \<Rightarrow> json \<Rightarrow> tool_context \<Rightarrow> world
    \<Rightarrow> world \<times> agent_event list \<times> (str + tool_result)" where
  "pr_execute git env args cx w =
     (case json_get_str args ''title'' of
        None \<Rightarrow> (w, [], Inl (missing_param ''title''))
      | Some title \<Rightarrow>
     (case json_get_str args ''body'' of
        None \<Rightarrow> (w, [], Inl (missing_param ''body''))
      | Some body \<Rightarrow>
     (case json_get_str args ''branch'' of
        None \<Rightarrow> (w, [], Inl (missing_param ''branch''))
      | Some branch \<Rightarrow>
          (let base = field_or args ''base'' ''main'';
               status = ToolStatus (cx_session_id cx) (cx_tool_call_id cx) (''Creating PR: '' @ title)
           in case create_pr git env (cx_working_dir cx) title body branch base (w_disk w) of
                (d, r) \<Rightarrow> (w\<lparr>w_disk := d\<rparr>, [status], Inr (pr_answer r))))))"

definition pr_schema :: json where
  "pr_schema = JObj
     [(''properties'', JObj
         [(''base'', string_param ''The base branch to merge into (default: main)''),
          (''body'', string_param ''The body/description of the pull request (markdown supported)''),
          (''branch'', string_param ''The head branch to create the PR from''),
          (''title'', string_param ''The title of the pull request'')]),
      (''required'', JArr [JStr ''title'', JStr ''body'', JStr ''branch'']),
      (''type'', JStr ''object'')]"

definition pr_tool :: "git_program \<Rightarrow> gh_env \<Rightarrow> tool" where
  "pr_tool git env =
     \<lparr>tl_name = ''create_pr'',
      tl_description = ''Create a GitHub pull request. Requires the repository to have a GitHub remote ''
        @ ''and a valid GitHub auth token (GITHUB_TOKEN env var or gh CLI).'',
      tl_schema = pr_schema, tl_execute = pr_execute git env\<rparr>"

end
