(* ===== verification/GitFacts.thy ===== *)
theory GitFacts
  imports GitOps
begin

text \<open>
  What the git functions read and run: the git tool runs no command its guard does not permit and hands
  git exactly the words that were quoted; the counts of a diff and the entries of a status are read back
  from what git prints; a remote of GitHub is recognised in each of its forms.
\<close>

section \<open>Words\<close>

definition quote_char :: "char \<Rightarrow> str" where
  "quote_char c = (if c = DQUOTE \<or> c = BACKSLASH then [BACKSLASH, c] else [c])"

definition shell_quote :: "str \<Rightarrow> str" where
  "shell_quote w = DQUOTE # concat (map quote_char w) @ [DQUOTE]"

lemma split_go_quoted:
  "split_go True False cur (concat (map quote_char w) @ DQUOTE # s) = split_go False False (cur @ w) s"
proof (induction w arbitrary: cur)
  case (Cons c w)
  then show ?case using Cons [of "cur @ [c]"] by (simp add: quote_char_def)
qed simp

lemma split_go_words:
  "split_go False False [] (join [SP] (map shell_quote ws)) = filter (\<lambda>w. w \<noteq> []) ws"
proof (induction ws)
  case (Cons w ws)
  have one: "split_go False False [] (shell_quote w @ s) = split_go False False w s" for s
    by (simp add: shell_quote_def split_go_quoted)
  show ?case
  proof (cases "ws = []")
    case True
    then show ?thesis using one [of "[]"] by simp
  next
    case False
    then show ?thesis using one [of "SP # join [SP] (map shell_quote ws)"] Cons by (simp add: join_Cons)
  qed
qed simp

text \<open>C36. Words in double quotes, with quotes and backslashes escaped, are split into the words they quote,
  whatever characters they hold; an empty word, such as the message of \<open>commit -m ""\<close>, is lost.\<close>

theorem quoted_words_split:
  "split_shell_words (join [SP] (map shell_quote ws)) = filter (\<lambda>w. w \<noteq> []) ws"
  unfolding split_shell_words_def by (rule split_go_words)

section \<open>The guard of the git tool\<close>

text \<open>The commands the tool may run: an allowed subcommand, and after it no blocked flag, alone or with
  \<open>=\<close> and a value.\<close>

definition permitted :: "str list \<Rightarrow> bool" where
  "permitted tokens \<longleftrightarrow>
     (\<exists>sub args. tokens = sub # args \<and> sub \<in> set allowed_subcommands
        \<and> (\<forall>t \<in> set args. \<forall>b \<in> set blocked_flags. t \<noteq> b \<and> \<not> starts_with t (b @ ''='')))"

lemma no_sub_both: "list_all (\<lambda>s. s \<notin> set blocked_subcommands) allowed_subcommands"
  by code_simp

lemma git_refusal_None: "git_refusal tokens = None \<longleftrightarrow> permitted tokens"
proof (cases tokens)
  case (Cons sub args)
  have "find is_blocked_flag args = None
      \<longleftrightarrow> (\<forall>t \<in> set args. \<forall>b \<in> set blocked_flags. t \<noteq> b \<and> \<not> starts_with t (b @ ''=''))"
    by (auto simp: find_None_iff is_blocked_flag_def list_ex_iff)
  moreover have "sub \<in> set allowed_subcommands \<Longrightarrow> sub \<notin> set blocked_subcommands"
    using no_sub_both by (auto simp: list_all_iff)
  ultimately show ?thesis using Cons by (auto simp: git_refusal_def permitted_def)
qed (simp add: git_refusal_def permitted_def)

text \<open>C30. The git tool runs only permitted commands, each in the working directory: two programs that agree
  on those give the same world, the same events and the same answer for any arguments.\<close>

theorem git_tool_only_permitted:
  assumes "\<And>tokens d. permitted tokens \<Longrightarrow> git tokens (cx_working_dir cx) d = git' tokens (cx_working_dir cx) d"
  shows "git_execute git args cx w = git_execute git' args cx w"
proof (cases "json_get_str args ''command''")
  case None
  then show ?thesis by (simp add: git_execute_def)
next
  case (Some command)
  show ?thesis
  proof (cases "git_refusal (split_shell_words command)")
    case None
    then have "permitted (split_shell_words command)" by (simp add: git_refusal_None)
    then have "run_git_raw git (cx_working_dir cx) (split_shell_words command) (w_disk w)
        = run_git_raw git' (cx_working_dir cx) (split_shell_words command) (w_disk w)"
      by (simp add: run_git_raw_def run_git_inner_def assms)
    with Some None show ?thesis by (simp add: git_execute_def Let_def)
  qed (simp add: git_execute_def Let_def Some)
qed

text \<open>A program that would wipe the disk when it is run with \<open>--hard\<close>, and one that does nothing.\<close>

definition wiping_git :: git_program where
  "wiping_git tokens dir d =
     (if list_ex (\<lambda>t. t = ''--hard'') (drop 1 tokens) then Map.empty else d,
      Inr \<lparr>po_code = Some 0, po_stdout = [], po_stderr = []\<rparr>)"

definition idle_git :: git_program where
  "idle_git tokens dir d = (d, Inr \<lparr>po_code = Some 0, po_stdout = [], po_stderr = []\<rparr>)"

lemma wiping_git_permitted: "permitted tokens \<Longrightarrow> wiping_git tokens dir d = idle_git tokens dir d"
proof -
  assume "permitted tokens"
  then obtain sub args where tokens: "tokens = sub # args"
    and free: "\<forall>t \<in> set args. \<forall>b \<in> set blocked_flags. t \<noteq> b \<and> \<not> starts_with t (b @ ''='')"
    by (auto simp only: permitted_def)
  have "''--hard'' \<in> set blocked_flags" by (simp add: blocked_flags_def)
  with free have "''--hard'' \<notin> set args" by blast
  then have "\<not> list_ex (\<lambda>t. t = ''--hard'') args" by (simp add: list_ex_iff)
  then show ?thesis by (simp add: wiping_git_def idle_git_def tokens)
qed

theorem git_tool_only_permitted_witness:
  "\<forall>args cx w. git_execute wiping_git args cx w = git_execute idle_git args cx w"
  using git_tool_only_permitted [where git = wiping_git and git' = idle_git, OF wiping_git_permitted] by blast

text \<open>What git itself reads as a forced push, as \<open>rebase --exec\<close>, \<open>commit --no-verify\<close> and \<open>reset --hard\<close>, spelled
  in the other ways that git documents, passes: flags run together, their short forms, unique
  abbreviations of long ones, and the plus sign of a reference.\<close>

lemma guard_misses_spellings:
  "list_all (\<lambda>command. git_refusal (split_shell_words command) = None)
     [''push -uf origin main'', ''push --forc origin main'', ''push origin +main'', ''rebase -x reboot HEAD~1'',
      ''commit -nm message'', ''reset --har HEAD~5'']"
  by code_simp

section \<open>Numbers of a diff\<close>

definition plain :: "char \<Rightarrow> bool" where
  "plain c \<longleftrightarrow> 33 \<le> (of_char c :: nat) \<and> (of_char c :: nat) < 127"

lemma ws_not_plain: "list_all (\<lambda>w. w \<noteq> [] \<and> \<not> plain (hd w) \<and> \<not> plain (last w)) ws_seqs"
  by code_simp

lemma ws_len_plain: "plain c \<Longrightarrow> ws_len (c # s) = 0"
proof -
  assume c: "plain c"
  have "\<not> starts_with (c # s) w" if "w \<in> set ws_seqs" for w
  proof
    assume "starts_with (c # s) w"
    then obtain r where "c # s = w @ r" by (auto simp: starts_with_iff)
    moreover from that ws_not_plain have "w \<noteq> []" and "\<not> plain (hd w)" by (auto simp: list_all_iff)
    ultimately show False using c by (cases w) simp_all
  qed
  then have "find (starts_with (c # s)) ws_seqs = None" by (simp add: find_None_iff)
  then show ?thesis by (simp add: ws_len_def)
qed

lemma ws_len_end_plain: "plain c \<Longrightarrow> ws_len_end (s @ [c]) = 0"
proof -
  assume c: "plain c"
  have "\<not> ends_with (s @ [c]) w" if "w \<in> set ws_seqs" for w
  proof
    assume "ends_with (s @ [c]) w"
    then obtain r where "s @ [c] = r @ w" by (auto simp: ends_with_iff)
    moreover from that ws_not_plain have "w \<noteq> []" and "\<not> plain (last w)" by (auto simp: list_all_iff)
    ultimately show False using c by (cases w rule: rev_cases) simp_all
  qed
  then have "find (ends_with (s @ [c])) ws_seqs = None" by (simp add: find_None_iff)
  then show ?thesis by (simp add: ws_len_end_def)
qed

definition plain_word :: "str \<Rightarrow> bool" where
  "plain_word w \<longleftrightarrow> w \<noteq> [] \<and> list_all plain w"

lemma split_ws_plain: "list_all plain w \<Longrightarrow> split_ws_go acc (w @ s) = split_ws_go (acc @ w) s"
proof (induction w arbitrary: acc)
  case (Cons c w)
  then have "split_ws_go acc (c # w @ s) = split_ws_go (acc @ [c]) (w @ s)"
    by (subst split_ws_go.simps) (simp add: ws_len_plain)
  with Cons show ?case by simp
qed simp

lemma split_ws_words:
  "list_all plain_word ws \<Longrightarrow> split_ws_go [] (join [SP] ws) = ws"
proof (induction ws)
  case Nil
  show ?case by (simp add: split_ws_go.simps)
next
  case (Cons w ws)
  then have w: "list_all plain w" "w \<noteq> []" by (simp_all add: plain_word_def)
  show ?case
  proof (cases "ws = []")
    case True
    then show ?thesis using split_ws_plain [OF w(1), of "[]" "[]"] w(2) by (simp add: split_ws_go.simps [of w])
  next
    case False
    then show ?thesis
      using split_ws_plain [OF w(1), of "[]" "SP # join [SP] ws"] w(2) Cons
      by (simp add: join_Cons split_ws_go.simps [of w])
  qed
qed

lemma trim_plain_ends: "plain a \<Longrightarrow> plain b \<Longrightarrow> s = a # r \<Longrightarrow> s = q @ [b] \<Longrightarrow> trim (SP # s @ [SP]) = s"
proof -
  assume a: "plain a" and b: "plain b" and sa: "s = a # r" and sb: "s = q @ [b]"
  have "ws_len_end (s @ [SP]) = 1"
    using ends_with_append [of s "[SP]"] by (simp add: ws_len_end_def ws_seqs_def)
  moreover have "ws_len_end s = 0" using b sb by (simp add: ws_len_end_plain)
  ultimately have "trim_end (s @ [SP]) = s"
    by (subst trim_end.simps) (simp add: trim_end.simps [of s])
  moreover have "trim_start (s @ [SP]) = s @ [SP]"
    using a by (simp add: sa trim_start.simps [of "a # r @ [SP]"] ws_len_plain)
  ultimately show ?thesis by (simp add: trim_def trim_start.simps [of "SP # _"])
qed

lemma join_ends:
  assumes "ws \<noteq> []" and "list_all plain_word ws"
  shows "\<exists>a r. join [SP] ws = a # r \<and> plain a" and "\<exists>b q. join [SP] ws = q @ [b] \<and> plain b"
proof -
  from assms(1) obtain v us where ws: "ws = v # us" by (cases ws) auto
  with assms(2) obtain c w where "v = c # w" and "plain c" by (cases v) (auto simp: plain_word_def)
  with ws show "\<exists>a r. join [SP] ws = a # r \<and> plain a" by (cases us) auto
  show "\<exists>b q. join [SP] ws = q @ [b] \<and> plain b" using assms
  proof (induction ws)
    case (Cons w us)
    show ?case
    proof (cases "us = []")
      case True
      with Cons.prems show ?thesis by (cases w rule: rev_cases) (auto simp: plain_word_def)
    next
      case False
      with Cons obtain b q where "join [SP] us = q @ [b]" and "plain b" by auto
      with False show ?thesis by (auto simp: join_Cons)
    qed
  qed simp
qed

lemma words_of_prefix:
  assumes "ws \<noteq> []" and "list_all plain_word ws"
  shows "split_whitespace (trim (SP # join [SP] ws @ [SP])) = ws"
proof -
  from join_ends [OF assms] obtain a r b q where "join [SP] ws = a # r" "plain a" "join [SP] ws = q @ [b]" "plain b"
    by blast
  then have "trim (SP # join [SP] ws @ [SP]) = join [SP] ws" by (intro trim_plain_ends)
  then show ?thesis by (simp add: split_whitespace_def split_ws_words assms(2))
qed

lemma digit_plain: "is_digit c \<Longrightarrow> plain c"
  by (simp add: is_digit_def plain_def)

lemma to_decimal_plain: "plain_word (to_decimal n)"
  using to_decimal_digits digit_plain by (auto simp: plain_word_def list_all_iff)

lemma parse_u32_decimal: "parse_u32 (to_decimal (unat n)) = Some n"
  using parse_u32_padded [of 0 n] by (simp add: to_decimal_padded_def Let_def)

lemma extract_number_at:
  assumes "list_all plain_word ws"
    and "find_sub (SP # join [SP] (ws @ [to_decimal (unat n)]) @ SP # r) k
         = Some (Suc (Suc (length (join [SP] (ws @ [to_decimal (unat n)])))))"
  shows "extract_number (SP # join [SP] (ws @ [to_decimal (unat n)]) @ SP # r) k = n"
proof -
  let ?ws = "ws @ [to_decimal (unat n)]"
  have words: "split_whitespace (trim (SP # join [SP] ?ws @ [SP])) = ?ws"
    using assms(1) to_decimal_plain by (intro words_of_prefix) simp_all
  have prefix: "take (Suc (Suc (length (join [SP] ?ws)))) (SP # join [SP] ?ws @ SP # r) = SP # join [SP] ?ws @ [SP]"
    by simp
  show ?thesis
    unfolding extract_number_def assms(2) option.case prefix words
    by (cases ws) (simp_all add: parse_u32_decimal)
qed

lemma find_sub_skip:
  "k \<noteq> [] \<Longrightarrow> hd k \<notin> set a \<Longrightarrow> find_sub (a @ s) k = map_option ((+) (length a)) (find_sub s k)"
proof (induction a)
  case (Cons c a)
  then have "\<not> starts_with (c # a @ s) k" by (cases k) (auto simp: starts_with_def)
  with Cons show ?case by (cases "find_sub s k") auto
next
  case Nil
  show ?case by (cases "find_sub s k") simp_all
qed

definition plural :: "u32 \<Rightarrow> str \<Rightarrow> str" where
  "plural n noun = (if n = 1 then noun else noun @ ''s'')"

text \<open>The last line of \<open>git diff --stat\<close>; git leaves a count of zero out.\<close>

definition diff_summary :: "u32 \<Rightarrow> u32 \<Rightarrow> u32 \<Rightarrow> str" where
  "diff_summary n i d =
     SP # to_decimal (unat n) @ SP # plural n ''file'' @ '' changed''
     @ (if i = 0 then [] else '', '' @ to_decimal (unat i) @ SP # plural i ''insertion'' @ ''(+)'')
     @ (if d = 0 then [] else '', '' @ to_decimal (unat d) @ SP # plural d ''deletion'' @ ''(-)'')"

lemma plural_split: "\<exists>r. plural n noun = noun @ r"
  by (simp add: plural_def)

lemma not_in_decimal: "\<not> is_digit c \<Longrightarrow> c \<notin> set (to_decimal n)"
  using to_decimal_digits by blast

lemmas skip_decimal = find_sub_skip [of _ "to_decimal n" for n]

lemma plain_words_concrete:
  "plain_word ''file''" "plain_word ''files''" "plain_word ''changed,''" "plain_word ''insertion(+),''"
  "plain_word ''insertions(+),''"
  by (simp_all add: plain_word_def plain_def)

lemma files_extracted: "extract_number (diff_summary n i d) ''file'' = n"
proof -
  have "\<exists>r. diff_summary n i d = SP # join [SP] ([] @ [to_decimal (unat n)]) @ SP # ''file'' @ r"
    using plural_split [of n "''file''"] by (auto simp: diff_summary_def)
  then obtain r where r: "diff_summary n i d = SP # join [SP] ([] @ [to_decimal (unat n)]) @ SP # ''file'' @ r" by blast
  show ?thesis unfolding r
    by (rule extract_number_at)
      (simp_all add: skip_decimal not_in_decimal is_digit_def starts_with_def)
qed

lemma insertions_extracted: "extract_number (diff_summary n i d) ''insertion'' = i"
proof (cases "i = 0")
  case True
  have "find_sub (diff_summary n i d) ''insertion'' = None"
    by (simp add: True diff_summary_def plural_def skip_decimal not_in_decimal is_digit_def starts_with_def)
  then show ?thesis by (simp add: extract_number_def True)
next
  case False
  let ?ws = "[to_decimal (unat n), plural n ''file'', ''changed,'']"
  have "\<exists>r. diff_summary n i d = SP # join [SP] (?ws @ [to_decimal (unat i)]) @ SP # ''insertion'' @ r"
    using False plural_split [of i "''insertion''"] by (auto simp: diff_summary_def)
  then obtain r where r: "diff_summary n i d = SP # join [SP] (?ws @ [to_decimal (unat i)]) @ SP # ''insertion'' @ r"
    by blast
  show ?thesis unfolding r
    by (rule extract_number_at)
      (simp_all add: to_decimal_plain plain_words_concrete plural_def skip_decimal not_in_decimal is_digit_def
        starts_with_def)
qed

lemma deletions_extracted: "extract_number (diff_summary n i d) ''deletion'' = d"
proof (cases "d = 0")
  case True
  have "find_sub (diff_summary n i d) ''deletion'' = None"
    by (simp add: True diff_summary_def plural_def skip_decimal not_in_decimal is_digit_def starts_with_def)
  then show ?thesis by (simp add: extract_number_def True)
next
  case False
  let ?ws = "[to_decimal (unat n), plural n ''file''] @ (if i = 0 then [''changed,'']
    else [''changed,'', to_decimal (unat i), plural i ''insertion'' @ ''(+),''])"
  have "\<exists>r. diff_summary n i d = SP # join [SP] (?ws @ [to_decimal (unat d)]) @ SP # ''deletion'' @ r"
    using False plural_split [of d "''deletion''"] by (cases "i = 0") (auto simp: diff_summary_def)
  then obtain r where r: "diff_summary n i d = SP # join [SP] (?ws @ [to_decimal (unat d)]) @ SP # ''deletion'' @ r"
    by blast
  have words: "list_all plain_word ?ws" by (simp add: to_decimal_plain plain_words_concrete plural_def)
  show ?thesis unfolding r
    by (rule extract_number_at [OF words]; cases "n = 1"; cases "i = 0"; cases "i = 1")
      (simp_all add: plural_def skip_decimal not_in_decimal is_digit_def starts_with_def)
qed

lemma diff_summary_line: "NL \<notin> set (diff_summary n i d)" "diff_summary n i d \<noteq> []"
  by (simp_all add: diff_summary_def plural_def not_in_decimal is_digit_def)

lemma last_line:
  "NL \<notin> set l \<Longrightarrow> l \<noteq> [] \<Longrightarrow> str_lines (s @ NL # l) \<noteq> [] \<and> last (str_lines (s @ NL # l)) = l"
proof (induction s rule: str_lines_induct)
  case Nil
  then show ?case using str_lines_step [of "[]" l] by (simp add: str_lines_last)
next
  case (last k)
  then show ?case using str_lines_step [of k l] by (simp add: str_lines_last)
next
  case (step k r)
  then show ?case using str_lines_step [of k "r @ NL # l"] by simp
qed

text \<open>The numbers of files, insertions and deletions that \<open>git diff --stat\<close> prints are the numbers read,
  whatever lines stand before the summary and whichever of its counts are left out.\<close>

theorem diff_numbers_read: "parse_diff_stat (files @ NL # diff_summary n i d) = (n, i, d)"
proof -
  from last_line [OF diff_summary_line] obtain l ls where lines: "str_lines (files @ NL # diff_summary n i d) = l # ls"
    and line: "last (l # ls) = diff_summary n i d"
    by (metis neq_Nil_conv)
  show ?thesis
    unfolding parse_diff_stat_def lines list.case Let_def line
    by (simp only: files_extracted insertions_extracted deletions_extracted)
qed

section \<open>Entries of a status\<close>

text \<open>The lines of \<open>git status --porcelain=v2\<close>: ordinary, renamed and unmerged entries with their two state
  letters, the fields of modes and hashes, for a rename the score and the path it had, and the path.\<close>

datatype porcelain =
    Ordinary char char "str list" str
  | Renamed char char "str list" str str str
  | Unmerged char char "str list" str
  | Untracked str

fun porcelain_line :: "porcelain \<Rightarrow> str" where
  "porcelain_line (Ordinary x y fl p) = join [SP] ([''1'', [x, y]] @ fl @ [p])"
| "porcelain_line (Renamed x y fl score p orig) =
     join [SP] ([''2'', [x, y]] @ fl @ [score @ SP # p @ TAB # orig])"
| "porcelain_line (Unmerged x y fl p) = join [SP] ([''u'', [x, y]] @ fl @ [p])"
| "porcelain_line (Untracked p) = ''? '' @ p"

definition letters_ok :: "char \<Rightarrow> char \<Rightarrow> str list \<Rightarrow> bool" where
  "letters_ok x y fl \<longleftrightarrow>
     x \<noteq> SP \<and> y \<noteq> SP \<and> \<not> is_cont_byte y \<and> length fl = 6 \<and> list_all (\<lambda>f. SP \<notin> set f) fl"

fun entry_ok :: "porcelain \<Rightarrow> bool" where
  "entry_ok (Ordinary x y fl p) \<longleftrightarrow> letters_ok x y fl \<and> line_ok (porcelain_line (Ordinary x y fl p))"
| "entry_ok (Renamed x y fl score p orig) \<longleftrightarrow>
     letters_ok x y fl \<and> TAB \<notin> set score \<and> TAB \<notin> set p
     \<and> line_ok (porcelain_line (Renamed x y fl score p orig))"
| "entry_ok (Unmerged x y fl p) \<longleftrightarrow> line_ok (porcelain_line (Unmerged x y fl p))"
| "entry_ok (Untracked p) \<longleftrightarrow> line_ok (porcelain_line (Untracked p))"

text \<open>What the code takes from an entry: of a rename the score as part of the path, of an unmerged entry
  nothing.\<close>

fun entry_status :: "porcelain \<Rightarrow> (char \<times> char \<times> str) option" where
  "entry_status (Ordinary x y fl p) = Some (x, y, p)"
| "entry_status (Renamed x y fl score p orig) = Some (x, y, score @ SP # p)"
| "entry_status _ = None"

definition staged_of :: "porcelain \<Rightarrow> file_status list" where
  "staged_of e =
     (case entry_status e of None \<Rightarrow> []
      | Some (x, y, p) \<Rightarrow> if x = CHR ''.'' then [] else [\<lparr>fs_path = p, fs_status = [x]\<rparr>])"

definition unstaged_of :: "porcelain \<Rightarrow> file_status list" where
  "unstaged_of e =
     (case entry_status e of None \<Rightarrow> []
      | Some (x, y, p) \<Rightarrow> if y = CHR ''.'' then [] else [\<lparr>fs_path = p, fs_status = [y]\<rparr>])"

definition untracked_of :: "porcelain \<Rightarrow> file_status list" where
  "untracked_of e = (case e of Untracked p \<Rightarrow> [\<lparr>fs_path = p, fs_status = ''?''\<rparr>] | _ \<Rightarrow> [])"

lemma splitn_char_join:
  "list_all (\<lambda>f. c \<notin> set f) fs \<Longrightarrow> splitn_char (Suc (length fs)) c (join [c] (fs @ [r])) = fs @ [r]"
proof (induction fs)
  case (Cons f fs)
  then have f: "c \<notin> set f" by simp
  have step: "splitn_char (Suc (Suc n)) c (f @ c # s) = f # splitn_char (Suc n) c s" for n s
    using f by (auto simp: dropWhile_append takeWhile_append dropWhile_eq_Nil_conv
        intro: takeWhile_eq_all_conv [THEN iffD2])
  have "join [c] ((f # fs) @ [r]) = f @ c # join [c] (fs @ [r])" by (simp add: join_Cons)
  with step Cons show ?case by simp
qed simp

lemma changed_parts:
  assumes "letters_ok x y fl" and "SP \<notin> set k"
  shows "splitn_char 9 SP (join [SP] ([k, [x, y]] @ fl @ [p])) = [k, [x, y]] @ fl @ [p]"
proof -
  let ?fs = "[k, [x, y]] @ fl"
  have "list_all (\<lambda>f. SP \<notin> set f) ?fs" and size: "Suc (length ?fs) = 9"
    using assms by (auto simp: letters_ok_def)
  from splitn_char_join [OF this(1), of p] show ?thesis unfolding size append_assoc .
qed

lemma two_letters: "\<not> is_cont_byte y \<Longrightarrow> slice [x, y] 0 1 = Some [x] \<and> slice [x, y] 1 2 = Some [y]"
  by (simp add: slice_def is_char_boundary_def)

lemma changed_entry_line:
  assumes "letters_ok x y fl" and "SP \<notin> set k" and "line = join [SP] ([k, [x, y]] @ fl @ [p])"
  shows "changed_entry line st = Some (add_changed [x] [y] (changed_path line p) st)"
proof -
  have parts: "splitn_char 9 SP line = [k, [x, y]] @ fl @ [p]"
    unfolding assms(3) by (rule changed_parts [OF assms(1,2)])
  have last: "([k, [x, y]] @ fl @ [p]) ! 8 = p"
    using assms(1) nth_append_length [of "[k, [x, y]] @ fl" p] by (simp add: letters_ok_def)
  have second: "([k, [x, y]] @ fl @ [p]) ! 1 = [x, y]" and size: "9 \<le> length ([k, [x, y]] @ fl @ [p])"
    using assms(1) by (simp_all add: letters_ok_def)
  have "slice [x, y] 0 1 = Some [x]" and "slice [x, y] 1 2 = Some [y]"
    using assms(1) two_letters [of y x] by (simp_all add: letters_ok_def)
  then show ?thesis
    by (simp only: changed_entry_def parts last second size Let_def if_True option.case prod.case)
qed

lemma split_char_head: "c \<notin> set a \<Longrightarrow> hd (split_char c (a @ c # s)) = a"
  by (induction a) (auto split: list.splits)

definition reported :: "porcelain \<Rightarrow> status_output \<Rightarrow> status_output" where
  "reported e st =
     st\<lparr>so_staged := so_staged st @ staged_of e, so_unstaged := so_unstaged st @ unstaged_of e,
        so_untracked := so_untracked st @ untracked_of e\<rparr>"

lemma entry_line_cases:
  "join [SP] ([k, [x, y]] @ fl @ [p]) = k @ SP # join [SP] ([x, y] # fl @ [p])"
  by (simp add: join_Cons)

lemma status_line_entry: "entry_ok e \<Longrightarrow> status_line st (porcelain_line e) = Some (reported e st)"
proof (cases e)
  case (Ordinary x y fl p)
  assume "entry_ok e"
  with Ordinary have ok: "letters_ok x y fl" by simp
  have "changed_entry (porcelain_line e) st = Some (add_changed [x] [y] p st)"
    unfolding Ordinary porcelain_line.simps
    by (subst changed_entry_line [OF ok _ refl])
      (simp_all add: changed_path_def entry_line_cases starts_with_def del: append.simps)
  then show ?thesis
    by (simp add: status_line_def strip_prefix_def starts_with_def entry_line_cases Ordinary reported_def
        add_changed_def staged_of_def unstaged_of_def untracked_of_def Let_def)
next
  case (Renamed x y fl score p orig)
  assume "entry_ok e"
  with Renamed have ok: "letters_ok x y fl" and tab: "TAB \<notin> set (score @ SP # p)" by simp_all
  have "hd (split_char TAB (score @ SP # p @ TAB # orig)) = score @ SP # p"
    using split_char_head [OF tab, of orig] by simp
  then have "changed_entry (porcelain_line e) st = Some (add_changed [x] [y] (score @ SP # p) st)"
    unfolding Renamed porcelain_line.simps
    by (subst changed_entry_line [OF ok _ refl])
      (simp_all add: changed_path_def entry_line_cases starts_with_def del: append.simps)
  then show ?thesis
    by (simp add: status_line_def strip_prefix_def starts_with_def entry_line_cases Renamed reported_def
        add_changed_def staged_of_def unstaged_of_def untracked_of_def Let_def)
qed (simp_all add: status_line_def strip_prefix_def starts_with_def entry_line_cases reported_def
      staged_of_def unstaged_of_def untracked_of_def)

definition terminated :: "str list \<Rightarrow> str" where
  "terminated ls = concat (map (\<lambda>l. l @ [NL]) ls)"

lemma str_lines_terminated: "list_all line_ok ls \<Longrightarrow> str_lines (terminated ls) = ls"
proof (induction ls)
  case (Cons l ls)
  then have "str_lines (l @ NL # terminated ls) = strip_cr l # str_lines (terminated ls)"
    by (intro str_lines_step) (simp add: line_ok_def)
  with Cons show ?case by (simp add: terminated_def strip_cr_id)
qed (simp add: terminated_def)

lemma status_lines_entries:
  "list_all entry_ok es \<Longrightarrow> status_lines st (map porcelain_line es) = Some (fold reported es st)"
  by (induction es arbitrary: st) (simp_all add: status_line_entry)

lemma fold_reported:
  "fold reported es st =
     st\<lparr>so_staged := so_staged st @ concat (map staged_of es), so_unstaged := so_unstaged st @ concat (map unstaged_of es),
        so_untracked := so_untracked st @ concat (map untracked_of es)\<rparr>"
  by (induction es arbitrary: st) (simp_all add: reported_def)

definition ahead_line :: "u32 \<Rightarrow> u32 \<Rightarrow> str" where
  "ahead_line a b = join [SP] [''#'', ''branch.ab'', CHR ''+'' # to_decimal (unat a), CHR ''-'' # to_decimal (unat b)]"

lemma ahead_line_read: "status_line st (ahead_line a b) = Some (st\<lparr>so_ahead := a, so_behind := b\<rparr>)"
proof -
  let ?ws = "[''#'', ''branch.ab'', CHR ''+'' # to_decimal (unat a), CHR ''-'' # to_decimal (unat b)]"
  have "list_all plain_word ?ws"
    using to_decimal_plain [of "unat a"] to_decimal_plain [of "unat b"]
    by (auto simp: plain_word_def plain_def list_all_iff)
  then have words: "split_whitespace (ahead_line a b) = ?ws"
    unfolding ahead_line_def split_whitespace_def by (rule split_ws_words)
  show ?thesis
    by (simp add: status_line_def ahead_behind_def words signed_count_def strip_prefix_def starts_with_def
        parse_u32_decimal Let_def) (simp add: ahead_line_def starts_with_def)
qed

lemma ahead_line_ok: "line_ok (ahead_line a b)"
proof -
  have "NL \<notin> set (to_decimal (unat n))" "CR \<notin> set (to_decimal (unat n))" for n :: u32
    by (simp_all add: not_in_decimal is_digit_def)
  moreover have "last (ahead_line a b) = last (to_decimal (unat b))" by (simp add: ahead_line_def)
  ultimately have "last (ahead_line a b) \<noteq> CR"
    by (metis last_in_set to_decimal_nonempty)
  then show ?thesis using \<open>\<And>n. NL \<notin> set (to_decimal (unat n))\<close> by (simp add: line_ok_def ahead_line_def)
qed

text \<open>The header that \<open>--branch\<close> prints: the commit, or \<open>(initial)\<close> before the first one, the branch, and
  when the branch follows another one its name and, unless that branch is gone, the commits ahead and behind.\<close>

datatype tracking = NoUpstream | UpstreamGone str | Upstream str u32 u32

fun tracking_lines :: "tracking \<Rightarrow> str list" where
  "tracking_lines NoUpstream = []"
| "tracking_lines (UpstreamGone u) = [''# branch.upstream '' @ u]"
| "tracking_lines (Upstream u a b) = [''# branch.upstream '' @ u, ahead_line a b]"

definition branch_header :: "str \<Rightarrow> str \<Rightarrow> tracking \<Rightarrow> str list" where
  "branch_header oid branch t = [''# branch.oid '' @ oid, ''# branch.head '' @ branch] @ tracking_lines t"

fun tracking_ok :: "tracking \<Rightarrow> bool" where
  "tracking_ok NoUpstream = True"
| "tracking_ok (UpstreamGone u) = line_ok u"
| "tracking_ok (Upstream u a b) = line_ok u"

fun commits_ahead :: "tracking \<Rightarrow> u32" where
  "commits_ahead (Upstream u a b) = a"
| "commits_ahead _ = 0"

fun commits_behind :: "tracking \<Rightarrow> u32" where
  "commits_behind (Upstream u a b) = b"
| "commits_behind _ = 0"

lemma status_lines_append:
  "status_lines st (xs @ ys) = (case status_lines st xs of None \<Rightarrow> None | Some st1 \<Rightarrow> status_lines st1 ys)"
  by (induction xs arbitrary: st) (simp_all split: option.splits)

lemma header_lines_skipped:
  "status_line st (''# branch.oid '' @ oid) = Some st" "status_line st (''# branch.upstream '' @ u) = Some st"
  "status_line st (''# branch.head '' @ branch) = Some (st\<lparr>so_branch := branch\<rparr>)"
  by (simp_all add: status_line_def strip_prefix_def starts_with_def)

lemma branch_header_read:
  "so_ahead st = 0 \<Longrightarrow> so_behind st = 0 \<Longrightarrow>
   status_lines st (branch_header oid branch t) =
     Some (st\<lparr>so_branch := branch, so_ahead := commits_ahead t, so_behind := commits_behind t\<rparr>)"
  by (cases t) (simp_all add: branch_header_def header_lines_skipped [simplified] ahead_line_read)

lemma header_line_ok:
  assumes "line_ok x"
  shows "line_ok (''# branch.oid '' @ x)" "line_ok (''# branch.head '' @ x)" "line_ok (''# branch.upstream '' @ x)"
  using assms by (auto simp: line_ok_def)

lemma branch_header_ok:
  "line_ok oid \<Longrightarrow> line_ok branch \<Longrightarrow> tracking_ok t \<Longrightarrow> list_all line_ok (branch_header oid branch t)"
  by (cases t) (simp_all add: branch_header_def ahead_line_ok header_line_ok [simplified])

text \<open>C37. The status that \<open>git status --porcelain=v2 --branch\<close> prints is read back: the branch, the numbers of
  commits ahead and behind (0 when the branch follows none), and each file under its state letters, with its path
  as printed, whatever characters that has. As printed means: a path that git puts in quotes keeps quotes and
  escapes, the path of a renamed file is read with its score in front, and an unmerged file is in no list.\<close>

theorem status_read:
  assumes "line_ok oid" and "line_ok branch" and "tracking_ok t" and "list_all entry_ok es"
    and "raw = terminated (branch_header oid branch t @ map porcelain_line es)"
  shows "parse_status raw =
    Some \<lparr>so_branch = branch, so_ahead = commits_ahead t, so_behind = commits_behind t,
          so_staged = concat (map staged_of es), so_unstaged = concat (map unstaged_of es),
          so_untracked = concat (map untracked_of es), so_raw = raw\<rparr>"
proof -
  have "line_ok (porcelain_line e)" if "entry_ok e" for e using that by (cases e) auto
  then have "list_all line_ok (map porcelain_line es)" using assms(4) by (auto simp: list_all_iff)
  then have "str_lines raw = branch_header oid branch t @ map porcelain_line es"
    unfolding assms(5) using branch_header_ok [OF assms(1-3)] by (intro str_lines_terminated) simp
  then show ?thesis
    using assms(4)
    by (simp add: parse_status_def status_lines_append branch_header_read status_lines_entries fold_reported)
qed

definition demo_fields :: "str list" where
  "demo_fields = [''N...'', ''100644'', ''100644'', ''100644'', ''e69de29'', ''e69de29'']"

definition demo_entries :: "porcelain list" where
  "demo_entries =
     [Ordinary (CHR ''M'') (CHR ''.'') demo_fields ''a b.rs'',
      Renamed (CHR ''R'') (CHR ''M'') demo_fields ''R100'' ''new.rs'' ''old.rs'',
      Unmerged (CHR ''U'') (CHR ''U'') demo_fields ''both.rs'', Untracked ''new.rs'']"

lemma demo_status_ok:
  "line_ok ''e69de29''" "line_ok ''main''" "tracking_ok (Upstream ''origin/main'' 1 2)" "list_all entry_ok demo_entries"
  by (simp_all add: line_ok_def demo_entries_def demo_fields_def letters_ok_def is_cont_byte_def)

theorem status_read_witness:
  "map_option (\<lambda>st. (so_branch st, so_ahead st, so_behind st, so_staged st, so_unstaged st))
     (parse_status (terminated (branch_header ''e69de29'' ''main'' (Upstream ''origin/main'' 1 2)
        @ map porcelain_line demo_entries)))
   = Some (''main'', 1, 2,
       [\<lparr>fs_path = ''a b.rs'', fs_status = ''M''\<rparr>, \<lparr>fs_path = ''R100 new.rs'', fs_status = ''R''\<rparr>],
       [\<lparr>fs_path = ''R100 new.rs'', fs_status = ''M''\<rparr>])"
  using status_read [OF demo_status_ok refl]
  by (simp add: demo_entries_def staged_of_def unstaged_of_def)

text \<open>A path with a letter outside ASCII is printed in quotes with octal escapes, and kept like that.\<close>

lemma quoted_path_kept:
  "map_option so_untracked (parse_status (terminated (branch_header ''e69de29'' ''main'' NoUpstream
     @ [''? '' @ CHR 0x22 # ''caf'' @ [BACKSLASH] @ ''303'' @ [BACKSLASH] @ ''251.rs'' @ [CHR 0x22]])))
   = Some [\<lparr>fs_path = CHR 0x22 # ''caf'' @ [BACKSLASH] @ ''303'' @ [BACKSLASH] @ ''251.rs'' @ [CHR 0x22],
            fs_status = ''?''\<rparr>]"
proof -
  let ?p = "CHR 0x22 # ''caf'' @ [BACKSLASH] @ ''303'' @ [BACKSLASH] @ ''251.rs'' @ [CHR 0x22]"
  have "line_ok ''e69de29''" "line_ok ''main''" "list_all line_ok [''? '' @ ?p]" by (simp_all add: line_ok_def)
  then have "str_lines (terminated (branch_header ''e69de29'' ''main'' NoUpstream @ [''? '' @ ?p]))
      = branch_header ''e69de29'' ''main'' NoUpstream @ [''? '' @ ?p]"
    using branch_header_ok [of _ _ NoUpstream] by (intro str_lines_terminated) simp
  then show ?thesis
    by (simp add: parse_status_def status_lines_append branch_header_read)
      (simp add: status_line_def strip_prefix_def starts_with_def)
qed

lemma renamed_with_score:
  "entry_ok (Renamed (CHR ''R'') (CHR ''.'') demo_fields ''R100'' ''new.rs'' ''old.rs'')
   \<and> staged_of (Renamed (CHR ''R'') (CHR ''.'') demo_fields ''R100'' ''new.rs'' ''old.rs'')
     = [\<lparr>fs_path = ''R100 new.rs'', fs_status = ''R''\<rparr>]"
  by (simp add: line_ok_def demo_fields_def letters_ok_def is_cont_byte_def staged_of_def)

text \<open>A tab in the subject of a commit moves the fields of the log: the rest of the subject is the author.\<close>

lemma log_entry_read:
  "list_all (\<lambda>f. TAB \<notin> set f) [sha, message, author] \<Longrightarrow> sha \<noteq> [] \<Longrightarrow>
   log_entry_of (join [TAB] [sha, message, author, date])
     = Some \<lparr>le_sha = sha, le_message = message, le_author = author, le_date = date\<rparr>"
  using splitn_char_join [of TAB "[sha, message, author]" date]
  by (simp add: log_entry_of_def Let_def numeral_eq_Suc)

lemma log_subject_with_tab:
  "list_all (\<lambda>f. TAB \<notin> set f) [sha, message, rest] \<Longrightarrow> sha \<noteq> [] \<Longrightarrow>
   log_entry_of (join [TAB] [sha, message @ TAB # rest, author, date])
     = Some \<lparr>le_sha = sha, le_message = message, le_author = rest, le_date = author @ TAB # date\<rparr>"
  using splitn_char_join [of TAB "[sha, message, rest]" "author @ TAB # date"]
  by (simp add: log_entry_of_def Let_def numeral_eq_Suc)

section \<open>Pull requests\<close>

lemma trim_plain:
  assumes "w \<noteq> []" and "list_all plain w"
  shows "trim w = w"
proof -
  from assms obtain a r where a: "w = a # r" "plain a" by (cases w) auto
  from assms obtain q b where b: "w = q @ [b]" "plain b" by (cases w rule: rev_cases) auto
  have "trim_start w = w" using a by (simp add: trim_start.simps [of "a # r"] ws_len_plain)
  moreover have "trim_end w = w" using b by (simp add: trim_end.simps [of "q @ [b]"] ws_len_end_plain)
  ultimately show ?thesis by (simp add: trim_def)
qed

definition github_prefixes :: "str list" where
  "github_prefixes = [''git@github.com:'', ''https://github.com/'', ''http://github.com/'']"

lemma dot_git_split:
  assumes "owner @ SLASH # repo = r @ ''.git''"
  shows "ends_with repo ''.git''"
proof -
  from assms have "(owner @ [SLASH]) @ repo = r @ ''.git''" by simp
  from iffD1 [OF append_eq_append_conv2 this]
  obtain u where "(owner @ [SLASH] = r @ u \<and> u @ repo = ''.git'') \<or> ((owner @ [SLASH]) @ u = r \<and> repo = u @ ''.git'')"
    by blast
  then show ?thesis
  proof
    assume u: "owner @ [SLASH] = r @ u \<and> u @ repo = ''.git''"
    then have "u = [] \<or> SLASH \<in> set u" by (cases u rule: rev_cases) auto
    moreover have "SLASH \<notin> set u"
    proof -
      from u have "set u \<subseteq> set ''.git''" by (metis Un_upper1 set_append)
      then show ?thesis by auto
    qed
    ultimately show ?thesis using u by (auto simp: ends_with_iff)
  qed (auto simp: ends_with_iff)
qed

lemma owner_and_repo_parts:
  assumes "SLASH \<notin> set owner" and "owner \<noteq> []" and "repo \<noteq> []" and "\<not> ends_with repo ''.git''"
    and "suffix \<in> {[], ''.git''}"
  shows "owner_and_repo (owner @ SLASH # repo @ suffix) = Some (owner, repo)"
proof -
  have split: "splitn_char 2 SLASH (owner @ SLASH # repo) = [owner, repo]"
    using splitn_char_join [of SLASH "[owner]" repo] assms(1) by (simp add: numeral_2_eq_2)
  have "(case strip_suffix (owner @ SLASH # repo @ suffix) ''.git'' of None \<Rightarrow> owner @ SLASH # repo @ suffix | Some r \<Rightarrow> r)
      = owner @ SLASH # repo"
  proof (cases "suffix = []")
    case True
    have "strip_suffix (owner @ SLASH # repo) ''.git'' \<noteq> Some r" for r
      using assms(4) dot_git_split [of owner repo r] unfolding strip_suffix_Some_iff by blast
    then have "strip_suffix (owner @ SLASH # repo) ''.git'' = None" by blast
    with True show ?thesis by simp
  next
    case False
    with assms(5) have "strip_suffix (owner @ SLASH # repo @ suffix) ''.git'' = Some (owner @ SLASH # repo)"
      by (simp add: strip_suffix_Some_iff)
    then show ?thesis by simp
  qed
  then show ?thesis using assms(2,3) split by (simp add: owner_and_repo_def Let_def)
qed

text \<open>Each form of a remote of GitHub, with and without \<open>.git\<close>, gives the owner and the repository.\<close>

lemma remote_url_forms:
  assumes "prefix \<in> set github_prefixes" and "suffix \<in> {[], ''.git''}"
    and "list_all plain owner" and "list_all plain repo" and "SLASH \<notin> set owner"
    and "owner \<noteq> []" and "repo \<noteq> []" and "\<not> ends_with repo ''.git''"
  shows "parse_remote_url (prefix @ owner @ SLASH # repo @ suffix) = Inr (owner, repo)"
proof -
  have "list_all plain prefix" and "list_all plain suffix"
    using assms(1,2) by (auto simp: github_prefixes_def plain_def)
  then have "trim (prefix @ owner @ SLASH # repo @ suffix) = prefix @ owner @ SLASH # repo @ suffix"
    using assms(3,4) by (intro trim_plain) (simp_all add: plain_def)
  then show ?thesis
    using assms(1) owner_and_repo_parts [OF assms(5-8,2)]
    by (auto simp: parse_remote_url_def github_prefixes_def strip_prefix_def starts_with_def Let_def)
qed

text \<open>A slash at the end of the address is read as part of the name of the repository.\<close>

lemma trailing_slash_kept: "parse_remote_url ''https://github.com/a/b/'' = Inr (''a'', ''b/'')"
  by code_simp

text \<open>The token leaves the machine only in requests to GitHub's own interface: two clients that agree on
  addresses there give the same pull request, whatever the remote, the branch and the texts are.\<close>

theorem token_only_to_github:
  assumes "\<And>q. starts_with (gq_url q) ''https://api.github.com/repos/'' \<Longrightarrow> gh_send env q = send q"
  shows "create_pr git env repo_path title body branch base d
       = create_pr git (env\<lparr>gh_send := send\<rparr>) repo_path title body branch base d"
proof -
  have send: "gh_send env \<lparr>gq_url = pulls_url owner repo @ s, gq_headers = h, gq_body = j\<rparr>
      = send \<lparr>gq_url = pulls_url owner repo @ s, gq_headers = h, gq_body = j\<rparr>" for owner repo s h j
    by (rule assms) (simp add: pulls_url_def starts_with_def)
  have found: "find_existing_pr env branch owner repo token = find_existing_pr (env\<lparr>gh_send := send\<rparr>) branch owner repo token"
    for owner repo token by (simp add: find_existing_pr_def send)
  have plain_send: "gh_send env \<lparr>gq_url = pulls_url owner repo, gq_headers = h, gq_body = j\<rparr>
      = send \<lparr>gq_url = pulls_url owner repo, gq_headers = h, gq_body = j\<rparr>" for owner repo h j
    using send [of owner repo "[]"] by simp
  have "gh_send (env\<lparr>gh_send := send\<rparr>) = send" and "gh_print (env\<lparr>gh_send := send\<rparr>) = gh_print env" by simp_all
  then have opened: "open_pr env title body branch base owner repo token
      = open_pr (env\<lparr>gh_send := send\<rparr>) title body branch base owner repo token" for owner repo token
    unfolding open_pr_def found plain_send by (simp only:)
  have "resolve_gh (env\<lparr>gh_send := send\<rparr>) d = resolve_gh env d" for d
    by (simp add: resolve_gh_def cong: option.case_cong)
  then have "gh_cli_token (env\<lparr>gh_send := send\<rparr>) d = gh_cli_token env d" for d
    by (simp add: gh_cli_token_def)
  then have token: "auth_token (env\<lparr>gh_send := send\<rparr>) d = auth_token env d" for d
    by (simp add: auth_token_def cong: option.case_cong if_cong)
  show ?thesis unfolding create_pr_def opened token by (rule refl)
qed

text \<open>A client that would answer elsewhere too.\<close>

definition open_env :: gh_env where
  "open_env =
     \<lparr>gh_github_token = Some ''t'', gh_home_var = None, gh_run = (\<lambda>_ _. Inl ''no gh''),
      gh_send = (\<lambda>q. if starts_with (gq_url q) ''https://api.github.com/repos/'' then Inl ''down'' else Inr (201, Inr JNull)),
      gh_print = (\<lambda>_. [])\<rparr>"

theorem token_only_to_github_witness:
  "\<forall>git repo_path title body branch base d. create_pr git open_env repo_path title body branch base d
     = create_pr git (open_env\<lparr>gh_send := (\<lambda>_. Inl ''down'')\<rparr>) repo_path title body branch base d"
proof (intro allI)
  fix git repo_path title body branch base d
  show "create_pr git open_env repo_path title body branch base d
     = create_pr git (open_env\<lparr>gh_send := (\<lambda>_. Inl ''down'')\<rparr>) repo_path title body branch base d"
    by (rule token_only_to_github) (simp add: open_env_def)
qed

end
