(* ===== verification/CodeSearch.thy ===== *)
theory CodeSearch
  imports GitOps
begin

text \<open>
  The search service of an indexed project, \<open>crates/agent/src/context_engine.rs\<close>, and the two tools that
  ask it, \<open>tool/codebase_search.rs\<close> and \<open>codebase_graph.rs\<close>. The trait \<open>ContextEngineApi\<close> is the record
  \<open>context_engine_api\<close> of its operations; the client and the fixed answers of \<open>MockContextEngine\<close> are its
  values. What the client hands to other crates, the HTTP client, serde's reading of an answer and the
  percent encoding, is the record \<open>engine_env\<close>. A relevance is the bits of an \<open>f32\<close>; its printing with two
  digits is a parameter of the search tool.
\<close>

section \<open>The service\<close>

datatype context_engine_error =
    EngineUnavailable str
  | EngineHttpError "16 word" str
  | DeserializeError str

definition engine_error_text :: "context_engine_error \<Rightarrow> str" where
  "engine_error_text e =
     (case e of
        EngineUnavailable msg \<Rightarrow> ''Context engine unavailable: '' @ msg
      | EngineHttpError status body \<Rightarrow> ''HTTP error '' @ to_decimal (unat status) @ '': '' @ body
      | DeserializeError msg \<Rightarrow> ''Deserialization error: '' @ msg)"

record context_engine_config =
  ce_base_url :: str
  ce_user_id :: str
  ce_workspace_id :: "64 word"
  ce_machine_id :: str
  ce_repo_path :: str
  ce_auth_token :: str

record search_request =
  sq_query :: str
  sq_repo_path :: str
  sq_strategy :: "str option"
  sq_limit :: "u32 option"
  sq_user_id :: str
  sq_workspace_id :: "64 word"
  sq_machine_id :: str

record search_result_item =
  si_chunk_id :: str
  si_content :: str
  si_file_path :: str
  si_language :: str
  si_score :: "32 word"
  si_source :: str

record search_response =
  sp_query :: str
  sp_total :: u32
  sp_results :: "search_result_item list"
  sp_indexing :: bool
  sp_message :: "str option"

record graph_query_request =
  gqr_query :: "str option"
  gqr_function_name :: "str option"
  gqr_file_path :: "str option"
  gqr_repo_path :: str
  gqr_query_type :: "str option"
  gqr_user_id :: str
  gqr_workspace_id :: "64 word"
  gqr_machine_id :: str

record graph_result_item =
  gi_name :: str
  gi_file_path :: str
  gi_chunk_id :: str
  gi_depth :: u32
  gi_direction :: "str option"

record graph_query_response =
  gr_total :: u32
  gr_results :: "graph_result_item list"
  gr_indexing :: bool
  gr_message :: "str option"

record index_status_response =
  ix_exists :: bool
  ix_collection_name :: "str option"
  ix_repo_id :: "64 word option"
  ix_empty :: bool

record context_engine_api =
  ea_index_status :: "context_engine_error + index_status_response"
  ea_search :: "str \<Rightarrow> str option \<Rightarrow> u32 option \<Rightarrow> context_engine_error + search_response"
  ea_graph_query :: "str option \<Rightarrow> str option \<Rightarrow> str option \<Rightarrow> str option \<Rightarrow> context_engine_error + graph_query_response"

section \<open>The client\<close>

text \<open>A request has a JSON body when it is a POST. It is answered with a status and the text of the body,
  each of which can fail with a message.\<close>

record engine_http =
  eh_url :: str
  eh_headers :: "(str \<times> str) list"
  eh_body :: "json option"

record engine_env =
  ee_send :: "engine_http \<Rightarrow> str + 16 word \<times> (str + str)"
  ee_encode :: "str \<Rightarrow> str"
  ee_index_status_of :: "str \<Rightarrow> str + index_status_response"
  ee_search_of :: "str \<Rightarrow> str + search_response"
  ee_graph_of :: "str \<Rightarrow> str + graph_query_response"

definition apply_auth_headers :: "context_engine_config \<Rightarrow> (str \<times> str) list" where
  "apply_auth_headers c =
     (if ce_auth_token c \<noteq> [] then [(''X-Auth-Token'', ce_auth_token c)] else [])
     @ (if ce_user_id c \<noteq> [] then [(''X-USER-ID'', ce_user_id c)] else [])
     @ [(''X-Workspace-ID'', to_decimal (unat (ce_workspace_id c)))]"

text \<open>\<open>get\<close> and \<open>post_json\<close>, which differ in the body only: a body that cannot be read is empty in an error.\<close>

definition engine_request :: "engine_env \<Rightarrow> context_engine_config \<Rightarrow> str \<Rightarrow> json option \<Rightarrow> context_engine_error + (str + str)" where
  "engine_request env c url body =
     (case ee_send env \<lparr>eh_url = url, eh_headers = apply_auth_headers c, eh_body = body\<rparr> of
        Inl msg \<Rightarrow> Inl (EngineUnavailable msg)
      | Inr (status, answer) \<Rightarrow>
          if 200 \<le> status \<and> status < 300 then Inr answer
          else Inl (EngineHttpError status (case answer of Inl _ \<Rightarrow> [] | Inr t \<Rightarrow> t)))"

definition parse_json :: "(str \<Rightarrow> str + 'a) \<Rightarrow> str + str \<Rightarrow> context_engine_error + 'a" where
  "parse_json read answer =
     (case answer of
        Inl msg \<Rightarrow> Inl (EngineUnavailable msg)
      | Inr t \<Rightarrow>
          (case read t of
             Inl msg \<Rightarrow> Inl (DeserializeError (msg @ '': '' @ truncate_str t 200))
           | Inr x \<Rightarrow> Inr x))"

definition engine_call :: "engine_env \<Rightarrow> context_engine_config \<Rightarrow> (str \<Rightarrow> str + 'a) \<Rightarrow> str \<Rightarrow> json option
    \<Rightarrow> context_engine_error + 'a" where
  "engine_call env c read url body =
     (case engine_request env c url body of Inl e \<Rightarrow> Inl e | Inr answer \<Rightarrow> parse_json read answer)"

definition index_status_url :: "engine_env \<Rightarrow> context_engine_config \<Rightarrow> str" where
  "index_status_url env c =
     ce_base_url c @ ''/api/v1/index/status?repo_path='' @ ee_encode env (ce_repo_path c)
     @ ''&user_id='' @ ee_encode env (ce_user_id c) @ ''&workspace_id='' @ to_decimal (unat (ce_workspace_id c))
     @ ''&machine_id='' @ ee_encode env (ce_machine_id c)"

definition client_index_status :: "engine_env \<Rightarrow> context_engine_config \<Rightarrow> context_engine_error + index_status_response" where
  "client_index_status env c = engine_call env c (ee_index_status_of env) (index_status_url env c) None"

definition optional_field :: "str \<Rightarrow> json option \<Rightarrow> (str \<times> json) list" where
  "optional_field k v = (case v of None \<Rightarrow> [] | Some x \<Rightarrow> [(k, x)])"

definition u32_json :: "u32 \<Rightarrow> json" where "u32_json n = JNum (PosInt (ucast n))"

definition search_request_json :: "search_request \<Rightarrow> json" where
  "search_request_json r = JObj
     ([(''query'', JStr (sq_query r)), (''repo_path'', JStr (sq_repo_path r))]
      @ optional_field ''strategy'' (map_option JStr (sq_strategy r))
      @ optional_field ''limit'' (map_option u32_json (sq_limit r))
      @ [(''user_id'', JStr (sq_user_id r)), (''workspace_id'', JNum (PosInt (sq_workspace_id r))),
         (''machine_id'', JStr (sq_machine_id r))])"

definition client_search :: "engine_env \<Rightarrow> context_engine_config \<Rightarrow> str \<Rightarrow> str option \<Rightarrow> u32 option
    \<Rightarrow> context_engine_error + search_response" where
  "client_search env c query strategy limit =
     engine_call env c (ee_search_of env) (ce_base_url c @ ''/api/v1/search'')
       (Some (search_request_json
          \<lparr>sq_query = query, sq_repo_path = ce_repo_path c, sq_strategy = strategy, sq_limit = limit,
           sq_user_id = ce_user_id c, sq_workspace_id = ce_workspace_id c, sq_machine_id = ce_machine_id c\<rparr>))"

definition graph_request_json :: "graph_query_request \<Rightarrow> json" where
  "graph_request_json r = JObj
     (optional_field ''query'' (map_option JStr (gqr_query r))
      @ optional_field ''function_name'' (map_option JStr (gqr_function_name r))
      @ optional_field ''file_path'' (map_option JStr (gqr_file_path r))
      @ [(''repo_path'', JStr (gqr_repo_path r))]
      @ optional_field ''query_type'' (map_option JStr (gqr_query_type r))
      @ [(''user_id'', JStr (gqr_user_id r)), (''workspace_id'', JNum (PosInt (gqr_workspace_id r))),
         (''machine_id'', JStr (gqr_machine_id r))])"

definition client_graph_query :: "engine_env \<Rightarrow> context_engine_config \<Rightarrow> str option \<Rightarrow> str option \<Rightarrow> str option \<Rightarrow> str option
    \<Rightarrow> context_engine_error + graph_query_response" where
  "client_graph_query env c query function_name file_path query_type =
     engine_call env c (ee_graph_of env) (ce_base_url c @ ''/api/v1/graph/query'')
       (Some (graph_request_json
          \<lparr>gqr_query = query, gqr_function_name = function_name, gqr_file_path = file_path,
           gqr_repo_path = ce_repo_path c, gqr_query_type = query_type, gqr_user_id = ce_user_id c,
           gqr_workspace_id = ce_workspace_id c, gqr_machine_id = ce_machine_id c\<rparr>))"

definition engine_client :: "engine_env \<Rightarrow> context_engine_config \<Rightarrow> context_engine_api" where
  "engine_client env c =
     \<lparr>ea_index_status = client_index_status env c, ea_search = client_search env c,
      ea_graph_query = client_graph_query env c\<rparr>"

section \<open>Fixed answers\<close>

record mock_engine =
  mk_search :: search_response
  mk_graph :: graph_query_response
  mk_status :: index_status_response

definition mock_api :: "mock_engine \<Rightarrow> context_engine_api" where
  "mock_api m =
     \<lparr>ea_index_status = Inr (mk_status m), ea_search = (\<lambda>_ _ _. Inr (mk_search m)),
      ea_graph_query = (\<lambda>_ _ _ _. Inr (mk_graph m))\<rparr>"

definition mock_indexed_empty :: mock_engine where
  "mock_indexed_empty =
     \<lparr>mk_search = \<lparr>sp_query = [], sp_total = 0, sp_results = [], sp_indexing = False, sp_message = None\<rparr>,
      mk_graph = \<lparr>gr_total = 0, gr_results = [], gr_indexing = False, gr_message = None\<rparr>,
      mk_status = \<lparr>ix_exists = True, ix_collection_name = Some ''test_collection'', ix_repo_id = Some 1, ix_empty = False\<rparr>\<rparr>"

definition mock_not_indexed :: mock_engine where
  "mock_not_indexed =
     \<lparr>mk_search = \<lparr>sp_query = [], sp_total = 0, sp_results = [], sp_indexing = True,
                   sp_message = Some ''Repository is being indexed''\<rparr>,
      mk_graph = \<lparr>gr_total = 0, gr_results = [], gr_indexing = True,
                  gr_message = Some ''Repository is being indexed''\<rparr>,
      mk_status = \<lparr>ix_exists = False, ix_collection_name = None, ix_repo_id = None, ix_empty = True\<rparr>\<rparr>"

definition mock_with_search_results :: "search_result_item list \<Rightarrow> mock_engine" where
  "mock_with_search_results rs =
     \<lparr>mk_search = \<lparr>sp_query = [], sp_total = of_nat (length rs), sp_results = rs, sp_indexing = False, sp_message = None\<rparr>,
      mk_graph = \<lparr>gr_total = 0, gr_results = [], gr_indexing = False, gr_message = None\<rparr>,
      mk_status = \<lparr>ix_exists = True, ix_collection_name = Some ''test_collection'', ix_repo_id = Some 1, ix_empty = False\<rparr>\<rparr>"

definition mock_with_graph_results :: "graph_result_item list \<Rightarrow> mock_engine" where
  "mock_with_graph_results rs =
     \<lparr>mk_search = \<lparr>sp_query = [], sp_total = 0, sp_results = [], sp_indexing = False, sp_message = None\<rparr>,
      mk_graph = \<lparr>gr_total = of_nat (length rs), gr_results = rs, gr_indexing = False, gr_message = None\<rparr>,
      mk_status = \<lparr>ix_exists = True, ix_collection_name = Some ''test_collection'', ix_repo_id = Some 1, ix_empty = False\<rparr>\<rparr>"

section \<open>The search tool\<close>

abbreviation ELLIPSIS :: str where "ELLIPSIS \<equiv> [CHR 0xE2, CHR 0x80, CHR 0xA6]"

definition cap_chunk_content :: "str \<Rightarrow> nat \<Rightarrow> str" where
  "cap_chunk_content content max_bytes =
     (if length content \<le> max_bytes then content
      else truncate_str content max_bytes @ [NL] @ ELLIPSIS @ ''[truncated]'')"

definition stale_note :: str where
  "stale_note =
     ''/* NOTE: This file has local modifications in the working copy. ''
     @ ''Content below is from the index and may be stale. ''
     @ ''Use the read tool to see current content. */'' @ [NL]"

text \<open>The names that \<open>git diff --name-only\<close> prints, or the message of a failure.\<close>

definition git_names :: "git_program \<Rightarrow> str \<Rightarrow> str list \<Rightarrow> str \<Rightarrow> disk \<Rightarrow> disk \<times> (str + str set)" where
  "git_names git failed args dir d =
     (case git args dir d of
        (d1, Inl msg) \<Rightarrow> (d1, Inl (''git diff failed: '' @ msg))
      | (d1, Inr p) \<Rightarrow>
          if po_code p \<noteq> Some 0 then (d1, Inl (failed @ from_utf8_lossy (po_stderr p)))
          else (d1, Inr (set (str_lines (from_utf8_lossy (po_stdout p))))))"

definition annotate_stale :: "str set \<Rightarrow> search_result_item \<Rightarrow> search_result_item" where
  "annotate_stale changed r =
     (if si_file_path r \<in> changed then r\<lparr>si_content := stale_note @ si_content r\<rparr> else r)"

definition apply_local_overlay :: "git_program \<Rightarrow> str \<Rightarrow> search_result_item list \<Rightarrow> disk
    \<Rightarrow> disk \<times> (str + search_result_item list)" where
  "apply_local_overlay git dir rs d =
     (case git_names git ''git diff failed: '' [''diff'', ''--name-only'', ''HEAD''] dir d of
        (d1, Inl msg) \<Rightarrow> (d1, Inl msg)
      | (d1, Inr changed) \<Rightarrow>
     (case git_names git ''git diff (deleted) failed: '' [''diff'', ''--name-only'', ''--diff-filter=D'', ''HEAD''] dir d1 of
        (d2, Inl msg) \<Rightarrow> (d2, Inl msg)
      | (d2, Inr deleted) \<Rightarrow>
          (d2, Inr (map (annotate_stale changed) (filter (\<lambda>r. si_file_path r \<notin> deleted) rs)))))"

definition requested_limit :: "json \<Rightarrow> u32 option" where
  "requested_limit args = (case json_get args ''limit'' of Some (JNum (PosInt n)) \<Rightarrow> Some (ucast n) | _ \<Rightarrow> None)"

definition search_limit :: "json \<Rightarrow> tool_policy \<Rightarrow> u32 option" where
  "search_limit args policy =
     (case requested_limit args of None \<Rightarrow> tp_codebase_search_limit policy | Some n \<Rightarrow> Some n)"

definition cap_results :: "tool_policy \<Rightarrow> search_result_item list \<Rightarrow> search_result_item list" where
  "cap_results policy rs =
     (let rs = (case tp_codebase_search_limit policy of None \<Rightarrow> rs | Some l \<Rightarrow> take (unat l) rs) in
      case tp_codebase_search_chunk_bytes policy of
        None \<Rightarrow> rs
      | Some max_bytes \<Rightarrow> map (\<lambda>r. r\<lparr>si_content := cap_chunk_content (si_content r) max_bytes\<rparr>) rs)"

fun render_results :: "(32 word \<Rightarrow> str) \<Rightarrow> nat \<Rightarrow> search_result_item list \<Rightarrow> str" where
  "render_results show_score i [] = []"
| "render_results show_score i (r # rs) =
     ''## '' @ to_decimal (i + 1) @ ''. '' @ si_file_path r @ '' (score: '' @ show_score (si_score r) @ '', source: ''
     @ si_source r @ '')'' @ [NL] @ ''```'' @ si_language r @ [NL] @ si_content r @ [NL] @ ''```'' @ [NL, NL]
     @ render_results show_score (i + 1) rs"

definition search_answer :: "(32 word \<Rightarrow> str) \<Rightarrow> str \<Rightarrow> search_result_item list \<Rightarrow> tool_result" where
  "search_answer show_score query rs =
     tool_success (''Found '' @ to_decimal (length rs) @ '' results for '' @ [DQUOTE] @ query @ [DQUOTE] @ '':''
       @ [NL, NL] @ render_results show_score 0 rs)"

definition engine_unavailable_msg :: "context_engine_error \<Rightarrow> str" where
  "engine_unavailable_msg e =
     ''Context engine is unavailable. Use grep and glob tools to search the ''
     @ ''codebase directly. Error: '' @ engine_error_text e"

definition search_execute :: "git_program \<Rightarrow> (32 word \<Rightarrow> str) \<Rightarrow> context_engine_api \<Rightarrow> json \<Rightarrow> tool_context \<Rightarrow> world
    \<Rightarrow> world \<times> agent_event list \<times> (str + tool_result)" where
  "search_execute git show_score engine args cx w =
     (case json_get_str args ''query'' of
        None \<Rightarrow> (w, [], Inl (missing_param ''query''))
      | Some query \<Rightarrow>
     (case ea_search engine query (json_get_str args ''strategy'') (search_limit args (cx_policy cx)) of
        Inl e \<Rightarrow> (w, [], Inr (tool_failure (engine_unavailable_msg e)))
      | Inr response \<Rightarrow>
          if sp_indexing response
          then (w, [], Inr (tool_success (''The codebase is currently being indexed. This is a one-time process that ''
                  @ ''takes 2-5 minutes. Use grep and glob tools to search manually while ''
                  @ ''indexing completes.'')))
          else if sp_results response = []
          then (w, [], Inr (tool_success (''No results found for query '' @ quoted query @ ''. Try rephrasing, using a different ''
                  @ ''strategy (keyword for exact matches, vector for conceptual), or use grep ''
                  @ ''for exact pattern matching.'')))
          else case apply_local_overlay git (cx_working_dir cx) (sp_results response) (w_disk w) of
            (d, overlaid) \<Rightarrow>
              (w\<lparr>w_disk := d\<rparr>, [],
               Inr (search_answer show_score query
                 (cap_results (cx_policy cx) (case overlaid of Inl _ \<Rightarrow> sp_results response | Inr rs \<Rightarrow> rs))))))"

definition enum_param :: "str list \<Rightarrow> str \<Rightarrow> json" where
  "enum_param values desc =
     JObj [(''description'', JStr desc), (''enum'', JArr (map JStr values)), (''type'', JStr ''string'')]"

definition search_schema :: json where
  "search_schema = JObj
     [(''properties'', JObj
         [(''limit'', typed_param ''integer'' ''Maximum number of results to return (default: 20)''),
          (''query'', string_param (''Natural language description of what you'' @ [QUOTE] @ ''re looking for, or a code ''
              @ ''identifier / function name'')),
          (''strategy'', enum_param [''multi'', ''vector'', ''keyword'', ''graph'', ''hybrid'']
             (''Search strategy. '' @ quoted ''multi'' @ '' (default) combines vector+keyword. '' @ quoted ''vector''
              @ '' for semantic/conceptual. '' @ quoted ''keyword'' @ '' for exact identifiers. '' @ quoted ''graph''
              @ '' for dependency-aware. '' @ quoted ''hybrid'' @ '' for vector+graph blend.''))]),
      (''required'', JArr [JStr ''query'']),
      (''type'', JStr ''object'')]"

definition search_tool :: "git_program \<Rightarrow> (32 word \<Rightarrow> str) \<Rightarrow> context_engine_api \<Rightarrow> tool" where
  "search_tool git show_score engine =
     \<lparr>tl_name = ''codebase_search'',
      tl_description =
        ''Semantic code search across the entire indexed codebase. Returns relevant code chunks ''
        @ ''ranked by AI-computed relevance (not keyword match). ''
        @ ''USE THIS FIRST when you need to: understand how a feature works, find where something ''
        @ ''is implemented, or explore an unfamiliar codebase. Handles conceptual queries like ''
        @ quoted ''authentication flow'' @ '' or '' @ quoted ''rate limiting logic'' @ ''. Much more powerful than grep for ''
        @ ''anything that isn'' @ [QUOTE] @ ''t an exact string match. ''
        @ ''If the index is still being built or unavailable, this tool will tell you ''
        @ [CHR 0xE2, CHR 0x80, CHR 0x94] @ '' fall back to grep/glob in that case.'',
      tl_schema = search_schema, tl_execute = search_execute git show_score engine\<rparr>"

section \<open>The graph tool\<close>

fun render_rows :: "nat \<Rightarrow> graph_result_item list \<Rightarrow> str" where
  "render_rows i [] = []"
| "render_rows i (r # rs) =
     to_decimal (i + 1) @ ''. '' @ gi_name r @ '' ('' @ gi_file_path r @ '', depth: '' @ to_decimal (unat (gi_depth r)) @ '')''
     @ [NL] @ render_rows (i + 1) rs"

text \<open>Without a cap of the policy the cap is \<open>usize::MAX\<close>, which no list exceeds.\<close>

definition render_section :: "nat option \<Rightarrow> graph_result_item list \<Rightarrow> str" where
  "render_section cap items =
     (case cap of
        None \<Rightarrow> render_rows 0 items
      | Some n \<Rightarrow> render_rows 0 (take n items)
          @ (if n < length items then ELLIPSIS @ '' and '' @ to_decimal (length items - n) @ '' more'' @ [NL] else []))"

definition graph_section :: "bool \<Rightarrow> str \<Rightarrow> nat option \<Rightarrow> graph_result_item list \<Rightarrow> str" where
  "graph_section shown title cap items =
     (if shown \<and> items \<noteq> [] then ''## '' @ title @ [NL, NL] @ render_section cap items @ [NL] else [])"

definition is_caller :: "graph_result_item \<Rightarrow> bool" where "is_caller r \<longleftrightarrow> gi_direction r = Some ''caller''"

definition is_dependency :: "graph_result_item \<Rightarrow> bool" where
  "is_dependency r \<longleftrightarrow> gi_direction r = Some ''dependency''"

definition graph_answer :: "nat option \<Rightarrow> str \<Rightarrow> str option \<Rightarrow> graph_result_item list \<Rightarrow> str" where
  "graph_answer cap label query_type rs =
     ''Dependency graph for '' @ [DQUOTE] @ label @ [DQUOTE] @ '' '' @ [CHR 0xE2, CHR 0x80, CHR 0x94] @ '' ''
     @ to_decimal (length rs) @ '' results:'' @ [NL, NL]
     @ graph_section (query_type = None \<or> query_type = Some ''blast_radius'') ''Blast Radius (upstream callers)'' cap
         (filter is_caller rs)
     @ graph_section (query_type = None \<or> query_type = Some ''dependencies'') ''Dependencies (downstream)'' cap
         (filter is_dependency rs)
     @ graph_section (query_type = None) ''Related'' cap (filter (\<lambda>r. \<not> is_caller r \<and> \<not> is_dependency r) rs)"

definition lookup_label :: "str option \<Rightarrow> str option \<Rightarrow> str" where
  "lookup_label function_name query =
     (case function_name of Some f \<Rightarrow> f | None \<Rightarrow> (case query of Some q \<Rightarrow> q | None \<Rightarrow> ''query''))"

definition graph_execute :: "context_engine_api \<Rightarrow> json \<Rightarrow> tool_context \<Rightarrow> tool_result" where
  "graph_execute engine args cx =
     (let query = json_get_str args ''query'';
          function_name = json_get_str args ''function_name'';
          query_type = json_get_str args ''query_type''
      in if query = None \<and> function_name = None
         then tool_failure (''Either '' @ quoted ''query'' @ '' or '' @ quoted ''function_name'' @ '' must be provided. Use ''
                @ quoted ''query'' @ '' for natural language ('' @ quoted ''what calls the auth handler'' @ '') or ''
                @ quoted ''function_name'' @ '' for direct lookup ('' @ quoted ''ValidateToken'' @ '').'')
         else case ea_graph_query engine query function_name (json_get_str args ''file_path'') query_type of
           Inl e \<Rightarrow> tool_failure (''Context engine is unavailable. Use grep to find function references ''
                      @ ''manually. Error: '' @ engine_error_text e)
         | Inr response \<Rightarrow>
             if gr_indexing response
             then tool_success (''The codebase dependency graph is being built. Use grep to find function ''
                    @ ''references manually while indexing completes.'')
             else if gr_results response = []
             then tool_success (''No dependency information found for this query. The function may not be ''
                    @ ''indexed, or it has no callers/dependencies in the graph.'')
             else tool_success (graph_answer (tp_codebase_graph_section_cap (cx_policy cx))
                    (lookup_label function_name query) query_type (gr_results response)))"

definition graph_schema :: json where
  "graph_schema = JObj
     [(''properties'', JObj
         [(''file_path'', string_param ''File path to disambiguate function lookup when name is not unique''),
          (''function_name'', string_param ''Specific function/method name to look up directly in the graph''),
          (''query'', string_param (''Natural language query about code dependencies (e.g., ''
              @ quoted ''what calls the auth middleware'' @ '')'')),
          (''query_type'', enum_param [''blast_radius'', ''dependencies'']
             (''Type of graph query. '' @ quoted ''blast_radius'' @ '' finds upstream callers. '' @ quoted ''dependencies''
              @ '' finds downstream callees. Omit for both.''))]),
      (''type'', JStr ''object'')]"

definition graph_tool :: "context_engine_api \<Rightarrow> tool" where
  "graph_tool engine =
     \<lparr>tl_name = ''codebase_graph'',
      tl_description =
        ''Get the dependency graph for a function or symbol. Returns who calls it ''
        @ ''(blast radius / upstream) and what it calls (dependencies / downstream). ''
        @ ''USE THIS BEFORE modifying a function to understand what code depends on it and what ''
        @ ''might break. Essential for refactoring, deprecations, and impact analysis. ''
        @ ''Requires at least one of: query, function_name, or file_path. ''
        @ ''If the graph is still being built or unavailable, this tool will tell you ''
        @ [CHR 0xE2, CHR 0x80, CHR 0x94] @ '' fall back to grep/glob for textual searches in that case.'',
      tl_schema = graph_schema, tl_execute = (\<lambda>args cx w. (w, [], Inr (graph_execute engine args cx)))\<rparr>"

end
