(* ===== verification/CodeSearchFacts.thy ===== *)
theory CodeSearchFacts
  imports CodeSearch GitFacts "HOL-Library.Multiset"
begin

text \<open>
  The search tools: results are laid over the working copy as git reports it, their number and size follow
  the policy of the run, and the graph tool shows each result once.
\<close>

section \<open>The working copy\<close>

lemma git_names_printed:
  assumes "git args dir d = (d1, Inr p)" and "po_code p = Some 0" and "valid_utf8 (terminated names)"
    and "po_stdout p = terminated names" and "list_all line_ok names"
  shows "git_names git failed args dir d = (d1, Inr (set names))"
  using assms by (simp add: git_names_def from_utf8_lossy_valid str_lines_terminated)

text \<open>When git can tell which files differ from the last commit, exactly the results in files that are
  deleted are left out, those in files that are changed carry the note that they may be stale, and
  the others stand as they came, in their order.\<close>

theorem overlay_follows_working_copy:
  assumes "git [''diff'', ''--name-only'', ''HEAD''] dir d = (d1, Inr p)"
    and "git [''diff'', ''--name-only'', ''--diff-filter=D'', ''HEAD''] dir d1 = (d2, Inr q)"
    and "po_code p = Some 0" and "po_code q = Some 0"
    and "po_stdout p = terminated changed" and "po_stdout q = terminated deleted"
    and "list_all line_ok (changed @ deleted)"
    and "valid_utf8 (terminated changed)" and "valid_utf8 (terminated deleted)"
  shows "apply_local_overlay git dir rs d =
    (d2, Inr (map (\<lambda>r. if si_file_path r \<in> set changed then r\<lparr>si_content := stale_note @ si_content r\<rparr> else r)
                (filter (\<lambda>r. si_file_path r \<notin> set deleted) rs)))"
proof -
  have "git_names git f [''diff'', ''--name-only'', ''HEAD''] dir d = (d1, Inr (set changed))" for f
    by (rule git_names_printed) (use assms in simp_all)
  moreover have "git_names git f [''diff'', ''--name-only'', ''--diff-filter=D'', ''HEAD''] dir d1
      = (d2, Inr (set deleted))" for f
    by (rule git_names_printed) (use assms in simp_all)
  ultimately show ?thesis by (simp add: apply_local_overlay_def annotate_stale_def)
qed

definition demo_item :: "str \<Rightarrow> search_result_item" where
  "demo_item p =
     \<lparr>si_chunk_id = ''c'', si_content = ''code'', si_file_path = p, si_language = ''rust'', si_score = 0, si_source = ''v''\<rparr>"

definition printing_git :: "str list \<Rightarrow> str list \<Rightarrow> git_program" where
  "printing_git changed deleted args dir d =
     (d, Inr \<lparr>po_code = Some 0,
              po_stdout = terminated (if ''--diff-filter=D'' \<in> set args then deleted else changed), po_stderr = []\<rparr>)"

lemma demo_changed_names: "valid_utf8 (terminated [''a.rs'', ''b.rs''])" "valid_utf8 (terminated [''b.rs''])"
  "list_all line_ok ([''a.rs'', ''b.rs''] @ [''b.rs''])"
  by code_simp+

theorem overlay_follows_working_copy_witness:
  "apply_local_overlay (printing_git [''a.rs'', ''b.rs''] [''b.rs'']) ''/p'' (map demo_item [''a.rs'', ''b.rs'', ''c.rs'']) Map.empty
   = (Map.empty, Inr [(demo_item ''a.rs'')\<lparr>si_content := stale_note @ ''code''\<rparr>, demo_item ''c.rs''])"
  by (subst overlay_follows_working_copy [where changed = "[''a.rs'', ''b.rs'']" and deleted = "[''b.rs'']"])
    (auto simp: printing_git_def demo_changed_names demo_item_def line_ok_def)

text \<open>Git prints a name with bytes outside ASCII in quotes, with the bytes in octal; such a name matches no
  result, so a stale or deleted file passes as it is in the index.\<close>

lemma quoted_name_missed:
  fixes name :: str
  defines "name \<equiv> ''s/'' @ [CHR 0xC3, CHR 0xA4] @ ''.rs''"
    and "printed \<equiv> [DQUOTE] @ ''s/'' @ [BACKSLASH] @ ''303'' @ [BACKSLASH] @ ''244.rs'' @ [DQUOTE]"
  shows "apply_local_overlay (printing_git [printed] [printed]) ''/p'' [demo_item name] Map.empty
    = (Map.empty, Inr [demo_item name])"
proof -
  have ok: "valid_utf8 (terminated [printed])" "list_all line_ok ([printed] @ [printed])"
    unfolding printed_def by code_simp+
  show ?thesis
    by (subst overlay_follows_working_copy [where changed = "[printed]" and deleted = "[printed]"])
      (use ok in \<open>auto simp: printing_git_def demo_item_def name_def printed_def simp del: list_all_append\<close>)
qed

section \<open>The size of an answer\<close>

lemma floor_down_bound: "floor_down s n \<le> n"
  by (induction n) (simp_all add: le_SucI)

lemma cap_chunk_content_length: "length (cap_chunk_content s n) \<le> n + 15"
  using floor_down_bound [of s n]
  by (auto simp: cap_chunk_content_def truncate_str_def floor_char_boundary_def)

text \<open>C40. Under a policy with a limit and a chunk size, as that of benchmarks, the search tool lists at most as many
  results as the limit, each with at most as many bytes (and a marker of 15), whatever limit the model asks
  for and whatever the service returns.\<close>

theorem search_results_bounded:
  assumes "tp_codebase_search_limit (cx_policy cx) = Some l" and "tp_codebase_search_chunk_bytes (cx_policy cx) = Some n"
    and "json_get_str args ''query'' = Some query"
    and "ea_search engine query (json_get_str args ''strategy'') (search_limit args (cx_policy cx)) = Inr response"
    and "\<not> sp_indexing response" and "sp_results response \<noteq> []"
  shows "\<exists>rs. snd (snd (search_execute git show_score engine args cx w)) = Inr (search_answer show_score query rs)
    \<and> length rs \<le> unat l \<and> (\<forall>r \<in> set rs. length (si_content r) \<le> n + 15)"
proof -
  obtain d overlaid where overlay: "apply_local_overlay git (cx_working_dir cx) (sp_results response) (w_disk w) = (d, overlaid)"
    by fastforce
  let ?rs = "cap_results (cx_policy cx) (case overlaid of Inl _ \<Rightarrow> sp_results response | Inr rs \<Rightarrow> rs)"
  have "snd (snd (search_execute git show_score engine args cx w)) = Inr (search_answer show_score query ?rs)"
    using assms(3-6) overlay by (simp add: search_execute_def)
  moreover have "length ?rs \<le> unat l \<and> (\<forall>r \<in> set ?rs. length (si_content r) \<le> n + 15)"
    using cap_chunk_content_length by (auto simp: cap_results_def assms(1,2) Let_def)
  ultimately show ?thesis by blast
qed

definition search_cx :: tool_context where
  "search_cx = \<lparr>cx_working_dir = ''/p'', cx_session_id = ''s'', cx_tool_call_id = ''t'', cx_checkpoint_on = False,
     cx_checkpoint_turn = 0, cx_policy = bench_policy\<rparr>"

definition search_args :: json where
  "search_args = JObj [(''query'', JStr ''q''), (''limit'', JNum (PosInt 100))]"

definition big_engine :: context_engine_api where
  "big_engine = mock_api (mock_with_search_results (replicate 30 (demo_item ''a.rs'')))"

theorem search_results_bounded_witness:
  "\<forall>git w. \<exists>rs. snd (snd (search_execute git (\<lambda>_. ''0.50'') big_engine search_args search_cx w))
       = Inr (search_answer (\<lambda>_. ''0.50'') ''q'' rs) \<and> length rs \<le> 20 \<and> (\<forall>r \<in> set rs. length (si_content r) \<le> 2048 + 15)"
proof (intro allI)
  fix git w
  have "unat (20 :: u32) = 20" by simp
  then show "\<exists>rs. snd (snd (search_execute git (\<lambda>_. ''0.50'') big_engine search_args search_cx w))
       = Inr (search_answer (\<lambda>_. ''0.50'') ''q'' rs) \<and> length rs \<le> 20 \<and> (\<forall>r \<in> set rs. length (si_content r) \<le> 2048 + 15)"
    using search_results_bounded [of search_cx 20 2048 search_args "''q''" big_engine
        "mk_search (mock_with_search_results (replicate 30 (demo_item ''a.rs'')))" git "\<lambda>_. ''0.50''" w]
    by (simp add: search_cx_def bench_policy_def search_args_def json_get_str_def big_engine_def mock_api_def
        mock_with_search_results_def)
qed

text \<open>Without a policy the limit of the model is cut to 32 bits: 4294967296 asks for no results.\<close>

lemma limit_wraps: "search_limit (JObj [(''limit'', JNum (PosInt 4294967296))]) default_policy = Some 0"
  by (simp add: search_limit_def requested_limit_def)

section \<open>The graph\<close>

text \<open>A kind of query that is neither of the two, which the argument check lets pass, shows the number of
  results and none of them.\<close>

lemma unknown_query_type_shows_nothing:
  assumes "t \<notin> {''blast_radius'', ''dependencies''}"
  shows "graph_answer cap label (Some t) rs =
    ''Dependency graph for '' @ [DQUOTE] @ label @ [DQUOTE] @ '' '' @ [CHR 0xE2, CHR 0x80, CHR 0x94] @ '' ''
     @ to_decimal (length rs) @ '' results:'' @ [NL, NL]"
  using assms by (simp add: graph_answer_def graph_section_def)

lemma file_path_alone_refused:
  "tr_is_error (graph_execute engine (JObj [(''file_path'', JStr p)]) cx)"
  by (simp add: graph_execute_def json_get_str_def tool_failure_def)

lemma graph_partition:
  "mset rs = mset (filter is_caller rs) + mset (filter is_dependency rs)
     + mset (filter (\<lambda>r. \<not> is_caller r \<and> \<not> is_dependency r) rs)"
  by (induction rs) (auto simp: is_caller_def is_dependency_def)

end
