(* ===== verification/AgentTools.thy ===== *)
theory AgentTools
  imports CodeSearch Skills EditTool PatchTool Subagents
begin

text \<open>
  The tools of an agent together, as \<open>ToolRegistry::for_mode\<close> of \<open>crates/agent/src/tool/mod.rs\<close> and
  \<open>spawn_agent\<close> of \<open>agent/mod.rs\<close> register them: each name with the description, the schema and the execution of its source. The names of tools that the
  other theories did not wrap (\<open>read\<close>, \<open>edit\<close>, \<open>edit_plan\<close>, \<open>apply_patch\<close>) get theirs here. What the tools ask
  of the system is the record \<open>builtin_env\<close>. Two executions can panic; a panic ends the task of the call, and
  what that leaves of the world is the parameter \<open>crash\<close>.
\<close>

record builtin_env =
  bt_read_dir :: "disk \<Rightarrow> path \<Rightarrow> str + (str + str list)"
  bt_glob :: glob_env
  bt_grep :: grep_env
  bt_shell :: "str \<Rightarrow> str \<Rightarrow> 64 word \<Rightarrow> disk \<Rightarrow> disk \<times> command_end"
  bt_git :: git_program
  bt_gh :: gh_env
  bt_git_dir :: "str \<Rightarrow> str option"
  bt_alnum :: "str \<Rightarrow> bool"
  bt_similar :: "str \<Rightarrow> str \<Rightarrow> bool"
  bt_ws_regex :: "str list \<Rightarrow> (str \<Rightarrow> str option) option"
  bt_plan_names :: "disk \<Rightarrow> str \<Rightarrow> ioerr + str list"
  bt_spawn :: spawn_env
  bt_gave_up :: bool

type_synonym execution = "world \<times> agent_event list \<times> (str + tool_result)"

definition edit_schema :: json where
  "edit_schema = JObj
     [(''properties'', JObj
         [(''filePath'', string_param ''Absolute or relative path to the file to edit''),
          (''newString'', string_param ''The replacement text''),
          (''oldString'', string_param ''The text to search for in the file''),
          (''replaceAll'', typed_param ''boolean'' ''Replace all occurrences (default false)'')]),
      (''required'', JArr [JStr ''filePath'', JStr ''oldString'', JStr ''newString'']),
      (''type'', JStr ''object'')]"

definition edit_plan_schema :: json where
  "edit_plan_schema = JObj
     [(''properties'', JObj
         [(''file_path'', string_param (''Optional relative path to the plan file (e.g. '' @ quoted ''.agent/plan-add-auth.md''
              @ ''). If omitted, auto-discovers from .agent/plan-*.md.'')),
          (''new_text'', string_param ''The replacement text''),
          (''old_text'', string_param ''The exact text to find in the plan file'')]),
      (''required'', JArr [JStr ''old_text'', JStr ''new_text'']),
      (''type'', JStr ''object'')]"

definition apply_patch_schema :: json where
  "apply_patch_schema = JObj
     [(''properties'', JObj [(''patch'', string_param ''The patch content in unified diff format'')]),
      (''required'', JArr [JStr ''patch'']),
      (''type'', JStr ''object'')]"

definition guarded :: "(world \<Rightarrow> execution) \<Rightarrow> world \<Rightarrow> execution option \<Rightarrow> execution" where
  "guarded crash w r = (case r of None \<Rightarrow> crash w | Some x \<Rightarrow> x)"

definition read_tool :: "builtin_env \<Rightarrow> (world \<Rightarrow> execution) \<Rightarrow> tool" where
  "read_tool env crash =
     \<lparr>tl_name = ''read'',
      tl_description = ''Read a file'' @ [QUOTE] @ ''s contents or list a directory. Returns line-numbered output for files. ''
        @ ''Supports offset and limit parameters for reading specific sections of large files.'',
      tl_schema = read_schema,
      tl_execute = (\<lambda>args cx w. guarded crash w
        (map_option (\<lambda>r. (w, [], r)) (read_execute (bt_read_dir env (w_disk w)) args cx w)))\<rparr>"

definition edit_tool :: "builtin_env \<Rightarrow> (world \<Rightarrow> execution) \<Rightarrow> tool" where
  "edit_tool env crash =
     \<lparr>tl_name = ''edit'',
      tl_description = ''Make exact string replacements in files. Specify old_string to search for and new_string ''
        @ ''to replace it with. Supports fuzzy whitespace and indentation matching. ''
        @ ''Use replaceAll=true to replace all occurrences.'',
      tl_schema = edit_schema,
      tl_execute = (\<lambda>args cx w. guarded crash w
        (map_option (\<lambda>(w', r). (w', [], r)) (edit_execute (bt_similar env) (bt_ws_regex env) args cx w)))\<rparr>"

definition edit_plan_tool :: "builtin_env \<Rightarrow> (world \<Rightarrow> execution) \<Rightarrow> tool" where
  "edit_plan_tool env crash =
     \<lparr>tl_name = ''edit_plan'',
      tl_description = ''Make targeted edits to a plan file using find-and-replace. ''
        @ ''If file_path is omitted, auto-discovers the plan file from .agent/plan-*.md. ''
        @ ''Use for small revisions. For complete rewrites, use save_plan instead.'',
      tl_schema = edit_plan_schema,
      tl_execute = (\<lambda>args cx w. guarded crash w
        (map_option (\<lambda>(d, r). (w\<lparr>w_disk := d\<rparr>, [], Inr r))
          (edit_plan_execute (bt_similar env) (bt_ws_regex env)
             (bt_plan_names env (w_disk w) (path_join (cx_working_dir cx) ''.agent'')) args cx (w_disk w))))\<rparr>"

definition apply_patch_tool :: tool where
  "apply_patch_tool =
     \<lparr>tl_name = ''apply_patch'',
      tl_description = ''Apply a unified diff patch to one or more files. Use for coordinated multi-file changes. ''
        @ ''Supports creating, modifying, and deleting files. Prefer `edit` for single-file changes.'',
      tl_schema = apply_patch_schema,
      tl_execute = (\<lambda>args cx w. case apply_patch_execute args cx w of (w', r) \<Rightarrow> (w', [], r))\<rparr>"

definition builtin_tools :: "builtin_env \<Rightarrow> (world \<Rightarrow> execution) \<Rightarrow> tool list" where
  "builtin_tools env crash =
     [read_tool env crash, write_tool, bash_tool (bt_shell env), edit_tool env crash, glob_tool (bt_glob env),
      grep_tool (bt_grep env), git_tool (bt_git env), pr_tool (bt_git env) (bt_gh env), todo_write_tool (bt_git_dir env),
      apply_patch_tool, ask_user_tool, save_plan_tool (bt_git_dir env) (bt_alnum env), edit_plan_tool env crash]"

text \<open>The tool of a name. No mode asks for another name, so the rest is never reached.\<close>

definition builtin_tool :: "builtin_env \<Rightarrow> (world \<Rightarrow> execution) \<Rightarrow> str \<Rightarrow> tool" where
  "builtin_tool env crash name =
     (case find (\<lambda>t. tl_name t = name) (builtin_tools env crash) of
        Some t \<Rightarrow> t
      | None \<Rightarrow> (ask_user_tool\<lparr>tl_name := name\<rparr>))"

definition spawn_tool :: "builtin_env \<Rightarrow> (world \<Rightarrow> execution) \<Rightarrow> subagent_registry \<Rightarrow> inheritance \<Rightarrow> tool" where
  "spawn_tool env crash reg ih =
     \<lparr>tl_name = ''spawn_subagent'', tl_description = build_description reg, tl_schema = spawn_schema,
      tl_execute = (\<lambda>args cx w.
        case spawn_execute (bt_spawn env) ih reg (bt_gave_up env) args cx w of
          (w', evs, Some r) \<Rightarrow> (w', evs, r)
        | (w', evs, None) \<Rightarrow> crash w')\<rparr>"

definition register_spawn_subagent :: "builtin_env \<Rightarrow> (world \<Rightarrow> execution) \<Rightarrow> subagent_registry \<Rightarrow> inheritance
    \<Rightarrow> registry \<Rightarrow> registry" where
  "register_spawn_subagent env crash reg ih r =
     (if subagent_is_empty reg then r else register (spawn_tool env crash reg ih) r)"

text \<open>The registry of a run: the tools of the mode, \<open>spawn_subagent\<close> where the configuration has subagents and
  what they inherit, and the tools of the host.\<close>

definition agent_registry :: "builtin_env \<Rightarrow> (world \<Rightarrow> execution) \<Rightarrow> tool_mode \<Rightarrow> tool list option \<Rightarrow> skill_registry option
    \<Rightarrow> (subagent_registry \<times> inheritance) option \<Rightarrow> tool list \<Rightarrow> registry" where
  "agent_registry env crash mode engine_tools skills subagents extra =
     (let r1 = registry_for_mode (builtin_tool env crash) mode engine_tools (map_option skill_tool skills);
          r2 = (case subagents of None \<Rightarrow> r1 | Some (reg, ih) \<Rightarrow> register_spawn_subagent env crash reg ih r1)
      in fold register extra r2)"

end
