(* ===== verification/AgentToolsFacts.thy ===== *)
theory AgentToolsFacts
  imports AgentTools ToolExecFacts EditFacts Permissions SubagentFacts
begin

text \<open>
  What the modes that are meant to read only can change: in ask mode a call of a tool of its own writes nothing but
  a long output, where the programs that it starts write nothing, while a subagent spawned there has the tools of
  coding mode and \<open>edit_plan\<close> of plan mode edits any file.
\<close>

section \<open>Tools that leave the world\<close>

definition keeps_world :: "tool \<Rightarrow> bool" where
  "keeps_world t \<longleftrightarrow> (\<forall>args cx w. fst (tl_execute t args cx w) = w)"

lemma guarded_keeps:
  "\<forall>w. fst (crash w) = w \<Longrightarrow> fst (guarded crash w (map_option (\<lambda>r. (w, [], r)) x)) = w"
  by (cases x) (simp_all add: guarded_def)

lemma reading_tools_keep:
  assumes "\<forall>w. fst (crash w) = w"
  shows "keeps_world (read_tool env crash)" "keeps_world (glob_tool g)"
    "keeps_world ask_user_tool" "keeps_world (skill_tool s)" "keeps_world (graph_tool e)"
  using guarded_keeps [OF assms]
  by (simp_all add: keeps_world_def read_tool_def glob_tool_def ask_user_tool_def ask_execute_def
      skill_tool_def skill_execute_def graph_tool_def Let_def split: option.split)

lemma builtin_tool_names:
  "builtin_tool env crash ''read'' = read_tool env crash"
  "builtin_tool env crash ''glob'' = glob_tool (bt_glob env)"
  "builtin_tool env crash ''grep'' = grep_tool (bt_grep env)"
  "builtin_tool env crash ''ask_user'' = ask_user_tool"
  "builtin_tool env crash ''edit_plan'' = edit_plan_tool env crash"
  by (simp_all add: builtin_tool_def builtin_tools_def read_tool_def write_tool_def bash_tool_def edit_tool_def
      glob_tool_def grep_tool_def git_tool_def pr_tool_def todo_write_tool_def apply_patch_tool_def ask_user_tool_def
      save_plan_tool_def edit_plan_tool_def)

lemma fold_register_lookup:
  "map_of (fold register ts reg) n = Some t \<Longrightarrow> t \<in> set ts \<or> map_of reg n = Some t"
proof (induction ts arbitrary: reg)
  case (Cons u ts)
  then have "t \<in> set ts \<or> map_of (register u reg) n = Some t" by simp
  then show ?case by (auto simp: register_def update_conv' split: if_splits)
qed simp




text \<open>The tools of the search engine.\<close>

definition search_tools :: "git_program \<Rightarrow> (32 word \<Rightarrow> str) \<Rightarrow> context_engine_api option \<Rightarrow> tool list option" where
  "search_tools git show_score engine = map_option (\<lambda>e. [search_tool git show_score e, graph_tool e]) engine"

lemma builtin_tool_name: "tl_name (builtin_tool env crash n) = n"
  by (auto simp: builtin_tool_def find_Some_iff split: option.split)








text \<open>A subagent spawned in ask mode has the tools of coding mode, so with it the project can be written.\<close>

lemma ask_mode_child_writes:
  assumes "\<not> subagent_is_empty reg" and "get_subagent reg n = Some a" and "sa_allowed_tools a = None"
    and "ih_engine_tools ih = None" and "names_tools (sn_builtin (bt_spawn benv))"
  shows "get_tool (agent_registry benv crash AskMode engine_tools skills (Some (reg, ih)) []) ''spawn_subagent''
      = Some (spawn_tool benv crash reg ih)
    \<and> get_tool (child_registry (bt_spawn benv) ih a) ''write'' \<noteq> None"
proof
  show "get_tool (agent_registry benv crash AskMode engine_tools skills (Some (reg, ih)) []) ''spawn_subagent''
      = Some (spawn_tool benv crash reg ih)"
    using assms(1) by (simp add: agent_registry_def get_tool_def register_spawn_subagent_def get_register spawn_tool_def Let_def)
next
  have "''write'' \<in> set (tool_names (child_registry (bt_spawn benv) ih a))"
    using child_tools_confined [OF assms(5), of ih a] assms(3,4) by (simp add: mode_tools_def)
  then show "get_tool (child_registry (bt_spawn benv) ih a) ''write'' \<noteq> None"
    by (auto simp: tool_names_def get_tool_def map_of_eq_None_iff)
qed

text \<open>The name under which a long output is saved ends with the id of the call as the provider gives it, so an
  absolute id names a place outside the project.\<close>

lemma output_named_by_call_id:
  assumes "is_absolute i" and "\<not> (length (str_lines out) \<le> n \<and> length out \<le> k)"
    and "create_dir_all (fst (ensure_agent_dir git_dir dir d)) (components (path_join (path_join dir ''.agent'') ''tool-output'')) = Inr d1"
    and "write_file d1 (components (i @ ''.txt'')) out = Inr d2"
  shows "fst (truncate_and_persist git_dir out n k dir i d) = d2"
proof -
  have "is_absolute (i @ ''.txt'')" using assms(1) by (auto simp: is_absolute_def starts_with_iff)
  then have name: "path_join (path_join (path_join dir ''.agent'') ''tool-output'') (i @ ''.txt'') = i @ ''.txt''"
    by (simp add: path_join_def)
  obtain d0 where d0: "ensure_agent_dir git_dir dir d = (d0, path_join dir ''.agent'')"
    by (simp add: ensure_agent_dir_def Let_def)
  with assms name show ?thesis by (auto simp: truncate_and_persist_def Let_def)
qed

section \<open>Checkpoints of a subagent\<close>

lemma keeps_store: "(\<And>args cx w. w_store (fst (tl_execute t args cx w)) = w_store w) \<Longrightarrow> backs_up t"
  by (simp add: backs_up_def backed_up.none)

lemma keeps_world_backs_up: "keeps_world t \<Longrightarrow> backs_up t"
  by (rule keeps_store) (simp add: keeps_world_def)

lemma write_backs_up: "backs_up write_tool"
proof -
  have "backed_up (cx_session_id cx) (w_store w) (w_store (fst (write_execute args cx w)))" for args cx w
    using ctx_checkpoint_backs_up [of cx w] ctx_checkpoint_backs_up [of cx "w\<lparr>w_disk := d\<rparr>" for d]
    by (auto simp: write_execute_def Let_def backed_up.none split: option.split sum.split)
  then show ?thesis by (simp add: backs_up_def write_tool_def split: prod.split) (metis fst_conv)
qed

lemma edit_backs_up: "\<forall>v. w_store (fst (crash v)) = w_store v \<Longrightarrow> backs_up (edit_tool env crash)"
proof -
  assume c: "\<forall>v. w_store (fst (crash v)) = w_store v"
  have e: "backed_up (cx_session_id cx) (w_store w) (w_store w')"
    if "edit_execute sim ws args cx w = Some (w', r)" for sim ws args cx w w' r
    using that ctx_checkpoint_backs_up [of cx w]
    by (auto simp: edit_execute_def Let_def backed_up.none split: option.splits sum.splits if_splits)
  show ?thesis
    unfolding backs_up_def
  proof (intro allI)
    fix args cx w
    show "backed_up (cx_session_id cx) (w_store w) (w_store (fst (tl_execute (edit_tool env crash) args cx w)))"
      using c e [of "bt_similar env" "bt_ws_regex env" args cx w]
      by (cases "edit_execute (bt_similar env) (bt_ws_regex env) args cx w")
        (auto simp: edit_tool_def guarded_def backed_up.none)
  qed
qed

lemma staged_backs_up: "backed_up (cx_session_id cx) (w_store w) (w_store (fst (apply_staged cx ps w ns)))"
proof (induction cx ps w ns rule: apply_staged.induct)
  case (2 cx p name st rest w ns)
  obtain d r where one: "apply_staged_one p name st (w_disk w) = (d, r)" by (rule prod.exhaust)
  show ?case
  proof (cases r)
    case (Inr u)
    have "backed_up (cx_session_id cx) (w_store (ctx_checkpoint cx p w))
        (w_store (fst (apply_staged cx rest ((ctx_checkpoint cx p w)\<lparr>w_disk := d\<rparr>) (note_name name st ns))))"
      using 2 [OF refl _ Inr, of d] one by simp
    from backed_up_trans [OF this ctx_checkpoint_backs_up] show ?thesis by (simp add: one Inr Let_def)
  qed (simp add: one ctx_checkpoint_backs_up Let_def)
qed (simp add: backed_up.none)

lemma patch_backs_up: "backs_up apply_patch_tool"
proof -
  have "backed_up (cx_session_id cx) (w_store w) (w_store (fst (apply_patch_execute args cx w)))" for args cx w
  proof -
    have "backed_up (cx_session_id cx) (w_store w) (w_store w')" if "apply_staged cx ps w ns = (w', r)" for ps ns w' r
      using staged_backs_up [of cx w ps ns] that by simp
    then show ?thesis
      by (auto simp: apply_patch_execute_def Let_def backed_up.none split: option.split sum.split prod.split)
  qed
  then show ?thesis by (simp add: backs_up_def apply_patch_tool_def split: prod.split) (metis fst_conv)
qed

lemma disk_tools_back_up: "backs_up (bash_tool sh)" "backs_up (grep_tool g)" "backs_up (git_tool git)" "backs_up (pr_tool git gh)"
    "backs_up (todo_write_tool gd)" "backs_up (save_plan_tool gd al)" "backs_up (search_tool git sc e)"
  by (rule keeps_store; simp add: bash_tool_def bash_execute_def grep_tool_def git_tool_def git_execute_def pr_tool_def
      pr_execute_def todo_write_tool_def todo_execute_def save_plan_tool_def save_plan_execute_def search_tool_def
      search_execute_def Let_def split: option.split sum.split prod.split command_end.split if_split)+

lemma plan_backs_up: "\<forall>v. w_store (fst (crash v)) = w_store v \<Longrightarrow> backs_up (edit_plan_tool env crash)"
  by (rule keeps_store) (auto simp: edit_plan_tool_def guarded_def split: option.split)

lemma builtin_backs_up:
  assumes "\<forall>v. w_store (fst (crash v)) = w_store v"
  shows "backs_up (builtin_tool benv crash n)"
proof -
  have read: "backs_up (read_tool benv crash)"
    by (rule keeps_store) (use assms in \<open>auto simp: read_tool_def guarded_def split: option.split\<close>)
  have rest: "keeps_world (glob_tool g)" "keeps_world ask_user_tool" for g
    using reading_tools_keep [of "\<lambda>w. (w, [], Inl [])"] by simp_all
  have "backs_up (t\<lparr>tl_name := m\<rparr>)" if "backs_up t" for t m using that by (simp add: backs_up_def)
  moreover have "\<forall>t \<in> set (builtin_tools benv crash). backs_up t"
    using read rest edit_backs_up [OF assms] plan_backs_up [OF assms]
    by (simp add: builtin_tools_def write_backs_up patch_backs_up disk_tools_back_up keeps_world_backs_up)
  ultimately show ?thesis
    using rest by (auto simp: builtin_tool_def keeps_world_backs_up find_Some_iff split: option.split)
qed

text \<open>
  C26. A subagent, whose tools are the built-in ones and those of the search engine, changes the checkpoints only by
  backups for the fresh session of the child, and what a tool of the child backs up before it changes a file is
  backed up for that session. For every other session, the parent's among them, the list of checkpoints and what a
  restore does to any disk are those from before the call: the restore of a checkpoint of the parent knows nothing of
  what its subagents changed. (A call that panics leaves the checkpoints as the tools did.)
\<close>
theorem subagent_checkpoints_separate:
  assumes "sn_builtin env = builtin_tool benv crash" and "ih_engine_tools ih = search_tools git show_score engine"
    and "\<forall>v. w_store (fst (crash v)) = w_store v"
    and "\<forall>i idx f v. sn_panics env i idx = Some f \<longrightarrow> backed_up (sn_fresh env) (w_store v) (w_store (fst (f v)))"
    and "sanitize_session_id parent \<noteq> sanitize_session_id (sn_fresh env)"
    and "spawn_execute env ih reg g args cx w = (w', evs, r)"
  shows "backed_up (sn_fresh env) (w_store w) (w_store w')
    \<and> ctx_checkpoint (task_context (child_loop env ih name a cx) i c) p v =
        (case backup_file (w_store v) (w_disk v) (sn_fresh env) (word_of_nat i) p of
           Inr st \<Rightarrow> if ih_checkpoint_on ih then v\<lparr>w_store := st\<rparr> else v
         | Inl e \<Rightarrow> v)
    \<and> list_checkpoints (w_store w') parent = list_checkpoints (w_store w) parent
    \<and> restore_to (w_store w') parent t root d = restore_to (w_store w) parent t root d"
proof (intro conjI)
  have graph: "backs_up (graph_tool e)" for e
    using reading_tools_keep(5) [of "\<lambda>w. (w, [], Inl [])"] keeps_world_backs_up by simp
  have "own_tools env ih"
    using assms(1,2,4) builtin_backs_up [OF assms(3)] graph
    by (auto simp: own_tools_def search_tools_def disk_tools_back_up)
  from child_store [OF this, of w reg g args cx] assms(6) show b: "backed_up (sn_fresh env) (w_store w) (w_store w')" by simp
  from session_view_cong [of "w_store w'" parent "w_store w"] backed_up_other [OF this assms(5)]
  show "list_checkpoints (w_store w') parent = list_checkpoints (w_store w) parent"
    and "restore_to (w_store w') parent t root d = restore_to (w_store w) parent t root d" by blast+
  show "ctx_checkpoint (task_context (child_loop env ih name a cx) i c) p v =
        (case backup_file (w_store v) (w_disk v) (sn_fresh env) (word_of_nat i) p of
           Inr st \<Rightarrow> if ih_checkpoint_on ih then v\<lparr>w_store := st\<rparr> else v
         | Inl e \<Rightarrow> v)"
    by (simp add: ctx_checkpoint_def task_context_def child_loop_def child_config_def turn_no_def split: sum.split)
qed

text \<open>A child with the built-in tools.\<close>

definition builtin_spawn :: "builtin_env \<Rightarrow> spawn_env" where
  "builtin_spawn benv = demo_spawn\<lparr>sn_builtin := builtin_tool benv (\<lambda>w. (w, [], Inl ''panic''))\<rparr>"

theorem subagent_checkpoints_separate_witness:
  "\<forall>benv. restore_to (w_store (fst (spawn_execute (builtin_spawn benv) demo_inheritance [(''a'', demo_agent None)] False demo_call_args
      demo_context demo_world))) ''s'' 0 ''/p'' (demo_disk ''v'') = (demo_disk ''v'', Inr 0)"
proof
  fix benv
  obtain w' evs r where x: "spawn_execute (builtin_spawn benv) demo_inheritance [(''a'', demo_agent None)] False demo_call_args
      demo_context demo_world = (w', evs, r)" by (rule prod_cases3)
  have env: "sn_builtin (builtin_spawn benv) = builtin_tool benv (\<lambda>w. (w, [], Inl ''panic''))"
    "ih_engine_tools demo_inheritance = search_tools undefined undefined None"
    by (simp_all add: builtin_spawn_def demo_inheritance_def search_tools_def)
  have sid: "sanitize_session_id ''s'' \<noteq> sanitize_session_id (sn_fresh (builtin_spawn benv))"
    unfolding builtin_spawn_def demo_spawn_def by simp code_simp
  have "restore_to (w_store w') ''s'' 0 ''/p'' (demo_disk ''v'') = restore_to (w_store demo_world) ''s'' 0 ''/p'' (demo_disk ''v'')"
    using subagent_checkpoints_separate [OF env _ _ sid x] by (simp add: builtin_spawn_def demo_spawn_def)
  also have "restore_to (w_store demo_world) ''s'' 0 ''/p'' (demo_disk ''v'') = (demo_disk ''v'', Inr 0)"
    by (simp add: demo_world_def restore_to_def)
  finally show "restore_to (w_store (fst (spawn_execute (builtin_spawn benv) demo_inheritance [(''a'', demo_agent None)] False demo_call_args
      demo_context demo_world))) ''s'' 0 ''/p'' (demo_disk ''v'') = (demo_disk ''v'', Inr 0)"
    unfolding x fst_conv .
qed

section \<open>Plan mode\<close>

lemma read_then_write:
  assumes "read_to_string d p = Inr b"
  shows "\<exists>d'. write_file d p c = Inr d'"
  using assms
  by (auto simp: read_to_string_def read_file_def stat_def write_file_def split: sum.splits option.splits node.splits if_splits)

definition edit_plan_args :: "str \<Rightarrow> str \<Rightarrow> str \<Rightarrow> json" where
  "edit_plan_args p old new =
     JObj [(''file_path'', JStr p), (''old_text'', JStr old), (''new_text'', JStr new)]"

lemma plan_mode_edit_plan:
  "get_tool (agent_registry benv crash PlanMode None skills subagents []) ''edit_plan'' = Some (edit_plan_tool benv crash)"
  unfolding builtin_tool_names(5) [symmetric]
  by (cases skills; cases subagents)
    (auto simp: agent_registry_def registry_for_mode_def mode_tools_def get_tool_def get_register Let_def
      builtin_tool_name skill_tool_def register_spawn_subagent_def spawn_tool_def)

text \<open>C32. In plan mode, whose prompt says that no file can be edited, \<open>edit_plan\<close> edits any text file that is named by an
  absolute path, inside the project or not: a text that occurs once is replaced, no backup is made, the
  guard for paths is silent and no level of approval asks the user.\<close>

theorem edit_plan_edits_any_file:
  assumes "is_absolute p" and "read_to_string (w_disk w) (components p) = Inr content" and "\<not> detect_crlf content"
    and "old \<noteq> new" and "normalize_lf old \<noteq> []" and "count_sub (normalize_lf content) (normalize_lf old) = 1"
  shows "\<exists>t a b d. get_tool (agent_registry benv crash PlanMode None skills subagents []) ''edit_plan'' = Some t
    \<and> normalize_lf content = a @ normalize_lf old @ b
    \<and> write_file (w_disk w) (components p) (a @ normalize_lf new @ b) = Inr d
    \<and> fst (tl_execute t (edit_plan_args p old new) cx w) = w\<lparr>w_disk := d\<rparr>
    \<and> path_guard env i ''edit_plan'' (edit_plan_args p old new) cx w = None
    \<and> \<not> needs_approval \<lparr>pc_project_path = project, pc_level = level, pc_tool_overrides = None\<rparr> ''edit_plan''"
proof -
  from replace_text_exact [OF assms(4-6), of "bt_similar benv" "bt_ws_regex benv"] assms(3)
  obtain a b where ab: "normalize_lf content = a @ normalize_lf old @ b"
    and r: "replace_text (bt_similar benv) (bt_ws_regex benv) content old new False = Some (Inr (a @ normalize_lf new @ b))"
    by auto
  from read_then_write [OF assms(2)] obtain d where d: "write_file (w_disk w) (components p) (a @ normalize_lf new @ b) = Inr d"
    by blast
  have "p \<noteq> []" using assms(1) by (auto simp: is_absolute_def starts_with_def)
  moreover have "old \<noteq> []" using assms(5) by (auto simp: normalize_lf_def replace_sub_def CRLF_def split_sub.simps)
  ultimately have "fst (tl_execute (edit_plan_tool benv crash) (edit_plan_args p old new) cx w) = w\<lparr>w_disk := d\<rparr>"
    using assms(1,2,4) r d
    by (simp add: edit_plan_tool_def guarded_def edit_plan_execute_def edit_plan_args_def json_get_str_def path_join_def)
  moreover have "path_guard env i ''edit_plan'' (edit_plan_args p old new) cx w = None"
    by (simp add: path_guard_def modified_file_path_def)
  moreover have "\<not> needs_approval \<lparr>pc_project_path = project, pc_level = level, pc_tool_overrides = None\<rparr> ''edit_plan''"
    by (simp add: needs_approval_def system_tools_def)
  ultimately show ?thesis using ab d plan_mode_edit_plan by blast
qed

definition foreign_world :: world where
  "foreign_world = \<lparr>w_disk = [[] \<mapsto> NDir, [''etc''] \<mapsto> NDir, [''etc'', ''hosts''] \<mapsto> NFile ''a b''], w_store = Map.empty\<rparr>"

theorem edit_plan_edits_any_file_witness:
  "\<forall>benv crash cx. \<exists>t d. get_tool (agent_registry benv crash PlanMode None None None []) ''edit_plan'' = Some t
     \<and> fst (tl_execute t (edit_plan_args ''/etc/hosts'' ''b'' ''c'') cx foreign_world) = foreign_world\<lparr>w_disk := d\<rparr>
     \<and> (\<exists>a b. normalize_lf ''a b'' = a @ normalize_lf ''b'' @ b
          \<and> write_file (w_disk foreign_world) (components ''/etc/hosts'') (a @ normalize_lf ''c'' @ b) = Inr d)"
proof (intro allI)
  fix benv :: builtin_env and crash cx
  have "is_absolute ''/etc/hosts''" "\<not> detect_crlf ''a b''" "normalize_lf ''b'' \<noteq> []"
    "count_sub (normalize_lf ''a b'') (normalize_lf ''b'') = 1" by code_simp+
  moreover have "read_to_string (w_disk foreign_world) (components ''/etc/hosts'') = Inr ''a b''" by code_simp
  moreover have "''b'' \<noteq> ''c''" by simp
  ultimately show "\<exists>t d. get_tool (agent_registry benv crash PlanMode None None None []) ''edit_plan'' = Some t
     \<and> fst (tl_execute t (edit_plan_args ''/etc/hosts'' ''b'' ''c'') cx foreign_world) = foreign_world\<lparr>w_disk := d\<rparr>
     \<and> (\<exists>a b. normalize_lf ''a b'' = a @ normalize_lf ''b'' @ b
          \<and> write_file (w_disk foreign_world) (components ''/etc/hosts'') (a @ normalize_lf ''c'' @ b) = Inr d)"
    using edit_plan_edits_any_file [of "''/etc/hosts''" foreign_world "''a b''" "''b''" "''c''" benv crash None None cx] by metis
qed

end
