(* ===== verification/Spec2Isabelle.thy ===== *)
theory Spec2Isabelle
  imports JsonArgs CheckpointUndo CheckpointDiff ToolFacts EditFacts PatchFacts ToolExecFacts Resume LlmClientFacts ContextSyncFacts
    DesktopCheckpoints Display EventRelayFacts ProvidersFacts SkillFacts SubagentFacts PlanFacts FileFacts SystemPromptFacts DesktopContextFacts
    McpFacts GitFacts CodeSearchFacts AgentToolsFacts
begin

text \<open>
  Verification of the core of Godcoder, a coding agent: a Rust engine (\<open>crates/agent\<close>), its undo store
  (\<open>crates/git-ops\<close>), the synchronisation with a context engine (\<open>crates/context-sync\<close>) and the desktop
  application around them (\<open>apps/desktop/src-tauri\<close>).

  How the parts interact. The agent loop (\<open>agent/loop_.rs\<close>) sends the history of messages to a model
  (\<open>llm/client.rs\<close>, with one request builder and one stream parser per kind of provider), executes the tool
  calls of the answer (policy, argument check, path guard, approval, then the tool), appends the results and
  repeats, compacting the history when it grows too long. Tools that edit files back them up first
  (\<open>checkpoint.rs\<close>). Every message is persisted in a table (\<open>agent_bridge/db.rs\<close>) from which a session is
  resumed. In the desktop application each session has a folder; a message claims the folder, starts the loop as
  a task of the session manager (\<open>session.rs\<close>), and a relay (\<open>agent_bridge/events.rs\<close>) shows its events in the
  window until a monitor frees the folder (\<open>agent_bridge/commands.rs\<close>).

  Theories. \<open>RustPrelude\<close>: strings, UTF-8, sums as results, sorted maps. \<open>FileSystem\<close>: paths and a file store with
  the operations of \<open>std::fs\<close>, and the locale \<open>undo_store\<close>. \<open>Checkpoint\<close>, \<open>CheckpointFacts\<close>, \<open>CheckpointUndo\<close>,
  \<open>CheckpointDiff\<close>: \<open>git-ops/checkpoint.rs\<close>. \<open>JsonArgs\<close>: JSON values and the argument check (\<open>tool/schema.rs\<close>).
  \<open>Messages\<close>: \<open>types.rs\<close>, \<open>llm/types.rs\<close>, results, events and errors. \<open>Permissions\<close>: \<open>permissions.rs\<close> and
  \<open>approval.rs\<close>. \<open>Tools\<close>, \<open>ToolFacts\<close>: \<open>tool/mod.rs\<close>, \<open>util.rs\<close>, the write tool; \<open>EditTool\<close>, \<open>EditFacts\<close>: the edit
  tools; \<open>PatchTool\<close>, \<open>PatchFacts\<close>: the patch tool. \<open>Compaction\<close>, \<open>CompactionFacts\<close>: \<open>agent/compaction.rs\<close>.
  \<open>ToolExec\<close>, \<open>ToolExecFacts\<close>: registry and execution of one call. \<open>Sse\<close>, \<open>SseFacts\<close>, \<open>Anthropic\<close>,
  \<open>AnthropicFacts\<close>, \<open>LlmClient\<close>, \<open>LlmClientFacts\<close>: the client. \<open>AgentLoop\<close>, \<open>AgentLoopFacts\<close>: the run.
  \<open>Persistence\<close>, \<open>Attachments\<close>, \<open>MessageDb\<close>, \<open>MessageDbFacts\<close>, \<open>Resume\<close>: the message table and what a resumed
  session gets back. \<open>IgnoreFilter\<close>, \<open>ContextSync\<close>, \<open>ContextSyncFacts\<close>: the synchronisation.
  \<open>SessionTable\<close>: the sessions of \<open>db.rs\<close>. \<open>SessionManager\<close>, \<open>SessionManagerFacts\<close>: \<open>session.rs\<close>, tasks and
  watchers as steps in any order. \<open>EventRelay\<close>, \<open>EventRelayFacts\<close>: \<open>events.rs\<close>. \<open>Display\<close>: the messages shown.
  \<open>Providers\<close>, \<open>ProvidersFacts\<close>: \<open>model_profile.rs\<close> and the providers in the settings. \<open>Desktop\<close>, \<open>DesktopFacts\<close>,
  \<open>DesktopCheckpoints\<close>: \<open>AgentState\<close> and its commands; \<open>desktop_step\<close> has a rule for every piece of a command or
  task between which others can come, and the theorems hold in every state reachable by such steps.
  \<open>Skills\<close>, \<open>SkillFacts\<close>: \<open>frontmatter.rs\<close> and \<open>skills\<close>. \<open>LoopWorld\<close>: what a run does to the world of its tools.
  \<open>Subagents\<close>, \<open>SubagentFacts\<close>: \<open>subagents\<close>, a call of the tool being a nested run; \<open>lock_step\<close> has the calls that
  run at once: which tools a call was given, where its program is, and who holds the write lock of a folder. \<open>PlanTools\<close>, \<open>PlanFacts\<close>: the todo, plan and question tools;
  \<open>FileTools\<close>, \<open>FileFacts\<close>: \<open>read\<close>, \<open>glob\<close>, \<open>grep\<close> and \<open>bash\<close>.
  \<open>SystemPrompt\<close>, \<open>SystemPromptFacts\<close>: \<open>agent/prompt.rs\<close> and the configuration of a run; \<open>DesktopContext\<close>,
  \<open>DesktopContextFacts\<close>: compacting and clearing by hand and the other session commands of \<open>commands.rs\<close>; the
  events of both attempts at a summary go through one bounded channel, \<open>channel_step\<close>.
  \<open>Mcp\<close>, \<open>McpFacts\<close>: the client of the Model Context Protocol, \<open>mcp/mod.rs\<close>.
  \<open>GitOps\<close>, \<open>GitFacts\<close>: the git and pull request functions of \<open>git-ops\<close> and the tools over them. \<open>CodeSearch\<close>,
  \<open>CodeSearchFacts\<close>: \<open>context_engine.rs\<close> and the search tools. \<open>AgentTools\<close>, \<open>AgentToolsFacts\<close>: all built-in
  tools under their names, the tool that starts a subagent among them, what a run in a mode that only reads can
  change, and that the checkpoints of a child are not those of its parent.

  Interfaces. \<open>undo_store\<close> (\<open>FileSystem\<close>) says what backing up before editing must guarantee and is interpreted
  on the manifests of the checkpoint store; \<open>message_store\<close> (\<open>MessageDbFacts\<close>) is the persister interface,
  interpreted on the mock of the library and on the table (what the table returns after any log of messages,
  usage, resets and rewinds is \<open>persisted_context_returns\<close>); \<open>delta_parser\<close> (\<open>SseFacts\<close>) is the contract of
  a stream parser, interpreted on both providers.

  Conventions. A Rust panic is a value of the result. Sizes of 64 bits that cannot overflow on real inputs
  are naturals, others are words. Behaviour of the environment (answers of the model and of the user, the order
  in which concurrent tasks end, clocks, hashes, JSON text) is a parameter. There is no fuel: the loop of a run
  recurses on the iterations that remain, and the only loop without a bound, waiting for the server, is a
  partial function whose termination is a theorem.

  Not modelled. Paths are those of Unix; symbolic links are in the file store but excluded in the theorems on
  undoing. Faults of the disk in the middle of an operation, failures of the database and the delays between
  retries are left out. Parallel tool calls are interleaved as whole calls. The file watcher (\<open>context_watcher\<close>),
  which calls the modelled synchronisation after a pause, is timing and a watching library; \<open>engine_control.rs\<close>,
  \<open>ollama.rs\<close>, \<open>tts.rs\<close>, \<open>ide.rs\<close> and the other window commands of \<open>lib.rs\<close> and \<open>commands.rs\<close> start programs, call
  local services or hand arguments of the window on; the bench runner and the bulk indexer are command lines over
  the modelled parts; the front end is TypeScript.
\<close>

end
